(* ===== verification/Prelude.thy ===== *)
theory Prelude
  imports Main "HOL-Library.AList" "HOL-Library.Char_ord" "HOL-Library.List_Lexorder"
begin

text \<open>
  What every theory of the development shares: JavaScript truthiness, association lists as the
  directories of the runtime storage, results that may be a thrown error, and the
  compare-and-set retry loop the managers of \<^verbatim>\<open>src/central/managers\<close> are written around.
\<close>

named_theorems tab_simps \<open>how a read sees a write of the runtime storage\<close>
named_theorems op_defs \<open>definitions of small helpers that component proofs unfold together\<close>

subsection \<open>Optional strings\<close>

text \<open>
  An optional string field is a \<open>string option\<close>. The source tests such a field with
  \<^verbatim>\<open>if (!x)\<close>, which is also true of the empty string.
\<close>

definition truthy :: "string option \<Rightarrow> bool" where
  "truthy x = (case x of None \<Rightarrow> False | Some s \<Rightarrow> s \<noteq> [])"

lemma truthy_simps [simp]:
  "\<not> truthy None"
  "truthy (Some s) = (s \<noteq> [])"
  by (simp_all add: truthy_def)

lemma truthyE: "truthy x \<Longrightarrow> (\<And>s. x = Some s \<Longrightarrow> s \<noteq> [] \<Longrightarrow> P) \<Longrightarrow> P"
  by (cases x) auto

text \<open>\<^verbatim>\<open>x ?? y\<close> on an optional value.\<close>

definition orElse :: "'a option \<Rightarrow> 'a \<Rightarrow> 'a" where
  "orElse x y = (case x of None \<Rightarrow> y | Some v \<Rightarrow> v)"

lemma orElse_simps [simp]:
  "orElse None y = y"
  "orElse (Some v) y = v"
  by (simp_all add: orElse_def)

text \<open>
  \<^verbatim>\<open>x ?? y\<close> where the right operand is optional too, and \<^verbatim>\<open>Array.prototype.find\<close>.
\<close>

definition orOpt :: "'a option \<Rightarrow> 'a option \<Rightarrow> 'a option" where
  "orOpt x y = (case x of None \<Rightarrow> y | Some v \<Rightarrow> Some v)"

lemma orOpt_simps [simp]:
  "orOpt None y = y"
  "orOpt (Some v) y = Some v"
  by (simp_all add: orOpt_def)

lemma find_None_iff_ball: "find P xs = None \<longleftrightarrow> (\<forall>x \<in> set xs. \<not> P x)"
  by (auto simp: find_None_iff)

lemma find_SomeD: "find P xs = Some x \<Longrightarrow> P x \<and> x \<in> set xs"
  by (auto simp: find_Some_iff)

lemma find_SomeI:
  assumes "x \<in> set xs" and "P x" and unique: "\<And>y. y \<in> set xs \<Longrightarrow> P y \<Longrightarrow> y = x"
  shows "find P xs = Some x"
proof (cases "find P xs")
  case None
  with assms(1,2) show ?thesis by (auto simp: find_None_iff)
next
  case (Some y)
  with find_SomeD [OF Some] unique show ?thesis by simp
qed

subsection \<open>Directories of records\<close>

text \<open>
  A directory of JSON files is an association list from file names to records, in the order in
  which \<^verbatim>\<open>readdir\<close> lists it. Replacing a file keeps its place; a new file takes the last
  place. Every property of the development holds for a directory in any order.
\<close>

type_synonym ('k, 'r) table = "('k \<times> 'r) list"

definition tget :: "('k, 'r) table \<Rightarrow> 'k \<Rightarrow> 'r option" where
  "tget t k = map_of t k"

definition tput :: "'k \<Rightarrow> 'r \<Rightarrow> ('k, 'r) table \<Rightarrow> ('k, 'r) table" where
  "tput k r t = AList.update k r t"

definition tall :: "('k, 'r) table \<Rightarrow> 'r list" where
  "tall t = map snd t"

text \<open>A table is keyed when every record is stored once, under the name made from its own key.\<close>

definition keyed :: "('r \<Rightarrow> 'k) \<Rightarrow> ('k, 'r) table \<Rightarrow> bool" where
  "keyed key t = (distinct (map fst t) \<and> (\<forall>(k, r) \<in> set t. key r = k))"

lemma tget_Nil [simp]: "tget [] k = None"
  by (simp add: tget_def)

lemma keyed_Nil [simp]: "keyed key []"
  by (simp add: keyed_def)

lemma tget_tput [tab_simps]: "tget (tput k r t) k' = (if k' = k then Some r else tget t k')"
  by (auto simp: tget_def tput_def update_conv)

lemma set_update_keyed:
  "distinct (map fst t) \<Longrightarrow> set (AList.update k r t) = {(k', r') \<in> set t. k' \<noteq> k} \<union> {(k, r)}"
proof (induction t)
  case Nil
  then show ?case by simp
next
  case (Cons p t)
  show ?case
  proof (cases "fst p = k")
    case True
    with Cons.prems have "k \<notin> fst ` set t" by auto
    with True show ?thesis by (cases p) force
  next
    case False
    with Cons show ?thesis by (cases p) auto
  qed
qed

lemma keyed_tput: "keyed key t \<Longrightarrow> key r = k \<Longrightarrow> keyed key (tput k r t)"
  by (auto simp: keyed_def tput_def set_update_keyed distinct_update)

lemma keyed_tget: "keyed key t \<Longrightarrow> tget t k = Some r \<Longrightarrow> key r = k"
  by (auto simp: keyed_def tget_def dest: map_of_SomeD)

lemma tall_tget: "keyed key t \<Longrightarrow> r \<in> set (tall t) \<longleftrightarrow> tget t (key r) = Some r"
  by (force simp: keyed_def tall_def tget_def image_iff dest: map_of_SomeD intro: map_of_is_SomeI)

lemma tall_tgetI: "tget t k = Some r \<Longrightarrow> r \<in> set (tall t)"
  by (force simp: tall_def tget_def image_iff dest: map_of_SomeD)

lemma tall_tput:
  "keyed key t \<Longrightarrow> set (tall (tput k r t)) = {r' \<in> set (tall t). key r' \<noteq> k} \<union> {r}"
  by (force simp: keyed_def tall_def tput_def set_update_keyed)

lemma keyed_find_unique:
  "keyed key t \<Longrightarrow> tget t k = Some r \<Longrightarrow> find (\<lambda>x. key x = k) (tall t) = Some r"
proof (rule find_SomeI)
  assume a: "keyed key t" "tget t k = Some r"
  then show "r \<in> set (tall t)" by (blast intro: tall_tgetI)
  from a show "key r = k" by (rule keyed_tget)
  fix y assume "y \<in> set (tall t)" "key y = k"
  with a show "y = r" using tall_tget [OF a(1), of y] by simp
qed

subsection \<open>Operations that may throw\<close>

text \<open>
  An operation on a state \<open>'w\<close> returns a thrown error or a value, and the state it leaves:
  writes made before a \<^verbatim>\<open>throw\<close> stay made.
\<close>

type_synonym ('w, 'e, 'a) op = "'w \<Rightarrow> ('e + 'a) \<times> 'w"

definition ok :: "'a \<Rightarrow> ('w, 'e, 'a) op" where
  "ok x w = (Inr x, w)"

definition throw :: "'e \<Rightarrow> ('w, 'e, 'a) op" where
  "throw e w = (Inl e, w)"

definition andThen :: "('w, 'e, 'a) op \<Rightarrow> ('a \<Rightarrow> ('w, 'e, 'b) op) \<Rightarrow> ('w, 'e, 'b) op" where
  "andThen m f w = (case m w of (Inl e, w1) \<Rightarrow> (Inl e, w1) | (Inr x, w1) \<Rightarrow> f x w1)"

lemma ok_apply [simp]: "ok x w = (Inr x, w)"
  by (simp add: ok_def)

lemma throw_apply [simp]: "throw e w = (Inl e, w)"
  by (simp add: throw_def)

lemma andThen_simps [simp]:
  "andThen (ok x) f w = f x w"
  "andThen (throw e) f w = (Inl e, w)"
  by (simp_all add: andThen_def)

lemma andThen_Inr:
  "andThen m f w = (Inr y, w2) \<longleftrightarrow> (\<exists>x w1. m w = (Inr x, w1) \<and> f x w1 = (Inr y, w2))"
  by (auto simp: andThen_def split: prod.splits sum.splits)

lemma andThen_Inl:
  "andThen m f w = (Inl e, w2)
    \<longleftrightarrow> m w = (Inl e, w2) \<or> (\<exists>x w1. m w = (Inr x, w1) \<and> f x w1 = (Inl e, w2))"
  by (auto simp: andThen_def split: prod.splits sum.splits)

text \<open>A part of the state both parts leave alone is left alone by the composition.\<close>

lemma andThen_same:
  assumes "\<And>w. g (snd (m w)) = g w" and "\<And>x w. g (snd (f x w)) = g w"
  shows "g (snd (andThen m f w)) = g w"
  using assms by (auto simp: andThen_def split: prod.splits sum.splits) (metis snd_conv)+

lemma snd_andThen_ok [simp]: "snd (andThen m (\<lambda>x. ok (h x)) w) = snd (m w)"
  by (auto simp: andThen_def split: prod.splits sum.splits)

text \<open>A state predicate kept by both parts is kept by the composition.\<close>

lemma andThen_preserves:
  assumes "\<And>w. P w \<Longrightarrow> P (snd (m w))" and "\<And>x w. P w \<Longrightarrow> P (snd (f x w))" and "P w"
  shows "P (snd (andThen m f w))"
  using assms(1) [OF assms(3)] assms(2)
  by (auto simp: andThen_def split: prod.splits sum.splits)

subsection \<open>The compare-and-set retry loop\<close>

text \<open>
  The managers update a versioned record by \<^verbatim>\<open>for (;;) { read; compute; if (await cas) return; }\<close>.
  Between the read and the compare-and-set other asynchronous tasks may run. The first argument
  lists what they do to the state, one entry for each attempt in which they do something; once
  the list is used up the record is left alone. \<open>prepare\<close> is the part before the write: it
  throws, returns at once (\<open>Return\<close>), or asks for a write and says what to return when it
  succeeds (\<open>Write\<close>). \<open>None\<close> means that an attempt nobody disturbed failed all the same:
  every later attempt would be the same attempt, so the loop never returns.
\<close>

datatype ('n, 'r) attempt = Return 'r | Write int 'n 'r

fun cas_loop ::
  "('w \<Rightarrow> 'w) list \<Rightarrow> ('w, 'e, ('n, 'r) attempt) op \<Rightarrow> (int \<Rightarrow> 'n \<Rightarrow> ('w, 'e, bool) op)
    \<Rightarrow> 'w \<Rightarrow> (('e + 'r) \<times> 'w) option" where
  "cas_loop [] prepare cas w =
     (case prepare w of
        (Inl e, w1) \<Rightarrow> Some (Inl e, w1)
      | (Inr (Return r), w1) \<Rightarrow> Some (Inr r, w1)
      | (Inr (Write rv n r), w1) \<Rightarrow>
          (case cas rv n w1 of
             (Inl e, w2) \<Rightarrow> Some (Inl e, w2)
           | (Inr won, w2) \<Rightarrow> if won then Some (Inr r, w2) else None))"
| "cas_loop (others # rest) prepare cas w =
     (case prepare w of
        (Inl e, w1) \<Rightarrow> Some (Inl e, w1)
      | (Inr (Return r), w1) \<Rightarrow> Some (Inr r, w1)
      | (Inr (Write rv n r), w1) \<Rightarrow>
          (case cas rv n (others w1) of
             (Inl e, w2) \<Rightarrow> Some (Inl e, w2)
           | (Inr won, w2) \<Rightarrow> if won then Some (Inr r, w2) else cas_loop rest prepare cas w2))"

text \<open>
  An operation that contains such loops: \<open>None\<close> says that the interference it was given was too short for
  one of its loops to end. \<open>sync\<close> is a part that no other task interrupts, \<open>awaiting\<close> runs one part
  after the other, \<open>attempted\<close> is \<^verbatim>\<open>try { await ... } catch { log }\<close>.
\<close>

type_synonym ('w, 'e, 'a) aop = "'w \<Rightarrow> (('e + 'a) \<times> 'w) option"

definition sync :: "('w, 'e, 'a) op \<Rightarrow> ('w, 'e, 'a) aop" where
  "sync m w = Some (m w)"

definition awaiting :: "('w, 'e, 'a) aop \<Rightarrow> ('a \<Rightarrow> ('w, 'e, 'b) aop) \<Rightarrow> ('w, 'e, 'b) aop" where
  "awaiting m f w =
     (case m w of None \<Rightarrow> None | Some (Inl e, w1) \<Rightarrow> Some (Inl e, w1) | Some (Inr x, w1) \<Rightarrow> f x w1)"

definition attempted :: "('w, 'e, 'a) aop \<Rightarrow> ('w, 'e, unit) aop" where
  "attempted m w = (case m w of None \<Rightarrow> None | Some (_, w1) \<Rightarrow> Some (Inr (), w1))"

text \<open>
  Total correctness of the loop, for any interference that keeps \<open>I\<close>: if an undisturbed attempt
  always wins, and every winning write establishes \<open>Q\<close>, the loop returns with \<open>Q\<close>.
\<close>

lemma cas_loop_total:
  assumes undisturbed: "\<And>w w1 rv n r. I w \<Longrightarrow> prepare w = (Inr (Write rv n r), w1) \<Longrightarrow>
            fst (cas rv n w1) \<noteq> Inr False"
    and prep_I: "\<And>w. I w \<Longrightarrow> I (snd (prepare w))"
    and cas_I: "\<And>w rv n. I w \<Longrightarrow> fst (cas rv n w) = Inr False \<Longrightarrow> I (snd (cas rv n w))"
    and env_I: "\<And>f w. f \<in> set env \<Longrightarrow> I w \<Longrightarrow> I (f w)"
    and start: "I w"
  shows "\<exists>out. cas_loop env prepare cas w = Some out"
  using env_I start
proof (induction env arbitrary: w)
  case Nil
  obtain a w1 where pw: "prepare w = (a, w1)" by (cases "prepare w")
  show ?case
  proof (cases a)
    case (Inl e)
    with pw show ?thesis by simp
  next
    case (Inr att)
    show ?thesis
    proof (cases att)
      case (Return r)
      with pw Inr show ?thesis by simp
    next
      case (Write rv n r)
      with undisturbed [OF Nil(2), of rv n r w1] pw Inr
      show ?thesis by (auto split: prod.splits sum.splits)
    qed
  qed
next
  case (Cons f env)
  obtain a w1 where pw: "prepare w = (a, w1)" by (cases "prepare w")
  have I1: "I (f w1)" using Cons.prems pw prep_I [of w] by simp
  show ?case
  proof (cases a)
    case (Inl e)
    with pw show ?thesis by simp
  next
    case (Inr att)
    show ?thesis
    proof (cases att)
      case (Return r)
      with pw Inr show ?thesis by simp
    next
      case (Write rv n r)
      obtain b w2 where cw: "cas rv n (f w1) = (b, w2)" by (cases "cas rv n (f w1)")
      show ?thesis
      proof (cases "b = Inr False")
        case True
        with cas_I [OF I1, of rv n] cw have "I w2" by simp
        with Cons.IH [of w2] Cons.prems(1) obtain out where "cas_loop env prepare cas w2 = Some out"
          by auto
        with pw Inr Write cw True show ?thesis by simp
      next
        case False
        with pw Inr Write cw show ?thesis by (cases b) auto
      qed
    qed
  qed
qed

text \<open>What a returning loop did: its last attempt, on a state that satisfies \<open>I\<close>.\<close>

lemma cas_loop_last:
  assumes run: "cas_loop env prepare cas w = Some (out, w')"
    and prep_I: "\<And>w. I w \<Longrightarrow> I (snd (prepare w))"
    and cas_I: "\<And>w rv n. I w \<Longrightarrow> fst (cas rv n w) = Inr False \<Longrightarrow> I (snd (cas rv n w))"
    and env_I: "\<And>f w. f \<in> set env \<Longrightarrow> I w \<Longrightarrow> I (f w)"
    and start: "I w"
    and err: "\<And>v e v1. I v \<Longrightarrow> prepare v = (Inl e, v1) \<Longrightarrow> Q (Inl e) v1"
    and ret: "\<And>v r v1. I v \<Longrightarrow> prepare v = (Inr (Return r), v1) \<Longrightarrow> Q (Inr r) v1"
    and fail: "\<And>v v1 rv n r u e u2. I v \<Longrightarrow> prepare v = (Inr (Write rv n r), v1) \<Longrightarrow> I u \<Longrightarrow>
          cas rv n u = (Inl e, u2) \<Longrightarrow> Q (Inl e) u2"
    and win: "\<And>v v1 rv n r u u2. I v \<Longrightarrow> prepare v = (Inr (Write rv n r), v1) \<Longrightarrow> I u \<Longrightarrow>
          cas rv n u = (Inr True, u2) \<Longrightarrow> Q (Inr r) u2"
  shows "Q out w'"
  using run env_I start
proof (induction env arbitrary: w)
  case Nil
  obtain a w1 where pw: "prepare w = (a, w1)" by (cases "prepare w")
  have I1: "I w1" using prep_I [OF Nil(3)] pw by simp
  show ?case
    using Nil(1) pw err [OF Nil(3), of _ w1] ret [OF Nil(3), of _ w1]
      fail [OF Nil(3) _ I1] win [OF Nil(3) _ I1]
    by (auto split: sum.splits attempt.splits prod.splits if_splits)
next
  case (Cons f env)
  obtain a w1 where pw: "prepare w = (a, w1)" by (cases "prepare w")
  have I1: "I (f w1)" using Cons.prems pw prep_I [of w] by simp
  show ?case
  proof (cases "\<exists>rv n r. a = Inr (Write rv n r) \<and> fst (cas rv n (f w1)) = Inr False")
    case True
    then obtain rv n r where a: "a = Inr (Write rv n r)"
      and lost: "fst (cas rv n (f w1)) = Inr False" by blast
    define w2 where "w2 = snd (cas rv n (f w1))"
    from lost have cw: "cas rv n (f w1) = (Inr False, w2)"
      by (simp add: w2_def prod_eq_iff)
    from Cons.prems(1) pw a cw have "cas_loop env prepare cas w2 = Some (out, w')" by simp
    moreover from cas_I [OF I1 lost] have "I w2" by (simp add: w2_def)
    ultimately show ?thesis using Cons.IH Cons.prems(2) by simp
  next
    case False
    with Cons.prems(1) pw err [OF Cons.prems(3), of _ w1] ret [OF Cons.prems(3), of _ w1]
      fail [OF Cons.prems(3) _ I1] win [OF Cons.prems(3) _ I1]
    show ?thesis by (auto split: sum.splits attempt.splits prod.splits if_splits)
  qed
qed

end
