(* ===== verification/Models.thy ===== *)
theory Models
  imports Prelude
begin

text \<open>
  The durable models of \<^verbatim>\<open>src/shared/models\<close>: one record or datatype per interface or union
  type, with the fields in the source's order. A field \<open>f\<close> of a record is named with the record's
  prefix (\<open>ses_status\<close> is \<^verbatim>\<open>SessionRecord.status\<close>), because Isabelle field names are global.

  Numbers that count (cursors, revisions, capacities, milliseconds) are \<open>int\<close>: the source's
  doubles are exact on the integers it uses. A timestamp is the number of milliseconds that
  \<^verbatim>\<open>Date.parse\<close> reads back from the ISO string \<^verbatim>\<open>Date.toISOString\<close> wrote. A
  \<^verbatim>\<open>Record<string, string>\<close> is the list of its entries in insertion order. A string is a
  list of code units below 256. A value of type \<^verbatim>\<open>unknown\<close> is a JSON value.
\<close>

type_synonym time = int
type_synonym labels = "(string \<times> string) list"

datatype json =
    JNull
  | JBool bool
  | JNum int
  | JStr string
  | JArr "json list"
  | JObj "(string \<times> json) list"

text \<open>
  \<^verbatim>\<open>x.k\<close> on a JSON value: \<open>None\<close> is \<^verbatim>\<open>undefined\<close>, which a value that is no
  object gives too. \<open>jobj\<close> builds an object, leaving out the properties that are
  \<^verbatim>\<open>undefined\<close>.
\<close>

fun jfield :: "string \<Rightarrow> json \<Rightarrow> json option" where
  "jfield k (JObj kvs) = map_of kvs k"
| "jfield k _ = None"

fun jstring :: "json option \<Rightarrow> string option" where
  "jstring (Some (JStr s)) = Some s"
| "jstring _ = None"

fun isRecord :: "json option \<Rightarrow> bool" where
  "isRecord (Some (JObj kvs)) = True"
| "isRecord _ = False"

definition jobj :: "(string \<times> json option) list \<Rightarrow> json" where
  "jobj kvs = JObj [(k, the v). (k, v) \<leftarrow> kvs, v \<noteq> None]"

subsection \<open>AgentSpec, Delegate\<close>

record tool_definition =
  td_name :: string
  td_description :: string
  td_inputSchema :: json
  td_delegateId :: string

record agent_spec =
  as_agentSpecId :: string
  as_labels :: labels
  as_command :: string
  as_args :: "string list"
  as_instructions :: string
  as_toolProfile :: string
  as_asCaller :: "string list"
  as_asCallee :: "string list"
  as_matchLabels :: labels
  as_pausePolicy :: string
  as_recoveryPolicy :: string
  as_idlePauseTimeoutMs :: int
  as_version :: string

record resolved_agent_spec = agent_spec +
  ra_runtimeTools :: "tool_definition list"
  ra_resolvedAt :: time
  ra_digest :: string

datatype target_policy = Pool | Device

record delegate =
  dl_id :: string
  dl_toolName :: string
  dl_description :: string
  dl_maxInputBytes :: int
  dl_maxResultBytes :: int
  dl_deadlineMs :: int
  dl_maxQueuedCalls :: int
  dl_targetPolicy :: "target_policy option"

record resolved_delegate =
  rd_id :: string
  rd_toolName :: string
  rd_description :: string
  rd_digest :: string
  rd_maxInputBytes :: int
  rd_maxResultBytes :: int
  rd_deadlineMs :: int
  rd_maxQueuedCalls :: int
  rd_targetPolicy :: target_policy

subsection \<open>Session\<close>

datatype session_status =
    Created | Queued | Starting | Running | Pausing | Paused | Resuming
  | Completed | Cancelled | Failed

datatype interaction_kind = Approval | ToolCall

record delegation_binding =
  db_delegationId :: string
  db_parentSessionId :: string
  db_delegateId :: string

record session =
  ses_sessionId :: string
  ses_tenantId :: string
  ses_owner :: string
  ses_resolvedAgentSpec :: resolved_agent_spec
  ses_status :: session_status
  ses_currentWorkerId :: "string option"
  ses_sessionLeaseId :: "string option"
  ses_storageClass :: "string option"
  ses_eventCursor :: int
  ses_nextTurnSeq :: int
  ses_workspaceRef :: string
  ses_latestSnapshotRef :: "string option"
  ses_lifecycleReason :: "string option"
  ses_delegationBinding :: "delegation_binding option"
  ses_requiredWorkerLabels :: "labels option"
  ses_lastEventUpdatedAt :: time
  ses_createdAt :: time
  ses_updatedAt :: time

subsection \<open>Worker, WorkerPool\<close>

datatype worker_condition = Ready | Busy | Draining | Disconnected

datatype worker_lifecycle = Registered | Active | Closed | Expired

record worker =
  wk_workerId :: string
  wk_tenantId :: string
  wk_capacityScope :: string
  wk_hostPoolInstanceId :: "string option"
  wk_labels :: labels
  wk_storageClass :: string
  wk_reuse :: "bool option"
  wk_description :: "labels option"
  wk_capacity :: int
  wk_allocatable :: int
  wk_conditions :: "worker_condition list"
  wk_lifecycleState :: worker_lifecycle
  wk_heartbeatAt :: time
  wk_expiresAt :: time
  wk_registeredAt :: "time option"
  wk_currentSessionCount :: int
  wk_boundSessionId :: "string option"
  wk_terminalReason :: "string option"
  wk_updatedAt :: time

record edge_binding_payload =
  eb_caseId :: string
  eb_deviceId :: string
  eb_deviceRef :: string
  eb_bindingCredential :: string

record worker_register_payload =
  wr_hostPoolInstanceId :: "string option"
  wr_labels :: labels
  wr_storageClass :: string
  wr_description :: "labels option"
  wr_capacity :: int
  wr_allocatable :: int
  wr_edgeBinding :: "edge_binding_payload option"

record worker_heartbeat_payload =
  wh_workerId :: string
  wh_capacity :: int
  wh_allocatable :: int
  wh_conditions :: "worker_condition list"

datatype host_instance_state = Pending | InstReady | Stopping | Stopped | InstFailed

record worker_pool =
  wp_poolId :: string
  wp_tenantId :: string
  wp_templateLabels :: labels
  wp_templateCapacity :: int
  wp_hostPoolControllerClass :: string
  wp_scaleOutMaxPendingPerTick :: int
  wp_scaleInIdleMs :: int
  wp_workerReportTimeoutMs :: int
  wp_centralUrlForWorkers :: string
  wp_reuse :: "bool option"

record host_instance =
  hi_instanceId :: string
  hi_tenantId :: string
  hi_poolId :: string
  hi_hostPoolControllerClass :: string
  hi_labels :: labels
  hi_capacity :: int
  hi_state :: host_instance_state
  hi_hostHandle :: "string option"
  hi_currentWorkerId :: "string option"
  hi_controllerEpoch :: "string option"
  hi_reportExpectedAfter :: "time option"
  hi_reportDeadline :: "time option"
  hi_boundSessionId :: "string option"
  hi_workspaceRef :: "string option"
  hi_idleSince :: "time option"
  hi_failureReason :: "string option"
  hi_createdAt :: time
  hi_updatedAt :: time
  hi_stoppedAt :: "time option"

subsection \<open>Snapshot\<close>

datatype snapshot_part = WorkspacePart | AgentStatePart

record workspace_snapshot =
  sn_snapshotId :: string
  sn_sessionId :: string
  sn_storageClass :: string
  sn_handle :: string
  sn_parts :: "snapshot_part list"
  sn_baseEventCursor :: int
  sn_createdAt :: time

record capture_ref =
  cr_snapshotId :: string
  cr_storageClass :: string
  cr_handle :: string

record restore_ref =
  rr_snapshotId :: string
  rr_storageClass :: string
  rr_handle :: string
  rr_parts :: "snapshot_part list"

subsection \<open>Delegation, fan-out\<close>

datatype delegation_status = CreatingChild | Open | Closing | DClosed | DFailed

datatype close_reason =
    ParentTerminal | ActiveCallCancelled | ActiveCallExpired | ActiveCallFailed | ChildTerminal

datatype call_status =
    CQueued | CActive | CCancelRequested | CCompleted | CFailed | CCancelled | CExpired

record failure =
  fl_code :: string
  fl_message :: string

datatype command_state = CmdPending | CmdAccepted

record call_dispatch =
  dp_childTurnSeq :: int
  dp_inputEventId :: string
  dp_commandEventId :: string
  dp_commandState :: command_state

datatype await_status = AwPending | AwResponded

record await_request =
  aw_requestId :: string
  aw_parentSessionId :: string
  aw_parentTurnSeq :: int
  aw_status :: await_status
  aw_requestedAt :: time
  aw_respondedAt :: "time option"

record delegation_call =
  dc_delegationCallId :: string
  dc_delegationId :: string
  dc_callSeq :: int
  dc_callerTurnSeq :: int
  dc_callerToolRequestId :: string
  dc_input :: string
  dc_inputHash :: string
  dc_status :: call_status
  dc_dispatch :: "call_dispatch option"
  dc_awaitRequests :: "await_request list option"
  dc_result :: "string option"
  dc_resultDigest :: "string option"
  dc_failure :: "failure option"
  dc_deadlineAt :: time
  dc_createdAt :: time
  dc_updatedAt :: time

record delegation =
  dg_delegationId :: string
  dg_tenantId :: string
  dg_parentSessionId :: string
  dg_childSessionId :: string
  dg_resolvedDelegate :: resolved_delegate
  dg_resolvedCalleeAgentSpec :: resolved_agent_spec
  dg_status :: delegation_status
  dg_targetRef :: "string option"
  dg_activeCallId :: "string option"
  dg_nextCallSeq :: int
  dg_closeReason :: "close_reason option"
  dg_failure :: "failure option"
  dg_calls :: "delegation_call list"
  dg_revision :: int
  dg_createdAt :: time
  dg_updatedAt :: time

datatype member_status = MStarting | MPending | MCompleted | MFailed

record fanout_member =
  fm_deviceRef :: string
  fm_delegationCallId :: "string option"
  fm_status :: member_status
  fm_result :: "string option"
  fm_failure :: "failure option"
  fm_updatedAt :: time

datatype group_status = GOpen | GSettled

datatype delivery_status = GPending | GDelivered

record fanout_group =
  fg_groupId :: string
  fg_tenantId :: string
  fg_parentSessionId :: string
  fg_parentTurnSeq :: int
  fg_parentRequestId :: string
  fg_caseId :: string
  fg_delegateId :: string
  fg_input :: string
  fg_members :: "fanout_member list"
  fg_status :: group_status
  fg_aggregate :: "string option"
  fg_deliveryStatus :: delivery_status
  fg_revision :: int
  fg_createdAt :: time
  fg_updatedAt :: time

subsection \<open>Case pairing\<close>

datatype invite_status = InvPending | InvRedeemed | InvRevoked

record pairing_invite =
  pi_inviteId :: string
  pi_tenantId :: string
  pi_caseId :: string
  pi_inviteSecretHash :: string
  pi_inviteSecretSalt :: string
  pi_status :: invite_status
  pi_expiresAt :: time
  pi_createdAt :: time
  pi_updatedAt :: time
  pi_redeemedAt :: "time option"
  pi_redeemedDeviceRef :: "string option"
  pi_revision :: int

datatype binding_status = BActive | BRevoked

record device_binding =
  cb_tenantId :: string
  cb_caseId :: string
  cb_deviceId :: string
  cb_deviceRef :: string
  cb_bindingCredentialHash :: string
  cb_bindingCredentialSalt :: string
  cb_deviceLabel :: string
  cb_workerId :: "string option"
  cb_status :: binding_status
  cb_createdAt :: time
  cb_updatedAt :: time
  cb_lastRedeemedAt :: time
  cb_lastRegisteredAt :: "time option"
  cb_revokedAt :: "time option"
  cb_revision :: int

definition edge_case_label :: string where "edge_case_label = ''case''"
definition edge_device_label :: string where "edge_device_label = ''deviceRef''"

record case_device_view =
  cv_deviceRef :: string
  cv_deviceLabel :: string
  cv_online :: bool
  cv_ready :: bool
  cv_busy :: bool
  cv_workerId :: "string option"
  cv_lastHeartbeatAt :: "time option"
  cv_lastRedeemedAt :: time

subsection \<open>Interaction\<close>

datatype view_role = OwnerView | ParentProjection

record interaction_view =
  iv_sessionId :: string
  iv_turnSeq :: int
  iv_role :: view_role
  iv_source :: "(string \<times> string) option"
  iv_requestedEventId :: string
  iv_requestedProjected :: bool
  iv_respondedEventId :: "string option"
  iv_respondedProjected :: bool
  iv_interruptedEventId :: "string option"
  iv_interruptedProjected :: bool

datatype interruption_reason = OwnerLeaseLost | OwnerTurnFailed | OwnerSessionTerminal

datatype interaction_state = IOpen | IResolved | IInterrupted

datatype delivery_state = NotReady | DeliveryPending | DeliveryAccepted | Abandoned

record resolution =
  rs_response :: json
  rs_principalId :: string
  rs_viaSessionId :: string
  rs_resolvedAt :: time

record interaction =
  itx_interactionId :: string
  itx_tenantId :: string
  itx_kind :: interaction_kind
  itx_request :: "json option"
  itx_ownerSessionId :: string
  itx_ownerTurnSeq :: int
  itx_adapterRequestId :: string
  itx_requestLeaseId :: string
  itx_views :: "interaction_view list"
  itx_state :: interaction_state
  itx_resolution :: "resolution option"
  itx_interruption :: "(interruption_reason \<times> time) option"
  itx_delivery :: delivery_state
  itx_commandEventId :: "string option"
  itx_revision :: int
  itx_createdAt :: time
  itx_updatedAt :: time

subsection \<open>Runtime events\<close>

datatype event_type =
    SessionCreateRequested | SessionCreated | SessionCreatedAck | SessionCatalogUpdated
  | SessionStatusUpdated | SessionListRequested | SessionListed | SessionEventsRequested
  | SessionEventsReplayed | CasePairingMintRequested | CasePairingMinted | CaseDevicesRequested
  | CaseDevicesProvided | SessionAssign | SessionInput | InputReceived | InputAccepted
  | InputAcceptedAck | AgentOutput | TurnCompleted | TurnFailed | StatusChanged
  | SessionPauseRequested | SnapshotCreated | SessionPaused | SessionResumeRequested
  | SessionResumed | SessionCancelRequested | SessionCancelled | WorkerRegistered
  | WorkerHeartbeat | WorkerDrainRequested | WorkerDraining | WorkerCloseRequested
  | WorkerClosed | WorkerExpired | WorkerHeartbeatRejected | WorkerCommandAccepted
  | WorkerCommandRejected | WorkerResultAcknowledged | SessionLeaseLost
  | AgentInteractionRequested | InteractionRequested | InteractionResponded
  | InteractionInterrupted | InteractionRespondRequested | InteractionRespondedAck
  | SessionInteractionResponse | RuntimeToolRequested | SessionRuntimeToolResponse

datatype actor = ClientActor | CentralActor | SidecarActor | SystemActor

text \<open>
  The payloads central builds itself are constructors; any other payload is opaque JSON.
  \<open>RegisteredFacts\<close> and \<open>HeartbeatFacts\<close> are the bodies of
  \<^verbatim>\<open>worker.registered\<close> and \<^verbatim>\<open>worker.heartbeat\<close>.
\<close>

datatype payload =
    NoPayload
  | ReasonPayload string
  | RegisteredFacts string labels "labels option" int int
  | HeartbeatFacts int int "worker_condition list" time time
  | TurnFailedPayload string "string option" "worker_lifecycle option option"
  | LeaseLostPayload string "worker_lifecycle option"
  | StatusPayload string session_status "string option"
  | PausePayload "string option"
  | PauseCommandPayload string string string "string option" "capture_ref option"
  | PausedPayload "string option"
  | ResumePayload "string option"
  | AssignPayload string string string string string resolved_agent_spec "restore_ref option"
  | InputCommandPayload string string "string option" int json
  | CatalogPayload string session_status "string option"
  | SessionsPayload "(session \<times> string option) list"
  | EventsPayload "wire_event list"
  | JsonPayload json
and wire_event =
    WireEvent string "string option" "string option" "string option" "int option" int event_type time actor
      "string option" payload

record runtime_event =
  ev_eventId :: string
  ev_sessionId :: "string option"
  ev_workerId :: "string option"
  ev_ackId :: "string option"
  ev_turnSeq :: "int option"
  ev_sequence :: int
  ev_type :: event_type
  ev_timestamp :: time
  ev_actor :: actor
  ev_sessionLeaseId :: "string option"
  ev_payload :: payload

text \<open>An event as a part of the payload of another event.\<close>

definition wire :: "runtime_event \<Rightarrow> wire_event" where
  "wire e = WireEvent (ev_eventId e) (ev_sessionId e) (ev_workerId e) (ev_ackId e) (ev_turnSeq e) (ev_sequence e)
     (ev_type e) (ev_timestamp e) (ev_actor e) (ev_sessionLeaseId e) (ev_payload e)"

datatype channel =
    TenantInbox
  | ClientInbox
  | ClientPrivateInbox string
  | SessionEvents string
  | WorkerCommands string

subsection \<open>Which statuses are terminal\<close>

definition terminal_status :: "session_status \<Rightarrow> bool" where
  "terminal_status st = (st \<in> {Completed, Cancelled, Failed})"

definition terminal_call :: "call_status \<Rightarrow> bool" where
  "terminal_call st = (st = CCompleted \<or> st = CFailed \<or> st = CCancelled \<or> st = CExpired)"

lemma terminal_status_simps [simp]:
  "terminal_status Completed" "terminal_status Cancelled" "terminal_status Failed"
  "\<not> terminal_status Created" "\<not> terminal_status Queued" "\<not> terminal_status Starting"
  "\<not> terminal_status Running" "\<not> terminal_status Pausing" "\<not> terminal_status Paused"
  "\<not> terminal_status Resuming"
  by (simp_all add: terminal_status_def)

lemma terminal_call_simps [simp]:
  "terminal_call CCompleted" "terminal_call CFailed" "terminal_call CCancelled"
  "terminal_call CExpired"
  "\<not> terminal_call CQueued" "\<not> terminal_call CActive" "\<not> terminal_call CCancelRequested"
  by (simp_all add: terminal_call_def)

subsection \<open>Newest registration first\<close>

text \<open>
  The order of \<^verbatim>\<open>WorkerSelector.compareByFreshness\<close>, reversed as \<^verbatim>\<open>select\<close>
  uses it, as an instance of the library's linear orders: a later registration is smaller, and
  equal times fall back on the larger id. On UUIDs (hexadecimal digits and hyphens)
  \<^verbatim>\<open>localeCompare\<close> is the order of the code units.
\<close>

datatype freshness = Freshness (fr_at: time) (fr_id: string)

instantiation freshness :: linorder
begin

definition less_freshness :: "freshness \<Rightarrow> freshness \<Rightarrow> bool" where
  "less_freshness a b \<longleftrightarrow> fr_at b < fr_at a \<or> (fr_at a = fr_at b \<and> fr_id b < fr_id a)"

definition less_eq_freshness :: "freshness \<Rightarrow> freshness \<Rightarrow> bool" where
  "less_eq_freshness a b \<longleftrightarrow> fr_at b < fr_at a \<or> (fr_at a = fr_at b \<and> fr_id b \<le> fr_id a)"

instance
proof
  fix a b c :: freshness
  show "(a < b) = (a \<le> b \<and> \<not> b \<le> a)"
    by (auto simp: less_freshness_def less_eq_freshness_def)
  show "a \<le> a" by (simp add: less_eq_freshness_def)
  show "a \<le> b \<Longrightarrow> b \<le> c \<Longrightarrow> a \<le> c" by (auto simp: less_eq_freshness_def)
  show "a \<le> b \<Longrightarrow> b \<le> a \<Longrightarrow> a = b"
    by (cases a; cases b) (auto simp: less_eq_freshness_def)
  show "a \<le> b \<or> b \<le> a" by (auto simp: less_eq_freshness_def)
qed

end

end
