(* ===== verification/World.thy ===== *)
theory World
  imports Models
begin

text \<open>
  The state the central runtime keeps and the interface through which its managers use it:
  the tables of \<^verbatim>\<open>src/central/storage/local-file-storage.ts\<close> (the only implementation of
  \<^verbatim>\<open>RuntimeStorage\<close>), the messages handed to the event transport, the clock and the
  UUID source. The five versioned tables share one interface, the locale
  \<open>versioned_table\<close>, interpreted here on each of them.

  A file of the storage is one table entry. A path is made from the record's own key, so writing
  a record is \<open>tput\<close> under that key (keys are ids made by central, which hold no path
  separator). Files torn by a crash are below this level and not modelled.
\<close>

subsection \<open>Errors\<close>

text \<open>One constructor for each kind of \<^verbatim>\<open>throw\<close>, with the ids of its message.\<close>

datatype pairing_error =
    CaseNotFound | CaseClosed | InviteNotFound | InviteExpired | InviteAlreadyRedeemed
  | InviteSecretInvalid | BindingNotFound | BindingCredentialInvalid | InvalidInput

datatype error =
    EventNeedsOwner
  | RevisionMustAdvance string int
  | ImmutableChanged string
  | SessionIntentConflict string
  | UnexpectedTurn string int int
  | StaleLease string
  | SessionNotFound string
  | SessionNotRunning string
  | SessionNotPaused string
  | NoWorkerLease string
  | CannotStartFrom string session_status
  | CannotPauseFrom string session_status
  | CannotResumeFrom string session_status
  | NoStorageClass string
  | UnknownStorageClass string
  | WorkerMissing string
  | WorkerNotActive string
  | WrongTenant string string
  | ChildCannotDelegate string
  | NotACaller string string
  | DeviceTargetRequired string
  | UnknownDelegate string
  | NoCallee string
  | EmptyMessage string
  | MessageTooLarge string int int
  | TargetNotPaired string string
  | TargetInactive string
  | IdempotencyKeyReused
  | DelegationNotOpen string delegation_status
  | CallQueueFull string
  | DelegationDisappeared string
  | NoDelegationForChild string
  | CommandMismatch string
  | NoActiveCall string
  | ActiveCallNotFound string string
  | TurnMismatch int string
  | CallNotFound string
  | GroupNotFound string
  | NoSuchMember string string
  | AlreadyAttached string string
  | NotSettled string
  | Pairing pairing_error
  | RaisedByHook string
  | DuplicateDelegate string
  | DuplicateToolName string string
  | EmptyField string
  | NotPositiveInteger string
  | DuplicateRefs string
  | UnknownReference string string
  | MultipleCallees string
  | NoDispatch string
  | ChildSessionMissing string string
  | CannotDispatch string session_status
  | InvalidEvent event_type
  | EventConflict string
  | WrongRole string
  | UnknownAgentSpec string
  | NoAdapter string
  | Raised string
  | InteractionNotFound string
  | IsInterrupted string
  | NotVisibleIn string string
  | DecisionRequired string
  | AdapterRequestReused string
  | NoCallForTurn string int
  | OwnerMismatch string string
  | MissingProjection string
  | NoReportExpectation string
  | MissingConnection
  | IdentityMismatch string string
  | UnknownTool string string
  | TargetRejected
  | NoDevices

subsection \<open>The world\<close>

record world =
  w_sessions :: "(string, session) table"
  w_sessionEvents :: "(string, runtime_event list) table"
  w_workerEvents :: "(string, runtime_event list) table"
  w_workers :: "(string, worker) table"
  w_instances :: "(string, host_instance) table"
  w_snapshots :: "(string \<times> string, workspace_snapshot) table"
  w_delegations :: "(string, delegation) table"
  w_interactions :: "(string, interaction) table"
  w_invites :: "(string, pairing_invite) table"
  w_bindings :: "(string \<times> string, device_binding) table"
  w_fanouts :: "(string, fanout_group) table"
  w_published :: "(channel \<times> runtime_event) list"
  w_clock :: "nat \<Rightarrow> time"
  w_clockIx :: nat
  w_uuid :: "nat \<Rightarrow> string"
  w_uuidIx :: nat

type_synonym 'a wop = "(world, error, 'a) op"

text \<open>
  \<^verbatim>\<open>clock.now()\<close> and \<^verbatim>\<open>randomUUID()\<close>: the reading with the next number. Two
  readings of the clock may differ; no property assumes more of the UUIDs than it states.
\<close>

definition now :: "world \<Rightarrow> time \<times> world" where
  "now w = (w_clock w (w_clockIx w), w\<lparr>w_clockIx := Suc (w_clockIx w)\<rparr>)"

definition freshId :: "world \<Rightarrow> string \<times> world" where
  "freshId w = (w_uuid w (w_uuidIx w), w\<lparr>w_uuidIx := Suc (w_uuidIx w)\<rparr>)"

text \<open>What other tasks do to the world while an operation waits.\<close>

type_synonym tasks = "(world \<Rightarrow> world) list"

definition disturb :: "tasks \<Rightarrow> world \<Rightarrow> world" where
  "disturb env w = (case env of [] \<Rightarrow> w | f # _ \<Rightarrow> f w)"

definition ofResult :: "error + 'a \<Rightarrow> 'a wop" where
  "ofResult r = (case r of Inl e \<Rightarrow> throw e | Inr x \<Rightarrow> ok x)"

type_synonym 'a async = "(world, error, 'a) aop"

text \<open>\<^verbatim>\<open>eventTransport.publish\<close>: the trace of messages, in the order they are handed over.\<close>

definition publish :: "channel \<Rightarrow> runtime_event \<Rightarrow> world \<Rightarrow> world" where
  "publish ch e w = w\<lparr>w_published := w_published w @ [(ch, e)]\<rparr>"

subsection \<open>Sessions and events\<close>

definition readSession :: "string \<Rightarrow> world \<Rightarrow> session option" where
  "readSession sid w = tget (w_sessions w) sid"

definition readSessions :: "world \<Rightarrow> session list" where
  "readSessions w = tall (w_sessions w)"

definition writeSession :: "session \<Rightarrow> world \<Rightarrow> world" where
  "writeSession s w = w\<lparr>w_sessions := tput (ses_sessionId s) s (w_sessions w)\<rparr>"

definition createSession :: "session \<Rightarrow> world \<Rightarrow> (session \<times> bool) \<times> world" where
  "createSession s w =
     (case readSession (ses_sessionId s) w of
        Some existing \<Rightarrow> ((existing, False), w)
      | None \<Rightarrow> ((s, True), writeSession s w))"

definition sessionEvents :: "string \<Rightarrow> world \<Rightarrow> runtime_event list" where
  "sessionEvents sid w = orElse (tget (w_sessionEvents w) sid) []"

definition workerEvents :: "string \<Rightarrow> world \<Rightarrow> runtime_event list" where
  "workerEvents wid w = orElse (tget (w_workerEvents w) wid) []"

definition appendEvent :: "runtime_event \<Rightarrow> runtime_event wop" where
  "appendEvent e w =
     (if truthy (ev_sessionId e) then
        (let sid = the (ev_sessionId e) in
         ok e (w\<lparr>w_sessionEvents := tput sid (sessionEvents sid w @ [e]) (w_sessionEvents w)\<rparr>))
      else if \<not> truthy (ev_workerId e) then throw EventNeedsOwner w
      else
        (let wid = the (ev_workerId e) in
         ok e (w\<lparr>w_workerEvents := tput wid (workerEvents wid w @ [e]) (w_workerEvents w)\<rparr>)))"

definition readEvents :: "string \<Rightarrow> int \<Rightarrow> world \<Rightarrow> runtime_event list" where
  "readEvents sid afterSequence w =
     filter (\<lambda>e. afterSequence < ev_sequence e) (sessionEvents sid w)"

subsection \<open>Workers, host pool instances, snapshots\<close>

definition writeWorker :: "worker \<Rightarrow> world \<Rightarrow> world" where
  "writeWorker k w = w\<lparr>w_workers := tput (wk_workerId k) k (w_workers w)\<rparr>"

definition readWorker :: "string \<Rightarrow> world \<Rightarrow> worker option" where
  "readWorker wid w = tget (w_workers w) wid"

definition readWorkers :: "world \<Rightarrow> worker list" where
  "readWorkers w = tall (w_workers w)"

definition writeHostPoolInstance :: "host_instance \<Rightarrow> world \<Rightarrow> world" where
  "writeHostPoolInstance i w = w\<lparr>w_instances := tput (hi_instanceId i) i (w_instances w)\<rparr>"

definition readHostPoolInstance :: "string \<Rightarrow> world \<Rightarrow> host_instance option" where
  "readHostPoolInstance iid w = tget (w_instances w) iid"

definition readHostPoolInstances :: "world \<Rightarrow> host_instance list" where
  "readHostPoolInstances w = tall (w_instances w)"

definition writeSnapshot :: "workspace_snapshot \<Rightarrow> world \<Rightarrow> world" where
  "writeSnapshot sn w =
     w\<lparr>w_snapshots := tput (sn_sessionId sn, sn_snapshotId sn) sn (w_snapshots w)\<rparr>"

definition readSnapshot :: "string \<Rightarrow> string \<Rightarrow> world \<Rightarrow> workspace_snapshot option" where
  "readSnapshot sid snid w = tget (w_snapshots w) (sid, snid)"

subsection \<open>Delegations\<close>

definition readDelegation :: "string \<Rightarrow> world \<Rightarrow> delegation option" where
  "readDelegation did w = tget (w_delegations w) did"

definition readDelegations :: "world \<Rightarrow> delegation list" where
  "readDelegations w = tall (w_delegations w)"

definition writeDelegation :: "delegation \<Rightarrow> world \<Rightarrow> world" where
  "writeDelegation d w = w\<lparr>w_delegations := tput (dg_delegationId d) d (w_delegations w)\<rparr>"

text \<open>The relation key of a delegation, and whether the relation is still open.\<close>

definition relation_key :: "delegation \<Rightarrow> string \<times> string \<times> string" where
  "relation_key d = (dg_parentSessionId d, rd_id (dg_resolvedDelegate d), orElse (dg_targetRef d) [])"

definition live :: "delegation \<Rightarrow> bool" where
  "live d = (dg_status d \<noteq> DFailed \<and> dg_status d \<noteq> DClosed)"

definition readDelegationByKey ::
  "string \<Rightarrow> string \<Rightarrow> string option \<Rightarrow> world \<Rightarrow> delegation option" where
  "readDelegationByKey parent delegateId targetRef w =
     find (\<lambda>d. relation_key d = (parent, delegateId, orElse targetRef []) \<and> live d) (readDelegations w)"

definition createDelegation :: "delegation \<Rightarrow> world \<Rightarrow> (delegation \<times> bool) \<times> world" where
  "createDelegation d w =
     (case readDelegation (dg_delegationId d) w of
        Some existing \<Rightarrow> ((existing, False), w)
      | None \<Rightarrow>
          (case readDelegationByKey (dg_parentSessionId d) (rd_id (dg_resolvedDelegate d)) (dg_targetRef d) w of
             Some existing \<Rightarrow> ((existing, False), w)
           | None \<Rightarrow> ((d, True), writeDelegation d w)))"

definition compareAndSetDelegation :: "int \<Rightarrow> delegation \<Rightarrow> bool wop" where
  "compareAndSetDelegation expected d w =
     (case readDelegation (dg_delegationId d) w of
        None \<Rightarrow> ok False w
      | Some current \<Rightarrow>
          if dg_revision current \<noteq> expected then ok False w
          else if dg_revision d \<noteq> expected + 1 then throw (RevisionMustAdvance (dg_delegationId d) expected) w
          else if relation_key current \<noteq> relation_key d then throw (ImmutableChanged (dg_delegationId d)) w
          else ok True (writeDelegation d w))"

subsection \<open>Interactions\<close>

definition readInteraction :: "string \<Rightarrow> world \<Rightarrow> interaction option" where
  "readInteraction iid w = tget (w_interactions w) iid"

definition readInteractions :: "world \<Rightarrow> interaction list" where
  "readInteractions w = tall (w_interactions w)"

definition writeInteraction :: "interaction \<Rightarrow> world \<Rightarrow> world" where
  "writeInteraction i w = w\<lparr>w_interactions := tput (itx_interactionId i) i (w_interactions w)\<rparr>"

definition adapter_key :: "interaction \<Rightarrow> string \<times> string \<times> string" where
  "adapter_key i = (itx_ownerSessionId i, itx_requestLeaseId i, itx_adapterRequestId i)"

definition owner_binding :: "interaction \<Rightarrow> string \<times> string \<times> int \<times> string \<times> string" where
  "owner_binding i = (itx_tenantId i, itx_ownerSessionId i, itx_ownerTurnSeq i,
                      itx_adapterRequestId i, itx_requestLeaseId i)"

definition readInteractionByAdapterRequest ::
  "string \<Rightarrow> string \<Rightarrow> string \<Rightarrow> world \<Rightarrow> interaction option" where
  "readInteractionByAdapterRequest owner lease req w =
     find (\<lambda>i. adapter_key i = (owner, lease, req)) (readInteractions w)"

definition readInteractionsBySession :: "string \<Rightarrow> world \<Rightarrow> interaction list" where
  "readInteractionsBySession sid w =
     filter (\<lambda>i. \<exists>v \<in> set (itx_views i). iv_sessionId v = sid) (readInteractions w)"

definition createInteraction :: "interaction \<Rightarrow> world \<Rightarrow> (interaction \<times> bool) \<times> world" where
  "createInteraction i w =
     (case readInteraction (itx_interactionId i) w of
        Some existing \<Rightarrow> ((existing, False), w)
      | None \<Rightarrow>
          (case readInteractionByAdapterRequest (itx_ownerSessionId i) (itx_requestLeaseId i) (itx_adapterRequestId i) w of
             Some existing \<Rightarrow> ((existing, False), w)
           | None \<Rightarrow> ((i, True), writeInteraction i w)))"

definition compareAndSetInteraction :: "int \<Rightarrow> interaction \<Rightarrow> bool wop" where
  "compareAndSetInteraction expected i w =
     (case readInteraction (itx_interactionId i) w of
        None \<Rightarrow> ok False w
      | Some current \<Rightarrow>
          if itx_revision current \<noteq> expected then ok False w
          else if itx_revision i \<noteq> expected + 1 then throw (RevisionMustAdvance (itx_interactionId i) expected) w
          else if owner_binding current \<noteq> owner_binding i then throw (ImmutableChanged (itx_interactionId i)) w
          else ok True (writeInteraction i w))"

subsection \<open>Pairing invites and device bindings\<close>

definition readPairingInvite :: "string \<Rightarrow> world \<Rightarrow> pairing_invite option" where
  "readPairingInvite iid w = tget (w_invites w) iid"

definition writePairingInvite :: "pairing_invite \<Rightarrow> world \<Rightarrow> world" where
  "writePairingInvite p w = w\<lparr>w_invites := tput (pi_inviteId p) p (w_invites w)\<rparr>"

definition createPairingInvite :: "pairing_invite \<Rightarrow> world \<Rightarrow> (pairing_invite \<times> bool) \<times> world" where
  "createPairingInvite p w =
     (case readPairingInvite (pi_inviteId p) w of
        Some existing \<Rightarrow> ((existing, False), w)
      | None \<Rightarrow> ((p, True), writePairingInvite p w))"

definition compareAndSetPairingInvite :: "int \<Rightarrow> pairing_invite \<Rightarrow> bool wop" where
  "compareAndSetPairingInvite expected p w =
     (case readPairingInvite (pi_inviteId p) w of
        None \<Rightarrow> ok False w
      | Some current \<Rightarrow>
          if pi_revision current \<noteq> expected then ok False w
          else if pi_revision p \<noteq> expected + 1 then throw (RevisionMustAdvance (pi_inviteId p) expected) w
          else if pi_tenantId current \<noteq> pi_tenantId p \<or> pi_caseId current \<noteq> pi_caseId p
               then throw (ImmutableChanged (pi_inviteId p)) w
          else ok True (writePairingInvite p w))"

definition readCaseDeviceBinding :: "string \<Rightarrow> string \<Rightarrow> world \<Rightarrow> device_binding option" where
  "readCaseDeviceBinding caseId deviceRef w = tget (w_bindings w) (caseId, deviceRef)"

definition readCaseDeviceBindings :: "string \<Rightarrow> world \<Rightarrow> device_binding list" where
  "readCaseDeviceBindings caseId w = map snd (filter (\<lambda>(k, _). fst k = caseId) (w_bindings w))"

definition binding_key :: "device_binding \<Rightarrow> string \<times> string" where
  "binding_key b = (cb_caseId b, cb_deviceRef b)"

definition writeCaseDeviceBinding :: "device_binding \<Rightarrow> world \<Rightarrow> world" where
  "writeCaseDeviceBinding b w = w\<lparr>w_bindings := tput (binding_key b) b (w_bindings w)\<rparr>"

definition createCaseDeviceBinding :: "device_binding \<Rightarrow> world \<Rightarrow> (device_binding \<times> bool) \<times> world" where
  "createCaseDeviceBinding b w =
     (case readCaseDeviceBinding (cb_caseId b) (cb_deviceRef b) w of
        Some existing \<Rightarrow> ((existing, False), w)
      | None \<Rightarrow> ((b, True), writeCaseDeviceBinding b w))"

definition compareAndSetCaseDeviceBinding :: "int \<Rightarrow> device_binding \<Rightarrow> bool wop" where
  "compareAndSetCaseDeviceBinding expected b w =
     (case readCaseDeviceBinding (cb_caseId b) (cb_deviceRef b) w of
        None \<Rightarrow> ok False w
      | Some current \<Rightarrow>
          if cb_revision current \<noteq> expected then ok False w
          else if cb_revision b \<noteq> expected + 1 then throw (RevisionMustAdvance (cb_deviceRef b) expected) w
          else if cb_tenantId current \<noteq> cb_tenantId b \<or> cb_deviceId current \<noteq> cb_deviceId b
               then throw (ImmutableChanged (cb_deviceRef b)) w
          else ok True (writeCaseDeviceBinding b w))"

subsection \<open>Fan-out groups\<close>

definition readFanoutGroup :: "string \<Rightarrow> world \<Rightarrow> fanout_group option" where
  "readFanoutGroup gid w = tget (w_fanouts w) gid"

definition readFanoutGroups :: "world \<Rightarrow> fanout_group list" where
  "readFanoutGroups w = tall (w_fanouts w)"

definition writeFanoutGroup :: "fanout_group \<Rightarrow> world \<Rightarrow> world" where
  "writeFanoutGroup g w = w\<lparr>w_fanouts := tput (fg_groupId g) g (w_fanouts w)\<rparr>"

definition request_key :: "fanout_group \<Rightarrow> string \<times> string" where
  "request_key g = (fg_parentSessionId g, fg_parentRequestId g)"

definition routing_intent :: "fanout_group \<Rightarrow> string \<times> string \<times> string list" where
  "routing_intent g = (fg_delegateId g, fg_input g, map fm_deviceRef (fg_members g))"

definition createFanoutGroup :: "fanout_group \<Rightarrow> world \<Rightarrow> (fanout_group \<times> bool) \<times> world" where
  "createFanoutGroup g w =
     (case readFanoutGroup (fg_groupId g) w of
        Some existing \<Rightarrow> ((existing, False), w)
      | None \<Rightarrow>
          (case find (\<lambda>c. request_key c = request_key g) (readFanoutGroups w) of
             Some existing \<Rightarrow> ((existing, False), w)
           | None \<Rightarrow> ((g, True), writeFanoutGroup g w)))"

definition compareAndSetFanoutGroup :: "int \<Rightarrow> fanout_group \<Rightarrow> bool wop" where
  "compareAndSetFanoutGroup expected g w =
     (case readFanoutGroup (fg_groupId g) w of
        None \<Rightarrow> ok False w
      | Some current \<Rightarrow>
          if fg_revision current \<noteq> expected then ok False w
          else if fg_revision g \<noteq> expected + 1 then throw (RevisionMustAdvance (fg_groupId g) expected) w
          else if request_key current \<noteq> request_key g then throw (ImmutableChanged (fg_groupId g)) w
          else if routing_intent current \<noteq> routing_intent g then throw (ImmutableChanged (fg_groupId g)) w
          else ok True (writeFanoutGroup g w))"

end
