(* ===== verification/Examples.thy ===== *)
theory Examples
  imports World
begin

text \<open>
  Concrete records and an empty world with a running clock and a UUID source, at which the
  witnesses of the development evaluate its definitions. Nothing here models code.
\<close>

named_theorems ex_defs \<open>the example records\<close>

definition empty_world :: world where
  "empty_world = \<lparr>w_sessions = [], w_sessionEvents = [], w_workerEvents = [], w_workers = [],
     w_instances = [], w_snapshots = [], w_delegations = [], w_interactions = [], w_invites = [],
     w_bindings = [], w_fanouts = [], w_published = [], w_clock = (\<lambda>n. 1000 + int n), w_clockIx = 0,
     w_uuid = (\<lambda>n. replicate (Suc n) CHR ''u''), w_uuidIx = 0\<rparr>"

definition ex_spec :: resolved_agent_spec where
  "ex_spec = \<lparr>as_agentSpecId = ''spec'', as_labels = [], as_command = ''run'', as_args = [],
     as_instructions = '''', as_toolProfile = '''', as_asCaller = [''scan''], as_asCallee = [],
     as_matchLabels = [(''agent'', ''edge'')], as_pausePolicy = '''', as_recoveryPolicy = '''',
     as_idlePauseTimeoutMs = 60000, as_version = ''1'', ra_runtimeTools = [], ra_resolvedAt = 0,
     ra_digest = ''digest''\<rparr>"

definition ex_session :: session where
  "ex_session = \<lparr>ses_sessionId = ''s1'', ses_tenantId = ''t1'', ses_owner = ''alice'',
     ses_resolvedAgentSpec = ex_spec, ses_status = Queued, ses_currentWorkerId = None,
     ses_sessionLeaseId = None, ses_storageClass = None, ses_eventCursor = 0, ses_nextTurnSeq = 1,
     ses_workspaceRef = ''ws1'', ses_latestSnapshotRef = None, ses_lifecycleReason = None,
     ses_delegationBinding = None, ses_requiredWorkerLabels = None, ses_lastEventUpdatedAt = 0,
     ses_createdAt = 0, ses_updatedAt = 0\<rparr>"

definition ex_worker :: worker where
  "ex_worker = \<lparr>wk_workerId = ''k1'', wk_tenantId = ''t1'', wk_capacityScope = ''t1'',
     wk_hostPoolInstanceId = None, wk_labels = [(''agent'', ''edge'')], wk_storageClass = ''host-managed'',
     wk_reuse = None, wk_description = None, wk_capacity = 1, wk_allocatable = 1,
     wk_conditions = [Ready], wk_lifecycleState = Active, wk_heartbeatAt = 0, wk_expiresAt = 30000,
     wk_registeredAt = Some 0, wk_currentSessionCount = 0, wk_boundSessionId = None,
     wk_terminalReason = None, wk_updatedAt = 0\<rparr>"

definition ex_delegate :: resolved_delegate where
  "ex_delegate = \<lparr>rd_id = ''scan'', rd_toolName = ''scan_device'', rd_description = ''scan'',
     rd_digest = ''dd'', rd_maxInputBytes = 16, rd_maxResultBytes = 16, rd_deadlineMs = 1000,
     rd_maxQueuedCalls = 2, rd_targetPolicy = Pool\<rparr>"

definition ex_call :: delegation_call where
  "ex_call = \<lparr>dc_delegationCallId = ''c1'', dc_delegationId = ''d1'', dc_callSeq = 1,
     dc_callerTurnSeq = 1, dc_callerToolRequestId = ''r1'', dc_input = ''go'', dc_inputHash = ''h'',
     dc_status = CQueued, dc_dispatch = None, dc_awaitRequests = None, dc_result = None,
     dc_resultDigest = None, dc_failure = None, dc_deadlineAt = 1000, dc_createdAt = 0,
     dc_updatedAt = 0\<rparr>"

definition ex_delegation :: delegation where
  "ex_delegation = \<lparr>dg_delegationId = ''d1'', dg_tenantId = ''t1'', dg_parentSessionId = ''s1'',
     dg_childSessionId = ''s2'', dg_resolvedDelegate = ex_delegate, dg_resolvedCalleeAgentSpec = ex_spec,
     dg_status = Open, dg_targetRef = None, dg_activeCallId = None, dg_nextCallSeq = 2,
     dg_closeReason = None, dg_failure = None, dg_calls = [ex_call], dg_revision = 1,
     dg_createdAt = 0, dg_updatedAt = 0\<rparr>"

definition ex_member :: "string \<Rightarrow> fanout_member" where
  "ex_member dev = \<lparr>fm_deviceRef = dev, fm_delegationCallId = None, fm_status = MStarting,
     fm_result = None, fm_failure = None, fm_updatedAt = 0\<rparr>"

definition ex_group :: fanout_group where
  "ex_group = \<lparr>fg_groupId = ''g1'', fg_tenantId = ''t1'', fg_parentSessionId = ''s1'',
     fg_parentTurnSeq = 1, fg_parentRequestId = ''r1'', fg_caseId = ''s1'', fg_delegateId = ''scan'',
     fg_input = ''go'', fg_members = [ex_member ''x'', ex_member ''y''], fg_status = GOpen,
     fg_aggregate = None, fg_deliveryStatus = GPending, fg_revision = 1, fg_createdAt = 0,
     fg_updatedAt = 0\<rparr>"

declare empty_world_def [ex_defs] ex_spec_def [ex_defs] ex_session_def [ex_defs]
  ex_worker_def [ex_defs] ex_delegate_def [ex_defs] ex_call_def [ex_defs]
  ex_delegation_def [ex_defs] ex_member_def [ex_defs] ex_group_def [ex_defs]

end
