(* ===== verification/Versioned.thy ===== *)
theory Versioned
  imports World Examples
begin

text \<open>
  The compare-and-set contract of the versioned tables, stated once as a locale and discharged
  for delegations, interactions, pairing invites, device bindings and fan-out groups; and the
  frame facts that say which reads a write leaves alone.
\<close>

subsection \<open>Which reads a write changes\<close>

lemma reads_writeSession [tab_simps]:
  "readSession sid (writeSession s w) = (if sid = ses_sessionId s then Some s else readSession sid w)"
  "readWorker wid (writeSession s w) = readWorker wid w"
  "readDelegation did (writeSession s w) = readDelegation did w"
  "readFanoutGroup gid (writeSession s w) = readFanoutGroup gid w"
  "readPairingInvite iid (writeSession s w) = readPairingInvite iid w"
  "readCaseDeviceBinding c d (writeSession s w) = readCaseDeviceBinding c d w"
  "sessionEvents sid (writeSession s w) = sessionEvents sid w"
  "workerEvents wid (writeSession s w) = workerEvents wid w"
  by (auto simp: writeSession_def readSession_def readWorker_def readDelegation_def
      readFanoutGroup_def readPairingInvite_def readCaseDeviceBinding_def sessionEvents_def
      workerEvents_def tget_tput)

lemma reads_writeWorker [tab_simps]:
  "readWorker wid (writeWorker k w) = (if wid = wk_workerId k then Some k else readWorker wid w)"
  "readSession sid (writeWorker k w) = readSession sid w"
  "readSessions (writeWorker k w) = readSessions w"
  "sessionEvents sid (writeWorker k w) = sessionEvents sid w"
  "workerEvents wid (writeWorker k w) = workerEvents wid w"
  by (auto simp: writeWorker_def readWorker_def readSession_def readSessions_def sessionEvents_def
      workerEvents_def tget_tput)

lemma reads_publish [tab_simps]:
  "readSession sid (publish ch e w) = readSession sid w"
  "readSessions (publish ch e w) = readSessions w"
  "readWorker wid (publish ch e w) = readWorker wid w"
  "readWorkers (publish ch e w) = readWorkers w"
  "readDelegation did (publish ch e w) = readDelegation did w"
  "readDelegations (publish ch e w) = readDelegations w"
  "sessionEvents sid (publish ch e w) = sessionEvents sid w"
  "workerEvents wid (publish ch e w) = workerEvents wid w"
  by (simp_all add: publish_def readSession_def readSessions_def readWorker_def readWorkers_def
      readDelegation_def readDelegations_def sessionEvents_def workerEvents_def)

lemma reads_now [tab_simps]:
  "readSession sid (snd (now w)) = readSession sid w"
  "readSessions (snd (now w)) = readSessions w"
  "readWorker wid (snd (now w)) = readWorker wid w"
  "readWorkers (snd (now w)) = readWorkers w"
  "readDelegation did (snd (now w)) = readDelegation did w"
  "readDelegations (snd (now w)) = readDelegations w"
  "readFanoutGroup gid (snd (now w)) = readFanoutGroup gid w"
  "readFanoutGroups (snd (now w)) = readFanoutGroups w"
  "readPairingInvite iid (snd (now w)) = readPairingInvite iid w"
  "readCaseDeviceBinding c d (snd (now w)) = readCaseDeviceBinding c d w"
  "readCaseDeviceBindings c (snd (now w)) = readCaseDeviceBindings c w"
  "sessionEvents sid (snd (now w)) = sessionEvents sid w"
  "workerEvents wid (snd (now w)) = workerEvents wid w"
  by (simp_all add: now_def readSession_def readSessions_def readWorker_def readWorkers_def
      readDelegation_def readDelegations_def readFanoutGroup_def readFanoutGroups_def
      readPairingInvite_def readCaseDeviceBinding_def readCaseDeviceBindings_def
      sessionEvents_def workerEvents_def)

lemma reads_freshId [tab_simps]:
  "readSession sid (snd (freshId w)) = readSession sid w"
  "readSessions (snd (freshId w)) = readSessions w"
  "readWorker wid (snd (freshId w)) = readWorker wid w"
  "readWorkers (snd (freshId w)) = readWorkers w"
  "readDelegation did (snd (freshId w)) = readDelegation did w"
  "readDelegations (snd (freshId w)) = readDelegations w"
  "readFanoutGroup gid (snd (freshId w)) = readFanoutGroup gid w"
  "readFanoutGroups (snd (freshId w)) = readFanoutGroups w"
  "readPairingInvite iid (snd (freshId w)) = readPairingInvite iid w"
  "readCaseDeviceBinding c d (snd (freshId w)) = readCaseDeviceBinding c d w"
  "sessionEvents sid (snd (freshId w)) = sessionEvents sid w"
  "workerEvents wid (snd (freshId w)) = workerEvents wid w"
  by (simp_all add: freshId_def readSession_def readSessions_def readWorker_def readWorkers_def
      readDelegation_def readDelegations_def readFanoutGroup_def readFanoutGroups_def
      readPairingInvite_def readCaseDeviceBinding_def sessionEvents_def workerEvents_def)

lemma reads_writeDelegation [tab_simps]:
  "readDelegation did (writeDelegation d w) = (if did = dg_delegationId d then Some d else readDelegation did w)"
  "readSession sid (writeDelegation d w) = readSession sid w"
  "readWorker wid (writeDelegation d w) = readWorker wid w"
  by (auto simp: writeDelegation_def readDelegation_def readSession_def readWorker_def tget_tput)

lemma reads_writeFanoutGroup [tab_simps]:
  "readFanoutGroup gid (writeFanoutGroup g w) = (if gid = fg_groupId g then Some g else readFanoutGroup gid w)"
  by (auto simp: writeFanoutGroup_def readFanoutGroup_def tget_tput)

lemma reads_writePairingInvite [tab_simps]:
  "readPairingInvite iid (writePairingInvite p w) = (if iid = pi_inviteId p then Some p else readPairingInvite iid w)"
  "readSession sid (writePairingInvite p w) = readSession sid w"
  "readCaseDeviceBinding c d (writePairingInvite p w) = readCaseDeviceBinding c d w"
  by (auto simp: writePairingInvite_def readPairingInvite_def readSession_def
      readCaseDeviceBinding_def tget_tput)

lemma reads_writeCaseDeviceBinding [tab_simps]:
  "readCaseDeviceBinding c d (writeCaseDeviceBinding b w)
     = (if (c, d) = binding_key b then Some b else readCaseDeviceBinding c d w)"
  "readSession sid (writeCaseDeviceBinding b w) = readSession sid w"
  "readPairingInvite iid (writeCaseDeviceBinding b w) = readPairingInvite iid w"
  by (auto simp: writeCaseDeviceBinding_def readCaseDeviceBinding_def readSession_def
      readPairingInvite_def tget_tput)

lemma reads_writeInteraction [tab_simps]:
  "readInteraction iid (writeInteraction i w) = (if iid = itx_interactionId i then Some i else readInteraction iid w)"
  by (auto simp: writeInteraction_def readInteraction_def tget_tput)

subsection \<open>The compare-and-set interface\<close>

text \<open>
  \<open>get\<close> reads a record under its key, \<open>cas e r\<close> replaces the record with \<open>r\<close>'s key if its
  revision is \<open>e\<close>. The laws: a winning call found revision \<open>e\<close>, stores \<open>r\<close> with revision
  \<open>e + 1\<close>, keeps the frozen part and touches no other key; a call that loses or throws writes
  nothing; and nothing but the revision, its successor and the frozen part decides who wins.
\<close>

locale versioned_table =
  fixes get :: "'w \<Rightarrow> 'k \<Rightarrow> 'r option"
    and cas :: "int \<Rightarrow> 'r \<Rightarrow> ('w, 'e, bool) op"
    and key :: "'r \<Rightarrow> 'k"
    and revision :: "'r \<Rightarrow> int"
    and frozen :: "'r \<Rightarrow> 'i"
  assumes cas_won: "cas e r w = (Inr True, w1) \<Longrightarrow>
            (\<exists>cur. get w (key r) = Some cur \<and> revision cur = e \<and> frozen cur = frozen r)
            \<and> revision r = e + 1 \<and> get w1 k = (if k = key r then Some r else get w k)"
    and cas_lost: "cas e r w = (out, w1) \<Longrightarrow> out \<noteq> Inr True \<Longrightarrow> w1 = w"
    and cas_enabled: "get w (key r) = Some cur \<Longrightarrow> revision cur = e \<Longrightarrow> revision r = e + 1 \<Longrightarrow>
            frozen cur = frozen r \<Longrightarrow> fst (cas e r w) = Inr True"
    and cas_stale: "get w (key r) = Some cur \<Longrightarrow> revision cur \<noteq> e \<Longrightarrow> fst (cas e r w) = Inr False"
begin

text \<open>Two writers that read the same revision cannot both win.\<close>

lemma cas_wins_once:
  assumes first: "cas e r w = (Inr True, w1)" and same: "key r2 = key r"
  shows "fst (cas e r2 w1) = Inr False"
proof -
  from cas_won [OF first, of "key r"] have "get w1 (key r2) = Some r" and "revision r = e + 1"
    using same by simp_all
  then show ?thesis by (intro cas_stale [of w1 r2 r e]) simp_all
qed

text \<open>What any number of winning writers, to any records of the table, does to one record.\<close>

inductive evolves :: "'w \<Rightarrow> 'w \<Rightarrow> bool" where
  evolves_refl: "evolves w w"
| evolves_step: "evolves w w1 \<Longrightarrow> cas e r w1 = (Inr True, w2) \<Longrightarrow> evolves w w2"

lemma evolves_record:
  "evolves w w1 \<Longrightarrow> get w k = Some r \<Longrightarrow>
    \<exists>r1. get w1 k = Some r1 \<and> revision r \<le> revision r1 \<and> frozen r1 = frozen r
      \<and> (revision r1 = revision r \<longrightarrow> r1 = r)"
proof (induction rule: evolves.induct)
  case (evolves_refl w)
  then show ?case by simp
next
  case (evolves_step w w1 e r2 w2)
  then obtain r1 where r1: "get w1 k = Some r1" "revision r \<le> revision r1" "frozen r1 = frozen r"
    "revision r1 = revision r \<longrightarrow> r1 = r" by blast
  from cas_won [OF evolves_step(2), of k] r1 show ?case
    by (cases "k = key r2") auto
qed

text \<open>A revision number therefore names one content: no record is ever replaced unseen.\<close>

lemma no_lost_update:
  assumes "evolves w w1" and "get w (key r) = Some r0" and "get w1 (key r) = Some r1"
    and "cas (revision r0) r w1 = (Inr True, w2)"
  shows "r1 = r0"
proof -
  from cas_won [OF assms(4), of "key r"] assms(3) have "revision r1 = revision r0" by simp
  with evolves_record [OF assms(1,2)] assms(3) show ?thesis by auto
qed

end

text \<open>
  The shape every one of the five functions has: look the record up, compare revisions, check
  that the revision advances by one, check the frozen part, write.
\<close>

lemma versioned_tableI:
  assumes "\<And>e r w. cas e r w =
      (case get w (key r) of
         None \<Rightarrow> (Inr False, w)
       | Some cur \<Rightarrow>
           if revision cur \<noteq> e then (Inr False, w)
           else if revision r \<noteq> e + 1 then (Inl (errRev e r), w)
           else if frozen cur \<noteq> frozen r then (Inl (errKey e r), w)
           else (Inr True, put r w))"
    and "\<And>r w k. get (put r w) k = (if k = key r then Some r else get w k)"
  shows "versioned_table get cas key revision frozen"
  by unfold_locales (auto simp: assms split: option.splits if_splits)

interpretation delegations: versioned_table
  "\<lambda>w k. readDelegation k w" compareAndSetDelegation dg_delegationId dg_revision relation_key
  by (rule versioned_tableI [where put = writeDelegation
        and errRev = "\<lambda>e r. RevisionMustAdvance (dg_delegationId r) e"
        and errKey = "\<lambda>e r. ImmutableChanged (dg_delegationId r)"])
     (auto simp: compareAndSetDelegation_def tab_simps split: option.splits)

interpretation interactions: versioned_table
  "\<lambda>w k. readInteraction k w" compareAndSetInteraction itx_interactionId itx_revision owner_binding
  by (rule versioned_tableI [where put = writeInteraction
        and errRev = "\<lambda>e r. RevisionMustAdvance (itx_interactionId r) e"
        and errKey = "\<lambda>e r. ImmutableChanged (itx_interactionId r)"])
     (auto simp: compareAndSetInteraction_def tab_simps split: option.splits)

interpretation invites: versioned_table
  "\<lambda>w k. readPairingInvite k w" compareAndSetPairingInvite pi_inviteId pi_revision
  "\<lambda>p. (pi_tenantId p, pi_caseId p)"
  by (rule versioned_tableI [where put = writePairingInvite
        and errRev = "\<lambda>e r. RevisionMustAdvance (pi_inviteId r) e"
        and errKey = "\<lambda>e r. ImmutableChanged (pi_inviteId r)"])
     (auto simp: compareAndSetPairingInvite_def tab_simps split: option.splits)

interpretation bindings: versioned_table
  "\<lambda>w k. readCaseDeviceBinding (fst k) (snd k) w" compareAndSetCaseDeviceBinding binding_key cb_revision
  "\<lambda>b. (cb_tenantId b, cb_deviceId b)"
  by (rule versioned_tableI [where put = writeCaseDeviceBinding
        and errRev = "\<lambda>e r. RevisionMustAdvance (cb_deviceRef r) e"
        and errKey = "\<lambda>e r. ImmutableChanged (cb_deviceRef r)"])
     (auto simp: compareAndSetCaseDeviceBinding_def tab_simps binding_key_def split: option.splits)

interpretation fanouts: versioned_table
  "\<lambda>w k. readFanoutGroup k w" compareAndSetFanoutGroup fg_groupId fg_revision
  "\<lambda>g. (request_key g, routing_intent g)"
  by (rule versioned_tableI [where put = writeFanoutGroup
        and errRev = "\<lambda>e r. RevisionMustAdvance (fg_groupId r) e"
        and errKey = "\<lambda>e r. ImmutableChanged (fg_groupId r)"])
     (auto simp: compareAndSetFanoutGroup_def tab_simps split: option.splits)

lemmas cas_defs = compareAndSetDelegation_def compareAndSetInteraction_def
  compareAndSetPairingInvite_def compareAndSetCaseDeviceBinding_def compareAndSetFanoutGroup_def

subsection \<open>Tables with a natural key\<close>

text \<open>
  Interactions and fan-out groups are created at most once for each request they answer: the
  create operation returns the stored record when its id or its natural key is taken, and the
  natural key is part of what compare-and-set freezes. \<open>wf\<close> says that the table is keyed.
\<close>

locale natural_key_table =
  versioned_table get cas key revision frozen
  for get :: "'w \<Rightarrow> 'k \<Rightarrow> 'r option"
    and cas :: "int \<Rightarrow> 'r \<Rightarrow> ('w, 'e, bool) op"
    and key :: "'r \<Rightarrow> 'k"
    and revision :: "'r \<Rightarrow> int"
    and frozen :: "'r \<Rightarrow> 'i" +
  fixes create :: "'r \<Rightarrow> 'w \<Rightarrow> ('r \<times> bool) \<times> 'w"
    and wf :: "'w \<Rightarrow> bool"
    and natural :: "'r \<Rightarrow> 'n"
  assumes natural_frozen: "frozen r1 = frozen r2 \<Longrightarrow> natural r1 = natural r2"
    and create_new: "create r w = ((r1, True), w1) \<Longrightarrow>
          r1 = r \<and> get w (key r) = None \<and> (get w k = Some x \<longrightarrow> natural x \<noteq> natural r)
          \<and> get w1 k = (if k = key r then Some r else get w k)"
    and create_old: "wf w \<Longrightarrow> create r w = ((r1, False), w1) \<Longrightarrow>
          w1 = w \<and> get w (key r1) = Some r1 \<and> (key r1 = key r \<or> natural r1 = natural r)"
    and wf_create: "wf w \<Longrightarrow> wf (snd (create r w))"
    and wf_cas: "wf w \<Longrightarrow> wf (snd (cas e r w))"
begin

definition unique :: "'w \<Rightarrow> bool" where
  "unique w = (\<forall>k1 k2 r1 r2. get w k1 = Some r1 \<and> get w k2 = Some r2 \<and> natural r1 = natural r2 \<longrightarrow> k1 = k2)"

inductive grows :: "'w \<Rightarrow> 'w \<Rightarrow> bool" where
  grows_refl: "grows w w"
| grows_create: "grows w w1 \<Longrightarrow> grows w (snd (create r w1))"
| grows_cas: "grows w w1 \<Longrightarrow> grows w (snd (cas e r w1))"

lemma unique_create:
  assumes "unique w" and "wf w" shows "unique (snd (create r w))"
proof -
  obtain r1 b w1 where c: "create r w = ((r1, b), w1)" by (metis prod.exhaust)
  show ?thesis
  proof (cases b)
    case True
    with c have c1: "create r w = ((r1, True), w1)" by simp
    note new = create_new [OF c1]
    show ?thesis
      unfolding unique_def c snd_conv
    proof (intro allI impI, elim conjE)
      fix k1 k2 r2 r3
      assume "get w1 k1 = Some r2" "get w1 k2 = Some r3" and n: "natural r2 = natural r3"
      with new have
        "(k1 = key r \<and> r2 = r) \<or> (k1 \<noteq> key r \<and> get w k1 = Some r2 \<and> natural r2 \<noteq> natural r)"
        "(k2 = key r \<and> r3 = r) \<or> (k2 \<noteq> key r \<and> get w k2 = Some r3 \<and> natural r3 \<noteq> natural r)"
        by (metis option.inject)+
      with n assms(1) show "k1 = k2" unfolding unique_def by metis
    qed
  next
    case False
    with create_old [OF assms(2)] c assms(1) show ?thesis by (metis snd_conv)
  qed
qed

lemma unique_cas:
  assumes "unique w" shows "unique (snd (cas e r w))"
proof -
  obtain out w1 where c: "cas e r w = (out, w1)" by (cases "cas e r w")
  show ?thesis
  proof (cases "out = Inr True")
    case True
    with c have c1: "cas e r w = (Inr True, w1)" by simp
    note won = cas_won [OF c1]
    then obtain cur where cur: "get w (key r) = Some cur" "natural cur = natural r"
      using natural_frozen by meson
    show ?thesis
      unfolding unique_def c snd_conv
    proof (intro allI impI, elim conjE)
      fix k1 k2 r1 r2
      assume "get w1 k1 = Some r1" "get w1 k2 = Some r2" and n: "natural r1 = natural r2"
      with won cur obtain s1 s2 where "get w k1 = Some s1" "get w k2 = Some s2"
        "natural s1 = natural r1" "natural s2 = natural r2"
        by (metis option.inject)
      with n assms show "k1 = k2" unfolding unique_def by metis
    qed
  next
    case False
    with cas_lost [OF c] c assms show ?thesis by simp
  qed
qed

lemma grows_unique: "grows w w1 \<Longrightarrow> unique w \<Longrightarrow> wf w \<Longrightarrow> unique w1 \<and> wf w1"
  by (induction rule: grows.induct) (auto intro: unique_create unique_cas wf_create wf_cas)

end

text \<open>Every named table of the storage is keyed by its record's own key.\<close>

definition wf_delegations :: "world \<Rightarrow> bool" where
  "wf_delegations w = keyed dg_delegationId (w_delegations w)"

definition wf_interactions :: "world \<Rightarrow> bool" where
  "wf_interactions w = keyed itx_interactionId (w_interactions w)"

definition wf_fanouts :: "world \<Rightarrow> bool" where
  "wf_fanouts w = keyed fg_groupId (w_fanouts w)"

lemma wf_interactions_cas: "wf_interactions w \<Longrightarrow> wf_interactions (snd (compareAndSetInteraction e r w))"
  by (auto simp: compareAndSetInteraction_def wf_interactions_def writeInteraction_def
      intro: keyed_tput split: option.splits)

lemma wf_fanouts_cas: "wf_fanouts w \<Longrightarrow> wf_fanouts (snd (compareAndSetFanoutGroup e r w))"
  by (auto simp: compareAndSetFanoutGroup_def wf_fanouts_def writeFanoutGroup_def
      intro: keyed_tput split: option.splits)

lemma wf_delegations_cas: "wf_delegations w \<Longrightarrow> wf_delegations (snd (compareAndSetDelegation e r w))"
  by (auto simp: compareAndSetDelegation_def wf_delegations_def writeDelegation_def
      intro: keyed_tput split: option.splits)

lemma readFanoutGroups_iff:
  "wf_fanouts w \<Longrightarrow> g \<in> set (readFanoutGroups w) \<longleftrightarrow> readFanoutGroup (fg_groupId g) w = Some g"
  by (simp add: wf_fanouts_def readFanoutGroups_def readFanoutGroup_def tall_tget)

lemma readFanoutGroup_id: "wf_fanouts w \<Longrightarrow> readFanoutGroup k w = Some g \<Longrightarrow> fg_groupId g = k"
  unfolding wf_fanouts_def readFanoutGroup_def by (rule keyed_tget)

lemma readInteraction_id: "wf_interactions w \<Longrightarrow> readInteraction k w = Some i \<Longrightarrow> itx_interactionId i = k"
  unfolding wf_interactions_def readInteraction_def by (rule keyed_tget)

lemma readDelegation_id: "wf_delegations w \<Longrightarrow> readDelegation k w = Some d \<Longrightarrow> dg_delegationId d = k"
  unfolding wf_delegations_def readDelegation_def by (rule keyed_tget)

lemma readFanoutGroupsI: "readFanoutGroup k w = Some g \<Longrightarrow> g \<in> set (readFanoutGroups w)"
  by (simp add: readFanoutGroups_def readFanoutGroup_def tall_tgetI)

lemma readInteractions_iff:
  "wf_interactions w \<Longrightarrow> i \<in> set (readInteractions w) \<longleftrightarrow> readInteraction (itx_interactionId i) w = Some i"
  by (simp add: wf_interactions_def readInteractions_def readInteraction_def tall_tget)

lemma readInteractionsI: "readInteraction k w = Some i \<Longrightarrow> i \<in> set (readInteractions w)"
  by (simp add: readInteractions_def readInteraction_def tall_tgetI)

lemma readDelegations_iff:
  "wf_delegations w \<Longrightarrow> d \<in> set (readDelegations w) \<longleftrightarrow> readDelegation (dg_delegationId d) w = Some d"
  by (simp add: wf_delegations_def readDelegations_def readDelegation_def tall_tget)

lemma readDelegationsI: "readDelegation k w = Some d \<Longrightarrow> d \<in> set (readDelegations w)"
  by (simp add: readDelegations_def readDelegation_def tall_tgetI)

interpretation fanout_requests: natural_key_table
  "\<lambda>w k. readFanoutGroup k w" compareAndSetFanoutGroup fg_groupId fg_revision
  "\<lambda>g. (request_key g, routing_intent g)" createFanoutGroup wf_fanouts request_key
proof unfold_locales
  fix r r1 x :: fanout_group and w w1 and k
  show "(request_key r, routing_intent r) = (request_key r1, routing_intent r1) \<Longrightarrow> request_key r = request_key r1"
    by simp
  show "createFanoutGroup r w = ((r1, True), w1) \<Longrightarrow>
       r1 = r \<and> readFanoutGroup (fg_groupId r) w = None
       \<and> (readFanoutGroup k w = Some x \<longrightarrow> request_key x \<noteq> request_key r)
       \<and> readFanoutGroup k w1 = (if k = fg_groupId r then Some r else readFanoutGroup k w)"
    by (auto simp: createFanoutGroup_def tab_simps find_None_iff_ball dest!: readFanoutGroupsI
        split: option.splits)
  show "wf_fanouts w \<Longrightarrow> createFanoutGroup r w = ((r1, False), w1) \<Longrightarrow>
       w1 = w \<and> readFanoutGroup (fg_groupId r1) w = Some r1
       \<and> (fg_groupId r1 = fg_groupId r \<or> request_key r1 = request_key r)"
    unfolding createFanoutGroup_def
    by (auto dest: readFanoutGroup_id find_SomeD simp: readFanoutGroups_iff split: option.splits)
  show "wf_fanouts w \<Longrightarrow> wf_fanouts (snd (createFanoutGroup r w))"
    by (auto simp: createFanoutGroup_def wf_fanouts_def writeFanoutGroup_def intro: keyed_tput
        split: option.splits)
qed (rule wf_fanouts_cas)

interpretation adapter_requests: natural_key_table
  "\<lambda>w k. readInteraction k w" compareAndSetInteraction itx_interactionId itx_revision
  owner_binding createInteraction wf_interactions adapter_key
proof unfold_locales
  fix r r1 x :: interaction and w w1 and k
  show "owner_binding r = owner_binding r1 \<Longrightarrow> adapter_key r = adapter_key r1"
    by (simp add: owner_binding_def adapter_key_def)
  show "createInteraction r w = ((r1, True), w1) \<Longrightarrow>
       r1 = r \<and> readInteraction (itx_interactionId r) w = None
       \<and> (readInteraction k w = Some x \<longrightarrow> adapter_key x \<noteq> adapter_key r)
       \<and> readInteraction k w1 = (if k = itx_interactionId r then Some r else readInteraction k w)"
    by (auto simp: createInteraction_def readInteractionByAdapterRequest_def adapter_key_def
        tab_simps find_None_iff_ball dest!: readInteractionsI split: option.splits)
  show "wf_interactions w \<Longrightarrow> createInteraction r w = ((r1, False), w1) \<Longrightarrow>
       w1 = w \<and> readInteraction (itx_interactionId r1) w = Some r1
       \<and> (itx_interactionId r1 = itx_interactionId r \<or> adapter_key r1 = adapter_key r)"
    unfolding createInteraction_def readInteractionByAdapterRequest_def
    by (auto dest: readInteraction_id find_SomeD simp: readInteractions_iff adapter_key_def
        split: option.splits)
  show "wf_interactions w \<Longrightarrow> wf_interactions (snd (createInteraction r w))"
    by (auto simp: createInteraction_def wf_interactions_def writeInteraction_def intro: keyed_tput
        split: option.splits)
qed (rule wf_interactions_cas)

subsection \<open>One live delegation for each relation\<close>

text \<open>
  A failed or closed delegation is a finished relation; among the others, parent session,
  delegate and target name at most one.
\<close>

definition one_live_relation :: "world \<Rightarrow> bool" where
  "one_live_relation w = (\<forall>d1 \<in> set (readDelegations w). \<forall>d2 \<in> set (readDelegations w).
     live d1 \<and> live d2 \<and> relation_key d1 = relation_key d2 \<longrightarrow> d1 = d2)"

lemma set_readDelegations_write:
  "wf_delegations w \<Longrightarrow> set (readDelegations (writeDelegation d w))
     = {d1 \<in> set (readDelegations w). dg_delegationId d1 \<noteq> dg_delegationId d} \<union> {d}"
  by (simp add: readDelegations_def writeDelegation_def wf_delegations_def tall_tput)

lemma wf_delegations_write: "wf_delegations w \<Longrightarrow> wf_delegations (writeDelegation d w)"
  by (simp add: wf_delegations_def writeDelegation_def keyed_tput)

text \<open>Replacing a record keeps the property when a finished relation is not reopened.\<close>

lemma one_live_relation_replace:
  assumes "wf_delegations w" and "one_live_relation w"
    and "readDelegation (dg_delegationId d) w = Some cur"
    and "relation_key d = relation_key cur" and "live d \<Longrightarrow> live cur"
  shows "one_live_relation (writeDelegation d w)"
proof -
  have cur: "cur \<in> set (readDelegations w)" using assms(3) by (rule readDelegationsI)
  have id: "dg_delegationId cur = dg_delegationId d" using assms(1,3) by (rule readDelegation_id)
  show ?thesis
    using assms(2,4,5) cur id
    unfolding one_live_relation_def set_readDelegations_write [OF assms(1)] by fastforce
qed

lemma readDelegationByKey_None:
  "readDelegationByKey p g t w = None \<Longrightarrow> d \<in> set (readDelegations w) \<Longrightarrow> live d \<Longrightarrow>
    relation_key d \<noteq> (p, g, orElse t [])"
  by (auto simp: readDelegationByKey_def find_None_iff_ball)

lemma readDelegationByKey_Some:
  "readDelegationByKey p g t w = Some d \<Longrightarrow>
    d \<in> set (readDelegations w) \<and> live d \<and> relation_key d = (p, g, orElse t [])"
  by (auto simp: readDelegationByKey_def dest: find_SomeD)

lemma one_live_relation_create:
  assumes "wf_delegations w" and "one_live_relation w"
  shows "one_live_relation (snd (createDelegation d w))"
proof (cases "readDelegation (dg_delegationId d) w = None
    \<and> readDelegationByKey (dg_parentSessionId d) (rd_id (dg_resolvedDelegate d)) (dg_targetRef d) w = None")
  case True
  then have new: "snd (createDelegation d w) = writeDelegation d w"
    by (simp add: createDelegation_def)
  from True have "\<forall>x \<in> set (readDelegations w). live x \<longrightarrow> relation_key x \<noteq> relation_key d"
    using readDelegationByKey_None unfolding relation_key_def by blast
  with assms(2) show ?thesis
    unfolding new one_live_relation_def set_readDelegations_write [OF assms(1)] by (metis (no_types, lifting) Un_iff mem_Collect_eq singletonD)
next
  case False
  then have "snd (createDelegation d w) = w"
    by (auto simp: createDelegation_def split: option.splits)
  with assms(2) show ?thesis by simp
qed

lemma wf_delegations_create: "wf_delegations w \<Longrightarrow> wf_delegations (snd (createDelegation d w))"
  by (auto simp: createDelegation_def intro: wf_delegations_write split: option.splits)

lemma one_live_relation_cas:
  assumes "wf_delegations w" and "one_live_relation w"
    and "\<And>cur. readDelegation (dg_delegationId d) w = Some cur \<Longrightarrow> live d \<Longrightarrow> live cur"
  shows "one_live_relation (snd (compareAndSetDelegation e d w))"
  using assms
  by (auto simp: compareAndSetDelegation_def intro: one_live_relation_replace split: option.splits)

subsection \<open>Properties of the storage\<close>

text \<open>
  Of two writers that read the same revision of a delegation, at most one wins: after the
  first compare-and-set succeeded, a second one with the same expected revision is refused and
  changes nothing, whatever it wants to write.
\<close>

lemma delegation_cas_wins_once:
  assumes "compareAndSetDelegation e d w = (Inr True, w1)"
    and "dg_delegationId d2 = dg_delegationId d"
  shows "compareAndSetDelegation e d2 w1 = (Inr False, w1)"
proof -
  from delegations.cas_wins_once [OF assms]
  obtain w2 where "compareAndSetDelegation e d2 w1 = (Inr False, w2)"
    by (cases "compareAndSetDelegation e d2 w1") auto
  with delegations.cas_lost [OF this] show ?thesis by simp
qed

lemma delegation_cas_wins_once_witness:
  "compareAndSetDelegation 1 (ex_delegation\<lparr>dg_revision := 2, dg_status := DFailed\<rparr>)
     (writeDelegation (ex_delegation\<lparr>dg_revision := 2\<rparr>) (writeDelegation ex_delegation empty_world))
   = (Inr False,
      writeDelegation (ex_delegation\<lparr>dg_revision := 2\<rparr>) (writeDelegation ex_delegation empty_world))"
proof -
  have "compareAndSetDelegation 1 (ex_delegation\<lparr>dg_revision := 2\<rparr>) (writeDelegation ex_delegation empty_world)
      = (Inr True, writeDelegation (ex_delegation\<lparr>dg_revision := 2\<rparr>) (writeDelegation ex_delegation empty_world))"
    by (simp add: ex_defs compareAndSetDelegation_def tab_simps relation_key_def)
  from delegation_cas_wins_once [OF this] show ?thesis by (simp add: ex_defs)
qed

fun run_cas :: "(int \<times> delegation) list \<Rightarrow> world \<Rightarrow> world" where
  "run_cas [] w = w"
| "run_cas ((e, d) # calls) w = run_cas calls (snd (compareAndSetDelegation e d w))"

lemma run_cas_evolves: "delegations.evolves w (run_cas calls w)"
proof (induction calls arbitrary: w rule: rev_induct)
  case Nil
  show ?case by (simp add: delegations.evolves_refl)
next
  case (snoc c calls)
  obtain e d where c: "c = (e, d)" by (cases c)
  have split: "run_cas (calls @ [(e, d)]) w = snd (compareAndSetDelegation e d (run_cas calls w))"
    by (induction calls arbitrary: w) auto
  obtain out w1 where cas: "compareAndSetDelegation e d (run_cas calls w) = (out, w1)"
    by (cases "compareAndSetDelegation e d (run_cas calls w)")
  show ?case
  proof (cases "out = Inr True")
    case True
    with cas snoc show ?thesis by (auto simp: c split intro: delegations.evolves_step)
  next
    case False
    with delegations.cas_lost [OF cas] cas snoc show ?thesis by (simp add: c split)
  qed
qed

text \<open>
  C37: a delegation's revision names its content. Whatever compare-and-set calls are made on the
  delegation table, by anyone and in any order, winning or losing, a stored delegation keeps
  its relation key, its revision never decreases, and if its revision is still the one a caller
  read then the record is still the one the caller read, so a winning write never overwrites
  an update its author has not seen.
\<close>

lemma delegation_revision_names_content:
  assumes "readDelegation did w = Some r"
  shows "\<exists>r1. readDelegation did (run_cas calls w) = Some r1 \<and> relation_key r1 = relation_key r
     \<and> dg_revision r \<le> dg_revision r1 \<and> (dg_revision r1 = dg_revision r \<longrightarrow> r1 = r)"
  using delegations.evolves_record [OF run_cas_evolves assms, of calls] by blast

lemma delegation_revision_names_content_witness:
  "\<exists>r1. readDelegation ''d1'' (run_cas [(1, ex_delegation\<lparr>dg_revision := 2\<rparr>), (1, ex_delegation)]
            (writeDelegation ex_delegation empty_world)) = Some r1
     \<and> relation_key r1 = relation_key ex_delegation \<and> dg_revision ex_delegation \<le> dg_revision r1
     \<and> (dg_revision r1 = dg_revision ex_delegation \<longrightarrow> r1 = ex_delegation)"
proof -
  have "readDelegation ''d1'' (writeDelegation ex_delegation empty_world) = Some ex_delegation"
    by (simp add: ex_defs tab_simps)
  from delegation_revision_names_content [OF this] show ?thesis .
qed

text \<open>
  the storage never holds two live delegations for one relation (parent session, delegate,
  target device). Creating a delegation returns the live one when it exists, so a retried or
  concurrent first call joins it instead of opening a second child session.
\<close>

lemma create_delegation_one_live:
  assumes "wf_delegations w" and "one_live_relation w" and "live d"
    and "createDelegation d w = ((d1, created), w1)"
  shows "wf_delegations w1 \<and> one_live_relation w1 \<and> readDelegation (dg_delegationId d1) w1 = Some d1
     \<and> (created \<longrightarrow> d1 = d)
     \<and> (\<not> created \<longrightarrow> w1 = w \<and> (dg_delegationId d1 = dg_delegationId d
                                \<or> live d1 \<and> relation_key d1 = relation_key d))"
proof -
  have "wf_delegations w1" "one_live_relation w1"
    using wf_delegations_create [OF assms(1), of d] one_live_relation_create [OF assms(1,2), of d] assms(4)
    by simp_all
  moreover have "readDelegation (dg_delegationId d1) w1 = Some d1
     \<and> (created \<longrightarrow> d1 = d)
     \<and> (\<not> created \<longrightarrow> w1 = w \<and> (dg_delegationId d1 = dg_delegationId d
                                \<or> live d1 \<and> relation_key d1 = relation_key d))"
    using assms(4) readDelegation_id [OF assms(1)] readDelegations_iff [OF assms(1), THEN iffD1]
    unfolding createDelegation_def
    by (auto simp: tab_simps relation_key_def dest!: readDelegationByKey_Some split: option.splits)
  ultimately show ?thesis by simp
qed

lemma create_delegation_one_live_witness:
  "wf_delegations (writeDelegation ex_delegation empty_world)
   \<and> one_live_relation (writeDelegation ex_delegation empty_world)
   \<and> createDelegation (ex_delegation\<lparr>dg_delegationId := ''d2''\<rparr>) (writeDelegation ex_delegation empty_world)
     = ((ex_delegation, False), writeDelegation ex_delegation empty_world)"
proof -
  let ?w = "writeDelegation ex_delegation empty_world"
  have wf: "wf_delegations ?w" "one_live_relation ?w"
    by (simp_all add: ex_defs wf_delegations_def writeDelegation_def keyed_def one_live_relation_def
        readDelegations_def tall_def tput_def)
  have c: "createDelegation (ex_delegation\<lparr>dg_delegationId := ''d2''\<rparr>) ?w = ((ex_delegation, False), ?w)"
    by (simp add: ex_defs createDelegation_def tab_simps readDelegationByKey_def readDelegations_def
        writeDelegation_def tall_def tput_def relation_key_def live_def readDelegation_def tget_def)
  from create_delegation_one_live [OF wf _ c] c wf show ?thesis
    by (simp add: ex_defs live_def)
qed

datatype fanout_write = CreateGroup fanout_group | CasGroup int fanout_group

fun run_fanout_writes :: "fanout_write list \<Rightarrow> world \<Rightarrow> world" where
  "run_fanout_writes [] w = w"
| "run_fanout_writes (CreateGroup g # ops) w = run_fanout_writes ops (snd (createFanoutGroup g w))"
| "run_fanout_writes (CasGroup e g # ops) w = run_fanout_writes ops (snd (compareAndSetFanoutGroup e g w))"

lemma run_fanout_writes_unique:
  "fanout_requests.unique w \<Longrightarrow> wf_fanouts w \<Longrightarrow>
    fanout_requests.unique (run_fanout_writes ops w) \<and> wf_fanouts (run_fanout_writes ops w)"
  by (induction ops w rule: run_fanout_writes.induct)
     (auto intro: fanout_requests.unique_create fanout_requests.unique_cas
       fanout_requests.wf_create fanout_requests.wf_cas)

text \<open>
  one parent tool request opens at most one fan-out group. Starting from a storage without
  groups, any sequence of group creations and compare-and-set writes leaves at most one group
  with a given (parent session, parent request).
\<close>

lemma one_group_per_request:
  assumes "w_fanouts w = []"
    and "readFanoutGroup k1 (run_fanout_writes ops w) = Some g1"
    and "readFanoutGroup k2 (run_fanout_writes ops w) = Some g2"
    and "request_key g1 = request_key g2"
  shows "k1 = k2 \<and> g1 = g2"
proof -
  have "fanout_requests.unique w" "wf_fanouts w"
    using assms(1) unfolding fanout_requests.unique_def
    by (simp_all add: readFanoutGroup_def wf_fanouts_def)
  from run_fanout_writes_unique [OF this, of ops] assms(2-4)
  have "k1 = k2" unfolding fanout_requests.unique_def by blast
  with assms(2,3) show ?thesis by simp
qed

lemma one_group_per_request_witness:
  "readFanoutGroup ''g1'' (run_fanout_writes [CreateGroup ex_group, CreateGroup (ex_group\<lparr>fg_groupId := ''g2''\<rparr>)]
      empty_world) = Some ex_group \<and> ''g1'' = ''g1'' \<and> ex_group = ex_group"
proof -
  have w: "w_fanouts empty_world = []" by (simp add: ex_defs)
  have g: "readFanoutGroup ''g1'' (run_fanout_writes [CreateGroup ex_group,
      CreateGroup (ex_group\<lparr>fg_groupId := ''g2''\<rparr>)] empty_world) = Some ex_group"
    by (simp add: ex_defs createFanoutGroup_def readFanoutGroups_def writeFanoutGroup_def
        readFanoutGroup_def tall_def tput_def tget_def request_key_def)
  show ?thesis using one_group_per_request [OF w g g] g by simp
qed

end
