(* ===== verification/Lifecycle.thy ===== *)
theory Lifecycle
  imports Versioned
begin

text \<open>
  \<^verbatim>\<open>managers/session/event-log-manager.ts\<close>, \<^verbatim>\<open>session-lifecycle-manager.ts\<close> and
  \<^verbatim>\<open>managers/worker/worker-lease-manager.ts\<close>: the durable transitions of one session
  record, the event log they keep in step with, and the lease check.
\<close>

subsection \<open>EventLogManager\<close>

text \<open>
  The input of \<^verbatim>\<open>append\<close> is an event without id and time; \<open>draft\<close> builds it from the
  mandatory fields, the optional ones are set by record update.
\<close>

definition draft :: "event_type \<Rightarrow> actor \<Rightarrow> payload \<Rightarrow> int \<Rightarrow> string option \<Rightarrow> runtime_event" where
  "draft ty ac pl sq sid =
     \<lparr>ev_eventId = [], ev_sessionId = sid, ev_workerId = None, ev_ackId = None, ev_turnSeq = None,
      ev_sequence = sq, ev_type = ty, ev_timestamp = 0, ev_actor = ac, ev_sessionLeaseId = None,
      ev_payload = pl\<rparr>"

definition idOr :: "string option \<Rightarrow> world \<Rightarrow> string \<times> world" where
  "idOr given w = (case given of Some i \<Rightarrow> (i, w) | None \<Rightarrow> freshId w)"

definition logAppend :: "string option \<Rightarrow> runtime_event \<Rightarrow> runtime_event wop" where
  "logAppend eventId input w =
     (let (i, w1) = idOr eventId w;
          (t, w2) = now w1
      in appendEvent (input\<lparr>ev_eventId := i, ev_timestamp := t\<rparr>) w2)"

subsection \<open>SessionLifecycleManager\<close>

type_synonym terminal_hook = "(session \<Rightarrow> unit wop) option"

definition fireTerminalHook :: "terminal_hook \<Rightarrow> session_status \<Rightarrow> session \<Rightarrow> unit wop" where
  "fireTerminalHook hook previous next w =
     (case hook of
        None \<Rightarrow> ok () w
      | Some h \<Rightarrow>
          if terminal_status (ses_status next) \<and> \<not> terminal_status previous then h next w
          else ok () w)"

definition reconcileTerminalHook :: "terminal_hook \<Rightarrow> session \<Rightarrow> unit wop" where
  "reconcileTerminalHook hook s w =
     (case hook of
        None \<Rightarrow> ok () w
      | Some h \<Rightarrow> if terminal_status (ses_status s) then h s w else ok () w)"

record create_input =
  ci_sessionId :: "string option"
  ci_tenantId :: string
  ci_owner :: string
  ci_resolvedAgentSpec :: resolved_agent_spec
  ci_workspaceRef :: string
  ci_delegationBinding :: "delegation_binding option"
  ci_requiredWorkerLabels :: "labels option"

text \<open>The create intent, compared field by field when the session file exists already.\<close>

definition matches_intent :: "session \<Rightarrow> create_input \<Rightarrow> bool" where
  "matches_intent actual i =
     (ses_tenantId actual = ci_tenantId i \<and> ses_owner actual = ci_owner i
      \<and> ra_digest (ses_resolvedAgentSpec actual) = ra_digest (ci_resolvedAgentSpec i)
      \<and> ses_workspaceRef actual = ci_workspaceRef i
      \<and> ses_delegationBinding actual = ci_delegationBinding i
      \<and> ses_requiredWorkerLabels actual = ci_requiredWorkerLabels i)"

definition lifecycleCreate :: "create_input \<Rightarrow> session wop" where
  "lifecycleCreate i w =
     (let (t, w1) = now w;
          (sid, w2) = idOr (ci_sessionId i) w1;
          s = \<lparr>ses_sessionId = sid, ses_tenantId = ci_tenantId i, ses_owner = ci_owner i,
               ses_resolvedAgentSpec = ci_resolvedAgentSpec i, ses_status = Created,
               ses_currentWorkerId = None, ses_sessionLeaseId = None, ses_storageClass = None,
               ses_eventCursor = 0, ses_nextTurnSeq = 1, ses_workspaceRef = ci_workspaceRef i,
               ses_latestSnapshotRef = None, ses_lifecycleReason = None,
               ses_delegationBinding = ci_delegationBinding i,
               ses_requiredWorkerLabels = ci_requiredWorkerLabels i, ses_lastEventUpdatedAt = t,
               ses_createdAt = t, ses_updatedAt = t\<rparr>;
          ((actual, _), w3) = createSession s w2
      in if matches_intent actual i then ok actual w3 else throw (SessionIntentConflict sid) w3)"

definition transition :: "terminal_hook \<Rightarrow> session \<Rightarrow> session_status \<Rightarrow> string option \<Rightarrow> session wop" where
  "transition hook s st reason w =
     (let (t, w1) = now w;
          next = s\<lparr>ses_status := st, ses_lifecycleReason := reason, ses_updatedAt := t\<rparr>
      in andThen (fireTerminalHook hook (ses_status s) next) (\<lambda>_. ok next) (writeSession next w1))"

definition transitionAfterEvent ::
  "terminal_hook \<Rightarrow> session \<Rightarrow> session_status \<Rightarrow> int \<Rightarrow> time \<Rightarrow> string option \<Rightarrow> session wop" where
  "transitionAfterEvent hook s st sq ts reason w =
     (let (t, w1) = now w;
          next = s\<lparr>ses_status := st, ses_lifecycleReason := reason, ses_eventCursor := sq,
                   ses_lastEventUpdatedAt := ts, ses_updatedAt := t\<rparr>
      in andThen (fireTerminalHook hook (ses_status s) next) (\<lambda>_. ok next) (writeSession next w1))"

definition pauseAfterEvent ::
  "session \<Rightarrow> int \<Rightarrow> time \<Rightarrow> string option \<Rightarrow> string option \<Rightarrow> world \<Rightarrow> session \<times> world" where
  "pauseAfterEvent s sq ts reason snapshotRef w =
     (let (t, w1) = now w;
          next = s\<lparr>ses_status := Paused, ses_currentWorkerId := None, ses_sessionLeaseId := None,
                   ses_latestSnapshotRef := orOpt snapshotRef (ses_latestSnapshotRef s),
                   ses_lifecycleReason := reason, ses_eventCursor := sq,
                   ses_lastEventUpdatedAt := ts, ses_updatedAt := t\<rparr>
      in (next, writeSession next w1))"

definition allocateNextTurn :: "session \<Rightarrow> world \<Rightarrow> (session \<times> int) \<times> world" where
  "allocateNextTurn s w =
     (let turnSeq = ses_nextTurnSeq s;
          (t, w1) = now w;
          next = s\<lparr>ses_nextTurnSeq := turnSeq + 1, ses_updatedAt := t\<rparr>
      in ((next, turnSeq), writeSession next w1))"

definition acceptTurnAfterEvent ::
  "session \<Rightarrow> int \<Rightarrow> int \<Rightarrow> time \<Rightarrow> session_status \<Rightarrow> string option \<Rightarrow> session wop" where
  "acceptTurnAfterEvent s turnSeq sq ts st reason w =
     (if ses_nextTurnSeq s \<noteq> turnSeq
      then throw (UnexpectedTurn (ses_sessionId s) (ses_nextTurnSeq s) turnSeq) w
      else
        (let (t, w1) = now w;
             next = s\<lparr>ses_status := st, ses_lifecycleReason := reason, ses_nextTurnSeq := turnSeq + 1,
                      ses_eventCursor := sq, ses_lastEventUpdatedAt := ts, ses_updatedAt := t\<rparr>
         in ok next (writeSession next w1)))"

definition advanceEventCursor :: "session \<Rightarrow> int \<Rightarrow> world \<Rightarrow> session \<times> world" where
  "advanceEventCursor s sq w =
     (let (t, w1) = now w;
          next = s\<lparr>ses_eventCursor := sq, ses_lastEventUpdatedAt := t, ses_updatedAt := t\<rparr>
      in (next, writeSession next w1))"

subsection \<open>SessionLeaseManager\<close>

definition leaseAssign :: "session \<Rightarrow> worker \<Rightarrow> world \<Rightarrow> session \<times> world" where
  "leaseAssign s k w =
     (let (lease, w1) = freshId w;
          next = s\<lparr>ses_currentWorkerId := Some (wk_workerId k), ses_sessionLeaseId := Some lease,
                   ses_storageClass := Some (orElse (ses_storageClass s) (wk_storageClass k)),
                   ses_status := Starting\<rparr>
      in (next, writeSession next w1))"

definition assertCurrentLease :: "session \<Rightarrow> string \<Rightarrow> unit wop" where
  "assertCurrentLease s lease w =
     (if ses_sessionLeaseId s \<noteq> Some lease then throw (StaleLease (ses_sessionId s)) w else ok () w)"

subsection \<open>How the event log and the cursor stay in step\<close>

text \<open>
  The invariant of a session's log: sequence numbers strictly increase and none is past the
  session's cursor, so \<open>cursor + 1\<close> is always free.
\<close>

definition log_in_step :: "string \<Rightarrow> world \<Rightarrow> bool" where
  "log_in_step sid w =
     (case readSession sid w of
        None \<Rightarrow> sessionEvents sid w = []
      | Some s \<Rightarrow> sorted_wrt (<) (map ev_sequence (sessionEvents sid w))
                 \<and> (\<forall>e \<in> set (sessionEvents sid w). ev_sequence e \<le> ses_eventCursor s))"

lemma snd_idOr_reads [tab_simps]:
  "readSession sid (snd (idOr g w)) = readSession sid w"
  "sessionEvents sid (snd (idOr g w)) = sessionEvents sid w"
  "readSessions (snd (idOr g w)) = readSessions w"
  "readWorker wid (snd (idOr g w)) = readWorker wid w"
  "readWorkers (snd (idOr g w)) = readWorkers w"
  by (simp_all add: idOr_def tab_simps split: option.splits)

text \<open>What appending an event that belongs to a session does.\<close>

lemma appendEvent_session:
  assumes "ev_sessionId e = Some sid" and "sid \<noteq> []"
  shows "\<exists>w1. appendEvent e w = (Inr e, w1)
    \<and> (\<forall>x. sessionEvents x w1 = (if x = sid then sessionEvents sid w @ [e] else sessionEvents x w))
    \<and> w1 = w\<lparr>w_sessionEvents := w_sessionEvents w1\<rparr>"
  using assms by (auto simp: appendEvent_def Let_def sessionEvents_def tget_tput)

lemma reads_sessionEvents_update [tab_simps]:
  "readSession sid (w\<lparr>w_sessionEvents := x\<rparr>) = readSession sid w"
  "readSessions (w\<lparr>w_sessionEvents := x\<rparr>) = readSessions w"
  "readWorker wid (w\<lparr>w_sessionEvents := x\<rparr>) = readWorker wid w"
  "readWorkers (w\<lparr>w_sessionEvents := x\<rparr>) = readWorkers w"
  "readDelegation did (w\<lparr>w_sessionEvents := x\<rparr>) = readDelegation did w"
  "readDelegations (w\<lparr>w_sessionEvents := x\<rparr>) = readDelegations w"
  by (simp_all add: readSession_def readSessions_def readWorker_def readWorkers_def
      readDelegation_def readDelegations_def)

text \<open>The log append as the managers use it: it returns the event it stored.\<close>

lemma logAppend_session:
  assumes "ev_sessionId d = Some sid" and "sid \<noteq> []"
  obtains e w1 where "logAppend g d w = (Inr e, w1)"
    and "ev_sequence e = ev_sequence d" and "ev_type e = ev_type d" and "ev_turnSeq e = ev_turnSeq d"
    and "ev_sessionId e = Some sid" and "ev_workerId e = ev_workerId d"
    and "ev_sessionLeaseId e = ev_sessionLeaseId d" and "ev_payload e = ev_payload d"
    and "\<And>x. sessionEvents x w1 = (if x = sid then sessionEvents sid w @ [e] else sessionEvents x w)"
    and "\<And>x. readSession x w1 = readSession x w"
    and "readSessions w1 = readSessions w"
    and "\<And>x. readWorker x w1 = readWorker x w"
    and "readWorkers w1 = readWorkers w"
proof -
  obtain i w2 where i: "idOr g w = (i, w2)" by (cases "idOr g w")
  obtain t w3 where t: "now w2 = (t, w3)" by (cases "now w2")
  let ?e = "d\<lparr>ev_eventId := i, ev_timestamp := t\<rparr>"
  have "ev_sessionId ?e = Some sid" using assms(1) by simp
  from appendEvent_session [OF this assms(2), of w3] obtain w1 where
    a: "appendEvent ?e w3 = (Inr ?e, w1)"
    and ev: "\<And>x. sessionEvents x w1 = (if x = sid then sessionEvents sid w3 @ [?e] else sessionEvents x w3)"
    and w1: "w1 = w3\<lparr>w_sessionEvents := w_sessionEvents w1\<rparr>" by blast
  have w2: "w2 = snd (idOr g w)" and w3: "w3 = snd (now w2)" using i t by simp_all
  show thesis
  proof (rule that [of ?e w1])
    show "logAppend g d w = (Inr ?e, w1)" by (simp add: logAppend_def i t a)
    show "\<And>x. sessionEvents x w1 = (if x = sid then sessionEvents sid w @ [?e] else sessionEvents x w)"
      by (simp add: ev w3 w2 tab_simps)
    show "\<And>x. readSession x w1 = readSession x w" "readSessions w1 = readSessions w"
      "\<And>x. readWorker x w1 = readWorker x w" "readWorkers w1 = readWorkers w"
      by (subst w1, simp add: w3 w2 tab_simps)+
  qed (use assms in simp_all)
qed

text \<open>The tables a reading, a message and a log append leave alone.\<close>

lemma tables_now [tab_simps]:
  "w_sessions (snd (now w)) = w_sessions w" "w_workers (snd (now w)) = w_workers w"
  "w_instances (snd (now w)) = w_instances w" "w_snapshots (snd (now w)) = w_snapshots w"
  "w_delegations (snd (now w)) = w_delegations w" "w_interactions (snd (now w)) = w_interactions w"
  "w_invites (snd (now w)) = w_invites w" "w_bindings (snd (now w)) = w_bindings w"
  "w_fanouts (snd (now w)) = w_fanouts w" "w_published (snd (now w)) = w_published w"
  "w_uuid (snd (now w)) = w_uuid w" "w_uuidIx (snd (now w)) = w_uuidIx w"
  "w_clock (snd (now w)) = w_clock w"
  by (simp_all add: now_def)

lemma tables_freshId [tab_simps]:
  "w_sessions (snd (freshId w)) = w_sessions w" "w_workers (snd (freshId w)) = w_workers w"
  "w_instances (snd (freshId w)) = w_instances w" "w_snapshots (snd (freshId w)) = w_snapshots w"
  "w_delegations (snd (freshId w)) = w_delegations w" "w_interactions (snd (freshId w)) = w_interactions w"
  "w_invites (snd (freshId w)) = w_invites w" "w_bindings (snd (freshId w)) = w_bindings w"
  "w_fanouts (snd (freshId w)) = w_fanouts w" "w_published (snd (freshId w)) = w_published w"
  "w_uuid (snd (freshId w)) = w_uuid w" "w_clock (snd (freshId w)) = w_clock w"
  by (simp_all add: freshId_def)

lemma tables_publish [tab_simps]:
  "w_sessions (publish ch e w) = w_sessions w" "w_workers (publish ch e w) = w_workers w"
  "w_instances (publish ch e w) = w_instances w" "w_snapshots (publish ch e w) = w_snapshots w"
  "w_delegations (publish ch e w) = w_delegations w" "w_interactions (publish ch e w) = w_interactions w"
  "w_invites (publish ch e w) = w_invites w" "w_bindings (publish ch e w) = w_bindings w"
  "w_fanouts (publish ch e w) = w_fanouts w" "w_uuid (publish ch e w) = w_uuid w"
  "w_sessionEvents (publish ch e w) = w_sessionEvents w"
  by (simp_all add: publish_def)

lemma tables_idOr [tab_simps]:
  "w_sessions (snd (idOr g w)) = w_sessions w" "w_workers (snd (idOr g w)) = w_workers w"
  "w_instances (snd (idOr g w)) = w_instances w" "w_snapshots (snd (idOr g w)) = w_snapshots w"
  "w_delegations (snd (idOr g w)) = w_delegations w" "w_interactions (snd (idOr g w)) = w_interactions w"
  "w_invites (snd (idOr g w)) = w_invites w" "w_bindings (snd (idOr g w)) = w_bindings w"
  "w_fanouts (snd (idOr g w)) = w_fanouts w" "w_published (snd (idOr g w)) = w_published w"
  "w_uuid (snd (idOr g w)) = w_uuid w"
  by (simp_all add: idOr_def tab_simps split: option.splits)

lemma tables_logAppend [tab_simps]:
  "w_sessions (snd (logAppend g d w)) = w_sessions w" "w_workers (snd (logAppend g d w)) = w_workers w"
  "w_instances (snd (logAppend g d w)) = w_instances w" "w_snapshots (snd (logAppend g d w)) = w_snapshots w"
  "w_delegations (snd (logAppend g d w)) = w_delegations w" "w_interactions (snd (logAppend g d w)) = w_interactions w"
  "w_invites (snd (logAppend g d w)) = w_invites w" "w_bindings (snd (logAppend g d w)) = w_bindings w"
  "w_fanouts (snd (logAppend g d w)) = w_fanouts w" "w_published (snd (logAppend g d w)) = w_published w"
  "w_uuid (snd (logAppend g d w)) = w_uuid w"
  by (simp_all add: logAppend_def appendEvent_def Let_def split_def tab_simps)

lemma reads_logAppend [tab_simps]:
  "readSession sid (snd (logAppend g d w)) = readSession sid w"
  "readSessions (snd (logAppend g d w)) = readSessions w"
  "readWorker wid (snd (logAppend g d w)) = readWorker wid w"
  "readWorkers (snd (logAppend g d w)) = readWorkers w"
  "readDelegation did (snd (logAppend g d w)) = readDelegation did w"
  "readDelegations (snd (logAppend g d w)) = readDelegations w"
  by (simp_all add: readSession_def readSessions_def readWorker_def readWorkers_def
      readDelegation_def readDelegations_def tables_logAppend)

text \<open>One event with the next number, and the cursor moved to it: the log stays in step.\<close>

lemma log_in_step_append:
  assumes "log_in_step sid w" and "readSession sid w = Some s"
    and "sessionEvents sid w1 = sessionEvents sid w @ [e]" and "ev_sequence e = ses_eventCursor s + 1"
    and "readSession sid w2 = Some s2" and "ses_eventCursor s2 = ev_sequence e"
    and "sessionEvents sid w2 = sessionEvents sid w1"
  shows "log_in_step sid w2"
  using assms by (fastforce simp: log_in_step_def sorted_wrt_append)

lemma log_in_step_same:
  assumes "log_in_step sid w" and "sessionEvents sid w1 = sessionEvents sid w"
    and "map_option ses_eventCursor (readSession sid w1) = map_option ses_eventCursor (readSession sid w)"
  shows "log_in_step sid w1"
  using assms by (auto simp: log_in_step_def split: option.splits)

subsection \<open>Properties\<close>

text \<open>
  Creating a session is idempotent. Creating it again under the id it got, with the same
  intent, returns the session stored by then (whatever has happened to it since) and writes
  nothing; with a different tenant, owner, AgentSpec digest, workspace, delegation binding or
  pinned labels it throws and writes nothing.
\<close>

lemma create_session_idempotent:
  assumes "ci_sessionId i = Some sid" and "readSession sid w = Some s"
  shows "lifecycleCreate i w
    = (if matches_intent s i then Inr s else Inl (SessionIntentConflict sid), snd (now w))"
proof -
  have "readSession sid (snd (now w)) = Some s" using assms(2) by (simp add: tab_simps)
  then show ?thesis
    using assms(1) by (simp add: lifecycleCreate_def idOr_def createSession_def split_def Let_def)
qed

lemma create_session_idempotent_witness:
  "lifecycleCreate \<lparr>ci_sessionId = Some ''s1'', ci_tenantId = ''t1'', ci_owner = ''mallory'',
       ci_resolvedAgentSpec = ex_spec, ci_workspaceRef = ''ws1'', ci_delegationBinding = None,
       ci_requiredWorkerLabels = None\<rparr> (writeSession ex_session empty_world)
   = (Inl (SessionIntentConflict ''s1''), snd (now (writeSession ex_session empty_world)))"
proof -
  let ?i = "\<lparr>ci_sessionId = Some ''s1'', ci_tenantId = ''t1'', ci_owner = ''mallory'',
       ci_resolvedAgentSpec = ex_spec, ci_workspaceRef = ''ws1'', ci_delegationBinding = None,
       ci_requiredWorkerLabels = None\<rparr>"
  have "ci_sessionId ?i = Some ''s1''" "readSession ''s1'' (writeSession ex_session empty_world) = Some ex_session"
    by (simp_all add: ex_defs tab_simps)
  from create_session_idempotent [OF this]
  show ?thesis by (simp add: matches_intent_def ex_session_def)
qed

end
