(* ===== verification/Selector.thy ===== *)
theory Selector
  imports Examples
begin

text \<open>
  \<^verbatim>\<open>managers/worker/worker-selector.ts\<close>: the choice of a worker for a queued session.
\<close>

text \<open>
  \<^verbatim>\<open>Object.entries(required).every(([k, v]) => labels[k] === v)\<close>.
\<close>

definition matchesLabels :: "labels \<Rightarrow> labels \<Rightarrow> bool" where
  "matchesLabels lbls required = list_all (\<lambda>(k, v). map_of lbls k = Some v) required"

definition matchesRequiredLabels :: "labels \<Rightarrow> labels option \<Rightarrow> bool" where
  "matchesRequiredLabels lbls required =
     (case required of None \<Rightarrow> True | Some r \<Rightarrow> matchesLabels lbls r)"

definition reuseAllows :: "worker \<Rightarrow> session \<Rightarrow> bool" where
  "reuseAllows k s = (wk_reuse k \<noteq> Some False \<or> \<not> truthy (wk_boundSessionId k)
                      \<or> wk_boundSessionId k = Some (ses_sessionId s))"

definition eligible :: "time \<Rightarrow> session \<Rightarrow> worker \<Rightarrow> bool" where
  "eligible t s k =
     (wk_lifecycleState k = Active \<and> t < wk_expiresAt k \<and> 0 < wk_allocatable k
      \<and> Ready \<in> set (wk_conditions k)
      \<and> matchesLabels (wk_labels k) (as_matchLabels (ses_resolvedAgentSpec s))
      \<and> matchesRequiredLabels (wk_labels k) (ses_requiredWorkerLabels s)
      \<and> reuseAllows k s)"

definition freshness_of :: "worker \<Rightarrow> freshness" where
  "freshness_of k = Freshness (orElse (wk_registeredAt k) (wk_heartbeatAt k)) (wk_workerId k)"

definition pinned :: "session \<Rightarrow> bool" where
  "pinned s = (case ses_requiredWorkerLabels s of None \<Rightarrow> False | Some r \<Rightarrow> r \<noteq> [])"

text \<open>
  The source reads the clock once for each worker it filters. \<open>select\<close> takes the reading for
  each position, \<open>select_at\<close> is the case of a single instant.
\<close>

definition select :: "(nat \<Rightarrow> time) \<Rightarrow> session \<Rightarrow> worker list \<Rightarrow> worker option" where
  "select t s ks =
     (let el = map snd (filter (\<lambda>(i, k). eligible (t i) s k) (enumerate 0 ks))
      in if el = [] then None
         else if pinned s then Some (hd (sort_key freshness_of el))
         else Some (hd el))"

definition select_at :: "time \<Rightarrow> session \<Rightarrow> worker list \<Rightarrow> worker option" where
  "select_at t = select (\<lambda>_. t)"

lemma filter_enumerate: "map snd (filter (\<lambda>(i, k). P k) (enumerate n ks)) = filter P ks"
  by (induction ks arbitrary: n) auto

lemma select_at_eq:
  "select_at t s ks =
     (let el = filter (eligible t s) ks
      in if el = [] then None
         else if pinned s then Some (hd (sort_key freshness_of el)) else Some (hd el))"
  by (simp add: select_at_def select_def filter_enumerate)

lemma hd_sort_key_min:
  assumes "xs \<noteq> []"
  shows "hd (sort_key f xs) \<in> set xs \<and> (\<forall>x \<in> set xs. f (hd (sort_key f xs)) \<le> f x)"
proof -
  from assms obtain y ys where ys: "sort_key f xs = y # ys"
    by (metis length_0_conv length_sort neq_Nil_conv)
  have "sorted (map f (y # ys))" using sorted_sort_key [of f xs] unfolding ys .
  moreover have "set (y # ys) = set xs" using set_sort [of f xs] unfolding ys .
  ultimately show ?thesis unfolding ys by auto
qed


text \<open>
  Pinning only narrows. Whatever extra labels a session requires and whatever the worker
  list holds, a worker selected for the pinned session is eligible for the same session without
  the pin, carries every required label, and no other session's no-reuse worker is ever chosen.
\<close>

lemma select_narrows:
  assumes "select t s ks = Some k"
  shows "k \<in> set ks
    \<and> (\<exists>i. eligible (t i) (s\<lparr>ses_requiredWorkerLabels := None\<rparr>) k)
    \<and> matchesRequiredLabels (wk_labels k) (ses_requiredWorkerLabels s)
    \<and> (wk_reuse k = Some False \<longrightarrow> truthy (wk_boundSessionId k) \<longrightarrow> wk_boundSessionId k = Some (ses_sessionId s))"
proof -
  let ?el = "map snd (filter (\<lambda>(i, k). eligible (t i) s k) (enumerate 0 ks))"
  from assms have ne: "?el \<noteq> []" and "k = hd (sort_key freshness_of ?el) \<or> k = hd ?el"
    by (auto simp: select_def Let_def split: if_splits)
  with hd_sort_key_min [OF ne, of freshness_of] hd_in_set [OF ne] have "k \<in> set ?el" by auto
  then obtain i where "(i, k) \<in> set (enumerate 0 ks)" and e: "eligible (t i) s k" by auto
  then have "k \<in> set ks" by (auto simp: in_set_enumerate_eq)
  moreover from e have "eligible (t i) (s\<lparr>ses_requiredWorkerLabels := None\<rparr>) k"
    by (simp add: eligible_def matchesRequiredLabels_def reuseAllows_def)
  ultimately show ?thesis using e by (auto simp: eligible_def reuseAllows_def)
qed

lemma select_narrows_witness:
  "(\<exists>i. eligible ((\<lambda>_. 5) i)
      ((ex_session\<lparr>ses_requiredWorkerLabels := Some [(''agent'', ''edge'')]\<rparr>)\<lparr>ses_requiredWorkerLabels := None\<rparr>)
      (ex_worker\<lparr>wk_workerId := ''k2'', wk_registeredAt := Some 9\<rparr>))
   \<and> select (\<lambda>_. 5) (ex_session\<lparr>ses_requiredWorkerLabels := Some [(''agent'', ''edge'')]\<rparr>)
       [ex_worker, ex_worker\<lparr>wk_workerId := ''k2'', wk_registeredAt := Some 9\<rparr>]
     = Some (ex_worker\<lparr>wk_workerId := ''k2'', wk_registeredAt := Some 9\<rparr>)"
proof -
  have sel: "select (\<lambda>_. 5) (ex_session\<lparr>ses_requiredWorkerLabels := Some [(''agent'', ''edge'')]\<rparr>)
       [ex_worker, ex_worker\<lparr>wk_workerId := ''k2'', wk_registeredAt := Some 9\<rparr>]
     = Some (ex_worker\<lparr>wk_workerId := ''k2'', wk_registeredAt := Some 9\<rparr>)"
    by (simp add: select_def eligible_def matchesLabels_def matchesRequiredLabels_def reuseAllows_def
        pinned_def freshness_of_def less_eq_freshness_def ex_defs)
  from select_narrows [OF sel] sel show ?thesis by blast
qed

end
