(* ===== verification/Workers.thy ===== *)
theory Workers
  imports Lifecycle Selector
begin

text \<open>
  \<^verbatim>\<open>managers/worker/worker-manager.ts\<close>: registration, heartbeats, draining and the end of
  a worker, with what its loss does to the sessions leased to it. The event transport is always
  present, as in \<^verbatim>\<open>tenant-runtime.ts\<close>; \<open>ttl\<close> is \<^verbatim>\<open>keepaliveTtlMs\<close>.
\<close>

subsection \<open>Helpers of the manager\<close>

definition workerDraft :: "string \<Rightarrow> event_type \<Rightarrow> payload \<Rightarrow> runtime_event" where
  "workerDraft wid ty pl = (draft ty CentralActor pl 0 None)\<lparr>ev_workerId := Some wid\<rparr>"

definition appendWorkerEvent :: "string \<Rightarrow> event_type \<Rightarrow> payload \<Rightarrow> runtime_event wop" where
  "appendWorkerEvent wid ty pl = logAppend None (workerDraft wid ty pl)"

definition requireWorker :: "string \<Rightarrow> worker wop" where
  "requireWorker wid w =
     (case readWorker wid w of None \<Rightarrow> throw (WorkerMissing wid) w | Some k \<Rightarrow> ok k w)"

definition assertActiveWorker :: "worker \<Rightarrow> unit wop" where
  "assertActiveWorker k w =
     (if wk_lifecycleState k \<noteq> Active then throw (WorkerNotActive (wk_workerId k)) w else ok () w)"

definition isHeartbeatAcceptable :: "worker \<Rightarrow> bool" where
  "isHeartbeatAcceptable k = (wk_lifecycleState k = Registered \<or> wk_lifecycleState k = Active)"

definition normalizeActiveConditions :: "worker_condition list \<Rightarrow> worker_condition list" where
  "normalizeActiveConditions cs =
     (if Draining \<in> set cs then [Draining] else if Busy \<in> set cs then [Busy] else [Ready])"

definition notifyHeartbeatRejected :: "string \<Rightarrow> runtime_event \<Rightarrow> world \<Rightarrow> world" where
  "notifyHeartbeatRejected wid e = publish (WorkerCommands wid) e"

definition appendHeartbeatRejected :: "worker \<Rightarrow> string \<Rightarrow> unit wop" where
  "appendHeartbeatRejected k reason =
     andThen (appendWorkerEvent (wk_workerId k) WorkerHeartbeatRejected (ReasonPayload reason))
       (\<lambda>e w. ok () (notifyHeartbeatRejected (wk_workerId k) e w))"

definition appendUnknownHeartbeatRejected :: "string \<Rightarrow> unit wop" where
  "appendUnknownHeartbeatRejected wid =
     andThen (appendWorkerEvent wid WorkerHeartbeatRejected (ReasonPayload ''unknown-worker''))
       (\<lambda>e w. ok () (notifyHeartbeatRejected wid e w))"

subsection \<open>Registration, heartbeat, drain\<close>

definition register :: "int \<Rightarrow> string \<Rightarrow> worker_register_payload \<Rightarrow> worker wop" where
  "register ttl tenant p w =
     (let (t, w1) = now w;
          (wid, w2) = freshId w1;
          k = \<lparr>wk_workerId = wid, wk_tenantId = tenant, wk_capacityScope = tenant,
               wk_hostPoolInstanceId = wr_hostPoolInstanceId p, wk_labels = wr_labels p,
               wk_storageClass = wr_storageClass p, wk_reuse = None,
               wk_description = wr_description p, wk_capacity = wr_capacity p, wk_allocatable = 0,
               wk_conditions = [Disconnected], wk_lifecycleState = Registered, wk_heartbeatAt = t,
               wk_expiresAt = t + ttl, wk_registeredAt = Some t, wk_currentSessionCount = 0,
               wk_boundSessionId = None, wk_terminalReason = None, wk_updatedAt = t\<rparr>
      in andThen (appendWorkerEvent wid WorkerRegistered
                   (RegisteredFacts (wk_storageClass k) (wk_labels k) (wk_description k)
                      (wk_capacity k) (wr_allocatable p)))
           (\<lambda>_. ok k) (writeWorker k w2))"

definition heartbeat :: "int \<Rightarrow> worker_heartbeat_payload \<Rightarrow> worker option wop" where
  "heartbeat ttl p w =
     (case readWorker (wh_workerId p) w of
        None \<Rightarrow> andThen (appendUnknownHeartbeatRejected (wh_workerId p)) (\<lambda>_. ok None) w
      | Some k \<Rightarrow>
          if \<not> isHeartbeatAcceptable k
          then andThen (appendHeartbeatRejected k ''terminal-worker'') (\<lambda>_. ok (Some k)) w
          else
            (let (t, w1) = now w;
                 next = k\<lparr>wk_capacity := wh_capacity p, wk_allocatable := wh_allocatable p,
                          wk_conditions := normalizeActiveConditions (wh_conditions p),
                          wk_lifecycleState := Active, wk_heartbeatAt := t, wk_expiresAt := t + ttl,
                          wk_updatedAt := t\<rparr>
             in andThen (appendWorkerEvent (wk_workerId next) WorkerHeartbeat
                          (HeartbeatFacts (wk_capacity next) (wk_allocatable next) (wk_conditions next)
                             (wk_heartbeatAt next) (wk_expiresAt next)))
                  (\<lambda>_. ok (Some next)) (writeWorker next w1)))"

definition drainWorker :: "string \<Rightarrow> worker wop" where
  "drainWorker wid =
     andThen (requireWorker wid) (\<lambda>k.
     andThen (assertActiveWorker k) (\<lambda>_ w.
       (let (t, w1) = now w;
            next = k\<lparr>wk_allocatable := 0, wk_conditions := [Draining], wk_updatedAt := t\<rparr>
        in andThen (appendWorkerEvent (wk_workerId next) WorkerDraining (JsonPayload (JObj [])))
             (\<lambda>_. ok next) (writeWorker next w1))))"

definition awaitFreshReport :: "string \<Rightarrow> time \<Rightarrow> worker wop" where
  "awaitFreshReport wid deadline =
     andThen (requireWorker wid) (\<lambda>k w.
       if wk_lifecycleState k = Closed \<or> wk_lifecycleState k = Expired then ok k w
       else
         (let (t, w1) = now w;
              next = k\<lparr>wk_allocatable := 0, wk_conditions := [Disconnected],
                       wk_expiresAt := deadline, wk_updatedAt := t\<rparr>
          in ok next (writeWorker next w1)))"

definition releaseSessionLease :: "string \<Rightarrow> worker wop" where
  "releaseSessionLease wid =
     andThen (requireWorker wid) (\<lambda>k w.
       if wk_lifecycleState k \<noteq> Active then ok k w
       else
         (let count = max 0 (wk_currentSessionCount k - 1);
              alloc = min (wk_capacity k) (wk_allocatable k + 1);
              (t, w1) = now w;
              next = k\<lparr>wk_currentSessionCount := count, wk_allocatable := alloc,
                       wk_conditions := (if 0 < alloc then [Ready] else wk_conditions k),
                       wk_updatedAt := t\<rparr>
          in ok next (writeWorker next w1)))"

subsection \<open>The loss of a worker\<close>

text \<open>
  The state of the lost worker in the error details is \<open>None\<close> for \<^verbatim>\<open>'missing'\<close>.
\<close>

definition findInFlightTurnSeq :: "session \<Rightarrow> world \<Rightarrow> int option" where
  "findInFlightTurnSeq s w =
     (let candidate = ses_nextTurnSeq s - 1;
          turnEvents = filter (\<lambda>e. ev_turnSeq e = Some candidate) (readEvents (ses_sessionId s) 0 w)
      in if candidate < 1 then None
         else if turnEvents = [] then None
         else if list_ex (\<lambda>e. ev_type e = TurnCompleted \<or> ev_type e = TurnFailed) turnEvents then None
         else Some candidate)"

definition publishSessionEvent :: "string \<Rightarrow> runtime_event \<Rightarrow> world \<Rightarrow> world" where
  "publishSessionEvent sid e w =
     (let w1 = publish (SessionEvents sid) e w
      in if ev_type e = SessionLeaseLost
         then publish ClientInbox
                (e\<lparr>ev_ackId := None, ev_type := SessionStatusUpdated,
                   ev_payload := StatusPayload sid Failed (Some ''worker_lost'')\<rparr>) w1
         else w1)"

definition turnFailedDraft :: "session \<Rightarrow> worker_lifecycle option \<Rightarrow> int \<Rightarrow> int \<Rightarrow> runtime_event" where
  "turnFailedDraft s st turn sq =
     (draft TurnFailed CentralActor
        (TurnFailedPayload ''worker was lost before the turn completed'' (Some ''worker_lost'') (Some st))
        sq (Some (ses_sessionId s)))
     \<lparr>ev_workerId := ses_currentWorkerId s, ev_turnSeq := Some turn, ev_sessionLeaseId := ses_sessionLeaseId s\<rparr>"

definition leaseLostDraft :: "session \<Rightarrow> worker_lifecycle option \<Rightarrow> int \<Rightarrow> runtime_event" where
  "leaseLostDraft s st sq =
     (draft SessionLeaseLost CentralActor (LeaseLostPayload ''worker_lost'' st) sq (Some (ses_sessionId s)))
     \<lparr>ev_workerId := ses_currentWorkerId s, ev_sessionLeaseId := ses_sessionLeaseId s\<rparr>"

definition is_turn_failure :: "session \<Rightarrow> int \<Rightarrow> runtime_event \<Rightarrow> bool" where
  "is_turn_failure s turn e =
     (ev_type e = TurnFailed \<and> ev_turnSeq e = Some turn \<and> ev_sessionLeaseId e = ses_sessionLeaseId s)"

definition is_lease_lost :: "session \<Rightarrow> runtime_event \<Rightarrow> bool" where
  "is_lease_lost s e =
     (ev_type e = SessionLeaseLost \<and> ev_workerId e = ses_currentWorkerId s
      \<and> ev_sessionLeaseId e = ses_sessionLeaseId s)"

text \<open>The two appends of the function, each made only when the log does not hold the event yet.\<close>

definition failTurnInFlight ::
  "session \<Rightarrow> worker_lifecycle option \<Rightarrow> runtime_event list \<Rightarrow> int \<Rightarrow> int option
    \<Rightarrow> (int \<times> runtime_event list) wop" where
  "failTurnInFlight s st existing sq turn =
     (case turn of
        None \<Rightarrow> ok (sq, [])
      | Some n \<Rightarrow>
          if find (is_turn_failure s n) existing \<noteq> None then ok (sq, [])
          else andThen (logAppend None (turnFailedDraft s st n (sq + 1))) (\<lambda>e. ok (sq + 1, [e])))"

definition recordLeaseLost ::
  "session \<Rightarrow> worker_lifecycle option \<Rightarrow> runtime_event list \<Rightarrow> int \<Rightarrow> (int \<times> runtime_event) wop" where
  "recordLeaseLost s st existing sq =
     (case find (is_lease_lost s) existing of
        Some e \<Rightarrow> ok (sq, e)
      | None \<Rightarrow> andThen (logAppend None (leaseLostDraft s st (sq + 1))) (\<lambda>e. ok (sq + 1, e)))"

definition failSessionForWorkerLoss :: "session \<Rightarrow> worker_lifecycle option \<Rightarrow> session wop" where
  "failSessionForWorkerLoss s st w =
     (if \<not> truthy (ses_currentWorkerId s) \<or> \<not> truthy (ses_sessionLeaseId s) then ok s w
      else
        (let sid = ses_sessionId s;
             existing = readEvents sid 0 w;
             sq = fold max (map ev_sequence existing) (ses_eventCursor s)
         in andThen (failTurnInFlight s st existing sq (findInFlightTurnSeq s w)) (\<lambda>(sq1, toPublish).
            andThen (recordLeaseLost s st existing sq1) (\<lambda>(sq2, lost) w1.
              (let (t, w2) = now w1;
                   next = s\<lparr>ses_status := Failed, ses_currentWorkerId := None,
                            ses_sessionLeaseId := None, ses_lifecycleReason := Some ''worker_lost'',
                            ses_eventCursor := max sq2 (ev_sequence lost), ses_updatedAt := t\<rparr>
               in ok next (fold (publishSessionEvent sid) (toPublish @ [lost]) (writeSession next w2))))) w))"

definition hasActiveLease :: "session \<Rightarrow> string \<Rightarrow> bool" where
  "hasActiveLease s wid = (ses_currentWorkerId s = Some wid \<and> ses_sessionLeaseId s \<noteq> None)"

fun failEach :: "worker_lifecycle \<Rightarrow> session list \<Rightarrow> unit wop" where
  "failEach st [] = ok ()"
| "failEach st (s # ss) = andThen (failSessionForWorkerLoss s (Some st)) (\<lambda>_. failEach st ss)"

definition failLeasedSessions :: "worker \<Rightarrow> unit wop" where
  "failLeasedSessions k w =
     failEach (wk_lifecycleState k)
       (filter (\<lambda>s. hasActiveLease s (wk_workerId k)) (readSessions w)) w"

definition terminate ::
  "worker \<Rightarrow> worker_lifecycle \<Rightarrow> string \<Rightarrow> event_type \<Rightarrow> worker wop" where
  "terminate k st reason ty w =
     (let (t, w1) = now w;
          next = k\<lparr>wk_allocatable := 0, wk_currentSessionCount := 0, wk_conditions := [Disconnected],
                   wk_lifecycleState := st, wk_terminalReason := Some reason, wk_updatedAt := t\<rparr>
      in andThen (appendWorkerEvent (wk_workerId next) ty (ReasonPayload reason)) (\<lambda>_.
         andThen (failLeasedSessions next) (\<lambda>_. ok next)) (writeWorker next w1))"

definition closeWorker :: "string \<Rightarrow> worker wop" where
  "closeWorker wid =
     andThen (requireWorker wid) (\<lambda>k.
     andThen (assertActiveWorker k) (\<lambda>_. terminate k Closed ''worker_closed'' WorkerClosed))"

definition expireWorker :: "string \<Rightarrow> string \<Rightarrow> worker wop" where
  "expireWorker wid reason =
     andThen (requireWorker wid) (\<lambda>k.
       if wk_lifecycleState k = Closed \<or> wk_lifecycleState k = Expired then ok k
       else terminate k Expired reason WorkerExpired)"

fun terminateEach :: "worker list \<Rightarrow> worker list wop" where
  "terminateEach [] = ok []"
| "terminateEach (k # ks) =
     andThen (terminate k Expired ''worker_keepalive_expired'' WorkerExpired) (\<lambda>k1.
     andThen (terminateEach ks) (\<lambda>ks1. ok (k1 # ks1)))"

definition lapsed :: "time \<Rightarrow> worker \<Rightarrow> bool" where
  "lapsed t k = ((wk_lifecycleState k = Active \<or> wk_lifecycleState k = Registered) \<and> wk_expiresAt k \<le> t)"

definition expireWorkers :: "worker list wop" where
  "expireWorkers w =
     (let (t, w1) = now w in terminateEach (filter (lapsed t) (readWorkers w1)) w1)"

subsection \<open>What the loss of a worker does to one session\<close>

lemma fold_max_ge: "(c::int) \<le> fold max xs c" "x \<in> set xs \<Longrightarrow> x \<le> fold max xs c"
proof -
  have "c \<le> fold max xs c \<and> (\<forall>x \<in> set xs. x \<le> fold max xs c)" for c :: int
    by (induction xs arbitrary: c) (auto, metis max.bounded_iff, metis max.bounded_iff)
  then show "c \<le> fold max xs c" "x \<in> set xs \<Longrightarrow> x \<le> fold max xs c" by auto
qed

lemma fold_max_id: "\<forall>x \<in> set xs. x \<le> (c::int) \<Longrightarrow> fold max xs c = c"
  by (induction xs) auto

lemma workerDraft_worker: "ev_workerId (workerDraft wid ty pl) = Some wid"
  "ev_sessionId (workerDraft wid ty pl) = None"
  by (simp_all add: workerDraft_def draft_def)

text \<open>A worker event reaches the worker's own log and nothing else.\<close>

lemma appendWorkerEvent_ok:
  assumes "wid \<noteq> []"
  obtains e where "fst (appendWorkerEvent wid ty pl w) = Inr e" and "ev_type e = ty"
    and "ev_payload e = pl"
    and "workerEvents wid (snd (appendWorkerEvent wid ty pl w)) = workerEvents wid w @ [e]"
    and "\<And>sid. sessionEvents sid (snd (appendWorkerEvent wid ty pl w)) = sessionEvents sid w"
proof
  let ?w = "snd (now (snd (freshId w)))"
  let ?e = "(workerDraft wid ty pl)\<lparr>ev_eventId := fst (freshId w), ev_timestamp := fst (now (snd (freshId w)))\<rparr>"
  have out: "appendWorkerEvent wid ty pl w
      = (Inr ?e, ?w\<lparr>w_workerEvents := tput wid (workerEvents wid ?w @ [?e]) (w_workerEvents ?w)\<rparr>)"
    using assms
    by (simp add: appendWorkerEvent_def logAppend_def idOr_def split_def Let_def appendEvent_def
        workerDraft_worker)
  show "fst (appendWorkerEvent wid ty pl w) = Inr ?e" by (simp add: out)
  show "ev_type ?e = ty" "ev_payload ?e = pl" by (simp_all add: workerDraft_def draft_def)
  show "workerEvents wid (snd (appendWorkerEvent wid ty pl w)) = workerEvents wid w @ [?e]"
    by (simp add: out) (simp add: workerEvents_def tget_tput now_def freshId_def)
  show "sessionEvents sid (snd (appendWorkerEvent wid ty pl w)) = sessionEvents sid w" for sid
    by (simp add: out) (simp add: sessionEvents_def now_def freshId_def)
qed

lemma tables_appendWorkerEvent [tab_simps]:
  "w_sessions (snd (appendWorkerEvent wid ty pl w)) = w_sessions w"
  "w_workers (snd (appendWorkerEvent wid ty pl w)) = w_workers w"
  "w_bindings (snd (appendWorkerEvent wid ty pl w)) = w_bindings w"
  "w_uuid (snd (appendWorkerEvent wid ty pl w)) = w_uuid w"
  by (simp_all add: appendWorkerEvent_def tab_simps)

lemma tables_publishSessionEvent [tab_simps]:
  "w_sessions (publishSessionEvent sid e w) = w_sessions w"
  "w_workers (publishSessionEvent sid e w) = w_workers w"
  "w_bindings (publishSessionEvent sid e w) = w_bindings w"
  "w_sessionEvents (publishSessionEvent sid e w) = w_sessionEvents w"
  "w_uuid (publishSessionEvent sid e w) = w_uuid w"
  by (simp_all add: publishSessionEvent_def Let_def tab_simps)

lemma tables_publishEach [tab_simps]:
  "w_sessions (fold (publishSessionEvent sid) es w) = w_sessions w"
  "w_workers (fold (publishSessionEvent sid) es w) = w_workers w"
  "w_bindings (fold (publishSessionEvent sid) es w) = w_bindings w"
  "w_sessionEvents (fold (publishSessionEvent sid) es w) = w_sessionEvents w"
  "w_uuid (fold (publishSessionEvent sid) es w) = w_uuid w"
  by (induction es arbitrary: w) (simp_all add: tab_simps)

text \<open>
  The part of the world that only the tables a step names can change: two worlds agree when
  everything but the events, the messages and the readings is the same.
\<close>

definition same_records :: "world \<Rightarrow> world \<Rightarrow> bool" where
  "same_records w1 w = (w_sessions w1 = w_sessions w \<and> w_workers w1 = w_workers w
     \<and> w_bindings w1 = w_bindings w \<and> w_uuid w1 = w_uuid w)"

lemma logAppend_event:
  assumes "ev_sessionId d = Some sid" and "sid \<noteq> []"
  obtains e where "logAppend g d w = (Inr e, snd (logAppend g d w))"
    and "e = d\<lparr>ev_eventId := ev_eventId e, ev_timestamp := ev_timestamp e\<rparr>"
    and "\<And>x. sessionEvents x (snd (logAppend g d w)) = (if x = sid then sessionEvents sid w @ [e] else sessionEvents x w)"
    and "same_records (snd (logAppend g d w)) w"
proof -
  let ?i = "fst (idOr g w)" and ?w1 = "snd (idOr g w)"
  let ?e = "d\<lparr>ev_eventId := ?i, ev_timestamp := fst (now ?w1)\<rparr>"
  have "ev_sessionId ?e = Some sid" using assms(1) by simp
  from appendEvent_session [OF this assms(2), of "snd (now ?w1)"] obtain w3
    where w3: "appendEvent ?e (snd (now ?w1)) = (Inr ?e, w3)"
    and ev: "\<forall>x. sessionEvents x w3 = (if x = sid then sessionEvents sid (snd (now ?w1)) @ [?e]
                                        else sessionEvents x (snd (now ?w1)))"
    by blast
  have out: "logAppend g d w = (Inr ?e, w3)" by (simp add: logAppend_def split_def Let_def w3)
  show ?thesis
  proof
    show "logAppend g d w = (Inr ?e, snd (logAppend g d w))" by (simp add: out)
    show "?e = d\<lparr>ev_eventId := ev_eventId ?e, ev_timestamp := ev_timestamp ?e\<rparr>" by simp
    show "sessionEvents x (snd (logAppend g d w)) = (if x = sid then sessionEvents sid w @ [?e] else sessionEvents x w)" for x
      by (simp add: out ev tab_simps)
    show "same_records (snd (logAppend g d w)) w" by (simp add: same_records_def tab_simps)
  qed
qed

text \<open>
  Both conditional appends have this shape: the log of \<open>sid\<close> grows by the events \<open>new\<close>, whose
  numbers run from \<open>sq + 1\<close> to \<open>sq1\<close>.
\<close>

definition grows_log :: "string \<Rightarrow> int \<Rightarrow> runtime_event list \<Rightarrow> int \<Rightarrow> world \<Rightarrow> world \<Rightarrow> bool" where
  "grows_log sid sq new sq1 w w1 =
     (same_records w1 w \<and> map ev_sequence new = [sq + 1..sq1] \<and> sq \<le> sq1
      \<and> (\<forall>x. sessionEvents x w1 = (if x = sid then sessionEvents sid w @ new else sessionEvents x w)))"

lemma grows_log_refl: "grows_log sid sq [] sq w w"
  by (auto simp: grows_log_def same_records_def)

lemma grows_log_trans:
  assumes "grows_log sid a xs b w w1" and "grows_log sid b ys c w1 w2"
  shows "grows_log sid a (xs @ ys) c w w2"
proof -
  have "[a + 1..b] @ [b + 1..c] = [a + 1..c]"
  proof (cases "a < b")
    case True
    with assms show ?thesis
      by (intro upto_split2 [symmetric]) (auto simp: grows_log_def)
  next
    case False
    with assms show ?thesis by (auto simp: grows_log_def)
  qed
  with assms show ?thesis by (auto simp: grows_log_def same_records_def)
qed

lemma grows_log_append:
  assumes "ev_sessionId d = Some sid" and "sid \<noteq> []" and "ev_sequence d = sq + 1"
  obtains e w1 where "logAppend None d w = (Inr e, w1)" and "grows_log sid sq [e] (sq + 1) w w1"
    and "e = d\<lparr>ev_eventId := ev_eventId e, ev_timestamp := ev_timestamp e\<rparr>"
proof -
  obtain e where e: "logAppend None d w = (Inr e, snd (logAppend None d w))"
    and d: "e = d\<lparr>ev_eventId := ev_eventId e, ev_timestamp := ev_timestamp e\<rparr>"
    and ev: "\<And>x. sessionEvents x (snd (logAppend None d w)) = (if x = sid then sessionEvents sid w @ [e] else sessionEvents x w)"
    and same: "same_records (snd (logAppend None d w)) w"
    using logAppend_event [OF assms(1,2), where g = None and w = w] by blast
  have "ev_sequence e = sq + 1" using d assms(3) by (cases e; cases d) simp
  with ev same have "grows_log sid sq [e] (sq + 1) w (snd (logAppend None d w))"
    by (simp add: grows_log_def)
  with e d that show ?thesis by blast
qed

lemma failTurnInFlight_grows:
  assumes "ses_sessionId s \<noteq> []"
  obtains sq1 new w1 where "failTurnInFlight s st existing sq turn w = (Inr (sq1, new), w1)"
    and "grows_log (ses_sessionId s) sq new sq1 w w1"
    and "\<forall>n. turn = Some n \<longrightarrow> (\<exists>e \<in> set existing \<union> set new. is_turn_failure s n e)"
proof (cases "\<exists>n. turn = Some n \<and> find (is_turn_failure s n) existing = None")
  case True
  then obtain n where n: "turn = Some n" "find (is_turn_failure s n) existing = None" by blast
  let ?d = "turnFailedDraft s st n (sq + 1)"
  have d: "ev_sessionId ?d = Some (ses_sessionId s)" "ev_sequence ?d = sq + 1"
    by (simp_all add: turnFailedDraft_def draft_def)
  obtain e w1 where e: "logAppend None ?d w = (Inr e, w1)"
    "grows_log (ses_sessionId s) sq [e] (sq + 1) w w1"
    "e = ?d\<lparr>ev_eventId := ev_eventId e, ev_timestamp := ev_timestamp e\<rparr>"
    using grows_log_append [OF d(1) assms d(2), of w] by blast
  show ?thesis
  proof (rule that [of "sq + 1" "[e]" w1])
    show "failTurnInFlight s st existing sq turn w = (Inr (sq + 1, [e]), w1)"
      using n e(1) by (simp add: failTurnInFlight_def andThen_def)
    have "is_turn_failure s n e"
      by (subst e(3)) (simp add: is_turn_failure_def turnFailedDraft_def draft_def)
    then show "\<forall>m. turn = Some m \<longrightarrow> (\<exists>e \<in> set existing \<union> set [e]. is_turn_failure s m e)"
      using n(1) by simp
  qed (use e n in simp_all)
next
  case False
  show ?thesis
  proof (rule that [of sq "[]" w])
    show "failTurnInFlight s st existing sq turn w = (Inr (sq, []), w)"
      using False by (auto simp: failTurnInFlight_def split: option.splits)
    show "\<forall>n. turn = Some n \<longrightarrow> (\<exists>e \<in> set existing \<union> set []. is_turn_failure s n e)"
      using False by (auto simp: find_None_iff)
  qed (auto simp: grows_log_refl)
qed

lemma recordLeaseLost_grows:
  assumes "ses_sessionId s \<noteq> []"
  obtains sq1 lost new w1 where "recordLeaseLost s st existing sq w = (Inr (sq1, lost), w1)"
    and "grows_log (ses_sessionId s) sq new sq1 w w1" and "is_lease_lost s lost"
    and "lost \<in> set existing \<union> set new"
    and "new = [] \<or> new = [lost] \<and> find (is_lease_lost s) existing = None"
proof (cases "find (is_lease_lost s) existing")
  case None
  let ?d = "leaseLostDraft s st (sq + 1)"
  have d: "ev_sessionId ?d = Some (ses_sessionId s)" "ev_sequence ?d = sq + 1"
    by (simp_all add: leaseLostDraft_def draft_def)
  obtain e w1 where e: "logAppend None ?d w = (Inr e, w1)"
    "grows_log (ses_sessionId s) sq [e] (sq + 1) w w1"
    "e = ?d\<lparr>ev_eventId := ev_eventId e, ev_timestamp := ev_timestamp e\<rparr>"
    using grows_log_append [OF d(1) assms d(2), of w] by blast
  show ?thesis
  proof (rule that [of "sq + 1" e w1 "[e]"])
    show "recordLeaseLost s st existing sq w = (Inr (sq + 1, e), w1)"
      using None e(1) by (simp add: recordLeaseLost_def andThen_def)
    show "is_lease_lost s e"
      by (subst e(3)) (simp add: is_lease_lost_def leaseLostDraft_def draft_def)
  qed (use e None in simp_all)
next
  case (Some e)
  show ?thesis
  proof (rule that [of sq e w "[]"])
    show "recordLeaseLost s st existing sq w = (Inr (sq, e), w)"
      using Some by (simp add: recordLeaseLost_def)
  qed (use find_SomeD [OF Some] in \<open>simp_all add: grows_log_refl\<close>)
qed

text \<open>
  What \<^verbatim>\<open>failSessionForWorkerLoss\<close> does to a leased session: the session record becomes the failed
  one, its log grows by numbered events past the cursor, and no other record or log changes.
\<close>

definition failed_for_loss :: "session \<Rightarrow> int \<Rightarrow> time \<Rightarrow> session" where
  "failed_for_loss s c t =
     s\<lparr>ses_status := Failed, ses_currentWorkerId := None, ses_sessionLeaseId := None,
       ses_lifecycleReason := Some ''worker_lost'', ses_eventCursor := c, ses_updatedAt := t\<rparr>"

lemma failSession_leased:
  assumes leased: "truthy (ses_currentWorkerId s)" "truthy (ses_sessionLeaseId s)"
    and sid: "ses_sessionId s \<noteq> []"
  obtains c t new w1 where "failSessionForWorkerLoss s st w = (Inr (failed_for_loss s c t), w1)"
    and "w_sessions w1 = tput (ses_sessionId s) (failed_for_loss s c t) (w_sessions w)"
    and "w_workers w1 = w_workers w" and "w_bindings w1 = w_bindings w" and "w_uuid w1 = w_uuid w"
    and "\<forall>x. sessionEvents x w1 = (if x = ses_sessionId s then sessionEvents x w @ new else sessionEvents x w)"
    and "map ev_sequence new = [fold max (map ev_sequence (readEvents (ses_sessionId s) 0 w)) (ses_eventCursor s) + 1 .. c]"
    and "fold max (map ev_sequence (readEvents (ses_sessionId s) 0 w)) (ses_eventCursor s) \<le> c"
    and "\<exists>e \<in> set (sessionEvents (ses_sessionId s) w1). is_lease_lost s e"
    and "\<forall>n. findInFlightTurnSeq s w = Some n \<longrightarrow>
          (\<exists>e \<in> set (sessionEvents (ses_sessionId s) w1). is_turn_failure s n e)"
    and "length (filter (is_lease_lost s) new) \<le> (if find (is_lease_lost s) (readEvents (ses_sessionId s) 0 w) = None then 1 else 0)"
proof -
  let ?sid = "ses_sessionId s" and ?ex = "readEvents (ses_sessionId s) 0 w"
  let ?sq = "fold max (map ev_sequence ?ex) (ses_eventCursor s)"
  obtain sq1 new1 w1 where f: "failTurnInFlight s st ?ex ?sq (findInFlightTurnSeq s w) w = (Inr (sq1, new1), w1)"
    and g1: "grows_log ?sid ?sq new1 sq1 w w1"
    and tf: "\<forall>n. findInFlightTurnSeq s w = Some n \<longrightarrow> (\<exists>e \<in> set ?ex \<union> set new1. is_turn_failure s n e)"
    by (rule failTurnInFlight_grows [OF sid, where st = st and existing = ?ex and sq = ?sq
          and turn = "findInFlightTurnSeq s w" and w = w]) blast
  obtain sq2 lost new2 w2 where r: "recordLeaseLost s st ?ex sq1 w1 = (Inr (sq2, lost), w2)"
    and g2: "grows_log ?sid sq1 new2 sq2 w1 w2" and ll: "is_lease_lost s lost"
    and mem: "lost \<in> set ?ex \<union> set new2"
    and n2: "new2 = [] \<or> new2 = [lost] \<and> find (is_lease_lost s) ?ex = None"
    by (rule recordLeaseLost_grows [OF sid, where st = st and existing = ?ex and sq = sq1 and w = w1]) blast
  let ?new = "new1 @ new2"
  have g: "grows_log ?sid ?sq ?new sq2 w w2" by (rule grows_log_trans [OF g1 g2])
  have ex: "e \<in> set (sessionEvents ?sid w)" if "e \<in> set ?ex" for e
    using that by (simp add: readEvents_def)
  have le: "ev_sequence lost \<le> sq2"
  proof (cases "lost \<in> set ?ex")
    case True
    then have "ev_sequence lost \<le> ?sq" by (intro fold_max_ge) simp
    with g show ?thesis by (simp add: grows_log_def)
  next
    case False
    with mem have "ev_sequence lost \<in> set (map ev_sequence new2)" by auto
    with g2 show ?thesis by (auto simp: grows_log_def)
  qed
  let ?t = "fst (now w2)" and ?next = "failed_for_loss s sq2 (fst (now w2))"
  define w3 where "w3 = fold (publishSessionEvent ?sid) (new1 @ [lost]) (writeSession ?next (snd (now w2)))"
  have run: "failSessionForWorkerLoss s st w = (Inr ?next, w3)"
    using leased f r le
    by (simp add: failSessionForWorkerLoss_def Let_def andThen_def split_def failed_for_loss_def max_absorb1 w3_def)
  have old: "is_lease_lost s e \<Longrightarrow> e \<in> set new1 \<Longrightarrow> False" for e
    using f by (auto simp: failTurnInFlight_def is_lease_lost_def turnFailedDraft_def draft_def
        logAppend_def appendEvent_def andThen_def split_def Let_def split: option.splits if_splits)
  have ev3: "sessionEvents x w3 = sessionEvents x w2" for x
    unfolding w3_def by (simp add: sessionEvents_def tab_simps del: fold_append) (simp add: writeSession_def now_def)
  have tabs: "w_sessions w3 = tput ?sid ?next (w_sessions w2)" "w_workers w3 = w_workers w2"
    "w_bindings w3 = w_bindings w2" "w_uuid w3 = w_uuid w2"
    unfolding w3_def tables_publishEach by (simp_all add: writeSession_def tab_simps failed_for_loss_def)
  from g have g': "w_sessions w2 = w_sessions w" "w_workers w2 = w_workers w" "w_bindings w2 = w_bindings w"
    "w_uuid w2 = w_uuid w"
    "map ev_sequence ?new = [?sq + 1..sq2]" "?sq \<le> sq2"
    "\<And>x. sessionEvents x w2 = (if x = ?sid then sessionEvents ?sid w @ ?new else sessionEvents x w)"
    by (simp_all add: grows_log_def same_records_def)
  show ?thesis
  proof (rule that [of sq2 ?t w3 ?new])
    show "\<exists>e \<in> set (sessionEvents ?sid w3). is_lease_lost s e"
      using ll mem ex g' by (auto simp: ev3)
    show "\<forall>n. findInFlightTurnSeq s w = Some n \<longrightarrow>
        (\<exists>e \<in> set (sessionEvents ?sid w3). is_turn_failure s n e)"
      using tf ex g' by (fastforce simp: ev3)
    have "filter (is_lease_lost s) new1 = []" using old by (auto simp: filter_empty_conv)
    with n2 show "length (filter (is_lease_lost s) ?new)
        \<le> (if find (is_lease_lost s) ?ex = None then 1 else 0)"
      by auto
    show "\<forall>x. sessionEvents x w3 = (if x = ?sid then sessionEvents x w @ ?new else sessionEvents x w)"
      by (simp add: ev3 g')
  qed (use run g' tabs in simp_all)
qed

subsection \<open>The loss of every session of a worker\<close>

text \<open>
  Session files are keyed by their id, and the ids central hands out are not empty (an empty
  lease would count as no lease in the source's truthiness tests).
\<close>

definition wf_session :: "session \<Rightarrow> bool" where
  "wf_session s = (ses_sessionId s \<noteq> [] \<and> ses_currentWorkerId s \<noteq> Some [] \<and> ses_sessionLeaseId s \<noteq> Some [])"

definition wf_sessions :: "world \<Rightarrow> bool" where
  "wf_sessions w = (keyed ses_sessionId (w_sessions w) \<and> list_all wf_session (readSessions w))"

definition lost_in :: "session \<Rightarrow> world \<Rightarrow> bool" where
  "lost_in s w = (\<exists>c t. readSession (ses_sessionId s) w = Some (failed_for_loss s c t)
     \<and> (\<exists>e \<in> set (sessionEvents (ses_sessionId s) w). is_lease_lost s e))"

lemma readSessions_iff:
  "wf_sessions w \<Longrightarrow> s \<in> set (readSessions w) \<longleftrightarrow> readSession (ses_sessionId s) w = Some s"
  by (simp add: wf_sessions_def readSessions_def readSession_def tall_tget)

lemma readSession_id: "wf_sessions w \<Longrightarrow> readSession k w = Some s \<Longrightarrow> ses_sessionId s = k"
  unfolding wf_sessions_def readSession_def by (blast intro: keyed_tget)

lemma wf_sessions_wf: "wf_sessions w \<Longrightarrow> s \<in> set (readSessions w) \<Longrightarrow> wf_session s"
  by (simp add: wf_sessions_def list_all_iff)

lemma wf_failed_for_loss: "ses_sessionId s \<noteq> [] \<Longrightarrow> wf_session (failed_for_loss s c t)"
  by (simp add: wf_session_def failed_for_loss_def)

lemma wf_sessions_tput:
  assumes "wf_sessions w" and "w_sessions w1 = tput (ses_sessionId s) s (w_sessions w)" and "wf_session s"
  shows "wf_sessions w1"
  using assms by (auto simp: wf_sessions_def readSessions_def list_all_iff tall_tput intro: keyed_tput)

lemma distinct_session_ids: "wf_sessions w \<Longrightarrow> distinct (map ses_sessionId (readSessions w))"
proof -
  assume "wf_sessions w"
  then have k: "keyed ses_sessionId (w_sessions w)" by (simp add: wf_sessions_def)
  then have "map ses_sessionId (map snd (w_sessions w)) = map fst (w_sessions w)"
    unfolding map_map by (intro map_cong) (auto simp: keyed_def)
  with k show ?thesis by (simp only: readSessions_def tall_def keyed_def)
qed

lemma failEach_effect:
  assumes "wf_sessions w" and "distinct (map ses_sessionId ss)"
    and "\<forall>s \<in> set ss. readSession (ses_sessionId s) w = Some s \<and> truthy (ses_currentWorkerId s) \<and> truthy (ses_sessionLeaseId s)"
  shows "\<exists>w1. failEach st ss w = (Inr (), w1) \<and> wf_sessions w1 \<and> w_workers w1 = w_workers w
     \<and> w_bindings w1 = w_bindings w \<and> w_uuid w1 = w_uuid w
     \<and> (\<forall>s \<in> set ss. lost_in s w1)
     \<and> (\<forall>x. x \<notin> ses_sessionId ` set ss \<longrightarrow> readSession x w1 = readSession x w \<and> sessionEvents x w1 = sessionEvents x w)"
  using assms
proof (induction ss arbitrary: w)
  case Nil
  then show ?case by simp
next
  case (Cons s ss)
  from Cons.prems have s: "readSession (ses_sessionId s) w = Some s" "truthy (ses_currentWorkerId s)"
    "truthy (ses_sessionLeaseId s)" by simp_all
  then have "wf_session s"
    using wf_sessions_wf [OF Cons.prems(1)] readSessions_iff [OF Cons.prems(1)] by blast
  then have sid: "ses_sessionId s \<noteq> []" by (simp add: wf_session_def)
  obtain c t new w1 where step: "failSessionForWorkerLoss s (Some st) w = (Inr (failed_for_loss s c t), w1)"
    and tab: "w_sessions w1 = tput (ses_sessionId s) (failed_for_loss s c t) (w_sessions w)"
    and frame: "w_workers w1 = w_workers w" "w_bindings w1 = w_bindings w" "w_uuid w1 = w_uuid w"
    and ev: "\<forall>x. sessionEvents x w1 = (if x = ses_sessionId s then sessionEvents x w @ new else sessionEvents x w)"
    and lost: "\<exists>e \<in> set (sessionEvents (ses_sessionId s) w1). is_lease_lost s e"
    by (rule failSession_leased [OF s(2,3) sid, where st = "Some st" and w = w]) blast
  have id: "ses_sessionId (failed_for_loss s c t) = ses_sessionId s" by (simp add: failed_for_loss_def)
  have wf1: "wf_sessions w1"
    using wf_sessions_tput [OF Cons.prems(1), of w1 "failed_for_loss s c t"] tab wf_failed_for_loss [OF sid]
    by (simp add: id)
  have read1: "readSession x w1 = (if x = ses_sessionId s then Some (failed_for_loss s c t) else readSession x w)" for x
    by (simp add: readSession_def tab tget_tput)
  have "\<forall>s2 \<in> set ss. readSession (ses_sessionId s2) w1 = Some s2 \<and> truthy (ses_currentWorkerId s2) \<and> truthy (ses_sessionLeaseId s2)"
  proof
    fix s2 assume s2: "s2 \<in> set ss"
    then have "ses_sessionId s2 \<in> ses_sessionId ` set ss" by (rule imageI)
    with Cons.prems(2) have "ses_sessionId s2 \<noteq> ses_sessionId s" by (metis distinct.simps(2) list.map(2) list.set_map)
    with Cons.prems(3) s2 read1 show "readSession (ses_sessionId s2) w1 = Some s2
        \<and> truthy (ses_currentWorkerId s2) \<and> truthy (ses_sessionLeaseId s2)" by simp
  qed
  with Cons.IH [OF wf1] Cons.prems(2) obtain w2 where w2: "failEach st ss w1 = (Inr (), w2)"
    "wf_sessions w2" "w_workers w2 = w_workers w1" "w_bindings w2 = w_bindings w1" "w_uuid w2 = w_uuid w1"
    "\<forall>s \<in> set ss. lost_in s w2"
    "\<forall>x. x \<notin> ses_sessionId ` set ss \<longrightarrow> readSession x w2 = readSession x w1 \<and> sessionEvents x w2 = sessionEvents x w1"
    by auto
  have "ses_sessionId s \<notin> ses_sessionId ` set ss" using Cons.prems(2) by simp
  with w2(7) lost read1 have "lost_in s w2" unfolding lost_in_def by auto
  with w2 step show ?case by (auto simp: andThen_def frame read1 ev)
qed

lemma failLeasedSessions_effect:
  assumes "wf_sessions w" and "wk_workerId k \<noteq> []"
  obtains w1 where "failLeasedSessions k w = (Inr (), w1)" and "wf_sessions w1"
    and "w_workers w1 = w_workers w" and "w_bindings w1 = w_bindings w" and "w_uuid w1 = w_uuid w"
    and "\<forall>s \<in> set (readSessions w).
           if hasActiveLease s (wk_workerId k) then lost_in s w1
           else readSession (ses_sessionId s) w1 = Some s
                \<and> sessionEvents (ses_sessionId s) w1 = sessionEvents (ses_sessionId s) w"
    and "\<forall>s \<in> set (readSessions w1). \<not> hasActiveLease s (wk_workerId k)"
proof -
  let ?ss = "filter (\<lambda>s. hasActiveLease s (wk_workerId k)) (readSessions w)"
  have d: "distinct (map ses_sessionId ?ss)"
    using distinct_session_ids [OF assms(1)] by (rule distinct_map_filter)
  have m: "\<forall>s \<in> set ?ss. readSession (ses_sessionId s) w = Some s \<and> truthy (ses_currentWorkerId s) \<and> truthy (ses_sessionLeaseId s)"
    using readSessions_iff [OF assms(1)] wf_sessions_wf [OF assms(1)] assms(2)
    by (auto simp: hasActiveLease_def wf_session_def)
  from failEach_effect [OF assms(1) d m, of "wk_lifecycleState k"] obtain w1 where
    w1: "failEach (wk_lifecycleState k) ?ss w = (Inr (), w1)" "wf_sessions w1" "w_workers w1 = w_workers w"
    "w_bindings w1 = w_bindings w" "w_uuid w1 = w_uuid w" "\<forall>s \<in> set ?ss. lost_in s w1"
    and other: "\<forall>x. x \<notin> ses_sessionId ` set ?ss \<longrightarrow> readSession x w1 = readSession x w \<and> sessionEvents x w1 = sessionEvents x w"
    by blast
  show ?thesis
  proof (rule that [of w1])
    show "failLeasedSessions k w = (Inr (), w1)" by (simp add: failLeasedSessions_def w1)
    show "\<forall>s \<in> set (readSessions w).
           if hasActiveLease s (wk_workerId k) then lost_in s w1
           else readSession (ses_sessionId s) w1 = Some s
                \<and> sessionEvents (ses_sessionId s) w1 = sessionEvents (ses_sessionId s) w"
    proof (intro ballI)
      fix s assume s: "s \<in> set (readSessions w)"
      show "if hasActiveLease s (wk_workerId k) then lost_in s w1
           else readSession (ses_sessionId s) w1 = Some s
                \<and> sessionEvents (ses_sessionId s) w1 = sessionEvents (ses_sessionId s) w"
      proof (cases "hasActiveLease s (wk_workerId k)")
        case True
        with s w1(6) show ?thesis by simp
      next
        case False
        have "ses_sessionId s \<notin> ses_sessionId ` set ?ss"
        proof
          assume "ses_sessionId s \<in> ses_sessionId ` set ?ss"
          then obtain s0 where s0: "s0 \<in> set (readSessions w)" "hasActiveLease s0 (wk_workerId k)"
            "ses_sessionId s0 = ses_sessionId s" by auto
          from s s0(1) have "readSession (ses_sessionId s) w = Some s" "readSession (ses_sessionId s0) w = Some s0"
            by (simp_all only: readSessions_iff [OF assms(1)])
          with s0(3) have "s0 = s" by simp
          with s0 False show False by simp
        qed
        moreover have "readSession (ses_sessionId s) w = Some s"
          using s by (simp only: readSessions_iff [OF assms(1)])
        ultimately show ?thesis using other False by simp
      qed
    qed
    show "\<forall>s \<in> set (readSessions w1). \<not> hasActiveLease s (wk_workerId k)"
    proof
      fix s assume s: "s \<in> set (readSessions w1)"
      then have r: "readSession (ses_sessionId s) w1 = Some s" by (simp add: readSessions_iff [OF w1(2)])
      show "\<not> hasActiveLease s (wk_workerId k)"
      proof (cases "ses_sessionId s \<in> ses_sessionId ` set ?ss")
        case True
        then obtain s0 where "s0 \<in> set ?ss" "ses_sessionId s0 = ses_sessionId s" by auto
        with w1(6) obtain c t where "readSession (ses_sessionId s) w1 = Some (failed_for_loss s0 c t)"
          by (auto simp: lost_in_def)
        with r have "s = failed_for_loss s0 c t" by simp
        then show ?thesis by (simp add: hasActiveLease_def failed_for_loss_def)
      next
        case False
        with other r have "readSession (ses_sessionId s) w = Some s" by simp
        then have "s \<in> set (readSessions w)" by (simp add: readSessions_iff [OF assms(1)])
        with False show ?thesis by auto
      qed
    qed
  qed (use w1 in simp_all)
qed

subsection \<open>The worker table\<close>

text \<open>
  A worker that is not active offers no capacity, and exactly the closed and the expired workers
  have a terminal reason; those hold no session any more.
\<close>

definition retired :: "worker \<Rightarrow> bool" where
  "retired k = (wk_lifecycleState k = Closed \<or> wk_lifecycleState k = Expired)"

definition wf_worker :: "worker \<Rightarrow> bool" where
  "wf_worker k =
     ((if wk_lifecycleState k = Active then 0 \<le> wk_currentSessionCount k
       else wk_allocatable k = 0 \<and> wk_conditions k = [Disconnected])
      \<and> (if retired k then wk_currentSessionCount k = 0 \<and> wk_terminalReason k \<noteq> None
         else wk_terminalReason k = None)
      \<and> 0 \<le> wk_currentSessionCount k)"

definition wf_workers :: "world \<Rightarrow> bool" where
  "wf_workers w = (keyed wk_workerId (w_workers w) \<and> list_all wf_worker (readWorkers w))"

text \<open>What every operation does to the table: it stays well formed and no retired worker changes.\<close>

definition worker_moves :: "world \<Rightarrow> world \<Rightarrow> bool" where
  "worker_moves w w1 =
     (wf_workers w1 \<and> w_uuid w1 = w_uuid w
      \<and> (\<forall>x k. readWorker x w = Some k \<and> retired k \<and> x \<notin> range (w_uuid w) \<longrightarrow> readWorker x w1 = Some k))"

lemma worker_moves_same:
  "wf_workers w \<Longrightarrow> w_workers w1 = w_workers w \<Longrightarrow> w_uuid w1 = w_uuid w \<Longrightarrow> worker_moves w w1"
  by (simp add: worker_moves_def wf_workers_def readWorkers_def readWorker_def)

lemma worker_moves_trans: "worker_moves w w1 \<Longrightarrow> worker_moves w1 w2 \<Longrightarrow> worker_moves w w2"
  by (simp add: worker_moves_def)

lemma worker_moves_put:
  assumes "wf_workers w" and "w_workers w1 = tput (wk_workerId k) k (w_workers w)" and "w_uuid w1 = w_uuid w"
    and "wf_worker k"
    and "\<And>k0. readWorker (wk_workerId k) w = Some k0 \<Longrightarrow> retired k0 \<Longrightarrow> wk_workerId k \<in> range (w_uuid w)"
  shows "worker_moves w w1"
  unfolding worker_moves_def
proof (intro conjI allI impI)
  show "wf_workers w1"
    using assms by (auto simp: wf_workers_def readWorkers_def list_all_iff tall_tput intro: keyed_tput)
  show "w_uuid w1 = w_uuid w" by fact
  fix x k1 assume "readWorker x w = Some k1 \<and> retired k1 \<and> x \<notin> range (w_uuid w)"
  then show "readWorker x w1 = Some k1"
    using assms(2) assms(5) [of k1] by (auto simp: readWorker_def tget_tput)
qed

lemma readWorker_wf: "wf_workers w \<Longrightarrow> readWorker x w = Some k \<Longrightarrow> wf_worker k \<and> wk_workerId k = x"
  by (auto simp: wf_workers_def readWorker_def readWorkers_def list_all_iff dest: tall_tgetI keyed_tget)

lemma tables_failSession [tab_simps]:
  "w_workers (snd (failSessionForWorkerLoss s st w)) = w_workers w"
  "w_uuid (snd (failSessionForWorkerLoss s st w)) = w_uuid w"
  by (simp_all add: failSessionForWorkerLoss_def failTurnInFlight_def recordLeaseLost_def Let_def
        split_def andThen_def tab_simps writeSession_def del: fold_append
      split: option.splits sum.splits)

lemma tables_failEach [tab_simps]:
  "w_workers (snd (failEach st ss w)) = w_workers w"
  "w_uuid (snd (failEach st ss w)) = w_uuid w"
  by (induction ss arbitrary: w) (auto intro!: andThen_same simp: tab_simps)

lemma tables_failLeasedSessions [tab_simps]:
  "w_workers (snd (failLeasedSessions k w)) = w_workers w"
  "w_uuid (snd (failLeasedSessions k w)) = w_uuid w"
  by (simp_all add: failLeasedSessions_def tab_simps)

lemma tables_terminate:
  "w_workers (snd (terminate k st reason ty w))
     = tput (wk_workerId k)
         (k\<lparr>wk_allocatable := 0, wk_currentSessionCount := 0, wk_conditions := [Disconnected],
            wk_lifecycleState := st, wk_terminalReason := Some reason, wk_updatedAt := fst (now w)\<rparr>) (w_workers w)"
  "w_uuid (snd (terminate k st reason ty w)) = w_uuid w"
proof -
  have w: "w_workers (snd (andThen (appendWorkerEvent x ty pl) (\<lambda>_. andThen (failLeasedSessions k1) (\<lambda>_. ok k1)) w1)) = w_workers w1"
    "w_uuid (snd (andThen (appendWorkerEvent x ty pl) (\<lambda>_. andThen (failLeasedSessions k1) (\<lambda>_. ok k1)) w1)) = w_uuid w1"
    for x pl k1 w1
    by (rule andThen_same; simp add: tab_simps)+
  show "w_workers (snd (terminate k st reason ty w)) = tput (wk_workerId k)
         (k\<lparr>wk_allocatable := 0, wk_currentSessionCount := 0, wk_conditions := [Disconnected],
            wk_lifecycleState := st, wk_terminalReason := Some reason, wk_updatedAt := fst (now w)\<rparr>) (w_workers w)"
    "w_uuid (snd (terminate k st reason ty w)) = w_uuid w"
    by (simp_all add: terminate_def Let_def split_def w tab_simps writeWorker_def)
qed

lemma terminate_moves:
  assumes "wf_workers w" and "readWorker (wk_workerId k) w = Some k" and "\<not> retired k"
    and "st = Closed \<or> st = Expired"
  shows "worker_moves w (snd (terminate k st reason ty w))"
  using assms(2-4)
  by (intro worker_moves_put [OF assms(1), where k =
        "k\<lparr>wk_allocatable := 0, wk_currentSessionCount := 0, wk_conditions := [Disconnected],
            wk_lifecycleState := st, wk_terminalReason := Some reason, wk_updatedAt := fst (now w)\<rparr>"])
     (auto simp: tables_terminate wf_worker_def retired_def)

lemma register_moves: "wf_workers w \<Longrightarrow> worker_moves w (snd (register ttl tenant p w))"
proof -
  assume wf: "wf_workers w"
  define k where "k = \<lparr>wk_workerId = fst (freshId (snd (now w))), wk_tenantId = tenant, wk_capacityScope = tenant,
               wk_hostPoolInstanceId = wr_hostPoolInstanceId p, wk_labels = wr_labels p,
               wk_storageClass = wr_storageClass p, wk_reuse = None,
               wk_description = wr_description p, wk_capacity = wr_capacity p, wk_allocatable = 0,
               wk_conditions = [Disconnected], wk_lifecycleState = Registered, wk_heartbeatAt = fst (now w),
               wk_expiresAt = fst (now w) + ttl, wk_registeredAt = Some (fst (now w)), wk_currentSessionCount = 0,
               wk_boundSessionId = None, wk_terminalReason = None, wk_updatedAt = fst (now w)\<rparr>"
  show ?thesis
  proof (rule worker_moves_put [OF wf, where k = k])
    show "w_workers (snd (register ttl tenant p w)) = tput (wk_workerId k) k (w_workers w)"
      "w_uuid (snd (register ttl tenant p w)) = w_uuid w"
      by (simp_all add: register_def k_def Let_def split_def tab_simps writeWorker_def)
    show "wf_worker k" by (simp add: k_def wf_worker_def retired_def)
    show "wk_workerId k \<in> range (w_uuid w)"
      by (simp add: k_def freshId_def now_def)
  qed
qed

lemma tables_rejected [tab_simps]:
  "w_workers (snd (appendHeartbeatRejected k r w)) = w_workers w"
  "w_uuid (snd (appendHeartbeatRejected k r w)) = w_uuid w"
  "w_workers (snd (appendUnknownHeartbeatRejected x w)) = w_workers w"
  "w_uuid (snd (appendUnknownHeartbeatRejected x w)) = w_uuid w"
  by (auto intro!: andThen_same simp: appendHeartbeatRejected_def appendUnknownHeartbeatRejected_def
      notifyHeartbeatRejected_def tab_simps)

lemma heartbeat_moves:
  assumes "wf_workers w" shows "worker_moves w (snd (heartbeat ttl p w))"
proof (cases "readWorker (wh_workerId p) w")
  case None
  then show ?thesis
    by (intro worker_moves_same [OF assms]) (simp_all add: heartbeat_def tab_simps)
next
  case (Some k)
  note wf = readWorker_wf [OF assms Some]
  show ?thesis
  proof (cases "isHeartbeatAcceptable k")
    case False
    with Some show ?thesis
      by (intro worker_moves_same [OF assms]) (simp_all add: heartbeat_def tab_simps)
  next
    case True
    let ?t = "fst (now w)"
    let ?n = "k\<lparr>wk_capacity := wh_capacity p, wk_allocatable := wh_allocatable p,
                 wk_conditions := normalizeActiveConditions (wh_conditions p),
                 wk_lifecycleState := Active, wk_heartbeatAt := ?t, wk_expiresAt := ?t + ttl, wk_updatedAt := ?t\<rparr>"
    show ?thesis
    proof (rule worker_moves_put [OF assms, where k = ?n])
      show "w_workers (snd (heartbeat ttl p w)) = tput (wk_workerId ?n) ?n (w_workers w)"
        "w_uuid (snd (heartbeat ttl p w)) = w_uuid w"
        using True Some by (simp_all add: heartbeat_def Let_def split_def tab_simps writeWorker_def)
      show "wf_worker ?n" using wf True by (auto simp: wf_worker_def retired_def isHeartbeatAcceptable_def)
    qed (use wf True Some in \<open>auto simp: retired_def isHeartbeatAcceptable_def\<close>)
  qed
qed

text \<open>The operations that look a worker up first.\<close>

lemma requireWorker_simps:
  "readWorker wid w = None \<Longrightarrow> andThen (requireWorker wid) f w = (Inl (WorkerMissing wid), w)"
  "readWorker wid w = Some k \<Longrightarrow> andThen (requireWorker wid) f w = f k w"
  by (simp_all add: requireWorker_def andThen_def)

lemma assertActive_simps:
  "wk_lifecycleState k = Active \<Longrightarrow> andThen (assertActiveWorker k) f w = f () w"
  "wk_lifecycleState k \<noteq> Active \<Longrightarrow> andThen (assertActiveWorker k) f w = (Inl (WorkerNotActive (wk_workerId k)), w)"
  by (simp_all add: assertActiveWorker_def andThen_def)

lemma drain_moves:
  assumes "wf_workers w" shows "worker_moves w (snd (drainWorker wid w))"
proof (cases "\<exists>k. readWorker wid w = Some k \<and> wk_lifecycleState k = Active")
  case False
  then show ?thesis
    by (intro worker_moves_same [OF assms]; cases "readWorker wid w")
       (auto simp: drainWorker_def requireWorker_simps assertActive_simps)
next
  case True
  then obtain k where k: "readWorker wid w = Some k" "wk_lifecycleState k = Active" by blast
  with readWorker_wf [OF assms k(1)] show ?thesis
    by (intro worker_moves_put [OF assms, where k =
          "k\<lparr>wk_allocatable := 0, wk_conditions := [Draining], wk_updatedAt := fst (now w)\<rparr>"])
       (auto simp: drainWorker_def requireWorker_simps assertActive_simps Let_def split_def tab_simps
          writeWorker_def wf_worker_def retired_def)
qed

lemma awaitFreshReport_moves:
  assumes "wf_workers w" shows "worker_moves w (snd (awaitFreshReport wid deadline w))"
proof (cases "\<exists>k. readWorker wid w = Some k \<and> \<not> retired k")
  case False
  then show ?thesis
    by (intro worker_moves_same [OF assms]; cases "readWorker wid w")
       (auto simp: awaitFreshReport_def requireWorker_simps retired_def)
next
  case True
  then obtain k where k: "readWorker wid w = Some k" "\<not> retired k" by blast
  with readWorker_wf [OF assms k(1)] show ?thesis
    by (intro worker_moves_put [OF assms, where k =
          "k\<lparr>wk_allocatable := 0, wk_conditions := [Disconnected], wk_expiresAt := deadline, wk_updatedAt := fst (now w)\<rparr>"])
       (auto simp: awaitFreshReport_def requireWorker_simps Let_def split_def tab_simps
          writeWorker_def wf_worker_def retired_def)
qed

lemma releaseSessionLease_moves:
  assumes "wf_workers w" shows "worker_moves w (snd (releaseSessionLease wid w))"
proof (cases "\<exists>k. readWorker wid w = Some k \<and> wk_lifecycleState k = Active")
  case False
  then show ?thesis
    by (intro worker_moves_same [OF assms]; cases "readWorker wid w")
       (auto simp: releaseSessionLease_def requireWorker_simps)
next
  case True
  then obtain k where k: "readWorker wid w = Some k" "wk_lifecycleState k = Active" by blast
  let ?a = "min (wk_capacity k) (wk_allocatable k + 1)"
  from k readWorker_wf [OF assms k(1)] show ?thesis
    by (intro worker_moves_put [OF assms, where k =
          "k\<lparr>wk_currentSessionCount := max 0 (wk_currentSessionCount k - 1), wk_allocatable := ?a,
             wk_conditions := (if 0 < ?a then [Ready] else wk_conditions k), wk_updatedAt := fst (now w)\<rparr>"])
       (auto simp: releaseSessionLease_def requireWorker_simps Let_def split_def tab_simps
          writeWorker_def wf_worker_def retired_def)
qed

lemma close_moves:
  assumes "wf_workers w" shows "worker_moves w (snd (closeWorker wid w))"
proof (cases "\<exists>k. readWorker wid w = Some k \<and> wk_lifecycleState k = Active")
  case False
  then show ?thesis
    by (intro worker_moves_same [OF assms]; cases "readWorker wid w")
       (auto simp: closeWorker_def requireWorker_simps assertActive_simps)
next
  case True
  then obtain k where k: "readWorker wid w = Some k" "wk_lifecycleState k = Active" by blast
  with readWorker_wf [OF assms k(1)] terminate_moves [OF assms, of k Closed] show ?thesis
    by (simp add: closeWorker_def requireWorker_simps assertActive_simps retired_def)
qed

lemma expire_moves:
  assumes "wf_workers w" shows "worker_moves w (snd (expireWorker wid reason w))"
proof (cases "\<exists>k. readWorker wid w = Some k \<and> \<not> retired k")
  case False
  then show ?thesis
    by (intro worker_moves_same [OF assms]; cases "readWorker wid w")
       (auto simp: expireWorker_def requireWorker_simps retired_def)
next
  case True
  then obtain k where k: "readWorker wid w = Some k" "\<not> retired k" by blast
  with readWorker_wf [OF assms k(1)] terminate_moves [OF assms, of k Expired] show ?thesis
    by (auto simp: expireWorker_def requireWorker_simps retired_def)
qed

lemma terminateEach_moves:
  assumes "wf_workers w" and "distinct (map wk_workerId ks)"
    and "\<forall>k \<in> set ks. readWorker (wk_workerId k) w = Some k \<and> \<not> retired k"
  shows "worker_moves w (snd (terminateEach ks w))"
  using assms
proof (induction ks arbitrary: w)
  case Nil
  then show ?case by (simp add: worker_moves_same)
next
  case (Cons k ks)
  let ?w1 = "snd (terminate k Expired ''worker_keepalive_expired'' WorkerExpired w)"
  have step: "worker_moves w ?w1"
    using Cons.prems by (intro terminate_moves) simp_all
  have "readWorker (wk_workerId k2) ?w1 = Some k2 \<and> \<not> retired k2" if "k2 \<in> set ks" for k2
  proof -
    from that Cons.prems(2) have "wk_workerId k2 \<noteq> wk_workerId k"
      by (metis distinct.simps(2) image_eqI list.map(2) list.set_map)
    with that Cons.prems(3) show ?thesis by (simp add: readWorker_def tables_terminate tget_tput)
  qed
  with Cons.IH [of ?w1] step Cons.prems(2) have "worker_moves ?w1 (snd (terminateEach ks ?w1))"
    by (simp add: worker_moves_def)
  with step show ?case
    by (auto simp: andThen_def split: prod.splits sum.splits intro: worker_moves_trans)
qed

lemma distinct_worker_ids: "wf_workers w \<Longrightarrow> distinct (map wk_workerId (readWorkers w))"
proof -
  assume "wf_workers w"
  then have k: "keyed wk_workerId (w_workers w)" by (simp add: wf_workers_def)
  then have "map wk_workerId (map snd (w_workers w)) = map fst (w_workers w)"
    unfolding map_map by (intro map_cong) (auto simp: keyed_def)
  with k show ?thesis by (simp only: readWorkers_def tall_def keyed_def)
qed

lemma expireWorkers_moves:
  assumes "wf_workers w" shows "worker_moves w (snd (expireWorkers w))"
proof -
  let ?w1 = "snd (now w)"
  have same: "worker_moves w ?w1" using assms by (simp add: worker_moves_same tab_simps)
  then have wf1: "wf_workers ?w1" by (simp add: worker_moves_def)
  have "\<forall>k \<in> set (filter (lapsed (fst (now w))) (readWorkers ?w1)).
      readWorker (wk_workerId k) ?w1 = Some k \<and> \<not> retired k"
    using wf1 by (auto simp: lapsed_def retired_def wf_workers_def readWorkers_def readWorker_def tall_tget)
  from terminateEach_moves [OF wf1 distinct_map_filter [OF distinct_worker_ids [OF wf1]] this]
  show ?thesis using same by (auto simp: expireWorkers_def Let_def split_def intro: worker_moves_trans)
qed

text \<open>Any call of the manager, and any sequence of calls; what a call returns or throws is dropped.\<close>

datatype worker_call =
    CallRegister string worker_register_payload
  | CallHeartbeat worker_heartbeat_payload
  | CallDrain string
  | CallClose string
  | CallExpireWorkers
  | CallExpire string string
  | CallAwaitFreshReport string time
  | CallReleaseSessionLease string

fun run_worker_call :: "int \<Rightarrow> worker_call \<Rightarrow> world \<Rightarrow> world" where
  "run_worker_call ttl (CallRegister tenant p) w = snd (register ttl tenant p w)"
| "run_worker_call ttl (CallHeartbeat p) w = snd (heartbeat ttl p w)"
| "run_worker_call ttl (CallDrain wid) w = snd (drainWorker wid w)"
| "run_worker_call ttl (CallClose wid) w = snd (closeWorker wid w)"
| "run_worker_call ttl CallExpireWorkers w = snd (expireWorkers w)"
| "run_worker_call ttl (CallExpire wid reason) w = snd (expireWorker wid reason w)"
| "run_worker_call ttl (CallAwaitFreshReport wid deadline) w = snd (awaitFreshReport wid deadline w)"
| "run_worker_call ttl (CallReleaseSessionLease wid) w = snd (releaseSessionLease wid w)"

lemma worker_call_moves: "wf_workers w \<Longrightarrow> worker_moves w (run_worker_call ttl c w)"
  by (cases c) (simp_all add: register_moves heartbeat_moves drain_moves close_moves expireWorkers_moves
      expire_moves awaitFreshReport_moves releaseSessionLease_moves)

lemma worker_calls_move: "wf_workers w \<Longrightarrow> worker_moves w (fold (run_worker_call ttl) cs w)"
proof (induction cs arbitrary: w)
  case Nil
  then show ?case by (simp add: worker_moves_same)
next
  case (Cons c cs)
  from worker_call_moves [OF Cons.prems, of ttl c] Cons.IH [of "run_worker_call ttl c w"]
  show ?case by (auto simp: worker_moves_def)
qed

subsection \<open>Properties\<close>



text \<open>
  Closing a worker releases every session leased to it and touches no other. Afterwards the
  worker is closed with no capacity and no sessions, no session holds a lease on it, each session that did
  is failed for the loss and has the \<^verbatim>\<open>session.lease.lost\<close> event of that lease in its log, and every
  other session keeps its record and its log.
\<close>

lemma close_worker_fails_its_sessions:
  assumes "wf_sessions w" and "readWorker wid w = Some k" and "wk_workerId k = wid" and "wid \<noteq> []"
    and "wk_lifecycleState k = Active"
  shows "\<exists>k1 w1. closeWorker wid w = (Inr k1, w1)
    \<and> readWorker wid w1 = Some k1 \<and> retired k1 \<and> wk_allocatable k1 = 0 \<and> wk_currentSessionCount k1 = 0
    \<and> wf_sessions w1
    \<and> (\<forall>s \<in> set (readSessions w1). \<not> hasActiveLease s wid)
    \<and> (\<forall>s \<in> set (readSessions w).
          if hasActiveLease s wid then lost_in s w1
          else readSession (ses_sessionId s) w1 = Some s
               \<and> sessionEvents (ses_sessionId s) w1 = sessionEvents (ses_sessionId s) w)"
proof -
  let ?k1 = "k\<lparr>wk_allocatable := 0, wk_currentSessionCount := 0, wk_conditions := [Disconnected],
      wk_lifecycleState := Closed, wk_terminalReason := Some ''worker_closed'', wk_updatedAt := fst (now w)\<rparr>"
  let ?w0 = "writeWorker ?k1 (snd (now w))"
  let ?w1 = "snd (appendWorkerEvent wid WorkerClosed (ReasonPayload ''worker_closed'') ?w0)"
  obtain e where e: "fst (appendWorkerEvent wid WorkerClosed (ReasonPayload ''worker_closed'') ?w0) = Inr e"
    and ev: "\<forall>sid. sessionEvents sid ?w1 = sessionEvents sid ?w0"
    by (rule appendWorkerEvent_ok [OF assms(4), of WorkerClosed "ReasonPayload ''worker_closed''" ?w0]) blast
  have s1: "w_sessions ?w1 = w_sessions w" by (simp add: tab_simps writeWorker_def)
  then have wf1: "wf_sessions ?w1" and r1: "readSessions ?w1 = readSessions w"
    using assms(1) by (simp_all add: wf_sessions_def readSessions_def)
  have ev1: "sessionEvents sid ?w1 = sessionEvents sid w" for sid by (simp add: ev tab_simps)
  obtain w2 where f: "failLeasedSessions ?k1 ?w1 = (Inr (), w2)" and wf2: "wf_sessions w2"
    and k2: "w_workers w2 = w_workers ?w1"
    and each: "\<forall>s \<in> set (readSessions ?w1). if hasActiveLease s (wk_workerId ?k1) then lost_in s w2
           else readSession (ses_sessionId s) w2 = Some s
                \<and> sessionEvents (ses_sessionId s) w2 = sessionEvents (ses_sessionId s) ?w1"
    and none: "\<forall>s \<in> set (readSessions w2). \<not> hasActiveLease s (wk_workerId ?k1)"
    by (rule failLeasedSessions_effect [OF wf1, of ?k1]) (use assms(3,4) in \<open>simp, blast\<close>)
  have c: "closeWorker wid w = terminate k Closed ''worker_closed'' WorkerClosed w"
    using assms(2,5) by (simp add: closeWorker_def requireWorker_simps assertActive_simps)
  have a: "appendWorkerEvent wid WorkerClosed (ReasonPayload ''worker_closed'') ?w0 = (Inr e, ?w1)"
    using e by (metis prod.collapse)
  have run: "closeWorker wid w = (Inr ?k1, w2)"
    unfolding c terminate_def Let_def split_def
    by (simp add: assms(3), subst andThen_def, subst a) (use f assms(3) in \<open>simp add: andThen_def\<close>)
  have "readWorker wid w2 = Some ?k1"
    using assms(3) by (simp add: readWorker_def k2 tab_simps writeWorker_def)
  then show ?thesis
    using run wf2 each none assms(3) unfolding r1 ev1 by (auto simp: retired_def)
qed

text \<open>
  the loss of a worker is recorded once in the session's log, in step with the cursor. If
  the log and the cursor of a leased session are in step, they are in step afterwards; the
  session is failed, without a lease; the turn it was running is failed under that lease; and
  however often the lease loss was recorded before, no second
  \<^verbatim>\<open>session.lease.lost\<close> event for this worker and lease is added to one that is there.
\<close>

lemma worker_loss_recorded_once:
  assumes "log_in_step (ses_sessionId s) w" and "readSession (ses_sessionId s) w = Some s"
    and "hasActiveLease s wid" and "wf_session s"
    and "\<forall>e \<in> set (sessionEvents (ses_sessionId s) w). 0 < ev_sequence e"
  shows "\<exists>s1 w1. failSessionForWorkerLoss s st w = (Inr s1, w1)
    \<and> readSession (ses_sessionId s) w1 = Some s1 \<and> log_in_step (ses_sessionId s) w1
    \<and> ses_status s1 = Failed \<and> ses_sessionLeaseId s1 = None \<and> ses_currentWorkerId s1 = None
    \<and> length (filter (is_lease_lost s) (sessionEvents (ses_sessionId s) w1))
        = max 1 (length (filter (is_lease_lost s) (sessionEvents (ses_sessionId s) w)))
    \<and> (\<forall>n. findInFlightTurnSeq s w = Some n \<longrightarrow> findInFlightTurnSeq s w1 = None)"
proof -
  let ?sid = "ses_sessionId s"
  have leased: "truthy (ses_currentWorkerId s)" "truthy (ses_sessionLeaseId s)" "?sid \<noteq> []"
    using assms(3,4) by (auto simp: hasActiveLease_def wf_session_def)
  have ex: "readEvents ?sid 0 w = sessionEvents ?sid w"
    using assms(5) by (auto simp: readEvents_def intro: filter_True)
  have cur: "fold max (map ev_sequence (readEvents ?sid 0 w)) (ses_eventCursor s) = ses_eventCursor s"
    unfolding ex by (rule fold_max_id) (use assms(1,2) in \<open>auto simp: log_in_step_def\<close>)
  obtain c t new w1 where run: "failSessionForWorkerLoss s st w = (Inr (failed_for_loss s c t), w1)"
    and tab: "w_sessions w1 = tput ?sid (failed_for_loss s c t) (w_sessions w)"
    and ev: "\<forall>x. sessionEvents x w1 = (if x = ?sid then sessionEvents x w @ new else sessionEvents x w)"
    and num: "map ev_sequence new = [ses_eventCursor s + 1 .. c]" and le: "ses_eventCursor s \<le> c"
    and lost: "\<exists>e \<in> set (sessionEvents ?sid w1). is_lease_lost s e"
    and turn: "\<forall>n. findInFlightTurnSeq s w = Some n \<longrightarrow> (\<exists>e \<in> set (sessionEvents ?sid w1). is_turn_failure s n e)"
    and once: "length (filter (is_lease_lost s) new) \<le> (if find (is_lease_lost s) (readEvents ?sid 0 w) = None then 1 else 0)"
    by (rule failSession_leased [OF leased, where st = st and w = w, unfolded cur]) blast
  let ?n = "failed_for_loss s c t"
  have read1: "readSession ?sid w1 = Some ?n" by (simp add: readSession_def tab tget_tput)
  have new: "ses_eventCursor s < ev_sequence e \<and> ev_sequence e \<le> c" if "e \<in> set new" for e
  proof -
    from that have "ev_sequence e \<in> set (map ev_sequence new)" by simp
    then show ?thesis unfolding num by simp
  qed
  have "sorted_wrt (<) (map ev_sequence new)" unfolding num by (rule sorted_wrt_upto)
  with new assms(1,2) le have step: "log_in_step ?sid w1"
    by (fastforce simp: log_in_step_def read1 ev sorted_wrt_append failed_for_loss_def)
  have count: "length (filter (is_lease_lost s) (sessionEvents ?sid w1))
      = max 1 (length (filter (is_lease_lost s) (sessionEvents ?sid w)))"
  proof (cases "find (is_lease_lost s) (sessionEvents ?sid w)")
    case None
    then have "filter (is_lease_lost s) (sessionEvents ?sid w) = []" by (auto simp: find_None_iff filter_empty_conv)
    moreover from this lost have "filter (is_lease_lost s) new \<noteq> []"
      by (auto simp: ev filter_empty_conv)
    ultimately show ?thesis using once None
      by (simp add: ev ex) (metis One_nat_def Suc_leI le_antisym length_greater_0_conv)
  next
    case (Some e)
    then have "filter (is_lease_lost s) (sessionEvents ?sid w) \<noteq> []"
      by (auto simp: filter_empty_conv dest: find_SomeD)
    with once Some show ?thesis by (simp add: ev ex) (metis One_nat_def Suc_leI length_greater_0_conv max_absorb2)
  qed
  have over: "findInFlightTurnSeq s w1 = None" if n: "findInFlightTurnSeq s w = Some n" for n
  proof -
    from n have cand: "n = ses_nextTurnSeq s - 1"
      and "filter (\<lambda>e. ev_turnSeq e = Some n) (sessionEvents ?sid w) \<noteq> []"
      by (auto simp: findInFlightTurnSeq_def Let_def ex split: if_splits)
    then obtain e0 where "e0 \<in> set (sessionEvents ?sid w)" by (auto simp: filter_empty_conv)
    with assms(1,2,5) have "0 < ses_eventCursor s" by (fastforce simp: log_in_step_def)
    with assms(5) new have "\<forall>e \<in> set (sessionEvents ?sid w1). 0 < ev_sequence e" by (force simp: ev)
    with turn n obtain e where "e \<in> set (readEvents ?sid 0 w1)" "is_turn_failure s n e"
      by (auto simp: readEvents_def)
    then have "list_ex (\<lambda>e. ev_type e = TurnCompleted \<or> ev_type e = TurnFailed)
        (filter (\<lambda>e. ev_turnSeq e = Some n) (readEvents ?sid 0 w1))"
      by (auto simp: list_ex_iff is_turn_failure_def)
    then show ?thesis by (simp add: findInFlightTurnSeq_def Let_def cand)
  qed
  show ?thesis
    using run read1 step count over by (auto simp: failed_for_loss_def)
qed

definition leased_session :: session where
  "leased_session = ex_session\<lparr>ses_status := Running, ses_currentWorkerId := Some ''k1'',
     ses_sessionLeaseId := Some ''l1'', ses_nextTurnSeq := 2\<rparr>"

definition leased_world :: world where
  "leased_world = writeWorker ex_worker (writeSession leased_session empty_world)"

lemma leased_world_facts:
  "wf_sessions leased_world" "wf_session leased_session"
  "readSession ''s1'' leased_world = Some leased_session" "ses_sessionId leased_session = ''s1''"
  "readWorker ''k1'' leased_world = Some ex_worker" "wk_workerId ex_worker = ''k1''"
  "wk_lifecycleState ex_worker = Active" "sessionEvents ''s1'' leased_world = []"
  "log_in_step ''s1'' leased_world" "hasActiveLease leased_session ''k1''"
  "w_bindings leased_world = []"
proof -
  show r: "readSession ''s1'' leased_world = Some leased_session"
    by (simp add: leased_world_def tab_simps leased_session_def ex_session_def)
  show e: "sessionEvents ''s1'' leased_world = []"
    by (simp add: leased_world_def tab_simps) (simp add: sessionEvents_def empty_world_def)
  show "log_in_step ''s1'' leased_world" by (simp add: log_in_step_def r e)
  show "wf_sessions leased_world" "wf_session leased_session"
    by (simp_all add: wf_sessions_def leased_world_def writeSession_def writeWorker_def readSessions_def
        tput_def tall_def keyed_def wf_session_def leased_session_def ex_defs)
  show "readWorker ''k1'' leased_world = Some ex_worker"
    by (simp add: leased_world_def tab_simps ex_worker_def)
  show "w_bindings leased_world = []"
    by (simp add: leased_world_def writeSession_def writeWorker_def empty_world_def)
qed (simp_all add: leased_session_def hasActiveLease_def ex_session_def ex_worker_def)

lemma close_worker_fails_its_sessions_witness:
  "\<exists>k1 w1. closeWorker ''k1'' leased_world = (Inr k1, w1) \<and> retired k1 \<and> lost_in leased_session w1"
proof -
  have "leased_session \<in> set (readSessions leased_world)"
    using leased_world_facts by (simp add: readSessions_iff)
  with close_worker_fails_its_sessions [OF leased_world_facts(1,5,6) _ leased_world_facts(7)]
    leased_world_facts(10) show ?thesis by fastforce
qed

lemma worker_loss_recorded_once_witness:
  "\<exists>s1 w1. failSessionForWorkerLoss leased_session None leased_world = (Inr s1, w1)
    \<and> ses_status s1 = Failed \<and> log_in_step ''s1'' w1
    \<and> length (filter (is_lease_lost leased_session) (sessionEvents ''s1'' w1)) = 1"
proof -
  note f = leased_world_facts
  have "log_in_step (ses_sessionId leased_session) leased_world"
    "readSession (ses_sessionId leased_session) leased_world = Some leased_session"
    "\<forall>e \<in> set (sessionEvents (ses_sessionId leased_session) leased_world). 0 < ev_sequence e"
    by (simp_all add: f)
  from worker_loss_recorded_once [OF this(1,2) f(10,2) this(3), of None] show ?thesis
    unfolding f by auto
qed

text \<open>
  The loss of a worker ends a session without telling anyone. The session's status becomes
  \<^verbatim>\<open>failed\<close>, which is terminal, but the function writes the record itself instead of going
  through \<^verbatim>\<open>SessionLifecycleManager\<close>, so the terminal hook does not run: every device
  binding of the session's case stays as it is, active ones included.
\<close>

lemma worker_loss_leaves_bindings_active:
  assumes "hasActiveLease s wid" and "wf_session s"
  shows "\<exists>s1 w1. failSessionForWorkerLoss s st w = (Inr s1, w1) \<and> terminal_status (ses_status s1)
    \<and> (\<forall>c d. readCaseDeviceBinding c d w1 = readCaseDeviceBinding c d w)"
proof -
  have "truthy (ses_currentWorkerId s)" "truthy (ses_sessionLeaseId s)" "ses_sessionId s \<noteq> []"
    using assms by (auto simp: hasActiveLease_def wf_session_def)
  then obtain c t w1 where "failSessionForWorkerLoss s st w = (Inr (failed_for_loss s c t), w1)"
    "w_bindings w1 = w_bindings w"
    by (rule failSession_leased [where st = st and w = w])
  then show ?thesis by (simp add: failed_for_loss_def readCaseDeviceBinding_def)
qed

lemma worker_loss_leaves_bindings_active_witness:
  "\<exists>s1 w1. failSessionForWorkerLoss leased_session None leased_world = (Inr s1, w1)
     \<and> terminal_status (ses_status s1) \<and> (\<forall>c d. readCaseDeviceBinding c d w1 = None)"
  using worker_loss_leaves_bindings_active [OF leased_world_facts(10,2), of None leased_world]
  by (simp add: readCaseDeviceBinding_def leased_world_facts(11))

end
