(* ===== verification/Admission.thy ===== *)
theory Admission
  imports Versioned
begin

text \<open>
  \<^verbatim>\<open>managers/admission\<close> and \<^verbatim>\<open>registries\<close>: the admission of delegates and AgentSpecs
  from the tenant's configuration, the limits on messages, and the digests that identify them.
  The hash function of \<^verbatim>\<open>node:crypto\<close> is a parameter \<open>sha\<close> (text to hexadecimal digest).
\<close>

subsection \<open>JSON text\<close>

text \<open>
  \<^verbatim>\<open>JSON.stringify\<close> of a string: quotes, backslashes and control characters are escaped.
\<close>

definition hex_digit :: "nat \<Rightarrow> char" where
  "hex_digit n = (if n < 10 then char_of (48 + n) else char_of (87 + n))"

definition json_escape :: "char \<Rightarrow> string" where
  "json_escape c =
     (let n = of_char c :: nat; bs = char_of (92::nat) in
      if n = 34 then [bs, c]
      else if n = 92 then [bs, bs]
      else if n = 8 then [bs, CHR ''b'']
      else if n = 9 then [bs, CHR ''t'']
      else if n = 10 then [bs, CHR ''n'']
      else if n = 12 then [bs, CHR ''f'']
      else if n = 13 then [bs, CHR ''r'']
      else if n < 32 then [bs, CHR ''u'', CHR ''0'', CHR ''0'', hex_digit (n div 16), hex_digit (n mod 16)]
      else [c])"

definition json_quote :: "string \<Rightarrow> string" where
  "json_quote s = char_of (34::nat) # concat (map json_escape s) @ [char_of (34::nat)]"

fun nat_text :: "nat \<Rightarrow> string" where
  "nat_text n = (if n < 10 then [char_of (48 + n)] else nat_text (n div 10) @ [char_of (48 + n mod 10)])"

declare nat_text.simps [simp del]

definition int_text :: "int \<Rightarrow> string" where
  "int_text i = (if i < 0 then CHR ''-'' # nat_text (nat (- i)) else nat_text (nat i))"

text \<open>\<^verbatim>\<open>xs.join(',')\<close>.\<close>

fun join_commas :: "string list \<Rightarrow> string" where
  "join_commas [] = []"
| "join_commas [x] = x"
| "join_commas (x # y # xs) = x @ CHR '','' # join_commas (y # xs)"

text \<open>
  \<^verbatim>\<open>stableStringify\<close>: the entries of an object in the order of their keys, by code unit.
\<close>

fun stableStringify :: "json \<Rightarrow> string" where
  "stableStringify JNull = ''null''"
| "stableStringify (JBool b) = (if b then ''true'' else ''false'')"
| "stableStringify (JNum i) = int_text i"
| "stableStringify (JStr s) = json_quote s"
| "stableStringify (JArr vs) = CHR ''['' # join_commas (map stableStringify vs) @ '']''"
| "stableStringify (JObj kvs) =
     (let entries = map (\<lambda>(k, v). (k, json_quote k @ CHR '':'' # stableStringify v)) kvs
      in CHR ''{'' # join_commas (map snd (sort_key fst entries)) @ ''}'')"

definition digestJson :: "(string \<Rightarrow> string) \<Rightarrow> json \<Rightarrow> string" where
  "digestJson sha v = sha (stableStringify v)"

subsection \<open>DelegateAdmissionManager\<close>

definition policy_text :: "target_policy \<Rightarrow> string" where
  "policy_text p = (case p of Pool \<Rightarrow> ''pool'' | Device \<Rightarrow> ''device'')"

definition delegate_json :: "delegate \<Rightarrow> json" where
  "delegate_json d = JObj
     ([(''id'', JStr (dl_id d)), (''toolName'', JStr (dl_toolName d)),
       (''description'', JStr (dl_description d)), (''maxInputBytes'', JNum (dl_maxInputBytes d)),
       (''maxResultBytes'', JNum (dl_maxResultBytes d)), (''deadlineMs'', JNum (dl_deadlineMs d)),
       (''maxQueuedCalls'', JNum (dl_maxQueuedCalls d))]
      @ (case dl_targetPolicy d of None \<Rightarrow> [] | Some p \<Rightarrow> [(''targetPolicy'', JStr (policy_text p))]))"

definition resolveDelegate :: "(string \<Rightarrow> string) \<Rightarrow> delegate \<Rightarrow> resolved_delegate" where
  "resolveDelegate sha d =
     \<lparr>rd_id = dl_id d, rd_toolName = dl_toolName d, rd_description = dl_description d,
      rd_digest = digestJson sha (delegate_json d), rd_maxInputBytes = dl_maxInputBytes d,
      rd_maxResultBytes = dl_maxResultBytes d, rd_deadlineMs = dl_deadlineMs d,
      rd_maxQueuedCalls = dl_maxQueuedCalls d, rd_targetPolicy = orElse (dl_targetPolicy d) Pool\<rparr>"

definition target_schema :: "bool \<Rightarrow> json" where
  "target_schema deviceScoped = JObj
     [(''type'', JStr ''object''), (''additionalProperties'', JBool False),
      (''description'', JStr
         (if deviceScoped
          then ''Optional echo of the operator-selected paired device target. Central already binds the authoritative target to the turn; omit this field unless echoing the exact same target. A different target is rejected.''
          else ''Optional. Routing target: omit or { \"scope\": \"any\" } for ordinary pool routing.'')),
      (''properties'', JObj
         [(''deviceRef'', JObj [(''type'', JStr ''string''), (''minLength'', JNum 1)]),
          (''deviceRefs'', JObj [(''type'', JStr ''array''),
             (''items'', JObj [(''type'', JStr ''string''), (''minLength'', JNum 1)]), (''minItems'', JNum 1)]),
          (''scope'', JObj [(''type'', JStr ''string''),
             (''enum'', JArr (if deviceScoped then [JStr ''all''] else [JStr ''all'', JStr ''any'']))])])]"

definition runtimeTool :: "resolved_delegate \<Rightarrow> tool_definition" where
  "runtimeTool d =
     \<lparr>td_name = rd_toolName d, td_description = rd_description d,
      td_inputSchema = JObj
        [(''type'', JStr ''object''), (''additionalProperties'', JBool False),
         (''required'', JArr [JStr ''message'']),
         (''properties'', JObj
            [(''message'', JObj [(''type'', JStr ''string''), (''minLength'', JNum 1)]),
             (''target'', target_schema (rd_targetPolicy d = Device))])],
      td_delegateId = rd_id d\<rparr>"

text \<open>\<^verbatim>\<open>Buffer.byteLength(message, 'utf8')\<close> of code units below 256: one byte below 128, else two.\<close>

definition utf8_length :: "string \<Rightarrow> int" where
  "utf8_length s = (\<Sum>c \<leftarrow> s. if (of_char c :: nat) < 128 then 1 else 2)"

definition validateMessage :: "resolved_delegate \<Rightarrow> string \<Rightarrow> int \<Rightarrow> unit wop" where
  "validateMessage d msg maxBytes w =
     (if msg = [] then throw (EmptyMessage (rd_id d)) w
      else if maxBytes < utf8_length msg then throw (MessageTooLarge (rd_id d) (utf8_length msg) maxBytes) w
      else ok () w)"

definition validateInput :: "resolved_delegate \<Rightarrow> string \<Rightarrow> unit wop" where
  "validateInput d input = validateMessage d input (rd_maxInputBytes d)"

definition validateResult :: "resolved_delegate \<Rightarrow> string \<Rightarrow> unit wop" where
  "validateResult d res = validateMessage d res (rd_maxResultBytes d)"

subsection \<open>AgentSpecAdmissionManager\<close>

text \<open>
  The digest of an AgentSpec hashes \<^verbatim>\<open>JSON.stringify\<close> of the configured object, whose key order
  is the configuration file's: \<open>specDigest\<close> stands for it.
\<close>

definition resolveSpec ::
  "(agent_spec \<Rightarrow> tool_definition list) \<Rightarrow> (agent_spec \<Rightarrow> tool_definition list \<Rightarrow> string)
    \<Rightarrow> agent_spec \<Rightarrow> world \<Rightarrow> resolved_agent_spec \<times> world" where
  "resolveSpec tools specDigest spec w =
     (let ts = tools spec; (t, w1) = now w
      in (agent_spec.extend spec (resolved_agent_spec.fields ts t (specDigest spec ts)), w1))"

subsection \<open>Registries\<close>

definition requireNonEmpty :: "string \<Rightarrow> string \<Rightarrow> error + unit" where
  "requireNonEmpty value field = (if value = [] then Inl (EmptyField field) else Inr ())"

definition requirePositiveInteger :: "int \<Rightarrow> string \<Rightarrow> error + unit" where
  "requirePositiveInteger value field = (if value \<le> 0 then Inl (NotPositiveInteger field) else Inr ())"

text \<open>A sequence of checks stops at the first that throws.\<close>

fun checks :: "(error + unit) list \<Rightarrow> error + unit" where
  "checks [] = Inr ()"
| "checks (Inl e # cs) = Inl e"
| "checks (Inr u # cs) = checks cs"

definition validateDelegate :: "delegate \<Rightarrow> error + unit" where
  "validateDelegate d = checks
     [requireNonEmpty (dl_id d) ''id'', requireNonEmpty (dl_toolName d) ''toolName'',
      requireNonEmpty (dl_description d) ''description'',
      requirePositiveInteger (dl_maxInputBytes d) ''maxInputBytes'',
      requirePositiveInteger (dl_maxResultBytes d) ''maxResultBytes'',
      requirePositiveInteger (dl_deadlineMs d) ''deadlineMs'',
      requirePositiveInteger (dl_maxQueuedCalls d) ''maxQueuedCalls'']"

text \<open>
  The constructors fill \<^verbatim>\<open>Map\<close>s, kept here as tables. The delegates' constructor also keeps the tool
  names it has seen, and throws at the first delegate that breaks a rule.
\<close>

fun registerDelegates ::
  "delegate list \<Rightarrow> (string, delegate) table \<Rightarrow> (string, string) table \<Rightarrow> error + (string, delegate) table" where
  "registerDelegates [] byId byTool = Inr byId"
| "registerDelegates (d # ds) byId byTool =
     (case validateDelegate d of
        Inl e \<Rightarrow> Inl e
      | Inr _ \<Rightarrow>
          if tget byId (dl_id d) \<noteq> None then Inl (DuplicateDelegate (dl_id d))
          else if truthy (tget byTool (dl_toolName d))
               then Inl (DuplicateToolName (dl_toolName d) (dl_id d))
          else registerDelegates ds (tput (dl_id d) d byId) (tput (dl_toolName d) (dl_id d) byTool))"

definition delegateRegistry :: "delegate list \<Rightarrow> error + (string, delegate) table" where
  "delegateRegistry ds = registerDelegates ds [] []"

definition registryResolve :: "(string, delegate) table \<Rightarrow> string \<Rightarrow> error + delegate" where
  "registryResolve reg i = (case tget reg i of None \<Rightarrow> Inl (UnknownDelegate i) | Some d \<Rightarrow> Inr d)"

definition validateReferences :: "(string, delegate) table \<Rightarrow> string \<Rightarrow> string list \<Rightarrow> error + unit" where
  "validateReferences reg specId refs =
     (if card (set refs) \<noteq> length refs then Inl (DuplicateRefs specId)
      else checks (map (\<lambda>i. case registryResolve reg i of Inl _ \<Rightarrow> Inl (UnknownReference specId i) | Inr _ \<Rightarrow> Inr ()) refs))"

fun bindCallees :: "string list \<Rightarrow> agent_spec \<Rightarrow> (string, agent_spec) table \<Rightarrow> error + (string, agent_spec) table" where
  "bindCallees [] spec callees = Inr callees"
| "bindCallees (i # is) spec callees =
     (if tget callees i \<noteq> None then Inl (MultipleCallees i)
      else bindCallees is spec (tput i spec callees))"

fun indexSpecs ::
  "(string, delegate) table \<Rightarrow> agent_spec list \<Rightarrow> (string, agent_spec) table \<Rightarrow> error + (string, agent_spec) table" where
  "indexSpecs reg [] callees = Inr callees"
| "indexSpecs reg (spec # specs) callees =
     (case validateReferences reg (as_agentSpecId spec) (as_asCaller spec) of
        Inl e \<Rightarrow> Inl e
      | Inr _ \<Rightarrow>
     (case validateReferences reg (as_agentSpecId spec) (as_asCallee spec) of
        Inl e \<Rightarrow> Inl e
      | Inr _ \<Rightarrow>
     (case bindCallees (as_asCallee spec) spec callees of
        Inl e \<Rightarrow> Inl e
      | Inr callees1 \<Rightarrow> indexSpecs reg specs callees1)))"

definition bindingIndex ::
  "(string, delegate) table \<Rightarrow> agent_spec list \<Rightarrow> error + (string, agent_spec) table" where
  "bindingIndex reg specs =
     (case indexSpecs reg specs [] of
        Inl e \<Rightarrow> Inl e
      | Inr callees \<Rightarrow>
          (case checks (map (\<lambda>d. if tget callees (dl_id d) = None then Inl (NoCallee (dl_id d)) else Inr ()) (tall reg)) of
             Inl e \<Rightarrow> Inl e
           | Inr _ \<Rightarrow> Inr callees))"

definition resolveCallee :: "(string, agent_spec) table \<Rightarrow> string \<Rightarrow> error + agent_spec" where
  "resolveCallee callees i = (case tget callees i of None \<Rightarrow> Inl (NoCallee i) | Some s \<Rightarrow> Inr s)"

text \<open>\<^verbatim>\<open>new Map(entries)\<close>: a later entry replaces an earlier one with the same key.\<close>

definition resolvedRegistry :: "(string \<Rightarrow> string) \<Rightarrow> delegate list \<Rightarrow> (string, resolved_delegate) table" where
  "resolvedRegistry sha ds = fold (\<lambda>d. tput (dl_id d) (resolveDelegate sha d)) ds []"

definition resolvedResolve :: "(string, resolved_delegate) table \<Rightarrow> string \<Rightarrow> error + resolved_delegate" where
  "resolvedResolve reg i = (case tget reg i of None \<Rightarrow> Inl (UnknownDelegate i) | Some d \<Rightarrow> Inr d)"

definition specRegistry :: "agent_spec list \<Rightarrow> (string, agent_spec) table" where
  "specRegistry specs = fold (\<lambda>s. tput (as_agentSpecId s) s) specs []"

definition specResolve :: "(string, agent_spec) table \<Rightarrow> string \<Rightarrow> error + agent_spec" where
  "specResolve reg i = (case tget reg i of None \<Rightarrow> Inl (UnknownAgentSpec i) | Some s \<Rightarrow> Inr s)"

subsection \<open>What a successful construction guarantees\<close>

lemma checks_Inr: "checks cs = Inr u \<longleftrightarrow> (\<forall>c \<in> set cs. c = Inr u)"
  by (induction cs rule: checks.induct) auto

lemma validateDelegate_id: "validateDelegate d = Inr u \<Longrightarrow> dl_id d \<noteq> []"
  by (auto simp: validateDelegate_def checks_Inr requireNonEmpty_def split: if_splits)

lemma registerDelegates_Inr:
  assumes "registerDelegates ds byId byTool = Inr reg"
    and "\<forall>t i. tget byTool t = Some i \<longrightarrow> i \<noteq> []"
  shows "(\<forall>i d. tget reg i = Some d \<longleftrightarrow> tget byId i = Some d \<or> (d \<in> set ds \<and> dl_id d = i))
    \<and> distinct (map dl_id ds) \<and> distinct (map dl_toolName ds)
    \<and> (\<forall>d \<in> set ds. validateDelegate d = Inr () \<and> tget byId (dl_id d) = None \<and> tget byTool (dl_toolName d) = None)"
  using assms
proof (induction ds byId byTool rule: registerDelegates.induct)
  case (1 byId byTool)
  then show ?case by simp
next
  case (2 d ds byId byTool)
  from 2(2) have v: "validateDelegate d = Inr ()" and new: "tget byId (dl_id d) = None"
    and tool: "\<not> truthy (tget byTool (dl_toolName d))"
    and rest: "registerDelegates ds (tput (dl_id d) d byId) (tput (dl_toolName d) (dl_id d) byTool) = Inr reg"
    by (auto split: sum.splits if_splits)
  from tool 2(3) have t: "tget byTool (dl_toolName d) = None"
    by (cases "tget byTool (dl_toolName d)") auto
  have ids: "\<forall>t i. tget (tput (dl_toolName d) (dl_id d) byTool) t = Some i \<longrightarrow> i \<noteq> []"
    using 2(3) validateDelegate_id [OF v] by (simp add: tget_tput)
  have IH: "(\<forall>i d'. tget reg i = Some d' \<longleftrightarrow> tget (tput (dl_id d) d byId) i = Some d' \<or> (d' \<in> set ds \<and> dl_id d' = i))
    \<and> distinct (map dl_id ds) \<and> distinct (map dl_toolName ds)
    \<and> (\<forall>d' \<in> set ds. validateDelegate d' = Inr () \<and> tget (tput (dl_id d) d byId) (dl_id d') = None
        \<and> tget (tput (dl_toolName d) (dl_id d) byTool) (dl_toolName d') = None)"
    using 2(1) [OF _ _ _ rest ids] v new tool by simp
  then have diff: "\<forall>d' \<in> set ds. dl_id d' \<noteq> dl_id d \<and> dl_toolName d' \<noteq> dl_toolName d
      \<and> validateDelegate d' = Inr () \<and> tget byId (dl_id d') = None \<and> tget byTool (dl_toolName d') = None"
    by (auto simp: tget_tput split: if_splits)
  with IH show ?case using v new t by (auto simp: tget_tput)
qed

lemma delegateRegistry_Inr:
  assumes "delegateRegistry ds = Inr reg"
  shows "tget reg i = Some d \<longleftrightarrow> d \<in> set ds \<and> dl_id d = i" and "distinct (map dl_id ds)"
    and "distinct (map dl_toolName ds)"
  using registerDelegates_Inr [of ds "[]" "[]" reg] assms by (simp_all add: delegateRegistry_def)

lemma bindCallees_Inr:
  "bindCallees is spec callees = Inr c1 \<Longrightarrow>
    (\<forall>i s. tget c1 i = Some s \<longleftrightarrow> (if i \<in> set is then s = spec else tget callees i = Some s))
    \<and> (\<forall>i \<in> set is. tget callees i = None)"
proof (induction "is" spec callees rule: bindCallees.induct)
  case (1 spec callees)
  then show ?case by simp
next
  case (2 i "is" spec callees)
  from 2(2) have new: "tget callees i = None" and rest: "bindCallees is spec (tput i spec callees) = Inr c1"
    by (auto split: if_splits)
  from 2(1) [OF _ rest] new show ?case by (auto simp: tget_tput split: if_splits)
qed

lemma indexSpecs_Inr:
  "indexSpecs reg specs callees = Inr c1 \<Longrightarrow>
    (\<forall>i s. tget c1 i = Some s \<longleftrightarrow> tget callees i = Some s \<or> (s \<in> set specs \<and> i \<in> set (as_asCallee s)))
    \<and> (\<forall>s \<in> set specs. \<forall>i \<in> set (as_asCaller s) \<union> set (as_asCallee s). tget reg i \<noteq> None)
    \<and> (\<forall>s \<in> set specs. \<forall>i \<in> set (as_asCallee s). tget callees i = None)"
proof (induction reg specs callees rule: indexSpecs.induct)
  case (1 reg callees)
  then show ?case by simp
next
  case (2 reg spec specs callees)
  from 2(2) obtain c where refs: "validateReferences reg (as_agentSpecId spec) (as_asCaller spec) = Inr ()"
    "validateReferences reg (as_agentSpecId spec) (as_asCallee spec) = Inr ()"
    and bind: "bindCallees (as_asCallee spec) spec callees = Inr c"
    and rest: "indexSpecs reg specs c = Inr c1"
    by (auto split: sum.splits)
  have known: "\<forall>i \<in> set (as_asCaller spec) \<union> set (as_asCallee spec). tget reg i \<noteq> None"
    using refs by (auto simp: validateReferences_def checks_Inr registryResolve_def split: if_splits sum.splits option.splits)
  have IH: "(\<forall>i s. tget c1 i = Some s \<longleftrightarrow> tget c i = Some s \<or> (s \<in> set specs \<and> i \<in> set (as_asCallee s)))
    \<and> (\<forall>s \<in> set specs. \<forall>i \<in> set (as_asCaller s) \<union> set (as_asCallee s). tget reg i \<noteq> None)
    \<and> (\<forall>s \<in> set specs. \<forall>i \<in> set (as_asCallee s). tget c i = None)"
    using 2(1) [OF refs(1) refs(2) bind rest] by simp
  note b = bindCallees_Inr [OF bind]
  have none: "tget c i = None \<Longrightarrow> i \<notin> set (as_asCallee spec) \<and> tget callees i = None" for i
    using b by (metis option.distinct(1) not_None_eq)
  from IH b known none show ?case by (auto split: if_splits)
qed

lemma bindingIndex_Inr:
  assumes "bindingIndex reg specs = Inr callees"
  shows "tget callees i = Some s \<longleftrightarrow> s \<in> set specs \<and> i \<in> set (as_asCallee s)"
    and "\<And>d. d \<in> set (tall reg) \<Longrightarrow> tget callees (dl_id d) \<noteq> None"
    and "\<And>s i. s \<in> set specs \<Longrightarrow> i \<in> set (as_asCaller s) \<Longrightarrow> tget reg i \<noteq> None"
proof -
  from assms have c: "indexSpecs reg specs [] = Inr callees"
    "checks (map (\<lambda>d. if tget callees (dl_id d) = None then Inl (NoCallee (dl_id d)) else Inr ()) (tall reg)) = Inr ()"
    by (auto simp: bindingIndex_def split: sum.splits)
  from indexSpecs_Inr [OF c(1)] show "tget callees i = Some s \<longleftrightarrow> s \<in> set specs \<and> i \<in> set (as_asCallee s)"
    and "\<And>s i. s \<in> set specs \<Longrightarrow> i \<in> set (as_asCaller s) \<Longrightarrow> tget reg i \<noteq> None" by auto
  fix d assume "d \<in> set (tall reg)"
  then have "(if tget callees (dl_id d) = None then Inl (NoCallee (dl_id d)) else Inr ()) \<in>
      set (map (\<lambda>d. if tget callees (dl_id d) = None then Inl (NoCallee (dl_id d)) else Inr ()) (tall reg))"
    unfolding set_map by (rule imageI)
  with c(2) show "tget callees (dl_id d) \<noteq> None"
    unfolding checks_Inr by (auto split: if_splits)
qed

lemma tget_fold_tput:
  "distinct (map key xs) \<Longrightarrow>
    tget (fold (\<lambda>x. tput (key x) (f x)) xs t) k
      = (case find (\<lambda>x. key x = k) xs of Some x \<Rightarrow> Some (f x) | None \<Rightarrow> tget t k)"
proof (induction xs arbitrary: t)
  case Nil
  then show ?case by simp
next
  case (Cons x xs)
  have "key x = k \<Longrightarrow> find (\<lambda>y. key y = k) xs = None"
    using Cons.prems by (auto simp: find_None_iff) (metis image_eqI)
  with Cons show ?case by (auto simp: tget_tput split: option.splits)
qed

text \<open>
  A tenant configuration that is admitted at start-up cannot fail at a reference later. If the
  registry of the delegates and the binding index over the AgentSpecs are built, ids and tool
  names of delegates are distinct, and for every AgentSpec and every delegate it may call: the
  delegate resolves to the configured one under that id, its resolved form carries the configured
  limits, and it has exactly one callee AgentSpec, which lists it.
\<close>

lemma admitted_config_resolves:
  assumes "delegateRegistry ds = Inr reg" and "bindingIndex reg specs = Inr callees"
    and "s \<in> set specs" and "i \<in> set (as_asCaller s)"
  shows "distinct (map dl_id ds) \<and> distinct (map dl_toolName ds)
    \<and> (\<exists>d \<in> set ds. dl_id d = i \<and> registryResolve reg i = Inr d
         \<and> resolvedResolve (resolvedRegistry sha ds) i = Inr (resolveDelegate sha d))
    \<and> (\<exists>callee \<in> set specs. resolveCallee callees i = Inr callee
         \<and> {c. c \<in> set specs \<and> i \<in> set (as_asCallee c)} = {callee})"
proof -
  note reg = delegateRegistry_Inr [OF assms(1)]
  note ix = bindingIndex_Inr [OF assms(2)]
  from ix(3) [OF assms(3,4)] obtain d where d: "tget reg i = Some d" by blast
  with reg(1) have ds: "d \<in> set ds" "dl_id d = i" by auto
  from tall_tgetI [OF d] ix(2) ds(2) obtain c where c: "tget callees i = Some c" by blast
  have "find (\<lambda>x. dl_id x = i) ds = Some d"
    using ds reg(2) by (intro find_SomeI) (auto simp: distinct_map inj_on_def)
  then have "resolvedResolve (resolvedRegistry sha ds) i = Inr (resolveDelegate sha d)"
    using tget_fold_tput [OF reg(2), of "resolveDelegate sha" "[]" i]
    by (simp add: resolvedResolve_def resolvedRegistry_def)
  with d ds have 1: "\<exists>d \<in> set ds. dl_id d = i \<and> registryResolve reg i = Inr d
         \<and> resolvedResolve (resolvedRegistry sha ds) i = Inr (resolveDelegate sha d)"
    by (auto simp: registryResolve_def)
  from c have "\<And>x. x \<in> set specs \<and> i \<in> set (as_asCallee x) \<longleftrightarrow> x = c"
    unfolding ix(1) [symmetric] by auto
  with c have "resolveCallee callees i = Inr c" "c \<in> set specs"
    "{x. x \<in> set specs \<and> i \<in> set (as_asCallee x)} = {c}" by (auto simp: resolveCallee_def)
  with 1 reg(2,3) show ?thesis by blast
qed

definition ex_config_delegate :: delegate where
  "ex_config_delegate = \<lparr>dl_id = ''scan'', dl_toolName = ''scan_device'', dl_description = ''scan'',
     dl_maxInputBytes = 16, dl_maxResultBytes = 16, dl_deadlineMs = 1000, dl_maxQueuedCalls = 2,
     dl_targetPolicy = None\<rparr>"

definition ex_config_spec :: "string list \<Rightarrow> string list \<Rightarrow> agent_spec" where
  "ex_config_spec caller callee = \<lparr>as_agentSpecId = ''spec'', as_labels = [], as_command = ''run'', as_args = [],
     as_instructions = '''', as_toolProfile = '''', as_asCaller = caller, as_asCallee = callee,
     as_matchLabels = [], as_pausePolicy = '''', as_recoveryPolicy = '''',
     as_idlePauseTimeoutMs = 60000, as_version = ''1''\<rparr>"

lemma admitted_config_resolves_witness:
  "\<exists>reg callees. delegateRegistry [ex_config_delegate] = Inr reg
     \<and> bindingIndex reg [ex_config_spec [''scan''] [], ex_config_spec [] [''scan'']] = Inr callees
     \<and> (\<exists>callee. resolveCallee callees ''scan'' = Inr callee)"
proof -
  let ?specs = "[ex_config_spec [''scan''] [], ex_config_spec [] [''scan'']]"
  obtain reg where r: "reg = [(''scan'', ex_config_delegate)]" by blast
  have reg: "delegateRegistry [ex_config_delegate] = Inr reg"
    by (simp add: r delegateRegistry_def validateDelegate_def requireNonEmpty_def requirePositiveInteger_def
        ex_config_delegate_def tput_def)
  have ix: "bindingIndex reg ?specs = Inr [(''scan'', ex_config_spec [] [''scan''])]"
    by (simp add: r bindingIndex_def validateReferences_def registryResolve_def tput_def tget_def tall_def
        ex_config_spec_def ex_config_delegate_def)
  have "ex_config_spec [''scan''] [] \<in> set ?specs" "''scan'' \<in> set (as_asCaller (ex_config_spec [''scan''] []))"
    by (simp_all add: ex_config_spec_def)
  from admitted_config_resolves [OF reg ix this] reg ix show ?thesis by blast
qed

end
