(* ===== verification/Delegation.thy ===== *)
theory Delegation
  imports Lifecycle Admission
begin

text \<open>
  \<^verbatim>\<open>managers/delegation/delegation-manager.ts\<close>: the durable relation between a parent session
  and the child session that works for it, with its queue of calls. Every update is a
  compare-and-set loop; the first argument of such an operation lists what other tasks do to the
  world between the read and the write of each attempt, and \<open>None\<close> says that the list was too
  short for the loop to end.
\<close>

subsection \<open>Configuration and input\<close>

record delegation_config =
  dm_tenantId :: string
  dm_registry :: "(string, resolved_delegate) table"
  dm_callees :: "(string, agent_spec) table"
  dm_tools :: "agent_spec \<Rightarrow> tool_definition list"
  dm_specDigest :: "agent_spec \<Rightarrow> tool_definition list \<Rightarrow> string"
  dm_sha :: "string \<Rightarrow> string"

record start_input =
  si_parentSession :: session
  si_callerTurnSeq :: int
  si_callerToolRequestId :: string
  si_delegateId :: string
  si_input :: string
  si_targetRef :: "string option"

definition inputHash :: "delegation_config \<Rightarrow> string \<Rightarrow> string" where
  "inputHash cfg input = digestJson (dm_sha cfg) (JStr input)"

subsection \<open>Reads and record updates\<close>

definition assertParent :: "delegation_config \<Rightarrow> session \<Rightarrow> string \<Rightarrow> unit wop" where
  "assertParent cfg parent delegateId w =
     (if ses_tenantId parent \<noteq> dm_tenantId cfg
      then throw (WrongTenant (ses_sessionId parent) (ses_tenantId parent)) w
      else if ses_delegationBinding parent \<noteq> None then throw (ChildCannotDelegate (ses_sessionId parent)) w
      else if delegateId \<notin> set (as_asCaller (ses_resolvedAgentSpec parent))
           then throw (NotACaller (as_agentSpecId (ses_resolvedAgentSpec parent)) delegateId) w
      else ok () w)"

definition validateTargetRef :: "delegation_config \<Rightarrow> session \<Rightarrow> string option \<Rightarrow> unit wop" where
  "validateTargetRef cfg parent targetRef w =
     (if \<not> truthy targetRef then ok () w
      else
        (case readCaseDeviceBinding (ses_sessionId parent) (the targetRef) w of
           None \<Rightarrow> throw (TargetNotPaired (the targetRef) (ses_sessionId parent)) w
         | Some b \<Rightarrow>
             if cb_tenantId b \<noteq> dm_tenantId cfg \<or> cb_caseId b \<noteq> ses_sessionId parent
             then throw (TargetNotPaired (the targetRef) (ses_sessionId parent)) w
             else if cb_status b \<noteq> BActive then throw (TargetInactive (the targetRef)) w
             else ok () w))"

definition same_caller :: "int \<Rightarrow> string \<Rightarrow> delegation_call \<Rightarrow> bool" where
  "same_caller turn req c = (dc_callerTurnSeq c = turn \<and> dc_callerToolRequestId c = req)"

definition findCallByCallerKey ::
  "string \<Rightarrow> int \<Rightarrow> string \<Rightarrow> world \<Rightarrow> (delegation \<times> delegation_call) option" where
  "findCallByCallerKey parent turn req w =
     (case find (\<lambda>d. dg_parentSessionId d = parent \<and> list_ex (same_caller turn req) (dg_calls d)) (readDelegations w) of
        None \<Rightarrow> None
      | Some d \<Rightarrow>
          (case find (same_caller turn req) (dg_calls d) of None \<Rightarrow> None | Some c \<Rightarrow> Some (d, c)))"

definition call_in :: "string \<Rightarrow> delegation \<Rightarrow> delegation_call option" where
  "call_in callId d = find (\<lambda>c. dc_delegationCallId c = callId) (dg_calls d)"

definition readCall :: "string \<Rightarrow> world \<Rightarrow> (delegation \<times> delegation_call) option" where
  "readCall callId w =
     (case find (\<lambda>d. call_in callId d \<noteq> None) (readDelegations w) of
        None \<Rightarrow> None
      | Some d \<Rightarrow> map_option (Pair d) (call_in callId d))"

definition delegationOfChild :: "string \<Rightarrow> world \<Rightarrow> delegation option" where
  "delegationOfChild child w = find (\<lambda>d. dg_childSessionId d = child) (readDelegations w)"

definition replaceCall :: "delegation \<Rightarrow> delegation_call \<Rightarrow> delegation" where
  "replaceCall d c =
     d\<lparr>dg_calls := map (\<lambda>c0. if dc_delegationCallId c0 = dc_delegationCallId c then c else c0) (dg_calls d)\<rparr>"

definition createCall ::
  "string \<Rightarrow> int \<Rightarrow> start_input \<Rightarrow> string \<Rightarrow> int \<Rightarrow> time \<Rightarrow> world \<Rightarrow> delegation_call \<times> world" where
  "createCall delegationId callSeq i hash deadlineMs t w =
     (let (callId, w1) = freshId w
      in (\<lparr>dc_delegationCallId = callId, dc_delegationId = delegationId, dc_callSeq = callSeq,
           dc_callerTurnSeq = si_callerTurnSeq i, dc_callerToolRequestId = si_callerToolRequestId i,
           dc_input = si_input i, dc_inputHash = hash, dc_status = CQueued, dc_dispatch = None,
           dc_awaitRequests = None, dc_result = None, dc_resultDigest = None, dc_failure = None,
           dc_deadlineAt = t + deadlineMs, dc_createdAt = t, dc_updatedAt = t\<rparr>, w1))"

subsection \<open>Opening the child session\<close>

definition child_intent :: "delegation_config \<Rightarrow> delegation \<Rightarrow> session \<Rightarrow> create_input" where
  "child_intent cfg d parent =
     \<lparr>ci_sessionId = Some (dg_childSessionId d), ci_tenantId = dm_tenantId cfg, ci_owner = ses_owner parent,
      ci_resolvedAgentSpec = dg_resolvedCalleeAgentSpec d, ci_workspaceRef = dg_childSessionId d,
      ci_delegationBinding = Some \<lparr>db_delegationId = dg_delegationId d,
          db_parentSessionId = ses_sessionId parent, db_delegateId = rd_id (dg_resolvedDelegate d)\<rparr>,
      ci_requiredWorkerLabels =
        (if truthy (dg_targetRef d)
         then Some [(edge_case_label, ses_sessionId parent), (edge_device_label, the (dg_targetRef d))]
         else None)\<rparr>"

definition ensureChildSession :: "delegation_config \<Rightarrow> delegation \<Rightarrow> session \<Rightarrow> unit wop" where
  "ensureChildSession cfg d parent = andThen (lifecycleCreate (child_intent cfg d parent)) (\<lambda>_. ok ())"

fun openLoop :: "tasks \<Rightarrow> string \<Rightarrow> delegation \<Rightarrow> world \<Rightarrow> ((error + delegation) \<times> world) option" where
  "openLoop env did current w =
     (if dg_status current \<noteq> CreatingChild then
        Some ((if dg_status current \<noteq> Open then throw (DelegationNotOpen (dg_delegationId current) (dg_status current))
               else ok current) w)
      else
        (let (t, w1) = now w;
             opened = current\<lparr>dg_status := Open, dg_revision := dg_revision current + 1, dg_updatedAt := t\<rparr>
         in case compareAndSetDelegation (dg_revision current) opened (disturb env w1) of
              (Inl e, w2) \<Rightarrow> Some (Inl e, w2)
            | (Inr won, w2) \<Rightarrow>
                if won then Some (Inr opened, w2)
                else
                  (case readDelegation did w2 of
                     None \<Rightarrow> Some (Inl (DelegationDisappeared did), w2)
                   | Some latest \<Rightarrow>
                       (case env of [] \<Rightarrow> None | _ # rest \<Rightarrow> openLoop rest did latest w2))))"

declare openLoop.simps [simp del]

definition ensureChildAndOpen ::
  "delegation_config \<Rightarrow> tasks \<Rightarrow> delegation \<Rightarrow> session \<Rightarrow> world \<Rightarrow> ((error + delegation) \<times> world) option" where
  "ensureChildAndOpen cfg env d parent w =
     (case ensureChildSession cfg d parent w of
        (Inl e, w1) \<Rightarrow> Some (Inl e, w1)
      | (Inr _, w1) \<Rightarrow>
          openLoop env (dg_delegationId d) (orElse (readDelegation (dg_delegationId d) w1) d) w1)"

text \<open>\<^verbatim>\<open>{ delegation: await ..., call }\<close> around an operation that opens the child.\<close>

definition withCall ::
  "delegation_call \<Rightarrow> ((error + delegation) \<times> world) option \<Rightarrow> ((error + delegation \<times> delegation_call) \<times> world) option" where
  "withCall c = map_option (\<lambda>(r, w). (map_sum id (\<lambda>d. (d, c)) r, w))"

subsection \<open>Starting and appending calls\<close>

fun appendCall ::
  "delegation_config \<Rightarrow> tasks \<Rightarrow> tasks \<Rightarrow> start_input \<Rightarrow> string \<Rightarrow> delegation \<Rightarrow> world
    \<Rightarrow> ((error + delegation \<times> delegation_call) \<times> world) option" where
  "appendCall cfg opening env i hash d w =
     (if dg_status d \<noteq> Open \<and> dg_status d \<noteq> CreatingChild
      then Some (Inl (DelegationNotOpen (dg_delegationId d) (dg_status d)), w)
      else
        (case validateInput (dg_resolvedDelegate d) (si_input i) w of
           (Inl e, w0) \<Rightarrow> Some (Inl e, w0)
         | (Inr _, w0) \<Rightarrow>
             if rd_maxQueuedCalls (dg_resolvedDelegate d)
                  \<le> int (length (filter (\<lambda>c. dc_status c = CQueued) (dg_calls d)))
             then Some (Inl (CallQueueFull (dg_delegationId d)), w0)
             else
               (let (t, w1) = now w0;
                    (c, w2) = createCall (dg_delegationId d) (dg_nextCallSeq d) i hash
                                (rd_deadlineMs (dg_resolvedDelegate d)) t w1;
                    next = d\<lparr>dg_calls := dg_calls d @ [c], dg_nextCallSeq := dg_nextCallSeq d + 1,
                             dg_revision := dg_revision d + 1, dg_updatedAt := t\<rparr>
                in case compareAndSetDelegation (dg_revision d) next (disturb env w2) of
                     (Inl e, w3) \<Rightarrow> Some (Inl e, w3)
                   | (Inr won, w3) \<Rightarrow>
                       if won then
                         (if dg_status next = CreatingChild
                          then withCall c (ensureChildAndOpen cfg opening next (si_parentSession i) w3)
                          else Some (Inr (next, c), w3))
                       else
                         (case readDelegation (dg_delegationId d) w3 of
                            None \<Rightarrow> Some (Inl (DelegationDisappeared (dg_delegationId d)), w3)
                          | Some latest \<Rightarrow>
                              (case find (same_caller (si_callerTurnSeq i) (si_callerToolRequestId i)) (dg_calls latest) of
                                 Some retry \<Rightarrow>
                                   Some (if dc_inputHash retry \<noteq> hash then Inl IdempotencyKeyReused
                                         else Inr (latest, retry), w3)
                               | None \<Rightarrow>
                                   (case env of
                                      [] \<Rightarrow> None
                                    | _ # rest \<Rightarrow> appendCall cfg opening rest i hash latest w3))))))"

declare appendCall.simps [simp del]

text \<open>
  \<open>racing\<close> is what other tasks do between the look-up of an existing relation and the creation of
  a new one.
\<close>

definition newDelegation ::
  "delegation_config \<Rightarrow> start_input \<Rightarrow> resolved_delegate \<Rightarrow> resolved_agent_spec \<Rightarrow> string \<Rightarrow> world
    \<Rightarrow> (delegation \<times> delegation_call) \<times> world" where
  "newDelegation cfg i rd callee hash w =
     (let (t, w1) = now w;
          (did, w2) = freshId w1;
          (c, w3) = createCall did 1 i hash (rd_deadlineMs rd) t w2;
          (child, w4) = freshId w3
      in ((\<lparr>dg_delegationId = did, dg_tenantId = dm_tenantId cfg,
            dg_parentSessionId = ses_sessionId (si_parentSession i), dg_childSessionId = child,
            dg_resolvedDelegate = rd, dg_resolvedCalleeAgentSpec = callee, dg_status = CreatingChild,
            dg_targetRef = (if truthy (si_targetRef i) then si_targetRef i else None), dg_activeCallId = None,
            dg_nextCallSeq = 2, dg_closeReason = None, dg_failure = None, dg_calls = [c],
            dg_revision = 1, dg_createdAt = t, dg_updatedAt = t\<rparr>, c), w4))"

definition startNew ::
  "delegation_config \<Rightarrow> (world \<Rightarrow> world) \<Rightarrow> tasks \<Rightarrow> tasks \<Rightarrow> start_input \<Rightarrow> resolved_delegate \<Rightarrow> string \<Rightarrow> world
    \<Rightarrow> ((error + delegation \<times> delegation_call) \<times> world) option" where
  "startNew cfg racing opening env i rd hash w =
     (case andThen (validateTargetRef cfg (si_parentSession i) (si_targetRef i)) (\<lambda>_.
           andThen (validateInput rd (si_input i)) (\<lambda>_.
           ofResult (resolveCallee (dm_callees cfg) (si_delegateId i)))) w of
        (Inl e, w1) \<Rightarrow> Some (Inl e, w1)
      | (Inr spec, w1) \<Rightarrow>
          (let (callee, w2) = resolveSpec (dm_tools cfg) (dm_specDigest cfg) spec w1;
               ((d, c), w3) = newDelegation cfg i rd callee hash w2;
               ((stored, created), w4) = createDelegation d (racing w3)
           in if \<not> created then appendCall cfg opening env i hash stored w4
              else withCall c (ensureChildAndOpen cfg opening d (si_parentSession i) w4)))"

definition startCall ::
  "delegation_config \<Rightarrow> (world \<Rightarrow> world) \<Rightarrow> tasks \<Rightarrow> tasks \<Rightarrow> start_input \<Rightarrow> world
    \<Rightarrow> ((error + delegation \<times> delegation_call) \<times> world) option" where
  "startCall cfg racing opening env i w =
     (case andThen (assertParent cfg (si_parentSession i) (si_delegateId i)) (\<lambda>_.
           ofResult (resolvedResolve (dm_registry cfg) (si_delegateId i))) w of
        (Inl e, w1) \<Rightarrow> Some (Inl e, w1)
      | (Inr rd, w1) \<Rightarrow>
          if rd_targetPolicy rd = Device \<and> si_targetRef i = None
          then Some (Inl (DeviceTargetRequired (si_delegateId i)), w1)
          else
            (let parentId = ses_sessionId (si_parentSession i); hash = inputHash cfg (si_input i)
             in case findCallByCallerKey parentId (si_callerTurnSeq i) (si_callerToolRequestId i) w1 of
                  Some (d, c) \<Rightarrow>
                    if rd_id (dg_resolvedDelegate d) \<noteq> si_delegateId i \<or> dc_inputHash c \<noteq> hash
                    then Some (Inl IdempotencyKeyReused, w1)
                    else if dg_status d = CreatingChild
                         then withCall c (ensureChildAndOpen cfg opening d (si_parentSession i) w1)
                    else Some (Inr (d, c), w1)
                | None \<Rightarrow>
                    (case readDelegationByKey parentId (si_delegateId i) (si_targetRef i) w1 of
                       Some existing \<Rightarrow> appendCall cfg opening env i hash existing w1
                     | None \<Rightarrow> startNew cfg racing opening env i rd hash w1)))"

subsection \<open>Progress of the active call\<close>

definition acknowledgePrepare :: "string \<Rightarrow> string \<Rightarrow> int \<Rightarrow> (delegation, unit) attempt wop" where
  "acknowledgePrepare child commandId turn w =
     (case delegationOfChild child w of
        None \<Rightarrow> throw (NoDelegationForChild child) w
      | Some d \<Rightarrow>
          (case find (\<lambda>c. case dc_dispatch c of None \<Rightarrow> False
                         | Some p \<Rightarrow> dp_commandEventId p = commandId \<and> dp_childTurnSeq p = turn) (dg_calls d) of
             None \<Rightarrow> throw (CommandMismatch commandId) w
           | Some c \<Rightarrow>
               if dp_commandState (the (dc_dispatch c)) = CmdAccepted \<or> terminal_call (dc_status c)
               then ok (Return ()) w
               else
                 (let (t1, w1) = now w;
                      c1 = c\<lparr>dc_dispatch := Some ((the (dc_dispatch c))\<lparr>dp_commandState := CmdAccepted\<rparr>), dc_updatedAt := t1\<rparr>;
                      (t2, w2) = now w1
                  in ok (Write (dg_revision d)
                           ((replaceCall d c1)\<lparr>dg_revision := dg_revision d + 1, dg_updatedAt := t2\<rparr>) ()) w2)))"

definition acknowledgeCommand ::
  "tasks \<Rightarrow> string \<Rightarrow> string \<Rightarrow> int \<Rightarrow> world \<Rightarrow> ((error + unit) \<times> world) option" where
  "acknowledgeCommand env child commandId turn =
     cas_loop env (acknowledgePrepare child commandId turn) compareAndSetDelegation"

text \<open>
  \<^verbatim>\<open>updateByChildSession\<close>: \<open>update\<close> is the caller's function; it says what to return beside the
  next record.
\<close>

definition updatePrepare ::
  "string \<Rightarrow> (delegation \<Rightarrow> delegation_call \<Rightarrow> (delegation \<times> 'a) wop) \<Rightarrow> (delegation, 'a) attempt wop" where
  "updatePrepare child upd w =
     (case delegationOfChild child w of
        None \<Rightarrow> throw (NoActiveCall child) w
      | Some d \<Rightarrow>
          if \<not> truthy (dg_activeCallId d) then throw (NoActiveCall child) w
          else
            (case call_in (the (dg_activeCallId d)) d of
               None \<Rightarrow> throw (ActiveCallNotFound (dg_delegationId d) (the (dg_activeCallId d))) w
             | Some active \<Rightarrow>
                 andThen (upd d active) (\<lambda>(candidate, r) w1.
                   let (t, w2) = now w1
                   in ok (Write (dg_revision d)
                           (candidate\<lparr>dg_revision := dg_revision d + 1, dg_updatedAt := t\<rparr>) r) w2) w))"

definition updateByChildSession ::
  "tasks \<Rightarrow> string \<Rightarrow> (delegation \<Rightarrow> delegation_call \<Rightarrow> (delegation \<times> 'a) wop) \<Rightarrow> world \<Rightarrow> ((error + 'a) \<times> world) option" where
  "updateByChildSession env child upd = cas_loop env (updatePrepare child upd) compareAndSetDelegation"

definition assertTurn :: "int \<Rightarrow> delegation_call \<Rightarrow> unit wop" where
  "assertTurn turn c w =
     (if map_option dp_childTurnSeq (dc_dispatch c) \<noteq> Some turn
      then throw (TurnMismatch turn (dc_delegationCallId c)) w else ok () w)"

definition completeUpdate ::
  "delegation_config \<Rightarrow> int \<Rightarrow> string \<Rightarrow> delegation \<Rightarrow> delegation_call \<Rightarrow> (delegation \<times> delegation_call) wop" where
  "completeUpdate cfg turn res d active =
     andThen (assertTurn turn active) (\<lambda>_.
     andThen (validateResult (dg_resolvedDelegate d) res) (\<lambda>_ w.
       let (t, w1) = now w;
           completed = active\<lparr>dc_status := CCompleted, dc_result := Some res,
                              dc_resultDigest := Some (digestJson (dm_sha cfg) (JStr res)), dc_updatedAt := t\<rparr>
       in ok ((replaceCall d completed)\<lparr>dg_activeCallId := None\<rparr>, completed) w1))"

definition completeTurn ::
  "delegation_config \<Rightarrow> tasks \<Rightarrow> string \<Rightarrow> int \<Rightarrow> string \<Rightarrow> world \<Rightarrow> ((error + delegation_call) \<times> world) option" where
  "completeTurn cfg env child turn res = updateByChildSession env child (completeUpdate cfg turn res)"

definition failQueued :: "failure \<Rightarrow> time \<Rightarrow> delegation_call \<Rightarrow> delegation_call" where
  "failQueued f t c =
     (if dc_status c = CQueued then c\<lparr>dc_status := CFailed, dc_failure := Some f, dc_updatedAt := t\<rparr> else c)"

definition failUpdate ::
  "int \<Rightarrow> string \<Rightarrow> delegation \<Rightarrow> delegation_call \<Rightarrow> (delegation \<times> unit) wop" where
  "failUpdate turn msg d active =
     andThen (assertTurn turn active) (\<lambda>_ w.
       let (t, w1) = now w;
           failed = active\<lparr>dc_status := CFailed,
                           dc_failure := Some \<lparr>fl_code = ''child_turn_failed'', fl_message = msg\<rparr>, dc_updatedAt := t\<rparr>
       in ok (d\<lparr>dg_activeCallId := None, dg_status := DFailed, dg_closeReason := Some ActiveCallFailed,
               dg_failure := dc_failure failed,
               dg_calls := map (\<lambda>c. if dc_delegationCallId c = dc_delegationCallId failed then failed
                                    else failQueued \<lparr>fl_code = ''delegation_closed'', fl_message = msg\<rparr> t c) (dg_calls d)\<rparr>, ()) w1)"

definition failTurn :: "tasks \<Rightarrow> string \<Rightarrow> int \<Rightarrow> string \<Rightarrow> world \<Rightarrow> ((error + unit) \<times> world) option" where
  "failTurn env child turn msg = updateByChildSession env child (failUpdate turn msg)"

subsection \<open>Closing\<close>

definition failOpenCall :: "failure \<Rightarrow> time \<Rightarrow> delegation_call \<Rightarrow> delegation_call" where
  "failOpenCall f t c =
     (if terminal_call (dc_status c) then c
      else c\<lparr>dc_status := CFailed, dc_failure := Some f, dc_updatedAt := t\<rparr>)"

definition closePrepare ::
  "string \<Rightarrow> close_reason \<Rightarrow> string \<Rightarrow> (delegation \<Rightarrow> string) \<Rightarrow> (delegation, delegation option) attempt wop" where
  "closePrepare did reason code msg w =
     (case readDelegation did w of
        None \<Rightarrow> ok (Return None) w
      | Some d \<Rightarrow>
          if dg_closeReason d = Some reason then ok (Return (Some d)) w
          else
            (let (t, w1) = now w;
                 f = \<lparr>fl_code = code, fl_message = msg d\<rparr>;
                 next = d\<lparr>dg_status := DFailed, dg_activeCallId := None, dg_closeReason := Some reason,
                          dg_failure := Some f, dg_calls := map (failOpenCall f t) (dg_calls d),
                          dg_revision := dg_revision d + 1, dg_updatedAt := t\<rparr>
             in ok (Write (dg_revision d) next (Some next)) w1))"

definition closeForTerminal ::
  "tasks \<Rightarrow> string \<Rightarrow> close_reason \<Rightarrow> string \<Rightarrow> (delegation \<Rightarrow> string) \<Rightarrow> world
    \<Rightarrow> ((error + delegation option) \<times> world) option" where
  "closeForTerminal env did reason code msg =
     cas_loop env (closePrepare did reason code msg) compareAndSetDelegation"

definition parent_message :: "delegation \<Rightarrow> string" where
  "parent_message d = ''Parent Session '' @ dg_parentSessionId d @ '' is terminal''"

definition failForParentTerminal ::
  "tasks \<Rightarrow> string \<Rightarrow> world \<Rightarrow> ((error + delegation option) \<times> world) option" where
  "failForParentTerminal env did = closeForTerminal env did ParentTerminal ''parent_terminal'' parent_message"

definition failForChildLost ::
  "tasks \<Rightarrow> string \<Rightarrow> string \<Rightarrow> world \<Rightarrow> ((error + delegation option) \<times> world) option" where
  "failForChildLost env child msg w =
     (case delegationOfChild child w of
        None \<Rightarrow> Some (Inr None, w)
      | Some d \<Rightarrow>
          closeForTerminal env (dg_delegationId d) ChildTerminal ''child_session_lost'' (\<lambda>_. msg) w)"

subsection \<open>Awaits\<close>

definition registerAwaitPrepare ::
  "string \<Rightarrow> int \<Rightarrow> string \<Rightarrow> string \<Rightarrow> (delegation, delegation_call) attempt wop" where
  "registerAwaitPrepare parent turn req callId w =
     (case readCall callId w of
        None \<Rightarrow> throw (CallNotFound callId) w
      | Some (d, c) \<Rightarrow>
          if dg_parentSessionId d \<noteq> parent then throw (CallNotFound callId) w
          else if list_ex (\<lambda>a. aw_requestId a = req) (orElse (dc_awaitRequests c) []) then ok (Return c) w
          else
            (let (t, w1) = now w;
                 a = \<lparr>aw_requestId = req, aw_parentSessionId = parent, aw_parentTurnSeq = turn,
                      aw_status = AwPending, aw_requestedAt = t, aw_respondedAt = None\<rparr>;
                 c1 = c\<lparr>dc_awaitRequests := Some (orElse (dc_awaitRequests c) [] @ [a]), dc_updatedAt := t\<rparr>
             in ok (Write (dg_revision d)
                      ((replaceCall d c1)\<lparr>dg_revision := dg_revision d + 1, dg_updatedAt := t\<rparr>) c1) w1))"

definition registerAwait ::
  "tasks \<Rightarrow> string \<Rightarrow> int \<Rightarrow> string \<Rightarrow> string \<Rightarrow> world \<Rightarrow> ((error + delegation_call) \<times> world) option" where
  "registerAwait env parent turn req callId =
     cas_loop env (registerAwaitPrepare parent turn req callId) compareAndSetDelegation"

definition respondAwait :: "string \<Rightarrow> time \<Rightarrow> await_request \<Rightarrow> await_request" where
  "respondAwait req t a =
     (if aw_requestId a = req then a\<lparr>aw_status := AwResponded, aw_respondedAt := Some t\<rparr> else a)"

definition markAwaitPrepare :: "string \<Rightarrow> string \<Rightarrow> (delegation, unit) attempt wop" where
  "markAwaitPrepare callId req w =
     (case readCall callId w of
        None \<Rightarrow> throw (CallNotFound callId) w
      | Some (d, c) \<Rightarrow>
          (case find (\<lambda>a. aw_requestId a = req) (orElse (dc_awaitRequests c) []) of
             None \<Rightarrow> ok (Return ()) w
           | Some a \<Rightarrow>
               if aw_status a = AwResponded then ok (Return ()) w
               else
                 (let (t, w1) = now w;
                      c1 = c\<lparr>dc_awaitRequests := Some (map (respondAwait req t) (orElse (dc_awaitRequests c) [])),
                             dc_updatedAt := t\<rparr>
                  in ok (Write (dg_revision d)
                           ((replaceCall d c1)\<lparr>dg_revision := dg_revision d + 1, dg_updatedAt := t\<rparr>) ()) w1)))"

definition markAwaitResponded ::
  "tasks \<Rightarrow> string \<Rightarrow> string \<Rightarrow> world \<Rightarrow> ((error + unit) \<times> world) option" where
  "markAwaitResponded env callId req = cas_loop env (markAwaitPrepare callId req) compareAndSetDelegation"

end
