(* ===== verification/CallQueue.thy ===== *)
theory CallQueue
  imports Delegation
begin

text \<open>
  What a delegation promises, without its records: a first-in first-out queue of calls with at most one running,
  whose calls end with an outcome that is never taken back, and which closes once, with an outcome for every call
  that has none. \<open>queue_of\<close> gives the queue that a delegation record stands for.
\<close>

subsection \<open>The abstract queue\<close>

datatype outcome = Answered string | Refused failure

record call_queue =
  q_waiting :: "string list"
  q_running :: "string option"
  q_outcomes :: "string \<Rightarrow> outcome option"
  q_open :: bool

inductive queue_step :: "call_queue \<Rightarrow> call_queue \<Rightarrow> bool" where
  arrive: "q_open q \<Longrightarrow> x \<notin> set (q_waiting q) \<Longrightarrow> q_running q \<noteq> Some x \<Longrightarrow> q_outcomes q x = None \<Longrightarrow>
    queue_step q (q\<lparr>q_waiting := q_waiting q @ [x]\<rparr>)"
| start: "q_open q \<Longrightarrow> q_running q = None \<Longrightarrow> q_waiting q = x # xs \<Longrightarrow>
    queue_step q (q\<lparr>q_waiting := xs, q_running := Some x\<rparr>)"
| answer: "q_open q \<Longrightarrow> q_running q = Some x \<Longrightarrow>
    queue_step q (q\<lparr>q_running := None, q_outcomes := (q_outcomes q)(x \<mapsto> Answered r)\<rparr>)"
| close: "q_open q \<Longrightarrow>
    queue_step q \<lparr>q_waiting = [], q_running = None,
      q_outcomes = (\<lambda>x. if x \<in> set (q_waiting q) \<or> q_running q = Some x then Some (Refused (f x)) else q_outcomes q x),
      q_open = False\<rparr>"

inductive_cases queue_stepE: "queue_step q q1"

definition queue_run :: "call_queue \<Rightarrow> call_queue \<Rightarrow> bool" where
  "queue_run = queue_step\<^sup>*\<^sup>*"

lemma queue_run_refl [simp]: "queue_run q q"
  by (simp add: queue_run_def)

lemma queue_run_trans: "queue_run p q \<Longrightarrow> queue_run q r \<Longrightarrow> queue_run p r"
  by (simp add: queue_run_def)

lemma queue_run_step: "queue_step q q1 \<Longrightarrow> queue_run q q1"
  by (simp add: queue_run_def)

text \<open>The queue is a queue: a call that waits before another is not overtaken.\<close>

definition before :: "string \<Rightarrow> string \<Rightarrow> call_queue \<Rightarrow> bool" where
  "before x y q = (\<exists>as bs cs. q_waiting q = as @ x # bs @ y # cs)"

lemma queue_step_order:
  assumes "queue_step q q1" and "before x y q" and "distinct (q_waiting q)"
  shows "before x y q1 \<or> q_running q1 = Some x \<or> q_open q1 = False"
  using assms(1)
proof cases
  case (arrive z)
  from assms(2) obtain as bs cs where "q_waiting q = as @ x # bs @ y # cs" by (auto simp: before_def)
  then have "q_waiting q1 = as @ x # bs @ y # (cs @ [z])" by (simp add: arrive)
  then show ?thesis unfolding before_def by blast
next
  case (start z zs)
  from assms(2) obtain as bs cs where w: "q_waiting q = as @ x # bs @ y # cs" by (auto simp: before_def)
  show ?thesis
  proof (cases as)
    case Nil
    with w start show ?thesis by simp
  next
    case (Cons a as1)
    with w start have "q_waiting q1 = as1 @ x # bs @ y # cs" by simp
    then show ?thesis unfolding before_def by blast
  qed
qed (use assms(2) in \<open>auto simp: before_def\<close>)

subsection \<open>The queue of a delegation\<close>

definition outcome_of :: "delegation_call \<Rightarrow> outcome option" where
  "outcome_of c =
     (if dc_status c = CCompleted then map_option Answered (dc_result c)
      else if dc_status c = CFailed then map_option Refused (dc_failure c) else None)"

definition waiting_ids :: "delegation_call list \<Rightarrow> string list" where
  "waiting_ids cs = map dc_delegationCallId (filter (\<lambda>c. dc_status c = CQueued) cs)"

definition outcome_in :: "delegation_call list \<Rightarrow> string \<Rightarrow> outcome option" where
  "outcome_in cs x = Option.bind (find (\<lambda>c. dc_delegationCallId c = x) cs) outcome_of"

definition queue_of :: "delegation \<Rightarrow> call_queue" where
  "queue_of d =
     \<lparr>q_waiting = waiting_ids (dg_calls d), q_running = dg_activeCallId d, q_outcomes = outcome_in (dg_calls d), q_open = live d\<rparr>"

lemma queue_of_simps [simp]:
  "q_waiting (queue_of d) = waiting_ids (dg_calls d)" "q_running (queue_of d) = dg_activeCallId d"
  "q_outcomes (queue_of d) = outcome_in (dg_calls d)" "q_open (queue_of d) = live d"
  by (simp_all add: queue_of_def)

lemma find_id_map:
  "(\<And>c. c \<in> set cs \<Longrightarrow> dc_delegationCallId (f c) = dc_delegationCallId c) \<Longrightarrow>
    find (\<lambda>c. dc_delegationCallId c = x) (map f cs) = map_option f (find (\<lambda>c. dc_delegationCallId c = x) cs)"
  by (induction cs) auto

lemma outcome_in_map:
  assumes "\<And>c. c \<in> set cs \<Longrightarrow> dc_delegationCallId (f c) = dc_delegationCallId c"
  shows "outcome_in (map f cs) x = Option.bind (find (\<lambda>c. dc_delegationCallId c = x) cs) (\<lambda>c. outcome_of (f c))"
  using find_id_map [of cs f x] assms by (cases "find (\<lambda>c. dc_delegationCallId c = x) cs") (simp_all add: outcome_in_def)

lemma waiting_ids_map:
  assumes "\<And>c. c \<in> set cs \<Longrightarrow> dc_delegationCallId (f c) = dc_delegationCallId c"
  shows "waiting_ids (map f cs) = map dc_delegationCallId (filter (\<lambda>c. dc_status (f c) = CQueued) cs)"
  using assms by (induction cs) (simp_all add: waiting_ids_def)

lemma waiting_ids_same:
  assumes "\<And>c. c \<in> set cs \<Longrightarrow> dc_delegationCallId (f c) = dc_delegationCallId c \<and> (dc_status (f c) = CQueued \<longleftrightarrow> dc_status c = CQueued)"
  shows "waiting_ids (map f cs) = waiting_ids cs"
  using assms by (induction cs) (auto simp: waiting_ids_def)

lemma find_id_unique:
  "distinct (map dc_delegationCallId cs) \<Longrightarrow> c \<in> set cs \<Longrightarrow> find (\<lambda>c0. dc_delegationCallId c0 = dc_delegationCallId c) cs = Some c"
  by (induction cs) (auto simp: rev_image_eqI)

lemma outcome_in_queued: "dc_status c = CQueued \<Longrightarrow> outcome_in (cs @ [c]) x = outcome_in cs x"
  by (induction cs) (simp_all add: outcome_in_def outcome_of_def)

text \<open>Calls that keep their status class and outcome leave the queue as it is.\<close>

lemma queue_of_same:
  assumes "dg_calls d1 = map f (dg_calls d)" and "dg_activeCallId d1 = dg_activeCallId d" and "live d1 = live d"
    and "\<And>c. c \<in> set (dg_calls d) \<Longrightarrow> dc_delegationCallId (f c) = dc_delegationCallId c
           \<and> (dc_status (f c) = CQueued \<longleftrightarrow> dc_status c = CQueued) \<and> outcome_of (f c) = outcome_of c"
  shows "queue_of d1 = queue_of d"
proof -
  have "outcome_in (map f (dg_calls d)) x = outcome_in (dg_calls d) x" for x
    using assms(4) outcome_in_map [of "dg_calls d" f x]
    by (cases "find (\<lambda>c. dc_delegationCallId c = x) (dg_calls d)") (auto simp: outcome_in_def dest: find_SomeD)
  then have "outcome_in (map f (dg_calls d)) = outcome_in (dg_calls d)" by blast
  moreover have "waiting_ids (map f (dg_calls d)) = waiting_ids (dg_calls d)"
    using assms(4) by (intro waiting_ids_same) blast
  ultimately show ?thesis by (simp add: queue_of_def assms(1-3))
qed

end
