(* ===== verification/DelegationInv.thy ===== *)
theory DelegationInv
  imports CallQueue
begin

text \<open>
  The invariant of the delegation table and the rely/guarantee relation between two moments of
  it: what every operation of \<open>Delegation\<close> keeps and achieves while others run.
\<close>

subsection \<open>Well-formed calls and delegations\<close>

definition in_flight :: "delegation_call \<Rightarrow> bool" where
  "in_flight c = (dc_status c = CActive \<or> dc_status c = CCancelRequested)"

definition queued :: "delegation_call \<Rightarrow> bool" where
  "queued c = (dc_status c = CQueued)"

definition wf_call :: "(string \<Rightarrow> string) \<Rightarrow> resolved_delegate \<Rightarrow> delegation_call \<Rightarrow> bool" where
  "wf_call sha rd c =
     (dc_input c \<noteq> [] \<and> utf8_length (dc_input c) \<le> rd_maxInputBytes rd
      \<and> dc_inputHash c = digestJson sha (JStr (dc_input c))
      \<and> dc_deadlineAt c = dc_createdAt c + rd_deadlineMs rd
      \<and> (queued c \<longrightarrow> dc_dispatch c = None)
      \<and> (in_flight c \<longrightarrow> dc_dispatch c \<noteq> None)
      \<and> (if dc_status c = CCompleted
         then \<exists>r. dc_result c = Some r \<and> dc_resultDigest c = Some (digestJson sha (JStr r))
                \<and> r \<noteq> [] \<and> utf8_length r \<le> rd_maxResultBytes rd \<and> dc_dispatch c \<noteq> None
         else dc_result c = None)
      \<and> (dc_status c = CFailed \<longleftrightarrow> dc_failure c \<noteq> None))"

definition wf_delegation :: "(string \<Rightarrow> string) \<Rightarrow> delegation \<Rightarrow> bool" where
  "wf_delegation sha d =
     (1 \<le> dg_nextCallSeq d \<and> map dc_callSeq (dg_calls d) = [1..dg_nextCallSeq d - 1]
      \<and> distinct (map dc_delegationCallId (dg_calls d))
      \<and> (\<forall>c \<in> set (dg_calls d). wf_call sha (dg_resolvedDelegate d) c \<and> dc_delegationId c = dg_delegationId d)
      \<and> (\<forall>c \<in> set (dg_calls d). in_flight c \<longleftrightarrow> dg_activeCallId d = Some (dc_delegationCallId c))
      \<and> (case dg_activeCallId d of None \<Rightarrow> True | Some a \<Rightarrow> a \<in> dc_delegationCallId ` set (dg_calls d))
      \<and> (if live d then dg_failure d = None \<and> dg_closeReason d = None
         else \<forall>c \<in> set (dg_calls d). terminal_call (dc_status c))
      \<and> (dg_status d = CreatingChild \<longrightarrow> dg_activeCallId d = None)
      \<and> int (length (filter queued (dg_calls d))) \<le> rd_maxQueuedCalls (dg_resolvedDelegate d))"

subsection \<open>Progress\<close>

fun call_rank :: "call_status \<Rightarrow> nat" where
  "call_rank CQueued = 0"
| "call_rank CActive = 1"
| "call_rank CCancelRequested = 1"
| "call_rank CCompleted = 2"
| "call_rank CFailed = 2"
| "call_rank CCancelled = 2"
| "call_rank CExpired = 2"

lemma terminal_rank: "terminal_call st \<longleftrightarrow> call_rank st = 2"
  by (cases st) simp_all

lemma call_rank_le: "call_rank st \<le> 2"
  by (cases st) simp_all

definition binding_of :: "call_dispatch \<Rightarrow> int \<times> string \<times> string" where
  "binding_of p = (dp_childTurnSeq p, dp_inputEventId p, dp_commandEventId p)"

text \<open>
  \<open>c1\<close> is a later version of the call \<open>c\<close>: who asked for what never changes, the status moves
  forward only, the turn a call was dispatched to is fixed once and for all, and so is the outcome.
\<close>

definition call_adv :: "delegation_call \<Rightarrow> delegation_call \<Rightarrow> bool" where
  "call_adv c c1 =
     (dc_delegationCallId c1 = dc_delegationCallId c \<and> dc_delegationId c1 = dc_delegationId c
      \<and> dc_callSeq c1 = dc_callSeq c \<and> dc_callerTurnSeq c1 = dc_callerTurnSeq c
      \<and> dc_callerToolRequestId c1 = dc_callerToolRequestId c \<and> dc_input c1 = dc_input c
      \<and> dc_inputHash c1 = dc_inputHash c \<and> dc_deadlineAt c1 = dc_deadlineAt c
      \<and> dc_createdAt c1 = dc_createdAt c
      \<and> call_rank (dc_status c) \<le> call_rank (dc_status c1)
      \<and> (dc_dispatch c \<noteq> None \<longrightarrow> map_option binding_of (dc_dispatch c1) = map_option binding_of (dc_dispatch c))
      \<and> (terminal_call (dc_status c) \<longrightarrow>
           dc_status c1 = dc_status c \<and> dc_result c1 = dc_result c
           \<and> dc_resultDigest c1 = dc_resultDigest c \<and> dc_failure c1 = dc_failure c))"

lemma call_adv_refl [simp]: "call_adv c c"
  by (simp add: call_adv_def)

lemma call_adv_trans: "call_adv a b \<Longrightarrow> call_adv b c \<Longrightarrow> call_adv a c"
  unfolding call_adv_def terminal_rank
  by (cases "dc_dispatch a"; cases "dc_dispatch b") auto

fun status_rank :: "delegation_status \<Rightarrow> nat" where
  "status_rank CreatingChild = 0"
| "status_rank Open = 1"
| "status_rank Closing = 2"
| "status_rank DClosed = 3"
| "status_rank DFailed = 3"

definition identity_of :: "delegation \<Rightarrow> string \<times> string \<times> string \<times> string \<times> resolved_delegate \<times> resolved_agent_spec \<times> string option \<times> time" where
  "identity_of d = (dg_delegationId d, dg_tenantId d, dg_parentSessionId d, dg_childSessionId d,
     dg_resolvedDelegate d, dg_resolvedCalleeAgentSpec d, dg_targetRef d, dg_createdAt d)"

text \<open>
  \<open>d1\<close> is a later version of the delegation \<open>d\<close>: its calls have moved on, and the queue it stands for has made
  steps of the abstract queue.
\<close>

definition dele_adv :: "delegation \<Rightarrow> delegation \<Rightarrow> bool" where
  "dele_adv d d1 =
     (identity_of d1 = identity_of d
      \<and> (d1 = d \<or> dg_revision d < dg_revision d1)
      \<and> status_rank (dg_status d) \<le> status_rank (dg_status d1)
      \<and> length (dg_calls d) \<le> length (dg_calls d1)
      \<and> (\<forall>i < length (dg_calls d). call_adv (dg_calls d ! i) (dg_calls d1 ! i))
      \<and> queue_run (queue_of d) (queue_of d1))"

lemma dele_adv_refl [simp]: "dele_adv d d"
  by (simp add: dele_adv_def)

lemma dele_adv_trans: "dele_adv a b \<Longrightarrow> dele_adv b c \<Longrightarrow> dele_adv a c"
  unfolding dele_adv_def by (auto intro: call_adv_trans queue_run_trans)

lemma live_rank: "live d \<longleftrightarrow> status_rank (dg_status d) < 3"
  by (cases "dg_status d") (simp_all add: live_def)

lemma dele_adv_live: "dele_adv d d1 \<Longrightarrow> live d1 \<Longrightarrow> live d"
  by (auto simp: dele_adv_def live_rank)

lemma dele_adv_key: "dele_adv d d1 \<Longrightarrow> relation_key d1 = relation_key d \<and> dg_delegationId d1 = dg_delegationId d"
  by (auto simp: dele_adv_def identity_of_def relation_key_def)

lemma dele_adv_call:
  assumes "dele_adv d d1" and "c \<in> set (dg_calls d)"
  obtains c1 where "c1 \<in> set (dg_calls d1)" and "call_adv c c1"
proof -
  from assms(2) obtain i where i: "i < length (dg_calls d)" "dg_calls d ! i = c"
    by (auto simp: in_set_conv_nth)
  with assms(1) have "dg_calls d1 ! i \<in> set (dg_calls d1)" "call_adv c (dg_calls d1 ! i)"
    by (auto simp: dele_adv_def)
  with that show ?thesis by blast
qed

text \<open>The usual step: some calls move forward in place.\<close>

lemma dele_adv_map:
  assumes "\<And>c. c \<in> set (dg_calls d) \<Longrightarrow> call_adv c (f c)"
    and "identity_of d1 = identity_of d" and "dg_revision d < dg_revision d1"
    and "status_rank (dg_status d) \<le> status_rank (dg_status d1)"
    and "dg_calls d1 = map f (dg_calls d)" and "queue_run (queue_of d) (queue_of d1)"
  shows "dele_adv d d1"
  using assms by (simp add: dele_adv_def)

subsection \<open>The invariant of the table\<close>

definition used_ids :: "world \<Rightarrow> string set" where
  "used_ids w = (\<Union>d \<in> set (readDelegations w).
     {dg_delegationId d, dg_childSessionId d} \<union> dc_delegationCallId ` set (dg_calls d))"

definition drawn :: "world \<Rightarrow> string set" where
  "drawn w = w_uuid w ` {..<w_uuidIx w}"

text \<open>
  UUIDs do not repeat, and the ids stored in delegations have all been drawn. Call ids are unique
  across the table, child sessions belong to one delegation.
\<close>

definition separate :: "delegation \<Rightarrow> delegation \<Rightarrow> bool" where
  "separate d1 d2 =
     (dg_childSessionId d1 \<noteq> dg_childSessionId d2
      \<and> dc_delegationCallId ` set (dg_calls d1) \<inter> dc_delegationCallId ` set (dg_calls d2) = {})"

definition delegation_inv :: "(string \<Rightarrow> string) \<Rightarrow> world \<Rightarrow> bool" where
  "delegation_inv sha w =
     (wf_delegations w \<and> one_live_relation w
      \<and> (\<forall>d \<in> set (readDelegations w). wf_delegation sha d)
      \<and> (\<forall>d1 \<in> set (readDelegations w). \<forall>d2 \<in> set (readDelegations w). d1 \<noteq> d2 \<longrightarrow> separate d1 d2)
      \<and> inj (w_uuid w) \<and> [] \<notin> range (w_uuid w) \<and> used_ids w \<subseteq> drawn w)"

text \<open>
  \<open>progress sha w w1\<close>: from \<open>w\<close> to \<open>w1\<close> delegations only moved forward, and ids that appeared in the table
  were drawn on the way.
\<close>

definition progress :: "(string \<Rightarrow> string) \<Rightarrow> world \<Rightarrow> world \<Rightarrow> bool" where
  "progress sha w w1 =
     (delegation_inv sha w1 \<and> w_uuid w1 = w_uuid w \<and> w_uuidIx w \<le> w_uuidIx w1
      \<and> used_ids w1 \<subseteq> used_ids w \<union> w_uuid w ` {w_uuidIx w..<w_uuidIx w1}
      \<and> (\<forall>k d. readDelegation k w = Some d \<longrightarrow> (\<exists>d1. readDelegation k w1 = Some d1 \<and> dele_adv d d1)))"

lemma delegation_progress_refl: "delegation_inv sha w \<Longrightarrow> progress sha w w"
  by (auto simp: progress_def)

lemma delegation_progress_trans:
  assumes "progress sha w w1" and "progress sha w1 w2"
  shows "progress sha w w2"
  unfolding progress_def
proof (intro conjI allI impI)
  show "delegation_inv sha w2" "w_uuid w2 = w_uuid w" "w_uuidIx w \<le> w_uuidIx w2"
    using assms by (auto simp: progress_def)
  show "used_ids w2 \<subseteq> used_ids w \<union> w_uuid w ` {w_uuidIx w..<w_uuidIx w2}"
  proof
    fix x assume "x \<in> used_ids w2"
    with assms(2) have "x \<in> used_ids w1 \<or> x \<in> w_uuid w ` {w_uuidIx w1..<w_uuidIx w2}"
      using assms(1) by (auto simp: progress_def)
    then show "x \<in> used_ids w \<union> w_uuid w ` {w_uuidIx w..<w_uuidIx w2}"
    proof
      assume "x \<in> used_ids w1"
      with assms(1) have "x \<in> used_ids w \<or> x \<in> w_uuid w ` {w_uuidIx w..<w_uuidIx w1}"
        by (auto simp: progress_def)
      with assms(2) show ?thesis by (fastforce simp: progress_def)
    qed (use assms(1) in \<open>fastforce simp: progress_def\<close>)
  qed
  fix k d assume "readDelegation k w = Some d"
  with assms(1) obtain d1 where "readDelegation k w1 = Some d1" "dele_adv d d1"
    unfolding progress_def by blast
  with assms(2) show "\<exists>d2. readDelegation k w2 = Some d2 \<and> dele_adv d d2"
    unfolding progress_def by (blast intro: dele_adv_trans)
qed

text \<open>A step that leaves the table alone, a clock reading or a drawn id included.\<close>

lemma progress_same:
  assumes "delegation_inv sha w" and "w_delegations w1 = w_delegations w" and "w_uuid w1 = w_uuid w"
    and "w_uuidIx w \<le> w_uuidIx w1"
  shows "progress sha w w1"
proof -
  have r: "readDelegations w1 = readDelegations w" "\<And>k. readDelegation k w1 = readDelegation k w"
    using assms(2) by (simp_all add: readDelegations_def readDelegation_def)
  have "drawn w \<subseteq> drawn w1" using assms(3,4) by (auto simp: drawn_def)
  moreover have u: "used_ids w1 = used_ids w" "one_live_relation w1 = one_live_relation w"
    "wf_delegations w1 = wf_delegations w"
    using r assms(2) by (simp_all add: used_ids_def one_live_relation_def wf_delegations_def)
  ultimately have "delegation_inv sha w1"
    using assms(1,3) r unfolding delegation_inv_def by auto
  then show ?thesis using assms(3,4) r u by (auto simp: progress_def)
qed

lemma now_uuidIx [simp]: "w_uuidIx (snd (now w)) = w_uuidIx w"
  by (simp add: now_def)

lemma progress_now: "delegation_inv sha w \<Longrightarrow> progress sha w (snd (now w))"
  by (rule progress_same) (simp_all add: tab_simps)

lemma progress_freshId: "delegation_inv sha w \<Longrightarrow> progress sha w (snd (freshId w))"
  by (rule progress_same) (simp_all add: freshId_def)

lemma delegation_inv_read:
  assumes "delegation_inv sha w" and "readDelegation k w = Some d"
  shows "wf_delegation sha d" and "dg_delegationId d = k" and "d \<in> set (readDelegations w)"
  using assms readDelegationsI [OF assms(2)] readDelegation_id [of w k d]
  by (auto simp: delegation_inv_def)

lemma delegation_inv_mem:
  assumes "delegation_inv sha w" and "d \<in> set (readDelegations w)"
  shows "wf_delegation sha d" and "readDelegation (dg_delegationId d) w = Some d"
  using assms by (auto simp: delegation_inv_def readDelegations_iff)

subsection \<open>A compare-and-set step\<close>

lemma set_readDelegations_put:
  "delegation_inv sha w \<Longrightarrow> set (readDelegations (writeDelegation d w))
     = {d1 \<in> set (readDelegations w). dg_delegationId d1 \<noteq> dg_delegationId d} \<union> {d}"
  by (simp add: delegation_inv_def set_readDelegations_write)

lemma disjoint_extend: "A \<inter> B = {} \<Longrightarrow> A \<subseteq> U \<Longrightarrow> C \<subseteq> B \<union> N \<Longrightarrow> N \<inter> U = {} \<Longrightarrow> A \<inter> C = {}"
  by blast

text \<open>Replacing \<open>d\<close> by a later version that brings only the new ids \<open>N\<close>.\<close>

lemma progress_replace:
  assumes inv: "delegation_inv sha w" and read: "readDelegation (dg_delegationId nx) w = Some d"
    and adv: "dele_adv d nx" and wf: "wf_delegation sha nx"
    and ids: "dc_delegationCallId ` set (dg_calls nx) \<subseteq> dc_delegationCallId ` set (dg_calls d) \<union> N"
    and N: "N \<subseteq> drawn w" "N \<inter> used_ids w = {}"
  shows "delegation_inv sha (writeDelegation nx w)"
    and "used_ids (writeDelegation nx w) \<subseteq> used_ids w \<union> N"
proof -
  let ?w = "writeDelegation nx w"
  note put = set_readDelegations_put [OF inv, of nx]
  note d = delegation_inv_read [OF inv read]
  have child: "dg_childSessionId nx = dg_childSessionId d" "dg_delegationId nx = dg_delegationId d"
    using adv by (auto simp: dele_adv_def identity_of_def)
  have old: "dc_delegationCallId ` set (dg_calls d) \<subseteq> used_ids w" "dg_childSessionId d \<in> used_ids w"
    "dg_delegationId d \<in> used_ids w"
    using d(3) by (auto simp: used_ids_def)
  show used: "used_ids ?w \<subseteq> used_ids w \<union> N"
  proof
    fix x assume "x \<in> used_ids ?w"
    then obtain d1 where d1: "d1 \<in> set (readDelegations ?w)"
      "x \<in> {dg_delegationId d1, dg_childSessionId d1} \<union> dc_delegationCallId ` set (dg_calls d1)"
      unfolding used_ids_def by blast
    show "x \<in> used_ids w \<union> N"
    proof (cases "d1 = nx")
      case True
      with d1(2) ids old child show ?thesis by auto
    next
      case False
      with d1 put show ?thesis by (auto simp: used_ids_def)
    qed
  qed
  have sep: "separate d1 nx" "separate nx d1" if "d1 \<in> set (readDelegations w)" "dg_delegationId d1 \<noteq> dg_delegationId nx" for d1
  proof -
    from that(2) child have "d1 \<noteq> d" by auto
    moreover from inv have "\<forall>d1 \<in> set (readDelegations w). \<forall>d2 \<in> set (readDelegations w). d1 \<noteq> d2 \<longrightarrow> separate d1 d2"
      by (simp add: delegation_inv_def)
    ultimately have "separate d1 d" using that(1) d(3) by blast
    moreover from that(1) have "dc_delegationCallId ` set (dg_calls d1) \<subseteq> used_ids w" by (auto simp: used_ids_def)
    ultimately have "dc_delegationCallId ` set (dg_calls d1) \<inter> dc_delegationCallId ` set (dg_calls nx) = {}"
      and "dg_childSessionId d1 \<noteq> dg_childSessionId nx"
      using disjoint_extend [OF _ _ ids N(2)] child by (auto simp only: separate_def)
    then show "separate d1 nx" "separate nx d1"
      unfolding separate_def Int_commute [of "dc_delegationCallId ` set (dg_calls nx)"] by auto
  qed
  have "wf_delegations w" "one_live_relation w" using inv by (simp_all add: delegation_inv_def)
  from one_live_relation_replace [OF this read] dele_adv_key [OF adv] dele_adv_live [OF adv]
  have live: "one_live_relation ?w" by blast
  have "drawn ?w = drawn w" "w_uuid ?w = w_uuid w" by (simp_all add: drawn_def writeDelegation_def)
  moreover have "\<forall>d1 \<in> set (readDelegations ?w). \<forall>d2 \<in> set (readDelegations ?w). d1 \<noteq> d2 \<longrightarrow> separate d1 d2"
    using put sep inv by (auto simp: delegation_inv_def)
  moreover have "\<forall>d1 \<in> set (readDelegations ?w). wf_delegation sha d1"
    using put wf inv by (auto simp: delegation_inv_def)
  moreover have "wf_delegations ?w" using inv by (simp add: delegation_inv_def wf_delegations_write)
  moreover have "used_ids ?w \<subseteq> drawn w" using used N(1) inv by (auto simp: delegation_inv_def)
  ultimately show "delegation_inv sha ?w"
    using inv live by (simp add: delegation_inv_def)
qed

lemma progress_cas:
  assumes inv: "delegation_inv sha w" and read: "readDelegation k w = Some d"
    and prog: "progress sha w w2"
    and adv: "dele_adv d nx" and rev: "dg_revision nx = dg_revision d + 1" and wf: "wf_delegation sha nx"
    and ids: "dc_delegationCallId ` set (dg_calls nx) \<subseteq> dc_delegationCallId ` set (dg_calls d) \<union> N"
    and N: "N \<subseteq> w_uuid w ` {w_uuidIx w..<w_uuidIx w2}" "N \<inter> used_ids w2 = {}"
    and cas: "compareAndSetDelegation (dg_revision d) nx w2 = (out, w3)"
  shows "progress sha w w3"
    and "(out = Inr True \<and> readDelegation k w2 = Some d \<and> w3 = writeDelegation nx w2)
         \<or> (out = Inr False \<and> readDelegation k w2 \<noteq> Some d \<and> w3 = w2)"
proof -
  have id: "dg_delegationId d = k" by (rule delegation_inv_read [OF inv read])
  have key: "relation_key nx = relation_key d" "dg_delegationId nx = k"
    using dele_adv_key [OF adv] id by auto
  from prog read obtain d2 where d2: "readDelegation k w2 = Some d2" "dele_adv d d2"
    unfolding progress_def by blast
  have inv2: "delegation_inv sha w2" using prog by (simp add: progress_def)
  show res: "(out = Inr True \<and> readDelegation k w2 = Some d \<and> w3 = writeDelegation nx w2)
         \<or> (out = Inr False \<and> readDelegation k w2 \<noteq> Some d \<and> w3 = w2)"
  proof (cases "d2 = d")
    case True
    with cas d2 key rev show ?thesis by (simp add: compareAndSetDelegation_def)
  next
    case False
    with d2 have "dg_revision d2 \<noteq> dg_revision d" by (auto simp: dele_adv_def)
    with cas d2 key False show ?thesis by (auto simp: compareAndSetDelegation_def)
  qed
  show "progress sha w w3"
  proof (cases "out = Inr True")
    case False
    with res prog show ?thesis by auto
  next
    case True
    with res have r: "readDelegation (dg_delegationId nx) w2 = Some d" and w3: "w3 = writeDelegation nx w2"
      using key by auto
    have "N \<subseteq> drawn w2" using N(1) prog by (auto simp: drawn_def progress_def)
    note rep = progress_replace [OF inv2 r adv wf ids this N(2)]
    have "w_uuid w3 = w_uuid w2" "w_uuidIx w3 = w_uuidIx w2" by (simp_all add: w3 writeDelegation_def)
    moreover have "used_ids w3 \<subseteq> used_ids w \<union> w_uuid w ` {w_uuidIx w..<w_uuidIx w2}"
      using rep(2) N(1) prog unfolding w3 progress_def by blast
    moreover have later: "\<exists>d1. readDelegation j w3 = Some d1 \<and> dele_adv dj d1" if "readDelegation j w2 = Some dj" for j dj
    proof (cases "j = k")
      case True
      with that r key adv have "dj = d" by simp
      with adv True key show ?thesis by (auto simp: w3 tab_simps)
    next
      case False
      with that key show ?thesis by (auto simp: w3 tab_simps)
    qed
    moreover have "\<exists>d1. readDelegation j w3 = Some d1 \<and> dele_adv dj d1" if j: "readDelegation j w = Some dj" for j dj
    proof -
      from prog j obtain dj2 where "readDelegation j w2 = Some dj2" "dele_adv dj dj2"
        unfolding progress_def by blast
      with later show ?thesis by (blast intro: dele_adv_trans)
    qed
    ultimately show ?thesis
      using rep(1) prog unfolding w3 progress_def by simp
  qed
qed

subsection \<open>The compare-and-set loops of the manager\<close>

text \<open>Other tasks may do anything that is progress.\<close>

definition rely :: "(string \<Rightarrow> string) \<Rightarrow> tasks \<Rightarrow> bool" where
  "rely sha env = (\<forall>f \<in> set env. \<forall>w. delegation_inv sha w \<longrightarrow> progress sha w (f w))"

lemma delegation_rely_simps [simp]:
  "rely sha []"
  "rely sha (f # env) \<longleftrightarrow> (\<forall>w. delegation_inv sha w \<longrightarrow> progress sha w (f w)) \<and> rely sha env"
  by (auto simp: rely_def)

lemma disturb_progress: "rely sha env \<Longrightarrow> delegation_inv sha w \<Longrightarrow> progress sha w (disturb env w)"
  by (cases env) (simp_all add: disturb_def delegation_progress_refl)

text \<open>
  What the part of a loop before the write must satisfy: it leaves the table alone, and the record
  it asks to write is the next version of the one it read.
\<close>

definition next_version :: "(string \<Rightarrow> string) \<Rightarrow> delegation \<Rightarrow> delegation \<Rightarrow> bool" where
  "next_version sha d d1 =
     (dele_adv d d1 \<and> dg_revision d1 = dg_revision d + 1 \<and> wf_delegation sha d1
      \<and> dc_delegationCallId ` set (dg_calls d1) \<subseteq> dc_delegationCallId ` set (dg_calls d))"

definition prepares :: "(string \<Rightarrow> string) \<Rightarrow> (delegation, 'r) attempt wop \<Rightarrow> bool" where
  "prepares sha prep =
     (\<forall>w a w1. delegation_inv sha w \<longrightarrow> prep w = (a, w1) \<longrightarrow>
        w_delegations w1 = w_delegations w \<and> w_uuid w1 = w_uuid w \<and> w_uuidIx w \<le> w_uuidIx w1
        \<and> (\<forall>rv d1 r. a = Inr (Write rv d1 r) \<longrightarrow>
             (\<exists>d. readDelegation (dg_delegationId d1) w = Some d \<and> rv = dg_revision d \<and> next_version sha d d1)))"

text \<open>What the last attempt of a loop did, from the state \<open>v\<close> it started in.\<close>

definition last_attempt ::
  "(string \<Rightarrow> string) \<Rightarrow> (delegation, 'r) attempt wop \<Rightarrow> world \<Rightarrow> error + 'r \<Rightarrow> world \<Rightarrow> bool" where
  "last_attempt sha prep v out w1 =
     (case prep v of
        (Inl e, v1) \<Rightarrow> out = Inl e \<and> w1 = v1
      | (Inr (Return r), v1) \<Rightarrow> out = Inr r \<and> w1 = v1
      | (Inr (Write rv d1 r), v1) \<Rightarrow>
          out = Inr r \<and> (\<exists>d u. readDelegation (dg_delegationId d1) v = Some d \<and> next_version sha d d1
            \<and> progress sha v u \<and> readDelegation (dg_delegationId d1) u = Some d \<and> w1 = writeDelegation d1 u))"

lemma last_attempt_done:
  assumes "prep w = (a, w1)" and "\<nexists>rv d1 r. a = Inr (Write rv d1 r)"
  shows "\<exists>out. cas_loop env prep compareAndSetDelegation w = Some (out, w1) \<and> last_attempt sha prep w out w1"
proof (cases a)
  case (Inl e)
  with assms(1) show ?thesis by (cases env) (simp_all add: last_attempt_def)
next
  case (Inr att)
  with assms show ?thesis by (cases att; cases env) (simp_all add: last_attempt_def)
qed

lemma attempt_step:
  assumes prep: "prepares sha prep" and inv: "delegation_inv sha w"
    and w: "prep w = (Inr (Write rv d1 r), w1)"
    and env: "\<And>v. delegation_inv sha v \<Longrightarrow> progress sha v (f v)"
    and cas: "compareAndSetDelegation rv d1 (f w1) = (out, w2)"
  shows "progress sha w w2"
    and "(out = Inr True \<and> last_attempt sha prep w (Inr r) w2) \<or> (out = Inr False \<and> w2 = f w1 \<and> f w1 \<noteq> w1)"
proof -
  from prep inv w obtain d where d: "readDelegation (dg_delegationId d1) w = Some d" "rv = dg_revision d"
    "next_version sha d d1" and same: "w_delegations w1 = w_delegations w" "w_uuid w1 = w_uuid w" "w_uuidIx w \<le> w_uuidIx w1"
    unfolding prepares_def by blast
  have p1: "progress sha w w1" by (rule progress_same [OF inv same])
  then have "progress sha w1 (f w1)" by (intro env) (simp add: progress_def)
  with p1 have p2: "progress sha w (f w1)" by (rule delegation_progress_trans)
  from d(3) have nv: "dele_adv d d1" "dg_revision d1 = dg_revision d + 1" "wf_delegation sha d1"
    "dc_delegationCallId ` set (dg_calls d1) \<subseteq> dc_delegationCallId ` set (dg_calls d) \<union> {}"
    by (auto simp: next_version_def)
  note step = progress_cas [OF inv d(1) p2 nv _ _ cas [unfolded d(2)]]
  show "progress sha w w2" by (rule step(1)) simp_all
  have "(out = Inr True \<and> readDelegation (dg_delegationId d1) (f w1) = Some d \<and> w2 = writeDelegation d1 (f w1))
      \<or> (out = Inr False \<and> readDelegation (dg_delegationId d1) (f w1) \<noteq> Some d \<and> w2 = f w1)"
    by (rule step(2)) simp_all
  moreover have "readDelegation (dg_delegationId d1) w1 = Some d"
    using d(1) same(1) by (simp add: readDelegation_def)
  ultimately show "(out = Inr True \<and> last_attempt sha prep w (Inr r) w2) \<or> (out = Inr False \<and> w2 = f w1 \<and> f w1 \<noteq> w1)"
    using w d p2 by (auto simp: last_attempt_def)
qed

text \<open>
  Every such loop ends, whatever finite interference there is; it makes progress, and its result is
  that of an attempt made at some moment reached by progress.
\<close>

lemma loop_progress:
  assumes "prepares sha prep" and "delegation_inv sha w" and "rely sha env"
  shows "\<exists>out w1 v. cas_loop env prep compareAndSetDelegation w = Some (out, w1)
    \<and> progress sha w w1 \<and> progress sha w v \<and> last_attempt sha prep v out w1"
  using assms(2,3)
proof (induction env arbitrary: w)
  case Nil
  obtain a w1 where pw: "prep w = (a, w1)" by (cases "prep w")
  have same: "progress sha w w1"
    using assms(1) Nil(1) pw unfolding prepares_def by (auto intro: progress_same)
  show ?case
  proof (cases "\<exists>rv d1 r. a = Inr (Write rv d1 r)")
    case False
    from last_attempt_done [where prep = prep, OF pw False, of "[]" sha] same delegation_progress_refl [OF Nil(1)] show ?thesis by blast
  next
    case True
    then obtain rv d1 r where a: "a = Inr (Write rv d1 r)" by blast
    obtain out w2 where cas: "compareAndSetDelegation rv d1 w1 = (out, w2)"
      by (cases "compareAndSetDelegation rv d1 w1")
    note step = attempt_step [where f = "\<lambda>v. v", OF assms(1) Nil(1) pw [unfolded a] delegation_progress_refl cas]
    from step(2) have "out = Inr True" "last_attempt sha prep w (Inr r) w2" by auto
    moreover from this pw a cas have "cas_loop [] prep compareAndSetDelegation w = Some (Inr r, w2)" by simp
    ultimately show ?thesis using step(1) delegation_progress_refl [OF Nil(1)] by blast
  qed
next
  case (Cons f env)
  obtain a w1 where pw: "prep w = (a, w1)" by (cases "prep w")
  have same: "progress sha w w1"
    using assms(1) Cons(2) pw unfolding prepares_def by (auto intro: progress_same)
  show ?case
  proof (cases "\<exists>rv d1 r. a = Inr (Write rv d1 r)")
    case False
    from last_attempt_done [where prep = prep, OF pw False, of "f # env" sha] same delegation_progress_refl [OF Cons(2)] show ?thesis by blast
  next
    case True
    then obtain rv d1 r where a: "a = Inr (Write rv d1 r)" by blast
    obtain out w2 where cas: "compareAndSetDelegation rv d1 (f w1) = (out, w2)"
      by (cases "compareAndSetDelegation rv d1 (f w1)")
    note step = attempt_step [where f = f, OF assms(1) Cons(2) pw [unfolded a] _ cas]
    have f: "progress sha w w2" "(out = Inr True \<and> last_attempt sha prep w (Inr r) w2) \<or> out = Inr False"
      using step Cons(3) by auto
    show ?thesis
    proof (cases "out = Inr True")
      case True
      with f have "last_attempt sha prep w (Inr r) w2" by simp
      moreover from True pw a cas have "cas_loop (f # env) prep compareAndSetDelegation w = Some (Inr r, w2)" by simp
      ultimately show ?thesis using f(1) delegation_progress_refl [OF Cons(2)] by blast
    next
      case False
      with f have out: "out = Inr False" by simp
      from f(1) have "delegation_inv sha w2" by (simp add: progress_def)
      from Cons(1) [OF this] Cons(3) obtain o1 w3 v where
        "cas_loop env prep compareAndSetDelegation w2 = Some (o1, w3)" "progress sha w2 w3"
        "progress sha w2 v" "last_attempt sha prep v o1 w3" by auto
      moreover from this(1) pw a cas out have "cas_loop (f # env) prep compareAndSetDelegation w = Some (o1, w3)" by simp
      ultimately show ?thesis using f(1) by (blast intro: delegation_progress_trans)
    qed
  qed
qed

subsection \<open>The next version of a delegation\<close>

lemma length_filter_map_le:
  "(\<And>x. x \<in> set xs \<Longrightarrow> P (f x) \<Longrightarrow> P x) \<Longrightarrow> length (filter P (map f xs)) \<le> length (filter P xs)"
  by (induction xs) (auto simp: le_SucI)

lemma next_version_map:
  assumes wf: "wf_delegation sha d" and calls: "dg_calls d1 = map f (dg_calls d)"
    and adv: "\<And>c. c \<in> set (dg_calls d) \<Longrightarrow> call_adv c (f c)"
    and wfc: "\<And>c. c \<in> set (dg_calls d) \<Longrightarrow> wf_call sha (dg_resolvedDelegate d) (f c)"
    and idn: "identity_of d1 = identity_of d" and rev: "dg_revision d1 = dg_revision d + 1"
    and seq: "dg_nextCallSeq d1 = dg_nextCallSeq d"
    and rank: "status_rank (dg_status d) \<le> status_rank (dg_status d1)"
    and act: "\<And>c. c \<in> set (dg_calls d) \<Longrightarrow> in_flight (f c) \<longleftrightarrow> dg_activeCallId d1 = Some (dc_delegationCallId c)"
    and act_mem: "dg_activeCallId d1 = None \<or> the (dg_activeCallId d1) \<in> dc_delegationCallId ` set (dg_calls d)"
    and live: "if live d1 then dg_failure d1 = None \<and> dg_closeReason d1 = None
               else \<forall>c \<in> set (dg_calls d). terminal_call (dc_status (f c))"
    and creating: "dg_status d1 = CreatingChild \<Longrightarrow> dg_activeCallId d1 = None"
    and queue: "\<And>c. c \<in> set (dg_calls d) \<Longrightarrow> queued (f c) \<Longrightarrow> queued c"
    and run: "queue_run (queue_of d) (queue_of d1)"
  shows "next_version sha d d1"
proof -
  have same: "\<And>c. c \<in> set (dg_calls d) \<Longrightarrow> dc_callSeq (f c) = dc_callSeq c \<and> dc_delegationCallId (f c) = dc_delegationCallId c
      \<and> dc_delegationId (f c) = dc_delegationId c"
    using adv by (simp add: call_adv_def)
  then have maps: "map dc_callSeq (dg_calls d1) = map dc_callSeq (dg_calls d)"
    "map dc_delegationCallId (dg_calls d1) = map dc_delegationCallId (dg_calls d)"
    by (auto simp: calls)
  then have ids: "dc_delegationCallId ` set (dg_calls d1) = dc_delegationCallId ` set (dg_calls d)"
    by (metis list.set_map)
  have res: "dg_resolvedDelegate d1 = dg_resolvedDelegate d" "dg_delegationId d1 = dg_delegationId d"
    using idn by (auto simp: identity_of_def)
  have q: "length (filter queued (dg_calls d1)) \<le> length (filter queued (dg_calls d))"
    unfolding calls by (rule length_filter_map_le) (rule queue)
  have "wf_delegation sha d1"
    unfolding wf_delegation_def maps res seq ids
  proof (intro conjI ballI)
    show "1 \<le> dg_nextCallSeq d" "map dc_callSeq (dg_calls d) = [1..dg_nextCallSeq d - 1]" "distinct (map dc_delegationCallId (dg_calls d))"
      using wf by (simp_all add: wf_delegation_def)
    show "case dg_activeCallId d1 of None \<Rightarrow> True | Some a \<Rightarrow> a \<in> dc_delegationCallId ` set (dg_calls d)"
      using act_mem by (auto split: option.splits)
    show "if live d1 then dg_failure d1 = None \<and> dg_closeReason d1 = None
          else \<forall>c \<in> set (dg_calls d1). terminal_call (dc_status c)"
      using live by (simp add: calls)
    show "dg_status d1 = CreatingChild \<longrightarrow> dg_activeCallId d1 = None" using creating by simp
    show "int (length (filter queued (dg_calls d1))) \<le> rd_maxQueuedCalls (dg_resolvedDelegate d)"
      using q wf by (simp add: wf_delegation_def)
    fix c1 assume "c1 \<in> set (dg_calls d1)"
    then obtain c where c: "c \<in> set (dg_calls d)" "c1 = f c" by (auto simp: calls)
    with wf same wfc act show "wf_call sha (dg_resolvedDelegate d) c1" "dc_delegationId c1 = dg_delegationId d"
      "in_flight c1 = (dg_activeCallId d1 = Some (dc_delegationCallId c1))"
      by (auto simp: wf_delegation_def)
  qed
  moreover have "dele_adv d d1" using rev by (intro dele_adv_map [OF adv idn _ rank calls run]) simp_all
  ultimately show ?thesis by (simp add: next_version_def rev ids)
qed

lemma outcome_of_adv: "call_adv c c1 \<Longrightarrow> dc_status c1 = dc_status c \<Longrightarrow> outcome_of c1 = outcome_of c"
  by (cases "dc_status c") (simp_all add: call_adv_def outcome_of_def)

lemma queue_of_replace:
  assumes "call_adv c c1" and "dc_status c1 = dc_status c"
    and u: "\<And>c0. c0 \<in> set (dg_calls d) \<Longrightarrow> dc_delegationCallId c0 = dc_delegationCallId c \<Longrightarrow> c0 = c"
  shows "queue_of ((replaceCall d c1)\<lparr>dg_revision := n, dg_updatedAt := t\<rparr>) = queue_of d"
proof (rule queue_of_same [where f = "\<lambda>c0. if dc_delegationCallId c0 = dc_delegationCallId c1 then c1 else c0"])
  fix c0 assume "c0 \<in> set (dg_calls d)"
  note u = u [OF this]
  have id: "dc_delegationCallId c1 = dc_delegationCallId c" using assms(1) by (simp add: call_adv_def)
  let ?f = "if dc_delegationCallId c0 = dc_delegationCallId c1 then c1 else c0"
  show "dc_delegationCallId ?f = dc_delegationCallId c0 \<and> (dc_status ?f = CQueued \<longleftrightarrow> dc_status c0 = CQueued)
      \<and> outcome_of ?f = outcome_of c0"
    using u assms(2) id outcome_of_adv [OF assms(1,2)] by auto
qed (simp_all add: replaceCall_def live_def)

text \<open>Replacing one call by a later version of it with the same status.\<close>

lemma call_unique:
  "wf_delegation sha d \<Longrightarrow> c \<in> set (dg_calls d) \<Longrightarrow> c0 \<in> set (dg_calls d) \<Longrightarrow>
    dc_delegationCallId c0 = dc_delegationCallId c \<Longrightarrow> c0 = c"
  unfolding wf_delegation_def distinct_map inj_on_def by blast

lemma next_version_replace:
  assumes wf: "wf_delegation sha d" and c: "c \<in> set (dg_calls d)" and adv: "call_adv c c1"
    and st: "dc_status c1 = dc_status c" and wfc: "wf_call sha (dg_resolvedDelegate d) c1"
  shows "next_version sha d ((replaceCall d c1)\<lparr>dg_revision := dg_revision d + 1, dg_updatedAt := t\<rparr>)"
proof (rule next_version_map [OF wf, where f = "\<lambda>c0. if dc_delegationCallId c0 = dc_delegationCallId c1 then c1 else c0"])
  have id: "dc_delegationCallId c1 = dc_delegationCallId c" using adv by (simp add: call_adv_def)
  note u = call_unique [OF wf c]
  fix c0 assume c0: "c0 \<in> set (dg_calls d)"
  let ?f = "if dc_delegationCallId c0 = dc_delegationCallId c1 then c1 else c0"
  show "call_adv c0 ?f" using u [OF c0] adv id by auto
  show "wf_call sha (dg_resolvedDelegate d) ?f" using wfc wf c0 by (auto simp: wf_delegation_def)
  show "in_flight ?f \<longleftrightarrow> dg_activeCallId ((replaceCall d c1)\<lparr>dg_revision := dg_revision d + 1, dg_updatedAt := t\<rparr>)
      = Some (dc_delegationCallId c0)"
    using wf c0 u [OF c0] st id by (auto simp: wf_delegation_def replaceCall_def in_flight_def)
  show "queued ?f \<Longrightarrow> queued c0" using u [OF c0] st id by (auto simp: queued_def split: if_splits)
next
  have id: "dc_delegationCallId c1 = dc_delegationCallId c" using adv by (simp add: call_adv_def)
  show "if live ((replaceCall d c1)\<lparr>dg_revision := dg_revision d + 1, dg_updatedAt := t\<rparr>)
      then dg_failure ((replaceCall d c1)\<lparr>dg_revision := dg_revision d + 1, dg_updatedAt := t\<rparr>) = None
         \<and> dg_closeReason ((replaceCall d c1)\<lparr>dg_revision := dg_revision d + 1, dg_updatedAt := t\<rparr>) = None
      else \<forall>c0 \<in> set (dg_calls d). terminal_call (dc_status (if dc_delegationCallId c0 = dc_delegationCallId c1 then c1 else c0))"
    using wf c st by (auto simp: wf_delegation_def live_def replaceCall_def)
  show "queue_run (queue_of d) (queue_of ((replaceCall d c1)\<lparr>dg_revision := dg_revision d + 1, dg_updatedAt := t\<rparr>))"
    by (simp add: queue_of_replace [OF adv st call_unique [OF wf c]])
  show "dg_activeCallId ((replaceCall d c1)\<lparr>dg_revision := dg_revision d + 1, dg_updatedAt := t\<rparr>) = None
    \<or> the (dg_activeCallId ((replaceCall d c1)\<lparr>dg_revision := dg_revision d + 1, dg_updatedAt := t\<rparr>))
        \<in> dc_delegationCallId ` set (dg_calls d)"
    using wf by (auto simp: wf_delegation_def replaceCall_def split: option.splits)
qed (use wf in \<open>simp_all add: wf_delegation_def replaceCall_def identity_of_def\<close>)

subsection \<open>Every operation writes a next version\<close>

lemma preparesI:
  assumes "\<And>w. delegation_inv sha w \<Longrightarrow>
      w_delegations (snd (prep w)) = w_delegations w \<and> w_uuid (snd (prep w)) = w_uuid w
      \<and> w_uuidIx w \<le> w_uuidIx (snd (prep w))"
    and "\<And>w rv d1 r. delegation_inv sha w \<Longrightarrow> fst (prep w) = Inr (Write rv d1 r) \<Longrightarrow>
      \<exists>d. d \<in> set (readDelegations w) \<and> dg_delegationId d1 = dg_delegationId d \<and> rv = dg_revision d
         \<and> (wf_delegation sha d \<longrightarrow> next_version sha d d1)"
  shows "prepares sha prep"
  unfolding prepares_def
proof (intro allI impI conjI)
  fix w a w1 assume inv: "delegation_inv sha w" and pw: "prep w = (a, w1)"
  from assms(1) [OF inv] pw show "w_delegations w1 = w_delegations w" "w_uuid w1 = w_uuid w" "w_uuidIx w \<le> w_uuidIx w1"
    by simp_all
  fix rv d1 r assume "a = Inr (Write rv d1 r)"
  with assms(2) [OF inv, of rv d1 r] pw obtain d where "d \<in> set (readDelegations w)"
    "dg_delegationId d1 = dg_delegationId d" "rv = dg_revision d" "wf_delegation sha d \<longrightarrow> next_version sha d d1" by auto
  with delegation_inv_mem [OF inv] show "\<exists>d. readDelegation (dg_delegationId d1) w = Some d \<and> rv = dg_revision d \<and> next_version sha d d1"
    by auto
qed

lemma delegationOfChild_Some:
  "delegationOfChild child w = Some d \<Longrightarrow> d \<in> set (readDelegations w) \<and> dg_childSessionId d = child"
  by (auto simp: delegationOfChild_def dest: find_SomeD)

lemma call_in_Some: "call_in cid d = Some c \<Longrightarrow> c \<in> set (dg_calls d) \<and> dc_delegationCallId c = cid"
  by (auto simp: call_in_def dest: find_SomeD)

lemma readCall_Some:
  "readCall cid w = Some (d, c) \<Longrightarrow> d \<in> set (readDelegations w) \<and> c \<in> set (dg_calls d) \<and> dc_delegationCallId c = cid"
  by (auto simp: readCall_def dest: find_SomeD call_in_Some split: option.splits)

lemma acknowledge_prepares: "prepares sha (acknowledgePrepare child cid turn)"
proof (rule preparesI)
  fix w rv d1 r assume inv: "delegation_inv sha w" and a: "fst (acknowledgePrepare child cid turn w) = Inr (Write rv d1 r)"
  then obtain d c p t1 t2 where d: "delegationOfChild child w = Some d"
    and c: "c \<in> set (dg_calls d)" "dc_dispatch c = Some p" "\<not> terminal_call (dc_status c)" "rv = dg_revision d"
    and d1: "d1 = (replaceCall d (c\<lparr>dc_dispatch := Some (p\<lparr>dp_commandState := CmdAccepted\<rparr>), dc_updatedAt := t1\<rparr>))
                  \<lparr>dg_revision := dg_revision d + 1, dg_updatedAt := t2\<rparr>"
    by (auto simp: acknowledgePrepare_def Let_def split_def split: option.splits if_splits dest!: find_SomeD)
  have "next_version sha d d1" if wf: "wf_delegation sha d"
    unfolding d1
  proof (rule next_version_replace [OF wf c(1)])
    from wf c(1) have "wf_call sha (dg_resolvedDelegate d) c" by (simp add: wf_delegation_def)
    then show "wf_call sha (dg_resolvedDelegate d) (c\<lparr>dc_dispatch := Some (p\<lparr>dp_commandState := CmdAccepted\<rparr>), dc_updatedAt := t1\<rparr>)"
      using c by (auto simp: wf_call_def queued_def in_flight_def)
  qed (use c in \<open>auto simp: call_adv_def binding_of_def\<close>)
  with delegationOfChild_Some [OF d] c d1
  show "\<exists>d. d \<in> set (readDelegations w) \<and> dg_delegationId d1 = dg_delegationId d \<and> rv = dg_revision d
         \<and> (wf_delegation sha d \<longrightarrow> next_version sha d d1)"
    by (auto simp: replaceCall_def)
qed (simp add: acknowledgePrepare_def Let_def split_def tab_simps split: option.splits)

text \<open>The await list of a call is no part of what the invariant constrains.\<close>

lemma next_version_awaits:
  assumes "wf_delegation sha d" and "c \<in> set (dg_calls d)"
  shows "next_version sha d ((replaceCall d (c\<lparr>dc_awaitRequests := as, dc_updatedAt := t1\<rparr>))
           \<lparr>dg_revision := dg_revision d + 1, dg_updatedAt := t2\<rparr>)"
proof (rule next_version_replace [OF assms])
  from assms have "wf_call sha (dg_resolvedDelegate d) c" by (simp add: wf_delegation_def)
  then show "wf_call sha (dg_resolvedDelegate d) (c\<lparr>dc_awaitRequests := as, dc_updatedAt := t1\<rparr>)"
    by (auto simp: wf_call_def queued_def in_flight_def split: if_splits)
qed (simp_all add: call_adv_def)

lemma registerAwait_prepares: "prepares sha (registerAwaitPrepare parent turn req cid)"
proof (rule preparesI)
  fix w rv d1 r assume "fst (registerAwaitPrepare parent turn req cid w) = Inr (Write rv d1 r)"
  then obtain d c as t where d: "readCall cid w = Some (d, c)" "rv = dg_revision d"
    "d1 = (replaceCall d (c\<lparr>dc_awaitRequests := as, dc_updatedAt := t\<rparr>))\<lparr>dg_revision := dg_revision d + 1, dg_updatedAt := t\<rparr>"
    by (auto simp: registerAwaitPrepare_def Let_def split_def split: option.splits if_splits)
  have "dg_delegationId d1 = dg_delegationId d" by (simp add: d(3) replaceCall_def)
  moreover have "wf_delegation sha d \<longrightarrow> next_version sha d d1"
    unfolding d(3) using readCall_Some [OF d(1)] next_version_awaits by blast
  ultimately show "\<exists>d. d \<in> set (readDelegations w) \<and> dg_delegationId d1 = dg_delegationId d \<and> rv = dg_revision d
         \<and> (wf_delegation sha d \<longrightarrow> next_version sha d d1)"
    using d(2) readCall_Some [OF d(1)] by blast
qed (simp add: registerAwaitPrepare_def Let_def split_def tab_simps split: option.splits)

lemma markAwait_prepares: "prepares sha (markAwaitPrepare cid req)"
proof (rule preparesI)
  fix w rv d1 r assume "fst (markAwaitPrepare cid req w) = Inr (Write rv d1 r)"
  then obtain d c as t where d: "readCall cid w = Some (d, c)" "rv = dg_revision d"
    "d1 = (replaceCall d (c\<lparr>dc_awaitRequests := as, dc_updatedAt := t\<rparr>))\<lparr>dg_revision := dg_revision d + 1, dg_updatedAt := t\<rparr>"
    by (auto simp: markAwaitPrepare_def Let_def split_def split: option.splits if_splits)
  have "dg_delegationId d1 = dg_delegationId d" by (simp add: d(3) replaceCall_def)
  moreover have "wf_delegation sha d \<longrightarrow> next_version sha d d1"
    unfolding d(3) using readCall_Some [OF d(1)] next_version_awaits by blast
  ultimately show "\<exists>d. d \<in> set (readDelegations w) \<and> dg_delegationId d1 = dg_delegationId d \<and> rv = dg_revision d
         \<and> (wf_delegation sha d \<longrightarrow> next_version sha d d1)"
    using d(2) readCall_Some [OF d(1)] by blast
qed (simp add: markAwaitPrepare_def Let_def split_def tab_simps split: option.splits)

lemma in_flight_not_terminal: "in_flight c \<Longrightarrow> \<not> terminal_call (dc_status c)"
  by (auto simp: in_flight_def)

lemma in_flight_live: "wf_delegation sha d \<Longrightarrow> c \<in> set (dg_calls d) \<Longrightarrow> in_flight c \<Longrightarrow> live d"
  using in_flight_not_terminal [of c] unfolding wf_delegation_def by (metis (full_types))

text \<open>Completing the active call.\<close>

lemma next_version_complete:
  assumes wf: "wf_delegation sha d" and c: "c \<in> set (dg_calls d)" "dg_activeCallId d = Some (dc_delegationCallId c)"
    and res: "r \<noteq> []" "utf8_length r \<le> rd_maxResultBytes (dg_resolvedDelegate d)"
  shows "next_version sha d
    (((replaceCall d (c\<lparr>dc_status := CCompleted, dc_result := Some r, dc_resultDigest := Some (digestJson sha (JStr r)), dc_updatedAt := t1\<rparr>))
        \<lparr>dg_activeCallId := None\<rparr>)\<lparr>dg_revision := dg_revision d + 1, dg_updatedAt := t2\<rparr>)"
proof -
  let ?c = "c\<lparr>dc_status := CCompleted, dc_result := Some r, dc_resultDigest := Some (digestJson sha (JStr r)), dc_updatedAt := t1\<rparr>"
  let ?f = "\<lambda>c0. if dc_delegationCallId c0 = dc_delegationCallId ?c then ?c else c0"
  have wfc: "wf_call sha (dg_resolvedDelegate d) c" and fl: "in_flight c"
    using wf c by (auto simp: wf_delegation_def)
  have adv: "call_adv c ?c" using fl by (auto simp: call_adv_def in_flight_def)
  have wfc1: "wf_call sha (dg_resolvedDelegate d) ?c"
    using wfc fl res by (auto simp: wf_call_def in_flight_def queued_def)
  have alive: "live d" by (rule in_flight_live [OF wf c(1) fl])
  note u = call_unique [OF wf c(1)]
  have other: "\<not> in_flight c0" if "c0 \<in> set (dg_calls d)" "dc_delegationCallId c0 \<noteq> dc_delegationCallId c" for c0
    using wf that c(2) by (auto simp: wf_delegation_def)
  have run: "queue_step (queue_of d) (queue_of (((replaceCall d ?c)\<lparr>dg_activeCallId := None\<rparr>)\<lparr>dg_revision := dg_revision d + 1, dg_updatedAt := t2\<rparr>))"
    (is "queue_step _ ?q")
  proof -
    have "waiting_ids (map ?f (dg_calls d)) = waiting_ids (dg_calls d)"
    proof (rule waiting_ids_same)
      fix c0 assume "c0 \<in> set (dg_calls d)"
      from u [OF this] fl show "dc_delegationCallId (?f c0) = dc_delegationCallId c0 \<and> (dc_status (?f c0) = CQueued \<longleftrightarrow> dc_status c0 = CQueued)"
        by (auto simp: in_flight_def)
    qed
    moreover have "outcome_in (map ?f (dg_calls d)) = (outcome_in (dg_calls d))(dc_delegationCallId c \<mapsto> Answered r)"
    proof
      fix x
      have f: "outcome_in (map ?f (dg_calls d)) x = Option.bind (find (\<lambda>c. dc_delegationCallId c = x) (dg_calls d)) (\<lambda>c. outcome_of (?f c))"
        by (rule outcome_in_map) simp
      show "outcome_in (map ?f (dg_calls d)) x = ((outcome_in (dg_calls d))(dc_delegationCallId c \<mapsto> Answered r)) x"
      proof (cases "x = dc_delegationCallId c")
        case True
        have "find (\<lambda>c0. dc_delegationCallId c0 = x) (dg_calls d) = Some c"
          unfolding True using wf c(1) by (intro find_id_unique) (simp_all add: wf_delegation_def)
        with f True show ?thesis by (simp add: outcome_of_def)
      next
        case False
        with f show ?thesis
          by (cases "find (\<lambda>c. dc_delegationCallId c = x) (dg_calls d)") (auto simp: outcome_in_def dest: find_SomeD)
      qed
    qed
    ultimately have "?q = (queue_of d)\<lparr>q_running := None, q_outcomes := (q_outcomes (queue_of d))(dc_delegationCallId c \<mapsto> Answered r)\<rparr>"
      by (simp add: queue_of_def replaceCall_def live_def)
    with queue_step.answer [of "queue_of d" "dc_delegationCallId c" r] alive c(2) show ?thesis by simp
  qed
  show ?thesis
  proof (rule next_version_map [OF wf, where f = ?f])
    fix c0 assume c0: "c0 \<in> set (dg_calls d)"
    show "call_adv c0 (?f c0)" using u [OF c0] adv by auto
    show "wf_call sha (dg_resolvedDelegate d) (?f c0)" using wfc1 wf c0 by (auto simp: wf_delegation_def)
    show "queued (?f c0) \<Longrightarrow> queued c0" by (auto simp: queued_def split: if_splits)
    show "in_flight (?f c0) \<longleftrightarrow> dg_activeCallId (((replaceCall d ?c)\<lparr>dg_activeCallId := None\<rparr>)
        \<lparr>dg_revision := dg_revision d + 1, dg_updatedAt := t2\<rparr>) = Some (dc_delegationCallId c0)"
      using other [OF c0] by (simp add: in_flight_def)
  next
    show "queue_run (queue_of d) (queue_of (((replaceCall d ?c)\<lparr>dg_activeCallId := None\<rparr>)\<lparr>dg_revision := dg_revision d + 1, dg_updatedAt := t2\<rparr>))"
      by (rule queue_run_step [OF run])
  qed (use wf alive in \<open>auto simp: wf_delegation_def replaceCall_def identity_of_def live_def\<close>)
qed

lemma call_in_active:
  assumes "wf_delegation sha d" and "call_in a d = Some c" and "dg_activeCallId d = Some a"
  shows "c \<in> set (dg_calls d)" "dg_activeCallId d = Some (dc_delegationCallId c)" "in_flight c"
  using assms call_in_Some [OF assms(2)] by (auto simp: wf_delegation_def)

lemma updatePrepare_prepares:
  assumes upd_frame: "\<And>d c w. w_delegations (snd (upd d c w)) = w_delegations w \<and> w_uuid (snd (upd d c w)) = w_uuid w
        \<and> w_uuidIx w \<le> w_uuidIx (snd (upd d c w))"
    and upd: "\<And>d c w d1 r t. wf_delegation sha d \<Longrightarrow> c \<in> set (dg_calls d) \<Longrightarrow>
        dg_activeCallId d = Some (dc_delegationCallId c) \<Longrightarrow> fst (upd d c w) = Inr (d1, r) \<Longrightarrow>
        next_version sha d (d1\<lparr>dg_revision := dg_revision d + 1, dg_updatedAt := t\<rparr>)"
    and upd_id: "\<And>d c w d1 r. fst (upd d c w) = Inr (d1, r) \<Longrightarrow> dg_delegationId d1 = dg_delegationId d"
  shows "prepares sha (updatePrepare child upd)"
proof (rule preparesI)
  fix w assume "delegation_inv sha w"
  show "w_delegations (snd (updatePrepare child upd w)) = w_delegations w
      \<and> w_uuid (snd (updatePrepare child upd w)) = w_uuid w
      \<and> w_uuidIx w \<le> w_uuidIx (snd (updatePrepare child upd w))"
    using upd_frame [of _ _ w]
    by (auto simp: updatePrepare_def andThen_def Let_def split_def tab_simps split: option.splits sum.splits)
next
  fix w rv d1 r assume "fst (updatePrepare child upd w) = Inr (Write rv d1 r)"
  then obtain d a c d2 t where d: "delegationOfChild child w = Some d" "dg_activeCallId d = Some a"
    "call_in a d = Some c" "rv = dg_revision d" "fst (upd d c w) = Inr (d2, r)"
    "d1 = d2\<lparr>dg_revision := dg_revision d + 1, dg_updatedAt := t\<rparr>"
    by (auto simp: updatePrepare_def andThen_def Let_def split_def split: option.splits if_splits sum.splits
        elim!: truthyE)
  have "dg_delegationId d1 = dg_delegationId d" using upd_id [OF d(5)] by (simp add: d(6))
  moreover have "wf_delegation sha d \<longrightarrow> next_version sha d d1"
    unfolding d(6) using upd d(2,3,5) call_in_active by blast
  ultimately show "\<exists>d. d \<in> set (readDelegations w) \<and> dg_delegationId d1 = dg_delegationId d \<and> rv = dg_revision d
         \<and> (wf_delegation sha d \<longrightarrow> next_version sha d d1)"
    using d(4) delegationOfChild_Some [OF d(1)] by blast
qed

lemma tables_validate [tab_simps]:
  "snd (validateInput rd m w) = w" "snd (validateResult rd m w) = w" "snd (assertTurn turn c w) = w"
  by (simp_all add: validateInput_def validateResult_def validateMessage_def assertTurn_def)

lemma validate_Inr:
  "validateInput rd m w = (Inr u, w1) \<longleftrightarrow> w1 = w \<and> m \<noteq> [] \<and> utf8_length m \<le> rd_maxInputBytes rd"
  "validateResult rd m w = (Inr u, w1) \<longleftrightarrow> w1 = w \<and> m \<noteq> [] \<and> utf8_length m \<le> rd_maxResultBytes rd"
  by (auto simp: validateInput_def validateResult_def validateMessage_def)

lemma completeUpdate_Inr:
  "completeUpdate cfg turn res d c w = (Inr (d1, c1), w1) \<longleftrightarrow>
     map_option dp_childTurnSeq (dc_dispatch c) = Some turn \<and> res \<noteq> []
     \<and> utf8_length res \<le> rd_maxResultBytes (dg_resolvedDelegate d)
     \<and> c1 = c\<lparr>dc_status := CCompleted, dc_result := Some res, dc_resultDigest := Some (digestJson (dm_sha cfg) (JStr res)), dc_updatedAt := fst (now w)\<rparr>
     \<and> d1 = (replaceCall d c1)\<lparr>dg_activeCallId := None\<rparr> \<and> w1 = snd (now w)"
  by (auto simp: completeUpdate_def andThen_Inr assertTurn_def validate_Inr Let_def split_def)

lemma complete_prepares: "prepares (dm_sha cfg) (updatePrepare child (completeUpdate cfg turn res))"
proof (rule updatePrepare_prepares)
  fix d c w
  show "w_delegations (snd (completeUpdate cfg turn res d c w)) = w_delegations w
      \<and> w_uuid (snd (completeUpdate cfg turn res d c w)) = w_uuid w
      \<and> w_uuidIx w \<le> w_uuidIx (snd (completeUpdate cfg turn res d c w))"
    by (auto simp: completeUpdate_def andThen_def assertTurn_def validateResult_def validateMessage_def
        Let_def split_def tab_simps)
  fix d1 r assume u: "fst (completeUpdate cfg turn res d c w) = Inr (d1, r)"
  then have "completeUpdate cfg turn res d c w = (Inr (d1, r), snd (completeUpdate cfg turn res d c w))"
    by (simp add: prod_eq_iff)
  note u = this [unfolded completeUpdate_Inr]
  then show "dg_delegationId d1 = dg_delegationId d" by (simp add: replaceCall_def)
  fix t assume "wf_delegation (dm_sha cfg) d" "c \<in> set (dg_calls d)" "dg_activeCallId d = Some (dc_delegationCallId c)"
  with u next_version_complete [OF this] show "next_version (dm_sha cfg) d (d1\<lparr>dg_revision := dg_revision d + 1, dg_updatedAt := t\<rparr>)"
    by simp
qed

text \<open>Ending the delegation: every call that is not terminal fails.\<close>

lemma queue_of_fail:
  assumes wf: "wf_delegation sha d"
    and calls: "dg_calls d1 = map f (dg_calls d)"
    and f: "\<And>c. c \<in> set (dg_calls d) \<Longrightarrow> f c = c \<and> terminal_call (dc_status c)
        \<or> \<not> terminal_call (dc_status c) \<and> (\<exists>fl t. f c = c\<lparr>dc_status := CFailed, dc_failure := Some fl, dc_updatedAt := t\<rparr>)"
    and d1: "dg_status d1 = DFailed" "dg_activeCallId d1 = None"
  shows "queue_run (queue_of d) (queue_of d1)"
proof -
  have idf: "dc_delegationCallId (f c) = dc_delegationCallId c" if "c \<in> set (dg_calls d)" for c using f [OF that] by auto
  define g where "g x = the (dc_failure (f (the (find (\<lambda>c. dc_delegationCallId c = x) (dg_calls d)))))" for x
  have open_c: "\<not> terminal_call (dc_status c) \<longleftrightarrow> dc_status c = CQueued \<or> in_flight c" for c
    by (cases "dc_status c") (simp_all add: in_flight_def)
  have waits: "x \<in> set (waiting_ids (dg_calls d)) \<or> dg_activeCallId d = Some x
      \<longleftrightarrow> (\<exists>c \<in> set (dg_calls d). dc_delegationCallId c = x \<and> \<not> terminal_call (dc_status c))" for x
    unfolding open_c using wf by (auto simp: waiting_ids_def wf_delegation_def split: option.splits)
  have out: "outcome_in (map f (dg_calls d)) x
      = (if x \<in> set (waiting_ids (dg_calls d)) \<or> dg_activeCallId d = Some x then Some (Refused (g x)) else outcome_in (dg_calls d) x)" for x
  proof (cases "find (\<lambda>c. dc_delegationCallId c = x) (dg_calls d)")
    case None
    then have "\<forall>c \<in> set (dg_calls d). dc_delegationCallId c \<noteq> x" by (simp add: find_None_iff_ball)
    with None waits [of x] outcome_in_map [where cs = "dg_calls d" and f = f and x = x, OF idf] show ?thesis by (auto simp: outcome_in_def)
  next
    case (Some c)
    then have c: "c \<in> set (dg_calls d)" "dc_delegationCallId c = x" by (auto dest: find_SomeD)
    have o: "outcome_in (map f (dg_calls d)) x = outcome_of (f c)" using outcome_in_map [where cs = "dg_calls d" and f = f and x = x, OF idf] Some by simp
    have w: "x \<in> set (waiting_ids (dg_calls d)) \<or> dg_activeCallId d = Some x \<longleftrightarrow> \<not> terminal_call (dc_status c)"
    proof -
      have "c0 = c" if "c0 \<in> set (dg_calls d)" "dc_delegationCallId c0 = x" for c0
        using call_unique [OF wf c(1) that(1)] that(2) c(2) by simp
      with c have "(\<exists>c0 \<in> set (dg_calls d). dc_delegationCallId c0 = x \<and> \<not> terminal_call (dc_status c0)) \<longleftrightarrow> \<not> terminal_call (dc_status c)"
        by (metis (no_types))
      with waits [of x] show ?thesis by (rule trans)
    qed
    show ?thesis
    proof (cases "terminal_call (dc_status c)")
      case True
      with f [OF c(1)] have "f c = c" by blast
      with o w True Some show ?thesis by (simp add: outcome_in_def)
    next
      case False
      with f [OF c(1)] obtain fl t where "f c = c\<lparr>dc_status := CFailed, dc_failure := Some fl, dc_updatedAt := t\<rparr>" by blast
      with o w False Some show ?thesis by (simp add: outcome_of_def g_def)
    qed
  qed
  have none: "waiting_ids (map f (dg_calls d)) = []"
    using f by (fastforce simp: waiting_ids_def filter_empty_conv)
  show ?thesis
  proof (cases "live d")
    case True
    have "queue_of d1 = \<lparr>q_waiting = [], q_running = None,
        q_outcomes = (\<lambda>x. if x \<in> set (q_waiting (queue_of d)) \<or> q_running (queue_of d) = Some x then Some (Refused (g x)) else q_outcomes (queue_of d) x),
        q_open = False\<rparr>"
      using out none d1 calls by (auto simp: queue_of_def live_def)
    with queue_step.close [of "queue_of d" g] True show ?thesis by (simp add: queue_run_step)
  next
    case False
    then have "\<forall>c \<in> set (dg_calls d). terminal_call (dc_status c)" using wf by (simp add: wf_delegation_def)
    moreover from this have "dg_activeCallId d = None"
      using wf in_flight_not_terminal by (auto simp: wf_delegation_def split: option.splits)
    moreover from calculation(1) f have "map f (dg_calls d) = dg_calls d" by (intro map_idI) blast
    ultimately have "queue_of d1 = queue_of d" using False d1 calls by (simp add: queue_of_def live_def)
    then show ?thesis by simp
  qed
qed

lemma next_version_fail:
  assumes wf: "wf_delegation sha d"
    and calls: "dg_calls d1 = map f (dg_calls d)"
    and f: "\<And>c. c \<in> set (dg_calls d) \<Longrightarrow> f c = c \<and> terminal_call (dc_status c)
        \<or> \<not> terminal_call (dc_status c) \<and> (\<exists>fl t. f c = c\<lparr>dc_status := CFailed, dc_failure := Some fl, dc_updatedAt := t\<rparr>)"
    and d1: "identity_of d1 = identity_of d" "dg_revision d1 = dg_revision d + 1" "dg_nextCallSeq d1 = dg_nextCallSeq d"
      "dg_status d1 = DFailed" "dg_activeCallId d1 = None"
  shows "next_version sha d d1"
proof (rule next_version_map [OF wf calls _ _ d1(1-3)])
  fix c assume c: "c \<in> set (dg_calls d)"
  have w: "wf_call sha (dg_resolvedDelegate d) c" using wf c by (simp add: wf_delegation_def)
  have n: "dc_status (c\<lparr>dc_status := CFailed, dc_failure := Some fl, dc_updatedAt := t\<rparr>) = CFailed" for fl t by simp
  show "call_adv c (f c)" using f [OF c] by (auto simp: call_adv_def call_rank_le)
  show "wf_call sha (dg_resolvedDelegate d) (f c)"
  proof (cases "f c = c")
    case False
    with f [OF c] obtain fl t where e: "\<not> terminal_call (dc_status c)"
      "f c = c\<lparr>dc_status := CFailed, dc_failure := Some fl, dc_updatedAt := t\<rparr>" by blast
    then have "dc_status c \<noteq> CCompleted" by (auto simp del: terminal_call_simps simp: terminal_call_def)
    with w show ?thesis unfolding e(2) by (simp add: wf_call_def queued_def in_flight_def)
  qed (use w in simp)
  show "in_flight (f c) \<longleftrightarrow> dg_activeCallId d1 = Some (dc_delegationCallId c)"
    using f [OF c] d1(5) in_flight_not_terminal [of c] by (auto simp: in_flight_def)
  show "queued (f c) \<Longrightarrow> queued c" using f [OF c] by (auto simp: queued_def)
next
  show "if live d1 then dg_failure d1 = None \<and> dg_closeReason d1 = None
      else \<forall>c \<in> set (dg_calls d). terminal_call (dc_status (f c))"
  proof -
    have "terminal_call (dc_status (f c))" if "c \<in> set (dg_calls d)" for c
      using f [OF that] by auto
    with d1(4) show ?thesis by (simp add: live_def)
  qed
  show "queue_run (queue_of d) (queue_of d1)" by (rule queue_of_fail [OF wf calls f d1(4,5)])
qed (use d1 in \<open>cases "dg_status d", simp_all\<close>)

lemma close_prepares: "prepares sha (closePrepare did reason code msg)"
proof (rule preparesI)
  fix w rv d1 r assume inv: "delegation_inv sha w" and "fst (closePrepare did reason code msg w) = Inr (Write rv d1 r)"
  then obtain d f t where d: "readDelegation did w = Some d" "rv = dg_revision d"
    "d1 = d\<lparr>dg_status := DFailed, dg_activeCallId := None, dg_closeReason := Some reason,
            dg_failure := Some f, dg_calls := map (failOpenCall f t) (dg_calls d),
            dg_revision := dg_revision d + 1, dg_updatedAt := t\<rparr>"
    by (auto simp: closePrepare_def Let_def split_def split: option.splits if_splits)
  have "wf_delegation sha d \<longrightarrow> next_version sha d d1"
    by (intro impI next_version_fail [where f = "failOpenCall f t"])
       (auto simp: d(3) identity_of_def failOpenCall_def)
  moreover have "dg_delegationId d1 = dg_delegationId d" by (simp add: d(3))
  ultimately show "\<exists>d. d \<in> set (readDelegations w) \<and> dg_delegationId d1 = dg_delegationId d \<and> rv = dg_revision d
         \<and> (wf_delegation sha d \<longrightarrow> next_version sha d d1)"
    using d(2) delegation_inv_read(3) [OF inv d(1)] by blast
qed (simp add: closePrepare_def Let_def split_def tab_simps split: option.splits)

lemma failUpdate_Inr:
  "failUpdate turn msg d c w = (Inr (d1, u), w1) \<longleftrightarrow>
     map_option dp_childTurnSeq (dc_dispatch c) = Some turn
     \<and> (let f = \<lparr>fl_code = ''child_turn_failed'', fl_message = msg\<rparr>; t = fst (now w);
            c1 = c\<lparr>dc_status := CFailed, dc_failure := Some f, dc_updatedAt := t\<rparr>
        in d1 = d\<lparr>dg_activeCallId := None, dg_status := DFailed, dg_closeReason := Some ActiveCallFailed,
               dg_failure := Some f,
               dg_calls := map (\<lambda>c0. if dc_delegationCallId c0 = dc_delegationCallId c then c1
                                    else failQueued \<lparr>fl_code = ''delegation_closed'', fl_message = msg\<rparr> t c0) (dg_calls d)\<rparr>)
     \<and> w1 = snd (now w)"
  by (auto simp: failUpdate_def andThen_Inr assertTurn_def Let_def split_def)

lemma fail_prepares: "prepares sha (updatePrepare child (failUpdate turn msg))"
proof (rule updatePrepare_prepares)
  fix d c w
  show "w_delegations (snd (failUpdate turn msg d c w)) = w_delegations w
      \<and> w_uuid (snd (failUpdate turn msg d c w)) = w_uuid w
      \<and> w_uuidIx w \<le> w_uuidIx (snd (failUpdate turn msg d c w))"
    by (auto simp: failUpdate_def andThen_def assertTurn_def Let_def split_def tab_simps)
  fix d1 r assume u: "fst (failUpdate turn msg d c w) = Inr (d1, r)"
  then have "failUpdate turn msg d c w = (Inr (d1, r), snd (failUpdate turn msg d c w))"
    by (simp add: prod_eq_iff)
  note u = this [unfolded failUpdate_Inr Let_def]
  then show "dg_delegationId d1 = dg_delegationId d" by simp
  fix t assume wf: "wf_delegation sha d" and c: "c \<in> set (dg_calls d)" and a: "dg_activeCallId d = Some (dc_delegationCallId c)"
  let ?f = "\<lparr>fl_code = ''child_turn_failed'', fl_message = msg\<rparr>" and ?g = "\<lparr>fl_code = ''delegation_closed'', fl_message = msg\<rparr>"
  let ?F = "\<lambda>c0. if dc_delegationCallId c0 = dc_delegationCallId c
      then c\<lparr>dc_status := CFailed, dc_failure := Some ?f, dc_updatedAt := fst (now w)\<rparr> else failQueued ?g (fst (now w)) c0"
  show "next_version sha d (d1\<lparr>dg_revision := dg_revision d + 1, dg_updatedAt := t\<rparr>)"
  proof (rule next_version_fail [OF wf, where f = ?F])
    fix c0 assume c0: "c0 \<in> set (dg_calls d)"
    have "in_flight c" using wf c a by (simp add: wf_delegation_def)
    moreover have "\<not> terminal_call (dc_status c0) \<Longrightarrow> dc_delegationCallId c0 \<noteq> dc_delegationCallId c \<Longrightarrow> dc_status c0 = CQueued"
      using wf c0 a by (cases "dc_status c0") (auto simp: wf_delegation_def in_flight_def)
    ultimately show "?F c0 = c0 \<and> terminal_call (dc_status c0)
        \<or> \<not> terminal_call (dc_status c0) \<and> (\<exists>fl t. ?F c0 = c0\<lparr>dc_status := CFailed, dc_failure := Some fl, dc_updatedAt := t\<rparr>)"
      using call_unique [OF wf c c0] in_flight_not_terminal [of c] by (auto simp: failQueued_def)
  qed (use u in \<open>simp_all add: identity_of_def\<close>)
qed

text \<open>The seven operations that are one loop each.\<close>

lemmas loop_ops = acknowledgeCommand_def completeTurn_def failTurn_def updateByChildSession_def
  closeForTerminal_def registerAwait_def markAwaitResponded_def

lemmas all_prepare = acknowledge_prepares complete_prepares fail_prepares close_prepares
  registerAwait_prepares markAwait_prepares

end
