(* ===== verification/DelegationStart.thy ===== *)
theory DelegationStart
  imports DelegationInv
begin

text \<open>
  Starting a delegation call: the total correctness of \<^verbatim>\<open>openLoop\<close>, \<^verbatim>\<open>appendCall\<close> and
  \<^verbatim>\<open>startCall\<close> under interference, and the properties of the delegation manager.
\<close>

subsection \<open>Fresh ids\<close>

lemma delegation_progress_inv: "progress sha w w1 \<Longrightarrow> delegation_inv sha w1"
  by (simp add: progress_def)

lemma fresh_unused:
  assumes inv: "delegation_inv sha w" and x: "x = fst (freshId w)" and prog: "progress sha (snd (freshId w)) w2"
  shows "x \<notin> used_ids w2" and "x \<in> w_uuid w ` {w_uuidIx w..<w_uuidIx w2}" and "x \<noteq> []"
proof -
  have ix: "x = w_uuid w (w_uuidIx w)" "Suc (w_uuidIx w) \<le> w_uuidIx w2" "w_uuid w2 = w_uuid w"
    using x prog by (simp_all add: freshId_def progress_def)
  show "x \<in> w_uuid w ` {w_uuidIx w..<w_uuidIx w2}" using ix by auto
  have "x \<in> range (w_uuid w)" by (simp add: ix(1))
  moreover have "[] \<notin> range (w_uuid w)" using inv by (simp add: delegation_inv_def)
  ultimately show "x \<noteq> []" by metis
  have inj: "inj (w_uuid w)" using inv by (simp add: delegation_inv_def)
  have "used_ids w2 \<subseteq> used_ids w \<union> w_uuid w ` {Suc (w_uuidIx w)..<w_uuidIx w2}"
    using prog by (simp add: progress_def freshId_def used_ids_def readDelegations_def)
  moreover have "used_ids w \<subseteq> w_uuid w ` {..<w_uuidIx w}"
    using inv by (simp add: delegation_inv_def drawn_def)
  ultimately show "x \<notin> used_ids w2"
    using inj by (auto simp: ix(1) dest: injD dest!: subsetD)
qed

subsection \<open>Opening\<close>

lemma tables_ensureChild [tab_simps]:
  "w_delegations (snd (ensureChildSession cfg d parent w)) = w_delegations w"
  "w_uuid (snd (ensureChildSession cfg d parent w)) = w_uuid w"
  "w_uuidIx (snd (ensureChildSession cfg d parent w)) = w_uuidIx w"
  by (auto simp: ensureChildSession_def lifecycleCreate_def child_intent_def idOr_def createSession_def
      writeSession_def Let_def split_def tab_simps split: option.splits)

lemma ensureChild_progress:
  "delegation_inv sha w \<Longrightarrow> progress sha w (snd (ensureChildSession cfg d parent w))"
  by (rule progress_same) (simp_all add: tab_simps)

lemma readDelegation_same: "w_delegations w1 = w_delegations w \<Longrightarrow> readDelegation k w1 = readDelegation k w"
  by (simp add: readDelegation_def)

lemma next_version_open:
  assumes "wf_delegation sha d" and "dg_status d = CreatingChild"
  shows "next_version sha d (d\<lparr>dg_status := Open, dg_revision := dg_revision d + 1, dg_updatedAt := t\<rparr>)"
proof (rule next_version_map [where f = id, OF assms(1)])
  have "queue_of (d\<lparr>dg_status := Open, dg_revision := dg_revision d + 1, dg_updatedAt := t\<rparr>) = queue_of d"
    using assms(2) by (intro queue_of_same [where f = id]) (simp_all add: live_def)
  then show "queue_run (queue_of d) (queue_of (d\<lparr>dg_status := Open, dg_revision := dg_revision d + 1, dg_updatedAt := t\<rparr>))"
    by simp
qed (use assms in \<open>auto simp: wf_delegation_def identity_of_def live_def\<close>)

lemma openLoop_total:
  assumes "delegation_inv sha w" and "readDelegation did w = Some cur" and "rely sha env"
  shows "\<exists>out w1 d. openLoop env did cur w = Some (out, w1) \<and> progress sha w w1
    \<and> readDelegation did w1 = Some d \<and> dele_adv cur d
    \<and> (if dg_status d = Open then out = Inr d
       else out = Inl (DelegationNotOpen did (dg_status d)) \<and> dg_status d \<noteq> CreatingChild)"
  using assms
proof (induction env arbitrary: w cur)
  case Nil
  note cur = delegation_inv_read [OF Nil(1,2)]
  show ?case
  proof (cases "dg_status cur = CreatingChild")
    case False
    with Nil cur show ?thesis
      by (subst openLoop.simps) (auto intro: delegation_progress_refl)
  next
    case True
    let ?t = "fst (now w)" and ?w1 = "snd (now w)"
    let ?o = "cur\<lparr>dg_status := Open, dg_revision := dg_revision cur + 1, dg_updatedAt := ?t\<rparr>"
    obtain out w2 where cas: "compareAndSetDelegation (dg_revision cur) ?o ?w1 = (out, w2)"
      by (cases "compareAndSetDelegation (dg_revision cur) ?o ?w1")
    have nv: "dele_adv cur ?o" "dg_revision ?o = dg_revision cur + 1" "wf_delegation sha ?o"
      using next_version_open [OF cur(1) True] by (simp_all add: next_version_def)
    note step = progress_cas [OF Nil(1,2) progress_now [OF Nil(1)] nv, of "{}", OF _ _ _ cas]
    have "readDelegation did ?w1 = Some cur" using Nil(2) by (simp add: tab_simps)
    with step(2) have out: "out = Inr True" "w2 = writeDelegation ?o ?w1" by auto
    moreover have "progress sha w w2" by (rule step(1)) simp_all
    moreover have "readDelegation did w2 = Some ?o" using cur(2) by (simp add: out tab_simps)
    moreover have "openLoop [] did cur w = Some (Inr ?o, w2)"
      using True cas out(1) by (subst openLoop.simps) (simp add: Let_def split_def disturb_def)
    ultimately show ?thesis using nv(1) by (intro exI [of _ "Inr ?o"] exI [of _ w2] exI [of _ ?o]) simp
  qed
next
  case (Cons f env)
  note cur = delegation_inv_read [OF Cons(2,3)]
  show ?case
  proof (cases "dg_status cur = CreatingChild")
    case False
    with Cons cur show ?thesis
      by (subst openLoop.simps) (auto intro: delegation_progress_refl)
  next
    case True
    let ?t = "fst (now w)" and ?w1 = "f (snd (now w))"
    let ?o = "cur\<lparr>dg_status := Open, dg_revision := dg_revision cur + 1, dg_updatedAt := ?t\<rparr>"
    obtain out w2 where cas: "compareAndSetDelegation (dg_revision cur) ?o ?w1 = (out, w2)"
      by (cases "compareAndSetDelegation (dg_revision cur) ?o ?w1")
    have nv: "dele_adv cur ?o" "dg_revision ?o = dg_revision cur + 1" "wf_delegation sha ?o"
      using next_version_open [OF cur(1) True] by (simp_all add: next_version_def)
    have p1: "progress sha w (snd (now w))" by (rule progress_now [OF Cons(2)])
    from delegation_progress_inv [OF this] Cons(4) have "progress sha (snd (now w)) ?w1" by simp
    with p1 have p2: "progress sha w ?w1" by (rule delegation_progress_trans)
    note step = progress_cas [OF Cons(2,3) p2 nv, of "{}", OF _ _ _ cas]
    have prog: "progress sha w w2" by (rule step(1)) simp_all
    show ?thesis
    proof (cases "out = Inr True")
      case out: True
      with step(2) have "w2 = writeDelegation ?o ?w1" by auto
      then have "readDelegation did w2 = Some ?o" using cur(2) by (simp add: tab_simps)
      moreover have "openLoop (f # env) did cur w = Some (Inr ?o, w2)"
        using True cas out by (subst openLoop.simps) (simp add: Let_def split_def disturb_def)
      ultimately show ?thesis using prog nv(1)
        by (intro exI [of _ "Inr ?o"] exI [of _ w2] exI [of _ ?o]) simp
    next
      case False
      with step(2) have out: "out = Inr False" by auto
      from prog Cons(3) obtain latest where l: "readDelegation did w2 = Some latest" "dele_adv cur latest"
        unfolding progress_def by blast
      have inv2: "delegation_inv sha w2" using prog by (simp add: progress_def)
      have eq: "openLoop (f # env) did cur w = openLoop env did latest w2"
        using True cas out l(1) by (subst openLoop.simps) (simp add: Let_def split_def disturb_def)
      have "rely sha env" using Cons(4) by simp
      from Cons(1) [OF inv2 l(1) this] obtain o1 w3 d where
        "openLoop env did latest w2 = Some (o1, w3)" "progress sha w2 w3" "readDelegation did w3 = Some d" "dele_adv latest d"
        and res: "if dg_status d = Open then o1 = Inr d
             else o1 = Inl (DelegationNotOpen did (dg_status d)) \<and> dg_status d \<noteq> CreatingChild" by blast
      moreover from this(2) prog have "progress sha w w3" by (blast intro: delegation_progress_trans)
      moreover from calculation(4) l(2) have "dele_adv cur d" by (blast intro: dele_adv_trans)
      ultimately show ?thesis unfolding eq by blast
    qed
  qed
qed

text \<open>What a start operation returns: the delegation it left in the table, opened, or an error.\<close>

lemma ensureChildAndOpen_total:
  assumes inv: "delegation_inv sha w" and read: "readDelegation (dg_delegationId d) w = Some d0" and adv: "dele_adv d d0"
    and rely: "rely sha env"
  shows "\<exists>out w1. ensureChildAndOpen cfg env d parent w = Some (out, w1) \<and> progress sha w w1
    \<and> (\<forall>d1. out = Inr d1 \<longrightarrow> readDelegation (dg_delegationId d) w1 = Some d1 \<and> dele_adv d d1 \<and> dg_status d1 = Open)"
proof -
  obtain r w1 where e: "ensureChildSession cfg d parent w = (r, w1)" by (cases "ensureChildSession cfg d parent w")
  have same: "w_delegations w1 = w_delegations w" using tables_ensureChild(1) [of cfg d parent w] by (simp add: e)
  have p: "progress sha w w1" using ensureChild_progress [OF inv, of cfg d parent] by (simp add: e)
  show ?thesis
  proof (cases r)
    case (Inl err)
    with e p show ?thesis by (simp add: ensureChildAndOpen_def)
  next
    case (Inr u)
    have read1: "readDelegation (dg_delegationId d) w1 = Some d0" using read same by (simp add: readDelegation_def)
    have "delegation_inv sha w1" using p by (simp add: progress_def)
    from openLoop_total [OF this read1 rely] obtain out w2 d2 where
      o: "openLoop env (dg_delegationId d) d0 w1 = Some (out, w2)" "progress sha w1 w2"
      "readDelegation (dg_delegationId d) w2 = Some d2" "dele_adv d0 d2"
      "if dg_status d2 = Open then out = Inr d2
       else out = Inl (DelegationNotOpen (dg_delegationId d) (dg_status d2)) \<and> dg_status d2 \<noteq> CreatingChild" by blast
    have "ensureChildAndOpen cfg env d parent w = Some (out, w2)"
      by (simp add: ensureChildAndOpen_def e Inr read1 o(1))
    with o p adv show ?thesis by (auto intro: delegation_progress_trans dele_adv_trans split: if_splits)
  qed
qed

subsection \<open>Appending a call\<close>

definition appended :: "delegation \<Rightarrow> delegation_call \<Rightarrow> time \<Rightarrow> delegation" where
  "appended d c t = d\<lparr>dg_calls := dg_calls d @ [c], dg_nextCallSeq := dg_nextCallSeq d + 1,
                      dg_revision := dg_revision d + 1, dg_updatedAt := t\<rparr>"

lemma createCall_snd [simp]: "snd (createCall did n i h dl t w) = snd (freshId w)"
  by (simp add: createCall_def split_def Let_def)

lemma createCall_fields [simp]:
  "dc_delegationCallId (fst (createCall did n i h dl t w)) = fst (freshId w)"
  "dc_delegationId (fst (createCall did n i h dl t w)) = did"
  "dc_callSeq (fst (createCall did n i h dl t w)) = n"
  "same_caller (si_callerTurnSeq i) (si_callerToolRequestId i) (fst (createCall did n i h dl t w))"
  "dc_input (fst (createCall did n i h dl t w)) = si_input i"
  "dc_inputHash (fst (createCall did n i h dl t w)) = h"
  "dc_status (fst (createCall did n i h dl t w)) = CQueued"
  by (simp_all add: createCall_def split_def Let_def same_caller_def)

lemma createCall_wf:
  assumes "si_input i \<noteq> []" and "utf8_length (si_input i) \<le> rd_maxInputBytes rd"
  shows "wf_call sha rd (fst (createCall did n i (digestJson sha (JStr (si_input i))) (rd_deadlineMs rd) t w))"
  using assms by (simp add: createCall_def split_def Let_def wf_call_def queued_def in_flight_def)

lemma appended_next:
  assumes wf: "wf_delegation sha d" and open_: "live d"
    and c: "wf_call sha (dg_resolvedDelegate d) c" "dc_status c = CQueued" "dc_callSeq c = dg_nextCallSeq d"
      "dc_delegationId c = dg_delegationId d" "dc_delegationCallId c \<notin> dc_delegationCallId ` set (dg_calls d)"
    and room: "int (length (filter queued (dg_calls d))) < rd_maxQueuedCalls (dg_resolvedDelegate d)"
  shows "dele_adv d (appended d c t)" and "dg_revision (appended d c t) = dg_revision d + 1"
    and "wf_delegation sha (appended d c t)"
    and "dc_delegationCallId ` set (dg_calls (appended d c t)) \<subseteq> dc_delegationCallId ` set (dg_calls d) \<union> {dc_delegationCallId c}"
proof -
  have na: "dg_activeCallId d \<noteq> Some (dc_delegationCallId c)"
    using wf c(5) by (auto simp: wf_delegation_def)
  have fresh: "dc_delegationCallId c0 \<noteq> dc_delegationCallId c" if "c0 \<in> set (dg_calls d)" for c0
    using c(5) that by (metis imageI)
  have w: "dc_delegationCallId c \<notin> set (waiting_ids (dg_calls d))"
  proof -
    have "set (waiting_ids (dg_calls d)) \<subseteq> dc_delegationCallId ` set (dg_calls d)" by (auto simp: waiting_ids_def)
    with c(5) show ?thesis by blast
  qed
  have n: "find (\<lambda>c0. dc_delegationCallId c0 = dc_delegationCallId c) (dg_calls d) = None"
    using fresh by (simp add: find_None_iff_ball)
  have "queue_of (appended d c t) = (queue_of d)\<lparr>q_waiting := q_waiting (queue_of d) @ [dc_delegationCallId c]\<rparr>"
    using c(2) by (auto simp: queue_of_def appended_def waiting_ids_def live_def outcome_in_queued)
  moreover have "outcome_in (dg_calls d) (dc_delegationCallId c) = None" by (simp add: outcome_in_def n)
  ultimately have "queue_step (queue_of d) (queue_of (appended d c t))"
    using queue_step.arrive [of "queue_of d" "dc_delegationCallId c"] open_ na w by simp
  then show "dele_adv d (appended d c t)"
    by (simp add: dele_adv_def appended_def identity_of_def nth_append queue_run_step)
  show "dg_revision (appended d c t) = dg_revision d + 1" by (simp add: appended_def)
  show "dc_delegationCallId ` set (dg_calls (appended d c t)) \<subseteq> dc_delegationCallId ` set (dg_calls d) \<union> {dc_delegationCallId c}"
    by (auto simp: appended_def)
  have n: "1 \<le> dg_nextCallSeq d" "map dc_callSeq (dg_calls d) = [1..dg_nextCallSeq d - 1]"
    using wf by (simp_all add: wf_delegation_def)
  from upto_rec2 [OF n(1)] n(2) have sq: "map dc_callSeq (dg_calls d @ [c]) = [1..dg_nextCallSeq d]" by (simp add: c)
  have nf: "\<not> in_flight c" "queued c" using c(2) by (simp_all add: in_flight_def queued_def)
  show "wf_delegation sha (appended d c t)"
    unfolding wf_delegation_def
  proof (intro conjI ballI)
    show "map dc_callSeq (dg_calls (appended d c t)) = [1..dg_nextCallSeq (appended d c t) - 1]"
      using sq by (simp add: appended_def)
    fix x assume "x \<in> set (dg_calls (appended d c t))"
    then have x: "x = c \<or> x \<in> set (dg_calls d)" by (auto simp: appended_def)
    show "in_flight x = (dg_activeCallId (appended d c t) = Some (dc_delegationCallId x))"
      using x wf nf na by (auto simp: appended_def wf_delegation_def)
    show "wf_call sha (dg_resolvedDelegate (appended d c t)) x" "dc_delegationId x = dg_delegationId (appended d c t)"
      using x wf c by (auto simp: appended_def wf_delegation_def)
  next
    show "if live (appended d c t) then dg_failure (appended d c t) = None \<and> dg_closeReason (appended d c t) = None
        else \<forall>x \<in> set (dg_calls (appended d c t)). terminal_call (dc_status x)"
      using wf open_ by (simp add: wf_delegation_def live_def appended_def)
    show "int (length (filter queued (dg_calls (appended d c t)))) \<le> rd_maxQueuedCalls (dg_resolvedDelegate (appended d c t))"
      using room nf by (simp add: appended_def)
    show "case dg_activeCallId (appended d c t) of None \<Rightarrow> True
        | Some a \<Rightarrow> a \<in> dc_delegationCallId ` set (dg_calls (appended d c t))"
      using wf by (auto simp: appended_def wf_delegation_def split: option.splits)
  qed (use wf c n in \<open>simp_all add: appended_def wf_delegation_def\<close>)
qed

text \<open>One attempt of an append, with what other tasks do before its write.\<close>

lemma append_attempt:
  assumes inv: "delegation_inv sha w" and read: "readDelegation (dg_delegationId d) w = Some d" and rely: "rely sha env"
    and st: "dg_status d = Open \<or> dg_status d = CreatingChild"
    and input: "si_input i \<noteq> []" "utf8_length (si_input i) \<le> rd_maxInputBytes (dg_resolvedDelegate d)"
    and room: "int (length (filter (\<lambda>c. dc_status c = CQueued) (dg_calls d))) < rd_maxQueuedCalls (dg_resolvedDelegate d)"
    and t: "t = fst (now w)"
    and c: "c = fst (createCall (dg_delegationId d) (dg_nextCallSeq d) i (digestJson sha (JStr (si_input i)))
              (rd_deadlineMs (dg_resolvedDelegate d)) t (snd (now w)))"
    and cas: "compareAndSetDelegation (dg_revision d) (appended d c t) (disturb env (snd (freshId (snd (now w))))) = (out, w3)"
  shows "progress sha w w3" and "dele_adv d (appended d c t)"
    and "(out = Inr True \<and> readDelegation (dg_delegationId d) w3 = Some (appended d c t)) \<or> (out = Inr False \<and> env \<noteq> [])"
proof -
  let ?w1 = "snd (now w)" and ?w2 = "snd (freshId (snd (now w)))"
  let ?id = "dc_delegationCallId c" and ?w3 = "disturb env (snd (freshId (snd (now w))))"
  note d = delegation_inv_read [OF inv read]
  have p1: "progress sha w ?w1" by (rule progress_now [OF inv])
  note inv1 = delegation_progress_inv [OF p1]
  have p2: "progress sha ?w1 ?w2" by (rule progress_freshId [OF inv1])
  note inv2 = delegation_progress_inv [OF p2]
  have p3: "progress sha ?w2 ?w3" by (rule disturb_progress [OF rely inv2])
  have prog: "progress sha w ?w3" by (rule delegation_progress_trans [OF p1 delegation_progress_trans [OF p2 p3]])
  have id: "?id = fst (freshId ?w1)" by (simp add: c)
  note new = fresh_unused [OF inv1 id p3]
  have ids_d: "dc_delegationCallId ` set (dg_calls d) \<subseteq> used_ids w" using d(3) by (auto simp: used_ids_def)
  have "?id \<notin> used_ids ?w2" by (rule fresh_unused [OF inv1 id delegation_progress_refl [OF inv2]])
  then have "?id \<notin> used_ids w" by (simp add: used_ids_def readDelegations_def tab_simps)
  with ids_d have nid: "?id \<notin> dc_delegationCallId ` set (dg_calls d)" by blast
  have al: "live d" using st by (auto simp: live_def)
  have rm: "int (length (filter queued (dg_calls d))) < rd_maxQueuedCalls (dg_resolvedDelegate d)"
    using room unfolding queued_def .
  have wc: "wf_call sha (dg_resolvedDelegate d) c" unfolding c by (rule createCall_wf [OF input])
  note nv = appended_next [OF d(1) al wc _ _ _ nid rm, where t = t]
  have cf: "dc_status c = CQueued" "dc_callSeq c = dg_nextCallSeq d" "dc_delegationId c = dg_delegationId d"
    by (simp_all add: c)
  note nv = nv [OF cf]
  show "dele_adv d (appended d c t)" by (rule nv)
  have N: "{?id} \<subseteq> w_uuid w ` {w_uuidIx w..<w_uuidIx ?w3}" "{?id} \<inter> used_ids ?w3 = {}"
    using new by (simp_all add: tab_simps)
  show "progress sha w w3" by (rule progress_cas(1) [OF inv read prog nv N cas])
  have id2: "dg_delegationId (appended d c t) = dg_delegationId d" by (simp add: appended_def)
  from progress_cas(2) [OF inv read prog nv N cas]
  show "(out = Inr True \<and> readDelegation (dg_delegationId d) w3 = Some (appended d c t)) \<or> (out = Inr False \<and> env \<noteq> [])"
  proof
    assume "out = Inr False \<and> readDelegation (dg_delegationId d) ?w3 \<noteq> Some d \<and> w3 = ?w3"
    moreover have "env = [] \<Longrightarrow> readDelegation (dg_delegationId d) ?w3 = Some d"
      using read by (simp add: disturb_def tab_simps)
    ultimately show ?thesis by auto
  qed (simp add: tab_simps id2)
qed

text \<open>
  What a start operation promises when it returns \<open>(d1, c)\<close>: \<open>d1\<close> is the stored delegation, and it
  holds the call \<open>c\<close>, which was made for the caller's turn and request with the caller's input.
\<close>

definition started :: "start_input \<Rightarrow> string \<Rightarrow> string \<Rightarrow> world \<Rightarrow> delegation \<Rightarrow> delegation_call \<Rightarrow> bool" where
  "started i hash did w d1 c =
     (readDelegation did w = Some d1 \<and> (\<exists>c1 \<in> set (dg_calls d1). call_adv c c1)
      \<and> same_caller (si_callerTurnSeq i) (si_callerToolRequestId i) c \<and> dc_inputHash c = hash)"

definition start_result ::
  "(string \<Rightarrow> string) \<Rightarrow> start_input \<Rightarrow> string \<Rightarrow> delegation \<Rightarrow> world \<Rightarrow> ((error + delegation \<times> delegation_call) \<times> world) option \<Rightarrow> bool" where
  "start_result sha i hash d w r =
     (\<exists>out w1. r = Some (out, w1) \<and> progress sha w w1
        \<and> (\<forall>d1 c. out = Inr (d1, c) \<longrightarrow> started i hash (dg_delegationId d) w1 d1 c \<and> dele_adv d d1))"

lemma call_adv_mem: "c \<in> set cs \<Longrightarrow> \<exists>c1 \<in> set cs. call_adv c c1"
  using call_adv_refl by blast

lemma start_result_error: "progress sha w w1 \<Longrightarrow> start_result sha i hash d w (Some (Inl e, w1))"
  by (auto simp: start_result_def)

lemma start_result_trans:
  "progress sha w w1 \<Longrightarrow> dele_adv d d1 \<Longrightarrow> start_result sha i hash d1 w1 r \<Longrightarrow> start_result sha i hash d w r"
  unfolding start_result_def using dele_adv_key [of d d1] by (metis dele_adv_trans delegation_progress_trans)

lemma withCall_opened:
  assumes inv: "delegation_inv sha w" and read: "readDelegation (dg_delegationId d) w = Some d0" and adv: "dele_adv d d0"
    and rely: "rely sha env"
    and c: "\<exists>c1 \<in> set (dg_calls d). call_adv c c1" "same_caller (si_callerTurnSeq i) (si_callerToolRequestId i) c" "dc_inputHash c = hash"
  shows "start_result sha i hash d w (withCall c (ensureChildAndOpen cfg env d parent w))"
proof -
  from ensureChildAndOpen_total [OF inv read adv rely, of cfg parent] obtain out w1 where
    o: "ensureChildAndOpen cfg env d parent w = Some (out, w1)" "progress sha w w1"
    "\<forall>d1. out = Inr d1 \<longrightarrow> readDelegation (dg_delegationId d) w1 = Some d1 \<and> dele_adv d d1 \<and> dg_status d1 = Open" by blast
  show ?thesis
  proof (cases out)
    case (Inl e)
    with o show ?thesis by (simp add: withCall_def start_result_error)
  next
    case (Inr d1)
    with o have d1: "readDelegation (dg_delegationId d) w1 = Some d1" "dele_adv d d1" by simp_all
    from c(1) obtain c1 where c1: "c1 \<in> set (dg_calls d)" "call_adv c c1" by blast
    from dele_adv_call [OF d1(2) c1(1)] obtain c2 where "c2 \<in> set (dg_calls d1)" "call_adv c1 c2" by blast
    with c1(2) have "\<exists>c2 \<in> set (dg_calls d1). call_adv c c2" by (blast intro: call_adv_trans)
    with d1 c o(2) show ?thesis
      by (auto simp: o(1) Inr withCall_def start_result_def started_def)
  qed
qed

lemma appendCall_won:
  assumes "dg_status d = Open \<or> dg_status d = CreatingChild"
    and "si_input i \<noteq> []" "utf8_length (si_input i) \<le> rd_maxInputBytes (dg_resolvedDelegate d)"
    and "int (length (filter (\<lambda>c. dc_status c = CQueued) (dg_calls d))) < rd_maxQueuedCalls (dg_resolvedDelegate d)"
    and "t = fst (now w)"
    and "c = fst (createCall (dg_delegationId d) (dg_nextCallSeq d) i hash (rd_deadlineMs (dg_resolvedDelegate d)) t (snd (now w)))"
    and "compareAndSetDelegation (dg_revision d) (appended d c t) (disturb env (snd (freshId (snd (now w))))) = (out, w3)"
  shows "out = Inr True \<Longrightarrow> appendCall cfg opening env i hash d w =
      (if dg_status d = CreatingChild
       then withCall c (ensureChildAndOpen cfg opening (appended d c t) (si_parentSession i) w3)
       else Some (Inr (appended d c t, c), w3))"
    and "out = Inr False \<Longrightarrow> env = f # rest \<Longrightarrow> readDelegation (dg_delegationId d) w3 = Some latest \<Longrightarrow>
      appendCall cfg opening env i hash d w =
        (case find (same_caller (si_callerTurnSeq i) (si_callerToolRequestId i)) (dg_calls latest) of
           Some retry \<Rightarrow> Some (if dc_inputHash retry \<noteq> hash then Inl IdempotencyKeyReused else Inr (latest, retry), w3)
         | None \<Rightarrow> appendCall cfg opening rest i hash latest w3)"
proof -
  have v: "validateInput (dg_resolvedDelegate d) (si_input i) w = (Inr (), w)"
    using assms(2,3) by (simp add: validate_Inr)
  have pair: "createCall (dg_delegationId d) (dg_nextCallSeq d) i hash (rd_deadlineMs (dg_resolvedDelegate d)) t (snd (now w))
      = (c, snd (freshId (snd (now w))))"
    using assms(6) by (simp add: prod_eq_iff)
  note cas = assms(7) [unfolded appended_def]
  have room: "\<not> rd_maxQueuedCalls (dg_resolvedDelegate d) \<le> int (length (filter (\<lambda>c. dc_status c = CQueued) (dg_calls d)))"
    using assms(4) by simp
  have st: "\<not> (dg_status d \<noteq> Open \<and> dg_status d \<noteq> CreatingChild)" using assms(1) by blast
  show "appendCall cfg opening env i hash d w =
      (if dg_status d = CreatingChild
       then withCall c (ensureChildAndOpen cfg opening (appended d c t) (si_parentSession i) w3)
       else Some (Inr (appended d c t, c), w3))" if "out = Inr True"
    using that st v room pair cas assms(5)
    by (subst appendCall.simps) (auto simp: Let_def split_def appended_def)
  show "appendCall cfg opening env i hash d w =
        (case find (same_caller (si_callerTurnSeq i) (si_callerToolRequestId i)) (dg_calls latest) of
           Some retry \<Rightarrow> Some (if dc_inputHash retry \<noteq> hash then Inl IdempotencyKeyReused else Inr (latest, retry), w3)
         | None \<Rightarrow> appendCall cfg opening rest i hash latest w3)"
    if "out = Inr False" "env = f # rest" "readDelegation (dg_delegationId d) w3 = Some latest"
    using that st v room pair cas assms(5)
    by (subst appendCall.simps) (auto simp: Let_def split_def appended_def split: option.split)
qed

lemma appendCall_total:
  assumes "delegation_inv sha w" and "readDelegation (dg_delegationId d) w = Some d"
    and "rely sha opening" and "rely sha env" and hash: "hash = digestJson sha (JStr (si_input i))"
  shows "start_result sha i hash d w (appendCall cfg opening env i hash d w)"
  using assms(1-4)
proof (induction env arbitrary: w d rule: measure_induct_rule [where f = length])
  case (less env)
  note inv = less(2) and read = less(3)
  have refl: "progress sha w w" by (rule delegation_progress_refl [OF inv])
  show ?case
  proof (cases "(dg_status d = Open \<or> dg_status d = CreatingChild) \<and> si_input i \<noteq> []
      \<and> utf8_length (si_input i) \<le> rd_maxInputBytes (dg_resolvedDelegate d)
      \<and> int (length (filter (\<lambda>c. dc_status c = CQueued) (dg_calls d))) < rd_maxQueuedCalls (dg_resolvedDelegate d)")
    case False
    then have "\<exists>e. appendCall cfg opening env i hash d w = Some (Inl e, w)"
      by (subst appendCall.simps) (auto simp: validateInput_def validateMessage_def)
    with start_result_error [OF refl] show ?thesis by metis
  next
    case True
    define t where "t = fst (now w)"
    define c where "c = fst (createCall (dg_delegationId d) (dg_nextCallSeq d) i hash (rd_deadlineMs (dg_resolvedDelegate d)) t (snd (now w)))"
    obtain out w3 where cas: "compareAndSetDelegation (dg_revision d) (appended d c t) (disturb env (snd (freshId (snd (now w))))) = (out, w3)"
      by (cases "compareAndSetDelegation (dg_revision d) (appended d c t) (disturb env (snd (freshId (snd (now w)))))")
    from True have st: "dg_status d = Open \<or> dg_status d = CreatingChild"
      and input: "si_input i \<noteq> []" "utf8_length (si_input i) \<le> rd_maxInputBytes (dg_resolvedDelegate d)"
      and room: "int (length (filter (\<lambda>c. dc_status c = CQueued) (dg_calls d))) < rd_maxQueuedCalls (dg_resolvedDelegate d)"
      by blast+
    have att: "progress sha w w3" "dele_adv d (appended d c t)"
      "(out = Inr True \<and> readDelegation (dg_delegationId d) w3 = Some (appended d c t)) \<or> (out = Inr False \<and> env \<noteq> [])"
      using append_attempt [OF inv read less(5) st input room t_def c_def [unfolded hash] cas] by blast+
    note inv3 = delegation_progress_inv [OF att(1)]
    note run = appendCall_won [OF st input room t_def c_def cas]
    have cs: "same_caller (si_callerTurnSeq i) (si_callerToolRequestId i) c" "dc_inputHash c = hash" by (simp_all add: c_def)
    have mem: "c \<in> set (dg_calls (appended d c t))" by (simp add: appended_def)
    have id: "dg_delegationId (appended d c t) = dg_delegationId d" by (simp add: appended_def)
    show ?thesis
    proof (cases "out = Inr True")
      case won: True
      with att(3) have r3: "readDelegation (dg_delegationId (appended d c t)) w3 = Some (appended d c t)" by (simp add: id)
      show ?thesis
      proof (cases "dg_status d = CreatingChild")
        case True
        have "start_result sha i hash (appended d c t) w3
            (withCall c (ensureChildAndOpen cfg opening (appended d c t) (si_parentSession i) w3))"
          using cs by (intro withCall_opened [OF inv3 r3 dele_adv_refl less(4)] call_adv_mem [OF mem])
        from start_result_trans [OF att(1,2) this] run(1) [OF won] True show ?thesis by simp
      next
        case False
        from call_adv_mem [OF mem] cs r3 have "started i hash (dg_delegationId d) w3 (appended d c t) c"
          by (simp add: started_def id)
        with att run(1) [OF won] False show ?thesis by (simp add: start_result_def)
      qed
    next
      case False
      with att(3) obtain f rest where lost: "out = Inr False" "env = f # rest" by (cases env) auto
      from att(1) read obtain latest where l: "readDelegation (dg_delegationId d) w3 = Some latest" "dele_adv d latest"
        unfolding progress_def by blast
      have lid: "dg_delegationId latest = dg_delegationId d" by (rule delegation_inv_read(2) [OF inv3 l(1)])
      note run2 = run(2) [OF lost l(1)]
      show ?thesis
      proof (cases "find (same_caller (si_callerTurnSeq i) (si_callerToolRequestId i)) (dg_calls latest)")
        case None
        have "start_result sha i hash latest w3 (appendCall cfg opening rest i hash latest w3)"
          using less(5) lost(2) l(1) lid by (intro less(1) inv3 less(4)) auto
        from start_result_trans [OF att(1) l(2) this] run2 None show ?thesis by simp
      next
        case (Some retry)
        from find_SomeD [OF this] have "same_caller (si_callerTurnSeq i) (si_callerToolRequestId i) retry" "retry \<in> set (dg_calls latest)"
          by auto
        then have "dc_inputHash retry = hash \<longrightarrow> started i hash (dg_delegationId d) w3 latest retry"
          using l(1) call_adv_mem by (simp add: started_def)
        with att(1) l(2) run2 Some show ?thesis by (auto simp: start_result_def)
      qed
    qed
  qed
qed

subsection \<open>Creating a delegation\<close>

definition wf_config :: "delegation_config \<Rightarrow> bool" where
  "wf_config cfg = (\<forall>i rd. tget (dm_registry cfg) i = Some rd \<longrightarrow> rd_id rd = i \<and> 1 \<le> rd_maxQueuedCalls rd)"

lemma progress_create:
  assumes inv: "delegation_inv sha w" and prog: "progress sha w w5" and wf: "wf_delegation sha d" and al: "live d"
    and N: "{dg_delegationId d, dg_childSessionId d} \<union> dc_delegationCallId ` set (dg_calls d) \<subseteq> w_uuid w ` {w_uuidIx w..<w_uuidIx w5}"
      "({dg_delegationId d, dg_childSessionId d} \<union> dc_delegationCallId ` set (dg_calls d)) \<inter> used_ids w5 = {}"
    and create: "createDelegation d w5 = ((d1, created), w6)"
  shows "progress sha w w6" and "readDelegation (dg_delegationId d1) w6 = Some d1"
    and "if created then d1 = d else live d1 \<and> relation_key d1 = relation_key d"
proof -
  note inv5 = delegation_progress_inv [OF prog]
  have t5: "wf_delegations w5" "one_live_relation w5" using inv5 by (simp_all add: delegation_inv_def)
  have nid: "readDelegation (dg_delegationId d) w5 = None"
  proof (rule ccontr)
    assume "readDelegation (dg_delegationId d) w5 \<noteq> None"
    then obtain d0 where "readDelegation (dg_delegationId d) w5 = Some d0" by blast
    with delegation_inv_read [OF inv5 this] have "dg_delegationId d \<in> used_ids w5"
      unfolding used_ids_def by (metis (no_types, lifting) UN_I UnI1 insertI1)
    with N(2) show False by blast
  qed
  show res: "if created then d1 = d else live d1 \<and> relation_key d1 = relation_key d"
    using create nid by (auto simp: createDelegation_def relation_key_def dest: readDelegationByKey_Some split: option.splits)
  show "readDelegation (dg_delegationId d1) w6 = Some d1"
    using create nid readDelegations_iff [OF t5(1)]
    by (auto simp: createDelegation_def tab_simps dest!: readDelegationByKey_Some split: option.splits)
  show "progress sha w w6"
  proof (cases created)
    case False
    with create have "w6 = w5" by (auto simp: createDelegation_def split: option.splits)
    with prog show ?thesis by simp
  next
    case True
    with create have w6: "w6 = writeDelegation d w5" by (auto simp: createDelegation_def split: option.splits)
    note put = set_readDelegations_put [OF inv5, of d, folded w6]
    have wf6: "wf_delegations w6" "one_live_relation w6"
      using wf_delegations_write [OF t5(1)] one_live_relation_create [OF t5, of d] create by (simp_all add: w6)
    have used: "used_ids w6 \<subseteq> used_ids w5 \<union> ({dg_delegationId d, dg_childSessionId d} \<union> dc_delegationCallId ` set (dg_calls d))"
    proof
      fix x assume "x \<in> used_ids w6"
      then obtain d2 where d2: "d2 \<in> set (readDelegations w6)"
        "x \<in> {dg_delegationId d2, dg_childSessionId d2} \<union> dc_delegationCallId ` set (dg_calls d2)"
        unfolding used_ids_def by blast
      from d2(1) put have "d2 = d \<or> d2 \<in> set (readDelegations w5)" by auto
      with d2(2) show "x \<in> used_ids w5 \<union> ({dg_delegationId d, dg_childSessionId d} \<union> dc_delegationCallId ` set (dg_calls d))"
        unfolding used_ids_def by blast
    qed
    have sep: "separate d2 d" "separate d d2" if "d2 \<in> set (readDelegations w5)" for d2
    proof -
      from that have "dg_childSessionId d2 \<in> used_ids w5" "dc_delegationCallId ` set (dg_calls d2) \<subseteq> used_ids w5"
        by (auto simp: used_ids_def)
      with N(2) have "dg_childSessionId d2 \<noteq> dg_childSessionId d"
        "dc_delegationCallId ` set (dg_calls d2) \<inter> dc_delegationCallId ` set (dg_calls d) = {}" by blast+
      then show "separate d2 d" "separate d d2"
        unfolding separate_def Int_commute [of "dc_delegationCallId ` set (dg_calls d)"] by auto
    qed
    have ix: "w_uuid w6 = w_uuid w5" "w_uuidIx w6 = w_uuidIx w5" by (simp_all add: w6 writeDelegation_def)
    then have dr: "drawn w6 = drawn w5" by (simp add: drawn_def)
    have Nd: "{dg_delegationId d, dg_childSessionId d} \<union> dc_delegationCallId ` set (dg_calls d) \<subseteq> drawn w5"
      using N(1) prog by (force simp: drawn_def progress_def)
    have "used_ids w5 \<subseteq> drawn w5" using inv5 by (simp add: delegation_inv_def)
    with used Nd have "used_ids w6 \<subseteq> drawn w6" unfolding dr by blast
    moreover have "\<forall>d2 \<in> set (readDelegations w6). \<forall>d3 \<in> set (readDelegations w6). d2 \<noteq> d3 \<longrightarrow> separate d2 d3"
      using put sep inv5 by (auto simp: delegation_inv_def)
    moreover have "\<forall>d2 \<in> set (readDelegations w6). wf_delegation sha d2"
      using put wf inv5 by (auto simp: delegation_inv_def)
    ultimately have inv6: "delegation_inv sha w6" using inv5 wf6 ix by (simp add: delegation_inv_def)
    have "used_ids w6 \<subseteq> used_ids w \<union> w_uuid w ` {w_uuidIx w..<w_uuidIx w5}"
      using used N(1) prog unfolding progress_def by blast
    moreover have "\<exists>d2. readDelegation k w6 = Some d2 \<and> dele_adv d0 d2" if "readDelegation k w = Some d0" for k d0
    proof -
      from prog that obtain d2 where d2: "readDelegation k w5 = Some d2" "dele_adv d0 d2" unfolding progress_def by blast
      with nid have "k \<noteq> dg_delegationId d" by auto
      with d2 show ?thesis by (auto simp: w6 tab_simps)
    qed
    ultimately show ?thesis using inv6 ix prog by (simp add: progress_def)
  qed
qed

lemma newDelegation_effect:
  assumes inv: "delegation_inv sha w" and race: "\<And>v. delegation_inv sha v \<Longrightarrow> progress sha v (racing v)"
    and input: "si_input i \<noteq> []" "utf8_length (si_input i) \<le> rd_maxInputBytes rd" and q: "1 \<le> rd_maxQueuedCalls rd"
    and new: "newDelegation cfg i rd callee (digestJson sha (JStr (si_input i))) w = ((d, c), w4)"
    and create: "createDelegation d (racing w4) = ((d1, created), w6)"
  shows "progress sha w w6" and "readDelegation (dg_delegationId d1) w6 = Some d1"
    and "if created then d1 = d else live d1 \<and> relation_key d1 = relation_key d"
    and "c \<in> set (dg_calls d)" "same_caller (si_callerTurnSeq i) (si_callerToolRequestId i) c"
    and "dc_inputHash c = digestJson sha (JStr (si_input i))" "dg_resolvedDelegate d = rd"
    and "dg_parentSessionId d = ses_sessionId (si_parentSession i)"
proof -
  let ?w1 = "snd (now w)" let ?w2 = "snd (freshId ?w1)" let ?w3 = "snd (freshId ?w2)"
  define cc where "cc = fst (createCall (fst (freshId ?w1)) 1 i (digestJson sha (JStr (si_input i))) (rd_deadlineMs rd) (fst (now w)) ?w2)"
  have w4: "w4 = snd (freshId ?w3)" and c: "c = cc"
    and d: "dg_delegationId d = fst (freshId ?w1)" "dg_childSessionId d = fst (freshId ?w3)" "dg_calls d = [cc]"
      "dg_resolvedDelegate d = rd" "dg_parentSessionId d = ses_sessionId (si_parentSession i)"
      "dg_status d = CreatingChild" "dg_activeCallId d = None" "dg_nextCallSeq d = 2" "dg_closeReason d = None" "dg_failure d = None"
    using new by (auto simp: newDelegation_def Let_def split_def cc_def)
  have p1: "progress sha w ?w1" by (rule progress_now [OF inv])
  note i1 = delegation_progress_inv [OF p1]
  have p2: "progress sha ?w1 ?w2" by (rule progress_freshId [OF i1])
  note i2 = delegation_progress_inv [OF p2]
  have p3: "progress sha ?w2 ?w3" by (rule progress_freshId [OF i2])
  note i3 = delegation_progress_inv [OF p3]
  have p4: "progress sha ?w3 w4" unfolding w4 by (rule progress_freshId [OF i3])
  have p5: "progress sha w4 (racing w4)" by (rule race [OF delegation_progress_inv [OF p4]])
  have q3: "progress sha ?w3 (racing w4)" by (rule delegation_progress_trans [OF p4 p5])
  have q2: "progress sha ?w2 (racing w4)" by (rule delegation_progress_trans [OF p3 q3])
  have q1: "progress sha ?w1 (racing w4)" by (rule delegation_progress_trans [OF p2 q2])
  have prog: "progress sha w (racing w4)" by (rule delegation_progress_trans [OF p1 q1])
  note f1 = fresh_unused [OF i1 refl q2]
  note f2 = fresh_unused [OF i2 refl q3]
  note f3 = fresh_unused [OF i3 refl p5 [unfolded w4], folded w4]
  have cid: "dc_delegationCallId cc = fst (freshId ?w2)" by (simp add: cc_def)
  have cf: "dc_status cc = CQueued" "dc_callSeq cc = 1" "dc_delegationId cc = dg_delegationId d"
    by (simp_all add: cc_def d)
  have wc: "wf_call sha rd cc" unfolding cc_def by (rule createCall_wf [OF input])
  have wf: "wf_delegation sha d"
    using wc cf q by (simp add: wf_delegation_def d in_flight_def live_def queued_def)
  have al: "live d" by (simp add: live_def d)
  have idx: "w_uuid ?w1 = w_uuid w" "w_uuid ?w2 = w_uuid w" "w_uuid ?w3 = w_uuid w"
    "w_uuidIx ?w1 = w_uuidIx w" "w_uuidIx ?w2 = w_uuidIx w + 1" "w_uuidIx ?w3 = w_uuidIx w + 2"
    by (simp_all add: now_def freshId_def)
  have mono: "w_uuid w ` {w_uuidIx w + n..<m} \<subseteq> w_uuid w ` {w_uuidIx w..<m}" for n m
    by (intro image_mono) auto
  have N1: "{dg_delegationId d, dg_childSessionId d} \<union> dc_delegationCallId ` set (dg_calls d) \<subseteq> w_uuid w ` {w_uuidIx w..<w_uuidIx (racing w4)}"
  proof -
    have "fst (freshId ?w1) \<in> w_uuid w ` {w_uuidIx w..<w_uuidIx (racing w4)}" using f1(2) by (simp add: idx)
    moreover have "fst (freshId ?w2) \<in> w_uuid w ` {w_uuidIx w..<w_uuidIx (racing w4)}"
      by (rule subsetD [OF mono f2(2) [unfolded idx]])
    moreover have "fst (freshId ?w3) \<in> w_uuid w ` {w_uuidIx w..<w_uuidIx (racing w4)}"
      by (rule subsetD [OF mono f3(2) [unfolded idx]])
    ultimately show ?thesis by (simp add: d cid)
  qed
  have N2: "({dg_delegationId d, dg_childSessionId d} \<union> dc_delegationCallId ` set (dg_calls d)) \<inter> used_ids (racing w4) = {}"
    using f1(1) f2(1) f3(1) unfolding d by (simp add: cid)
  note pc = progress_create [OF inv prog wf al N1 N2 create]
  show "progress sha w w6" "readDelegation (dg_delegationId d1) w6 = Some d1"
    "if created then d1 = d else live d1 \<and> relation_key d1 = relation_key d" by (rule pc)+
  show "c \<in> set (dg_calls d)" "same_caller (si_callerTurnSeq i) (si_callerToolRequestId i) c"
    "dc_inputHash c = digestJson sha (JStr (si_input i))" "dg_resolvedDelegate d = rd"
    "dg_parentSessionId d = ses_sessionId (si_parentSession i)"
    by (simp_all add: c d) (simp_all add: cc_def)
qed

subsection \<open>Starting a call\<close>

text \<open>What \<^verbatim>\<open>startCall\<close> achieves: it returns, by progress, and never a delegation of someone else.\<close>

definition start_call_result ::
  "delegation_config \<Rightarrow> start_input \<Rightarrow> world \<Rightarrow> ((error + delegation \<times> delegation_call) \<times> world) option \<Rightarrow> bool" where
  "start_call_result cfg i w r =
     (\<exists>out w1. r = Some (out, w1) \<and> progress (dm_sha cfg) w w1
        \<and> (\<forall>d c. out = Inr (d, c) \<longrightarrow>
             started i (inputHash cfg (si_input i)) (dg_delegationId d) w1 d c
             \<and> dg_parentSessionId d = ses_sessionId (si_parentSession i)
             \<and> rd_id (dg_resolvedDelegate d) = si_delegateId i))"

lemma start_call_resultI:
  assumes "start_result (dm_sha cfg) i (inputHash cfg (si_input i)) d w1 r" and "progress (dm_sha cfg) w w1"
    and "dg_parentSessionId d = ses_sessionId (si_parentSession i)" and "rd_id (dg_resolvedDelegate d) = si_delegateId i"
  shows "start_call_result cfg i w r"
proof -
  from assms(1) obtain out w2 where r: "r = Some (out, w2)" "progress (dm_sha cfg) w1 w2"
    and res: "\<forall>d1 c. out = Inr (d1, c) \<longrightarrow> started i (inputHash cfg (si_input i)) (dg_delegationId d) w2 d1 c \<and> dele_adv d d1"
    unfolding start_result_def by blast
  have "started i (inputHash cfg (si_input i)) (dg_delegationId d1) w2 d1 c
      \<and> dg_parentSessionId d1 = ses_sessionId (si_parentSession i) \<and> rd_id (dg_resolvedDelegate d1) = si_delegateId i"
    if "out = Inr (d1, c)" for d1 c
    using res that assms(3,4) by (simp add: dele_adv_def identity_of_def)
  with r delegation_progress_trans [OF assms(2) r(2)] show ?thesis unfolding start_call_result_def by blast
qed

lemma start_call_error: "progress (dm_sha cfg) w w1 \<Longrightarrow> start_call_result cfg i w (Some (Inl e, w1))"
  by (auto simp: start_call_result_def)

lemma resolveSpec_progress:
  "delegation_inv sha w \<Longrightarrow> progress sha w (snd (resolveSpec tools dig spec w))"
  by (rule progress_same) (simp_all add: resolveSpec_def Let_def split_def tab_simps)

lemma snd_validateTargetRef [simp]: "snd (validateTargetRef cfg parent t w) = w"
  by (simp add: validateTargetRef_def split: option.split)

lemma snd_assertParent [simp]: "snd (assertParent cfg parent i w) = w"
  by (simp add: assertParent_def)

lemma snd_ofResult [simp]: "snd (ofResult r w) = w"
  by (simp add: ofResult_def split: sum.split)

lemma andThen_id: "(\<And>w. snd (m w) = w) \<Longrightarrow> (\<And>x w. snd (f x w) = w) \<Longrightarrow> snd (andThen m f w) = w"
  by (auto simp: andThen_def split: prod.splits sum.splits) (metis snd_conv)+

lemma startNew_total:
  assumes inv: "delegation_inv (dm_sha cfg) w" and race: "\<And>v. delegation_inv (dm_sha cfg) v \<Longrightarrow> progress (dm_sha cfg) v (racing v)"
    and rely: "rely (dm_sha cfg) opening" "rely (dm_sha cfg) env"
    and rd: "rd_id rd = si_delegateId i" "1 \<le> rd_maxQueuedCalls rd"
  shows "start_call_result cfg i w (startNew cfg racing opening env i rd (inputHash cfg (si_input i)) w)"
proof -
  let ?sha = "dm_sha cfg" and ?h = "inputHash cfg (si_input i)"
  let ?pre = "andThen (validateTargetRef cfg (si_parentSession i) (si_targetRef i)) (\<lambda>_.
           andThen (validateInput rd (si_input i)) (\<lambda>_.
           ofResult (resolveCallee (dm_callees cfg) (si_delegateId i))))"
  have w0: "snd (?pre w) = w"
    by (intro andThen_id) (simp_all add: tab_simps)
  show ?thesis
  proof (cases "fst (?pre w)")
    case (Inl e)
    with w0 have "?pre w = (Inl e, w)" by (simp add: prod_eq_iff)
    then show ?thesis by (simp add: startNew_def start_call_error delegation_progress_refl [OF inv])
  next
    case (Inr spec)
    with w0 have pre: "?pre w = (Inr spec, w)" by (simp add: prod_eq_iff)
    then have input: "si_input i \<noteq> []" "utf8_length (si_input i) \<le> rd_maxInputBytes rd"
      by (auto simp: andThen_Inr validate_Inr)
    obtain callee w2 where rs: "resolveSpec (dm_tools cfg) (dm_specDigest cfg) spec w = (callee, w2)"
      by (cases "resolveSpec (dm_tools cfg) (dm_specDigest cfg) spec w")
    have p2: "progress ?sha w w2" using resolveSpec_progress [OF inv, of "dm_tools cfg" "dm_specDigest cfg" spec] by (simp add: rs)
    note inv2 = delegation_progress_inv [OF p2]
    obtain d c w4 where new: "newDelegation cfg i rd callee ?h w2 = ((d, c), w4)" by (metis surj_pair)
    obtain d1 created w6 where create: "createDelegation d (racing w4) = ((d1, created), w6)" by (metis surj_pair)
    note ne = newDelegation_effect [OF inv2 race input rd(2) new [unfolded inputHash_def] create, folded inputHash_def]
    have p6: "progress ?sha w w6" by (rule delegation_progress_trans [OF p2 ne(1)])
    note inv6 = delegation_progress_inv [OF ne(1)]
    have hash: "dc_inputHash c = ?h" by (rule ne(6))
    show ?thesis
    proof (cases created)
      case True
      with ne(3) have d1: "d1 = d" by simp
      have "start_result ?sha i ?h d w6 (withCall c (ensureChildAndOpen cfg opening d (si_parentSession i) w6))"
        by (rule withCall_opened [OF inv6 ne(2) [unfolded d1] dele_adv_refl rely(1) call_adv_mem [OF ne(4)] ne(5) hash])
      then have "start_call_result cfg i w (withCall c (ensureChildAndOpen cfg opening d (si_parentSession i) w6))"
        by (rule start_call_resultI) (use p6 ne(7,8) rd(1) in simp_all)
      with True show ?thesis by (simp add: startNew_def pre rs new create)
    next
      case False
      with ne(3) have key: "relation_key d1 = relation_key d" by simp
      have "start_result ?sha i ?h d1 w6 (appendCall cfg opening env i ?h d1 w6)"
        by (rule appendCall_total [OF inv6 ne(2) rely inputHash_def])
      then have "start_call_result cfg i w (appendCall cfg opening env i ?h d1 w6)"
        by (rule start_call_resultI) (use p6 ne(7,8) rd(1) key in \<open>simp_all add: relation_key_def\<close>)
      with False show ?thesis by (simp add: startNew_def pre rs new create)
    qed
  qed
qed

lemma startCall_total:
  assumes inv: "delegation_inv (dm_sha cfg) w" and race: "\<And>v. delegation_inv (dm_sha cfg) v \<Longrightarrow> progress (dm_sha cfg) v (racing v)"
    and rely: "rely (dm_sha cfg) opening" "rely (dm_sha cfg) env" and cfg: "wf_config cfg"
  shows "start_call_result cfg i w (startCall cfg racing opening env i w)"
proof -
  let ?pre = "andThen (assertParent cfg (si_parentSession i) (si_delegateId i)) (\<lambda>_.
           ofResult (resolvedResolve (dm_registry cfg) (si_delegateId i)))"
  have w0: "snd (?pre w) = w" by (intro andThen_id) simp_all
  have refl: "progress (dm_sha cfg) w w" by (rule delegation_progress_refl [OF inv])
  show ?thesis
  proof (cases "fst (?pre w)")
    case (Inl e)
    with w0 have "?pre w = (Inl e, w)" by (simp add: prod_eq_iff)
    then show ?thesis by (simp add: startCall_def start_call_error refl)
  next
    case (Inr rd)
    with w0 have pre: "?pre w = (Inr rd, w)" by (simp add: prod_eq_iff)
    then have "tget (dm_registry cfg) (si_delegateId i) = Some rd"
      by (auto simp: andThen_Inr ofResult_def resolvedResolve_def split: sum.splits option.splits)
    with cfg have rd: "rd_id rd = si_delegateId i" "1 \<le> rd_maxQueuedCalls rd" by (auto simp: wf_config_def)
    let ?p = "ses_sessionId (si_parentSession i)" and ?h = "inputHash cfg (si_input i)"
    show ?thesis
    proof (cases "rd_targetPolicy rd = Device \<and> si_targetRef i = None")
      case True
      then show ?thesis by (simp add: startCall_def pre start_call_error refl)
    next
      case pol: False
      show ?thesis
      proof (cases "findCallByCallerKey ?p (si_callerTurnSeq i) (si_callerToolRequestId i) w")
        case None
        show ?thesis
        proof (cases "readDelegationByKey ?p (si_delegateId i) (si_targetRef i) w")
          case ex: None
          have "startCall cfg racing opening env i w = startNew cfg racing opening env i rd ?h w"
            using pol by (auto simp: startCall_def pre None ex Let_def)
          with startNew_total [OF inv race rely rd] show ?thesis by simp
        next
          case (Some d)
          note k = readDelegationByKey_Some [OF Some]
          note m = delegation_inv_mem [OF inv conjunct1 [OF k]]
          have "start_result (dm_sha cfg) i ?h d w (appendCall cfg opening env i ?h d w)"
            by (rule appendCall_total [OF inv m(2) rely]) (simp add: inputHash_def)
          then have "start_call_result cfg i w (appendCall cfg opening env i ?h d w)"
            by (rule start_call_resultI [OF _ refl]) (use k in \<open>simp_all add: relation_key_def\<close>)
          moreover have "startCall cfg racing opening env i w = appendCall cfg opening env i ?h d w"
            using pol by (auto simp: startCall_def pre None Some Let_def)
          ultimately show ?thesis by simp
        qed
      next
        case (Some dc)
        obtain d c where dc: "dc = (d, c)" by (cases dc)
        with Some have f: "d \<in> set (readDelegations w)" "dg_parentSessionId d = ?p" "c \<in> set (dg_calls d)"
          "same_caller (si_callerTurnSeq i) (si_callerToolRequestId i) c"
          by (auto simp: findCallByCallerKey_def dest!: find_SomeD split: option.splits)
        note m = delegation_inv_mem [OF inv f(1)]
        show ?thesis
        proof (cases "rd_id (dg_resolvedDelegate d) \<noteq> si_delegateId i \<or> dc_inputHash c \<noteq> ?h")
          case True
          with pol show ?thesis by (auto simp: startCall_def pre Some dc Let_def start_call_error refl)
        next
          case same: False
          show ?thesis
          proof (cases "dg_status d = CreatingChild")
            case True
            have "start_result (dm_sha cfg) i ?h d w (withCall c (ensureChildAndOpen cfg opening d (si_parentSession i) w))"
              using same by (intro withCall_opened [OF inv m(2) dele_adv_refl rely(1) call_adv_mem [OF f(3)] f(4)]) simp
            then have "start_call_result cfg i w (withCall c (ensureChildAndOpen cfg opening d (si_parentSession i) w))"
              by (rule start_call_resultI [OF _ refl f(2)]) (use same in simp)
            with pol same True show ?thesis by (auto simp: startCall_def pre Some dc Let_def)
          next
            case False
            have "startCall cfg racing opening env i w = Some (Inr (d, c), w)"
              using pol same False by (auto simp: startCall_def pre Some dc Let_def)
            with same f m(2) refl call_adv_mem [OF f(3)] show ?thesis
              by (simp add: start_call_result_def started_def)
          qed
        qed
      qed
    qed
  qed
qed

end
