(* ===== verification/Sessions.thy ===== *)
theory Sessions
  imports Lifecycle Selector Admission
begin

text \<open>
  The session command workflow: \<^verbatim>\<open>persistence/*.ts\<close> (storage classes, snapshot handles),
  \<^verbatim>\<open>session-assignment-manager.ts\<close>, \<^verbatim>\<open>session-start-manager.ts\<close>,
  \<^verbatim>\<open>session-pause-manager.ts\<close> and \<^verbatim>\<open>session-manager.ts\<close>. The lifecycle
  reconciler the session manager calls is a parameter here; the theory \<open>Reconciler\<close> supplies it.
\<close>

subsection \<open>Storage classes and the SnapshotManager\<close>

datatype storage_class = VolumeSnapshotStorageClass | HostManagedStorageClass

datatype attachment_kind = WorkerPull | HostManaged

fun classId :: "storage_class \<Rightarrow> string" where
  "classId VolumeSnapshotStorageClass = ''volume-snapshot''"
| "classId HostManagedStorageClass = ''host-managed''"

definition buildHandle :: "string \<Rightarrow> string \<Rightarrow> string" where
  "buildHandle sessionId snapshotId = sessionId @ ''/'' @ snapshotId"

definition storageClasses :: "(string \<times> storage_class) list" where
  "storageClasses = map (\<lambda>c. (classId c, c)) [VolumeSnapshotStorageClass, HostManagedStorageClass]"

definition resolveClass :: "session \<Rightarrow> storage_class wop" where
  "resolveClass s w =
     (if \<not> truthy (ses_storageClass s) then throw (NoStorageClass (ses_sessionId s)) w
      else
        (case map_of storageClasses (the (ses_storageClass s)) of
           None \<Rightarrow> throw (UnknownStorageClass (the (ses_storageClass s))) w
         | Some c \<Rightarrow> ok c w))"

fun attachmentKindOf :: "storage_class \<Rightarrow> attachment_kind" where
  "attachmentKindOf VolumeSnapshotStorageClass = WorkerPull"
| "attachmentKindOf HostManagedStorageClass = HostManaged"

definition attachmentKind :: "session \<Rightarrow> attachment_kind wop" where
  "attachmentKind s = andThen (resolveClass s) (\<lambda>c. ok (attachmentKindOf c))"

fun classPlanCapture :: "storage_class \<Rightarrow> session \<Rightarrow> string \<Rightarrow> capture_ref option" where
  "classPlanCapture VolumeSnapshotStorageClass s snapshotId =
     Some \<lparr>cr_snapshotId = snapshotId, cr_storageClass = classId VolumeSnapshotStorageClass,
           cr_handle = buildHandle (ses_sessionId s) snapshotId\<rparr>"
| "classPlanCapture HostManagedStorageClass s snapshotId = None"

definition planCapture :: "session \<Rightarrow> string \<Rightarrow> capture_ref option wop" where
  "planCapture s snapshotId = andThen (resolveClass s) (\<lambda>c. ok (classPlanCapture c s snapshotId))"

fun classPlanRestore :: "storage_class \<Rightarrow> session \<Rightarrow> world \<Rightarrow> restore_ref option" where
  "classPlanRestore VolumeSnapshotStorageClass s w =
     (if \<not> truthy (ses_latestSnapshotRef s) then None
      else
        (case readSnapshot (ses_sessionId s) (the (ses_latestSnapshotRef s)) w of
           None \<Rightarrow> None
         | Some sn \<Rightarrow> Some \<lparr>rr_snapshotId = sn_snapshotId sn, rr_storageClass = sn_storageClass sn,
                            rr_handle = sn_handle sn, rr_parts = sn_parts sn\<rparr>))"
| "classPlanRestore HostManagedStorageClass s w = None"

definition planRestore :: "session \<Rightarrow> restore_ref option wop" where
  "planRestore s = andThen (resolveClass s) (\<lambda>c w. ok (classPlanRestore c s w) w)"

fun classRecordCapture ::
  "storage_class \<Rightarrow> session \<Rightarrow> string \<Rightarrow> snapshot_part list \<Rightarrow> world \<Rightarrow> workspace_snapshot option \<times> world" where
  "classRecordCapture VolumeSnapshotStorageClass s snapshotId parts w =
     (let (t, w1) = now w;
          sn = \<lparr>sn_snapshotId = snapshotId, sn_sessionId = ses_sessionId s,
                sn_storageClass = classId VolumeSnapshotStorageClass,
                sn_handle = buildHandle (ses_sessionId s) snapshotId, sn_parts = parts,
                sn_baseEventCursor = ses_eventCursor s, sn_createdAt = t\<rparr>
      in (Some sn, writeSnapshot sn w1))"
| "classRecordCapture HostManagedStorageClass s snapshotId parts w = (None, w)"

definition recordCapture :: "session \<Rightarrow> string \<Rightarrow> snapshot_part list \<Rightarrow> workspace_snapshot option wop" where
  "recordCapture s snapshotId parts =
     andThen (resolveClass s) (\<lambda>c w. let (r, w1) = classRecordCapture c s snapshotId parts w in ok r w1)"

subsection \<open>SessionAssignmentManager\<close>

record worker_command =
  wc_workerId :: string
  wc_event :: runtime_event

text \<open>The worker record after the session was placed on it.\<close>

definition placed_worker :: "session \<Rightarrow> worker \<Rightarrow> time \<Rightarrow> worker" where
  "placed_worker s k t =
     k\<lparr>wk_allocatable := max 0 (wk_allocatable k - 1),
       wk_conditions := (if 0 < wk_allocatable k - 1 then wk_conditions k else [Busy]),
       wk_currentSessionCount := wk_currentSessionCount k + 1,
       wk_boundSessionId := (if wk_reuse k = Some False then Some (orElse (wk_boundSessionId k) (ses_sessionId s))
                             else wk_boundSessionId k),
       wk_updatedAt := t\<rparr>"

text \<open>The clock readings of \<^verbatim>\<open>select\<close>: one for each worker it tests.\<close>

definition readings :: "world \<Rightarrow> nat \<Rightarrow> time" where
  "readings w i = w_clock w (w_clockIx w + i)"

definition tick_by :: "nat \<Rightarrow> world \<Rightarrow> world" where
  "tick_by n w = w\<lparr>w_clockIx := w_clockIx w + n\<rparr>"

definition assignReadyWorker :: "session \<Rightarrow> (session \<times> worker_command option) wop" where
  "assignReadyWorker s w =
     (let ks = readWorkers w; w0 = tick_by (length ks) w
      in case select (readings w) s ks of
           None \<Rightarrow> ok (s, None) w0
         | Some k \<Rightarrow>
             (let (assigned, w1) = leaseAssign s k w0;
                  (t, w2) = now w1;
                  w3 = writeWorker (placed_worker s k t) w2
              in andThen (planRestore assigned) (\<lambda>restore w4.
                   (let (eid, w5) = freshId w4; (t2, w6) = now w5
                    in ok (assigned, Some \<lparr>wc_workerId = wk_workerId k,
                         wc_event = \<lparr>ev_eventId = eid, ev_sessionId = Some (ses_sessionId assigned),
                           ev_workerId = Some (wk_workerId k), ev_ackId = None, ev_turnSeq = None,
                           ev_sequence = ses_eventCursor assigned + 1, ev_type = SessionAssign, ev_timestamp = t2,
                           ev_actor = CentralActor, ev_sessionLeaseId = ses_sessionLeaseId assigned,
                           ev_payload = AssignPayload (ses_sessionId assigned) (wk_workerId k) (the (ses_sessionLeaseId assigned))
                             (ses_workspaceRef assigned) (''copilot-session:'' @ ses_sessionId assigned)
                             (ses_resolvedAgentSpec assigned) restore\<rparr>\<rparr>) w6)) w3))"

subsection \<open>SessionStartManager\<close>

record start_outcome =
  so_session :: session
  so_createdEvent :: runtime_event
  so_catalogEvent :: runtime_event
  so_workerCommand :: "worker_command option"
  so_needsReconcile :: bool

definition startCreatedSession ::
  "session \<Rightarrow> string option \<Rightarrow> string option \<Rightarrow> payload \<Rightarrow> start_outcome wop" where
  "startCreatedSession s eventId ackId pl w =
     (if ses_status s \<noteq> Created then throw (CannotStartFrom (ses_sessionId s) (ses_status s)) w
      else
        (let turnSeq = ses_nextTurnSeq s
         in andThen (logAppend eventId
              ((draft SessionCreated CentralActor pl (ses_eventCursor s + 1) (Some (ses_sessionId s)))
                \<lparr>ev_ackId := ackId, ev_turnSeq := Some turnSeq\<rparr>)) (\<lambda>e.
            andThen (acceptTurnAfterEvent s turnSeq (ev_sequence e) (ev_timestamp e) Queued (Some ''waiting-for-worker'')) (\<lambda>queued.
            andThen (assignReadyWorker queued) (\<lambda>(assigned, command).
              ok \<lparr>so_session = assigned, so_createdEvent = e,
                  so_catalogEvent = e\<lparr>ev_ackId := None, ev_turnSeq := None, ev_type := SessionCatalogUpdated,
                    ev_payload := CatalogPayload (ses_sessionId assigned) (ses_status assigned)
                      (map_option db_parentSessionId (ses_delegationBinding assigned))\<rparr>,
                  so_workerCommand = command, so_needsReconcile = (command = None)\<rparr>))) w))"

subsection \<open>SessionPauseManager\<close>

record pause_outcome =
  po_session :: session
  po_requestedEvent :: runtime_event
  po_workerCommand :: worker_command

definition assertWorkerLease :: "session \<Rightarrow> unit wop" where
  "assertWorkerLease s w =
     (if \<not> truthy (ses_currentWorkerId s) \<or> \<not> truthy (ses_sessionLeaseId s)
      then throw (NoWorkerLease (ses_sessionId s)) w else ok () w)"

definition pause_reason :: "payload \<Rightarrow> string option" where
  "pause_reason pl = (case pl of PausePayload r \<Rightarrow> r | _ \<Rightarrow> None)"

definition pauseCommand :: "session \<Rightarrow> runtime_event \<Rightarrow> worker_command wop" where
  "pauseCommand s e =
     andThen (assertWorkerLease s) (\<lambda>_ w.
       (let (eid, w1) = freshId w; wid = the (ses_currentWorkerId s); lease = the (ses_sessionLeaseId s)
        in andThen (planCapture s (ev_eventId e)) (\<lambda>capture.
             ok \<lparr>wc_workerId = wid,
                 wc_event = \<lparr>ev_eventId = eid, ev_sessionId = Some (ses_sessionId s), ev_workerId = Some wid,
                   ev_ackId = None, ev_turnSeq = None, ev_sequence = ev_sequence e, ev_type = SessionPauseRequested,
                   ev_timestamp = ev_timestamp e, ev_actor = CentralActor, ev_sessionLeaseId = Some lease,
                   ev_payload = PauseCommandPayload (ses_sessionId s) wid lease (pause_reason (ev_payload e)) capture\<rparr>\<rparr>) w1))"

definition requestPause ::
  "terminal_hook \<Rightarrow> session \<Rightarrow> actor \<Rightarrow> string \<Rightarrow> string option \<Rightarrow> pause_outcome wop" where
  "requestPause hook s ac reason ackId =
     andThen (assertWorkerLease s) (\<lambda>_ w.
       (let (eid, w1) = freshId w
        in andThen (logAppend (Some eid)
             ((draft SessionPauseRequested ac (PausePayload (Some reason)) (ses_eventCursor s + 1) (Some (ses_sessionId s)))
               \<lparr>ev_ackId := ackId, ev_workerId := ses_currentWorkerId s, ev_sessionLeaseId := ses_sessionLeaseId s\<rparr>)) (\<lambda>e.
           andThen (transitionAfterEvent hook s Pausing (ev_sequence e) (ev_timestamp e) (Some reason)) (\<lambda>pausing.
           andThen (pauseCommand pausing e) (\<lambda>command.
             ok \<lparr>po_session = pausing, po_requestedEvent = e, po_workerCommand = command\<rparr>))) w1))"

definition recoverPauseCommand :: "session \<Rightarrow> worker_command option wop" where
  "recoverPauseCommand s =
     andThen (assertWorkerLease s) (\<lambda>_ w.
       (case find (\<lambda>e. ev_type e = SessionPauseRequested \<and> ev_sequence e = ses_eventCursor s
                     \<and> ev_workerId e = ses_currentWorkerId s \<and> ev_sessionLeaseId e = ses_sessionLeaseId s)
                (readEvents (ses_sessionId s) (max 0 (ses_eventCursor s - 1)) w) of
          None \<Rightarrow> ok None w
        | Some e \<Rightarrow> andThen (pauseCommand s e) (\<lambda>c. ok (Some c)) w))"

subsection \<open>SessionManager\<close>

text \<open>
  The principal of a request and its connection, and the wiring of the manager: the registry of
  AgentSpecs, the admission of a spec, the hook of the lifecycle manager and the reconciler.
  A request is the JSON payload the controller has accepted.
\<close>

datatype principal_type = UserPrincipal | ServicePrincipal

record request_context =
  rq_principalId :: string
  rq_principalType :: principal_type
  rq_connectionId :: "string option"

record session_config =
  sc_tenantId :: string
  sc_specs :: "(string, agent_spec) table"
  sc_tools :: "agent_spec \<Rightarrow> tool_definition list"
  sc_specDigest :: "agent_spec \<Rightarrow> tool_definition list \<Rightarrow> string"
  sc_hook :: terminal_hook
  sc_reconcile :: "unit wop"

record input_outcome =
  io_session :: session
  io_inputAcceptedEvent :: runtime_event
  io_workerCommand :: "worker_command option"
  io_turnFailedEvent :: "runtime_event option"

record resume_outcome =
  ro_session :: session
  ro_resumeRequestedEvent :: runtime_event

text \<open>\<^verbatim>\<open>request.agent.agentSpecId\<close> of an accepted request.\<close>

definition requested_spec :: "json \<Rightarrow> string" where
  "requested_spec request =
     (case jfield ''agent'' request of None \<Rightarrow> [] | Some a \<Rightarrow> orElse (jstring (jfield ''agentSpecId'' a)) [])"

definition startSession ::
  "session_config \<Rightarrow> request_context \<Rightarrow> string option \<Rightarrow> json \<Rightarrow> start_outcome wop" where
  "startSession cfg ctx ackId request =
     andThen (ofResult (specResolve (sc_specs cfg) (requested_spec request))) (\<lambda>spec w.
       (let (resolved, w1) = resolveSpec (sc_tools cfg) (sc_specDigest cfg) spec w;
            (ws, w2) = freshId w1
        in andThen (lifecycleCreate \<lparr>ci_sessionId = None, ci_tenantId = sc_tenantId cfg, ci_owner = rq_principalId ctx,
               ci_resolvedAgentSpec = resolved, ci_workspaceRef = ws, ci_delegationBinding = None,
               ci_requiredWorkerLabels = None\<rparr>) (\<lambda>s.
             startCreatedSession s None ackId (JsonPayload (jobj
               [(''input'', jfield ''input'' request), (''displayName'', jfield ''displayName'' request),
                (''description'', jfield ''description'' request), (''externalId'', jfield ''externalId'' request),
                (''workspace'', jfield ''workspace'' request), (''status'', Some (JStr ''queued'')),
                (''requestedBy'', Some (JStr (rq_principalId ctx)))]))) w2))"

text \<open>\<^verbatim>\<open>void this.sessionLifecycleReconciler?.reconcile().catch(...)\<close>: its error is only logged.\<close>

definition reconcileStartedSession :: "session_config \<Rightarrow> bool \<Rightarrow> world \<Rightarrow> world" where
  "reconcileStartedSession cfg needsReconcile w = (if needsReconcile then snd (sc_reconcile cfg w) else w)"

definition assertPublicSession :: "session option \<Rightarrow> request_context \<Rightarrow> string \<Rightarrow> session wop" where
  "assertPublicSession s ctx sid w =
     (case s of
        None \<Rightarrow> throw (SessionNotFound sid) w
      | Some s \<Rightarrow> if ses_owner s \<noteq> rq_principalId ctx then throw (SessionNotFound sid) w else ok s w)"

definition publicSession :: "request_context \<Rightarrow> string \<Rightarrow> session wop" where
  "publicSession ctx sid w = assertPublicSession (readSession sid w) ctx sid w"

definition input_command :: "string \<Rightarrow> session \<Rightarrow> int \<Rightarrow> json \<Rightarrow> string \<Rightarrow> runtime_event \<Rightarrow> worker_command" where
  "input_command sid s turnSeq input eventId e =
     (let wid = the (ses_currentWorkerId s)
      in \<lparr>wc_workerId = wid,
          wc_event = \<lparr>ev_eventId = eventId, ev_sessionId = Some (sid), ev_workerId = Some wid, ev_ackId = None,
            ev_turnSeq = Some turnSeq, ev_sequence = ev_sequence e, ev_type = SessionInput, ev_timestamp = ev_timestamp e,
            ev_actor = CentralActor, ev_sessionLeaseId = ses_sessionLeaseId s,
            ev_payload = InputCommandPayload (sid) wid (ses_sessionLeaseId s) turnSeq input\<rparr>\<rparr>)"

definition no_worker_message :: "string \<Rightarrow> string" where
  "no_worker_message sid = ''session '' @ sid @ '' has no current worker for input.received''"

text \<open>The part of \<open>acceptInput\<close> after the session record was read.\<close>

definition acceptInputFrom ::
  "request_context \<Rightarrow> string \<Rightarrow> string option \<Rightarrow> json \<Rightarrow> session \<Rightarrow> input_outcome wop" where
  "acceptInputFrom ctx sid ackId request s w =
       (let ((allocated, turnSeq), w1) = allocateNextTurn s w;
            input = jfield ''input'' request
        in andThen (logAppend None ((draft InputAccepted CentralActor
               (JsonPayload (jobj [(''input'', input), (''status'', Some (JStr ''accepted'')),
                                   (''acceptedBy'', Some (JStr (rq_principalId ctx)))]))
               (ses_eventCursor allocated + 1) (Some sid))\<lparr>ev_ackId := ackId, ev_turnSeq := Some turnSeq\<rparr>)) (\<lambda>e w2.
             (let (next, w3) = advanceEventCursor allocated (ev_sequence e) w2
              in if \<not> truthy (ses_currentWorkerId next) then
                   andThen (logAppend None ((draft TurnFailed CentralActor
                       (TurnFailedPayload (no_worker_message sid) (Some ''no_current_worker'') None)
                       (ses_eventCursor next + 1) (Some sid))\<lparr>ev_turnSeq := Some turnSeq\<rparr>)) (\<lambda>f w4.
                     (let (failed, w5) = advanceEventCursor next (ev_sequence f) w4
                      in ok \<lparr>io_session = failed, io_inputAcceptedEvent = e, io_workerCommand = None,
                            io_turnFailedEvent = Some f\<rparr> w5)) w3
                 else
                   (let (eid, w4) = freshId w3
                    in ok \<lparr>io_session = next, io_inputAcceptedEvent = e,
                          io_workerCommand = Some (input_command sid next turnSeq (orElse input JNull) eid e),
                          io_turnFailedEvent = None\<rparr> w4))) w1)"

definition acceptInput ::
  "request_context \<Rightarrow> string \<Rightarrow> string option \<Rightarrow> json \<Rightarrow> input_outcome wop" where
  "acceptInput ctx sid ackId request = andThen (publicSession ctx sid) (acceptInputFrom ctx sid ackId request)"

text \<open>An event that answers a client and is not stored.\<close>

definition response_event :: "string option \<Rightarrow> string option \<Rightarrow> event_type \<Rightarrow> payload \<Rightarrow> world \<Rightarrow> runtime_event \<times> world" where
  "response_event sid ackId ty pl w =
     (let (eid, w1) = freshId w; (t, w2) = now w1
      in (\<lparr>ev_eventId = eid, ev_sessionId = sid, ev_workerId = None, ev_ackId = ackId, ev_turnSeq = None,
           ev_sequence = 0, ev_type = ty, ev_timestamp = t, ev_actor = CentralActor, ev_sessionLeaseId = None,
           ev_payload = pl\<rparr>, w2))"

text \<open>Newest first; \<^verbatim>\<open>Array.prototype.sort\<close> is stable.\<close>

definition listed_sessions :: "string \<Rightarrow> session list \<Rightarrow> (session \<times> string option) list" where
  "listed_sessions owner ss =
     map (\<lambda>s. (s, map_option db_parentSessionId (ses_delegationBinding s)))
       (sort_key (\<lambda>s. - ses_updatedAt s) (filter (\<lambda>s. ses_owner s = owner) ss))"

definition listSessions :: "request_context \<Rightarrow> string option \<Rightarrow> world \<Rightarrow> runtime_event \<times> world" where
  "listSessions ctx ackId w =
     response_event None ackId SessionListed (SessionsPayload (listed_sessions (rq_principalId ctx) (readSessions w))) w"

definition readSessionEvents :: "request_context \<Rightarrow> string \<Rightarrow> string option \<Rightarrow> int \<Rightarrow> runtime_event wop" where
  "readSessionEvents ctx sid ackId afterSequence =
     andThen (publicSession ctx sid) (\<lambda>s w.
       (let (e, w1) = response_event (Some sid) ackId SessionEventsReplayed
              (EventsPayload (map wire (readEvents sid afterSequence w))) w in ok e w1))"

definition has_open_interaction :: "string \<Rightarrow> world \<Rightarrow> bool" where
  "has_open_interaction sid w = list_ex (\<lambda>i. itx_state i = IOpen) (readInteractionsBySession sid w)"

definition pauseSession ::
  "session_config \<Rightarrow> request_context \<Rightarrow> string \<Rightarrow> string option \<Rightarrow> pause_outcome option wop" where
  "pauseSession cfg ctx sid ackId =
     andThen (publicSession ctx sid) (\<lambda>s w.
       (if ses_status s \<noteq> Running then throw (SessionNotRunning sid) w
        else if has_open_interaction sid w then ok None w
        else andThen (requestPause (sc_hook cfg) s ClientActor ''client_requested'' ackId) (\<lambda>p. ok (Some p)) w))"

text \<open>The part the two ways of resuming share: the event, the queued session, and a reconciliation.\<close>

definition requestResume ::
  "session_config \<Rightarrow> string \<Rightarrow> session \<Rightarrow> actor \<Rightarrow> string \<Rightarrow> string \<Rightarrow> string option \<Rightarrow> resume_outcome wop" where
  "requestResume cfg sid s ac eventReason reason ackId =
     andThen (logAppend None ((draft SessionResumeRequested ac (ResumePayload (Some eventReason))
           (ses_eventCursor s + 1) (Some sid))\<lparr>ev_ackId := ackId\<rparr>)) (\<lambda>e.
       andThen (transitionAfterEvent (sc_hook cfg) s Queued (ev_sequence e) (ev_timestamp e) (Some reason)) (\<lambda>queued.
       andThen (sc_reconcile cfg) (\<lambda>_ w.
         ok \<lparr>ro_session = orElse (readSession sid w) queued, ro_resumeRequestedEvent = e\<rparr> w)))"

definition resumeSession :: "session_config \<Rightarrow> request_context \<Rightarrow> string \<Rightarrow> string option \<Rightarrow> resume_outcome wop" where
  "resumeSession cfg ctx sid ackId =
     andThen (publicSession ctx sid) (\<lambda>s.
       if ses_status s \<noteq> Paused then throw (SessionNotPaused sid)
       else requestResume cfg sid s ClientActor ''client_requested'' ''resume_requested'' ackId)"

definition requireDelegatedSession :: "string \<Rightarrow> session wop" where
  "requireDelegatedSession sid w =
     (case readSession sid w of
        None \<Rightarrow> throw (SessionNotFound sid) w
      | Some s \<Rightarrow> if ses_delegationBinding s = None then throw (SessionNotFound sid) w else ok s w)"

definition pauseDelegatedSession :: "session_config \<Rightarrow> string \<Rightarrow> pause_outcome option wop" where
  "pauseDelegatedSession cfg sid =
     andThen (requireDelegatedSession sid) (\<lambda>s.
       if ses_status s = Paused \<or> ses_status s = Pausing then ok None
       else if ses_status s \<noteq> Running \<or> \<not> truthy (ses_currentWorkerId s) \<or> \<not> truthy (ses_sessionLeaseId s)
            then throw (CannotPauseFrom sid (ses_status s))
       else andThen (requestPause (sc_hook cfg) s CentralActor ''parent_terminal'' None) (\<lambda>p. ok (Some p)))"

definition resumeDelegatedSession :: "session_config \<Rightarrow> string \<Rightarrow> resume_outcome option wop" where
  "resumeDelegatedSession cfg sid =
     andThen (requireDelegatedSession sid) (\<lambda>s.
       if ses_status s \<in> {Queued, Starting, Running, Resuming} then ok None
       else if ses_status s \<noteq> Paused then throw (CannotResumeFrom sid (ses_status s))
       else andThen (requestResume cfg sid s CentralActor ''delegation_call'' ''delegation_call'' None) (\<lambda>r. ok (Some r)))"

end
