(* ===== verification/Dispatch.thy ===== *)
theory Dispatch
  imports DelegationInv Sessions
begin

text \<open>
  \<^verbatim>\<open>managers/delegation/delegation-dispatcher.ts\<close> and \<^verbatim>\<open>delegated-session-manager.ts\<close>: the
  oldest queued call of a delegation becomes its active one and is written to the child session as a turn; a call that
  is active but not yet accepted by the child's worker is prepared again, from its durable dispatch identities. Other
  tasks run between the read and the write of the delegation (\<open>tasks\<close>).
\<close>

subsection \<open>DelegatedSessionManager\<close>

record prepared_call =
  pc_session :: session
  pc_workerCommands :: "worker_command list"
  pc_sessionCreatedEvent :: "runtime_event option"
  pc_sessionCatalogUpdatedEvent :: "runtime_event option"
  pc_needsReconcile :: bool

definition requireChildSession :: "delegation \<Rightarrow> session wop" where
  "requireChildSession d w =
     (case readSession (dg_childSessionId d) w of
        None \<Rightarrow> throw (ChildSessionMissing (dg_childSessionId d) (dg_delegationId d)) w
      | Some s \<Rightarrow> if map_option db_delegationId (ses_delegationBinding s) \<noteq> Some (dg_delegationId d)
                  then throw (ChildSessionMissing (dg_childSessionId d) (dg_delegationId d)) w
                  else ok s w)"

definition agentInput :: "delegation_call \<Rightarrow> json" where
  "agentInput c = JObj [(''message'', JStr (dc_input c))]"

definition call_payload :: "delegation_call \<Rightarrow> payload" where
  "call_payload c = JsonPayload (JObj [(''input'', agentInput c), (''status'', JStr ''accepted''),
     (''delegationCallId'', JStr (dc_delegationCallId c))])"

definition inputCommand :: "delegation_call \<Rightarrow> call_dispatch \<Rightarrow> session \<Rightarrow> int \<Rightarrow> worker_command option" where
  "inputCommand c dp s sq =
     (if \<not> truthy (ses_currentWorkerId s) \<or> \<not> truthy (ses_sessionLeaseId s) then None
      else
        (let wid = the (ses_currentWorkerId s)
         in Some \<lparr>wc_workerId = wid,
              wc_event = \<lparr>ev_eventId = dp_commandEventId dp, ev_sessionId = Some (ses_sessionId s), ev_workerId = Some wid,
                ev_ackId = None, ev_turnSeq = Some (dp_childTurnSeq dp), ev_sequence = sq, ev_type = SessionInput,
                ev_timestamp = dc_updatedAt c, ev_actor = CentralActor, ev_sessionLeaseId = ses_sessionLeaseId s,
                ev_payload = InputCommandPayload (ses_sessionId s) wid (ses_sessionLeaseId s) (dp_childTurnSeq dp) (agentInput c)\<rparr>\<rparr>))"

text \<open>The turn of a call on its child session: the first one starts the session, a later one is appended.\<close>

definition writeTurn :: "delegation_call \<Rightarrow> call_dispatch \<Rightarrow> session \<Rightarrow> prepared_call wop" where
  "writeTurn c dp s =
     (if ses_status s \<noteq> Created \<and> ses_status s \<noteq> Running then throw (CannotDispatch (ses_sessionId s) (ses_status s))
      else if ses_status s = Created
      then andThen (startCreatedSession s (Some (dp_inputEventId dp)) None (call_payload c)) (\<lambda>st.
        ok \<lparr>pc_session = so_session st, pc_workerCommands = (case so_workerCommand st of None \<Rightarrow> [] | Some x \<Rightarrow> [x]),
            pc_sessionCreatedEvent = Some (so_createdEvent st), pc_sessionCatalogUpdatedEvent = Some (so_catalogEvent st),
            pc_needsReconcile = so_needsReconcile st\<rparr>)
      else andThen (logAppend (Some (dp_inputEventId dp))
             ((draft InputAccepted CentralActor (call_payload c) (ses_eventCursor s + 1) (Some (ses_sessionId s)))
               \<lparr>ev_turnSeq := Some (dp_childTurnSeq dp)\<rparr>)) (\<lambda>e.
        andThen (acceptTurnAfterEvent s (dp_childTurnSeq dp) (ev_sequence e) (ev_timestamp e) Running None) (\<lambda>next.
          ok \<lparr>pc_session = next, pc_workerCommands = [], pc_sessionCreatedEvent = None,
              pc_sessionCatalogUpdatedEvent = None, pc_needsReconcile = False\<rparr>)))"

definition prepareCall :: "delegation \<Rightarrow> delegation_call \<Rightarrow> prepared_call wop" where
  "prepareCall d c =
     (case dc_dispatch c of
        None \<Rightarrow> throw (NoDispatch (dc_delegationCallId c))
      | Some dp \<Rightarrow>
          andThen (requireChildSession d) (\<lambda>s w.
            (let existing = find (\<lambda>e. ev_eventId e = dp_inputEventId dp) (readEvents (ses_sessionId s) 0 w)
             in andThen (case existing of
                    None \<Rightarrow> writeTurn c dp s
                  | Some _ \<Rightarrow> andThen (requireChildSession d) (\<lambda>s1.
                      ok \<lparr>pc_session = s1, pc_workerCommands = [], pc_sessionCreatedEvent = None,
                          pc_sessionCatalogUpdatedEvent = None, pc_needsReconcile = False\<rparr>)) (\<lambda>p.
                  (let sq = (case existing of None \<Rightarrow> ses_eventCursor (pc_session p) | Some e \<Rightarrow> ev_sequence e)
                   in ok (p\<lparr>pc_workerCommands := pc_workerCommands p
                        @ (case inputCommand c dp (pc_session p) sq of None \<Rightarrow> [] | Some x \<Rightarrow> [x])\<rparr>))) w)))"

subsection \<open>DelegationDispatcher\<close>

record dispatch_result =
  dr_delegation :: delegation
  dr_call :: delegation_call
  dr_prepared :: prepared_call

definition active_of :: "delegation \<Rightarrow> delegation_call option" where
  "active_of d = (if truthy (dg_activeCallId d) then find (\<lambda>c. Some (dc_delegationCallId c) = dg_activeCallId d) (dg_calls d) else None)"

definition queued_calls :: "delegation \<Rightarrow> delegation_call list" where
  "queued_calls d = filter (\<lambda>c. dc_status c = CQueued) (dg_calls d)"

text \<open>\<^verbatim>\<open>sort((l, r) => l.callSeq - r.callSeq)[0]\<close>\<close>

definition next_queued :: "delegation \<Rightarrow> delegation_call option" where
  "next_queued d = (case sort_key dc_callSeq (queued_calls d) of [] \<Rightarrow> None | c # _ \<Rightarrow> Some c)"

definition activated :: "delegation_call \<Rightarrow> int \<Rightarrow> string \<Rightarrow> string \<Rightarrow> time \<Rightarrow> delegation_call" where
  "activated c turnSeq inputId commandId t =
     c\<lparr>dc_status := CActive,
       dc_dispatch := Some \<lparr>dp_childTurnSeq = turnSeq, dp_inputEventId = inputId, dp_commandEventId = commandId,
                            dp_commandState = CmdPending\<rparr>,
       dc_updatedAt := t\<rparr>"

definition activate :: "delegation \<Rightarrow> delegation_call \<Rightarrow> time \<Rightarrow> delegation" where
  "activate d c t =
     d\<lparr>dg_activeCallId := Some (dc_delegationCallId c),
       dg_calls := map (\<lambda>x. if dc_delegationCallId x = dc_delegationCallId c then c else x) (dg_calls d),
       dg_revision := dg_revision d + 1, dg_updatedAt := t\<rparr>"

definition dispatchPrepare :: "string \<Rightarrow> (delegation, (delegation \<times> delegation_call) option) attempt wop" where
  "dispatchPrepare did w =
     (case readDelegation did w of
        None \<Rightarrow> ok (Return None) w
      | Some d \<Rightarrow>
          if dg_status d \<noteq> Open then ok (Return None) w
          else
            (case active_of d of
               Some c \<Rightarrow> ok (Return (Some (d, c))) w
             | None \<Rightarrow>
                 (case next_queued d of
                    None \<Rightarrow> ok (Return None) w
                  | Some c \<Rightarrow>
                      (case readSession (dg_childSessionId d) w of
                         None \<Rightarrow> throw (ChildSessionMissing (dg_childSessionId d) did) w
                       | Some child \<Rightarrow>
                           (let (t, w1) = now w; (iid, w2) = freshId w1; (cid, w3) = freshId w2;
                                ac = activated c (ses_nextTurnSeq child) iid cid t; next = activate d ac t
                            in ok (Write (dg_revision d) next (Some (next, ac))) w3)))))"

definition dispatchNextOnce :: "tasks \<Rightarrow> string \<Rightarrow> dispatch_result option async" where
  "dispatchNextOnce env did =
     awaiting (cas_loop env (dispatchPrepare did) compareAndSetDelegation) (\<lambda>r.
       case r of
         None \<Rightarrow> (\<lambda>w. Some (Inr None, w))
       | Some (d, c) \<Rightarrow>
           if map_option dp_commandState (dc_dispatch c) = Some CmdAccepted then (\<lambda>w. Some (Inr None, w))
           else sync (andThen (prepareCall d c) (\<lambda>p. ok (Some \<lparr>dr_delegation = d, dr_call = c, dr_prepared = p\<rparr>))))"

text \<open>
  The dispatches of one delegation run one after the other, each chained to the promise of the one before
  (\<^verbatim>\<open>reconcileTails\<close>): after one that was rejected, \<^verbatim>\<open>previous.then\<close> does not run the next, which is
  rejected with the same error. the map gives the error of the delegations whose last dispatch failed.
\<close>

type_synonym tails = "string \<Rightarrow> error option"

definition dispatchNext :: "tasks \<Rightarrow> string \<Rightarrow> tails \<Rightarrow> world \<Rightarrow> ((error + dispatch_result option) \<times> tails \<times> world) option" where
  "dispatchNext env did broken w =
     (case broken did of
        Some e \<Rightarrow> Some (Inl e, broken, w)
      | None \<Rightarrow>
          (case dispatchNextOnce env did w of
             None \<Rightarrow> None
           | Some (Inl e, w1) \<Rightarrow> Some (Inl e, broken(did := Some e), w1)
           | Some (Inr r, w1) \<Rightarrow> Some (Inr r, broken, w1)))"

text \<open>A dispatch that failed is the result of every later dispatch of its delegation.\<close>

lemma dispatcher_stays_broken:
  assumes "dispatchNext env did broken w = Some (Inl e, broken1, w1)"
  shows "dispatchNext env1 did broken1 w2 = Some (Inl e, broken1, w2)"
  using assms by (auto simp: dispatchNext_def split: option.splits prod.splits sum.splits)

end
