(* ===== verification/SessionLogs.thy ===== *)
theory SessionLogs
  imports Lifecycle
begin

text \<open>
  The invariant all managers keep together on a session's record and its event log, and how each kind of
  write preserves it: sequence numbers strictly increase up to the cursor, and every accepted input
  (\<^verbatim>\<open>session.created\<close> or \<^verbatim>\<open>input.accepted\<close>) has a turn number of its own,
  below the next one to allocate.
\<close>

definition turn_event :: "runtime_event \<Rightarrow> bool" where
  "turn_event e = (ev_type e = SessionCreated \<or> ev_type e = InputAccepted)"

definition turns :: "runtime_event list \<Rightarrow> int list" where
  "turns es = map (\<lambda>e. orElse (ev_turnSeq e) 0) (filter turn_event es)"

definition below_all :: "int \<Rightarrow> int list \<Rightarrow> bool" where
  "below_all n xs = (\<forall>x \<in> set xs. x < n)"

definition log_ok :: "session option \<Rightarrow> runtime_event list \<Rightarrow> bool" where
  "log_ok so es =
     (case so of
        None \<Rightarrow> es = []
      | Some s \<Rightarrow> sorted_wrt (<) (map ev_sequence es) \<and> below_all (ses_eventCursor s + 1) (map ev_sequence es)
                 \<and> sorted_wrt (<) (turns es) \<and> below_all (ses_nextTurnSeq s) (turns es))"

definition logs_ok :: "world \<Rightarrow> bool" where
  "logs_ok w = ((\<forall>sid s. readSession sid w = Some s \<longrightarrow> ses_sessionId s = sid)
                \<and> (\<forall>sid. log_ok (readSession sid w) (sessionEvents sid w)))"

lemma turns_simps [simp]:
  "turns [] = []"
  "turns (es @ [e]) = turns es @ (if turn_event e then [orElse (ev_turnSeq e) 0] else [])"
  by (simp_all add: turns_def)

lemma below_all_simps [simp]:
  "below_all n []"
  "below_all n (xs @ ys) \<longleftrightarrow> below_all n xs \<and> below_all n ys"
  "below_all n [x] \<longleftrightarrow> x < n"
  by (auto simp: below_all_def)

lemma below_all_mono: "below_all n xs \<Longrightarrow> n \<le> m \<Longrightarrow> below_all m xs"
  by (auto simp: below_all_def)

lemma sorted_wrt_snoc: "sorted_wrt (<) (xs @ [n :: int]) \<longleftrightarrow> sorted_wrt (<) xs \<and> below_all n xs"
  by (auto simp: sorted_wrt_append below_all_def)

lemma logs_ok_id: "logs_ok w \<Longrightarrow> readSession sid w = Some s \<Longrightarrow> ses_sessionId s = sid"
  by (simp add: logs_ok_def)

lemma logs_ok_log: "logs_ok w \<Longrightarrow> log_ok (readSession sid w) (sessionEvents sid w)"
  by (simp add: logs_ok_def)

text \<open>What an operation that leaves both tables alone keeps.\<close>

definition same_logs :: "world \<Rightarrow> world \<Rightarrow> bool" where
  "same_logs w w1 = (w_sessions w1 = w_sessions w \<and> w_sessionEvents w1 = w_sessionEvents w)"

lemma same_logs_reads:
  "same_logs w w1 \<Longrightarrow> readSession sid w1 = readSession sid w \<and> sessionEvents sid w1 = sessionEvents sid w
    \<and> readSessions w1 = readSessions w"
  by (simp add: same_logs_def readSession_def sessionEvents_def readSessions_def)

lemma same_logs_ok: "same_logs w w1 \<Longrightarrow> logs_ok w1 = logs_ok w"
  by (simp add: logs_ok_def same_logs_reads)

lemma same_logs_refl [simp]: "same_logs w w"
  by (simp add: same_logs_def)

lemma same_logs_trans [trans]: "same_logs w w1 \<Longrightarrow> same_logs w1 w2 \<Longrightarrow> same_logs w w2"
  by (simp add: same_logs_def)

lemma events_readings [tab_simps]:
  "w_sessionEvents (snd (now w)) = w_sessionEvents w"
  "w_sessionEvents (snd (freshId w)) = w_sessionEvents w"
  "w_sessionEvents (snd (idOr g w)) = w_sessionEvents w"
  "w_sessionEvents (writeWorker k w) = w_sessionEvents w"
  "w_sessions (writeWorker k w) = w_sessions w"
  "w_sessionEvents (writeSession s w) = w_sessionEvents w"
  "w_sessionEvents (writeSnapshot sn w) = w_sessionEvents w"
  "w_sessions (writeSnapshot sn w) = w_sessions w"
  by (simp_all add: now_def freshId_def idOr_def writeWorker_def writeSession_def writeSnapshot_def split: option.splits)

lemma same_logs_readings [simp]:
  "same_logs w (snd (now w))" "same_logs w (snd (freshId w))" "same_logs w (snd (idOr g w))"
  "same_logs w (publish ch e w)" "same_logs w (writeWorker k w)" "same_logs w (writeSnapshot sn w)"
  by (simp_all add: same_logs_def tab_simps)

lemmas logs_ok_readings [simp] = same_logs_readings [THEN same_logs_ok]

text \<open>Writing a session record that counts no less than the stored one, or a new one.\<close>

lemma log_reads_writeSession:
  "sessionEvents sid (writeSession s w) = sessionEvents sid w"
  "readSession sid (writeSession s w) = (if sid = ses_sessionId s then Some s else readSession sid w)"
  by (simp_all add: sessionEvents_def readSession_def writeSession_def tget_tput)

lemma logs_ok_put:
  assumes "logs_ok w" and "log_ok (Some n) (sessionEvents (ses_sessionId n) w)"
  shows "logs_ok (writeSession n w)"
  using assms unfolding logs_ok_def log_reads_writeSession by auto

lemma logs_ok_write:
  assumes "logs_ok w" and "readSession (ses_sessionId n) w = Some s"
    and "ses_eventCursor s \<le> ses_eventCursor n" and "ses_nextTurnSeq s \<le> ses_nextTurnSeq n"
  shows "logs_ok (writeSession n w)"
proof (rule logs_ok_put [OF assms(1)])
  from logs_ok_log [OF assms(1), of "ses_sessionId n"] assms(2-4)
  show "log_ok (Some n) (sessionEvents (ses_sessionId n) w)"
    by (auto simp: log_ok_def intro: below_all_mono)
qed

lemma logs_ok_create:
  assumes "logs_ok w" shows "logs_ok (snd (createSession s w))"
proof (cases "readSession (ses_sessionId s) w")
  case None
  with logs_ok_log [OF assms, of "ses_sessionId s"] have "sessionEvents (ses_sessionId s) w = []"
    by (simp add: log_ok_def)
  then have "log_ok (Some s) (sessionEvents (ses_sessionId s) w)" by (simp add: log_ok_def)
  with logs_ok_put [OF assms] None show ?thesis by (simp add: createSession_def)
qed (simp add: createSession_def assms)

text \<open>A failed append writes nothing to a session's log.\<close>

lemma logAppend_failed: "logAppend g d w = (Inl x, w1) \<Longrightarrow> same_logs w w1"
  by (auto simp: logAppend_def appendEvent_def Let_def split_def same_logs_def tab_simps split: if_splits)

lemma logAppend_fields:
  "logAppend g d w = (Inr e, w1) \<Longrightarrow>
     ev_sequence e = ev_sequence d \<and> ev_type e = ev_type d \<and> ev_turnSeq e = ev_turnSeq d \<and> ev_sessionId e = ev_sessionId d
     \<and> ev_payload e = ev_payload d"
  by (auto simp: logAppend_def appendEvent_def Let_def split_def split: if_splits)

lemma logAppend_stores:
  assumes "ev_sessionId d = Some sid" and "sid \<noteq> []"
  obtains e w1 where "logAppend g d w = (Inr e, w1)" "ev_sequence e = ev_sequence d" "ev_type e = ev_type d"
    "ev_turnSeq e = ev_turnSeq d" "sessionEvents sid w1 = sessionEvents sid w @ [e]"
proof -
  from logAppend_session [OF assms, of g w] obtain e w1 where
    "logAppend g d w = (Inr e, w1)" "\<And>x. sessionEvents x w1 = (if x = sid then sessionEvents sid w @ [e] else sessionEvents x w)"
    by metis
  with logAppend_fields [OF this(1)] that show thesis by simp
qed

lemma logAppend_unowned:
  "logAppend g d w = (Inr e, w1) \<Longrightarrow> ev_sessionId d = Some [] \<Longrightarrow> w_sessionEvents w1 = w_sessionEvents w"
  by (auto simp: logAppend_def appendEvent_def Let_def split_def events_readings split: if_splits)

text \<open>
  An event with the next sequence number, followed by the write that moves the cursor to it. \<open>t\<close> is the
  first turn number not used in the log; an input takes it or a later one, below the next to allocate.
\<close>

lemma logs_ok_append:
  assumes ok: "logs_ok w" and s: "readSession sid w = Some s"
    and app: "logAppend g d w = (Inr e, w1)" and d: "ev_sessionId d = Some sid" "ses_eventCursor s < ev_sequence d"
    and n: "ses_sessionId n = sid" "ev_sequence d \<le> ses_eventCursor n" "ses_nextTurnSeq s \<le> ses_nextTurnSeq n"
    and turn: "turn_event d \<Longrightarrow> \<exists>t. ev_turnSeq d = Some t \<and> below_all t (turns (sessionEvents sid w)) \<and> t < ses_nextTurnSeq n"
    and v: "same_logs w1 v"
  shows "logs_ok (writeSession n v)"
proof -
  have rs: "readSession x w1 = readSession x w" for x
    using reads_logAppend(1) [of x g d w] app by simp
  have ev: "sessionEvents x v = (if x = sid \<and> sid \<noteq> [] then sessionEvents sid w @ [e] else sessionEvents x w)" for x
  proof (cases "sid = []")
    case True
    from logAppend_unowned [OF app] True d(1) v show ?thesis by (simp add: sessionEvents_def same_logs_def)
  next
    case False
    from logAppend_session [OF d(1) False, of g w] obtain e1 w2 where
      "logAppend g d w = (Inr e1, w2)" "\<And>x. sessionEvents x w2 = (if x = sid then sessionEvents sid w @ [e1] else sessionEvents x w)"
      by metis
    with app same_logs_reads [OF v, of x] False show ?thesis by simp
  qed
  have e: "ev_sequence e = ev_sequence d" "turn_event e = turn_event d" "ev_turnSeq e = ev_turnSeq d"
    using logAppend_fields [OF app] by (simp_all add: turn_event_def)
  note l = logs_ok_log [OF ok, of sid, unfolded s log_ok_def, simplified]
  have seqs: "below_all (ses_eventCursor n + 1) (map ev_sequence (sessionEvents sid w))"
    using l d(2) n(2) by (auto intro: below_all_mono)
  have new: "below_all (ev_sequence e) (map ev_sequence (sessionEvents sid w))"
    using l d(2) e(1) by (auto intro: below_all_mono)
  have old: "below_all (ses_nextTurnSeq n) (turns (sessionEvents sid w))"
    using l n(3) by (auto intro: below_all_mono)
  have "log_ok (Some n) (sessionEvents sid v)"
  proof (cases "sid = []")
    case True
    with ev [of sid] l seqs old show ?thesis by (simp add: log_ok_def)
  next
    case False
    show ?thesis
    proof (cases "turn_event d")
      case True
      with turn obtain t where "ev_turnSeq d = Some t" "below_all t (turns (sessionEvents sid w))" "t < ses_nextTurnSeq n"
        by blast
      with False True ev [of sid] l n(2) e seqs new old show ?thesis by (simp add: log_ok_def sorted_wrt_snoc)
    next
      case no: False
      with False ev [of sid] l n(2) e seqs new old show ?thesis by (simp add: log_ok_def sorted_wrt_snoc)
    qed
  qed
  moreover have "log_ok (readSession x (writeSession n v)) (sessionEvents x (writeSession n v))" if "x \<noteq> sid" for x
    using that n(1) ev [of x] rs [of x] same_logs_reads [OF v, of x] logs_ok_log [OF ok, of x]
    by (simp add: log_reads_writeSession)
  moreover have "ses_sessionId r = x" if "readSession x (writeSession n v) = Some r" for x r
    using that n(1) rs [of x] same_logs_reads [OF v, of x] logs_ok_id [OF ok, of x r]
    by (simp add: log_reads_writeSession split: if_splits)
  ultimately show ?thesis unfolding logs_ok_def using n(1) by (metis log_reads_writeSession)
qed

end
