(* ===== verification/SessionProps.thy ===== *)
theory SessionProps
  imports Sessions SessionLogs
begin

text \<open>
  The session workflow keeps every session's log and turn numbers consistent, whatever is asked of it; what
  assigning a worker changes; and snapshots.
\<close>

subsection \<open>Reading parts of the workflow leave the logs alone\<close>

lemma resolveClass_same: "snd (resolveClass s w) = w"
  by (auto simp: resolveClass_def split: option.splits)

lemma planRestore_same: "snd (planRestore s w) = w"
  by (auto simp: planRestore_def andThen_def resolveClass_same split: prod.splits sum.splits)
     (metis resolveClass_same snd_conv)+

lemma planCapture_same: "snd (planCapture s i w) = w"
  using resolveClass_same [of s w] by (auto simp: planCapture_def)

lemma assertWorkerLease_same: "snd (assertWorkerLease s w) = w"
  by (simp add: assertWorkerLease_def)

lemma publicSession_cases:
  obtains (refused) "publicSession ctx sid w = (Inl (SessionNotFound sid), w)"
  | (found) s where "readSession sid w = Some s" "ses_owner s = rq_principalId ctx" "publicSession ctx sid w = (Inr s, w)"
proof (cases "readSession sid w")
  case (Some s)
  then show thesis using refused found by (cases "ses_owner s = rq_principalId ctx") (simp_all add: publicSession_def assertPublicSession_def)
qed (use refused in \<open>simp add: publicSession_def assertPublicSession_def\<close>)

lemma requireDelegatedSession_cases:
  obtains (refused) "requireDelegatedSession sid w = (Inl (SessionNotFound sid), w)"
  | (found) s where "readSession sid w = Some s" "ses_delegationBinding s \<noteq> None" "requireDelegatedSession sid w = (Inr s, w)"
proof (cases "readSession sid w")
  case (Some s)
  then show thesis using refused found by (cases "ses_delegationBinding s = None") (simp_all add: requireDelegatedSession_def)
qed (use refused in \<open>simp add: requireDelegatedSession_def\<close>)

lemma pauseCommand_same: "same_logs w (snd (pauseCommand s e w))"
proof -
  obtain i v where i: "freshId w = (i, v)" by (cases "freshId w")
  have "same_logs w v" using same_logs_readings(2) [of w] i by simp
  moreover obtain r where "planCapture s (ev_eventId e) v = (r, v)"
    using planCapture_same [of s "ev_eventId e" v] by (cases "planCapture s (ev_eventId e) v") simp
  ultimately show ?thesis using i
    by (cases r) (auto simp: pauseCommand_def andThen_def assertWorkerLease_def Let_def)
qed

text \<open>A transition to a status that is not terminal does not run the hook.\<close>

lemma transitionAfterEvent_live:
  "\<not> terminal_status st \<Longrightarrow> transitionAfterEvent hook s st sq ts reason w =
     (let n = s\<lparr>ses_status := st, ses_lifecycleReason := reason, ses_eventCursor := sq, ses_lastEventUpdatedAt := ts,
                ses_updatedAt := fst (now w)\<rparr> in (Inr n, writeSession n (snd (now w))))"
  by (cases hook) (simp_all add: transitionAfterEvent_def fireTerminalHook_def Let_def split_def andThen_def)

subsection \<open>Every operation keeps the logs consistent\<close>

lemma append_then:
  assumes "logs_ok w" and "\<And>e w1. logAppend g d w = (Inr e, w1) \<Longrightarrow> logs_ok (snd (f e w1))"
  shows "logs_ok (snd (andThen (logAppend g d) f w))"
proof (cases "logAppend g d w")
  case (Pair r w1)
  show ?thesis
  proof (cases r)
    case (Inl x)
    with Pair have a: "logAppend g d w = (Inl x, w1)" by simp
    from same_logs_ok [OF logAppend_failed [OF a]] assms(1) a show ?thesis by (simp add: andThen_def)
  next
    case (Inr e)
    with Pair assms(2) show ?thesis by (simp add: andThen_def)
  qed
qed

lemma assignReadyWorker_logs:
  assumes ok: "logs_ok w" and s: "readSession (ses_sessionId s) w = Some s"
  shows "logs_ok (snd (assignReadyWorker s w))"
proof -
  let ?w0 = "tick_by (length (readWorkers w)) w"
  have t: "same_logs w ?w0" by (simp add: same_logs_def tick_by_def)
  show ?thesis
  proof (cases "select (readings w) s (readWorkers w)")
    case None
    with ok t show ?thesis by (simp add: assignReadyWorker_def same_logs_ok)
  next
    case (Some k)
    obtain n w1 where n: "leaseAssign s k ?w0 = (n, w1)" by (cases "leaseAssign s k ?w0")
    obtain i v where i: "freshId ?w0 = (i, v)" by (cases "freshId ?w0")
    have v: "same_logs w v" using same_logs_trans [OF t] same_logs_readings(2) [of ?w0] i by simp
    have w1: "w1 = writeSession n v" "ses_sessionId n = ses_sessionId s" "ses_eventCursor n = ses_eventCursor s"
      "ses_nextTurnSeq n = ses_nextTurnSeq s"
      using n i by (auto simp: leaseAssign_def Let_def split_def)
    have "logs_ok w1" unfolding w1(1)
      by (rule logs_ok_write [where s = s]) (use ok s v w1 in \<open>simp_all add: same_logs_ok same_logs_reads\<close>)
    moreover have "same_logs w1 (snd (assignReadyWorker s w))"
    proof -
      let ?w3 = "writeWorker (placed_worker s k (fst (now w1))) (snd (now w1))"
      have w3: "same_logs w1 ?w3" by (simp add: same_logs_def tab_simps)
      obtain r where r: "planRestore n ?w3 = (r, ?w3)"
        using planRestore_same [of n ?w3] by (cases "planRestore n ?w3") simp
      show ?thesis
      proof (cases r)
        case (Inl x)
        with Some n r w3 show ?thesis by (simp add: assignReadyWorker_def andThen_def Let_def split_def)
      next
        case (Inr x)
        with Some n r w3 show ?thesis
          by (simp add: assignReadyWorker_def andThen_def Let_def split_def same_logs_def tab_simps)
      qed
    qed
    ultimately show ?thesis using same_logs_ok by blast
  qed
qed

lemma startCreatedSession_logs:
  assumes ok: "logs_ok w" and s: "readSession (ses_sessionId s) w = Some s"
  shows "logs_ok (snd (startCreatedSession s eventId ackId pl w))"
proof (cases "ses_status s = Created")
  case True
  let ?d = "(draft SessionCreated CentralActor pl (ses_eventCursor s + 1) (Some (ses_sessionId s)))
              \<lparr>ev_ackId := ackId, ev_turnSeq := Some (ses_nextTurnSeq s)\<rparr>"
  have d: "ev_sessionId ?d = Some (ses_sessionId s)" "ev_sequence ?d = ses_eventCursor s + 1" "ev_turnSeq ?d = Some (ses_nextTurnSeq s)"
    by (simp_all add: draft_def)
  have rest: "logs_ok (snd (andThen (acceptTurnAfterEvent s (ses_nextTurnSeq s) (ev_sequence e) ts Queued reason)
       (\<lambda>q. andThen (assignReadyWorker q) (\<lambda>(a, c). ok (f a c))) w1))"
    if a: "logAppend eventId ?d w = (Inr e, w1)" for e w1 ts reason and f :: "session \<Rightarrow> worker_command option \<Rightarrow> start_outcome"
  proof -
    let ?n = "s\<lparr>ses_status := Queued, ses_lifecycleReason := reason, ses_nextTurnSeq := ses_nextTurnSeq s + 1,
                ses_eventCursor := ev_sequence e, ses_lastEventUpdatedAt := ts, ses_updatedAt := fst (now w1)\<rparr>"
    let ?v = "writeSession ?n (snd (now w1))"
    have "logs_ok ?v"
    proof (rule logs_ok_append [OF ok s a])
      show "\<exists>t. ev_turnSeq ?d = Some t \<and> below_all t (turns (sessionEvents (ses_sessionId s) w)) \<and> t < ses_nextTurnSeq ?n"
        using logs_ok_log [OF ok, of "ses_sessionId s"] s by (simp add: d log_ok_def)
    qed (use d logAppend_fields [OF a] in simp_all)
    moreover have "readSession (ses_sessionId ?n) ?v = Some ?n" by (simp add: log_reads_writeSession)
    ultimately have "logs_ok (snd (assignReadyWorker ?n ?v))" by (rule assignReadyWorker_logs)
    moreover have "snd (andThen (assignReadyWorker ?n) (\<lambda>(a, c). ok (f a c)) ?v) = snd (assignReadyWorker ?n ?v)"
      by (auto simp: andThen_def split: prod.splits sum.splits)
    ultimately show ?thesis
      by (simp add: acceptTurnAfterEvent_def Let_def split_def andThen_def [of "\<lambda>w. (Inr _, _ w)"] andThen_def [of "acceptTurnAfterEvent _ _ _ _ _ _"])
  qed
  show ?thesis
    using True unfolding startCreatedSession_def Let_def
    by (simp del: andThen_simps) (rule append_then [OF ok], rule rest)
qed (simp add: startCreatedSession_def ok)

text \<open>An event followed by the transition to a live status at that event.\<close>

lemma append_transition_logs:
  assumes ok: "logs_ok w" and s: "readSession sid w = Some s" and sid: "ses_sessionId s = sid"
    and d: "ev_sessionId d = Some sid" "ev_sequence d = ses_eventCursor s + 1" "\<not> turn_event d" and st: "\<not> terminal_status st"
    and cont: "\<And>e v n. logs_ok v \<Longrightarrow> readSession sid v = Some n \<Longrightarrow> logs_ok (snd (f e n v))"
  shows "logs_ok (snd (andThen (logAppend g d) (\<lambda>e.
           andThen (transitionAfterEvent hook s st (ev_sequence e) (ev_timestamp e) reason) (f e)) w))"
proof (rule append_then [OF ok])
  fix e w1 assume a: "logAppend g d w = (Inr e, w1)"
  let ?n = "s\<lparr>ses_status := st, ses_lifecycleReason := reason, ses_eventCursor := ev_sequence e,
      ses_lastEventUpdatedAt := ev_timestamp e, ses_updatedAt := fst (now w1)\<rparr>"
  let ?v = "writeSession ?n (snd (now w1))"
  have "logs_ok ?v"
    by (rule logs_ok_append [OF ok s a]) (use d sid logAppend_fields [OF a] in simp_all)
  moreover have "readSession sid ?v = Some ?n" using sid by (simp add: log_reads_writeSession)
  ultimately have "logs_ok (snd (f e ?n ?v))" by (rule cont)
  with st show "logs_ok (snd (andThen (transitionAfterEvent hook s st (ev_sequence e) (ev_timestamp e) reason) (f e) w1))"
    by (simp add: andThen_def transitionAfterEvent_live Let_def)
qed

lemma requestPause_logs:
  assumes ok: "logs_ok w" and s: "readSession (ses_sessionId s) w = Some s"
  shows "logs_ok (snd (requestPause hook s ac reason ackId w))"
proof -
  obtain i v where i: "freshId w = (i, v)" by (cases "freshId w")
  have v: "same_logs w v" using same_logs_readings(2) [of w] i by simp
  have "logs_ok (snd (andThen (logAppend (Some i)
      ((draft SessionPauseRequested ac (PausePayload (Some reason)) (ses_eventCursor s + 1) (Some (ses_sessionId s)))
        \<lparr>ev_ackId := ackId, ev_workerId := ses_currentWorkerId s, ev_sessionLeaseId := ses_sessionLeaseId s\<rparr>)) (\<lambda>e.
      andThen (transitionAfterEvent hook s Pausing (ev_sequence e) (ev_timestamp e) (Some reason)) (\<lambda>pausing.
      andThen (pauseCommand pausing e) (\<lambda>command.
        ok \<lparr>po_session = pausing, po_requestedEvent = e, po_workerCommand = command\<rparr>))) v))"
  proof (rule append_transition_logs [where sid = "ses_sessionId s"])
    fix e u and n :: session assume "logs_ok u"
    with same_logs_ok [OF pauseCommand_same, of n e u]
    show "logs_ok (snd (andThen (pauseCommand n e) (\<lambda>command.
        ok \<lparr>po_session = n, po_requestedEvent = e, po_workerCommand = command\<rparr>) u))" by simp
  qed (use ok s v in \<open>simp_all add: same_logs_ok same_logs_reads draft_def turn_event_def\<close>)
  with ok i show ?thesis
    by (auto simp: requestPause_def assertWorkerLease_def andThen_def [of "assertWorkerLease s"])
qed

text \<open>What the reconciler must promise.\<close>

definition keeps_logs :: "'a wop \<Rightarrow> bool" where
  "keeps_logs m = (\<forall>w. logs_ok w \<longrightarrow> logs_ok (snd (m w)))"

lemma requestResume_logs:
  assumes ok: "logs_ok w" and s: "readSession sid w = Some s" and rec: "keeps_logs (sc_reconcile cfg)"
  shows "logs_ok (snd (requestResume cfg sid s ac er reason ackId w))"
  unfolding requestResume_def
proof (rule append_transition_logs [OF ok s])
  fix e u and n :: session assume "logs_ok u"
  with rec have "logs_ok (snd (sc_reconcile cfg u))" by (simp add: keeps_logs_def)
  then show "logs_ok (snd (andThen (sc_reconcile cfg) (\<lambda>_ w.
         ok \<lparr>ro_session = orElse (readSession sid w) n, ro_resumeRequestedEvent = e\<rparr> w) u))"
    by (auto simp: andThen_def split: prod.splits sum.splits)
qed (use ok s logs_ok_id in \<open>simp_all add: draft_def turn_event_def\<close>)

lemma advanceEventCursor_eq:
  "advanceEventCursor s sq w =
     (let n = s\<lparr>ses_eventCursor := sq, ses_lastEventUpdatedAt := fst (now w), ses_updatedAt := fst (now w)\<rparr>
      in (n, writeSession n (snd (now w))))"
  by (simp add: advanceEventCursor_def Let_def split_def)

text \<open>An event followed by moving the cursor of the stored record to it.\<close>

lemma append_advance_logs:
  assumes ok: "logs_ok w" and s: "readSession sid w = Some s"
    and d: "ev_sessionId d = Some sid" "ev_sequence d = ses_eventCursor s + 1"
    and turn: "turn_event d \<Longrightarrow> \<exists>t. ev_turnSeq d = Some t \<and> below_all t (turns (sessionEvents sid w)) \<and> t < ses_nextTurnSeq s"
    and a: "logAppend g d w = (Inr e, w1)"
  shows "logs_ok (snd (advanceEventCursor s (ev_sequence e) w1))
    \<and> readSession sid (snd (advanceEventCursor s (ev_sequence e) w1)) = Some (fst (advanceEventCursor s (ev_sequence e) w1))"
proof -
  let ?n = "s\<lparr>ses_eventCursor := ev_sequence e, ses_lastEventUpdatedAt := fst (now w1), ses_updatedAt := fst (now w1)\<rparr>"
  have sid: "ses_sessionId s = sid" using ok s by (rule logs_ok_id)
  have "logs_ok (writeSession ?n (snd (now w1)))"
    by (rule logs_ok_append [OF ok s a]) (use d turn sid logAppend_fields [OF a] in simp_all)
  with sid show ?thesis by (simp add: advanceEventCursor_eq Let_def log_reads_writeSession)
qed

lemma allocated_turn:
  assumes ok: "logs_ok w" and s: "readSession sid w = Some s" and al: "allocateNextTurn s w = ((al, t), w1)"
  shows "logs_ok w1" and "readSession sid w1 = Some al" and "ses_eventCursor al = ses_eventCursor s"
    and "t < ses_nextTurnSeq al" and "below_all t (turns (sessionEvents sid w1))"
proof -
  have sid: "ses_sessionId s = sid" using ok s by (rule logs_ok_id)
  from al have al_eq: "al = s\<lparr>ses_nextTurnSeq := ses_nextTurnSeq s + 1, ses_updatedAt := fst (now w)\<rparr>"
    "t = ses_nextTurnSeq s" "w1 = writeSession al (snd (now w))"
    by (auto simp: allocateNextTurn_def Let_def split_def)
  have v: "same_logs w (snd (now w))" by simp
  show "logs_ok w1" unfolding al_eq(3)
    by (rule logs_ok_write [where s = s])
       (use ok s sid al_eq(1) same_logs_reads [OF v] same_logs_ok [OF v] in simp_all)
  show "readSession sid w1 = Some al" using al_eq sid by (simp add: log_reads_writeSession)
  show "ses_eventCursor al = ses_eventCursor s" "t < ses_nextTurnSeq al" by (simp_all add: al_eq(1,2))
  show "below_all t (turns (sessionEvents sid w1))"
    using logs_ok_log [OF ok, of sid] s al_eq same_logs_reads [OF v] by (simp add: log_reads_writeSession log_ok_def)
qed

lemma acceptInputFrom_logs:
  assumes ok: "logs_ok w" and s: "readSession sid w = Some s"
  shows "logs_ok (snd (acceptInputFrom ctx sid ackId request s w))"
proof -
  obtain al t w1 where al: "allocateNextTurn s w = ((al, t), w1)" by (cases "allocateNextTurn s w") auto
  note a = allocated_turn [OF ok s al]
  show ?thesis
    unfolding acceptInputFrom_def Let_def al split_def fst_conv snd_conv
  proof (rule append_then [OF a(1)])
    fix e :: runtime_event and w2
    let ?d = "(draft InputAccepted CentralActor
        (JsonPayload (jobj [(''input'', jfield ''input'' request), (''status'', Some (JStr ''accepted'')),
                            (''acceptedBy'', Some (JStr (rq_principalId ctx)))]))
        (ses_eventCursor al + 1) (Some sid))\<lparr>ev_ackId := ackId, ev_turnSeq := Some t\<rparr>"
    let ?n = "fst (advanceEventCursor al (ev_sequence e) w2)" and ?v = "snd (advanceEventCursor al (ev_sequence e) w2)"
    assume e: "logAppend None ?d w1 = (Inr e, w2)"
    have n: "logs_ok ?v \<and> readSession sid ?v = Some ?n"
      by (rule append_advance_logs [OF a(1,2) _ _ _ e]) (use a(4,5) in \<open>auto simp: draft_def\<close>)
    let ?g = "(draft TurnFailed CentralActor (TurnFailedPayload (no_worker_message sid) (Some ''no_current_worker'') None)
                (ses_eventCursor ?n + 1) (Some sid))\<lparr>ev_turnSeq := Some t\<rparr>"
    show "logs_ok (snd (if \<not> truthy (ses_currentWorkerId ?n)
        then andThen (logAppend None ?g) (\<lambda>f w4. ok \<lparr>io_session = fst (advanceEventCursor ?n (ev_sequence f) w4),
               io_inputAcceptedEvent = e, io_workerCommand = None, io_turnFailedEvent = Some f\<rparr>
               (snd (advanceEventCursor ?n (ev_sequence f) w4))) ?v
        else ok \<lparr>io_session = ?n, io_inputAcceptedEvent = e,
               io_workerCommand = Some (input_command sid ?n t (orElse (jfield ''input'' request) JNull) (fst (freshId ?v)) e),
               io_turnFailedEvent = None\<rparr> (snd (freshId ?v))))"
    proof (cases "truthy (ses_currentWorkerId ?n)")
      case True
      with n show ?thesis by (simp add: same_logs_ok)
    next
      case False
      have "logs_ok (snd (andThen (logAppend None ?g) (\<lambda>f w4. ok \<lparr>io_session = fst (advanceEventCursor ?n (ev_sequence f) w4),
               io_inputAcceptedEvent = e, io_workerCommand = None, io_turnFailedEvent = Some f\<rparr>
               (snd (advanceEventCursor ?n (ev_sequence f) w4))) ?v))"
      proof (rule append_then)
        fix f w4 assume f: "logAppend None ?g ?v = (Inr f, w4)"
        from n have n1: "logs_ok ?v" and n2: "readSession sid ?v = Some ?n" by simp_all
        have "logs_ok (snd (advanceEventCursor ?n (ev_sequence f) w4))"
          by (rule append_advance_logs [OF n1 n2 _ _ _ f, THEN conjunct1]) (simp_all add: draft_def turn_event_def)
        then show "logs_ok (snd (ok \<lparr>io_session = fst (advanceEventCursor ?n (ev_sequence f) w4),
               io_inputAcceptedEvent = e, io_workerCommand = None, io_turnFailedEvent = Some f\<rparr>
               (snd (advanceEventCursor ?n (ev_sequence f) w4))))" by simp
      qed (use n in simp)
      with False show ?thesis by simp
    qed
  qed
qed

lemma acceptInput_logs: "logs_ok w \<Longrightarrow> logs_ok (snd (acceptInput ctx sid ackId request w))"
  by (cases rule: publicSession_cases [of ctx sid w]) (simp_all add: acceptInput_def andThen_def [of "publicSession _ _"] acceptInputFrom_logs)

lemma pauseSession_logs: "logs_ok w \<Longrightarrow> logs_ok (snd (pauseSession cfg ctx sid ackId w))"
proof (cases rule: publicSession_cases [of ctx sid w])
  case (found s)
  assume ok: "logs_ok w"
  then have "ses_sessionId s = sid" using found(1) by (rule logs_ok_id)
  with ok found(1) have "logs_ok (snd (requestPause (sc_hook cfg) s ClientActor ''client_requested'' ackId w))"
    by (simp add: requestPause_logs)
  with found(3) ok show ?thesis by (simp add: pauseSession_def andThen_def [of "publicSession _ _"])
qed (simp add: pauseSession_def andThen_def [of "publicSession _ _"])

lemma resumeSession_logs:
  assumes "logs_ok w" and "keeps_logs (sc_reconcile cfg)"
  shows "logs_ok (snd (resumeSession cfg ctx sid ackId w))"
  using assms by (cases rule: publicSession_cases [of ctx sid w])
    (simp_all add: resumeSession_def andThen_def [of "publicSession _ _"] requestResume_logs)

lemma pauseDelegatedSession_logs: "logs_ok w \<Longrightarrow> logs_ok (snd (pauseDelegatedSession cfg sid w))"
proof (cases rule: requireDelegatedSession_cases [of sid w])
  case (found s)
  assume ok: "logs_ok w"
  then have "ses_sessionId s = sid" using found(1) by (rule logs_ok_id)
  with ok found(1) have "logs_ok (snd (requestPause (sc_hook cfg) s CentralActor ''parent_terminal'' None w))"
    by (simp add: requestPause_logs)
  with found(3) ok show ?thesis by (simp add: pauseDelegatedSession_def andThen_def [of "requireDelegatedSession _"])
qed (simp add: pauseDelegatedSession_def andThen_def [of "requireDelegatedSession _"])

lemma resumeDelegatedSession_logs:
  assumes "logs_ok w" and "keeps_logs (sc_reconcile cfg)"
  shows "logs_ok (snd (resumeDelegatedSession cfg sid w))"
  using assms by (cases rule: requireDelegatedSession_cases [of sid w])
    (simp_all add: resumeDelegatedSession_def andThen_def [of "requireDelegatedSession _"] requestResume_logs)

text \<open>A session that \<open>create\<close> returns is the stored one.\<close>

lemma lifecycleCreate_stored:
  assumes ok: "logs_ok w"
  shows "logs_ok (snd (lifecycleCreate i w))
    \<and> (\<forall>s w1. lifecycleCreate i w = (Inr s, w1) \<longrightarrow> readSession (ses_sessionId s) w1 = Some s)"
proof -
  obtain sid v where sid: "idOr (ci_sessionId i) (snd (now w)) = (sid, v)" by (cases "idOr (ci_sessionId i) (snd (now w))")
  have v: "logs_ok v" using ok sid same_logs_readings(3) [of "snd (now w)" "ci_sessionId i"] by (simp add: same_logs_ok)
  have stored: "readSession (ses_sessionId a) u = Some a \<and> logs_ok u" if "createSession s v = ((a, b), u)" for s a b u
    using that logs_ok_create [OF v, of s] logs_ok_id [OF v, of "ses_sessionId s"]
    by (auto simp: createSession_def log_reads_writeSession split: option.splits)
  show ?thesis
    using sid stored by (auto simp: lifecycleCreate_def Let_def split_def split: if_splits prod.splits) (metis prod.collapse)+
qed

lemma startSession_logs:
  assumes ok: "logs_ok w"
  shows "logs_ok (snd (startSession cfg ctx ackId request w))"
proof (cases "specResolve (sc_specs cfg) (requested_spec request)")
  case (Inl e)
  with ok show ?thesis by (simp add: startSession_def ofResult_def)
next
  case (Inr spec)
  obtain ra v where ra: "resolveSpec (sc_tools cfg) (sc_specDigest cfg) spec w = (ra, v)" by (cases "resolveSpec (sc_tools cfg) (sc_specDigest cfg) spec w")
  obtain ws u where ws: "freshId v = (ws, u)" by (cases "freshId v")
  have "same_logs w v" using ra by (auto simp: resolveSpec_def Let_def split_def)
  then have u: "logs_ok u" using ok ws same_logs_readings(2) [of v] by (simp add: same_logs_ok)
  let ?i = "\<lparr>ci_sessionId = None, ci_tenantId = sc_tenantId cfg, ci_owner = rq_principalId ctx,
               ci_resolvedAgentSpec = ra, ci_workspaceRef = ws, ci_delegationBinding = None,
               ci_requiredWorkerLabels = None\<rparr>"
  have "logs_ok (snd (andThen (lifecycleCreate ?i) (\<lambda>s. startCreatedSession s None ackId pl) u))" for pl
  proof (cases "lifecycleCreate ?i u")
    case (Pair r x)
    with lifecycleCreate_stored [OF u, of ?i] show ?thesis
      by (cases r) (simp_all add: andThen_def startCreatedSession_logs)
  qed
  with Inr ra ws show ?thesis by (simp add: startSession_def ofResult_def)
qed

datatype session_op =
    StartSession request_context "string option" json
  | AcceptInput request_context string "string option" json
  | PauseSession request_context string "string option"
  | ResumeSession request_context string "string option"
  | PauseDelegated string
  | ResumeDelegated string
  | ListSessions request_context "string option"
  | ReadSessionEvents request_context string "string option" int

fun run_session_op :: "session_config \<Rightarrow> session_op \<Rightarrow> world \<Rightarrow> world" where
  "run_session_op cfg (StartSession ctx a req) w = snd (startSession cfg ctx a req w)"
| "run_session_op cfg (AcceptInput ctx sid a req) w = snd (acceptInput ctx sid a req w)"
| "run_session_op cfg (PauseSession ctx sid a) w = snd (pauseSession cfg ctx sid a w)"
| "run_session_op cfg (ResumeSession ctx sid a) w = snd (resumeSession cfg ctx sid a w)"
| "run_session_op cfg (PauseDelegated sid) w = snd (pauseDelegatedSession cfg sid w)"
| "run_session_op cfg (ResumeDelegated sid) w = snd (resumeDelegatedSession cfg sid w)"
| "run_session_op cfg (ListSessions ctx a) w = snd (listSessions ctx a w)"
| "run_session_op cfg (ReadSessionEvents ctx sid a n) w = snd (readSessionEvents ctx sid a n w)"

lemma response_event_same: "same_logs w (snd (response_event sid a ty pl w))"
  by (simp add: response_event_def Let_def split_def same_logs_def tab_simps)

lemma run_session_op_logs:
  assumes ok: "logs_ok w" and rec: "keeps_logs (sc_reconcile cfg)"
  shows "logs_ok (run_session_op cfg op w)"
proof (cases op)
  case (ReadSessionEvents ctx sid a n)
  have "same_logs w (snd (readSessionEvents ctx sid a n w))"
    using response_event_same by (cases rule: publicSession_cases [of ctx sid w])
      (simp_all add: readSessionEvents_def andThen_def Let_def split_def)
  with ok ReadSessionEvents show ?thesis by (simp add: same_logs_ok)
next
  case (ListSessions ctx a)
  with ok show ?thesis by (simp add: listSessions_def same_logs_ok [OF response_event_same])
qed (use ok rec in \<open>simp_all add: startSession_logs acceptInput_logs pauseSession_logs resumeSession_logs
       pauseDelegatedSession_logs resumeDelegatedSession_logs\<close>)

lemma run_session_ops_logs:
  "logs_ok w \<Longrightarrow> keeps_logs (sc_reconcile cfg) \<Longrightarrow> logs_ok (fold (run_session_op cfg) ops w)"
  by (induction ops arbitrary: w) (simp_all add: run_session_op_logs)

subsection \<open>Assigning a worker\<close>

lemma select_eligible: "select t s ks = Some k \<Longrightarrow> k \<in> set ks \<and> (\<exists>i. eligible (t i) s k)"
proof -
  let ?el = "map snd (filter (\<lambda>(i, k). eligible (t i) s k) (enumerate 0 ks))"
  assume sel: "select t s ks = Some k"
  then have "k \<in> set ?el"
    using hd_sort_key_min [of ?el freshness_of] hd_in_set [of ?el]
    by (auto simp only: select_def Let_def split: if_splits)
  then show ?thesis by (auto simp: in_set_enumerate_eq)
qed

lemma assignReadyWorker_assigns:
  assumes keyed: "keyed wk_workerId (w_workers w)" and run: "assignReadyWorker s w = (Inr (a, Some c), w1)"
  obtains k i lease t where "readWorker (wk_workerId k) w = Some k" "eligible i s k"
    "a = s\<lparr>ses_currentWorkerId := Some (wk_workerId k), ses_sessionLeaseId := Some lease,
           ses_storageClass := Some (orElse (ses_storageClass s) (wk_storageClass k)), ses_status := Starting\<rparr>"
    "wc_workerId c = wk_workerId k" "ev_sessionLeaseId (wc_event c) = Some lease"
    "w_workers w1 = tput (wk_workerId k) (placed_worker s k t) (w_workers w)"
    "w_sessions w1 = tput (ses_sessionId s) a (w_sessions w)"
proof -
  let ?w0 = "tick_by (length (readWorkers w)) w"
  from run obtain k where k: "select (readings w) s (readWorkers w) = Some k"
    by (cases "select (readings w) s (readWorkers w)") (auto simp: assignReadyWorker_def)
  from select_eligible [OF k] obtain i where k1: "k \<in> set (readWorkers w)" "eligible (readings w i) s k" by blast
  obtain n v where n: "leaseAssign s k ?w0 = (n, v)" by (cases "leaseAssign s k ?w0")
  let ?w3 = "writeWorker (placed_worker s k (fst (now v))) (snd (now v))"
  obtain r where r: "planRestore n ?w3 = (r, ?w3)"
    using planRestore_same [of n ?w3] by (cases "planRestore n ?w3") simp
  from run k n r obtain x where r1: "r = Inr x" by (cases r) (simp_all add: assignReadyWorker_def andThen_def Let_def split_def)
  have w0: "w_workers ?w0 = w_workers w" "w_sessions ?w0 = w_sessions w" by (simp_all add: tick_by_def)
  show thesis
  proof (rule that [of k "readings w i" "fst (freshId ?w0)" "fst (now v)"])
    show "readWorker (wk_workerId k) w = Some k"
      using k1(1) tall_tget [OF keyed] by (simp add: readWorker_def readWorkers_def)
  qed (use run k k1 n r r1 w0 in \<open>auto simp: assignReadyWorker_def andThen_def Let_def split_def leaseAssign_def tab_simps
         writeWorker_def writeSession_def placed_worker_def\<close>)
qed

text \<open>
  Several assignments, one after the other; before each of them other tasks change the world. The trace
  holds the worker and the session of each command.
\<close>

fun placement :: "error + session \<times> worker_command option \<Rightarrow> (string \<times> string) list" where
  "placement (Inr (a, Some c)) = [(wc_workerId c, ses_sessionId a)]"
| "placement _ = []"

lemma in_placementE:
  assumes "(k, x) \<in> set (placement r)"
  obtains a c where "r = Inr (a, Some c)" "k = wc_workerId c" "x = ses_sessionId a"
  using assms by (cases r rule: placement.cases) auto

fun assign_in_turn :: "tasks \<Rightarrow> session list \<Rightarrow> world \<Rightarrow> (string \<times> string) list" where
  "assign_in_turn env [] w = []"
| "assign_in_turn env (s # ss) w =
     (let (r, w1) = assignReadyWorker s (disturb env w) in placement r @ assign_in_turn (tl env) ss w1)"

text \<open>
  A worker whose pool does not reuse workers has a slot for one session: \<open>Some None\<close> while it is free,
  \<open>Some (Some sid)\<close> once it is bound.
\<close>

definition slot :: "string \<Rightarrow> world \<Rightarrow> string option option" where
  "slot wid w =
     (case readWorker wid w of
        None \<Rightarrow> None
      | Some k \<Rightarrow> if wk_reuse k = Some False then Some (wk_boundSessionId k) else None)"

definition bound_or_free :: "string option option \<Rightarrow> bool" where
  "bound_or_free sl = (sl \<noteq> None \<and> sl \<noteq> Some (Some []))"

text \<open>What the other tasks keep: heartbeats and releases do not touch the placement of a worker.\<close>

definition keeps_placement :: "(world \<Rightarrow> world) \<Rightarrow> bool" where
  "keeps_placement f =
     (\<forall>w. keyed wk_workerId (w_workers w) \<longrightarrow> keyed wk_workerId (w_workers (f w))
        \<and> (\<forall>wid. bound_or_free (slot wid w) \<longrightarrow>
             bound_or_free (slot wid (f w)) \<and> (slot wid w \<noteq> Some None \<longrightarrow> slot wid (f w) = slot wid w)))"

lemma disturb_placement:
  assumes "keyed wk_workerId (w_workers w)" and "\<forall>f \<in> set env. keeps_placement f"
  shows "keyed wk_workerId (w_workers (disturb env w))
    \<and> (bound_or_free (slot wid w) \<longrightarrow> bound_or_free (slot wid (disturb env w))
        \<and> (slot wid w \<noteq> Some None \<longrightarrow> slot wid (disturb env w) = slot wid w))"
  using assms by (cases env) (simp_all add: disturb_def keeps_placement_def)

lemma assign_workers_table:
  assumes "assignReadyWorker s w = (r, w1)" and "keyed wk_workerId (w_workers w)"
  shows "w_workers w1 = w_workers w \<and> (\<nexists>a c. r = Inr (a, Some c))
    \<or> (\<exists>k i t. readWorker (wk_workerId k) w = Some k \<and> eligible i s k
          \<and> w_workers w1 = tput (wk_workerId k) (placed_worker s k t) (w_workers w)
          \<and> (\<forall>a c. r = Inr (a, Some c) \<longrightarrow> ses_sessionId a = ses_sessionId s \<and> wc_workerId c = wk_workerId k))"
proof (cases "select (readings w) s (readWorkers w)")
  case None
  with assms(1) show ?thesis by (auto simp: assignReadyWorker_def tick_by_def)
next
  case (Some k)
  let ?w0 = "tick_by (length (readWorkers w)) w"
  from select_eligible [OF Some] obtain i where k1: "k \<in> set (readWorkers w)" "eligible (readings w i) s k" by blast
  obtain n v where n: "leaseAssign s k ?w0 = (n, v)" by (cases "leaseAssign s k ?w0")
  let ?w3 = "writeWorker (placed_worker s k (fst (now v))) (snd (now v))"
  obtain x where x: "planRestore n ?w3 = (x, ?w3)"
    using planRestore_same [of n ?w3] by (cases "planRestore n ?w3") simp
  have "w_workers v = w_workers w" using n
    by (auto simp: leaseAssign_def Let_def split_def writeSession_def tick_by_def freshId_def)
  then have "w_workers w1 = tput (wk_workerId k) (placed_worker s k (fst (now v))) (w_workers w)"
    using assms(1) Some n x by (cases x)
      (auto simp: assignReadyWorker_def andThen_def Let_def split_def tab_simps writeWorker_def placed_worker_def)
  moreover have "ses_sessionId a = ses_sessionId s \<and> wc_workerId c = wk_workerId k" if "r = Inr (a, Some c)" for a c
    using assms(1) Some n x that by (cases x)
      (auto simp: assignReadyWorker_def andThen_def Let_def split_def leaseAssign_def)
  moreover have "readWorker (wk_workerId k) w = Some k"
    using k1(1) tall_tget [OF assms(2)] by (simp add: readWorker_def readWorkers_def)
  ultimately show ?thesis using k1(2) by blast
qed

text \<open>One assignment keeps the slots, and fills the one it uses.\<close>

lemma assign_placement:
  assumes keyed: "keyed wk_workerId (w_workers w)" and run: "assignReadyWorker s w = (r, w1)" and sid: "ses_sessionId s \<noteq> []"
    and wid: "bound_or_free (slot wid w)"
  shows "keyed wk_workerId (w_workers w1) \<and> bound_or_free (slot wid w1)
    \<and> (slot wid w \<noteq> Some None \<longrightarrow> slot wid w1 = slot wid w)
    \<and> (\<forall>a c. r = Inr (a, Some c) \<longrightarrow> wc_workerId c = wid \<longrightarrow> slot wid w1 = Some (Some (ses_sessionId a)))"
  using assign_workers_table [OF run keyed]
proof (elim disjE exE conjE)
  assume "w_workers w1 = w_workers w" "\<nexists>a c. r = Inr (a, Some c)"
  with keyed wid show ?thesis by (simp add: slot_def readWorker_def)
next
  fix k i t
  assume k: "readWorker (wk_workerId k) w = Some k" "eligible i s k"
    and w1: "w_workers w1 = tput (wk_workerId k) (placed_worker s k t) (w_workers w)"
    and r: "\<forall>a c. r = Inr (a, Some c) \<longrightarrow> ses_sessionId a = ses_sessionId s \<and> wc_workerId c = wk_workerId k"
  have "wk_workerId (placed_worker s k t) = wk_workerId k" by (simp add: placed_worker_def)
  with keyed have "keyed wk_workerId (w_workers w1)" unfolding w1 by (rule keyed_tput)
  moreover have "bound_or_free (slot wid w1) \<and> (slot wid w \<noteq> Some None \<longrightarrow> slot wid w1 = slot wid w)
    \<and> (wid = wk_workerId k \<longrightarrow> slot wid w1 = Some (Some (ses_sessionId s)))"
  proof (cases "wid = wk_workerId k")
    case False
    with w1 wid show ?thesis by (simp add: slot_def readWorker_def tget_tput)
  next
    case True
    with k(1) wid have reuse: "wk_reuse k = Some False" and old: "slot wid w = Some (wk_boundSessionId k)"
      by (auto simp: slot_def bound_or_free_def split: if_splits)
    have "slot wid w1 = Some (Some (orElse (wk_boundSessionId k) (ses_sessionId s)))"
      using True w1 reuse by (simp add: slot_def readWorker_def tget_tput placed_worker_def)
    moreover have "wk_boundSessionId k = None \<or> wk_boundSessionId k = Some (ses_sessionId s)"
      using k(2) reuse wid old by (cases "wk_boundSessionId k") (auto simp: eligible_def reuseAllows_def bound_or_free_def)
    ultimately show ?thesis using old sid by (auto simp: bound_or_free_def)
  qed
  ultimately show ?thesis using r by metis
qed

lemma assign_in_turn_single:
  assumes "keyed wk_workerId (w_workers w)" and "\<forall>f \<in> set env. keeps_placement f"
    and "\<forall>s \<in> set ss. ses_sessionId s \<noteq> []" and "bound_or_free (slot wid w)"
  shows "\<exists>sid. (slot wid w \<noteq> Some None \<longrightarrow> slot wid w = Some (Some sid))
    \<and> (\<forall>(k, x) \<in> set (assign_in_turn env ss w). k = wid \<longrightarrow> x = sid)"
  using assms
proof (induction ss arbitrary: env w)
  case Nil
  then show ?case by (cases "slot wid w") (auto simp: bound_or_free_def)
next
  case (Cons s ss)
  obtain r w1 where run: "assignReadyWorker s (disturb env w) = (r, w1)" by (cases "assignReadyWorker s (disturb env w)")
  from disturb_placement [OF Cons(2,3), of wid] Cons(5) have d: "keyed wk_workerId (w_workers (disturb env w))"
    "bound_or_free (slot wid (disturb env w))" "slot wid w \<noteq> Some None \<longrightarrow> slot wid (disturb env w) = slot wid w" by simp_all
  from assign_placement [OF d(1) run _ d(2)] Cons(4) have p: "keyed wk_workerId (w_workers w1)" "bound_or_free (slot wid w1)"
    "slot wid (disturb env w) \<noteq> Some None \<longrightarrow> slot wid w1 = slot wid (disturb env w)"
    "\<forall>a c. r = Inr (a, Some c) \<longrightarrow> wc_workerId c = wid \<longrightarrow> slot wid w1 = Some (Some (ses_sessionId a))" by simp_all
  have "\<forall>f \<in> set (tl env). keeps_placement f" using Cons(3) by (cases env) simp_all
  from Cons.IH [OF p(1) this _ p(2)] Cons(4) obtain sid where
    ih: "slot wid w1 \<noteq> Some None \<longrightarrow> slot wid w1 = Some (Some sid)"
    "\<forall>(k, x) \<in> set (assign_in_turn (tl env) ss w1). k = wid \<longrightarrow> x = sid" by auto
  have now: "x = sid" if "r = Inr (a, Some c)" "wc_workerId c = wid" "x = ses_sessionId a" for a c x
    using that p(4) ih(1) by auto
  have "slot wid w \<noteq> Some None \<longrightarrow> slot wid w = Some (Some sid)" using d(3) p(3) ih(1) by auto
  moreover have "\<forall>(k, x) \<in> set (assign_in_turn env (s # ss) w). k = wid \<longrightarrow> x = sid"
    using run ih(2) now by (auto elim!: in_placementE)
  ultimately show ?case by blast
qed

subsection \<open>Snapshots\<close>

text \<open>Captures recorded one after the other, of any sessions.\<close>

fun recordCaptures :: "(session \<times> string \<times> snapshot_part list) list \<Rightarrow> world \<Rightarrow> world" where
  "recordCaptures [] w = w"
| "recordCaptures ((s, i, parts) # cs) w = recordCaptures cs (snd (recordCapture s i parts w))"

lemma resolveClass_named:
  "ses_storageClass s = Some (classId c) \<Longrightarrow> resolveClass s = ok c"
  by (cases c) (auto simp: resolveClass_def storageClasses_def fun_eq_iff)

lemma readSnapshot_recordCapture:
  "readSnapshot x y (snd (recordCapture s i parts w)) = readSnapshot x y w \<or> (x = ses_sessionId s \<and> y = i)"
proof -
  obtain r where r: "resolveClass s w = (r, w)" using resolveClass_same [of s w] by (cases "resolveClass s w") simp
  show ?thesis
  proof (cases r)
    case (Inr c)
    with r show ?thesis
      by (cases c) (auto simp: recordCapture_def andThen_def Let_def split_def readSnapshot_def writeSnapshot_def tget_tput now_def)
  qed (use r in \<open>simp add: recordCapture_def andThen_def\<close>)
qed

lemma readSnapshot_recordCaptures:
  "\<forall>(s, i, parts) \<in> set cs. (ses_sessionId s, i) \<noteq> (x, y) \<Longrightarrow> readSnapshot x y (recordCaptures cs w) = readSnapshot x y w"
proof (induction cs arbitrary: w)
  case (Cons c cs)
  obtain s i parts where c: "c = (s, i, parts)" by (cases c)
  with Cons(2) readSnapshot_recordCapture [of x y s i parts w] show ?case by (auto simp: Cons.IH)
qed simp

subsection \<open>Examples\<close>

definition ex_session_cfg :: session_config where
  "ex_session_cfg = \<lparr>sc_tenantId = ''t1'', sc_specs = [], sc_tools = (\<lambda>_. []), sc_specDigest = (\<lambda>_ _. ''digest''),
     sc_hook = None, sc_reconcile = ok ()\<rparr>"

definition alice :: request_context where
  "alice = \<lparr>rq_principalId = ''alice'', rq_principalType = UserPrincipal, rq_connectionId = Some ''c1''\<rparr>"

definition ex_input :: json where
  "ex_input = JObj [(''input'', JObj [(''message'', JStr ''go'')])]"

definition running_session :: session where
  "running_session = ex_session\<lparr>ses_status := Running, ses_currentWorkerId := Some ''k1'', ses_sessionLeaseId := Some ''l1'',
     ses_storageClass := Some ''volume-snapshot''\<rparr>"

definition running_world :: world where
  "running_world = writeSession running_session empty_world"

lemma running_world_facts: "logs_ok running_world" "readSession ''s1'' running_world = Some running_session"
proof -
  have "readSession x empty_world = None" "sessionEvents x empty_world = []" for x
    by (simp_all add: readSession_def sessionEvents_def empty_world_def)
  moreover have "ses_sessionId running_session = ''s1''" by (simp add: running_session_def ex_session_def)
  ultimately have "readSession x running_world = (if x = ''s1'' then Some running_session else None)"
    "sessionEvents x running_world = []" for x
    unfolding running_world_def log_reads_writeSession by simp_all
  then show "logs_ok running_world" "readSession ''s1'' running_world = Some running_session"
    by (simp_all add: logs_ok_def log_ok_def running_session_def ex_session_def)
qed

definition ex_single_use :: worker where
  "ex_single_use = ex_worker\<lparr>wk_reuse := Some False, wk_capacity := 2, wk_allocatable := 2\<rparr>"

definition single_use_world :: world where
  "single_use_world = writeWorker ex_single_use empty_world"

lemma single_use_world_facts:
  "readWorker ''k1'' single_use_world = Some ex_single_use" "keyed wk_workerId (w_workers single_use_world)"
proof -
  have "wk_workerId ex_single_use = ''k1''" by (simp add: ex_single_use_def ex_worker_def)
  then show "readWorker ''k1'' single_use_world = Some ex_single_use" "keyed wk_workerId (w_workers single_use_world)"
    by (simp_all add: single_use_world_def readWorker_def writeWorker_def empty_world_def tget_tput keyed_tput)
qed

subsection \<open>Properties\<close>

text \<open>
  C18: the session manager keeps every session's log in order. After any sequence of its operations, by any
  clients and on any sessions, accepted or refused, each session's events carry strictly increasing sequence
  numbers up to its cursor, and its accepted inputs carry strictly increasing turn numbers, all below the
  next one it will allocate. The reconciler it calls must keep this too.
\<close>

lemma session_logs_stay_ordered:
  assumes "logs_ok w" and "keeps_logs (sc_reconcile cfg)" and "readSession sid (fold (run_session_op cfg) ops w) = Some s"
  shows "sorted_wrt (<) (map ev_sequence (sessionEvents sid (fold (run_session_op cfg) ops w)))
    \<and> (\<forall>e \<in> set (sessionEvents sid (fold (run_session_op cfg) ops w)). ev_sequence e \<le> ses_eventCursor s)
    \<and> sorted_wrt (<) (turns (sessionEvents sid (fold (run_session_op cfg) ops w)))
    \<and> (\<forall>t \<in> set (turns (sessionEvents sid (fold (run_session_op cfg) ops w))). t < ses_nextTurnSeq s)"
  using logs_ok_log [OF run_session_ops_logs [OF assms(1,2)], of sid ops] assms(3)
  by (simp add: log_ok_def below_all_def)

lemma session_logs_stay_ordered_witness:
  "\<exists>s. readSession ''s1'' (fold (run_session_op ex_session_cfg) [AcceptInput alice ''s1'' None ex_input, PauseSession alice ''s1'' None] running_world) = Some s
    \<and> turns (sessionEvents ''s1'' (fold (run_session_op ex_session_cfg) [AcceptInput alice ''s1'' None ex_input, PauseSession alice ''s1'' None] running_world)) = [1]
    \<and> sorted_wrt (<) (map ev_sequence (sessionEvents ''s1'' (fold (run_session_op ex_session_cfg) [AcceptInput alice ''s1'' None ex_input, PauseSession alice ''s1'' None] running_world)))"
proof -
  let ?w = "fold (run_session_op ex_session_cfg) [AcceptInput alice ''s1'' None ex_input, PauseSession alice ''s1'' None] running_world"
  have "case readSession ''s1'' ?w of None \<Rightarrow> False | Some s \<Rightarrow> turns (sessionEvents ''s1'' ?w) = [1]" by code_simp
  then obtain s where "readSession ''s1'' ?w = Some s" "turns (sessionEvents ''s1'' ?w) = [1]" by (auto split: option.splits)
  moreover have "keeps_logs (sc_reconcile ex_session_cfg)" by (simp add: keeps_logs_def ex_session_cfg_def)
  ultimately show ?thesis using session_logs_stay_ordered [OF running_world_facts(1)] by blast
qed



text \<open>
  C33: an assignment takes exactly one place of a worker that may serve the session. When \<open>assignReadyWorker\<close>
  returns a command, its worker was active, unexpired, ready and had the labels the session needs; the worker's
  record has one place less (never fewer than none) and one session more, and says busy, and no longer ready,
  when that was the last place; the session is stored as starting, under the lease the command carries; no other
  worker or session has changed.
\<close>

lemma assignment_takes_one_place:
  assumes "keyed wk_workerId (w_workers w)" and "assignReadyWorker s w = (Inr (a, Some c), w1)"
  shows "\<exists>k k1 t. readWorker (wc_workerId c) w = Some k \<and> readWorker (wc_workerId c) w1 = Some k1 \<and> eligible t s k
    \<and> wk_allocatable k1 = wk_allocatable k - 1 \<and> 0 \<le> wk_allocatable k1
    \<and> wk_currentSessionCount k1 = wk_currentSessionCount k + 1
    \<and> wk_conditions k1 = (if wk_allocatable k1 = 0 then [Busy] else wk_conditions k)
    \<and> readSession (ses_sessionId s) w1 = Some a \<and> ses_status a = Starting \<and> ses_currentWorkerId a = Some (wc_workerId c)
    \<and> ses_sessionLeaseId a = ev_sessionLeaseId (wc_event c) \<and> ses_sessionLeaseId a \<noteq> None
    \<and> (\<forall>x. x \<noteq> wc_workerId c \<longrightarrow> readWorker x w1 = readWorker x w)
    \<and> (\<forall>x. x \<noteq> ses_sessionId s \<longrightarrow> readSession x w1 = readSession x w)"
proof -
  from assignReadyWorker_assigns [OF assms] obtain k i lease t where
    k: "readWorker (wk_workerId k) w = Some k" "eligible i s k"
    and a: "a = s\<lparr>ses_currentWorkerId := Some (wk_workerId k), ses_sessionLeaseId := Some lease,
           ses_storageClass := Some (orElse (ses_storageClass s) (wk_storageClass k)), ses_status := Starting\<rparr>"
    and c: "wc_workerId c = wk_workerId k" "ev_sessionLeaseId (wc_event c) = Some lease"
    and w: "w_workers w1 = tput (wk_workerId k) (placed_worker s k t) (w_workers w)"
      "w_sessions w1 = tput (ses_sessionId s) a (w_sessions w)" by metis
  have "0 < wk_allocatable k" using k(2) by (simp add: eligible_def)
  then have pl: "wk_allocatable (placed_worker s k t) = wk_allocatable k - 1" "0 \<le> wk_allocatable k - 1"
    "wk_currentSessionCount (placed_worker s k t) = wk_currentSessionCount k + 1"
    "wk_conditions (placed_worker s k t) = (if wk_allocatable k - 1 = 0 then [Busy] else wk_conditions k)"
    by (simp_all add: placed_worker_def)
  show ?thesis
    by (rule exI [of _ k], rule exI [of _ "placed_worker s k t"], rule exI [of _ i])
       (use k a c w pl in \<open>simp add: readWorker_def readSession_def tget_tput\<close>)
qed

lemma assignment_takes_one_place_witness:
  "\<exists>a c w1 k1. assignReadyWorker ex_session single_use_world = (Inr (a, Some c), w1)
    \<and> readWorker (wc_workerId c) w1 = Some k1 \<and> wk_allocatable k1 = 1"
proof -
  have "map fst (placement (fst (assignReadyWorker ex_session single_use_world))) = [''k1'']" by code_simp
  then obtain a c w1 where r: "assignReadyWorker ex_session single_use_world = (Inr (a, Some c), w1)" "wc_workerId c = ''k1''"
    by (cases "assignReadyWorker ex_session single_use_world") (auto elim: placement.elims)
  from assignment_takes_one_place [OF single_use_world_facts(2) r(1)] single_use_world_facts(1) r show ?thesis by (auto simp: ex_single_use_def)
qed

text \<open>
  C28: a snapshot comes back. Plan the capture of a session under its storage class, record what the worker
  captured, let any captures of other sessions or under other names be recorded, and pause the session at its
  snapshot: the restore that is planned for the paused session names the very snapshot, class and handle that
  were handed to the worker for the capture, with the parts it reported. A class that does not move data plans
  neither a capture nor a restore.
\<close>

lemma snapshot_round_trip:
  assumes "ses_storageClass s = Some (classId c)" and "i \<noteq> []"
    and "\<forall>(s1, i1, ps) \<in> set others. (ses_sessionId s1, i1) \<noteq> (ses_sessionId s, i)"
    and "pauseAfterEvent s sq ts reason (Some i) (recordCaptures others (snd (recordCapture s i parts w))) = (p, w2)"
  shows "\<exists>cap. planCapture s i w = (Inr cap, w) \<and> (cap \<noteq> None \<longleftrightarrow> attachmentKindOf c = WorkerPull)
    \<and> planRestore p w2 = (Inr (map_option (\<lambda>x. \<lparr>rr_snapshotId = cr_snapshotId x, rr_storageClass = cr_storageClass x,
                                              rr_handle = cr_handle x, rr_parts = parts\<rparr>) cap), w2)"
proof -
  let ?v = "recordCaptures others (snd (recordCapture s i parts w))"
  note cls = resolveClass_named [OF assms(1)]
  from assms(4) have p: "ses_storageClass p = Some (classId c)" "ses_latestSnapshotRef p = Some i" "ses_sessionId p = ses_sessionId s"
    and w2: "readSnapshot x y w2 = readSnapshot x y ?v" for x y
    using assms(1) by (auto simp: pauseAfterEvent_def Let_def split_def readSnapshot_def writeSession_def now_def)
  note clsp = resolveClass_named [OF p(1)]
  have read: "readSnapshot (ses_sessionId s) i w2 = readSnapshot (ses_sessionId s) i (snd (recordCapture s i parts w))"
    unfolding w2 by (rule readSnapshot_recordCaptures [OF assms(3)])
  show ?thesis
  proof (cases c)
    case VolumeSnapshotStorageClass
    have "readSnapshot (ses_sessionId s) i (snd (recordCapture s i parts w)) =
        Some \<lparr>sn_snapshotId = i, sn_sessionId = ses_sessionId s, sn_storageClass = classId c,
              sn_handle = buildHandle (ses_sessionId s) i, sn_parts = parts, sn_baseEventCursor = ses_eventCursor s,
              sn_createdAt = fst (now w)\<rparr>"
      using cls VolumeSnapshotStorageClass
      by (simp add: recordCapture_def Let_def split_def readSnapshot_def writeSnapshot_def tget_tput)
    with read cls clsp p assms(2) VolumeSnapshotStorageClass show ?thesis
      by (simp add: planCapture_def planRestore_def)
  next
    case HostManagedStorageClass
    with cls clsp show ?thesis by (simp add: planCapture_def planRestore_def)
  qed
qed

lemma snapshot_round_trip_witness:
  "\<exists>cap p w2. pauseAfterEvent running_session 3 0 None (Some ''sn1'') (recordCaptures [(running_session, ''sn2'', [])]
       (snd (recordCapture running_session ''sn1'' [WorkspacePart] running_world))) = (p, w2)
    \<and> planRestore p w2 = (Inr (Some \<lparr>rr_snapshotId = ''sn1'', rr_storageClass = ''volume-snapshot'',
         rr_handle = cr_handle (cap :: capture_ref), rr_parts = [WorkspacePart]\<rparr>), w2)"
proof -
  obtain p w2 where r: "pauseAfterEvent running_session 3 0 None (Some ''sn1'') (recordCaptures [(running_session, ''sn2'', [])]
       (snd (recordCapture running_session ''sn1'' [WorkspacePart] running_world))) = (p, w2)"
    by (cases "pauseAfterEvent running_session 3 0 None (Some ''sn1'') (recordCaptures [(running_session, ''sn2'', [])]
       (snd (recordCapture running_session ''sn1'' [WorkspacePart] running_world)))")
  have "ses_storageClass running_session = Some (classId VolumeSnapshotStorageClass)" by (simp add: running_session_def)
  from snapshot_round_trip [OF this _ _ r] obtain cap where cap: "planCapture running_session ''sn1'' running_world = (Inr cap, running_world)"
    "planRestore p w2 = (Inr (map_option (\<lambda>x. \<lparr>rr_snapshotId = cr_snapshotId x, rr_storageClass = cr_storageClass x,
       rr_handle = cr_handle x, rr_parts = [WorkspacePart]\<rparr>) cap), w2)" by auto
  have "resolveClass running_session = ok VolumeSnapshotStorageClass" by (rule resolveClass_named) (simp add: running_session_def)
  with cap(1) obtain x where "cap = Some x" "cr_snapshotId x = ''sn1''" "cr_storageClass x = ''volume-snapshot''"
    by (auto simp: planCapture_def)
  with cap(2) r show ?thesis by auto
qed

text \<open>
  an input is recorded once, under the next turn. For a session of the caller, \<open>acceptInput\<close> stores one
  event with the next sequence number and the turn number the session was about to allocate; with a worker it
  returns the command for that worker, for the same turn and lease; without one it records at once that this turn
  failed, and sends no command. The stored cursor is the sequence number of the last event. Anybody else is
  refused without an effect.
\<close>

lemma accept_input_takes_one_turn:
  assumes "logs_ok w" and "readSession sid w = Some s" and "sid \<noteq> []" and "acceptInput ctx sid ackId request w = (r, w1)"
  shows "if ses_owner s \<noteq> rq_principalId ctx then r = Inl (SessionNotFound sid) \<and> w1 = w
    else \<exists>out e s1. r = Inr out \<and> e = io_inputAcceptedEvent out \<and> s1 = io_session out
      \<and> ev_type e = InputAccepted \<and> ev_sequence e = ses_eventCursor s + 1 \<and> ev_turnSeq e = Some (ses_nextTurnSeq s)
      \<and> readSession sid w1 = Some s1 \<and> ses_nextTurnSeq s1 = ses_nextTurnSeq s + 1
      \<and> ses_eventCursor s1 = ev_sequence (last (sessionEvents sid w1)) \<and> ses_status s1 = ses_status s
      \<and> (if truthy (ses_currentWorkerId s)
         then sessionEvents sid w1 = sessionEvents sid w @ [e] \<and> io_turnFailedEvent out = None
           \<and> (\<exists>c. io_workerCommand out = Some c \<and> Some (wc_workerId c) = ses_currentWorkerId s
                \<and> ev_turnSeq (wc_event c) = ev_turnSeq e \<and> ev_sessionLeaseId (wc_event c) = ses_sessionLeaseId s)
         else \<exists>f. sessionEvents sid w1 = sessionEvents sid w @ [e, f] \<and> ev_type f = TurnFailed
           \<and> ev_turnSeq f = ev_turnSeq e \<and> io_turnFailedEvent out = Some f \<and> io_workerCommand out = None)"
proof (cases rule: publicSession_cases [of ctx sid w])
  case refused
  with assms(2,4) show ?thesis
    by (auto simp: acceptInput_def andThen_def publicSession_def assertPublicSession_def split: if_splits)
next
  case (found s0)
  with assms(2) have s0: "s0 = s" by simp
  have sid: "ses_sessionId s = sid" using assms(1,2) by (rule logs_ok_id)
  obtain al t v where al: "allocateNextTurn s w = ((al, t), v)" by (cases "allocateNextTurn s w") auto
  have al1: "al = s\<lparr>ses_nextTurnSeq := ses_nextTurnSeq s + 1, ses_updatedAt := fst (now w)\<rparr>" "t = ses_nextTurnSeq s"
    "sessionEvents x v = sessionEvents x w" for x
    using al by (auto simp: allocateNextTurn_def Let_def split_def log_reads_writeSession tab_simps)
  let ?d = "(draft InputAccepted CentralActor
        (JsonPayload (jobj [(''input'', jfield ''input'' request), (''status'', Some (JStr ''accepted'')),
                            (''acceptedBy'', Some (JStr (rq_principalId ctx)))]))
        (ses_eventCursor al + 1) (Some sid))\<lparr>ev_ackId := ackId, ev_turnSeq := Some t\<rparr>"
  have "ev_sessionId ?d = Some sid" by (simp add: draft_def)
  then obtain e v1 where ev: "logAppend None ?d v = (Inr e, v1)" "ev_sequence e = ev_sequence ?d" "ev_type e = ev_type ?d"
    "ev_turnSeq e = ev_turnSeq ?d" "sessionEvents sid v1 = sessionEvents sid v @ [e]"
    using assms(3) by (rule logAppend_stores)
  then have e: "logAppend None ?d v = (Inr e, v1)" "ev_sequence e = ses_eventCursor al + 1" "ev_type e = InputAccepted" "ev_turnSeq e = Some t"
    "sessionEvents sid v1 = sessionEvents sid v @ [e]" by (simp_all add: draft_def)
  let ?n = "al\<lparr>ses_eventCursor := ev_sequence e, ses_lastEventUpdatedAt := fst (now v1), ses_updatedAt := fst (now v1)\<rparr>"
  let ?v2 = "writeSession ?n (snd (now v1))"
  have v2: "sessionEvents sid ?v2 = sessionEvents sid w @ [e]" "readSession sid ?v2 = Some ?n"
    using e(5) al1 sid by (simp_all add: log_reads_writeSession tab_simps)
  have run: "(r, w1) = (if \<not> truthy (ses_currentWorkerId ?n) then
      andThen (logAppend None ((draft TurnFailed CentralActor (TurnFailedPayload (no_worker_message sid) (Some ''no_current_worker'') None)
                       (ses_eventCursor ?n + 1) (Some sid))\<lparr>ev_turnSeq := Some t\<rparr>)) (\<lambda>f w4.
                     (let (failed, w5) = advanceEventCursor ?n (ev_sequence f) w4
                      in ok \<lparr>io_session = failed, io_inputAcceptedEvent = e, io_workerCommand = None,
                            io_turnFailedEvent = Some f\<rparr> w5)) ?v2
    else (let (eid, w4) = freshId ?v2
          in ok \<lparr>io_session = ?n, io_inputAcceptedEvent = e,
                io_workerCommand = Some (input_command sid ?n t (orElse (jfield ''input'' request) JNull) eid e),
                io_turnFailedEvent = None\<rparr> w4))"
    using assms(4) found s0 al e(1)
    by (simp add: acceptInput_def andThen_def [of "publicSession _ _"] acceptInputFrom_def andThen_def [of "logAppend None ?d"]
          advanceEventCursor_eq [of al] Let_def)
  show ?thesis
  proof (cases "truthy (ses_currentWorkerId s)")
    case True
    with run al1(1) have "r = Inr \<lparr>io_session = ?n, io_inputAcceptedEvent = e,
          io_workerCommand = Some (input_command sid ?n t (orElse (jfield ''input'' request) JNull) (fst (freshId ?v2)) e),
          io_turnFailedEvent = None\<rparr>" "w1 = snd (freshId ?v2)"
      by (simp_all add: Let_def split_def)
    moreover have "readSession sid (snd (freshId ?v2)) = Some ?n" "sessionEvents sid (snd (freshId ?v2)) = sessionEvents sid w @ [e]"
      using v2 by (simp_all add: tab_simps)
    ultimately show ?thesis using True found(2) s0 e al1
      by (auto simp: input_command_def Let_def elim: truthyE)
  next
    case False
    let ?g = "(draft TurnFailed CentralActor (TurnFailedPayload (no_worker_message sid) (Some ''no_current_worker'') None)
                       (ses_eventCursor ?n + 1) (Some sid))\<lparr>ev_turnSeq := Some t\<rparr>"
    have "ev_sessionId ?g = Some sid" by (simp add: draft_def)
    then obtain f v3 where fv: "logAppend None ?g ?v2 = (Inr f, v3)" "ev_sequence f = ev_sequence ?g" "ev_type f = ev_type ?g"
      "ev_turnSeq f = ev_turnSeq ?g" "sessionEvents sid v3 = sessionEvents sid ?v2 @ [f]"
      using assms(3) by (rule logAppend_stores)
    then have f: "logAppend None ?g ?v2 = (Inr f, v3)" "ev_sequence f = ses_eventCursor ?n + 1" "ev_type f = TurnFailed"
      "ev_turnSeq f = Some t" "sessionEvents sid v3 = sessionEvents sid ?v2 @ [f]" by (simp_all add: draft_def)
    let ?m = "?n\<lparr>ses_eventCursor := ev_sequence f, ses_lastEventUpdatedAt := fst (now v3), ses_updatedAt := fst (now v3)\<rparr>"
    from run False f(1) al1(1) have "r = Inr \<lparr>io_session = ?m, io_inputAcceptedEvent = e, io_workerCommand = None, io_turnFailedEvent = Some f\<rparr>"
      "w1 = writeSession ?m (snd (now v3))"
      by (simp_all add: andThen_def advanceEventCursor_eq Let_def)
    moreover have "readSession sid (writeSession ?m (snd (now v3))) = Some ?m"
      "sessionEvents sid (writeSession ?m (snd (now v3))) = sessionEvents sid w @ [e, f]"
      using f(5) v2 sid al1(1) by (simp_all add: log_reads_writeSession tab_simps)
    ultimately show ?thesis using False found(2) s0 e al1 f(3,4) by auto
  qed
qed

lemma accept_input_takes_one_turn_witness:
  "\<exists>out w1. acceptInput alice ''s1'' None ex_input running_world = (Inr out, w1)
    \<and> ev_turnSeq (io_inputAcceptedEvent out) = Some 1 \<and> length (sessionEvents ''s1'' w1) = 1"
proof -
  obtain r w1 where r: "acceptInput alice ''s1'' None ex_input running_world = (r, w1)" by (cases "acceptInput alice ''s1'' None ex_input running_world")
  have "sessionEvents ''s1'' running_world = []" by code_simp
  with accept_input_takes_one_turn [OF running_world_facts _ r] r show ?thesis
    by (auto simp: running_session_def ex_session_def alice_def)
qed

text \<open>
  A worker of an unknown storage class strands the session it is chosen for. The class a worker reports is
  not checked before the session is placed on it, so the assignment fails only after its writes: the session is
  stored as starting under a lease no worker is told of, the worker's place is taken, and nothing is sent.
\<close>

lemma unknown_storage_class_strands_session:
  assumes "select (readings w) s (readWorkers w) = Some k" and "ses_storageClass s = None"
    and "wk_storageClass k \<noteq> []" and "map_of storageClasses (wk_storageClass k) = None"
  shows "\<exists>w1 a k1. assignReadyWorker s w = (Inl (UnknownStorageClass (wk_storageClass k)), w1)
    \<and> readSession (ses_sessionId s) w1 = Some a \<and> ses_status a = Starting \<and> ses_sessionLeaseId a \<noteq> None
    \<and> readWorker (wk_workerId k) w1 = Some k1 \<and> wk_currentSessionCount k1 = wk_currentSessionCount k + 1
    \<and> w_published w1 = w_published w \<and> sessionEvents (ses_sessionId s) w1 = sessionEvents (ses_sessionId s) w"
proof -
  let ?w0 = "tick_by (length (readWorkers w)) w"
  obtain n v where n: "leaseAssign s k ?w0 = (n, v)" by (cases "leaseAssign s k ?w0")
  let ?w3 = "writeWorker (placed_worker s k (fst (now v))) (snd (now v))"
  from n assms(2) have n1: "ses_storageClass n = Some (wk_storageClass k)" "v = writeSession n (snd (freshId ?w0))"
    "ses_status n = Starting" "ses_sessionLeaseId n \<noteq> None" "ses_sessionId n = ses_sessionId s"
    by (auto simp: leaseAssign_def Let_def split_def)
  have "planRestore n ?w3 = (Inl (UnknownStorageClass (wk_storageClass k)), ?w3)"
    using n1(1) assms(3,4) by (simp add: planRestore_def andThen_def resolveClass_def)
  with assms(1) n have "assignReadyWorker s w = (Inl (UnknownStorageClass (wk_storageClass k)), ?w3)"
    by (simp add: assignReadyWorker_def Let_def split_def andThen_def)
  moreover have "readSession (ses_sessionId s) ?w3 = Some n" "sessionEvents (ses_sessionId s) ?w3 = sessionEvents (ses_sessionId s) w"
    using n1 by (simp_all add: readSession_def sessionEvents_def writeWorker_def writeSession_def tget_tput now_def freshId_def tick_by_def)
  moreover have "readWorker (wk_workerId k) ?w3 = Some (placed_worker s k (fst (now v)))" "w_published ?w3 = w_published w"
    using n1(2) by (simp_all add: readWorker_def writeWorker_def writeSession_def tget_tput placed_worker_def now_def freshId_def tick_by_def)
  ultimately show ?thesis using n1(3,4) by (auto simp: placed_worker_def)
qed

lemma unknown_storage_class_strands_session_witness:
  "\<exists>w1 a. assignReadyWorker ex_session (writeWorker (ex_worker\<lparr>wk_storageClass := ''nfs''\<rparr>) empty_world) = (Inl (UnknownStorageClass ''nfs''), w1)
    \<and> readSession ''s1'' w1 = Some a \<and> ses_status a = Starting"
proof -
  let ?k = "ex_worker\<lparr>wk_storageClass := ''nfs''\<rparr>" and ?w = "writeWorker (ex_worker\<lparr>wk_storageClass := ''nfs''\<rparr>) empty_world"
  have "map wk_workerId (case select (readings ?w) ex_session (readWorkers ?w) of None \<Rightarrow> [] | Some k \<Rightarrow> [k]) = [''k1'']"
    by code_simp
  then obtain k where sel: "select (readings ?w) ex_session (readWorkers ?w) = Some k"
    by (cases "select (readings ?w) ex_session (readWorkers ?w)") auto
  have "readWorkers ?w = [?k]" by (simp add: readWorkers_def writeWorker_def empty_world_def tall_def tput_def)
  with select_eligible [OF sel] have k: "k = ?k" by simp
  have "ses_storageClass ex_session = None" "wk_storageClass ?k \<noteq> []" "map_of storageClasses (wk_storageClass ?k) = None"
    by (simp_all add: ex_session_def storageClasses_def)
  from unknown_storage_class_strands_session [OF sel [unfolded k] this] show ?thesis by (auto simp: ex_session_def)
qed

end
