(* ===== verification/DispatchInv.thy ===== *)
theory DispatchInv
  imports Dispatch DelegationStart SessionProps
begin

text \<open>
  Dispatch as one more operation on the table of delegations: what it writes is the next version of the record it
  read, one step of the abstract queue further, and preparing the turn leaves the table alone.
\<close>

subsection \<open>The oldest waiting call\<close>

lemma sort_key_id: "sorted (map f xs) \<Longrightarrow> sort_key f xs = xs"
  by (induction xs) (auto simp: insort_is_Cons)

lemma sorted_filter_seq:
  "wf_delegation sha d \<Longrightarrow> sorted (map dc_callSeq (filter P (dg_calls d)))"
  unfolding wf_delegation_def by (metis sorted_filter sorted_upto)

lemma next_queued_Some:
  assumes wf: "wf_delegation sha d" and "next_queued d = Some c"
  shows "c \<in> set (dg_calls d)" and "dc_status c = CQueued"
    and "\<exists>xs. waiting_ids (dg_calls d) = dc_delegationCallId c # xs"
proof -
  have "sort_key dc_callSeq (queued_calls d) = queued_calls d"
    unfolding queued_calls_def by (rule sort_key_id [OF sorted_filter_seq [OF wf]])
  with assms(2) obtain cs where cs: "queued_calls d = c # cs" by (auto simp: next_queued_def split: list.splits)
  then have "c \<in> set (queued_calls d)" by simp
  then show "c \<in> set (dg_calls d)" "dc_status c = CQueued" by (auto simp: queued_calls_def)
  from cs show "\<exists>xs. waiting_ids (dg_calls d) = dc_delegationCallId c # xs"
    by (simp add: waiting_ids_def queued_calls_def)
qed

subsection \<open>Activation is a next version\<close>

lemma waiting_ids_activate:
  assumes "distinct (map dc_delegationCallId cs)" and "waiting_ids cs = dc_delegationCallId c # xs"
    and "dc_delegationCallId a = dc_delegationCallId c" "dc_status a \<noteq> CQueued"
  shows "waiting_ids (map (\<lambda>x. if dc_delegationCallId x = dc_delegationCallId c then a else x) cs) = xs"
proof -
  have ids: "distinct (waiting_ids cs)" using assms(1) by (simp add: waiting_ids_def distinct_map_filter)
  have "waiting_ids (map (\<lambda>x. if dc_delegationCallId x = dc_delegationCallId c then a else x) cs)
      = filter (\<lambda>y. y \<noteq> dc_delegationCallId c) (waiting_ids cs)"
    using assms(3,4) by (induction cs) (auto simp: waiting_ids_def)
  also have "\<dots> = xs" using ids unfolding assms(2) by (auto simp: filter_id_conv)
  finally show ?thesis .
qed

lemma next_version_activate:
  assumes wf: "wf_delegation sha d" and st: "dg_status d = Open" and idle: "dg_activeCallId d = None"
    and c: "next_queued d = Some c"
  shows "next_version sha d (activate d (activated c turnSeq iid cid t) t)"
proof -
  note q = next_queued_Some [OF wf c]
  let ?a = "activated c turnSeq iid cid t"
  let ?f = "\<lambda>x. if dc_delegationCallId x = dc_delegationCallId c then ?a else x"
  have id: "dc_delegationCallId ?a = dc_delegationCallId c" by (simp add: activated_def)
  note u = call_unique [OF wf q(1)]
  have wfc: "wf_call sha (dg_resolvedDelegate d) c" using wf q(1) by (simp add: wf_delegation_def)
  have adv: "call_adv c ?a" using q(2) wfc by (simp add: call_adv_def activated_def wf_call_def queued_def)
  have wfa: "wf_call sha (dg_resolvedDelegate d) ?a"
    using wfc q(2) by (auto simp: wf_call_def activated_def queued_def in_flight_def)
  have calls: "dg_calls (activate d ?a t) = map ?f (dg_calls d)" by (simp add: activate_def id)
  have none: "\<not> in_flight x" if "x \<in> set (dg_calls d)" for x using wf that idle by (auto simp: wf_delegation_def)
  show ?thesis
  proof (rule next_version_map [OF wf calls])
    fix x assume x: "x \<in> set (dg_calls d)"
    show "call_adv x (?f x)" using u [OF x] adv by auto
    show "wf_call sha (dg_resolvedDelegate d) (?f x)" using wfa wf x by (auto simp: wf_delegation_def)
    show "in_flight (?f x) \<longleftrightarrow> dg_activeCallId (activate d ?a t) = Some (dc_delegationCallId x)"
      using none [OF x] by (auto simp: activate_def activated_def in_flight_def)
    show "queued (?f x) \<Longrightarrow> queued x" by (auto simp: queued_def activated_def split: if_splits)
  next
    show "dg_activeCallId (activate d ?a t) = None \<or> the (dg_activeCallId (activate d ?a t)) \<in> dc_delegationCallId ` set (dg_calls d)"
      using q(1) by (simp add: activate_def activated_def)
    show "queue_run (queue_of d) (queue_of (activate d ?a t))"
    proof (rule queue_run_step)
      obtain xs where xs: "waiting_ids (dg_calls d) = dc_delegationCallId c # xs" using q(3) by blast
      have dist: "distinct (map dc_delegationCallId (dg_calls d))" using wf by (simp add: wf_delegation_def)
      have w: "waiting_ids (map ?f (dg_calls d)) = xs"
        by (rule waiting_ids_activate [OF dist xs id]) (simp add: activated_def)
      have "outcome_in (map ?f (dg_calls d)) x = outcome_in (dg_calls d) x" for x
      proof -
        have out: "outcome_in (map ?f (dg_calls d)) x = Option.bind (find (\<lambda>c. dc_delegationCallId c = x) (dg_calls d)) (\<lambda>c. outcome_of (?f c))"
          by (rule outcome_in_map) (simp add: id)
        have same: "outcome_of (?f c0) = outcome_of c0" if "c0 \<in> set (dg_calls d)" for c0
          using u [OF that] q(2) by (auto simp: outcome_of_def activated_def)
        show ?thesis
        proof (cases "find (\<lambda>c. dc_delegationCallId c = x) (dg_calls d)")
          case (Some c0)
          then have "c0 \<in> set (dg_calls d)" by (auto dest: find_SomeD)
          from same [OF this] Some out show ?thesis by (simp add: outcome_in_def)
        qed (use out in \<open>simp add: outcome_in_def\<close>)
      qed
      then have o: "outcome_in (map ?f (dg_calls d)) = outcome_in (dg_calls d)" by blast
      have "queue_of (activate d ?a t) = (queue_of d)\<lparr>q_waiting := xs, q_running := Some (dc_delegationCallId c)\<rparr>"
        using w o calls by (simp add: queue_of_def activate_def id live_def)
      with queue_step.start [of "queue_of d" "dc_delegationCallId c" xs] xs idle st
      show "queue_step (queue_of d) (queue_of (activate d ?a t))" by (simp add: live_def)
    qed
  qed (use wf st in \<open>auto simp: activate_def identity_of_def wf_delegation_def live_def\<close>)
qed

lemma active_of_idle:
  assumes inv: "delegation_inv sha w" and d: "d \<in> set (readDelegations w)" and "active_of d = None"
  shows "dg_activeCallId d = None"
proof (rule ccontr)
  assume "dg_activeCallId d \<noteq> None"
  then obtain a where a: "dg_activeCallId d = Some a" by auto
  have "a \<in> dc_delegationCallId ` set (dg_calls d)"
    using delegation_inv_mem(1) [OF inv d] a by (simp add: wf_delegation_def)
  then obtain c where c: "c \<in> set (dg_calls d)" "dc_delegationCallId c = a" by auto
  have "a \<in> used_ids w" using d c by (auto simp: used_ids_def)
  then have "a \<in> drawn w" using inv by (auto simp: delegation_inv_def)
  moreover have "drawn w \<subseteq> range (w_uuid w)" by (auto simp: drawn_def)
  moreover have "[] \<notin> range (w_uuid w)" using inv by (simp add: delegation_inv_def)
  ultimately have "a \<noteq> []" by blast
  with a assms(3) have "find (\<lambda>c. Some (dc_delegationCallId c) = dg_activeCallId d) (dg_calls d) = None"
    by (simp add: active_of_def truthy_def)
  with a c show False by (auto simp: find_None_iff_ball)
qed

lemma dispatch_prepares: "prepares sha (dispatchPrepare did)"
proof (rule preparesI)
  fix w rv d1 r assume inv: "delegation_inv sha w" and "fst (dispatchPrepare did w) = Inr (Write rv d1 r)"
  then obtain d c turnSeq iid cid t where d: "readDelegation did w = Some d" "dg_status d = Open" "active_of d = None"
    "next_queued d = Some c" "rv = dg_revision d" "d1 = activate d (activated c turnSeq iid cid t) t"
    by (auto simp: dispatchPrepare_def Let_def split_def split: option.splits if_splits)
  note mem = delegation_inv_read [OF inv d(1)]
  have "next_version sha d d1"
    unfolding d(6) by (rule next_version_activate [OF mem(1) d(2) active_of_idle [OF inv mem(3) d(3)] d(4)])
  moreover have "dg_delegationId d1 = dg_delegationId d" by (simp add: d(6) activate_def)
  ultimately show "\<exists>d. d \<in> set (readDelegations w) \<and> dg_delegationId d1 = dg_delegationId d \<and> rv = dg_revision d
         \<and> (wf_delegation sha d \<longrightarrow> next_version sha d d1)"
    using d(5) mem(3) by blast
qed (simp add: dispatchPrepare_def Let_def split_def freshId_def tab_simps split: option.splits)

subsection \<open>Preparing a turn leaves the table alone\<close>

definition aside :: "'a wop \<Rightarrow> bool" where
  "aside m = (\<forall>w. w_delegations (snd (m w)) = w_delegations w \<and> w_uuid (snd (m w)) = w_uuid w \<and> w_uuidIx w \<le> w_uuidIx (snd (m w)))"

lemma aside_same: "(\<And>w. w_delegations (snd (m w)) = w_delegations w \<and> w_uuid (snd (m w)) = w_uuid w
    \<and> w_uuidIx w \<le> w_uuidIx (snd (m w))) \<Longrightarrow> aside m"
  by (simp add: aside_def)

lemma aside_ok: "aside (ok x)" "aside (throw e)"
  by (simp_all add: aside_def)

lemma aside_then: "aside m \<Longrightarrow> (\<And>x. aside (f x)) \<Longrightarrow> aside (andThen m f)"
  unfolding aside_def andThen_def by (auto split: prod.splits sum.splits) (metis snd_conv order_trans)+

lemma aside_let: "(\<And>x. aside (K x)) \<Longrightarrow> aside (\<lambda>w. let x = g w in K x w)"
  by (simp add: aside_def Let_def)

lemma aside_if: "aside m \<Longrightarrow> aside n \<Longrightarrow> aside (if b then m else n)"
  by simp

lemma aside_progress: "aside m \<Longrightarrow> delegation_inv sha w \<Longrightarrow> progress sha w (snd (m w))"
  unfolding aside_def by (intro progress_same) simp_all

lemma aside_logAppend: "aside (logAppend g d)"
  by (rule aside_same)
    (simp add: tab_simps logAppend_def idOr_def appendEvent_def freshId_def now_def Let_def split_def split: option.splits)

lemma aside_accept: "aside (acceptTurnAfterEvent s turnSeq sq ts st reason)"
  by (rule aside_same) (simp add: acceptTurnAfterEvent_def now_def writeSession_def Let_def split_def)

lemma aside_assign: "aside (assignReadyWorker s)"
proof (rule aside_same)
  fix w
  show "w_delegations (snd (assignReadyWorker s w)) = w_delegations w \<and> w_uuid (snd (assignReadyWorker s w)) = w_uuid w
      \<and> w_uuidIx w \<le> w_uuidIx (snd (assignReadyWorker s w))"
    by (auto simp: planRestore_same assignReadyWorker_def leaseAssign_def tick_by_def freshId_def now_def writeSession_def writeWorker_def
          andThen_def Let_def split_def split: option.splits sum.splits prod.splits)
qed

lemma aside_requireChild: "aside (requireChildSession d)"
  by (rule aside_same) (simp add: requireChildSession_def split: option.splits)

lemma aside_start: "aside (startCreatedSession s eid ack pl)"
proof (cases "ses_status s = Created")
  case True
  show ?thesis
    unfolding startCreatedSession_def [abs_def] Let_def True split_def
    by (simp, intro aside_then aside_logAppend aside_accept aside_assign aside_ok)
next
  case False
  then show ?thesis by (intro aside_same) (simp add: startCreatedSession_def)
qed

lemma aside_writeTurn: "aside (writeTurn c dp s)"
  unfolding writeTurn_def by (intro aside_if aside_ok aside_then aside_start aside_logAppend aside_accept)

lemma aside_prepareCall: "aside (prepareCall d c)"
proof (cases "dc_dispatch c")
  case None
  then show ?thesis by (simp add: prepareCall_def aside_ok)
next
  case (Some dp)
  show ?thesis
    unfolding prepareCall_def Some option.case
  proof (intro aside_then aside_requireChild aside_let aside_ok)
    fix s and existing :: "runtime_event option"
    show "aside (case existing of None \<Rightarrow> writeTurn c dp s
        | Some _ \<Rightarrow> andThen (requireChildSession d) (\<lambda>s1. ok \<lparr>pc_session = s1, pc_workerCommands = [], pc_sessionCreatedEvent = None,
                          pc_sessionCatalogUpdatedEvent = None, pc_needsReconcile = False\<rparr>))"
      by (cases existing) (auto intro!: aside_writeTurn aside_then aside_requireChild aside_ok)
    show "aside (let sq = case existing of None \<Rightarrow> ses_eventCursor (pc_session p) | Some e \<Rightarrow> ev_sequence e
        in ok (p\<lparr>pc_workerCommands := pc_workerCommands p
             @ (case inputCommand c dp (pc_session p) sq of None \<Rightarrow> [] | Some x \<Rightarrow> [x])\<rparr>))" for p
      by (simp add: Let_def aside_ok)
  qed
qed

lemma dispatch_progress:
  assumes inv: "delegation_inv sha w" and rely: "rely sha env"
  shows "\<exists>r w1. dispatchNextOnce env did w = Some (r, w1) \<and> progress sha w w1"
proof -
  obtain out w1 where loop: "cas_loop env (dispatchPrepare did) compareAndSetDelegation w = Some (out, w1)" "progress sha w w1"
    using loop_progress [OF dispatch_prepares inv rely] by blast
  show ?thesis
  proof (cases out)
    case (Inl e)
    with loop show ?thesis by (simp add: dispatchNextOnce_def awaiting_def)
  next
    case (Inr r)
    show ?thesis
    proof (cases r)
      case None
      with loop Inr show ?thesis by (simp add: dispatchNextOnce_def awaiting_def)
    next
      case (Some dc)
      obtain d c where dc: "dc = (d, c)" by (cases dc)
      let ?m = "andThen (prepareCall d c) (\<lambda>p. ok (Some \<lparr>dr_delegation = d, dr_call = c, dr_prepared = p\<rparr>))"
      have "aside ?m" by (intro aside_then aside_prepareCall aside_ok)
      from aside_progress [OF this delegation_progress_inv [OF loop(2)]] loop(2)
      have "progress sha w (snd (?m w1))" by (blast intro: delegation_progress_trans)
      with loop Inr Some dc show ?thesis by (cases "?m w1") (simp add: dispatchNextOnce_def awaiting_def sync_def)
    qed
  qed
qed

end
