(* ===== verification/DelegationProps.thy ===== *)
theory DelegationProps
  imports DispatchInv
begin

text \<open>
  The properties of the delegation manager and the dispatcher, over the invariant and the loops' total correctness.
\<close>

subsection \<open>Any sequence of operations\<close>

datatype delegation_op =
    OpStart "world \<Rightarrow> world" tasks tasks start_input
  | OpAcknowledge tasks string string int
  | OpComplete tasks string int string
  | OpFail tasks string int string
  | OpParentTerminal tasks string
  | OpChildLost tasks string string
  | OpRegisterAwait tasks string int string string
  | OpMarkAwait tasks string string
  | OpDispatch tasks string

fun run_delegation_op :: "delegation_config \<Rightarrow> delegation_op \<Rightarrow> world \<Rightarrow> world option" where
  "run_delegation_op cfg (OpStart racing opens env i) w = map_option snd (startCall cfg racing opens env i w)"
| "run_delegation_op cfg (OpAcknowledge env child cid turn) w = map_option snd (acknowledgeCommand env child cid turn w)"
| "run_delegation_op cfg (OpComplete env child turn res) w = map_option snd (completeTurn cfg env child turn res w)"
| "run_delegation_op cfg (OpFail env child turn msg) w = map_option snd (failTurn env child turn msg w)"
| "run_delegation_op cfg (OpParentTerminal env did) w = map_option snd (failForParentTerminal env did w)"
| "run_delegation_op cfg (OpChildLost env child msg) w = map_option snd (failForChildLost env child msg w)"
| "run_delegation_op cfg (OpRegisterAwait env parent turn req cid) w = map_option snd (registerAwait env parent turn req cid w)"
| "run_delegation_op cfg (OpMarkAwait env cid req) w = map_option snd (markAwaitResponded env cid req w)"
| "run_delegation_op cfg (OpDispatch env did) w = map_option snd (dispatchNextOnce env did w)"

fun run_delegation_ops :: "delegation_config \<Rightarrow> delegation_op list \<Rightarrow> world \<Rightarrow> world option" where
  "run_delegation_ops cfg [] w = Some w"
| "run_delegation_ops cfg (x # xs) w =
     (case run_delegation_op cfg x w of None \<Rightarrow> None | Some w1 \<Rightarrow> run_delegation_ops cfg xs w1)"

fun op_rely :: "(string \<Rightarrow> string) \<Rightarrow> delegation_op \<Rightarrow> bool" where
  "op_rely sha (OpStart racing opens env i) = rely sha (racing # opens @ env)"
| "op_rely sha (OpAcknowledge env child cid turn) = rely sha env"
| "op_rely sha (OpComplete env child turn res) = rely sha env"
| "op_rely sha (OpFail env child turn msg) = rely sha env"
| "op_rely sha (OpParentTerminal env did) = rely sha env"
| "op_rely sha (OpChildLost env child msg) = rely sha env"
| "op_rely sha (OpRegisterAwait env parent turn req cid) = rely sha env"
| "op_rely sha (OpMarkAwait env cid req) = rely sha env"
| "op_rely sha (OpDispatch env did) = rely sha env"

lemma loop_op_progress:
  assumes "prepares sha prep" and "delegation_inv sha w" and "rely sha env"
  shows "\<exists>w1. (\<exists>a. cas_loop env prep compareAndSetDelegation w = Some (a, w1)) \<and> progress sha w w1"
  using loop_progress [OF assms] by auto

lemma delegation_op_progress:
  assumes inv: "delegation_inv (dm_sha cfg) w" and rely: "op_rely (dm_sha cfg) x" and cfg: "wf_config cfg"
  shows "\<exists>w1. run_delegation_op cfg x w = Some w1 \<and> progress (dm_sha cfg) w w1"
proof (cases x)
  case (OpStart racing opens env i)
  with rely have r: "\<And>v. delegation_inv (dm_sha cfg) v \<Longrightarrow> progress (dm_sha cfg) v (racing v)"
    "rely (dm_sha cfg) opens" "rely (dm_sha cfg) env" by (auto simp: rely_def)
  from startCall_total [OF inv r cfg, of i] OpStart show ?thesis by (auto simp: start_call_result_def)
next
  case (OpDispatch env did)
  with rely dispatch_progress [OF inv, of env did] show ?thesis by auto
next
  case (OpChildLost env child msg)
  show ?thesis
  proof (cases "delegationOfChild child w")
    case None
    with OpChildLost delegation_progress_refl [OF inv] show ?thesis by (simp add: failForChildLost_def)
  next
    case (Some d)
    with OpChildLost rely loop_op_progress [OF close_prepares inv] show ?thesis
      by (simp add: failForChildLost_def closeForTerminal_def)
  qed
qed (use rely in \<open>simp_all add: failForParentTerminal_def loop_ops\<close>,
    (rule loop_op_progress [OF acknowledge_prepares inv] loop_op_progress [OF complete_prepares inv]
       loop_op_progress [OF fail_prepares inv] loop_op_progress [OF close_prepares inv]
       loop_op_progress [OF registerAwait_prepares inv] loop_op_progress [OF markAwait_prepares inv],
     assumption)+)

lemma delegation_ops_progress:
  assumes "delegation_inv (dm_sha cfg) w" and "\<forall>x \<in> set xs. op_rely (dm_sha cfg) x" and "wf_config cfg"
  shows "\<exists>w1. run_delegation_ops cfg xs w = Some w1 \<and> progress (dm_sha cfg) w w1"
  using assms(1,2)
proof (induction xs arbitrary: w)
  case Nil
  then show ?case by (simp add: delegation_progress_refl)
next
  case (Cons x xs)
  from delegation_op_progress [OF Cons(2) _ assms(3), of x] Cons(3) obtain w1 where
    w1: "run_delegation_op cfg x w = Some w1" "progress (dm_sha cfg) w w1" by auto
  from Cons(1) [OF delegation_progress_inv [OF w1(2)]] Cons(3) obtain w2 where
    "run_delegation_ops cfg xs w1 = Some w2" "progress (dm_sha cfg) w1 w2" by auto
  with w1 show ?case by (auto intro: delegation_progress_trans)
qed

text \<open>The result of an operation that is one loop.\<close>

lemma loop_result:
  assumes "prepares sha prep" and "delegation_inv sha w" and "rely sha env"
    and "cas_loop env prep compareAndSetDelegation w = Some (out, w1)"
  obtains v where "progress sha w v" and "progress sha w w1" and "last_attempt sha prep v out w1"
  using loop_progress [OF assms(1-3)] assms(4) by auto

subsection \<open>Example worlds\<close>

definition ex_config :: delegation_config where
  "ex_config = \<lparr>dm_tenantId = ''t1'', dm_registry = [(''scan'', ex_delegate)],
     dm_callees = [(''scan'', ex_config_spec [] [''scan''])], dm_tools = (\<lambda>_. []),
     dm_specDigest = (\<lambda>_ _. ''digest''), dm_sha = (\<lambda>s. s)\<rparr>"

definition ex_start :: start_input where
  "ex_start = \<lparr>si_parentSession = ex_session, si_callerTurnSeq = 1, si_callerToolRequestId = ''r1'',
     si_delegateId = ''scan'', si_input = ''go'', si_targetRef = None\<rparr>"

definition ex_active_call :: delegation_call where
  "ex_active_call = ex_call\<lparr>dc_delegationCallId := ''uu'', dc_delegationId := ''u'', dc_inputHash := json_quote ''go'',
     dc_status := CActive, dc_dispatch := Some \<lparr>dp_childTurnSeq = 1, dp_inputEventId = ''i'', dp_commandEventId = ''c'',
       dp_commandState = CmdPending\<rparr>\<rparr>"

definition ex_active_delegation :: delegation where
  "ex_active_delegation = ex_delegation\<lparr>dg_delegationId := ''u'', dg_childSessionId := ''uuu'',
     dg_activeCallId := Some ''uu'', dg_calls := [ex_active_call]\<rparr>"

definition delegated_world :: world where
  "delegated_world = writeDelegation ex_active_delegation (empty_world\<lparr>w_uuidIx := 3\<rparr>)"

definition ex_binding :: device_binding where
  "ex_binding = \<lparr>cb_tenantId = ''t1'', cb_caseId = ''s1'', cb_deviceId = ''x1'', cb_deviceRef = ''dev1'',
     cb_bindingCredentialHash = ''h'', cb_bindingCredentialSalt = ''s'', cb_deviceLabel = ''laptop'',
     cb_workerId = None, cb_status = BActive, cb_createdAt = 0, cb_updatedAt = 0, cb_lastRedeemedAt = 0,
     cb_lastRegisteredAt = None, cb_revokedAt = None, cb_revision = 1\<rparr>"

definition paired_world :: world where
  "paired_world = writeCaseDeviceBinding ex_binding empty_world"

text \<open>The same request, delivered a second time while the first is being handled.\<close>

definition again :: "world \<Rightarrow> world" where
  "again w = (case startCall ex_config id [] [] ex_start w of Some (_, w1) \<Rightarrow> w1 | None \<Rightarrow> w)"

lemma ex_config_sha [simp]: "dm_sha ex_config s = s" "dm_sha ex_config = (\<lambda>s. s)"
  by (simp_all add: ex_config_def)

lemma wf_ex_config: "wf_config ex_config"
  by (simp add: wf_config_def ex_config_def tget_def ex_delegate_def)

lemma inj_uuid: "inj (\<lambda>n. replicate (Suc n) CHR ''u'')"
  by (metis (mono_tags, lifting) Suc_inject injI length_replicate)

lemma inv_empty: "delegation_inv sha empty_world"
  by (simp add: delegation_inv_def wf_delegations_def one_live_relation_def readDelegations_def tall_def
      used_ids_def empty_world_def inj_uuid del: replicate_Suc) auto

lemma delegated_world_reads:
  "readDelegations delegated_world = [ex_active_delegation]"
  "readDelegation ''u'' delegated_world = Some ex_active_delegation"
  by (simp_all add: delegated_world_def readDelegations_def readDelegation_def writeDelegation_def tput_def
      tall_def tget_def empty_world_def ex_active_delegation_def)

lemma wf_ex_active: "wf_delegation (\<lambda>s. s) ex_active_delegation"
  by (simp add: wf_delegation_def wf_call_def queued_def in_flight_def live_def ex_active_delegation_def
      ex_active_call_def ex_defs utf8_length_def digestJson_def of_char_def)

lemma inv_delegated: "delegation_inv (\<lambda>s. s) delegated_world"
proof -
  have w: "w_uuid delegated_world = (\<lambda>n. replicate (Suc n) CHR ''u'')" "w_uuidIx delegated_world = 3"
    by (simp_all add: delegated_world_def writeDelegation_def empty_world_def)
  have "used_ids delegated_world = {''u'', ''uu'', ''uuu''}"
    by (auto simp: used_ids_def delegated_world_reads ex_active_delegation_def ex_active_call_def)
  moreover have "drawn delegated_world = {''u'', ''uu'', ''uuu''}"
    by (auto simp: drawn_def w lessThan_Suc numeral_3_eq_3)
  moreover have "wf_delegations delegated_world"
    by (simp add: delegated_world_def wf_delegations_def writeDelegation_def tput_def empty_world_def keyed_def)
  moreover have "[] \<notin> range (w_uuid delegated_world)" by (auto simp: w)
  ultimately show ?thesis
    using wf_ex_active inj_uuid by (simp add: delegation_inv_def delegated_world_reads one_live_relation_def w)
qed

subsection \<open>Properties\<close>

text \<open>
  C19: calls only move forward. From a well-formed delegation table, run any operations of the
  manager and the dispatcher in any order, each disturbed between its reads and writes by anything that is itself
  progress: every operation returns, the table stays well formed (call numbers count up, at most
  one call is in flight and it is the delegation's active call, a failed delegation has no open
  call, the queue never exceeds its limit, inputs and results respect the byte limits and carry
  their digests), and every delegation and call that was there is still there with its identity, a
  status that did not go back, the same dispatch once dispatched, and the same outcome once it has one.
\<close>

lemma delegation_calls_move_forward:
  assumes "delegation_inv (dm_sha cfg) w" and "\<forall>x \<in> set ops. op_rely (dm_sha cfg) x" and "wf_config cfg"
  shows "\<exists>w1. run_delegation_ops cfg ops w = Some w1 \<and> delegation_inv (dm_sha cfg) w1
    \<and> (\<forall>d \<in> set (readDelegations w). \<exists>d1. readDelegation (dg_delegationId d) w1 = Some d1
          \<and> identity_of d1 = identity_of d \<and> status_rank (dg_status d) \<le> status_rank (dg_status d1)
          \<and> (\<forall>c \<in> set (dg_calls d). \<exists>c1 \<in> set (dg_calls d1). call_adv c c1))"
proof -
  from delegation_ops_progress [OF assms] obtain w1 where
    w1: "run_delegation_ops cfg ops w = Some w1" "progress (dm_sha cfg) w w1" by blast
  have "\<exists>d1. readDelegation (dg_delegationId d) w1 = Some d1
          \<and> identity_of d1 = identity_of d \<and> status_rank (dg_status d) \<le> status_rank (dg_status d1)
          \<and> (\<forall>c \<in> set (dg_calls d). \<exists>c1 \<in> set (dg_calls d1). call_adv c c1)"
    if "d \<in> set (readDelegations w)" for d
  proof -
    from w1(2) delegation_inv_mem(2) [OF assms(1) that] obtain d1 where
      d1: "readDelegation (dg_delegationId d) w1 = Some d1" "dele_adv d d1" unfolding progress_def by blast
    moreover from dele_adv_call [OF d1(2)] have "\<forall>c \<in> set (dg_calls d). \<exists>c1 \<in> set (dg_calls d1). call_adv c c1" by blast
    ultimately show ?thesis by (auto simp: dele_adv_def)
  qed
  with w1 delegation_progress_inv [OF w1(2)] show ?thesis by blast
qed

lemma delegation_calls_move_forward_witness:
  "\<exists>w1. run_delegation_ops ex_config
      [OpStart (\<lambda>w. snd (now w)) [] [\<lambda>w. snd (freshId w)] ex_start, OpComplete [\<lambda>w. snd (now w)] ''uuu'' 1 ''done'',
       OpParentTerminal [] ''u''] delegated_world = Some w1
    \<and> (\<exists>d1. readDelegation ''u'' w1 = Some d1 \<and> identity_of d1 = identity_of ex_active_delegation)"
proof -
  let ?ops = "[OpStart (\<lambda>w. snd (now w)) [] [\<lambda>w. snd (freshId w)] ex_start,
       OpComplete [\<lambda>w. snd (now w)] ''uuu'' 1 ''done'', OpParentTerminal [] ''u'']"
  have "\<forall>x \<in> set ?ops. op_rely (dm_sha ex_config) x"
    by (simp add: progress_now progress_freshId)
  from delegation_calls_move_forward [OF _ this wf_ex_config] inv_delegated
  show ?thesis by (fastforce simp: delegated_world_reads ex_active_delegation_def ex_delegation_def)
qed

text \<open>
  C3: a delegation is a queue of calls. \<^verbatim>\<open>queue_of\<close> reads a delegation record as a first-in first-out queue with
  at most one running call, outcomes that are never taken back and a closing that gives every open call an outcome.
  Whatever the manager's and the dispatcher's operations do to a delegation, however they interleave, is a
  sequence of steps of that queue: arrive, start the oldest, answer the running one, close.
\<close>

theorem delegation_is_a_call_queue:
  assumes "delegation_inv (dm_sha cfg) w" and "\<forall>x \<in> set ops. op_rely (dm_sha cfg) x" and "wf_config cfg"
    and "readDelegation did w = Some d"
  shows "\<exists>w1 d1. run_delegation_ops cfg ops w = Some w1 \<and> readDelegation did w1 = Some d1
    \<and> queue_step\<^sup>*\<^sup>* (queue_of d) (queue_of d1)"
proof -
  from delegation_ops_progress [OF assms(1-3)] obtain w1 where
    w1: "run_delegation_ops cfg ops w = Some w1" "progress (dm_sha cfg) w w1" by blast
  from w1(2) assms(4) obtain d1 where "readDelegation did w1 = Some d1" "dele_adv d d1" unfolding progress_def by blast
  with w1(1) show ?thesis by (auto simp: dele_adv_def queue_run_def)
qed

lemma delegation_is_a_call_queue_witness:
  "\<exists>w1 d1. run_delegation_ops ex_config
      [OpStart (\<lambda>w. snd (now w)) [] [\<lambda>w. snd (freshId w)] ex_start, OpComplete [\<lambda>w. snd (now w)] ''uuu'' 1 ''done'',
       OpDispatch [\<lambda>w. snd (freshId w)] ''u'', OpParentTerminal [] ''u''] delegated_world = Some w1
    \<and> readDelegation ''u'' w1 = Some d1 \<and> queue_step\<^sup>*\<^sup>* (queue_of ex_active_delegation) (queue_of d1)"
proof -
  let ?ops = "[OpStart (\<lambda>w. snd (now w)) [] [\<lambda>w. snd (freshId w)] ex_start,
       OpComplete [\<lambda>w. snd (now w)] ''uuu'' 1 ''done'', OpDispatch [\<lambda>w. snd (freshId w)] ''u'', OpParentTerminal [] ''u'']"
  have "\<forall>x \<in> set ?ops. op_rely (dm_sha ex_config) x"
    by (simp add: progress_now progress_freshId)
  from delegation_is_a_call_queue [OF _ this wf_ex_config delegated_world_reads(2)] inv_delegated
  show ?thesis by simp
qed

text \<open>
  Starting a call (\<^verbatim>\<open>startCall\<close>) always returns, and what it returns is the caller's own call. Under any
  progress of other tasks between its steps it ends with an error or with a delegation that is
  the stored one, belongs to the parent session and the delegate asked for, and holds the
  returned call (or a later version of it), which has the caller's turn, tool request id and input digest.
\<close>

lemma start_call_returns_own_call:
  assumes "delegation_inv (dm_sha cfg) w" and "rely (dm_sha cfg) (racing # opens @ env)" and "wf_config cfg"
  shows "\<exists>out w1. startCall cfg racing opens env i w = Some (out, w1) \<and> delegation_inv (dm_sha cfg) w1
    \<and> (case out of Inl e \<Rightarrow> True
        | Inr (d, c) \<Rightarrow>
            readDelegation (dg_delegationId d) w1 = Some d
            \<and> dg_parentSessionId d = ses_sessionId (si_parentSession i) \<and> rd_id (dg_resolvedDelegate d) = si_delegateId i
            \<and> dc_callerTurnSeq c = si_callerTurnSeq i \<and> dc_callerToolRequestId c = si_callerToolRequestId i
            \<and> dc_inputHash c = inputHash cfg (si_input i)
            \<and> (\<exists>c1 \<in> set (dg_calls d). call_adv c c1))"
proof -
  have r: "\<And>v. delegation_inv (dm_sha cfg) v \<Longrightarrow> progress (dm_sha cfg) v (racing v)"
    "rely (dm_sha cfg) opens" "rely (dm_sha cfg) env" using assms(2) by (auto simp: rely_def)
  from startCall_total [OF assms(1) r assms(3), of i] show ?thesis
    by (fastforce simp: start_call_result_def started_def same_caller_def dest: delegation_progress_inv split: sum.splits)
qed

lemma start_call_returns_own_call_witness:
  "\<exists>out w1. startCall ex_config (\<lambda>w. snd (now w)) [] [\<lambda>w. snd (now w)] ex_start empty_world = Some (out, w1)
     \<and> delegation_inv (\<lambda>s. s) w1"
proof -
  have "rely (dm_sha ex_config) ((\<lambda>w. snd (now w)) # [] @ [\<lambda>w. snd (now w)])" by (simp add: progress_now)
  from start_call_returns_own_call [OF inv_empty this wf_ex_config, of ex_start] show ?thesis by auto
qed

text \<open>
  C20: a result is final. When \<^verbatim>\<open>completeTurn\<close> returns a call, that call belongs to the turn, is
  completed with the given result and its digest, and at every later moment the stored call of that id
  in the child's delegation still has this status, result and digest, whatever is done in between.
\<close>

lemma completed_result_is_final:
  assumes inv: "delegation_inv (dm_sha cfg) w" and rely: "rely (dm_sha cfg) env"
    and run: "completeTurn cfg env child turn res w = Some (Inr c, w1)"
    and later: "\<forall>x \<in> set ops. op_rely (dm_sha cfg) x" and cfg: "wf_config cfg"
  shows "\<exists>w2. run_delegation_ops cfg ops w1 = Some w2
    \<and> (\<exists>d2 c2. d2 \<in> set (readDelegations w2) \<and> dg_childSessionId d2 = child \<and> c2 \<in> set (dg_calls d2)
          \<and> dc_delegationCallId c2 = dc_delegationCallId c \<and> dc_status c2 = CCompleted \<and> dc_result c2 = Some res
          \<and> dc_resultDigest c2 = Some (digestJson (dm_sha cfg) (JStr res))
          \<and> map_option dp_childTurnSeq (dc_dispatch c2) = Some turn)"
proof -
  from run have loop: "cas_loop env (updatePrepare child (completeUpdate cfg turn res)) compareAndSetDelegation w = Some (Inr c, w1)"
    by (simp add: completeTurn_def updateByChildSession_def)
  obtain v where p: "progress (dm_sha cfg) w v" "progress (dm_sha cfg) w w1"
    and l: "last_attempt (dm_sha cfg) (updatePrepare child (completeUpdate cfg turn res)) v (Inr c) w1"
    by (rule loop_result [OF complete_prepares inv rely loop])
  from l obtain d1 rv v1 d u where att: "updatePrepare child (completeUpdate cfg turn res) v = (Inr (Write rv d1 c), v1)"
    and w1: "w1 = writeDelegation d1 u"
    by (auto simp: last_attempt_def updatePrepare_def andThen_def Let_def split_def
        split: prod.splits sum.splits option.splits if_splits)
  from att obtain d a c0 v2 dd where d: "delegationOfChild child v = Some d" "dg_activeCallId d = Some a" "call_in a d = Some c0"
    "completeUpdate cfg turn res d c0 v = (Inr (dd, c), v2)"
    "dg_calls d1 = dg_calls dd" "dg_childSessionId d1 = dg_childSessionId dd"
    by (auto simp: updatePrepare_def andThen_Inr Let_def split_def split: option.splits if_splits elim!: truthyE)
  note cu = d(4) [unfolded completeUpdate_Inr]
  have c: "dc_delegationCallId c = dc_delegationCallId c0" "dc_status c = CCompleted" "dc_result c = Some res"
    "dc_resultDigest c = Some (digestJson (dm_sha cfg) (JStr res))" "map_option dp_childTurnSeq (dc_dispatch c) = Some turn"
    using cu by auto
  have "c0 \<in> set (dg_calls d)" using call_in_Some [OF d(3)] by simp
  then have mem: "c \<in> set (dg_calls d1)" using cu d(5) by (auto simp: replaceCall_def)
  have child: "dg_childSessionId d1 = child"
    using cu d(6) delegationOfChild_Some [OF d(1)] by (auto simp: replaceCall_def)
  note inv1 = delegation_progress_inv [OF p(2)]
  have r1: "readDelegation (dg_delegationId d1) w1 = Some d1" by (simp add: w1 tab_simps)
  from delegation_ops_progress [OF inv1 later cfg] obtain w2 where
    w2: "run_delegation_ops cfg ops w1 = Some w2" "progress (dm_sha cfg) w1 w2" by blast
  from w2(2) r1 obtain d2 where d2: "readDelegation (dg_delegationId d1) w2 = Some d2" "dele_adv d1 d2"
    unfolding progress_def by blast
  from dele_adv_call [OF d2(2) mem] obtain c2 where c2: "c2 \<in> set (dg_calls d2)" "call_adv c c2" by blast
  have "dc_delegationCallId c2 = dc_delegationCallId c" "dc_status c2 = CCompleted" "dc_result c2 = Some res"
    "dc_resultDigest c2 = Some (digestJson (dm_sha cfg) (JStr res))"
    using c2(2) c by (simp_all add: call_adv_def)
  moreover have "map_option dp_childTurnSeq (dc_dispatch c2) = Some turn"
    using c2(2) c(5) by (auto simp: call_adv_def binding_of_def)
  moreover have "dg_childSessionId d2 = child" using d2(2) child by (simp add: dele_adv_def identity_of_def)
  ultimately show ?thesis using w2(1) readDelegationsI [OF d2(1)] c2(1) by blast
qed

lemma completed_result_is_final_witness:
  "\<exists>c w1 w2. completeTurn ex_config [] ''uuu'' 1 ''done'' delegated_world = Some (Inr c, w1)
     \<and> run_delegation_ops ex_config [OpParentTerminal [] ''u'', OpChildLost [] ''uuu'' ''lost''] w1 = Some w2
     \<and> (\<exists>d2 c2. d2 \<in> set (readDelegations w2) \<and> c2 \<in> set (dg_calls d2) \<and> dc_result c2 = Some ''done'')"
proof -
  have child: "delegationOfChild ''uuu'' delegated_world = Some ex_active_delegation"
    by (simp add: delegationOfChild_def delegated_world_reads ex_active_delegation_def)
  have act: "dg_activeCallId ex_active_delegation = Some ''uu''" "call_in ''uu'' ex_active_delegation = Some ex_active_call"
    by (simp_all add: call_in_def ex_active_delegation_def ex_active_call_def)
  let ?t = "fst (now delegated_world)" and ?t2 = "fst (now (snd (now delegated_world)))"
  obtain c where c: "c = ex_active_call\<lparr>dc_status := CCompleted, dc_result := Some ''done'',
      dc_resultDigest := Some (digestJson (\<lambda>s. s) (JStr ''done'')), dc_updatedAt := ?t\<rparr>" by blast
  have upd: "completeUpdate ex_config 1 ''done'' ex_active_delegation ex_active_call delegated_world
      = (Inr ((replaceCall ex_active_delegation c)\<lparr>dg_activeCallId := None\<rparr>, c), snd (now delegated_world))"
    unfolding completeUpdate_Inr
    by (simp add: c ex_active_call_def ex_active_delegation_def ex_delegation_def ex_delegate_def utf8_length_def of_char_def)
  let ?n = "((replaceCall ex_active_delegation c)\<lparr>dg_activeCallId := None\<rparr>)
      \<lparr>dg_revision := dg_revision ex_active_delegation + 1, dg_updatedAt := ?t2\<rparr>"
  have prep: "updatePrepare ''uuu'' (completeUpdate ex_config 1 ''done'') delegated_world
      = (Inr (Write (dg_revision ex_active_delegation) ?n c), snd (now (snd (now delegated_world))))"
    by (simp add: updatePrepare_def child act upd andThen_def Let_def split_def)
  have read: "readDelegation ''u'' (snd (now (snd (now delegated_world)))) = Some ex_active_delegation"
    by (simp add: tab_simps delegated_world_reads)
  have cas: "compareAndSetDelegation (dg_revision ex_active_delegation) ?n (snd (now (snd (now delegated_world))))
      = (Inr True, writeDelegation ?n (snd (now (snd (now delegated_world)))))"
    using read by (simp add: compareAndSetDelegation_def replaceCall_def relation_key_def ex_active_delegation_def)
  have run: "completeTurn ex_config [] ''uuu'' 1 ''done'' delegated_world
      = Some (Inr c, writeDelegation ?n (snd (now (snd (now delegated_world)))))"
    by (simp add: completeTurn_def updateByChildSession_def prep cas)
  have later: "\<forall>x \<in> set [OpParentTerminal [] ''u'', OpChildLost [] ''uuu'' ''lost'']. op_rely (dm_sha ex_config) x"
    by simp
  have inv: "delegation_inv (dm_sha ex_config) delegated_world" using inv_delegated by simp
  have "rely (dm_sha ex_config) []" by simp
  from completed_result_is_final [OF inv this run later wf_ex_config] run show ?thesis by blast
qed

text \<open>
  C36: closing a delegation always succeeds. When the parent session is terminal,
  \<^verbatim>\<open>failForParentTerminal\<close> returns under any interference without error: nothing if the delegation
  does not exist, and otherwise the stored delegation, which is over for that reason, has no active
  call, and all of whose calls are terminal.
\<close>

lemma parent_terminal_closes:
  assumes "delegation_inv sha w" and "rely sha env"
  shows "\<exists>r w1. failForParentTerminal env did w = Some (Inr r, w1) \<and> delegation_inv sha w1
    \<and> (case r of
         None \<Rightarrow> readDelegation did w = None
       | Some d \<Rightarrow> \<not> live d \<and> dg_closeReason d = Some ParentTerminal \<and> dg_delegationId d = did
           \<and> dg_activeCallId d = None \<and> (list_all (\<lambda>c. terminal_call (dc_status c)) (dg_calls d))
           \<and> readDelegation did w1 = Some d)"
proof -
  let ?prep = "closePrepare did ParentTerminal ''parent_terminal'' parent_message"
  from loop_progress [OF close_prepares assms, of did ParentTerminal "''parent_terminal''" parent_message]
  obtain out w1 v where loop: "cas_loop env ?prep compareAndSetDelegation w = Some (out, w1)"
    and p: "progress sha w w1" "progress sha w v" and l: "last_attempt sha ?prep v out w1" by blast
  note inv1 = delegation_progress_inv [OF p(1)] and invv = delegation_progress_inv [OF p(2)]
  have run: "failForParentTerminal env did w = Some (out, w1)"
    by (simp add: failForParentTerminal_def closeForTerminal_def loop)
  show ?thesis
  proof (cases "readDelegation did v")
    case None
    with p(2) have "readDelegation did w = None" unfolding progress_def by (metis not_Some_eq)
    with None l run inv1 show ?thesis by (simp add: last_attempt_def closePrepare_def)
  next
    case (Some d)
    have over: "\<not> live d1 \<and> dg_activeCallId d1 = None \<and> list_all (\<lambda>c. terminal_call (dc_status c)) (dg_calls d1)
        \<and> dg_delegationId d1 = did"
      if "dg_closeReason d1 = Some ParentTerminal" "readDelegation did w2 = Some d1" "delegation_inv sha w2" for d1 w2
    proof -
      note i = delegation_inv_read [OF that(3,2)]
      then have t: "\<not> live d1" "\<forall>c \<in> set (dg_calls d1). terminal_call (dc_status c)"
        using that(1) by (auto simp: wf_delegation_def split: if_splits)
      moreover have "dg_activeCallId d1 = None"
      proof (rule ccontr)
        assume "dg_activeCallId d1 \<noteq> None"
        then obtain c where "c \<in> set (dg_calls d1)" "in_flight c"
          using i(1) by (auto simp: wf_delegation_def)
        with t in_flight_not_terminal show False by blast
      qed
      ultimately show ?thesis using i(2) by (simp add: list_all_iff)
    qed
    show ?thesis
    proof (cases "dg_closeReason d = Some ParentTerminal")
      case True
      with Some l have o: "out = Inr (Some d)" "w1 = v" by (simp_all add: last_attempt_def closePrepare_def)
      with over [OF True Some invv] True Some run inv1 show ?thesis by auto
    next
      case False
      let ?t = "fst (now v)" and ?f = "\<lparr>fl_code = ''parent_terminal'', fl_message = parent_message d\<rparr>"
      let ?n = "d\<lparr>dg_status := DFailed, dg_activeCallId := None, dg_closeReason := Some ParentTerminal,
          dg_failure := Some ?f, dg_calls := map (failOpenCall ?f ?t) (dg_calls d),
          dg_revision := dg_revision d + 1, dg_updatedAt := ?t\<rparr>"
      from False Some l obtain u where o: "out = Inr (Some ?n)" "w1 = writeDelegation ?n u"
        by (auto simp: last_attempt_def closePrepare_def Let_def split_def)
      have "readDelegation did w1 = Some ?n"
        using delegation_inv_read(2) [OF invv Some] by (simp add: o(2) tab_simps)
      with over [OF _ this inv1] run o(1) inv1 show ?thesis by auto
    qed
  qed
qed

lemma parent_terminal_closes_witness:
  "\<exists>r w1. failForParentTerminal [\<lambda>w. snd (now w)] ''u'' delegated_world = Some (Inr r, w1)
     \<and> (\<exists>d. r = Some d \<and> \<not> live d \<and> dg_activeCallId d = None)"
proof -
  have "rely (\<lambda>s. s) [\<lambda>w. snd (now w)]" by (simp add: progress_now)
  from parent_terminal_closes [OF inv_delegated this, of "''u''"] show ?thesis
    by (auto simp: delegated_world_reads split: option.splits)
qed

text \<open>
  C35: a device target is authorized by an active pairing. When a first call for a device
  succeeds (no call of this caller key and no live relation to the device exist), central holds an active
  binding of that device to the parent's own case in this tenant, and the parent is a public session of the
  tenant whose AgentSpec may call the delegate; a device-scoped delegate is never started without a target.
\<close>

lemma device_target_is_authorized:
  assumes "startCall cfg racing opens env i w = Some (Inr (d, c), w1)"
    and "findCallByCallerKey (ses_sessionId (si_parentSession i)) (si_callerTurnSeq i) (si_callerToolRequestId i) w = None"
    and "readDelegationByKey (ses_sessionId (si_parentSession i)) (si_delegateId i) (si_targetRef i) w = None"
    and "truthy (si_targetRef i)"
  shows "(\<exists>b. readCaseDeviceBinding (ses_sessionId (si_parentSession i)) (the (si_targetRef i)) w = Some b
         \<and> cb_status b = BActive \<and> cb_tenantId b = dm_tenantId cfg \<and> cb_caseId b = ses_sessionId (si_parentSession i))
    \<and> ses_tenantId (si_parentSession i) = dm_tenantId cfg \<and> ses_delegationBinding (si_parentSession i) = None
    \<and> si_delegateId i \<in> set (as_asCaller (ses_resolvedAgentSpec (si_parentSession i)))"
proof -
  let ?pre = "andThen (assertParent cfg (si_parentSession i) (si_delegateId i)) (\<lambda>_.
           ofResult (resolvedResolve (dm_registry cfg) (si_delegateId i)))"
  from assms(1) obtain rd w0 where pre: "?pre w = (Inr rd, w0)"
    by (auto simp: startCall_def split: prod.splits sum.splits)
  then have parent: "assertParent cfg (si_parentSession i) (si_delegateId i) w = (Inr (), w)" and w0: "w0 = w"
    by (auto simp: andThen_Inr assertParent_def ofResult_def split: if_splits sum.splits)
  from assms(1-3) pre w0 have "startNew cfg racing opens env i rd (inputHash cfg (si_input i)) w = Some (Inr (d, c), w1)"
    by (auto simp: startCall_def Let_def split: if_splits)
  then have "fst (validateTargetRef cfg (si_parentSession i) (si_targetRef i) w) = Inr ()"
    by (auto simp: startNew_def andThen_def split: prod.splits sum.splits)
  then show ?thesis
    using assms(4) parent
    by (auto simp: validateTargetRef_def assertParent_def split: option.splits if_splits)
qed

lemma device_target_is_authorized_witness:
  "\<exists>d c w1. startCall ex_config id [] [] (ex_start\<lparr>si_targetRef := Some ''dev1''\<rparr>) paired_world = Some (Inr (d, c), w1)
     \<and> (\<exists>b. readCaseDeviceBinding ''s1'' ''dev1'' paired_world = Some b \<and> cb_status b = BActive)"
proof -
  let ?i = "ex_start\<lparr>si_targetRef := Some ''dev1''\<rparr>"
  have "case startCall ex_config id [] [] ?i paired_world of Some (Inr (d, c), w1) \<Rightarrow> True | _ \<Rightarrow> False"
    by code_simp
  then obtain d c w1 where run: "startCall ex_config id [] [] ?i paired_world = Some (Inr (d, c), w1)"
    by (auto split: option.splits sum.splits)
  have pre: "findCallByCallerKey (ses_sessionId (si_parentSession ?i)) (si_callerTurnSeq ?i) (si_callerToolRequestId ?i)
      paired_world = None"
    "readDelegationByKey (ses_sessionId (si_parentSession ?i)) (si_delegateId ?i) (si_targetRef ?i) paired_world = None"
    "truthy (si_targetRef ?i)"
    by code_simp+
  have "ses_sessionId (si_parentSession ?i) = ''s1''" "the (si_targetRef ?i) = ''dev1''" by code_simp+
  with run device_target_is_authorized [OF run pre] show ?thesis by auto
qed

text \<open>
  A repeated tool request is answered, not run again. If the parent already has a call with this
  turn and request id and the parent may call the delegate, then \<^verbatim>\<open>startCall\<close> returns that call
  unchanged when the delegate and the input are the same, refuses when they differ, and writes
  nothing either way (once the child session is open).
\<close>

lemma repeated_request_returns_same_call:
  assumes "findCallByCallerKey (ses_sessionId (si_parentSession i)) (si_callerTurnSeq i) (si_callerToolRequestId i) w = Some (d, c)"
    and "assertParent cfg (si_parentSession i) (si_delegateId i) w = (Inr (), w)"
    and "resolvedResolve (dm_registry cfg) (si_delegateId i) = Inr rd"
    and "\<not> (rd_targetPolicy rd = Device \<and> si_targetRef i = None)"
    and "dg_status d \<noteq> CreatingChild"
  shows "startCall cfg racing opens env i w
    = Some (if rd_id (dg_resolvedDelegate d) = si_delegateId i \<and> dc_inputHash c = inputHash cfg (si_input i)
            then Inr (d, c) else Inl IdempotencyKeyReused, w)"
proof -
  have "andThen (assertParent cfg (si_parentSession i) (si_delegateId i)) (\<lambda>_.
      ofResult (resolvedResolve (dm_registry cfg) (si_delegateId i))) w = (Inr rd, w)"
    using assms(2,3) by (simp add: andThen_def ofResult_def)
  with assms(1,4,5) show ?thesis by (auto simp: startCall_def Let_def)
qed

lemma repeated_request_returns_same_call_witness:
  "startCall ex_config id [] [] ex_start delegated_world = Some (Inr (ex_active_delegation, ex_active_call), delegated_world)"
proof -
  have f: "findCallByCallerKey (ses_sessionId (si_parentSession ex_start)) (si_callerTurnSeq ex_start)
      (si_callerToolRequestId ex_start) delegated_world = Some (ex_active_delegation, ex_active_call)"
    by (simp add: findCallByCallerKey_def delegated_world_reads ex_active_delegation_def ex_active_call_def
        same_caller_def ex_start_def ex_defs)
  have p: "assertParent ex_config (si_parentSession ex_start) (si_delegateId ex_start) delegated_world = (Inr (), delegated_world)"
    by (simp add: assertParent_def ex_config_def ex_start_def ex_session_def ex_spec_def)
  have r: "resolvedResolve (dm_registry ex_config) (si_delegateId ex_start) = Inr ex_delegate"
    by (simp add: resolvedResolve_def ex_config_def ex_start_def tget_def)
  have "\<not> (rd_targetPolicy ex_delegate = Device \<and> si_targetRef ex_start = None)" "dg_status ex_active_delegation \<noteq> CreatingChild"
    by (simp_all add: ex_delegate_def ex_active_delegation_def ex_delegation_def)
  from repeated_request_returns_same_call [OF f p r this, of id "[]" "[]"] show ?thesis
    by (simp add: ex_active_delegation_def ex_active_call_def ex_start_def ex_defs inputHash_def digestJson_def)
qed

text \<open>
  the guard against repeated requests is not atomic. When the same tool request is delivered twice
  and the second delivery is handled between the first one's look-up and its creation of the delegation,
  both start a call: the first delivery ends with a delegation that holds two calls of the same turn and
  request id.
\<close>

lemma redelivered_request_runs_twice:
  "\<exists>d c w1. startCall ex_config again [] [] ex_start empty_world = Some (Inr (d, c), w1)
     \<and> readDelegation (dg_delegationId d) w1 = Some d
     \<and> length (filter (same_caller 1 ''r1'') (dg_calls d)) = 2"
proof -
  have "case startCall ex_config again [] [] ex_start empty_world of
      Some (Inr (d, c), w1) \<Rightarrow> readDelegation (dg_delegationId d) w1 = Some d
        \<and> length (filter (same_caller 1 ''r1'') (dg_calls d)) = 2
    | _ \<Rightarrow> False"
    by code_simp
  then show ?thesis by (simp split: option.splits sum.splits prod.splits) (metis sumE surj_pair)
qed

end
