(* ===== verification/Pairing.thy ===== *)
theory Pairing
  imports Versioned
begin

text \<open>
  Case pairing: \<^verbatim>\<open>src/central/managers/case/case-pairing-manager.ts\<close> and
  \<^verbatim>\<open>pairing-crypto.ts\<close>. A one-time invite is redeemed into a device binding; the
  binding's credential authorizes the device to register as a worker of the case. SHA-256 and
  HMAC-SHA256 are parameters (they give the hexadecimal digest); tokens come from the random source of the
  world. A request is a sequence of steps with one storage call each, so that requests interleave.
\<close>

subsection \<open>Secrets\<close>

record hashed_secret =
  hs_salt :: string
  hs_hash :: string

text \<open>\<^verbatim>\<open>issue\<close> reads the random source from the given place and says where it stopped.\<close>

record credential_provider =
  cr_issue :: "(nat \<Rightarrow> string) \<Rightarrow> nat \<Rightarrow> (string \<times> hashed_secret) \<times> nat"
  cr_verify :: "string \<Rightarrow> hashed_secret \<Rightarrow> bool"

definition randomToken :: "world \<Rightarrow> string \<times> world" where
  "randomToken = freshId"

text \<open>\<^verbatim>\<open>Buffer.from(s, 'hex')\<close>: pairs of digits up to the first pair that is not one.\<close>

definition hexDigit :: "char \<Rightarrow> nat option" where
  "hexDigit c =
     (let n = of_char c :: nat
      in if 48 \<le> n \<and> n \<le> 57 then Some (n - 48)
         else if 65 \<le> n \<and> n \<le> 70 then Some (n - 55)
         else if 97 \<le> n \<and> n \<le> 102 then Some (n - 87)
         else None)"

fun hexBytes :: "string \<Rightarrow> nat list" where
  "hexBytes (a # b # rest) =
     (case (hexDigit a, hexDigit b) of
        (Some x, Some y) \<Rightarrow> (16 * x + y) # hexBytes rest
      | _ \<Rightarrow> [])"
| "hexBytes _ = []"

definition hashesMatch :: "string \<Rightarrow> string \<Rightarrow> bool" where
  "hashesMatch l r =
     (if length l \<noteq> length r \<or> length l = 0 then False
      else
        (let lb = hexBytes l; rb = hexBytes r
         in if length lb \<noteq> length rb \<or> length lb = 0 then False else lb = rb))"

definition computeHash :: "(string \<Rightarrow> string \<Rightarrow> string) \<Rightarrow> string \<Rightarrow> string \<Rightarrow> string \<Rightarrow> string" where
  "computeHash hmac pepper secret salt = hmac (salt @ pepper) secret"

definition bearerIssue ::
  "(string \<Rightarrow> string \<Rightarrow> string) \<Rightarrow> string \<Rightarrow> (nat \<Rightarrow> string) \<Rightarrow> nat \<Rightarrow> (string \<times> hashed_secret) \<times> nat" where
  "bearerIssue hmac pepper rnd n =
     (let secret = rnd n; salt = rnd (Suc n)
      in ((secret, \<lparr>hs_salt = salt, hs_hash = computeHash hmac pepper secret salt\<rparr>), Suc (Suc n)))"

definition issueSecret :: "credential_provider \<Rightarrow> world \<Rightarrow> (string \<times> hashed_secret) \<times> world" where
  "issueSecret cr w = (let (r, n) = cr_issue cr (w_uuid w) (w_uuidIx w) in (r, w\<lparr>w_uuidIx := n\<rparr>))"

definition bearerVerify :: "(string \<Rightarrow> string \<Rightarrow> string) \<Rightarrow> string \<Rightarrow> string \<Rightarrow> hashed_secret \<Rightarrow> bool" where
  "bearerVerify hmac pepper secret h =
     (if secret = [] then False else hashesMatch (computeHash hmac pepper secret (hs_salt h)) (hs_hash h))"

definition bearerProvider :: "(string \<Rightarrow> string \<Rightarrow> string) \<Rightarrow> string \<Rightarrow> credential_provider" where
  "bearerProvider hmac pepper = \<lparr>cr_issue = bearerIssue hmac pepper, cr_verify = bearerVerify hmac pepper\<rparr>"

definition deriveDeviceRef :: "(string \<Rightarrow> string) \<Rightarrow> string \<Rightarrow> string \<Rightarrow> string \<Rightarrow> string" where
  "deriveDeviceRef sha tenantId caseId deviceId =
     ''dref_'' @ take 40 (sha (tenantId @ [CHR 0x00] @ caseId @ [CHR 0x00] @ deviceId))"

subsection \<open>The manager's configuration, inputs and results\<close>

record pairing_config =
  pc_tenantId :: string
  pc_inviteTtlMs :: int
  pc_credentials :: credential_provider
  pc_sha :: "string \<Rightarrow> string"

record redeem_input =
  rx_inviteId :: string
  rx_inviteSecret :: string
  rx_deviceId :: string
  rx_deviceLabel :: string

record redeem_result =
  rr_caseId :: string
  rr_deviceRef :: string
  rr_bindingCredential :: string

record mint_result =
  mr_inviteId :: string
  mr_inviteSecret :: string
  mr_caseId :: string
  mr_expiresAt :: time

record resolve_input =
  rs_caseId :: string
  rs_deviceId :: string
  rs_deviceRef :: string
  rs_bindingCredential :: string

record resolved_binding =
  rb_caseId :: string
  rb_deviceRef :: string
  rb_mintedLabels :: "(string \<times> string) list"

definition terminal_case :: "session_status \<Rightarrow> bool" where
  "terminal_case st = (st \<in> {Completed, Cancelled, Failed})"

definition max_device_id_length :: nat where "max_device_id_length = 128"
definition max_device_label_length :: nat where "max_device_label_length = 200"
definition max_secret_length :: nat where "max_secret_length = 256"

definition requireNonEmptyInput :: "string \<Rightarrow> unit wop" where
  "requireNonEmptyInput v w = (if v = [] then throw (Pairing InvalidInput) w else ok () w)"

definition requireBounded :: "string \<Rightarrow> nat \<Rightarrow> string wop" where
  "requireBounded v m w = (if v = [] \<or> m < length v then throw (Pairing InvalidInput) w else ok v w)"

subsection \<open>Access and invites\<close>

definition authorizeCaseAccess :: "pairing_config \<Rightarrow> string \<Rightarrow> string \<Rightarrow> unit wop" where
  "authorizeCaseAccess cfg caseId principalId =
     andThen (requireNonEmptyInput caseId) (\<lambda>_.
     andThen (requireNonEmptyInput principalId) (\<lambda>_ w.
       (case readSession caseId w of
          None \<Rightarrow> throw (Pairing CaseNotFound) w
        | Some s \<Rightarrow>
            if ses_tenantId s \<noteq> pc_tenantId cfg \<or> ses_owner s \<noteq> principalId
            then throw (Pairing CaseNotFound) w else ok () w)))"

text \<open>A case that is there, belongs to the tenant and is open.\<close>

definition requireOpenCase :: "pairing_config \<Rightarrow> string \<Rightarrow> unit wop" where
  "requireOpenCase cfg caseId w =
     (case readSession caseId w of
        None \<Rightarrow> throw (Pairing CaseNotFound) w
      | Some s \<Rightarrow>
          if ses_tenantId s \<noteq> pc_tenantId cfg then throw (Pairing CaseNotFound) w
          else if terminal_case (ses_status s) then throw (Pairing CaseClosed) w
          else ok () w)"

definition mintPairingInvite :: "pairing_config \<Rightarrow> string \<Rightarrow> mint_result wop" where
  "mintPairingInvite cfg caseId =
     andThen (requireNonEmptyInput caseId) (\<lambda>_.
     andThen (requireOpenCase cfg caseId) (\<lambda>_ w.
       (let (t, w1) = now w;
            (inviteId, w2) = randomToken w1;
            ((secret, h), w3) = issueSecret (pc_credentials cfg) w2;
            p = \<lparr>pi_inviteId = inviteId, pi_tenantId = pc_tenantId cfg, pi_caseId = caseId,
                 pi_inviteSecretHash = hs_hash h, pi_inviteSecretSalt = hs_salt h, pi_status = InvPending,
                 pi_expiresAt = t + pc_inviteTtlMs cfg, pi_createdAt = t, pi_updatedAt = t,
                 pi_redeemedAt = None, pi_redeemedDeviceRef = None, pi_revision = 1\<rparr>;
            ((_, created), w4) = createPairingInvite p w3
        in if \<not> created then throw (Pairing InvalidInput) w4
           else ok \<lparr>mr_inviteId = inviteId, mr_inviteSecret = secret, mr_caseId = caseId,
                    mr_expiresAt = t + pc_inviteTtlMs cfg\<rparr> w4)))"

subsection \<open>Redeeming an invite, one storage call at a time\<close>

definition redeemLookup :: "pairing_config \<Rightarrow> redeem_input \<Rightarrow> string wop" where
  "redeemLookup cfg i =
     andThen (requireBounded (rx_deviceId i) max_device_id_length) (\<lambda>_.
     andThen (requireBounded (rx_deviceLabel i) max_device_label_length) (\<lambda>_.
     andThen (requireBounded (rx_inviteSecret i) max_secret_length) (\<lambda>_.
     andThen (requireNonEmptyInput (rx_inviteId i)) (\<lambda>_ w.
       (case readPairingInvite (rx_inviteId i) w of
          None \<Rightarrow> throw (Pairing InviteNotFound) w
        | Some p \<Rightarrow>
            if pi_tenantId p \<noteq> pc_tenantId cfg then throw (Pairing InviteNotFound) w
            else ok (pi_caseId p) w)))))"

definition redeemCheck :: "pairing_config \<Rightarrow> redeem_input \<Rightarrow> string \<Rightarrow> pairing_invite wop" where
  "redeemCheck cfg i caseId w =
     (case readPairingInvite (rx_inviteId i) w of
        None \<Rightarrow> throw (Pairing InviteNotFound) w
      | Some p \<Rightarrow>
          if pi_tenantId p \<noteq> pc_tenantId cfg \<or> pi_caseId p \<noteq> caseId then throw (Pairing InviteNotFound) w
          else if pi_status p \<noteq> InvPending \<or> pi_redeemedAt p \<noteq> None
               then throw (Pairing InviteAlreadyRedeemed) w
          else
            (let (t, w1) = now w
             in if pi_expiresAt p \<le> t then throw (Pairing InviteExpired) w1
                else if \<not> cr_verify (pc_credentials cfg) (rx_inviteSecret i)
                            \<lparr>hs_salt = pi_inviteSecretSalt p, hs_hash = pi_inviteSecretHash p\<rparr>
                     then throw (Pairing InviteSecretInvalid) w1
                else ok p w1))"

definition redeemAuthorize :: "pairing_config \<Rightarrow> redeem_input \<Rightarrow> pairing_invite \<Rightarrow> (string \<times> time) wop" where
  "redeemAuthorize cfg i p =
     andThen (requireOpenCase cfg (pi_caseId p)) (\<lambda>_ w.
       (let (t, w1) = now w in ok (deriveDeviceRef (pc_sha cfg) (pc_tenantId cfg) (pi_caseId p) (rx_deviceId i), t) w1))"

definition claimed_invite :: "pairing_invite \<Rightarrow> string \<Rightarrow> time \<Rightarrow> pairing_invite" where
  "claimed_invite p ref t =
     p\<lparr>pi_status := InvRedeemed, pi_redeemedAt := Some t, pi_redeemedDeviceRef := Some ref,
       pi_updatedAt := t, pi_revision := pi_revision p + 1\<rparr>"

definition redeemClaim :: "pairing_invite \<Rightarrow> string \<Rightarrow> time \<Rightarrow> unit wop" where
  "redeemClaim p ref t =
     andThen (compareAndSetPairingInvite (pi_revision p) (claimed_invite p ref t)) (\<lambda>won.
       if won then ok () else throw (Pairing InviteAlreadyRedeemed))"

definition new_binding :: "pairing_config \<Rightarrow> redeem_input \<Rightarrow> string \<Rightarrow> string \<Rightarrow> hashed_secret \<Rightarrow> time \<Rightarrow> device_binding" where
  "new_binding cfg i caseId ref h t =
     \<lparr>cb_tenantId = pc_tenantId cfg, cb_caseId = caseId, cb_deviceId = rx_deviceId i, cb_deviceRef = ref,
      cb_bindingCredentialHash = hs_hash h, cb_bindingCredentialSalt = hs_salt h,
      cb_deviceLabel = rx_deviceLabel i, cb_workerId = None, cb_status = BActive, cb_createdAt = t,
      cb_updatedAt = t, cb_lastRedeemedAt = t, cb_lastRegisteredAt = None, cb_revokedAt = None, cb_revision = 1\<rparr>"

definition rotated_binding :: "redeem_input \<Rightarrow> hashed_secret \<Rightarrow> time \<Rightarrow> device_binding \<Rightarrow> device_binding" where
  "rotated_binding i h t b =
     b\<lparr>cb_deviceLabel := rx_deviceLabel i, cb_bindingCredentialHash := hs_hash h,
       cb_bindingCredentialSalt := hs_salt h, cb_status := BActive, cb_updatedAt := t, cb_lastRedeemedAt := t,
       cb_revokedAt := None, cb_revision := cb_revision b + 1\<rparr>"

text \<open>The write of \<^verbatim>\<open>upsertBinding\<close>, after the read that gave \<open>existing\<close>.\<close>

definition upsertWrite ::
  "pairing_config \<Rightarrow> redeem_input \<Rightarrow> string \<Rightarrow> string \<Rightarrow> hashed_secret \<Rightarrow> time \<Rightarrow> device_binding option \<Rightarrow> unit wop" where
  "upsertWrite cfg i caseId ref h t existing w =
     (case existing of
        None \<Rightarrow>
          (let ((_, created), w1) = createCaseDeviceBinding (new_binding cfg i caseId ref h t) w
           in if created then ok () w1 else throw (Pairing InvalidInput) w1)
      | Some b \<Rightarrow>
          andThen (compareAndSetCaseDeviceBinding (cb_revision b) (rotated_binding i h t b)) (\<lambda>won.
            if won then ok () else throw (Pairing InvalidInput)) w)"

text \<open>The whole operation, when nothing else runs in between.\<close>

definition redeemPairingInvite :: "pairing_config \<Rightarrow> redeem_input \<Rightarrow> redeem_result wop" where
  "redeemPairingInvite cfg i =
     andThen (redeemLookup cfg i) (\<lambda>caseId.
     andThen (redeemCheck cfg i caseId) (\<lambda>p.
     andThen (redeemAuthorize cfg i p) (\<lambda>(ref, t).
     andThen (redeemClaim p ref t) (\<lambda>_ w.
       (let ((credential, h), w1) = issueSecret (pc_credentials cfg) w
        in andThen (upsertWrite cfg i (pi_caseId p) ref h t (readCaseDeviceBinding (pi_caseId p) ref w1)) (\<lambda>_.
             ok \<lparr>rr_caseId = pi_caseId p, rr_deviceRef = ref, rr_bindingCredential = credential\<rparr>) w1)))))"

subsection \<open>Registration: the credential check\<close>

text \<open>\<open>between\<close> is what other tasks do between the read of the binding and the read of the case.\<close>

definition resolveEdgeBinding ::
  "pairing_config \<Rightarrow> (world \<Rightarrow> world) \<Rightarrow> resolve_input \<Rightarrow> resolved_binding wop" where
  "resolveEdgeBinding cfg between i =
     andThen (requireBounded (rs_deviceId i) max_device_id_length) (\<lambda>_.
     andThen (requireBounded (rs_bindingCredential i) max_secret_length) (\<lambda>_.
     andThen (requireNonEmptyInput (rs_caseId i)) (\<lambda>_.
     andThen (requireNonEmptyInput (rs_deviceRef i)) (\<lambda>_ w.
       (case readCaseDeviceBinding (rs_caseId i) (rs_deviceRef i) w of
          None \<Rightarrow> throw (Pairing BindingNotFound) w
        | Some b \<Rightarrow>
            if cb_tenantId b \<noteq> pc_tenantId cfg \<or> cb_status b \<noteq> BActive then throw (Pairing BindingNotFound) w
            else
              (let w1 = between w
               in case readSession (cb_caseId b) w1 of
                    None \<Rightarrow> throw (Pairing CaseClosed) w1
                  | Some s \<Rightarrow>
                      if ses_tenantId s \<noteq> pc_tenantId cfg \<or> terminal_case (ses_status s)
                      then throw (Pairing CaseClosed) w1
                      else if cb_deviceId b \<noteq> rs_deviceId i
                        \<or> cb_deviceRef b \<noteq> deriveDeviceRef (pc_sha cfg) (pc_tenantId cfg) (rs_caseId i) (rs_deviceId i)
                      then throw (Pairing BindingCredentialInvalid) w1
                      else if \<not> cr_verify (pc_credentials cfg) (rs_bindingCredential i)
                                  \<lparr>hs_salt = cb_bindingCredentialSalt b, hs_hash = cb_bindingCredentialHash b\<rparr>
                      then throw (Pairing BindingCredentialInvalid) w1
                      else ok \<lparr>rb_caseId = cb_caseId b, rb_deviceRef = cb_deviceRef b,
                               rb_mintedLabels = [(edge_case_label, cb_caseId b),
                                                  (edge_device_label, cb_deviceRef b)]\<rparr> w1))))))"

subsection \<open>Revoking\<close>

definition owned_active :: "pairing_config \<Rightarrow> device_binding \<Rightarrow> bool" where
  "owned_active cfg b = (cb_tenantId b = pc_tenantId cfg \<and> cb_status b = BActive)"

definition revoked_binding :: "time \<Rightarrow> device_binding \<Rightarrow> device_binding" where
  "revoked_binding t b =
     b\<lparr>cb_status := BRevoked, cb_revokedAt := Some t, cb_updatedAt := t, cb_revision := cb_revision b + 1\<rparr>"

definition markBindingRevoked :: "device_binding \<Rightarrow> bool wop" where
  "markBindingRevoked b w =
     (let (t, w1) = now w in compareAndSetCaseDeviceBinding (cb_revision b) (revoked_binding t b) w1)"

definition revokeDevice :: "pairing_config \<Rightarrow> string \<Rightarrow> string \<Rightarrow> bool wop" where
  "revokeDevice cfg caseId ref =
     andThen (requireNonEmptyInput caseId) (\<lambda>_.
     andThen (requireNonEmptyInput ref) (\<lambda>_ w.
       (case readCaseDeviceBinding caseId ref w of
          None \<Rightarrow> ok False w
        | Some b \<Rightarrow> if \<not> owned_active cfg b then ok False w else markBindingRevoked b w)))"

fun revokeAll :: "device_binding list \<Rightarrow> int \<Rightarrow> int wop" where
  "revokeAll [] n = ok n"
| "revokeAll (b # bs) n = andThen (markBindingRevoked b) (\<lambda>won. revokeAll bs (if won then n + 1 else n))"

definition revokeCase :: "pairing_config \<Rightarrow> string \<Rightarrow> int wop" where
  "revokeCase cfg caseId =
     andThen (requireNonEmptyInput caseId) (\<lambda>_ w.
       revokeAll (filter (owned_active cfg) (readCaseDeviceBindings caseId w)) 0 w)"

fun revokeCases :: "pairing_config \<Rightarrow> session list \<Rightarrow> unit wop" where
  "revokeCases cfg [] = ok ()"
| "revokeCases cfg (s # ss) = andThen (revokeCase cfg (ses_sessionId s)) (\<lambda>_. revokeCases cfg ss)"

definition reconcileTerminalCases :: "pairing_config \<Rightarrow> unit wop" where
  "reconcileTerminalCases cfg w =
     revokeCases cfg
       (filter (\<lambda>s. ses_tenantId s = pc_tenantId cfg \<and> terminal_case (ses_status s)) (readSessions w)) w"

subsection \<open>The roster\<close>

text \<open>
  \<^verbatim>\<open>sort\<close> with a comparator is a stable sort. The locale's string order is a parameter
  that gives the sign of \<^verbatim>\<open>localeCompare\<close>.
\<close>

fun insertBy :: "('a \<Rightarrow> 'a \<Rightarrow> int) \<Rightarrow> 'a \<Rightarrow> 'a list \<Rightarrow> 'a list" where
  "insertBy cmp x [] = [x]"
| "insertBy cmp x (y # ys) = (if cmp x y \<le> 0 then x # y # ys else y # insertBy cmp x ys)"

definition sortBy :: "('a \<Rightarrow> 'a \<Rightarrow> int) \<Rightarrow> 'a list \<Rightarrow> 'a list" where
  "sortBy cmp xs = foldr (insertBy cmp) xs []"

definition serves_binding :: "device_binding \<Rightarrow> worker \<Rightarrow> bool" where
  "serves_binding b k =
     (wk_lifecycleState k \<noteq> Closed \<and> wk_lifecycleState k \<noteq> Expired
      \<and> map_of (wk_labels k) edge_case_label = Some (cb_caseId b)
      \<and> map_of (wk_labels k) edge_device_label = Some (cb_deviceRef b))"

definition registration_time :: "worker \<Rightarrow> time" where
  "registration_time k = orElse (wk_registeredAt k) (wk_heartbeatAt k)"

definition newestLiveWorkerForBinding :: "device_binding \<Rightarrow> worker list \<Rightarrow> worker option" where
  "newestLiveWorkerForBinding b ks =
     (case sortBy (\<lambda>l r. registration_time r - registration_time l) (filter (serves_binding b) ks) of
        [] \<Rightarrow> None
      | k # _ \<Rightarrow> Some k)"

definition toCaseDeviceView :: "device_binding \<Rightarrow> worker list \<Rightarrow> time \<Rightarrow> case_device_view" where
  "toCaseDeviceView b ks t =
     (let k = newestLiveWorkerForBinding b ks;
          online = (case k of None \<Rightarrow> False | Some x \<Rightarrow> wk_lifecycleState x = Active \<and> t < wk_expiresAt x);
          ready = (online \<and> Ready \<in> set (wk_conditions (the k)) \<and> 0 < wk_allocatable (the k))
      in \<lparr>cv_deviceRef = cb_deviceRef b, cv_deviceLabel = cb_deviceLabel b, cv_online = online,
          cv_ready = ready, cv_busy = (online \<and> \<not> ready), cv_workerId = map_option wk_workerId k,
          cv_lastHeartbeatAt = map_option wk_heartbeatAt k, cv_lastRedeemedAt = cb_lastRedeemedAt b\<rparr>)"

definition view_order :: "(string \<Rightarrow> string \<Rightarrow> int) \<Rightarrow> case_device_view \<Rightarrow> case_device_view \<Rightarrow> int" where
  "view_order localeCompare l r =
     (let c = localeCompare (cv_deviceLabel l) (cv_deviceLabel r)
      in if c \<noteq> 0 then c else localeCompare (cv_deviceRef l) (cv_deviceRef r))"

definition listCaseDevices ::
  "pairing_config \<Rightarrow> (string \<Rightarrow> string \<Rightarrow> int) \<Rightarrow> (world \<Rightarrow> world) \<Rightarrow> string \<Rightarrow> case_device_view list wop" where
  "listCaseDevices cfg localeCompare between caseId =
     andThen (requireNonEmptyInput caseId) (\<lambda>_ w.
       (let bs = filter (owned_active cfg) (readCaseDeviceBindings caseId w)
        in if bs = [] then ok [] w
           else
             (let (t, w1) = now w;
                  w2 = between w1;
                  ks = filter (\<lambda>k. wk_tenantId k = pc_tenantId cfg) (readWorkers w2)
              in ok (sortBy (view_order localeCompare) (map (\<lambda>b. toCaseDeviceView b ks t) bs)) w2)))"

end
