(* ===== verification/PairingSteps.thy ===== *)
theory PairingSteps
  imports Pairing
begin

text \<open>
  Any number of pairing requests running at once. A request runs one storage call and the code up
  to the next one as a step; \<^verbatim>\<open>serializeCaseOperation\<close> keeps the requests of one case out of
  each other's way; everything else central does may happen between any two steps.
\<close>

subsection \<open>One request\<close>

datatype pairing_request =
    Redeem redeem_input
  | RevokeDevice string string
  | RevokeCase string

datatype pairing_reply = Redeemed redeem_result | DeviceRevoked bool | CaseRevoked int

datatype segment =
    Checked pairing_invite
  | Authorized pairing_invite string time
  | Claimed pairing_invite string time
  | Issued pairing_invite string time string hashed_secret "device_binding option"
  | RevokingOne device_binding
  | Revoking "device_binding list" int

datatype pairing_pc =
    Called
  | Waiting string
  | Inside string segment
  | Returned "error + pairing_reply"

definition goto :: "'a wop \<Rightarrow> ('a \<Rightarrow> pairing_pc) \<Rightarrow> world \<Rightarrow> pairing_pc \<times> world" where
  "goto m f w = (case m w of (Inl e, w1) \<Rightarrow> (Returned (Inl e), w1) | (Inr x, w1) \<Rightarrow> (f x, w1))"

fun enter :: "pairing_config \<Rightarrow> pairing_request \<Rightarrow> world \<Rightarrow> pairing_pc \<times> world" where
  "enter cfg (Redeem i) w = goto (redeemLookup cfg i) Waiting w"
| "enter cfg (RevokeDevice c ref) w =
     goto (andThen (requireNonEmptyInput c) (\<lambda>_. requireNonEmptyInput ref)) (\<lambda>_. Waiting c) w"
| "enter cfg (RevokeCase c) w = goto (requireNonEmptyInput c) (\<lambda>_. Waiting c) w"

fun begin_operation :: "pairing_config \<Rightarrow> pairing_request \<Rightarrow> string \<Rightarrow> world \<Rightarrow> pairing_pc \<times> world" where
  "begin_operation cfg (Redeem i) c w = goto (redeemCheck cfg i c) (\<lambda>p. Inside c (Checked p)) w"
| "begin_operation cfg (RevokeDevice _ ref) c w =
     (case readCaseDeviceBinding c ref w of
        None \<Rightarrow> (Returned (Inr (DeviceRevoked False)), w)
      | Some b \<Rightarrow>
          if \<not> owned_active cfg b then (Returned (Inr (DeviceRevoked False)), w)
          else (Inside c (RevokingOne b), w))"
| "begin_operation cfg (RevokeCase _) c w =
     (let bs = filter (owned_active cfg) (readCaseDeviceBindings c w)
      in if bs = [] then (Returned (Inr (CaseRevoked 0)), w) else (Inside c (Revoking bs 0), w))"

fun continue_redeem :: "pairing_config \<Rightarrow> redeem_input \<Rightarrow> string \<Rightarrow> segment \<Rightarrow> world \<Rightarrow> pairing_pc \<times> world" where
  "continue_redeem cfg i c (Checked p) w =
     goto (redeemAuthorize cfg i p) (\<lambda>(ref, t). Inside c (Authorized p ref t)) w"
| "continue_redeem cfg i c (Authorized p ref t) w = goto (redeemClaim p ref t) (\<lambda>_. Inside c (Claimed p ref t)) w"
| "continue_redeem cfg i c (Claimed p ref t) w =
     (let ((credential, h), w1) = issueSecret (pc_credentials cfg) w
      in (Inside c (Issued p ref t credential h (readCaseDeviceBinding (pi_caseId p) ref w1)), w1))"
| "continue_redeem cfg i c (Issued p ref t credential h existing) w =
     goto (upsertWrite cfg i (pi_caseId p) ref h t existing)
       (\<lambda>_. Returned (Inr (Redeemed \<lparr>rr_caseId = pi_caseId p, rr_deviceRef = ref, rr_bindingCredential = credential\<rparr>))) w"
| "continue_redeem cfg i c seg w = (Inside c seg, w)"

fun continue_revoke :: "string \<Rightarrow> segment \<Rightarrow> world \<Rightarrow> pairing_pc \<times> world" where
  "continue_revoke c (RevokingOne b) w = goto (markBindingRevoked b) (\<lambda>won. Returned (Inr (DeviceRevoked won))) w"
| "continue_revoke c (Revoking (b # bs) n) w =
     goto (markBindingRevoked b) (\<lambda>won.
       let m = (if won then n + 1 else n)
       in if bs = [] then Returned (Inr (CaseRevoked m)) else Inside c (Revoking bs m)) w"
| "continue_revoke c seg w = (Inside c seg, w)"

definition pairing_step :: "pairing_config \<Rightarrow> pairing_request \<Rightarrow> pairing_pc \<Rightarrow> world \<Rightarrow> pairing_pc \<times> world" where
  "pairing_step cfg r pc w =
     (case pc of
        Called \<Rightarrow> enter cfg r w
      | Waiting c \<Rightarrow> begin_operation cfg r c w
      | Inside c seg \<Rightarrow>
          (case r of Redeem i \<Rightarrow> continue_redeem cfg i c seg w | _ \<Rightarrow> continue_revoke c seg w)
      | Returned x \<Rightarrow> (pc, w))"

text \<open>A request that runs alone does what the operation does.\<close>

fun run_alone :: "nat \<Rightarrow> pairing_config \<Rightarrow> pairing_request \<Rightarrow> pairing_pc \<Rightarrow> world \<Rightarrow> pairing_pc \<times> world" where
  "run_alone 0 cfg r pc w = (pc, w)"
| "run_alone (Suc n) cfg r pc w = (let (pc1, w1) = pairing_step cfg r pc w in run_alone n cfg r pc1 w1)"

lemma run_alone_Returned [simp]: "run_alone n cfg r (Returned x) w = (Returned x, w)"
  by (induction n) (simp_all add: pairing_step_def)

lemma run_alone_redeem:
  "run_alone 6 cfg (Redeem i) Called w
     = (case redeemPairingInvite cfg i w of (out, w1) \<Rightarrow> (Returned (map_sum id Redeemed out), w1))"
  by (simp add: eval_nat_numeral pairing_step_def redeemPairingInvite_def goto_def andThen_def Let_def
      split: sum.splits prod.splits)

lemma run_alone_revokeDevice:
  "run_alone 3 cfg (RevokeDevice c ref) Called w
     = (case revokeDevice cfg c ref w of (out, w1) \<Rightarrow> (Returned (map_sum id DeviceRevoked out), w1))"
  by (simp add: eval_nat_numeral pairing_step_def revokeDevice_def goto_def andThen_def requireNonEmptyInput_def split_def
      split: sum.splits option.splits)

lemma run_alone_revoking:
  "run_alone (length bs) cfg (RevokeCase c0) (Inside c (Revoking bs n)) w
     = (case revokeAll bs n w of (out, w1) \<Rightarrow> (Returned (map_sum id CaseRevoked out), w1))"
  if "bs \<noteq> []"
  using that
proof (induction bs arbitrary: n w)
  case (Cons b bs)
  show ?case
  proof (cases "bs = []")
    case True
    then show ?thesis by (simp add: pairing_step_def goto_def andThen_def split_def split: sum.splits)
  next
    case False
    with Cons show ?thesis by (simp add: pairing_step_def goto_def andThen_def split_def split: sum.splits)
  qed
qed simp

lemma run_alone_revokeCase:
  "\<exists>m. run_alone m cfg (RevokeCase c) Called w
     = (case revokeCase cfg c w of (out, w1) \<Rightarrow> (Returned (map_sum id CaseRevoked out), w1))"
proof -
  let ?bs = "filter (owned_active cfg) (readCaseDeviceBindings c w)"
  have "run_alone (Suc (Suc (length ?bs))) cfg (RevokeCase c) Called w
     = (case revokeCase cfg c w of (out, w1) \<Rightarrow> (Returned (map_sum id CaseRevoked out), w1))"
    using run_alone_revoking [of ?bs cfg c c 0 w]
    by (cases "?bs = []") (simp_all add: pairing_step_def revokeCase_def goto_def andThen_def requireNonEmptyInput_def Let_def)
  then show ?thesis ..
qed

subsection \<open>Many requests\<close>

type_synonym pairing_procs = "(pairing_request \<times> pairing_pc) list"

fun holds :: "pairing_pc \<Rightarrow> string option" where
  "holds (Inside c _) = Some c"
| "holds _ = None"

definition may_run :: "pairing_procs \<Rightarrow> pairing_pc \<Rightarrow> bool" where
  "may_run ps pc = (case pc of Waiting c \<Rightarrow> (\<forall>(_, pc1) \<in> set ps. holds pc1 \<noteq> Some c) | _ \<Rightarrow> True)"

text \<open>
  What the rest of central may do meanwhile: write sessions, but a session that has ended stays
  ended; create invites; never touch a stored invite or a binding, which only this manager writes.
\<close>

definition elsewhere :: "world \<Rightarrow> world \<Rightarrow> bool" where
  "elsewhere w w1 =
     (w_bindings w1 = w_bindings w
      \<and> (\<forall>k p. readPairingInvite k w = Some p \<longrightarrow> readPairingInvite k w1 = Some p)
      \<and> (keyed pi_inviteId (w_invites w) \<longrightarrow> keyed pi_inviteId (w_invites w1))
      \<and> (\<forall>sid s. readSession sid w = Some s \<and> terminal_case (ses_status s) \<longrightarrow>
           (\<exists>s1. readSession sid w1 = Some s1 \<and> ses_tenantId s1 = ses_tenantId s \<and> terminal_case (ses_status s1))))"

inductive pairing_system :: "pairing_config \<Rightarrow> world \<times> pairing_procs \<Rightarrow> world \<times> pairing_procs \<Rightarrow> bool" for cfg where
  request: "pairing_system cfg (w, ps) (w, ps @ [(r, Called)])"
| run: "n < length ps \<Longrightarrow> ps ! n = (r, pc) \<Longrightarrow> may_run ps pc \<Longrightarrow> pairing_step cfg r pc w = (pc1, w1)
    \<Longrightarrow> pairing_system cfg (w, ps) (w1, ps[n := (r, pc1)])"
| other: "elsewhere w w1 \<Longrightarrow> pairing_system cfg (w, ps) (w1, ps)"

definition pairing_reachable :: "pairing_config \<Rightarrow> world \<Rightarrow> world \<times> pairing_procs \<Rightarrow> bool" where
  "pairing_reachable cfg w0 s = (pairing_system cfg)\<^sup>*\<^sup>* (w0, []) s"

subsection \<open>What one step changes\<close>

definition wf_pairing :: "world \<Rightarrow> bool" where
  "wf_pairing w = (keyed binding_key (w_bindings w) \<and> keyed pi_inviteId (w_invites w))"

lemma readBindings_iff:
  "wf_pairing w \<Longrightarrow> b \<in> set (readCaseDeviceBindings c w)
    \<longleftrightarrow> cb_caseId b = c \<and> readCaseDeviceBinding c (cb_deviceRef b) w = Some b"
  unfolding wf_pairing_def readCaseDeviceBindings_def readCaseDeviceBinding_def
  by (force simp: keyed_def tget_def binding_key_def image_iff dest: map_of_SomeD intro: map_of_is_SomeI)

lemma readBinding_key:
  "wf_pairing w \<Longrightarrow> readCaseDeviceBinding c ref w = Some b \<Longrightarrow> cb_caseId b = c \<and> cb_deviceRef b = ref"
  unfolding wf_pairing_def readCaseDeviceBinding_def by (auto dest: keyed_tget simp: binding_key_def)

lemma readInvite_key: "wf_pairing w \<Longrightarrow> readPairingInvite k w = Some p \<Longrightarrow> pi_inviteId p = k"
  unfolding wf_pairing_def readPairingInvite_def by (auto dest: keyed_tget)

lemma wf_pairing_writes:
  "wf_pairing w \<Longrightarrow> wf_pairing (writeCaseDeviceBinding b w)"
  "wf_pairing w \<Longrightarrow> wf_pairing (writePairingInvite p w)"
  "wf_pairing (snd (now w)) = wf_pairing w"
  "wf_pairing (snd (issueSecret cr w)) = wf_pairing w"
  by (simp_all add: wf_pairing_def writeCaseDeviceBinding_def writePairingInvite_def keyed_tput now_def
      issueSecret_def split_def Let_def)

lemma reads_issueSecret [tab_simps]:
  "readSession sid (snd (issueSecret cr w)) = readSession sid w"
  "readPairingInvite k (snd (issueSecret cr w)) = readPairingInvite k w"
  "readCaseDeviceBinding c ref (snd (issueSecret cr w)) = readCaseDeviceBinding c ref w"
  by (simp_all add: issueSecret_def split_def Let_def readSession_def readPairingInvite_def readCaseDeviceBinding_def)

lemma requireNonEmptyInput_same [simp]: "snd (requireNonEmptyInput v w) = w"
  by (simp add: requireNonEmptyInput_def)

lemma requireBounded_same [simp]: "snd (requireBounded v m w) = w"
  by (simp add: requireBounded_def)

lemma requireOpenCase_same [simp]: "snd (requireOpenCase cfg c w) = w"
  by (simp add: requireOpenCase_def split: option.splits)

lemma redeemLookup_same [simp]: "snd (redeemLookup cfg i w) = w"
  unfolding redeemLookup_def
  by (rule andThen_preserves [where P = "\<lambda>v. v = w"] | simp split: option.splits)+

lemma goto_eq:
  "goto m f w = (pc, w1) \<longleftrightarrow>
    (\<exists>e. m w = (Inl e, w1) \<and> pc = Returned (Inl e)) \<or> (\<exists>x. m w = (Inr x, w1) \<and> pc = f x)"
  by (auto simp: goto_def split: prod.splits sum.splits)

lemma require_out:
  "requireNonEmptyInput v w = (out, w1) \<Longrightarrow> w1 = w"
  "redeemLookup cfg i w = (out1, w1) \<Longrightarrow> w1 = w"
  by (metis requireNonEmptyInput_same snd_conv) (metis redeemLookup_same snd_conv)

text \<open>The world up to the clock and the random source.\<close>

definition ticks :: "world \<Rightarrow> world \<Rightarrow> bool" where
  "ticks w w1 = (w1 = w \<or> w1 = snd (now w) \<or> (\<exists>cr. w1 = snd (issueSecret cr w)))"

lemma ticks_reads:
  "ticks w w1 \<Longrightarrow> readSession sid w1 = readSession sid w"
  "ticks w w1 \<Longrightarrow> readPairingInvite k w1 = readPairingInvite k w"
  "ticks w w1 \<Longrightarrow> readCaseDeviceBinding c ref w1 = readCaseDeviceBinding c ref w"
  "ticks w w1 \<Longrightarrow> wf_pairing w1 = wf_pairing w"
  by (auto simp: ticks_def tab_simps wf_pairing_writes)

lemma redeemLookup_Inr:
  "redeemLookup cfg i w = (Inr c, w1) \<Longrightarrow>
    w1 = w \<and> (\<exists>p. readPairingInvite (rx_inviteId i) w = Some p \<and> pi_caseId p = c)"
  using redeemLookup_same [of cfg i w]
  by (auto simp: redeemLookup_def andThen_Inr requireBounded_def requireNonEmptyInput_def
      split: if_splits option.splits)

lemma redeemCheck_out: "redeemCheck cfg i c w = (out, w1) \<Longrightarrow> ticks w w1"
  by (auto simp: redeemCheck_def ticks_def Let_def split_def split: option.splits if_splits)

lemma redeemCheck_Inr:
  "redeemCheck cfg i c w = (Inr p, w1) \<Longrightarrow>
    readPairingInvite (rx_inviteId i) w = Some p \<and> pi_caseId p = c \<and> pi_status p = InvPending
    \<and> cr_verify (pc_credentials cfg) (rx_inviteSecret i)
        \<lparr>hs_salt = pi_inviteSecretSalt p, hs_hash = pi_inviteSecretHash p\<rparr>"
  by (auto simp: redeemCheck_def Let_def split_def split: option.splits if_splits)

lemma redeemAuthorize_out: "redeemAuthorize cfg i p w = (out, w1) \<Longrightarrow> ticks w w1"
  using requireOpenCase_same [of cfg "pi_caseId p" w]
  by (auto simp: redeemAuthorize_def andThen_def ticks_def Let_def split_def split: prod.splits sum.splits)

lemma redeemAuthorize_Inr:
  "redeemAuthorize cfg i p w = (Inr (ref, t), w1) \<Longrightarrow>
    \<exists>s. readSession (pi_caseId p) w = Some s \<and> ses_tenantId s = pc_tenantId cfg \<and> \<not> terminal_case (ses_status s)"
  by (auto simp: redeemAuthorize_def andThen_Inr requireOpenCase_def split: option.splits if_splits)

lemma redeemClaim_Inr:
  "redeemClaim p ref t w = (Inr (), w1) \<Longrightarrow>
    (\<exists>cur. readPairingInvite (pi_inviteId p) w = Some cur \<and> pi_revision cur = pi_revision p)
    \<and> w1 = writePairingInvite (claimed_invite p ref t) w"
  by (auto simp: redeemClaim_def andThen_Inr compareAndSetPairingInvite_def claimed_invite_def
      split: if_splits option.splits)

lemma redeemClaim_Inl: "redeemClaim p ref t w = (Inl e, w1) \<Longrightarrow> w1 = w"
  by (auto simp: redeemClaim_def andThen_Inl compareAndSetPairingInvite_def split: if_splits option.splits)

definition upserted ::
  "pairing_config \<Rightarrow> redeem_input \<Rightarrow> string \<Rightarrow> string \<Rightarrow> hashed_secret \<Rightarrow> time \<Rightarrow> device_binding option \<Rightarrow> device_binding" where
  "upserted cfg i c ref h t existing =
     (case existing of None \<Rightarrow> new_binding cfg i c ref h t | Some b \<Rightarrow> rotated_binding i h t b)"

lemma upserted_case:
  "\<forall>b. existing = Some b \<longrightarrow> cb_caseId b = c \<Longrightarrow> cb_caseId (upserted cfg i c ref h t existing) = c"
  by (simp add: upserted_def new_binding_def rotated_binding_def split: option.splits)

lemma upsertWrite_out:
  "upsertWrite cfg i c ref h t existing w = (out, w1) \<Longrightarrow>
    w1 = w \<or> w1 = writeCaseDeviceBinding (upserted cfg i c ref h t existing) w"
  by (auto simp: upsertWrite_def upserted_def andThen_def createCaseDeviceBinding_def
      compareAndSetCaseDeviceBinding_def split: option.splits if_splits)

lemma markBindingRevoked_out:
  "markBindingRevoked b w = (out, w1) \<Longrightarrow>
    w1 = snd (now w) \<or> (\<exists>t. w1 = writeCaseDeviceBinding (revoked_binding t b) (snd (now w)))"
  by (auto simp: markBindingRevoked_def compareAndSetCaseDeviceBinding_def split_def Let_def
      split: option.splits if_splits)

lemma markBindingRevoked_wins:
  "readCaseDeviceBinding (cb_caseId b) (cb_deviceRef b) w = Some b \<Longrightarrow>
    \<exists>t. markBindingRevoked b w = (Inr True, writeCaseDeviceBinding (revoked_binding t b) (snd (now w)))"
  by (auto simp: markBindingRevoked_def compareAndSetCaseDeviceBinding_def split_def Let_def
      revoked_binding_def tab_simps)

text \<open>The case a request works on inside the queue.\<close>

fun segment_ok :: "string \<Rightarrow> segment \<Rightarrow> bool" where
  "segment_ok c (Checked p) = (pi_caseId p = c)"
| "segment_ok c (Authorized p ref t) = (pi_caseId p = c)"
| "segment_ok c (Claimed p ref t) = (pi_caseId p = c)"
| "segment_ok c (Issued p ref t cred h existing) = (pi_caseId p = c \<and> (\<forall>b. existing = Some b \<longrightarrow> cb_caseId b = c))"
| "segment_ok c (RevokingOne b) = (cb_caseId b = c)"
| "segment_ok c (Revoking bs n) = (bs \<noteq> [] \<and> (\<forall>b \<in> set bs. cb_caseId b = c))"

definition pc_ok :: "pairing_pc \<Rightarrow> bool" where
  "pc_ok pc = (case pc of Inside c seg \<Rightarrow> segment_ok c seg | _ \<Rightarrow> True)"

lemma pc_ok_simps [simp]:
  "pc_ok Called" "pc_ok (Waiting c)" "pc_ok (Returned x)" "pc_ok (Inside c seg) = segment_ok c seg"
  by (simp_all add: pc_ok_def)

text \<open>Invites change in one place only.\<close>

lemma step_effect:
  assumes "pairing_step cfg r pc w = (pc1, w1)" and "pc_ok pc" and wf: "wf_pairing w"
  shows "pc_ok pc1 \<and> wf_pairing w1 \<and> (\<forall>sid. readSession sid w1 = readSession sid w)
    \<and> (\<forall>c ref. holds pc \<noteq> Some c \<longrightarrow> readCaseDeviceBinding c ref w1 = readCaseDeviceBinding c ref w)
    \<and> ((\<forall>k. readPairingInvite k w1 = readPairingInvite k w)
        \<or> (\<exists>i c p ref t. r = Redeem i \<and> pc = Inside c (Authorized p ref t) \<and> pc1 = Inside c (Claimed p ref t)
             \<and> redeemClaim p ref t w = (Inr (), w1)))"
proof (cases pc)
  case Called
  with assms show ?thesis
    by (cases r) (auto simp: pairing_step_def goto_eq andThen_Inl andThen_Inr dest!: require_out)
next
  case (Returned x)
  with assms show ?thesis by (simp add: pairing_step_def)
next
  case (Waiting c)
  show ?thesis
  proof (cases r)
    case (Redeem i)
    with Waiting assms show ?thesis
      by (auto simp: pairing_step_def goto_eq ticks_reads dest: redeemCheck_out redeemCheck_Inr)
  next
    case (RevokeDevice c1 ref)
    with Waiting assms readBinding_key [OF wf] show ?thesis
      by (auto simp: pairing_step_def split: option.splits if_splits)
  next
    case (RevokeCase c1)
    with Waiting assms readBindings_iff [OF wf] show ?thesis
      by (auto simp: pairing_step_def Let_def split: if_splits)
  qed
next
  case (Inside c seg)
  show ?thesis
  proof (cases r)
    case (Redeem i)
    show ?thesis
    proof (cases seg)
      case (Checked p)
      with Inside Redeem assms show ?thesis
        by (auto simp: pairing_step_def goto_eq ticks_reads dest: redeemAuthorize_out)
    next
      case (Authorized p ref t)
      with Inside Redeem assms show ?thesis
        by (auto simp: pairing_step_def goto_eq tab_simps wf_pairing_writes dest: redeemClaim_Inl redeemClaim_Inr)
    next
      case (Claimed p ref t)
      with Inside Redeem assms show ?thesis
        by (auto simp: pairing_step_def split_def Let_def tab_simps wf_pairing_writes dest: readBinding_key)
    next
      case (Issued p ref t cred h existing)
      with Inside Redeem assms show ?thesis
        by (auto simp: pairing_step_def goto_eq tab_simps wf_pairing_writes binding_key_def upserted_case dest!: upsertWrite_out)
    qed (use Inside Redeem assms in \<open>simp_all add: pairing_step_def\<close>)
  next
    case (RevokeDevice c1 ref1)
    show ?thesis
      by (cases "(c, seg, w)" rule: continue_revoke.cases)
         (use Inside RevokeDevice assms in \<open>auto simp: pairing_step_def goto_eq Let_def tab_simps wf_pairing_writes
            binding_key_def revoked_binding_def split: if_splits dest!: markBindingRevoked_out\<close>)
  next
    case (RevokeCase c1)
    show ?thesis
      by (cases "(c, seg, w)" rule: continue_revoke.cases)
         (use Inside RevokeCase assms in \<open>auto simp: pairing_step_def goto_eq Let_def tab_simps wf_pairing_writes
            binding_key_def revoked_binding_def split: if_splits dest!: markBindingRevoked_out\<close>)
  qed
qed

subsection \<open>An invite is redeemed once\<close>

fun checked_invite :: "pairing_pc \<Rightarrow> pairing_invite option" where
  "checked_invite (Inside c (Checked p)) = Some p"
| "checked_invite (Inside c (Authorized p ref t)) = Some p"
| "checked_invite pc = None"

fun past_claim :: "pairing_pc \<Rightarrow> bool" where
  "past_claim (Inside c (Claimed p ref t)) = True"
| "past_claim (Inside c (Issued p ref t cred h existing)) = True"
| "past_claim (Returned (Inr (Redeemed x))) = True"
| "past_claim pc = False"

text \<open>The stored invite is \<open>p\<close>, or a later one.\<close>

definition invite_from :: "pairing_invite \<Rightarrow> world \<Rightarrow> bool" where
  "invite_from p w = (\<exists>q. readPairingInvite (pi_inviteId p) w = Some q \<and> pi_revision p \<le> pi_revision q
     \<and> (pi_revision q = pi_revision p \<longrightarrow> q = p))"

definition used_up :: "string \<Rightarrow> world \<Rightarrow> bool" where
  "used_up k w = (\<exists>q. readPairingInvite k w = Some q \<and> pi_status q \<noteq> InvPending)"

definition proc_claim_ok :: "world \<Rightarrow> pairing_request \<times> pairing_pc \<Rightarrow> bool" where
  "proc_claim_ok w rp =
     (pc_ok (snd rp)
      \<and> (\<forall>i p. fst rp = Redeem i \<and> checked_invite (snd rp) = Some p \<longrightarrow>
            pi_inviteId p = rx_inviteId i \<and> pi_status p = InvPending \<and> invite_from p w)
      \<and> (\<forall>i. fst rp = Redeem i \<and> past_claim (snd rp) \<longrightarrow> used_up (rx_inviteId i) w)
      \<and> (\<forall>i c p ref t cred h ex. fst rp = Redeem i
            \<and> (snd rp = Inside c (Claimed p ref t) \<or> snd rp = Inside c (Issued p ref t cred h ex)) \<longrightarrow>
            pi_inviteId p = rx_inviteId i))"

definition claims_distinct :: "pairing_procs \<Rightarrow> bool" where
  "claims_distinct ps = (\<forall>m n i j. m < length ps \<and> n < length ps \<and> m \<noteq> n
     \<and> fst (ps ! m) = Redeem i \<and> fst (ps ! n) = Redeem j \<and> past_claim (snd (ps ! m)) \<and> past_claim (snd (ps ! n))
     \<longrightarrow> rx_inviteId i \<noteq> rx_inviteId j)"

definition claim_inv :: "world \<times> pairing_procs \<Rightarrow> bool" where
  "claim_inv s = (wf_pairing (fst s) \<and> list_all (proc_claim_ok (fst s)) (snd s) \<and> claims_distinct (snd s))"

text \<open>What an invite goes through keeps these facts.\<close>

definition invites_advance :: "world \<Rightarrow> world \<Rightarrow> bool" where
  "invites_advance w w1 = (\<forall>k p. readPairingInvite k w = Some p \<longrightarrow>
     (\<exists>q. readPairingInvite k w1 = Some q \<and> (q = p \<or> pi_revision p < pi_revision q \<and> pi_status q \<noteq> InvPending)))"

lemma invites_advance_keeps:
  assumes "invites_advance w w1"
  shows "invite_from p w \<Longrightarrow> invite_from p w1" and "used_up k w \<Longrightarrow> used_up k w1"
  using assms unfolding invites_advance_def invite_from_def used_up_def by fastforce+

lemma proc_claim_ok_advance: "invites_advance w w1 \<Longrightarrow> proc_claim_ok w rp \<Longrightarrow> proc_claim_ok w1 rp"
  unfolding proc_claim_ok_def using invites_advance_keeps [of w w1] by blast

lemma claim_advances:
  assumes "wf_pairing w" and "redeemClaim p ref t w = (Inr (), w1)" and "invite_from p w" and "pi_status p = InvPending"
  shows "invites_advance w w1" and "\<not> used_up (pi_inviteId p) w" and "used_up (pi_inviteId p) w1"
proof -
  from redeemClaim_Inr [OF assms(2)] assms(3)
  have r: "readPairingInvite (pi_inviteId p) w = Some p" and w1: "w1 = writePairingInvite (claimed_invite p ref t) w"
    by (auto simp: invite_from_def)
  from r assms(4) show "\<not> used_up (pi_inviteId p) w" by (simp add: used_up_def)
  from w1 show "used_up (pi_inviteId p) w1" by (simp add: used_up_def tab_simps claimed_invite_def)
  from r w1 show "invites_advance w w1" by (auto simp: invites_advance_def tab_simps claimed_invite_def)
qed

lemma elsewhere_advances: "elsewhere w w1 \<Longrightarrow> invites_advance w w1"
  by (auto simp: elsewhere_def invites_advance_def)

lemma same_invites_advance: "\<forall>k. readPairingInvite k w1 = readPairingInvite k w \<Longrightarrow> invites_advance w w1"
  by (simp add: invites_advance_def)

text \<open>How a step gets to a checked invite or past the claim.\<close>

lemma pc_cases:
  obtains (Called) "pc = Called" | (Waiting) c where "pc = Waiting c" | (Returned) x where "pc = Returned x"
  | (Checked) c p where "pc = Inside c (Checked p)"
  | (Authorized) c p ref t where "pc = Inside c (Authorized p ref t)"
  | (Claimed) c p ref t where "pc = Inside c (Claimed p ref t)"
  | (Issued) c p ref t cred h ex where "pc = Inside c (Issued p ref t cred h ex)"
  | (RevokingOne) c b where "pc = Inside c (RevokingOne b)"
  | (RevokingNone) c n where "pc = Inside c (Revoking [] n)"
  | (Revoking) c b bs n where "pc = Inside c (Revoking (b # bs) n)"
  by (metis pairing_pc.exhaust segment.exhaust list.exhaust)

lemma redeem_steps:
  assumes "pairing_step cfg (Redeem i) pc w = (pc1, w1)"
  shows "checked_invite pc1 = Some p \<Longrightarrow> checked_invite pc = Some p
      \<or> readPairingInvite (rx_inviteId i) w = Some p \<and> pi_status p = InvPending"
    and "past_claim pc1 \<Longrightarrow> past_claim pc
      \<or> (\<exists>c p ref t. pc = Inside c (Authorized p ref t) \<and> redeemClaim p ref t w = (Inr (), w1))"
    and "pc1 = Inside c (Claimed p ref t) \<Longrightarrow>
      pc = Inside c (Claimed p ref t) \<or> checked_invite pc = Some p"
    and "pc1 = Inside c (Issued p ref t cred h ex) \<Longrightarrow>
      (\<exists>ref t. pc = Inside c (Claimed p ref t)) \<or> pc = Inside c (Issued p ref t cred h ex)"
  using assms
  by (cases pc rule: pc_cases; auto simp: pairing_step_def goto_eq Let_def split_def dest: redeemCheck_Inr)+

lemma run_claim_inv:
  assumes inv: "claim_inv (w, ps)" and n: "n < length ps" "ps ! n = (r, pc)"
    and step: "pairing_step cfg r pc w = (pc1, w1)"
  shows "claim_inv (w1, ps[n := (r, pc1)])"
proof -
  have wf: "wf_pairing w" and all: "\<And>x. x \<in> set ps \<Longrightarrow> proc_claim_ok w x" and dist: "claims_distinct ps"
    using inv by (simp_all add: claim_inv_def list_all_iff)
  have me: "proc_claim_ok w (r, pc)" using all n by (metis nth_mem)
  then have ok: "pc_ok pc" by (simp add: proc_claim_ok_def)
  note eff = step_effect [OF step ok wf]
  have claim: "invites_advance w w1 \<and> \<not> used_up (rx_inviteId i) w \<and> used_up (rx_inviteId i) w1"
    if "r = Redeem i" "pc = Inside c (Authorized p ref t)" "redeemClaim p ref t w = (Inr (), w1)" for i c p ref t
    using claim_advances [OF wf that(3)] me that(1,2) by (auto simp: proc_claim_ok_def)
  have adv: "invites_advance w w1" using eff claim by (auto intro: same_invites_advance)
  have fresh: "pi_inviteId p = rx_inviteId i \<and> invite_from p w" if "readPairingInvite (rx_inviteId i) w = Some p" for i p
    using that readInvite_key [OF wf that] by (auto simp: invite_from_def)
  have new: "proc_claim_ok w1 (r, pc1)"
    unfolding proc_claim_ok_def fst_conv snd_conv
  proof (intro conjI allI impI, goal_cases)
    case 1
    from eff show ?case by blast
  next
    case (2 i p)
    with redeem_steps(1) [of cfg i pc w pc1 w1 p] step have
      "checked_invite pc = Some p \<or> readPairingInvite (rx_inviteId i) w = Some p \<and> pi_status p = InvPending" by simp
    with me 2 have "pi_inviteId p = rx_inviteId i \<and> pi_status p = InvPending \<and> invite_from p w"
      using fresh by (auto simp: proc_claim_ok_def)
    with invites_advance_keeps(1) [OF adv] show ?case by blast
  next
    case (3 i p)
    with redeem_steps(1) [of cfg i pc w pc1 w1 p] step have
      "checked_invite pc = Some p \<or> readPairingInvite (rx_inviteId i) w = Some p \<and> pi_status p = InvPending" by simp
    with me 3 show ?case by (auto simp: proc_claim_ok_def)
  next
    case (4 i p)
    with redeem_steps(1) [of cfg i pc w pc1 w1 p] step have
      "checked_invite pc = Some p \<or> readPairingInvite (rx_inviteId i) w = Some p \<and> pi_status p = InvPending" by simp
    with me 4 have "invite_from p w"
      using fresh by (auto simp: proc_claim_ok_def)
    with invites_advance_keeps(1) [OF adv] show ?case by blast
  next
    case (5 i)
    with redeem_steps(2) [of cfg i pc w pc1 w1] step have
      "past_claim pc \<or> (\<exists>c p ref t. pc = Inside c (Authorized p ref t) \<and> redeemClaim p ref t w = (Inr (), w1))" by simp
    with me 5 claim invites_advance_keeps(2) [OF adv] show ?case by (auto simp: proc_claim_ok_def)
  next
    case (6 i c p ref t cred h ex)
    with redeem_steps(3) [of cfg i pc w pc1 w1 c p ref t] redeem_steps(4) [of cfg i pc w pc1 w1 c p ref t cred h ex] step me
    show ?case unfolding proc_claim_ok_def by (metis fst_conv snd_conv)
  qed
  have old: "proc_claim_ok w1 x" if "x \<in> set ps" for x
    by (rule proc_claim_ok_advance [OF adv all [OF that]])
  have one: "rx_inviteId i \<noteq> rx_inviteId j"
    if "m < length ps" "m \<noteq> n" "r = Redeem i" "fst (ps ! m) = Redeem j" "past_claim pc1" "past_claim (snd (ps ! m))"
    for m i j
  proof (cases "past_claim pc")
    case True
    with dist n that show ?thesis unfolding claims_distinct_def by (metis fst_conv snd_conv)
  next
    case False
    with redeem_steps(2) [of cfg i pc w pc1 w1] step that claim have "\<not> used_up (rx_inviteId i) w" by auto
    moreover have "used_up (rx_inviteId j) w"
      using all [OF nth_mem [OF that(1)]] that(4,6) by (auto simp: proc_claim_ok_def)
    ultimately show ?thesis by metis
  qed
  have "claims_distinct (ps[n := (r, pc1)])"
    using dist one n(1) unfolding claims_distinct_def
    by (simp add: nth_list_update) (metis fst_conv snd_conv)
  with eff new old n(1) show ?thesis
    by (auto simp: claim_inv_def list_all_iff dest!: set_update_subset_insert [THEN subsetD])
qed

lemma pairing_system_claim_inv: "pairing_system cfg s s1 \<Longrightarrow> claim_inv s \<Longrightarrow> claim_inv s1"
proof (induction rule: pairing_system.induct)
  case (request w ps r)
  then show ?case
    by (auto simp: claim_inv_def claims_distinct_def nth_append proc_claim_ok_def less_Suc_eq)
next
  case (run n ps r pc w pc1 w1)
  then show ?case by (blast intro: run_claim_inv)
next
  case (other w w1 ps)
  then have "wf_pairing w1" by (simp add: claim_inv_def wf_pairing_def elsewhere_def)
  with other proc_claim_ok_advance [OF elsewhere_advances [OF other(1)]] show ?case
    by (auto simp: claim_inv_def list_all_iff)
qed

lemma reachable_claim_inv:
  assumes "pairing_reachable cfg w0 s" and "wf_pairing w0" shows "claim_inv s"
  using assms(1) unfolding pairing_reachable_def
proof (induction rule: rtranclp_induct)
  case base
  from assms(2) show ?case by (simp add: claim_inv_def claims_distinct_def)
next
  case (step s s1)
  then show ?case by (blast intro: pairing_system_claim_inv)
qed

end
