(* ===== verification/PairingProps.thy ===== *)
theory PairingProps
  imports PairingSteps "HOL-Library.Multiset"
begin

text \<open>
  Properties of case pairing: an invite admits one device, a closed case keeps no active binding,
  a redeemed credential (and no other) resolves to Central's labels, the roster is the active bindings.
\<close>

subsection \<open>The queue of a case\<close>

definition exclusive :: "pairing_procs \<Rightarrow> bool" where
  "exclusive ps = (\<forall>m n c. m < length ps \<and> n < length ps \<and> holds (snd (ps ! m)) = Some c
     \<and> holds (snd (ps ! n)) = Some c \<longrightarrow> m = n)"

definition queue_inv :: "world \<times> pairing_procs \<Rightarrow> bool" where
  "queue_inv s = (wf_pairing (fst s) \<and> list_all (\<lambda>rp. pc_ok (snd rp)) (snd s) \<and> exclusive (snd s))"

lemma step_holds:
  assumes "pairing_step cfg r pc w = (pc1, w1)" and "holds pc1 = Some c"
  shows "pc = Waiting c \<or> holds pc = Some c"
  using assms
  by (cases pc rule: pc_cases; cases r)
     (auto simp: pairing_step_def goto_eq Let_def split_def split: option.splits if_splits)

lemma run_queue_inv:
  assumes inv: "queue_inv (w, ps)" and n: "n < length ps" "ps ! n = (r, pc)" and may: "may_run ps pc"
    and step: "pairing_step cfg r pc w = (pc1, w1)"
  shows "queue_inv (w1, ps[n := (r, pc1)])"
proof -
  have wf: "wf_pairing w" and all: "\<forall>x \<in> set ps. pc_ok (snd x)" and ex: "exclusive ps"
    using inv by (simp_all add: queue_inv_def list_all_iff)
  from all n have "pc_ok pc" by (metis nth_mem snd_conv)
  note eff = step_effect [OF step this wf]
  have free: False if "m < length ps" "m \<noteq> n" "holds pc1 = Some c" "holds (snd (ps ! m)) = Some c" for m c
  proof -
    from step_holds [OF step that(3)] show False
    proof
      assume "pc = Waiting c"
      with may nth_mem [OF that(1)] that(4) show False by (cases "ps ! m") (auto simp: may_run_def)
    next
      assume "holds pc = Some c"
      with ex that n show False unfolding exclusive_def by (metis snd_conv)
    qed
  qed
  have "exclusive (ps[n := (r, pc1)])"
    using ex free n(1) unfolding exclusive_def by (auto simp: nth_list_update)
  with eff all show ?thesis
    by (auto simp: queue_inv_def list_all_iff dest!: set_update_subset_insert [THEN subsetD])
qed

lemma pairing_system_queue_inv: "pairing_system cfg s s1 \<Longrightarrow> queue_inv s \<Longrightarrow> queue_inv s1"
proof (induction rule: pairing_system.induct)
  case (request w ps r)
  then show ?case by (auto simp: queue_inv_def exclusive_def nth_append less_Suc_eq split: if_splits)
next
  case (run n ps r pc w pc1 w1)
  then show ?case by (blast intro: run_queue_inv)
next
  case (other w w1 ps)
  then show ?case by (simp add: queue_inv_def wf_pairing_def elsewhere_def)
qed

subsection \<open>Revoking a closed case\<close>

definition closed_case :: "pairing_config \<Rightarrow> string \<Rightarrow> world \<Rightarrow> bool" where
  "closed_case cfg c w =
     (\<exists>s. readSession c w = Some s \<and> ses_tenantId s = pc_tenantId cfg \<and> terminal_case (ses_status s))"

definition no_active_binding :: "pairing_config \<Rightarrow> string \<Rightarrow> world \<Rightarrow> bool" where
  "no_active_binding cfg c w = list_all (\<lambda>b. \<not> owned_active cfg b) (readCaseDeviceBindings c w)"

text \<open>A redeem in the queue that has already been told that the case is open.\<close>

fun admitted :: "pairing_pc \<Rightarrow> bool" where
  "admitted (Inside c (Authorized p ref t)) = True"
| "admitted (Inside c (Claimed p ref t)) = True"
| "admitted (Inside c (Issued p ref t cred h ex)) = True"
| "admitted pc = False"

definition revoking_ok :: "pairing_config \<Rightarrow> string \<Rightarrow> world \<Rightarrow> device_binding list \<Rightarrow> bool" where
  "revoking_ok cfg c w bs =
     ((\<forall>b \<in> set bs. cb_caseId b = c \<and> readCaseDeviceBinding c (cb_deviceRef b) w = Some b)
      \<and> distinct (map cb_deviceRef bs)
      \<and> (\<forall>b \<in> set (readCaseDeviceBindings c w). owned_active cfg b \<longrightarrow> b \<in> set bs))"

definition settled_close :: "pairing_config \<Rightarrow> string \<Rightarrow> world \<times> pairing_procs \<Rightarrow> bool" where
  "settled_close cfg c s =
     (no_active_binding cfg c (fst s) \<and> (\<forall>x \<in> set (snd s). holds (snd x) = Some c \<longrightarrow> \<not> admitted (snd x)))"

fun close_stage :: "pairing_config \<Rightarrow> string \<Rightarrow> world \<times> pairing_procs \<Rightarrow> pairing_pc \<Rightarrow> bool" where
  "close_stage cfg c s Called = True"
| "close_stage cfg c s (Waiting c1) = (c1 = c)"
| "close_stage cfg c s (Inside c1 seg) = (c1 = c \<and> (\<exists>bs n. seg = Revoking bs n \<and> revoking_ok cfg c (fst s) bs))"
| "close_stage cfg c s (Returned (Inl e)) = True"
| "close_stage cfg c s (Returned (Inr x)) = settled_close cfg c s"

definition close_inv :: "pairing_config \<Rightarrow> string \<Rightarrow> nat \<Rightarrow> world \<times> pairing_procs \<Rightarrow> bool" where
  "close_inv cfg c k s =
     (queue_inv s \<and> closed_case cfg c (fst s) \<and> k < length (snd s) \<and> fst (snd s ! k) = RevokeCase c
      \<and> close_stage cfg c s (snd (snd s ! k)))"

lemma closed_not_authorized:
  "closed_case cfg (pi_caseId p) w \<Longrightarrow> redeemAuthorize cfg i p w \<noteq> (Inr (ref, t), w1)"
  using redeemAuthorize_Inr by (fastforce simp: closed_case_def)

lemma step_admitted:
  assumes "pairing_step cfg r pc w = (pc1, w1)" and "holds pc1 = Some c" and "admitted pc1" and "pc_ok pc"
    and "closed_case cfg c w"
  shows "holds pc = Some c \<and> admitted pc"
  using assms
  by (cases pc rule: pc_cases; cases r)
     (auto simp: pairing_step_def goto_eq Let_def split_def closed_not_authorized split: option.splits if_splits)

lemma distinct_refs:
  assumes "keyed binding_key t"
  shows "distinct (map cb_deviceRef (map snd (filter (\<lambda>(k, _). fst k = c) t)))"
proof -
  have "distinct (map fst t)" "\<forall>(k, b) \<in> set t. binding_key b = k" using assms by (auto simp: keyed_def)
  then show ?thesis
  proof (induction t)
    case (Cons x t)
    obtain k b where x: "x = (k, b)" by (cases x)
    show ?case
    proof (cases "fst k = c")
      case True
      have "cb_deviceRef b \<noteq> cb_deviceRef b1" if "(k1, b1) \<in> set t" "fst k1 = c" for k1 b1
      proof -
        from Cons.prems x that have "k1 = binding_key b1" "k = binding_key b" "k \<noteq> k1" by force+
        with True that(2) show ?thesis by (auto simp: binding_key_def)
      qed
      then have "cb_deviceRef b \<notin> cb_deviceRef ` set (map snd (filter (\<lambda>(k, _). fst k = c) t))" by force
      with Cons x True show ?thesis by (simp add: image_image)
    next
      case False
      with Cons x show ?thesis by simp
    qed
  qed simp
qed

lemma revoking_starts:
  assumes "wf_pairing w" shows "revoking_ok cfg c w (filter (owned_active cfg) (readCaseDeviceBindings c w))"
proof -
  have "distinct (map cb_deviceRef (readCaseDeviceBindings c w))"
    using assms distinct_refs by (simp add: wf_pairing_def readCaseDeviceBindings_def)
  then show ?thesis
    by (simp add: revoking_ok_def readBindings_iff [OF assms] distinct_map_filter)
qed

lemma revoking_advances:
  assumes "revoking_ok cfg c w (b # bs)" and wf: "wf_pairing w"
    and w1: "w1 = writeCaseDeviceBinding (revoked_binding t b) (snd (now w))"
  shows "revoking_ok cfg c w1 bs"
proof -
  have wf1: "wf_pairing w1" using wf by (simp add: w1 wf_pairing_writes)
  have b: "cb_caseId b = c" "cb_deviceRef b \<notin> cb_deviceRef ` set bs"
    using assms(1) by (auto simp: revoking_ok_def)
  have r: "readCaseDeviceBinding c ref w1 = (if ref = cb_deviceRef b then Some (revoked_binding t b)
      else readCaseDeviceBinding c ref w)" for ref
    by (auto simp: w1 tab_simps binding_key_def revoked_binding_def b(1))
  have inact: "\<not> owned_active cfg (revoked_binding t b)" by (simp add: owned_active_def revoked_binding_def)
  show ?thesis
    unfolding revoking_ok_def
  proof (intro conjI ballI impI)
    show "distinct (map cb_deviceRef bs)" using assms(1) by (simp add: revoking_ok_def)
    fix x assume "x \<in> set bs"
    with assms(1) have x: "cb_caseId x = c" "readCaseDeviceBinding c (cb_deviceRef x) w = Some x"
      by (simp_all add: revoking_ok_def)
    from x show "cb_caseId x = c" by simp
    from b(2) \<open>x \<in> set bs\<close> have "cb_deviceRef x \<noteq> cb_deviceRef b" by (metis imageI)
    with x(2) show "readCaseDeviceBinding c (cb_deviceRef x) w1 = Some x" by (simp add: r)
  next
    fix x assume "x \<in> set (readCaseDeviceBindings c w1)" and a: "owned_active cfg x"
    then have "cb_caseId x = c" "readCaseDeviceBinding c (cb_deviceRef x) w1 = Some x"
      by (simp_all add: readBindings_iff [OF wf1])
    with inact a have x: "cb_caseId x = c" "readCaseDeviceBinding c (cb_deviceRef x) w = Some x" "cb_deviceRef x \<noteq> cb_deviceRef b"
      by (auto simp: r split: if_splits)
    then have "x \<in> set (readCaseDeviceBindings c w)" by (simp add: readBindings_iff [OF wf])
    with assms(1) a x(3) show "x \<in> set bs" by (auto simp: revoking_ok_def)
  qed
qed

lemma revoking_done: "revoking_ok cfg c w [] \<Longrightarrow> no_active_binding cfg c w"
  by (auto simp: revoking_ok_def no_active_binding_def list_all_iff)

lemma revoking_no_new_active:
  assumes "markBindingRevoked b1 w = (out, w1)" and "readCaseDeviceBinding c ref w1 = Some b" and "owned_active cfg b"
  shows "readCaseDeviceBinding c ref w = Some b"
  using markBindingRevoked_out [OF assms(1)] assms(2,3)
  by (auto simp: tab_simps owned_active_def revoked_binding_def split: if_splits)

lemma step_no_new_active:
  assumes "pairing_step cfg r pc w = (pc1, w1)" and "pc_ok pc" and "wf_pairing w" and "\<not> admitted pc"
    and "readCaseDeviceBinding c ref w1 = Some b" and "owned_active cfg b"
  shows "readCaseDeviceBinding c ref w = Some b"
proof (cases "holds pc")
  case None
  with step_effect [OF assms(1-3)] assms(5) show ?thesis by simp
next
  case (Some c1)
  note out = assms(1) [unfolded pairing_step_def]
  show ?thesis
  proof (cases pc rule: pc_cases)
    case (Checked c1 p)
    with out assms(5) show ?thesis by (cases r) (auto simp: goto_eq ticks_reads dest!: redeemAuthorize_out)
  next
    case (RevokingOne c1 b1)
    with out assms(5,6) show ?thesis by (cases r) (auto simp: goto_eq dest: revoking_no_new_active)
  next
    case (Revoking c1 b1 bs n)
    with out assms(5,6) show ?thesis by (cases r) (auto simp: goto_eq dest: revoking_no_new_active)
  next
    case (RevokingNone c1 n)
    with out assms(5) show ?thesis by (cases r) auto
  qed (use Some assms(4) in simp_all)
qed

lemma holds_only:
  assumes "exclusive ps" and "k < length ps" and "holds (snd (ps ! k)) = Some c" and "x \<in> set (ps[k := y])"
    and "holds (snd x) = Some c"
  shows "x = y"
  using assms unfolding exclusive_def by (metis in_set_conv_nth length_list_update nth_list_update)

lemma same_case_bindings:
  assumes "wf_pairing w" and "wf_pairing w1"
    and "\<forall>ref. readCaseDeviceBinding c ref w1 = readCaseDeviceBinding c ref w"
  shows "set (readCaseDeviceBindings c w1) = set (readCaseDeviceBindings c w)"
  using assms by (auto simp: readBindings_iff)

text \<open>The revoking request itself makes a step.\<close>

lemma run_close_self:
  assumes inv: "close_inv cfg c k (w, ps)" and k: "ps ! k = (r, pc)" and may: "may_run ps pc"
    and step: "pairing_step cfg r pc w = (pc1, w1)" and q: "queue_inv (w1, ps[k := (r, pc1)])"
    and closed: "closed_case cfg c w1"
  shows "close_inv cfg c k (w1, ps[k := (r, pc1)])"
proof -
  have kl: "k < length ps" and r: "r = RevokeCase c" and wf: "wf_pairing w" and ex: "exclusive ps"
    using inv k by (simp_all add: close_inv_def queue_inv_def)
  have stage: "close_stage cfg c (w, ps) pc" using inv k by (simp add: close_inv_def)
  have base: "close_inv cfg c k (w1, ps[k := (r, pc1)]) \<longleftrightarrow> close_stage cfg c (w1, ps[k := (r, pc1)]) pc1"
    using q closed kl r by (simp add: close_inv_def)
  show ?thesis
  proof (cases pc)
    case Called
    with step r show ?thesis unfolding base by (auto simp: pairing_step_def goto_eq)
  next
    case (Waiting c1)
    with stage have c1: "c1 = c" by simp
    have free: "holds (snd y) \<noteq> Some c" if "y \<in> set (ps[k := (r, Returned x)])" for y x
      using that may Waiting c1 by (auto simp: may_run_def dest!: set_update_subset_insert [THEN subsetD])
    then have "settled_close cfg c (w, ps[k := (r, Returned x)]) = no_active_binding cfg c w" for x
      by (auto simp: settled_close_def)
    with step r Waiting c1 revoking_starts [OF wf, of cfg c] show ?thesis
      unfolding base by (auto simp: pairing_step_def Let_def revoking_done split: if_splits)
  next
    case (Returned x)
    with step inv k list_update_id [of ps k] show ?thesis by (simp add: pairing_step_def)
  next
    case (Inside c1 seg)
    with stage obtain bs n where c1: "c1 = c" and seg: "seg = Revoking bs n" and rev: "revoking_ok cfg c w bs"
      by auto
    have "pc_ok pc" using inv k kl by (auto simp: close_inv_def queue_inv_def list_all_length)
    then have "segment_ok c seg" using Inside c1 by simp
    with seg obtain b bs1 where bs: "bs = b # bs1" by (cases bs) auto
    have "readCaseDeviceBinding (cb_caseId b) (cb_deviceRef b) w = Some b" using rev bs by (auto simp: revoking_ok_def)
    from markBindingRevoked_wins [OF this] obtain t where
      mark: "markBindingRevoked b w = (Inr True, writeCaseDeviceBinding (revoked_binding t b) (snd (now w)))" by blast
    with step r Inside seg bs c1 have w1: "w1 = writeCaseDeviceBinding (revoked_binding t b) (snd (now w))"
      and pc1: "pc1 = (if bs1 = [] then Returned (Inr (CaseRevoked (n + 1))) else Inside c (Revoking bs1 (n + 1)))"
      by (simp_all add: pairing_step_def goto_def Let_def split: if_splits)
    from revoking_advances [OF _ wf w1] rev bs have rev1: "revoking_ok cfg c w1 bs1" by blast
    have "holds (snd (ps ! k)) = Some c" using k Inside c1 by simp
    note only = holds_only [OF ex kl this]
    show ?thesis
    proof (cases "bs1 = []")
      case True
      with pc1 only [of _ "(r, pc1)"] have "\<not> admitted (snd x)" if "x \<in> set (ps[k := (r, pc1)])" "holds (snd x) = Some c" for x
        using that by fastforce
      with True pc1 rev1 show ?thesis unfolding base by (simp add: settled_close_def revoking_done)
    next
      case False
      with pc1 rev1 show ?thesis unfolding base by simp
    qed
  qed
qed

text \<open>Another request makes a step.\<close>

lemma run_close_other:
  assumes inv: "close_inv cfg c k (w, ps)" and n: "n < length ps" "ps ! n = (r, pc)" "n \<noteq> k"
    and step: "pairing_step cfg r pc w = (pc1, w1)" and q: "queue_inv (w1, ps[n := (r, pc1)])"
    and closed: "closed_case cfg c w1"
  shows "close_inv cfg c k (w1, ps[n := (r, pc1)])"
proof -
  have wf: "wf_pairing w" and ex: "exclusive ps" and kl: "k < length ps" and cl: "closed_case cfg c w" and wf1: "wf_pairing w1"
    using inv q by (simp_all add: close_inv_def queue_inv_def)
  have ok: "pc_ok pc" using inv n by (auto simp: close_inv_def queue_inv_def list_all_length)
  note eff = step_effect [OF step ok wf]
  have "revoking_ok cfg c w1 bs" if "revoking_ok cfg c w bs" "holds (snd (ps ! k)) = Some c" for bs
  proof -
    from that(2) ex n kl have "holds pc \<noteq> Some c" unfolding exclusive_def by (metis snd_conv)
    with eff have same: "\<forall>ref. readCaseDeviceBinding c ref w1 = readCaseDeviceBinding c ref w" by blast
    from same_case_bindings [OF wf wf1 this] that(1) same show ?thesis by (simp add: revoking_ok_def)
  qed
  moreover have "settled_close cfg c (w1, ps[n := (r, pc1)])" if s: "settled_close cfg c (w, ps)"
  proof -
    have a: "no_active_binding cfg c w" "\<forall>x \<in> set ps. holds (snd x) = Some c \<longrightarrow> \<not> admitted (snd x)"
      using s by (simp_all add: settled_close_def)
    have pcn: "holds pc = Some c \<Longrightarrow> \<not> admitted pc" using a(2) n by (metis nth_mem snd_conv)
    with step_admitted [OF step _ _ ok cl] have pc1: "holds pc1 = Some c \<Longrightarrow> \<not> admitted pc1" by blast
    have "\<not> owned_active cfg b" if "b \<in> set (readCaseDeviceBindings c w1)" for b
    proof
      assume act: "owned_active cfg b"
      from that readBindings_iff [OF wf1] have b: "cb_caseId b = c" "readCaseDeviceBinding c (cb_deviceRef b) w1 = Some b" by auto
      have "readCaseDeviceBinding c (cb_deviceRef b) w = Some b"
      proof (cases "holds pc = Some c")
        case True
        with step_no_new_active [OF step ok wf _ b(2) act] pcn show ?thesis by blast
      next
        case False
        with eff b(2) show ?thesis by simp
      qed
      with a(1) act b(1) readBindings_iff [OF wf] show False by (auto simp: no_active_binding_def list_all_iff)
    qed
    with a(2) pc1 show ?thesis
      by (auto simp: settled_close_def no_active_binding_def list_all_iff dest!: set_update_subset_insert [THEN subsetD])
  qed
  ultimately have "close_stage cfg c (w1, ps[n := (r, pc1)]) (snd (ps ! k))"
    using inv by (cases "(cfg, c, (w, ps), snd (ps ! k))" rule: close_stage.cases) (auto simp: close_inv_def)
  with inv n q closed show ?thesis by (simp add: close_inv_def)
qed

lemma pairing_system_close_inv: "pairing_system cfg s s1 \<Longrightarrow> close_inv cfg c k s \<Longrightarrow> close_inv cfg c k s1"
proof (induction rule: pairing_system.induct)
  case (request w ps r)
  have q: "queue_inv (w, ps @ [(r, Called)])"
    using request pairing_system_queue_inv [OF pairing_system.request] by (simp add: close_inv_def)
  have "close_stage cfg c (w, ps @ [(r, Called)]) (snd (ps ! k))"
    using request by (cases "(cfg, c, (w, ps), snd (ps ! k))" rule: close_stage.cases)
      (auto simp: close_inv_def settled_close_def)
  with q request show ?case by (simp add: close_inv_def nth_append)
next
  case (run n ps r pc w pc1 w1)
  have q0: "queue_inv (w, ps)" and ok: "pc_ok pc" and cl: "closed_case cfg c w"
    using run by (auto simp: close_inv_def queue_inv_def list_all_length)
  then have wf: "wf_pairing w" by (simp add: queue_inv_def)
  from step_effect [OF run(4) ok wf] cl have cl1: "closed_case cfg c w1" by (simp add: closed_case_def)
  note q = run_queue_inv [OF q0 run(1-4)]
  show ?case
  proof (cases "n = k")
    case True
    with run_close_self [OF run(5) _ run(3,4), of] run(2) q cl1 show ?thesis by blast
  next
    case False
    with run_close_other [OF run(5,1,2) _ run(4) q cl1] show ?thesis by blast
  qed
next
  case (other w w1 ps)
  have q: "queue_inv (w1, ps)"
    using other pairing_system_queue_inv [OF pairing_system.other] by (simp add: close_inv_def)
  have cl: "closed_case cfg c w1" using other by (fastforce simp: close_inv_def closed_case_def elsewhere_def)
  have "readCaseDeviceBinding d ref w1 = readCaseDeviceBinding d ref w" "readCaseDeviceBindings d w1 = readCaseDeviceBindings d w"
    for d ref using other(1) by (simp_all add: elsewhere_def readCaseDeviceBinding_def readCaseDeviceBindings_def)
  then have "close_stage cfg c (w1, ps) (snd (ps ! k))"
    using other(2) by (cases "(cfg, c, (w, ps), snd (ps ! k))" rule: close_stage.cases)
      (auto simp: close_inv_def settled_close_def revoking_ok_def no_active_binding_def)
  with q cl other(2) show ?case by (simp add: close_inv_def)
qed

lemma reachable_queue_inv:
  assumes "pairing_reachable cfg w0 s" and "wf_pairing w0" shows "queue_inv s"
  using assms(1) unfolding pairing_reachable_def
proof (induction rule: rtranclp_induct)
  case base
  from assms(2) show ?case by (simp add: queue_inv_def exclusive_def)
next
  case (step s s1)
  then show ?case by (blast intro: pairing_system_queue_inv)
qed

subsection \<open>Running a schedule\<close>

text \<open>The requests named in the list make a step each, in this order.\<close>

fun schedule :: "pairing_config \<Rightarrow> nat list \<Rightarrow> world \<times> pairing_procs \<Rightarrow> (world \<times> pairing_procs) option" where
  "schedule cfg [] s = Some s"
| "schedule cfg (n # ns) (w, ps) =
     (if n < length ps \<and> may_run ps (snd (ps ! n))
      then (let (r, pc) = ps ! n; (pc1, w1) = pairing_step cfg r pc w in schedule cfg ns (w1, ps[n := (r, pc1)]))
      else None)"

lemma schedule_reaches: "schedule cfg ns s = Some s1 \<Longrightarrow> (pairing_system cfg)\<^sup>*\<^sup>* s s1"
proof (induction cfg ns s rule: schedule.induct)
  case (1 cfg s)
  then show ?case by simp
next
  case (2 cfg n ns w ps)
  obtain r pc where rp: "ps ! n = (r, pc)" by (cases "ps ! n")
  obtain pc1 w2 where st: "pairing_step cfg r pc w = (pc1, w2)" by (cases "pairing_step cfg r pc w")
  from 2 rp st have n: "n < length ps" "may_run ps pc" and rest: "schedule cfg ns (w2, ps[n := (r, pc1)]) = Some s1"
    by (auto split: if_splits)
  have "(pairing_system cfg)\<^sup>*\<^sup>* (w2, ps[n := (r, pc1)]) s1"
    using "2.IH" n rest rp st by simp
  with pairing_system.run [OF n(1) rp n(2) st] show ?case by (rule converse_rtranclp_into_rtranclp)
qed

lemma requests_reach:
  "(pairing_system cfg)\<^sup>*\<^sup>* (w, ps) (w, ps @ map (\<lambda>r. (r, Called)) rs)"
proof (induction rs arbitrary: ps)
  case (Cons r rs)
  from Cons [of "ps @ [(r, Called)]"] have "(pairing_system cfg)\<^sup>*\<^sup>* (w, ps @ [(r, Called)]) (w, ps @ map (\<lambda>r. (r, Called)) (r # rs))"
    by simp
  with pairing_system.request show ?case by (rule converse_rtranclp_into_rtranclp)
qed simp

lemma schedule_reachable:
  "schedule cfg ns (w, map (\<lambda>r. (r, Called)) rs) = Some s \<Longrightarrow> pairing_reachable cfg w s"
  unfolding pairing_reachable_def
  using requests_reach [of cfg w "[]" rs] schedule_reaches by (metis append_Nil rtranclp_trans)

subsection \<open>Example\<close>

definition ex_hmac :: "string \<Rightarrow> string \<Rightarrow> string" where
  "ex_hmac k m = ''00'' @ concat (map (\<lambda>c. if c = CHR ''u'' then ''75'' else ''00'') m)"

definition ex_pairing :: pairing_config where
  "ex_pairing = \<lparr>pc_tenantId = ''t1'', pc_inviteTtlMs = 600000, pc_credentials = bearerProvider ex_hmac [], pc_sha = (\<lambda>s. s)\<rparr>"

definition ex_invite :: "string \<Rightarrow> pairing_invite" where
  "ex_invite k = \<lparr>pi_inviteId = k, pi_tenantId = ''t1'', pi_caseId = ''s1'', pi_inviteSecretHash = ex_hmac [] ''u'',
     pi_inviteSecretSalt = ''s'', pi_status = InvPending, pi_expiresAt = 9000, pi_createdAt = 0, pi_updatedAt = 0,
     pi_redeemedAt = None, pi_redeemedDeviceRef = None, pi_revision = 1\<rparr>"

definition ex_redeem :: "string \<Rightarrow> string \<Rightarrow> redeem_input" where
  "ex_redeem k dev = \<lparr>rx_inviteId = k, rx_inviteSecret = ''u'', rx_deviceId = dev, rx_deviceLabel = ''laptop''\<rparr>"

definition invited_world :: world where
  "invited_world = writePairingInvite (ex_invite ''i1'') (writePairingInvite (ex_invite ''i2'') (writeSession ex_session empty_world))"

definition closing_world :: world where
  "closing_world = writeSession (ex_session\<lparr>ses_status := Completed\<rparr>)
     (snd (redeemPairingInvite ex_pairing (ex_redeem ''i1'' ''dev'') invited_world))"

lemma wf_invited: "wf_pairing invited_world"
  unfolding invited_world_def
  by (intro wf_pairing_writes) (simp add: wf_pairing_def writeSession_def empty_world_def)

fun is_redeemed :: "pairing_pc \<Rightarrow> bool" where
  "is_redeemed (Returned (Inr (Redeemed x))) = True"
| "is_redeemed pc = False"

lemma is_redeemedE: "is_redeemed pc \<Longrightarrow> \<exists>x. pc = Returned (Inr (Redeemed x))"
  by (cases pc rule: is_redeemed.cases) simp_all

subsection \<open>Properties\<close>

text \<open>
  C1: an invite admits at most one device. However the storage calls of any number of redeem and
  revoke requests interleave with each other and with the rest of central, two different requests that
  have returned a binding were given two different invites.
\<close>

lemma invite_redeemed_once:
  assumes "pairing_reachable cfg w0 (w, ps)" and "wf_pairing w0"
    and "m < length ps" and "n < length ps" and "m \<noteq> n"
    and "ps ! m = (Redeem i, Returned (Inr (Redeemed x)))" and "ps ! n = (Redeem j, Returned (Inr (Redeemed y)))"
  shows "rx_inviteId i \<noteq> rx_inviteId j"
  using reachable_claim_inv [OF assms(1,2)] assms(3-7) unfolding claim_inv_def claims_distinct_def
  by (metis fst_conv past_claim.simps(3) snd_conv)

lemma invite_redeemed_once_witness:
  "\<exists>w ps. schedule ex_pairing [0, 1, 0, 0, 0, 0, 0, 1, 1, 1, 1, 1]
       (invited_world, [(Redeem (ex_redeem ''i1'' ''dev''), Called), (Redeem (ex_redeem ''i2'' ''dev''), Called)]) = Some (w, ps)
     \<and> is_redeemed (snd (ps ! 0)) \<and> is_redeemed (snd (ps ! 1)) \<and> rx_inviteId (ex_redeem ''i1'' ''dev'') \<noteq> rx_inviteId (ex_redeem ''i2'' ''dev'')"
proof -
  let ?i = "ex_redeem ''i1'' ''dev''" and ?j = "ex_redeem ''i2'' ''dev''"
  let ?run = "schedule ex_pairing [0, 1, 0, 0, 0, 0, 0, 1, 1, 1, 1, 1] (invited_world, [(Redeem ?i, Called), (Redeem ?j, Called)])"
  have "case ?run of None \<Rightarrow> False | Some (w, ps) \<Rightarrow> length ps = 2 \<and> fst (ps ! 0) = Redeem ?i \<and> fst (ps ! 1) = Redeem ?j
      \<and> is_redeemed (snd (ps ! 0)) \<and> is_redeemed (snd (ps ! 1))" by code_simp
  then obtain w ps where run: "?run = Some (w, ps)" "length ps = 2" "fst (ps ! 0) = Redeem ?i" "fst (ps ! 1) = Redeem ?j"
    "is_redeemed (snd (ps ! 0))" "is_redeemed (snd (ps ! 1))" by (auto split: option.splits)
  then obtain x y where "ps ! 0 = (Redeem ?i, Returned (Inr (Redeemed x)))" "ps ! 1 = (Redeem ?j, Returned (Inr (Redeemed y)))"
    by (metis is_redeemedE prod.collapse)
  moreover have "pairing_reachable ex_pairing invited_world (w, ps)"
    by (rule schedule_reachable [where rs = "[Redeem ?i, Redeem ?j]"]) (simp only: list.map, rule run(1))
  ultimately show ?thesis using invite_redeemed_once [OF _ wf_invited, of _ _ ps 0 1] run by fastforce
qed



subsection \<open>Credentials\<close>

definition lower_hex :: "char \<Rightarrow> bool" where
  "lower_hex c = (let n = of_char c :: nat in 48 \<le> n \<and> n \<le> 57 \<or> 97 \<le> n \<and> n \<le> 102)"

definition hex_digest :: "string \<Rightarrow> bool" where
  "hex_digest s = (s \<noteq> [] \<and> even (length s) \<and> list_all lower_hex s)"

lemma hexDigit_lower: "lower_hex c \<Longrightarrow> \<exists>x < 16. hexDigit c = Some x"
  by (auto simp: lower_hex_def hexDigit_def Let_def)

lemma hexDigit_inj:
  assumes "lower_hex c" and "lower_hex d" and "hexDigit c = hexDigit d" shows "c = d"
proof -
  have "n = m" if "48 \<le> n \<and> n \<le> 57 \<or> 97 \<le> n \<and> n \<le> 102" "48 \<le> m \<and> m \<le> 57 \<or> 97 \<le> m \<and> m \<le> 102"
    "(if n \<le> 57 then n - 48 else n - 87) = (if m \<le> 57 then m - 48 else m - 87)" for n m :: nat
    using that by (auto split: if_splits)
  from this [of "of_char c" "of_char d"] assms show ?thesis
    by (auto simp: lower_hex_def hexDigit_def Let_def split: if_splits)
qed

lemma hexBytes_inj:
  "even (length l) \<Longrightarrow> list_all lower_hex l \<Longrightarrow> list_all lower_hex r \<Longrightarrow> length r = length l \<Longrightarrow>
    hexBytes l = hexBytes r \<Longrightarrow> l = r"
proof (induction l arbitrary: r rule: hexBytes.induct)
  case (1 a b rest)
  then obtain c d rest2 where r: "r = c # d # rest2" by (metis Suc_length_conv)
  have low: "lower_hex a" "lower_hex b" "lower_hex c" "lower_hex d" using 1(3,4) r by simp_all
  from low [THEN hexDigit_lower] obtain x y u v where d: "x < 16" "y < 16" "u < 16" "v < 16"
    "hexDigit a = Some x" "hexDigit b = Some y" "hexDigit c = Some u" "hexDigit d = Some v" by blast
  with 1(6) r have e: "16 * x + y = 16 * u + v" "hexBytes rest = hexBytes rest2" by simp_all
  have "x = (16 * x + y) div 16" "u = (16 * u + v) div 16" "y = (16 * x + y) mod 16" "v = (16 * u + v) mod 16"
    using d(1-4) by simp_all
  with e(1) have "x = u" "y = v" by metis+
  with d low hexDigit_inj [of a c] hexDigit_inj [of b d] have "a = c" "b = d" by simp_all
  moreover have "rest = rest2"
    by (rule 1(1) [OF refl d(5,6)]) (use d e 1(2-5) r in simp_all)
  ultimately show ?case using r by simp
qed auto

lemma hexBytes_nonempty: "hex_digest s \<Longrightarrow> hexBytes s \<noteq> []"
  by (cases s rule: hexBytes.cases) (auto simp: hex_digest_def dest!: hexDigit_lower)

lemma hashesMatch_digests:
  assumes "hex_digest l" and "hex_digest r" shows "hashesMatch l r \<longleftrightarrow> l = r"
proof -
  have "hexBytes l \<noteq> []" "l \<noteq> []" using assms hexBytes_nonempty by (auto simp: hex_digest_def)
  with assms hexBytes_inj [of l r] show ?thesis
    by (auto simp: hashesMatch_def Let_def hex_digest_def)
qed

lemma bearer_verify_issued:
  assumes "bearerIssue hmac pepper rnd n = ((secret, h), m)" and "\<forall>k x. hex_digest (hmac k x)"
    and "\<forall>k. hmac k s = hmac k secret \<longrightarrow> s = secret"
  shows "bearerVerify hmac pepper s h \<longleftrightarrow> s \<noteq> [] \<and> s = secret"
  using assms
  by (auto simp: bearerIssue_def bearerVerify_def Let_def computeHash_def hashesMatch_digests)

lemma andThen_InrE:
  assumes "andThen m f w = (Inr y, w2)"
  obtains x w1 where "m w = (Inr x, w1)" and "f x w1 = (Inr y, w2)"
  using assms by (auto simp: andThen_Inr)

text \<open>What a redeem leaves behind.\<close>

lemma redeem_leaves_binding:
  assumes "redeemPairingInvite cfg i w = (Inr x, w1)" and wf: "wf_pairing w"
  shows "\<exists>n m h t.
    cr_issue (pc_credentials cfg) (w_uuid w) n = ((rr_bindingCredential x, h), m)
    \<and> rr_deviceRef x = deriveDeviceRef (pc_sha cfg) (pc_tenantId cfg) (rr_caseId x) (rx_deviceId i)
    \<and> rx_deviceId i \<noteq> [] \<and> length (rx_deviceId i) \<le> max_device_id_length
    \<and> readCaseDeviceBinding (rr_caseId x) (rr_deviceRef x) w1 =
        Some (upserted cfg i (rr_caseId x) (rr_deviceRef x) h t (readCaseDeviceBinding (rr_caseId x) (rr_deviceRef x) w))"
proof -
  from assms(1) obtain c w2 p w3 ref t w4 w5 where steps:
    "redeemLookup cfg i w = (Inr c, w2)" "redeemCheck cfg i c w2 = (Inr p, w3)"
    "redeemAuthorize cfg i p w3 = (Inr (ref, t), w4)" "redeemClaim p ref t w4 = (Inr (), w5)"
    and rest: "(let ((credential, h), w1) = issueSecret (pc_credentials cfg) w5
        in andThen (upsertWrite cfg i (pi_caseId p) ref h t (readCaseDeviceBinding (pi_caseId p) ref w1)) (\<lambda>_.
             ok \<lparr>rr_caseId = pi_caseId p, rr_deviceRef = ref, rr_bindingCredential = credential\<rparr>) w1) = (Inr x, w1)"
    unfolding redeemPairingInvite_def by (auto simp: andThen_Inr)
  have uuid: "w_uuid w5 = w_uuid w"
    and same: "readCaseDeviceBinding d r w5 = readCaseDeviceBinding d r w" for d r
  proof -
    have "w_uuid v1 = w_uuid v" if "ticks v v1" for v v1
      using that by (auto simp: ticks_def now_def issueSecret_def Let_def split_def)
    note t = redeemCheck_out [OF steps(2)] redeemAuthorize_out [OF steps(3)]
    from redeemLookup_Inr [OF steps(1)] have w2: "w2 = w" by simp
    from redeemClaim_Inr [OF steps(4)] have w5: "w5 = writePairingInvite (claimed_invite p ref t) w4" by simp
    from t [THEN \<open>\<And>v1 v. ticks v v1 \<Longrightarrow> w_uuid v1 = w_uuid v\<close>] w2 w5 show "w_uuid w5 = w_uuid w"
      by (simp add: writePairingInvite_def)
    from t [THEN ticks_reads(3)] w2 w5 show "readCaseDeviceBinding d r w5 = readCaseDeviceBinding d r w"
      by (simp add: tab_simps)
  qed
  obtain cred h m where iss: "cr_issue (pc_credentials cfg) (w_uuid w5) (w_uuidIx w5) = ((cred, h), m)"
    by (metis prod.exhaust)
  define w6 where "w6 = w5\<lparr>w_uuidIx := m\<rparr>"
  have b6: "readCaseDeviceBinding d r w6 = readCaseDeviceBinding d r w" for d r
    using same by (simp add: w6_def readCaseDeviceBinding_def)
  from rest iss have x: "x = \<lparr>rr_caseId = pi_caseId p, rr_deviceRef = ref, rr_bindingCredential = cred\<rparr>"
    and up: "upsertWrite cfg i (pi_caseId p) ref h t (readCaseDeviceBinding (pi_caseId p) ref w) w6 = (Inr (), w1)"
    by (auto simp: issueSecret_def andThen_Inr b6 simp flip: w6_def)
  have "w1 = writeCaseDeviceBinding (upserted cfg i (pi_caseId p) ref h t (readCaseDeviceBinding (pi_caseId p) ref w)) w6"
    using up by (auto simp: upsertWrite_def upserted_def andThen_Inr createCaseDeviceBinding_def
        compareAndSetCaseDeviceBinding_def split: option.splits if_splits)
  moreover have "binding_key (upserted cfg i (pi_caseId p) ref h t (readCaseDeviceBinding (pi_caseId p) ref w)) = (pi_caseId p, ref)"
    using readBinding_key [OF wf] by (auto simp: upserted_def binding_key_def new_binding_def rotated_binding_def split: option.splits)
  moreover have "ref = deriveDeviceRef (pc_sha cfg) (pc_tenantId cfg) (pi_caseId p) (rx_deviceId i)"
    using steps(3) by (auto simp: redeemAuthorize_def andThen_Inr Let_def split_def)
  moreover have "rx_deviceId i \<noteq> []" "length (rx_deviceId i) \<le> max_device_id_length"
    using steps(1) by (auto simp: redeemLookup_def andThen_Inr requireBounded_def split: if_splits)
  ultimately show ?thesis using iss uuid x by (auto simp: tab_simps)
qed

text \<open>
  C29: a redeemed credential, and no other secret, registers the device. After a redeem has returned
  a credential, \<^verbatim>\<open>resolveEdgeBinding\<close> for that case and device accepts a presented secret
  exactly when it is the returned credential, and then hands out Central's labels for the case and the
  device reference; every older credential of the device is refused. Assumed: HMAC gives hexadecimal
  digests and does not collide on the presented secret, which has 1 to 256 characters; a binding stored under
  the derived reference belongs to the device; the case is still open.
\<close>

lemma redeemed_credential_resolves:
  assumes run: "redeemPairingInvite cfg i w = (Inr x, w1)" and wf: "wf_pairing w"
    and bearer: "pc_credentials cfg = bearerProvider hmac pepper" and hex: "\<forall>k m. hex_digest (hmac k m)"
    and own: "\<forall>b. readCaseDeviceBinding (rr_caseId x) (rr_deviceRef x) w = Some b \<longrightarrow>
        cb_tenantId b = pc_tenantId cfg \<and> cb_deviceId b = rx_deviceId i"
    and ses: "readSession (rr_caseId x) (between w1) = Some s" "ses_tenantId s = pc_tenantId cfg" "\<not> terminal_case (ses_status s)"
    and secret: "secret \<noteq> []" "length secret \<le> max_secret_length" "rr_caseId x \<noteq> []"
      "\<forall>k. hmac k secret = hmac k (rr_bindingCredential x) \<longrightarrow> secret = rr_bindingCredential x"
  shows "fst (resolveEdgeBinding cfg between
      \<lparr>rs_caseId = rr_caseId x, rs_deviceId = rx_deviceId i, rs_deviceRef = rr_deviceRef x, rs_bindingCredential = secret\<rparr> w1)
    = (if secret = rr_bindingCredential x
       then Inr \<lparr>rb_caseId = rr_caseId x, rb_deviceRef = rr_deviceRef x,
                 rb_mintedLabels = [(edge_case_label, rr_caseId x), (edge_device_label, rr_deviceRef x)]\<rparr>
       else Inl (Pairing BindingCredentialInvalid))"
proof -
  from redeem_leaves_binding [OF run wf] obtain n m h t where
    iss: "bearerIssue hmac pepper (w_uuid w) n = ((rr_bindingCredential x, h), m)"
    and ref: "rr_deviceRef x = deriveDeviceRef (pc_sha cfg) (pc_tenantId cfg) (rr_caseId x) (rx_deviceId i)"
    and dev: "rx_deviceId i \<noteq> []" "length (rx_deviceId i) \<le> max_device_id_length"
    and b: "readCaseDeviceBinding (rr_caseId x) (rr_deviceRef x) w1 =
        Some (upserted cfg i (rr_caseId x) (rr_deviceRef x) h t (readCaseDeviceBinding (rr_caseId x) (rr_deviceRef x) w))"
    by (auto simp: bearer bearerProvider_def)
  let ?b = "upserted cfg i (rr_caseId x) (rr_deviceRef x) h t (readCaseDeviceBinding (rr_caseId x) (rr_deviceRef x) w)"
  have ids: "cb_caseId b = rr_caseId x \<and> cb_deviceRef b = rr_deviceRef x \<and> cb_tenantId b = pc_tenantId cfg \<and> cb_deviceId b = rx_deviceId i"
    if "readCaseDeviceBinding (rr_caseId x) (rr_deviceRef x) w = Some b" for b
    using own readBinding_key [OF wf that] that by blast
  have f: "cb_caseId ?b = rr_caseId x \<and> cb_deviceRef ?b = rr_deviceRef x \<and> cb_tenantId ?b = pc_tenantId cfg
    \<and> cb_deviceId ?b = rx_deviceId i \<and> cb_status ?b = BActive \<and> cb_bindingCredentialHash ?b = hs_hash h
    \<and> cb_bindingCredentialSalt ?b = hs_salt h"
  proof (cases "readCaseDeviceBinding (rr_caseId x) (rr_deviceRef x) w")
    case (Some b)
    with ids [OF Some] show ?thesis by (simp add: upserted_def rotated_binding_def)
  qed (simp add: upserted_def new_binding_def)
  have "rr_deviceRef x \<noteq> []" by (simp add: ref deriveDeviceRef_def)
  moreover have "cr_verify (pc_credentials cfg) secret \<lparr>hs_salt = hs_salt h, hs_hash = hs_hash h\<rparr> \<longleftrightarrow> secret = rr_bindingCredential x"
  proof -
    have h: "\<lparr>hs_salt = hs_salt h, hs_hash = hs_hash h\<rparr> = h" by (cases h) simp
    have v: "cr_verify (pc_credentials cfg) = bearerVerify hmac pepper" by (simp add: bearer bearerProvider_def)
    from bearer_verify_issued [OF iss hex secret(4)] secret(1) show ?thesis unfolding h v by blast
  qed
  ultimately show ?thesis
    using dev secret(1-3) b f ses ref
    by (simp add: resolveEdgeBinding_def requireBounded_def requireNonEmptyInput_def andThen_def Let_def)
qed

lemma redeemed_credential_resolves_witness:
  "\<exists>x w1. redeemPairingInvite ex_pairing (ex_redeem ''i1'' ''dev'') invited_world = (Inr x, w1)
     \<and> fst (resolveEdgeBinding ex_pairing id \<lparr>rs_caseId = rr_caseId x, rs_deviceId = ''dev'', rs_deviceRef = rr_deviceRef x,
           rs_bindingCredential = rr_bindingCredential x\<rparr> w1)
         = Inr \<lparr>rb_caseId = rr_caseId x, rb_deviceRef = rr_deviceRef x,
                rb_mintedLabels = [(edge_case_label, rr_caseId x), (edge_device_label, rr_deviceRef x)]\<rparr>"
proof -
  have hex: "\<forall>k m. hex_digest (ex_hmac k m)"
  proof (intro allI)
    fix k m :: string
    have "even (length (concat (map (\<lambda>c. if c = CHR ''u'' then ''75'' else ''00'') m)))
      \<and> list_all lower_hex (concat (map (\<lambda>c. if c = CHR ''u'' then ''75'' else ''00'') m))"
      by (induction m) (simp_all add: lower_hex_def)
    then show "hex_digest (ex_hmac k m)" by (simp add: hex_digest_def ex_hmac_def lower_hex_def)
  qed
  let ?run = "redeemPairingInvite ex_pairing (ex_redeem ''i1'' ''dev'') invited_world"
  have "case ?run of (Inl e, w1) \<Rightarrow> False
    | (Inr x, w1) \<Rightarrow> rr_caseId x = ''s1'' \<and> rr_bindingCredential x = ''u'' \<and> readSession ''s1'' w1 = Some ex_session
        \<and> readCaseDeviceBinding (rr_caseId x) (rr_deviceRef x) invited_world = None" by code_simp
  then obtain x w1 where run: "?run = (Inr x, w1)" "rr_caseId x = ''s1''" "rr_bindingCredential x = ''u''"
    "readSession ''s1'' w1 = Some ex_session"
    "readCaseDeviceBinding (rr_caseId x) (rr_deviceRef x) invited_world = None"
    by (auto split: prod.splits sum.splits)
  from redeemed_credential_resolves [OF run(1) wf_invited, of ex_hmac "[]" id ex_session "''u''"] hex run(2-5)
  show ?thesis
    unfolding run(1)
    by (auto simp: ex_pairing_def ex_redeem_def ex_session_def terminal_case_def max_secret_length_def)
qed

subsection \<open>The roster\<close>

lemma mset_insertBy: "mset (insertBy cmp x xs) = add_mset x (mset xs)"
  by (induction xs) auto

lemma mset_sortBy: "mset (sortBy cmp xs) = mset xs"
  by (induction xs) (simp_all add: sortBy_def mset_insertBy)

text \<open>A comparator that orders, up to ties.\<close>

definition total_order_by :: "('a \<Rightarrow> 'a \<Rightarrow> int) \<Rightarrow> bool" where
  "total_order_by cmp = ((\<forall>x y. cmp x y \<le> 0 \<or> cmp y x \<le> 0) \<and> (\<forall>x y z. cmp x y \<le> 0 \<and> cmp y z \<le> 0 \<longrightarrow> cmp x z \<le> 0))"

lemma sorted_insertBy:
  assumes "total_order_by cmp" shows "sorted_wrt (\<lambda>x y. cmp x y \<le> 0) xs \<Longrightarrow> sorted_wrt (\<lambda>x y. cmp x y \<le> 0) (insertBy cmp x xs)"
proof (induction xs)
  case (Cons y ys)
  have set: "set (insertBy cmp x ys) = insert x (set ys)"
    using mset_insertBy [of cmp x ys] by (metis set_mset_add_mset_insert set_mset_mset)
  show ?case
  proof (cases "cmp x y \<le> 0")
    case True
    have "cmp x z \<le> 0" if "cmp y z \<le> 0" for z
      using assms True that unfolding total_order_by_def by blast
    with True Cons.prems show ?thesis by simp
  next
    case False
    with assms have "cmp y x \<le> 0" unfolding total_order_by_def by blast
    with False Cons set show ?thesis by auto
  qed
qed simp

lemma sorted_sortBy: "total_order_by cmp \<Longrightarrow> sorted_wrt (\<lambda>x y. cmp x y \<le> 0) (sortBy cmp xs)"
  by (induction xs) (simp_all add: sortBy_def sorted_insertBy)

lemma total_registration: "total_order_by (\<lambda>l r. registration_time r - registration_time l)"
  by (auto simp: total_order_by_def)

lemma newest_serves:
  assumes "newestLiveWorkerForBinding b ks = Some k"
  shows "k \<in> set ks \<and> serves_binding b k
    \<and> (\<forall>k1 \<in> set ks. serves_binding b k1 \<longrightarrow> registration_time k1 \<le> registration_time k)"
proof -
  let ?s = "sortBy (\<lambda>l r. registration_time r - registration_time l) (filter (serves_binding b) ks)"
  from assms obtain rest where s: "?s = k # rest"
    by (auto simp: newestLiveWorkerForBinding_def split: list.splits)
  have set: "set ?s = set (filter (serves_binding b) ks)"
    using mset_sortBy by (metis set_mset_mset)
  have "\<forall>k1 \<in> set rest. registration_time k1 \<le> registration_time k"
    using sorted_sortBy [OF total_registration, of "filter (serves_binding b) ks"] s by simp
  with s set show ?thesis by auto
qed

text \<open>
  the roster shows the case's active bindings and nothing else. It has exactly one entry for
  each active binding of the tenant on the case, in the order of the labels and then the references, and an entry is
  online exactly when the worker that registered last with Central's labels for the device, among those not
  closed or expired, is active and its lease has not run out; an online entry is ready or busy, not both.
\<close>

lemma roster_shows_active_bindings:
  assumes "listCaseDevices cfg localeCompare between c w = (Inr vs, w1)"
    and "total_order_by (view_order localeCompare)"
  shows "mset (map cv_deviceRef vs) = mset (map cb_deviceRef (filter (owned_active cfg) (readCaseDeviceBindings c w)))
    \<and> sorted_wrt (\<lambda>l r. view_order localeCompare l r \<le> 0) vs
    \<and> (\<forall>v \<in> set vs. \<exists>b \<in> set (readCaseDeviceBindings c w). \<exists>t. owned_active cfg b \<and> cv_deviceRef v = cb_deviceRef b
      \<and> cv_online v = (\<exists>k. newestLiveWorkerForBinding b (filter (\<lambda>k. wk_tenantId k = pc_tenantId cfg) (readWorkers w1)) = Some k
             \<and> wk_lifecycleState k = Active \<and> t < wk_expiresAt k)
      \<and> (cv_ready v \<or> cv_busy v) = cv_online v \<and> \<not> (cv_ready v \<and> cv_busy v))"
proof -
  let ?bs = "filter (owned_active cfg) (readCaseDeviceBindings c w)"
  let ?ks = "filter (\<lambda>k. wk_tenantId k = pc_tenantId cfg) (readWorkers w1)"
  obtain t where vs: "vs = sortBy (view_order localeCompare) (map (\<lambda>b. toCaseDeviceView b ?ks t) ?bs)"
  proof (cases "?bs = []")
    case True
    with assms(1) have "vs = []" by (auto simp: listCaseDevices_def andThen_Inr requireNonEmptyInput_def split: if_splits)
    with True that [of 0] show ?thesis by (simp add: sortBy_def)
  next
    case False
    with assms(1) that show ?thesis
      by (auto simp: listCaseDevices_def andThen_Inr requireNonEmptyInput_def Let_def split_def split: if_splits)
  qed
  have ref: "cv_deviceRef (toCaseDeviceView b ?ks t) = cb_deviceRef b" for b by (simp add: toCaseDeviceView_def Let_def)
  have "mset (map cv_deviceRef vs) = image_mset cv_deviceRef (mset vs)" by simp
  also have "\<dots> = mset (map cv_deviceRef (map (\<lambda>b. toCaseDeviceView b ?ks t) ?bs))"
    unfolding vs mset_sortBy by (rule mset_map [symmetric])
  also have "map cv_deviceRef (map (\<lambda>b. toCaseDeviceView b ?ks t) ?bs) = map cb_deviceRef ?bs"
    unfolding map_map comp_def ref ..
  finally have perm: "mset (map cv_deviceRef vs) = mset (map cb_deviceRef ?bs)" .
  have sorted: "sorted_wrt (\<lambda>l r. view_order localeCompare l r \<le> 0) vs"
    unfolding vs by (rule sorted_sortBy [OF assms(2)])
  have "set vs = (\<lambda>b. toCaseDeviceView b ?ks t) ` set ?bs"
    using arg_cong [OF mset_sortBy [of "view_order localeCompare" "map (\<lambda>b. toCaseDeviceView b ?ks t) ?bs"], of set_mset]
    unfolding vs [symmetric] by (simp only: set_mset_mset list.set_map)
  then have img: "v \<in> set vs \<Longrightarrow> \<exists>b \<in> set ?bs. v = toCaseDeviceView b ?ks t" for v by blast
  have view: "cv_online (toCaseDeviceView b ?ks t) = (\<exists>k. newestLiveWorkerForBinding b ?ks = Some k
        \<and> wk_lifecycleState k = Active \<and> t < wk_expiresAt k)
      \<and> (cv_ready (toCaseDeviceView b ?ks t) \<or> cv_busy (toCaseDeviceView b ?ks t)) = cv_online (toCaseDeviceView b ?ks t)
      \<and> \<not> (cv_ready (toCaseDeviceView b ?ks t) \<and> cv_busy (toCaseDeviceView b ?ks t))" for b
    by (cases "newestLiveWorkerForBinding b ?ks") (auto simp: toCaseDeviceView_def Let_def)
  have "\<exists>b \<in> set (readCaseDeviceBindings c w). \<exists>t. owned_active cfg b \<and> cv_deviceRef v = cb_deviceRef b
      \<and> cv_online v = (\<exists>k. newestLiveWorkerForBinding b ?ks = Some k \<and> wk_lifecycleState k = Active \<and> t < wk_expiresAt k)
      \<and> (cv_ready v \<or> cv_busy v) = cv_online v \<and> \<not> (cv_ready v \<and> cv_busy v)" if v: "v \<in> set vs" for v
  proof -
    from img [OF v] obtain b where b: "b \<in> set ?bs" "v = toCaseDeviceView b ?ks t" by blast
    from b(1) have "b \<in> set (readCaseDeviceBindings c w)" "owned_active cfg b" by simp_all
    with view [of b] ref [of b] show ?thesis unfolding b(2) by blast
  qed
  with perm sorted show ?thesis by blast
qed

definition ex_compare :: "string \<Rightarrow> string \<Rightarrow> int" where
  "ex_compare a b = (if a = b then 0 else if a < b then - 1 else 1)"

lemma roster_shows_active_bindings_witness:
  "\<exists>vs w1. listCaseDevices ex_pairing ex_compare id ''s1''
       (snd (redeemPairingInvite ex_pairing (ex_redeem ''i1'' ''dev'') invited_world)) = (Inr vs, w1)
     \<and> length vs = 1 \<and> sorted_wrt (\<lambda>l r. view_order ex_compare l r \<le> 0) vs"
proof -
  let ?w = "snd (redeemPairingInvite ex_pairing (ex_redeem ''i1'' ''dev'') invited_world)"
  have total: "total_order_by (view_order ex_compare)"
    by (auto simp: total_order_by_def view_order_def ex_compare_def Let_def split: if_splits)
  have "case listCaseDevices ex_pairing ex_compare id ''s1'' ?w of (Inl e, w1) \<Rightarrow> False | (Inr vs, w1) \<Rightarrow> length vs = 1"
    by code_simp
  then obtain vs w1 where "listCaseDevices ex_pairing ex_compare id ''s1'' ?w = (Inr vs, w1)" "length vs = 1"
    by (auto split: prod.splits sum.splits)
  with roster_shows_active_bindings [OF _ total] show ?thesis by blast
qed

end
