(* ===== verification/Managed.thy ===== *)
theory Managed
  imports Versioned
begin

text \<open>
  What a manager may assume of a versioned table it owns, while other tasks of the same manager run
  between its reads and its writes: an interface for operations that are one compare-and-set loop.
  \<open>wf\<close> says that a record is well formed, \<open>adv r r1\<close> that \<open>r1\<close> is \<open>r\<close> or a later state of it, and
  \<open>base\<close> that the table as a whole is well formed.
\<close>

locale managed_table =
  versioned_table get cas key revision frozen
  for get :: "'w \<Rightarrow> 'k \<Rightarrow> 'r option"
    and cas :: "int \<Rightarrow> 'r \<Rightarrow> ('w, 'e, bool) op"
    and key :: "'r \<Rightarrow> 'k"
    and revision :: "'r \<Rightarrow> int"
    and frozen :: "'r \<Rightarrow> 'i" +
  fixes wf :: "'r \<Rightarrow> bool"
    and adv :: "'r \<Rightarrow> 'r \<Rightarrow> bool"
    and base :: "'w \<Rightarrow> bool"
  assumes adv_refl: "adv r r"
    and adv_trans: "adv r r1 \<Longrightarrow> adv r1 r2 \<Longrightarrow> adv r r2"
    and adv_same: "adv r r1 \<Longrightarrow> key r1 = key r \<and> frozen r1 = frozen r \<and> (revision r1 = revision r \<longrightarrow> r1 = r)"
    and base_cas: "base w \<Longrightarrow> base (snd (cas e r w))"
    and base_key: "base w \<Longrightarrow> get w k = Some r \<Longrightarrow> key r = k"
begin

definition inv :: "'w \<Rightarrow> bool" where
  "inv w = (base w \<and> (\<forall>k r. get w k = Some r \<longrightarrow> wf r))"

definition progress :: "'w \<Rightarrow> 'w \<Rightarrow> bool" where
  "progress w w1 = (inv w1 \<and> (\<forall>k r. get w k = Some r \<longrightarrow> (\<exists>r1. get w1 k = Some r1 \<and> adv r r1)))"

definition rely :: "('w \<Rightarrow> 'w) list \<Rightarrow> bool" where
  "rely env = (\<forall>f \<in> set env. \<forall>w. inv w \<longrightarrow> progress w (f w))"

lemma rely_simps [simp]:
  "rely []"
  "rely (f # env) \<longleftrightarrow> (\<forall>w. inv w \<longrightarrow> progress w (f w)) \<and> rely env"
  by (auto simp: rely_def)

lemma progress_inv: "progress w w1 \<Longrightarrow> inv w1"
  by (simp add: progress_def)

lemma progress_refl: "inv w \<Longrightarrow> progress w w"
  using adv_refl by (auto simp: progress_def)

lemma progress_trans: "progress w w1 \<Longrightarrow> progress w1 w2 \<Longrightarrow> progress w w2"
  unfolding progress_def by (meson adv_trans)

lemma progress_read:
  "progress w w1 \<Longrightarrow> get w k = Some r \<Longrightarrow> \<exists>r1. get w1 k = Some r1 \<and> adv r r1 \<and> wf r1"
  unfolding progress_def inv_def by blast

text \<open>A part of an operation that leaves the table alone.\<close>

definition same_table :: "'w \<Rightarrow> 'w \<Rightarrow> bool" where
  "same_table w w1 = ((base w \<longrightarrow> base w1) \<and> (\<forall>k. get w1 k = get w k))"

lemma same_table_progress: "inv w \<Longrightarrow> same_table w w1 \<Longrightarrow> progress w w1"
  using adv_refl by (auto simp: progress_def inv_def same_table_def)

text \<open>
  What the part of a loop before the write must satisfy: it leaves the table alone, and the record it asks to
  write is a well-formed next state of the one it read.
\<close>

definition prepares :: "('w, 'e, ('r, 'a) attempt) op \<Rightarrow> bool" where
  "prepares prep = (\<forall>w a w1. inv w \<longrightarrow> prep w = (a, w1) \<longrightarrow>
     same_table w w1
     \<and> (\<forall>rv n x. a = Inr (Write rv n x) \<longrightarrow>
          (\<exists>r. get w (key n) = Some r \<and> rv = revision r \<and> revision n = rv + 1 \<and> adv r n \<and> wf n)))"

definition last_attempt :: "('w, 'e, ('r, 'a) attempt) op \<Rightarrow> 'w \<Rightarrow> 'e + 'a \<Rightarrow> 'w \<Rightarrow> bool" where
  "last_attempt prep v out w1 =
     (case prep v of
        (Inl e, v1) \<Rightarrow> out = Inl e \<and> w1 = v1
      | (Inr (Return x), v1) \<Rightarrow> out = Inr x \<and> w1 = v1
      | (Inr (Write rv n x), v1) \<Rightarrow>
          out = Inr x \<and> (\<exists>r u. get v (key n) = Some r \<and> adv r n \<and> progress v u
            \<and> get u (key n) = Some r \<and> cas rv n u = (Inr True, w1)))"

lemma cas_progress:
  assumes inv: "inv u" and cur: "get u (key n) = Some r" and "adv r n" and "wf n" and win: "cas rv n u = (Inr True, w1)"
  shows "progress u w1"
proof -
  from cas_won [OF win] have read: "get w1 k = (if k = key n then Some n else get u k)" for k by blast
  have "base w1" using base_cas [of u rv n] inv win by (simp add: inv_def)
  moreover have "wf x" if "get w1 k = Some x" for k x
  proof (cases "k = key n")
    case True
    with that assms(4) show ?thesis by (simp add: read)
  next
    case False
    with that have "get u k = Some x" by (simp add: read)
    with inv show ?thesis unfolding inv_def by blast
  qed
  moreover have "\<exists>r1. get w1 k = Some r1 \<and> adv x r1" if "get u k = Some x" for k x
  proof (cases "k = key n")
    case True
    with that cur have "x = r" by simp
    with True assms(3) read [of k] show ?thesis by auto
  next
    case False
    with that read [of k] adv_refl [of x] show ?thesis by auto
  qed
  ultimately show ?thesis unfolding progress_def inv_def by blast
qed

text \<open>One attempt, with \<open>f\<close> running before the write.\<close>

lemma attempt:
  assumes prep: "prepares prep" and inv: "inv w" and w: "prep w = (Inr (Write rv n x), w1)"
    and env: "\<And>v. inv v \<Longrightarrow> progress v (f v)" and cas: "cas rv n (f w1) = (out, w2)"
  shows "progress w w2
    \<and> ((out = Inr True \<and> last_attempt prep w (Inr x) w2) \<or> (out = Inr False \<and> w2 = f w1 \<and> get (f w1) (key n) \<noteq> get w1 (key n)))"
proof -
  from prep inv w obtain r where r: "get w (key n) = Some r" "rv = revision r" "revision n = rv + 1" "adv r n" "wf n"
    and same: "same_table w w1" unfolding prepares_def by blast
  from same_table_progress [OF inv same] env progress_inv progress_trans have p: "progress w (f w1)" by blast
  from progress_read [OF p r(1)] obtain s where s: "get (f w1) (key n) = Some s" "adv r s" by blast
  show ?thesis
  proof (cases "s = r")
    case True
    have "fst (cas rv n (f w1)) = Inr True"
    proof (rule cas_enabled)
      show "get (f w1) (key n) = Some r" using s True by simp
      show "revision r = rv" "revision n = rv + 1" "frozen r = frozen n" using r adv_same [OF r(4)] by simp_all
    qed
    with cas have out: "out = Inr True" by simp
    with cas_progress [OF progress_inv [OF p], of n r rv w2] s True r cas progress_trans [OF p] have "progress w w2" by blast
    moreover have "last_attempt prep w (Inr x) w2"
      using w r s True p cas out by (auto simp: last_attempt_def)
    ultimately show ?thesis using out by blast
  next
    case False
    with adv_same [OF s(2)] r(2) have "revision s \<noteq> rv" by auto
    with cas_stale [of "f w1" n s rv] s cas have out: "out = Inr False" by simp
    with cas_lost [OF cas] have "w2 = f w1" by simp
    with out p s False r(1) same show ?thesis by (simp add: same_table_def)
  qed
qed

lemma no_write:
  assumes "prep w = (a, w1)" and "\<nexists>rv n x. a = Inr (Write rv n x)"
  shows "\<exists>out. cas_loop env prep cas w = Some (out, w1) \<and> last_attempt prep w out w1"
proof (cases a)
  case (Inl e)
  with assms(1) show ?thesis by (cases env) (simp_all add: last_attempt_def)
next
  case (Inr att)
  with assms show ?thesis by (cases att; cases env) (simp_all add: last_attempt_def)
qed

text \<open>
  Every such loop ends, whatever finite interference there is; it makes progress, and its result is that of an
  attempt made at some moment reached by progress.
\<close>

lemma loop:
  assumes prep: "prepares prep" and "inv w" and "rely env"
  shows "\<exists>out w1 v. cas_loop env prep cas w = Some (out, w1) \<and> progress w w1 \<and> progress w v \<and> last_attempt prep v out w1"
  using assms(2,3)
proof (induction env arbitrary: w)
  case Nil
  obtain a w1 where pw: "prep w = (a, w1)" by (cases "prep w")
  show ?case
  proof (cases "\<exists>rv n x. a = Inr (Write rv n x)")
    case False
    have "progress w w1" using prep Nil(1) pw same_table_progress unfolding prepares_def by blast
    with no_write [where prep = prep, OF pw False, of "[]"] progress_refl [OF Nil(1)] show ?thesis by blast
  next
    case True
    then obtain rv n x where a: "a = Inr (Write rv n x)" by blast
    obtain out w2 where c: "cas rv n w1 = (out, w2)" by (cases "cas rv n w1")
    from attempt [where f = "\<lambda>v. v", OF prep Nil(1) pw [unfolded a] progress_refl c]
    have "progress w w2" "out = Inr True" "last_attempt prep w (Inr x) w2" by auto
    moreover from this(2) pw a c have "cas_loop [] prep cas w = Some (Inr x, w2)" by simp
    ultimately show ?thesis using progress_refl [OF Nil(1)] by blast
  qed
next
  case (Cons f env)
  obtain a w1 where pw: "prep w = (a, w1)" by (cases "prep w")
  show ?case
  proof (cases "\<exists>rv n x. a = Inr (Write rv n x)")
    case False
    have "progress w w1" using prep Cons(2) pw same_table_progress unfolding prepares_def by blast
    with no_write [where prep = prep, OF pw False, of "f # env"] progress_refl [OF Cons(2)] show ?thesis by blast
  next
    case True
    then obtain rv n x where a: "a = Inr (Write rv n x)" by blast
    obtain out w2 where c: "cas rv n (f w1) = (out, w2)" by (cases "cas rv n (f w1)")
    from attempt [where f = f, OF prep Cons(2) pw [unfolded a] _ c] Cons(3)
    have p: "progress w w2" and o: "(out = Inr True \<and> last_attempt prep w (Inr x) w2) \<or> out = Inr False" by auto
    show ?thesis
    proof (cases "out = Inr True")
      case True
      with pw a c have "cas_loop (f # env) prep cas w = Some (Inr x, w2)" by simp
      with True o p progress_refl [OF Cons(2)] show ?thesis by auto
    next
      case False
      with o have out: "out = Inr False" by simp
      from Cons(1) [OF progress_inv [OF p]] Cons(3) obtain o1 w3 v where
        "cas_loop env prep cas w2 = Some (o1, w3)" "progress w2 w3" "progress w2 v" "last_attempt prep v o1 w3" by auto
      moreover from this(1) pw a c out have "cas_loop (f # env) prep cas w = Some (o1, w3)" by simp
      ultimately show ?thesis using progress_trans [OF p] by blast
    qed
  qed
qed

text \<open>Operations put together from such loops and from parts that leave the table alone return, with progress.\<close>

definition keeps :: "('w, 'e, 'a) aop \<Rightarrow> bool" where
  "keeps m = (\<forall>w. inv w \<longrightarrow> (\<exists>r w1. m w = Some (r, w1) \<and> progress w w1))"

lemma keepsD: "keeps m \<Longrightarrow> inv w \<Longrightarrow> \<exists>r w1. m w = Some (r, w1) \<and> progress w w1"
  by (simp add: keeps_def)

lemma keeps_loop: "prepares prep \<Longrightarrow> rely env \<Longrightarrow> keeps (cas_loop env prep cas)"
  unfolding keeps_def using loop by (metis prod.collapse)

lemma keeps_same:
  assumes "\<And>w. \<exists>r w1. m w = Some (r, w1) \<and> same_table w w1"
  shows "keeps m"
  unfolding keeps_def using assms same_table_progress by metis

lemma keeps_sync: "(\<And>w. same_table w (snd (m w))) \<Longrightarrow> keeps (sync m)"
  by (rule keeps_same) (metis sync_def prod.collapse)

lemma keeps_awaiting:
  assumes m: "keeps m" and f: "\<And>x. keeps (f x)"
  shows "keeps (awaiting m f)"
  unfolding keeps_def
proof (intro allI impI)
  fix w assume "inv w"
  with keepsD [OF m] obtain r w1 where r: "m w = Some (r, w1)" and p: "progress w w1" by blast
  show "\<exists>r w1. awaiting m f w = Some (r, w1) \<and> progress w w1"
  proof (cases r)
    case (Inl e)
    with r p show ?thesis by (simp add: awaiting_def)
  next
    case (Inr x)
    from keepsD [OF f progress_inv [OF p]] progress_trans [OF p] r Inr show ?thesis
      by (fastforce simp: awaiting_def)
  qed
qed

lemma keeps_attempted: "keeps m \<Longrightarrow> keeps (attempted m)"
  by (fastforce simp: keeps_def attempted_def)

lemma keeps_if: "(b \<Longrightarrow> keeps m) \<Longrightarrow> (\<not> b \<Longrightarrow> keeps m1) \<Longrightarrow> keeps (if b then m else m1)"
  by simp

lemma same_table_refl: "same_table w w"
  by (simp add: same_table_def)

lemma same_table_trans: "same_table w w1 \<Longrightarrow> same_table w1 w2 \<Longrightarrow> same_table w w2"
  by (simp add: same_table_def)

lemma same_table_then:
  assumes "\<And>w. same_table w (snd (m w))" and "\<And>x w. same_table w (snd (f x w))"
  shows "same_table w (snd (andThen m f w))"
proof (cases "m w")
  case (Pair r w1)
  with assms(1) [of w] assms(2) [of w1] same_table_trans [of w w1] show ?thesis by (cases r) (auto simp: andThen_def)
qed

end

end
