(* ===== verification/Fanout.thy ===== *)
theory Fanout
  imports Managed Admission
begin

text \<open>
  Fan-out groups: \<^verbatim>\<open>src/central/managers/delegation/fanout-manager.ts\<close>. One tool request that
  targets many devices; the group collects the outcome of each device's call and answers the request
  once, when the last outcome is in. \<open>reparse s\<close> is the text that \<^verbatim>\<open>JSON.stringify\<close> prints
  for \<^verbatim>\<open>JSON.parse(s)\<close>, and \<open>None\<close> when the parser throws.
\<close>

subsection \<open>The manager\<close>

record fanout_config =
  fc_tenantId :: string
  fc_reparse :: "string \<Rightarrow> string option"

record open_group_input =
  og_parentSessionId :: string
  og_parentTurnSeq :: int
  og_parentRequestId :: string
  og_caseId :: string
  og_delegateId :: string
  og_input :: string
  og_deviceRefs :: "string list"

datatype member_outcome = OutCompleted string | OutFailed string string

record outcome_result =
  or_group :: fanout_group
  or_settledAggregate :: "string option"

definition newGroup :: "fanout_config \<Rightarrow> open_group_input \<Rightarrow> string \<Rightarrow> time \<Rightarrow> fanout_group" where
  "newGroup cfg i gid t =
     \<lparr>fg_groupId = gid, fg_tenantId = fc_tenantId cfg, fg_parentSessionId = og_parentSessionId i,
      fg_parentTurnSeq = og_parentTurnSeq i, fg_parentRequestId = og_parentRequestId i, fg_caseId = og_caseId i,
      fg_delegateId = og_delegateId i, fg_input = og_input i,
      fg_members = map (\<lambda>ref. \<lparr>fm_deviceRef = ref, fm_delegationCallId = None, fm_status = MStarting,
                            fm_result = None, fm_failure = None, fm_updatedAt = t\<rparr>) (og_deviceRefs i),
      fg_status = GOpen, fg_aggregate = None, fg_deliveryStatus = GPending, fg_revision = 1,
      fg_createdAt = t, fg_updatedAt = t\<rparr>"

definition openGroup :: "fanout_config \<Rightarrow> open_group_input \<Rightarrow> world \<Rightarrow> (fanout_group \<times> bool) \<times> world" where
  "openGroup cfg i w = (let (t, w1) = now w; (gid, w2) = freshId w1 in createFanoutGroup (newGroup cfg i gid t) w2)"

definition readGroupByRequest :: "string \<Rightarrow> string \<Rightarrow> world \<Rightarrow> fanout_group option" where
  "readGroupByRequest parent req w =
     find (\<lambda>g. fg_parentSessionId g = parent \<and> fg_parentRequestId g = req) (readFanoutGroups w)"

definition readGroupByMember :: "string \<Rightarrow> world \<Rightarrow> fanout_group option" where
  "readGroupByMember callId w =
     find (\<lambda>g. list_ex (\<lambda>m. fm_delegationCallId m = Some callId) (fg_members g)) (readFanoutGroups w)"

definition requireGroup :: "fanout_config \<Rightarrow> string \<Rightarrow> fanout_group wop" where
  "requireGroup cfg gid w =
     (case readFanoutGroup gid w of
        None \<Rightarrow> throw (GroupNotFound gid) w
      | Some g \<Rightarrow> if fg_tenantId g \<noteq> fc_tenantId cfg then throw (GroupNotFound gid) w else ok g w)"

definition attachPrepare ::
  "fanout_config \<Rightarrow> string \<Rightarrow> string \<Rightarrow> string \<Rightarrow> (fanout_group, fanout_group) attempt wop" where
  "attachPrepare cfg gid ref callId =
     andThen (requireGroup cfg gid) (\<lambda>g w.
       (case find (\<lambda>m. fm_deviceRef m = ref) (fg_members g) of
          None \<Rightarrow> throw (NoSuchMember gid ref) w
        | Some m \<Rightarrow>
            if fm_delegationCallId m = Some callId \<and> fm_status m \<noteq> MStarting then ok (Return g) w
            else if fm_status m \<noteq> MStarting then throw (AlreadyAttached gid ref) w
            else
              (let (t, w1) = now w;
                   next = g\<lparr>fg_members := map (\<lambda>c. if fm_deviceRef c = ref
                                then c\<lparr>fm_delegationCallId := Some callId, fm_status := MPending, fm_updatedAt := t\<rparr>
                                else c) (fg_members g),
                            fg_revision := fg_revision g + 1, fg_updatedAt := t\<rparr>
               in ok (Write (fg_revision g) next next) w1)))"

definition attachMemberCall ::
  "fanout_config \<Rightarrow> tasks \<Rightarrow> string \<Rightarrow> string \<Rightarrow> string \<Rightarrow> world \<Rightarrow> ((error + fanout_group) \<times> world) option" where
  "attachMemberCall cfg env gid ref callId = cas_loop env (attachPrepare cfg gid ref callId) compareAndSetFanoutGroup"

definition terminal_member :: "fanout_member \<Rightarrow> bool" where
  "terminal_member m = (fm_status m = MCompleted \<or> fm_status m = MFailed)"

fun applyOutcome :: "member_outcome \<Rightarrow> time \<Rightarrow> fanout_member \<Rightarrow> fanout_member" where
  "applyOutcome (OutCompleted res) t m = m\<lparr>fm_status := MCompleted, fm_result := Some res, fm_updatedAt := t\<rparr>"
| "applyOutcome (OutFailed code msg) t m =
     m\<lparr>fm_status := MFailed, fm_failure := Some \<lparr>fl_code = code, fl_message = msg\<rparr>, fm_updatedAt := t\<rparr>"

text \<open>\<^verbatim>\<open>JSON.stringify\<close> of an object or an array whose parts are already printed.\<close>

definition object_text :: "(string \<times> string) list \<Rightarrow> string" where
  "object_text kvs = CHR ''{'' # join_commas (map (\<lambda>(k, v). json_quote k @ CHR '':'' # v) kvs) @ ''}''"

definition array_text :: "string list \<Rightarrow> string" where
  "array_text vs = CHR ''['' # join_commas vs @ '']''"

definition device_text :: "(string \<Rightarrow> string option) \<Rightarrow> fanout_member \<Rightarrow> string" where
  "device_text reparse m =
     (if fm_status m = MCompleted
      then object_text [(''deviceRef'', json_quote (fm_deviceRef m)), (''status'', json_quote ''completed''),
             (''observation'', (case reparse (orElse (fm_result m) []) of
                Some v \<Rightarrow> v | None \<Rightarrow> json_quote (orElse (fm_result m) [])))]
      else object_text [(''deviceRef'', json_quote (fm_deviceRef m)), (''status'', json_quote ''failed''),
             (''error'', json_quote ((case fm_failure m of None \<Rightarrow> ''failed'' | Some f \<Rightarrow> fl_code f) @ '': '' @
                                     (case fm_failure m of None \<Rightarrow> [] | Some f \<Rightarrow> fl_message f)))])"

definition aggregate :: "(string \<Rightarrow> string option) \<Rightarrow> fanout_member list \<Rightarrow> string" where
  "aggregate reparse ms =
     (let completed = int (length (filter (\<lambda>m. fm_status m = MCompleted) ms))
      in object_text
           [(''scope'', json_quote ''all''),
            (''summary'', object_text [(''total'', int_text (int (length ms))), (''completed'', int_text completed),
                                       (''failed'', int_text (int (length ms) - completed))]),
            (''devices'', array_text (map (device_text reparse) ms))])"

definition outcomePrepare ::
  "fanout_config \<Rightarrow> string \<Rightarrow> (fanout_member \<Rightarrow> bool) \<Rightarrow> member_outcome \<Rightarrow> (fanout_group, outcome_result) attempt wop" where
  "outcomePrepare cfg gid matches out =
     andThen (requireGroup cfg gid) (\<lambda>g w.
       if fg_status g = GSettled then ok (Return \<lparr>or_group = g, or_settledAggregate = None\<rparr>) w
       else
         (case find matches (fg_members g) of
            None \<Rightarrow> throw (NoSuchMember gid []) w
          | Some m \<Rightarrow>
              (let (t, w1) = now w;
                   ms = (if fm_status m = MStarting \<or> fm_status m = MPending
                         then map (\<lambda>c. if matches c then applyOutcome out t c else c) (fg_members g)
                         else fg_members g);
                   allTerminal = list_all terminal_member ms
               in if terminal_member m then ok (Return \<lparr>or_group = g, or_settledAggregate = None\<rparr>) w1
                  else
                    (let agg = (if allTerminal then Some (aggregate (fc_reparse cfg) ms) else None);
                         next = g\<lparr>fg_members := ms, fg_status := (if allTerminal then GSettled else GOpen),
                                  fg_aggregate := orOpt agg (fg_aggregate g),
                                  fg_revision := fg_revision g + 1, fg_updatedAt := t\<rparr>
                     in ok (Write (fg_revision g) next \<lparr>or_group = next, or_settledAggregate = agg\<rparr>) w1))))"

definition recordOutcomeInGroup ::
  "fanout_config \<Rightarrow> tasks \<Rightarrow> string \<Rightarrow> (fanout_member \<Rightarrow> bool) \<Rightarrow> member_outcome \<Rightarrow> world
    \<Rightarrow> ((error + outcome_result) \<times> world) option" where
  "recordOutcomeInGroup cfg env gid matches out = cas_loop env (outcomePrepare cfg gid matches out) compareAndSetFanoutGroup"

definition recordStartupFailure ::
  "fanout_config \<Rightarrow> tasks \<Rightarrow> string \<Rightarrow> string \<Rightarrow> string \<Rightarrow> string \<Rightarrow> world \<Rightarrow> ((error + outcome_result) \<times> world) option" where
  "recordStartupFailure cfg env gid ref code msg =
     recordOutcomeInGroup cfg env gid (\<lambda>m. fm_deviceRef m = ref) (OutFailed code msg)"

definition recordOutcome ::
  "fanout_config \<Rightarrow> tasks \<Rightarrow> string \<Rightarrow> member_outcome \<Rightarrow> world \<Rightarrow> ((error + outcome_result option) \<times> world) option" where
  "recordOutcome cfg env callId out w =
     (case readGroupByMember callId w of
        None \<Rightarrow> Some (Inr None, w)
      | Some g \<Rightarrow>
          map_option (\<lambda>(r, w1). (map_sum id Some r, w1))
            (recordOutcomeInGroup cfg env (fg_groupId g) (\<lambda>m. fm_delegationCallId m = Some callId) out w))"

definition deliveredPrepare :: "fanout_config \<Rightarrow> string \<Rightarrow> (fanout_group, fanout_group) attempt wop" where
  "deliveredPrepare cfg gid =
     andThen (requireGroup cfg gid) (\<lambda>g w.
       if fg_deliveryStatus g = GDelivered then ok (Return g) w
       else if fg_status g \<noteq> GSettled \<or> fg_aggregate g = None then throw (NotSettled gid) w
       else
         (let (t, w1) = now w;
              next = g\<lparr>fg_deliveryStatus := GDelivered, fg_revision := fg_revision g + 1, fg_updatedAt := t\<rparr>
          in ok (Write (fg_revision g) next next) w1))"

definition markDelivered :: "fanout_config \<Rightarrow> tasks \<Rightarrow> string \<Rightarrow> world \<Rightarrow> ((error + fanout_group) \<times> world) option" where
  "markDelivered cfg env gid = cas_loop env (deliveredPrepare cfg gid) compareAndSetFanoutGroup"

subsection \<open>Well-formed groups and their advance\<close>

text \<open>\<open>owner\<close> gives the group and device each delegation call was opened for.\<close>

type_synonym owners = "string \<Rightarrow> string \<times> string"

definition wf_member :: "owners \<Rightarrow> string \<Rightarrow> fanout_member \<Rightarrow> bool" where
  "wf_member owner gid m =
     ((\<forall>c. fm_delegationCallId m = Some c \<longrightarrow> owner c = (gid, fm_deviceRef m))
      \<and> (fm_status m = MPending \<longrightarrow> fm_delegationCallId m \<noteq> None)
      \<and> (fm_status m = MStarting \<longrightarrow> fm_delegationCallId m = None)
      \<and> (fm_status m = MCompleted \<longrightarrow> fm_result m \<noteq> None) \<and> (fm_status m = MFailed \<longrightarrow> fm_failure m \<noteq> None))"

definition wf_group :: "fanout_config \<Rightarrow> owners \<Rightarrow> fanout_group \<Rightarrow> bool" where
  "wf_group cfg owner g =
     (list_all (wf_member owner (fg_groupId g)) (fg_members g)
      \<and> distinct (map fm_deviceRef (fg_members g)) \<and> fg_members g \<noteq> []
      \<and> (fg_status g = GSettled \<longleftrightarrow> list_all terminal_member (fg_members g))
      \<and> fg_aggregate g = (if fg_status g = GSettled then Some (aggregate (fc_reparse cfg) (fg_members g)) else None)
      \<and> (fg_deliveryStatus g = GDelivered \<longrightarrow> fg_status g = GSettled))"

definition member_adv :: "fanout_member \<Rightarrow> fanout_member \<Rightarrow> bool" where
  "member_adv m m1 =
     (fm_deviceRef m1 = fm_deviceRef m
      \<and> (fm_delegationCallId m \<noteq> None \<longrightarrow> fm_delegationCallId m1 = fm_delegationCallId m)
      \<and> (terminal_member m \<longrightarrow> m1 = m) \<and> (fm_status m = MPending \<longrightarrow> fm_status m1 \<noteq> MStarting))"

definition group_identity :: "fanout_group \<Rightarrow> string \<times> string \<times> int \<times> string \<times> time" where
  "group_identity g = (fg_groupId g, fg_tenantId g, fg_parentTurnSeq g, fg_caseId g, fg_createdAt g)"

definition group_adv :: "fanout_group \<Rightarrow> fanout_group \<Rightarrow> bool" where
  "group_adv g g1 =
     (group_identity g1 = group_identity g \<and> request_key g1 = request_key g \<and> routing_intent g1 = routing_intent g
      \<and> list_all2 member_adv (fg_members g) (fg_members g1)
      \<and> (fg_status g = GSettled \<longrightarrow> fg_status g1 = GSettled \<and> fg_aggregate g1 = fg_aggregate g)
      \<and> (fg_deliveryStatus g = GDelivered \<longrightarrow> fg_deliveryStatus g1 = GDelivered)
      \<and> fg_revision g \<le> fg_revision g1 \<and> (fg_revision g1 = fg_revision g \<longrightarrow> g1 = g))"

lemma member_adv_refl [simp]: "member_adv m m"
  by (simp add: member_adv_def)

lemma member_adv_trans: "member_adv m m1 \<Longrightarrow> member_adv m1 m2 \<Longrightarrow> member_adv m m2"
  by (cases "fm_status m"; cases "fm_status m1") (auto simp: member_adv_def terminal_member_def)

lemma group_adv_refl [simp]: "group_adv g g"
  by (simp add: group_adv_def list.rel_refl)

lemma group_adv_trans: 
  assumes "group_adv g g1" and "group_adv g1 g2" shows "group_adv g g2"
proof -
  have "list_all2 member_adv (fg_members g) (fg_members g2)"
    by (rule list_all2_trans [of member_adv member_adv member_adv "fg_members g" "fg_members g1" "fg_members g2"])
       (use assms member_adv_trans in \<open>auto simp: group_adv_def\<close>)
  moreover have "fg_revision g2 = fg_revision g \<longrightarrow> g2 = g" using assms unfolding group_adv_def by auto
  ultimately show ?thesis using assms by (auto simp: group_adv_def)
qed

lemma group_adv_same:
  "group_adv g g1 \<Longrightarrow> fg_groupId g1 = fg_groupId g \<and> (request_key g1, routing_intent g1) = (request_key g, routing_intent g)
    \<and> (fg_revision g1 = fg_revision g \<longrightarrow> g1 = g)"
  by (simp add: group_adv_def group_identity_def)

lemma wf_fanouts_key: "wf_fanouts w \<Longrightarrow> readFanoutGroup k w = Some g \<Longrightarrow> fg_groupId g = k"
  by (rule readFanoutGroup_id)

interpretation groups: managed_table
  "\<lambda>w k. readFanoutGroup k w" compareAndSetFanoutGroup fg_groupId fg_revision
  "\<lambda>g. (request_key g, routing_intent g)" "wf_group cfg owner" group_adv wf_fanouts
  for cfg owner
  by unfold_locales (auto intro: group_adv_trans wf_fanouts_cas wf_fanouts_key dest: group_adv_same)

lemma same_groups_now [simp]: "groups.same_table w (snd (now w))" "groups.same_table w w"
  by (simp_all add: groups.same_table_def tab_simps) (simp add: wf_fanouts_def now_def)

lemma requireGroup_eq:
  "requireGroup cfg gid w = (out, w1) \<Longrightarrow> w1 = w"
  "requireGroup cfg gid w = (Inr g, w1) \<Longrightarrow> readFanoutGroup gid w = Some g \<and> fg_tenantId g = fc_tenantId cfg"
  by (auto simp: requireGroup_def split: option.splits if_splits)

lemma members_adv_map:
  "(\<And>m. m \<in> set ms \<Longrightarrow> f m \<Longrightarrow> member_adv m (h m)) \<Longrightarrow> list_all2 member_adv ms (map (\<lambda>m. if f m then h m else m) ms)"
  by (induction ms) auto

lemma wf_group_member: "wf_group cfg owner g \<Longrightarrow> m \<in> set (fg_members g) \<Longrightarrow> wf_member owner (fg_groupId g) m"
  by (simp add: wf_group_def list_all_iff)

text \<open>An open group, after some of its members made a step.\<close>

definition next_group :: "fanout_config \<Rightarrow> fanout_group \<Rightarrow> fanout_member list \<Rightarrow> time \<Rightarrow> fanout_group" where
  "next_group cfg g ms t =
     g\<lparr>fg_members := ms, fg_status := (if list_all terminal_member ms then GSettled else GOpen),
       fg_aggregate := (if list_all terminal_member ms then Some (aggregate (fc_reparse cfg) ms) else None),
       fg_revision := fg_revision g + 1, fg_updatedAt := t\<rparr>"

lemma next_group_ok:
  assumes wf: "wf_group cfg owner g" and op: "fg_status g = GOpen"
    and h: "\<And>m. m \<in> set (fg_members g) \<Longrightarrow> P m \<Longrightarrow> member_adv m (h m) \<and> wf_member owner (fg_groupId g) (h m)"
  shows "group_adv g (next_group cfg g (map (\<lambda>m. if P m then h m else m) (fg_members g)) t)
    \<and> wf_group cfg owner (next_group cfg g (map (\<lambda>m. if P m then h m else m) (fg_members g)) t)"
proof -
  let ?ms = "map (\<lambda>m. if P m then h m else m) (fg_members g)"
  have "list_all2 member_adv (fg_members g) ?ms" using h by (intro members_adv_map) blast
  moreover have refs: "map fm_deviceRef ?ms = map fm_deviceRef (fg_members g)"
    using h by (auto simp: member_adv_def)
  moreover have "list_all (wf_member owner (fg_groupId g)) ?ms"
    using h wf by (auto simp: list_all_iff wf_group_def)
  moreover have "distinct (map fm_deviceRef ?ms)" unfolding refs using wf by (simp add: wf_group_def)
  moreover have "fg_aggregate g = None" "fg_deliveryStatus g = GPending" "fg_members g \<noteq> []"
    using wf op by (auto simp: wf_group_def) (cases "fg_deliveryStatus g"; simp)
  ultimately show ?thesis
    using op by (simp add: next_group_def group_adv_def wf_group_def group_identity_def request_key_def routing_intent_def)
qed

lemma wf_ref_unique:
  "wf_group cfg owner g \<Longrightarrow> m \<in> set (fg_members g) \<Longrightarrow> c \<in> set (fg_members g) \<Longrightarrow> fm_deviceRef c = fm_deviceRef m \<Longrightarrow> c = m"
  by (auto simp: wf_group_def distinct_map dest: inj_onD)

lemma wf_call_unique:
  assumes "wf_group cfg owner g" and "m \<in> set (fg_members g)" and "c \<in> set (fg_members g)"
    and "fm_delegationCallId m = Some k" and "fm_delegationCallId c = Some k"
  shows "c = m"
proof -
  from assms(4,5) wf_group_member [OF assms(1,2)] wf_group_member [OF assms(1,3)]
  have "owner k = (fg_groupId g, fm_deviceRef m)" "owner k = (fg_groupId g, fm_deviceRef c)"
    by (simp_all add: wf_member_def)
  with wf_ref_unique [OF assms(1-3)] show ?thesis by simp
qed

lemma wf_open: "wf_group cfg owner g \<Longrightarrow> m \<in> set (fg_members g) \<Longrightarrow> \<not> terminal_member m \<Longrightarrow> fg_status g = GOpen"
  by (cases "fg_status g") (auto simp: wf_group_def list_all_iff)

lemma inv_group: "groups.inv cfg owner w \<Longrightarrow> readFanoutGroup gid w = Some g \<Longrightarrow> wf_group cfg owner g \<and> fg_groupId g = gid"
  by (auto simp: groups.inv_def dest: wf_fanouts_key)

text \<open>A loop whose body reads the group and then asks for its next state.\<close>

lemma group_prepares:
  assumes "\<And>w g a w1. readFanoutGroup gid w = Some g \<Longrightarrow> wf_group cfg owner g \<Longrightarrow> fg_groupId g = gid \<Longrightarrow> body g w = (a, w1) \<Longrightarrow>
      groups.same_table w w1 \<and> (\<forall>rv n x. a = Inr (Write rv n x) \<longrightarrow> rv = fg_revision g \<and> fg_revision n = rv + 1
        \<and> group_adv g n \<and> wf_group cfg owner n)"
  shows "groups.prepares cfg owner (andThen (requireGroup cfg gid) body)"
  unfolding groups.prepares_def
proof (intro allI impI)
  fix w a w1
  assume inv: "groups.inv cfg owner w" and run: "andThen (requireGroup cfg gid) body w = (a, w1)"
  show "groups.same_table w w1 \<and> (\<forall>rv n x. a = Inr (Write rv n x) \<longrightarrow> (\<exists>g. readFanoutGroup (fg_groupId n) w = Some g
      \<and> rv = fg_revision g \<and> fg_revision n = rv + 1 \<and> group_adv g n \<and> wf_group cfg owner n))"
  proof (cases "fst (requireGroup cfg gid w)")
    case (Inl e)
    with run requireGroup_eq(1) [of cfg gid w] have "a = Inl e" "w1 = w"
      by (auto simp: andThen_def split: prod.splits)
    then show ?thesis by simp
  next
    case (Inr g)
    then have req: "requireGroup cfg gid w = (Inr g, w)"
      using requireGroup_eq(1) [of cfg gid w] by (cases "requireGroup cfg gid w") auto
    with run have body: "body g w = (a, w1)" by (simp add: andThen_def)
    have read: "readFanoutGroup gid w = Some g" using requireGroup_eq(2) [OF req] by simp
    note wf = inv_group [OF inv read]
    from assms [OF read _ _ body] wf have b: "groups.same_table w w1" "\<And>rv n x. a = Inr (Write rv n x) \<Longrightarrow>
        rv = fg_revision g \<and> fg_revision n = rv + 1 \<and> group_adv g n \<and> wf_group cfg owner n" by blast+
    moreover have "fg_groupId n = gid" if "a = Inr (Write rv n x)" for rv n x
      using b(2) [OF that] wf group_adv_same by metis
    ultimately show ?thesis using read by blast
  qed
qed

lemma attach_prepares:
  assumes "owner callId = (gid, ref)" shows "groups.prepares cfg owner (attachPrepare cfg gid ref callId)"
  unfolding attachPrepare_def
proof (rule group_prepares, goal_cases)
  case (1 w g a w1)
  show ?case
  proof (cases "find (\<lambda>m. fm_deviceRef m = ref) (fg_members g)")
    case None
    with 1(4) show ?thesis by auto
  next
    case (Some m)
    note m = find_SomeD [OF Some]
    show ?thesis
    proof (cases "fm_status m = MStarting")
      case False
      with 1(4) Some show ?thesis by (auto split: if_splits)
    next
      case True
      let ?h = "\<lambda>c. c\<lparr>fm_delegationCallId := Some callId, fm_status := MPending, fm_updatedAt := fst (now w)\<rparr>"
      let ?ms = "map (\<lambda>c. if fm_deviceRef c = ref then ?h c else c) (fg_members g)"
      have c: "member_adv c (?h c) \<and> wf_member owner (fg_groupId g) (?h c)" if "c \<in> set (fg_members g)" "fm_deviceRef c = ref" for c
      proof -
        have "c = m" using wf_ref_unique [OF 1(2) _ that(1), of m] m that(2) by simp
        with wf_group_member [OF 1(2)] m True assms 1(3) that(2) show ?thesis
          by (auto simp: member_adv_def wf_member_def terminal_member_def)
      qed
      have "?h m \<in> set ?ms" using m by force
      moreover have "\<not> terminal_member (?h m)" by (simp add: terminal_member_def)
      ultimately have "\<not> list_all terminal_member ?ms" unfolding list_all_iff by blast
      moreover have "fg_status g = GOpen" by (rule wf_open [OF 1(2)]) (use m True in \<open>auto simp: terminal_member_def\<close>)
      moreover have "fg_aggregate g = None" using 1(2) \<open>fg_status g = GOpen\<close> by (simp add: wf_group_def)
      ultimately have "g\<lparr>fg_members := ?ms, fg_revision := fg_revision g + 1, fg_updatedAt := fst (now w)\<rparr> = next_group cfg g ?ms (fst (now w))"
        by (simp add: next_group_def)
      with 1(4) Some True next_group_ok [where h = ?h, OF 1(2) \<open>fg_status g = GOpen\<close> c, of "\<lambda>c. fm_deviceRef c = ref" "fst (now w)"]
      show ?thesis by (auto simp: Let_def split_def next_group_def)
    qed
  qed
qed

lemma applyOutcome_ok:
  "\<not> terminal_member m \<Longrightarrow> wf_member owner gid m \<Longrightarrow> member_adv m (applyOutcome out t m) \<and> wf_member owner gid (applyOutcome out t m)
    \<and> terminal_member (applyOutcome out t m)"
  by (cases out) (auto simp: member_adv_def wf_member_def terminal_member_def)

lemma outcome_prepares:
  assumes unique: "\<And>g m c. wf_group cfg owner g \<Longrightarrow> m \<in> set (fg_members g) \<Longrightarrow> c \<in> set (fg_members g) \<Longrightarrow> matches m \<Longrightarrow> matches c \<Longrightarrow> c = m"
  shows "groups.prepares cfg owner (outcomePrepare cfg gid matches out)"
  unfolding outcomePrepare_def
proof (rule group_prepares, goal_cases)
  case (1 w g a w1)
  show ?case
  proof (cases "fg_status g = GSettled \<or> find matches (fg_members g) = None")
    case True
    with 1(4) show ?thesis by (auto split: if_splits)
  next
    case False
    then obtain m where fm: "find matches (fg_members g) = Some m" and op: "fg_status g = GOpen"
      by (cases "fg_status g") auto
    note m = find_SomeD [OF fm]
    show ?thesis
    proof (cases "terminal_member m")
      case True
      with 1(4) fm op show ?thesis by (auto simp: Let_def split_def)
    next
      case nt: False
      then have st: "fm_status m = MStarting \<or> fm_status m = MPending"
        by (cases "fm_status m") (simp_all add: terminal_member_def)
      let ?ms = "map (\<lambda>c. if matches c then applyOutcome out (fst (now w)) c else c) (fg_members g)"
      have c: "member_adv c (applyOutcome out (fst (now w)) c) \<and> wf_member owner (fg_groupId g) (applyOutcome out (fst (now w)) c)"
        if "c \<in> set (fg_members g)" "matches c" for c
        using unique [OF 1(2) _ that(1), of m] m that(2) applyOutcome_ok [OF nt] wf_group_member [OF 1(2)] by blast
      have "fg_aggregate g = None" using 1(2) op by (simp add: wf_group_def)
      with 1(4) fm op st nt have "w1 = snd (now w)" and
        "a = Inr (Write (fg_revision g) (next_group cfg g ?ms (fst (now w)))
             \<lparr>or_group = next_group cfg g ?ms (fst (now w)),
              or_settledAggregate = (if list_all terminal_member ?ms then Some (aggregate (fc_reparse cfg) ?ms) else None)\<rparr>)"
        by (auto simp: Let_def split_def next_group_def)
      with next_group_ok [OF 1(2) op c, of matches "fst (now w)"] show ?thesis by (simp add: next_group_def)
    qed
  qed
qed

lemma delivered_prepares: "groups.prepares cfg owner (deliveredPrepare cfg gid)"
  unfolding deliveredPrepare_def
proof (rule group_prepares, goal_cases)
  case (1 w g a w1)
  let ?n = "g\<lparr>fg_deliveryStatus := GDelivered, fg_revision := fg_revision g + 1, fg_updatedAt := fst (now w)\<rparr>"
  have n: "group_adv g ?n" "fg_status g = GSettled \<Longrightarrow> wf_group cfg owner ?n"
    using 1(2) by (simp_all add: group_adv_def group_identity_def request_key_def routing_intent_def wf_group_def list.rel_refl)
  show ?case
  proof (cases "fg_deliveryStatus g = GDelivered \<or> fg_status g \<noteq> GSettled \<or> fg_aggregate g = None")
    case True
    with 1(4) show ?thesis by (auto split: if_splits)
  next
    case False
    with 1(4) have "a = Inr (Write (fg_revision g) ?n ?n)" "w1 = snd (now w)" by (auto simp: Let_def split_def)
    with n False show ?thesis by simp
  qed
qed

lemma outcome_prepares_ref: "groups.prepares cfg owner (outcomePrepare cfg gid (\<lambda>m. fm_deviceRef m = ref) out)"
  using wf_ref_unique by (intro outcome_prepares) metis

lemma outcome_prepares_call: "groups.prepares cfg owner (outcomePrepare cfg gid (\<lambda>m. fm_delegationCallId m = Some k) out)"
  using wf_call_unique by (intro outcome_prepares) metis

subsection \<open>Any sequence of operations\<close>

datatype fanout_op =
    OpOpen open_group_input
  | OpAttach tasks string string string
  | OpStartupFailure tasks string string string string
  | OpOutcome tasks string member_outcome
  | OpDelivered tasks string

text \<open>The second component is the aggregate the operation reports as just settled, with its group.\<close>

definition settled_by :: "(error + outcome_result) \<Rightarrow> (string \<times> string) option" where
  "settled_by r = (case r of Inl e \<Rightarrow> None | Inr x \<Rightarrow> map_option (Pair (fg_groupId (or_group x))) (or_settledAggregate x))"

fun run_fanout_op :: "fanout_config \<Rightarrow> fanout_op \<Rightarrow> world \<Rightarrow> (world \<times> (string \<times> string) option) option" where
  "run_fanout_op cfg (OpOpen i) w = Some (snd (openGroup cfg i w), None)"
| "run_fanout_op cfg (OpAttach env gid ref k) w = map_option (\<lambda>(r, w1). (w1, None)) (attachMemberCall cfg env gid ref k w)"
| "run_fanout_op cfg (OpStartupFailure env gid ref c m) w =
     map_option (\<lambda>(r, w1). (w1, settled_by r)) (recordStartupFailure cfg env gid ref c m w)"
| "run_fanout_op cfg (OpOutcome env k out) w =
     map_option (\<lambda>(r, w1). (w1, (case r of Inr (Some x) \<Rightarrow> settled_by (Inr x) | _ \<Rightarrow> None))) (recordOutcome cfg env k out w)"
| "run_fanout_op cfg (OpDelivered env gid) w = map_option (\<lambda>(r, w1). (w1, None)) (markDelivered cfg env gid w)"

fun run_fanout_ops :: "fanout_config \<Rightarrow> fanout_op list \<Rightarrow> world \<Rightarrow> (world \<times> (string \<times> string) list) option" where
  "run_fanout_ops cfg [] w = Some (w, [])"
| "run_fanout_ops cfg (x # xs) w =
     (case run_fanout_op cfg x w of
        None \<Rightarrow> None
      | Some (w1, s) \<Rightarrow> map_option (\<lambda>(w2, ss). (w2, (case s of None \<Rightarrow> ss | Some p \<Rightarrow> p # ss))) (run_fanout_ops cfg xs w1))"

text \<open>
  What an operation may be given: a group of at least one device, all different; a call of the device it
  is attached to; and other tasks that make progress.
\<close>

fun fanout_op_ok :: "fanout_config \<Rightarrow> owners \<Rightarrow> fanout_op \<Rightarrow> bool" where
  "fanout_op_ok cfg owner (OpOpen i) = (og_deviceRefs i \<noteq> [] \<and> distinct (og_deviceRefs i))"
| "fanout_op_ok cfg owner (OpAttach env gid ref k) = (owner k = (gid, ref) \<and> groups.rely cfg owner env)"
| "fanout_op_ok cfg owner (OpStartupFailure env gid ref c m) = groups.rely cfg owner env"
| "fanout_op_ok cfg owner (OpOutcome env k out) = groups.rely cfg owner env"
| "fanout_op_ok cfg owner (OpDelivered env gid) = groups.rely cfg owner env"

text \<open>A group that is settled, at the start of an operation or at its end.\<close>

definition settled_in :: "string \<Rightarrow> world \<Rightarrow> string option" where
  "settled_in gid w = (case readFanoutGroup gid w of None \<Rightarrow> None | Some g \<Rightarrow> if fg_status g = GSettled then fg_aggregate g else None)"

lemma settled_in_progress: "groups.progress cfg owner w w1 \<Longrightarrow> settled_in gid w = Some a \<Longrightarrow> settled_in gid w1 = Some a"
  by (fastforce simp: settled_in_def group_adv_def groups.progress_def split: option.splits if_splits)

text \<open>What settling means for the operation that reports it.\<close>

definition settles :: "fanout_config \<Rightarrow> owners \<Rightarrow> world \<Rightarrow> (string \<times> string) option \<Rightarrow> world \<Rightarrow> bool" where
  "settles cfg owner w s w1 =
     (groups.progress cfg owner w w1
      \<and> (\<forall>gid a. s = Some (gid, a) \<longrightarrow> settled_in gid w = None \<and> settled_in gid w1 = Some a))"

lemma outcomePrepare_Write:
  assumes "outcomePrepare cfg gid matches out v = (Inr (Write rv n x), v1)"
  shows "\<exists>g. readFanoutGroup gid v = Some g \<and> fg_status g = GOpen \<and> fg_groupId n = fg_groupId g \<and> or_group x = n
    \<and> (or_settledAggregate x \<noteq> None \<longrightarrow> fg_status n = GSettled \<and> fg_aggregate n = or_settledAggregate x)"
proof -
  from assms obtain g where g: "requireGroup cfg gid v = (Inr g, v)" and "fg_status g \<noteq> GSettled"
    and n: "fg_groupId n = fg_groupId g \<and> or_group x = n
    \<and> (or_settledAggregate x \<noteq> None \<longrightarrow> fg_status n = GSettled \<and> fg_aggregate n = or_settledAggregate x)"
    by (auto simp: outcomePrepare_def andThen_Inr Let_def split_def dest: requireGroup_eq(1) split: if_splits option.splits)
  then have "fg_status g = GOpen" by (cases "fg_status g") simp_all
  with requireGroup_eq(2) [OF g] n show ?thesis by blast
qed

lemma outcomePrepare_Return:
  "outcomePrepare cfg gid matches out v = (Inr (Return x), v1) \<Longrightarrow> or_settledAggregate x = None"
  by (auto simp: outcomePrepare_def andThen_Inr Let_def split_def split: if_splits option.splits)

lemma outcome_settles:
  assumes "groups.prepares cfg owner (outcomePrepare cfg gid matches out)" and inv: "groups.inv cfg owner w"
    and "groups.rely cfg owner env"
  shows "\<exists>r w1. recordOutcomeInGroup cfg env gid matches out w = Some (r, w1) \<and> settles cfg owner w (settled_by r) w1"
proof -
  from groups.loop [OF assms] obtain r w1 v where
    run: "recordOutcomeInGroup cfg env gid matches out w = Some (r, w1)" and p: "groups.progress cfg owner w w1"
    and pv: "groups.progress cfg owner w v"
    and last: "groups.last_attempt cfg owner (outcomePrepare cfg gid matches out) v r w1"
    unfolding recordOutcomeInGroup_def by blast
  have "settled_in k w = None \<and> settled_in k w1 = Some a" if s: "settled_by r = Some (k, a)" for k a
  proof -
    obtain pr v1 where pr: "outcomePrepare cfg gid matches out v = (pr, v1)" by (cases "outcomePrepare cfg gid matches out v")
    from s obtain x where r: "r = Inr x" "or_settledAggregate x = Some a" "fg_groupId (or_group x) = k"
      by (auto simp: settled_by_def split: sum.splits)
    with last pr obtain rv n where pw: "pr = Inr (Write rv n x)"
      using outcomePrepare_Return [of cfg gid matches out v _ v1]
      by (auto simp: groups.last_attempt_def split: sum.splits attempt.splits)
    from outcomePrepare_Write [OF pr [unfolded pw]] r obtain g where g: "readFanoutGroup gid v = Some g" "fg_status g = GOpen"
      "fg_groupId n = fg_groupId g" "or_group x = n" "fg_status n = GSettled" "fg_aggregate n = Some a" by auto
    from inv_group [OF groups.progress_inv [OF pv] g(1)] g r have k: "gid = k" "fg_groupId n = k" by simp_all
    from last pr pw obtain u rw where "compareAndSetFanoutGroup rw n u = (Inr True, w1)"
      by (auto simp: groups.last_attempt_def)
    from fanouts.cas_won [OF this, of k] k g have "settled_in k w1 = Some a" by (simp add: settled_in_def)
    moreover have "settled_in k v = None" using g k by (simp add: settled_in_def)
    then have "settled_in k w = None" using settled_in_progress [OF pv, of k] by (cases "settled_in k w") auto
    ultimately show ?thesis by simp
  qed
  with run p show ?thesis by (auto simp: settles_def)
qed

lemma createFanoutGroup_progress:
  assumes inv: "groups.inv cfg owner w" and wf: "wf_group cfg owner g"
  shows "groups.progress cfg owner w (snd (createFanoutGroup g w))"
proof (cases "readFanoutGroup (fg_groupId g) w = None \<and> find (\<lambda>c. request_key c = request_key g) (readFanoutGroups w) = None")
  case True
  then have "snd (createFanoutGroup g w) = writeFanoutGroup g w" by (simp add: createFanoutGroup_def)
  moreover have "wf_fanouts (writeFanoutGroup g w)"
    using inv by (simp add: groups.inv_def wf_fanouts_def writeFanoutGroup_def keyed_tput)
  ultimately show ?thesis using inv wf True by (auto simp: groups.progress_def groups.inv_def tab_simps)
next
  case False
  then have "snd (createFanoutGroup g w) = w" by (auto simp: createFanoutGroup_def split: option.splits)
  with groups.progress_refl [OF inv] show ?thesis by simp
qed

lemma open_progress:
  assumes "groups.inv cfg owner w" and "og_deviceRefs i \<noteq> []" and "distinct (og_deviceRefs i)"
  shows "groups.progress cfg owner w (snd (openGroup cfg i w))"
proof -
  let ?w = "snd (freshId (snd (now w)))" and ?g = "newGroup cfg i (fst (freshId (snd (now w)))) (fst (now w))"
  have "groups.same_table w ?w" by (simp add: groups.same_table_def tab_simps) (simp add: wf_fanouts_def freshId_def now_def)
  from groups.same_table_progress [OF assms(1) this] have p: "groups.progress cfg owner w ?w" .
  have "wf_group cfg owner ?g"
    using assms(2,3) by (auto simp: newGroup_def wf_group_def wf_member_def terminal_member_def list_all_iff comp_def neq_Nil_conv)
  from groups.progress_trans [OF p createFanoutGroup_progress [OF groups.progress_inv [OF p] this]]
  show ?thesis by (simp add: openGroup_def Let_def split_def)
qed

lemma fanout_op_settles:
  assumes inv: "groups.inv cfg owner w" and okop: "fanout_op_ok cfg owner x"
  shows "\<exists>w1 s. run_fanout_op cfg x w = Some (w1, s) \<and> settles cfg owner w s w1"
proof (cases x)
  case (OpOpen i)
  with okop open_progress [OF inv] show ?thesis by (simp add: settles_def)
next
  case (OpAttach env gid ref k)
  with okop groups.loop [OF attach_prepares inv, of k gid ref env] show ?thesis
    by (auto simp: attachMemberCall_def settles_def)
next
  case (OpStartupFailure env gid ref c m)
  with okop outcome_settles [OF outcome_prepares_ref inv] show ?thesis
    by (fastforce simp: recordStartupFailure_def)
next
  case (OpOutcome env k out)
  show ?thesis
  proof (cases "readGroupByMember k w")
    case None
    with OpOutcome groups.progress_refl [OF inv] show ?thesis by (simp add: recordOutcome_def settles_def)
  next
    case (Some g)
    from outcome_settles [OF outcome_prepares_call inv, of env "fg_groupId g" k out] okop OpOutcome obtain r w1 where
      r: "recordOutcomeInGroup cfg env (fg_groupId g) (\<lambda>m. fm_delegationCallId m = Some k) out w = Some (r, w1)"
      "settles cfg owner w (settled_by r) w1" by auto
    have "(case map_sum id Some r of Inr (Some x) \<Rightarrow> settled_by (Inr x) | _ \<Rightarrow> None) = settled_by r"
      by (cases r) (simp_all add: settled_by_def)
    with r Some OpOutcome show ?thesis by (simp add: recordOutcome_def)
  qed
next
  case (OpDelivered env gid)
  with okop groups.loop [OF delivered_prepares [of cfg owner gid] inv, of env] show ?thesis
    by (auto simp: markDelivered_def settles_def)
qed

lemma fanout_ops_settle:
  assumes "groups.inv cfg owner w" and "\<forall>x \<in> set xs. fanout_op_ok cfg owner x"
  shows "\<exists>w1 ss. run_fanout_ops cfg xs w = Some (w1, ss) \<and> groups.progress cfg owner w w1 \<and> distinct (map fst ss)
    \<and> (\<forall>gid a. (gid, a) \<in> set ss \<longrightarrow> settled_in gid w = None \<and> settled_in gid w1 = Some a)"
  using assms
proof (induction xs arbitrary: w)
  case Nil
  then show ?case by (simp add: groups.progress_refl)
next
  case (Cons x xs)
  from fanout_op_settles [OF Cons(2), of x] Cons(3) obtain w1 s where
    x: "run_fanout_op cfg x w = Some (w1, s)" and st: "settles cfg owner w s w1" by auto
  from st have p: "groups.progress cfg owner w w1" by (simp add: settles_def)
  from Cons(1) [OF groups.progress_inv [OF p]] Cons(3) obtain w2 ss where
    xs: "run_fanout_ops cfg xs w1 = Some (w2, ss)" and p2: "groups.progress cfg owner w1 w2" and d: "distinct (map fst ss)"
    and ss: "\<And>gid a. (gid, a) \<in> set ss \<Longrightarrow> settled_in gid w1 = None \<and> settled_in gid w2 = Some a" by auto
  have old: "settled_in gid w = None" if "(gid, a) \<in> set ss" for gid a
    using ss [OF that] settled_in_progress [OF p, of gid] by (cases "settled_in gid w") auto
  show ?case
  proof (cases s)
    case None
    with x xs d ss old groups.progress_trans [OF p p2] show ?thesis by auto
  next
    case (Some q)
    obtain gid a where q: "q = (gid, a)" by (cases q)
    from st Some q have "settled_in gid w = None" "settled_in gid w1 = Some a" by (auto simp: settles_def)
    moreover from this ss have "gid \<notin> fst ` set ss" by force
    moreover have "settled_in gid w2 = Some a" by (rule settled_in_progress [OF p2]) fact
    ultimately show ?thesis using x xs d ss old groups.progress_trans [OF p p2] Some q by auto
  qed
qed

subsection \<open>Every outcome reported settles the group\<close>

text \<open>The group's member for a device has an outcome.\<close>

definition reported :: "string \<Rightarrow> string \<Rightarrow> world \<Rightarrow> bool" where
  "reported gid ref w = (\<exists>g m. readFanoutGroup gid w = Some g \<and> m \<in> set (fg_members g) \<and> fm_deviceRef m = ref \<and> terminal_member m)"

lemma list_all2_member: "list_all2 P xs ys \<Longrightarrow> x \<in> set xs \<Longrightarrow> \<exists>y \<in> set ys. P x y"
  by (induction rule: list_all2_induct) auto

lemma progress_member:
  assumes "groups.progress cfg owner w w1" and "readFanoutGroup gid w = Some g" and "m \<in> set (fg_members g)"
  shows "\<exists>g1 m1. readFanoutGroup gid w1 = Some g1 \<and> m1 \<in> set (fg_members g1) \<and> member_adv m m1 \<and> fg_tenantId g1 = fg_tenantId g"
proof -
  from groups.progress_read [OF assms(1,2)] obtain g1 where g1: "readFanoutGroup gid w1 = Some g1" "group_adv g g1" by blast
  with list_all2_member [of member_adv "fg_members g" "fg_members g1" m] assms(3) show ?thesis
    by (auto simp: group_adv_def group_identity_def)
qed

lemma reported_progress:
  assumes "groups.progress cfg owner w w1" and "reported gid ref w" shows "reported gid ref w1"
proof -
  from assms(2) obtain g m where g: "readFanoutGroup gid w = Some g" "m \<in> set (fg_members g)" and m: "fm_deviceRef m = ref" "terminal_member m"
    by (auto simp: reported_def)
  from progress_member [OF assms(1) g] obtain g1 m1 where "readFanoutGroup gid w1 = Some g1" "m1 \<in> set (fg_members g1)" "member_adv m m1"
    by blast
  with m show ?thesis by (auto simp: reported_def member_adv_def)
qed

lemma outcome_reported:
  assumes inv: "groups.inv cfg owner w" and g: "readFanoutGroup gid w = Some g" "fg_tenantId g = fc_tenantId cfg"
    and m: "m \<in> set (fg_members g)" "fm_delegationCallId m = Some k" and rely: "groups.rely cfg owner env"
    and run: "recordOutcome cfg env k out w = Some (r, w1)"
  shows "reported gid (fm_deviceRef m) w1"
proof -
  let ?P = "\<lambda>m. fm_delegationCallId m = Some k"
  note wf = inv_group [OF inv g(1)]
  have "g \<in> set (readFanoutGroups w)" using g(1) by (rule readFanoutGroupsI)
  moreover have "h = g" if "h \<in> set (readFanoutGroups w)" "list_ex ?P (fg_members h)" for h
  proof -
    from that(1) inv have h: "readFanoutGroup (fg_groupId h) w = Some h" by (simp add: groups.inv_def readFanoutGroups_iff)
    from that(2) obtain c where "c \<in> set (fg_members h)" "?P c" by (auto simp: list_ex_iff)
    with inv_group [OF inv h] wf_group_member [of cfg owner h c] have "owner k = (fg_groupId h, fm_deviceRef c)"
      by (simp add: wf_member_def)
    with wf wf_group_member [of cfg owner g m] m have "fg_groupId h = gid" by (auto simp: wf_member_def)
    with h g(1) show ?thesis by simp
  qed
  moreover have "list_ex ?P (fg_members g)" using m unfolding list_ex_iff by blast
  ultimately have "readGroupByMember k w = Some g"
    unfolding readGroupByMember_def by (intro find_SomeI)
  with run wf obtain r1 where run1: "recordOutcomeInGroup cfg env gid ?P out w = Some (r1, w1)"
    by (auto simp: recordOutcome_def)
  from groups.loop [OF outcome_prepares_call inv rely, of gid k out] run1 obtain v where
    pv: "groups.progress cfg owner w v" and last: "groups.last_attempt cfg owner (outcomePrepare cfg gid ?P out) v r1 w1"
    and pw: "groups.progress cfg owner w w1"
    unfolding recordOutcomeInGroup_def by auto
  from progress_member [OF pv g(1) m(1)] obtain g1 m1 where g1: "readFanoutGroup gid v = Some g1" "m1 \<in> set (fg_members g1)"
    "member_adv m m1" "fg_tenantId g1 = fc_tenantId cfg" using g(2) by auto
  note wf1 = inv_group [OF groups.progress_inv [OF pv] g1(1)]
  have m1: "?P m1" "fm_deviceRef m1 = fm_deviceRef m" using g1(3) m(2) by (auto simp: member_adv_def)
  have find: "find ?P (fg_members g1) = Some m1"
  proof (rule find_SomeI)
    fix y assume "y \<in> set (fg_members g1)" "?P y"
    with wf1 g1(2) m1(1) show "y = m1" by (blast intro: wf_call_unique)
  qed (use g1(2) m1(1) in simp_all)
  have req: "requireGroup cfg gid v = (Inr g1, v)" using g1 by (simp add: requireGroup_def)
  show ?thesis
  proof (cases "terminal_member m1")
    case True
    have "readFanoutGroup gid w1 = Some g1"
    proof -
      from True find req have "outcomePrepare cfg gid ?P out v = (Inr (Return \<lparr>or_group = g1, or_settledAggregate = None\<rparr>), v)
        \<or> outcomePrepare cfg gid ?P out v = (Inr (Return \<lparr>or_group = g1, or_settledAggregate = None\<rparr>), snd (now v))"
        by (auto simp: outcomePrepare_def andThen_def Let_def split_def)
      with last g1(1) show ?thesis by (auto simp: groups.last_attempt_def tab_simps)
    qed
    with g1(2) m1(2) True show ?thesis unfolding reported_def by blast
  next
    case False
    then have st: "fm_status m1 = MStarting \<or> fm_status m1 = MPending" by (cases "fm_status m1") (simp_all add: terminal_member_def)
    have open1: "fg_status g1 = GOpen" using wf_open [OF _ g1(2) False] wf1 by blast
    from req find st open1 False obtain rv n x v1 where pr: "outcomePrepare cfg gid ?P out v = (Inr (Write rv n x), v1)"
      and n: "fg_groupId n = fg_groupId g1" "fg_members n = map (\<lambda>c. if ?P c then applyOutcome out (fst (now v)) c else c) (fg_members g1)"
      by (auto simp: outcomePrepare_def andThen_def Let_def split_def)
    with last obtain u rw where "compareAndSetFanoutGroup rw n u = (Inr True, w1)" by (auto simp: groups.last_attempt_def)
    from fanouts.cas_won [OF this, of gid] n(1) wf1 have "readFanoutGroup gid w1 = Some n" by simp
    moreover have "applyOutcome out (fst (now v)) m1 \<in> set (fg_members n)" using n(2) g1(2) m1(1) by force
    moreover have "terminal_member (applyOutcome out t m1)" "fm_deviceRef (applyOutcome out t m1) = fm_deviceRef m1" for t
      by (cases out; simp add: terminal_member_def)+
    ultimately show ?thesis using m1(2) unfolding reported_def by metis
  qed
qed

lemma outcomes_reported:
  assumes "groups.inv cfg owner w" and "\<forall>x \<in> set xs. fanout_op_ok cfg owner x"
    and "readFanoutGroup gid w = Some g" and "fg_tenantId g = fc_tenantId cfg" and "m \<in> set (fg_members g)"
    and "fm_delegationCallId m = Some k" and "OpOutcome env k out \<in> set xs" and "run_fanout_ops cfg xs w = Some (w1, ss)"
  shows "reported gid (fm_deviceRef m) w1"
  using assms
proof (induction xs arbitrary: w g m ss)
  case (Cons x xs)
  from fanout_op_settles [OF Cons(2), of x] Cons(3) obtain v s where
    x: "run_fanout_op cfg x w = Some (v, s)" and p: "groups.progress cfg owner w v" by (auto simp: settles_def)
  from Cons(9) x obtain ss1 where rest: "run_fanout_ops cfg xs v = Some (w1, ss1)" by (auto split: option.splits)
  from fanout_ops_settle [OF groups.progress_inv [OF p], of xs] Cons(3) rest have p2: "groups.progress cfg owner v w1" by auto
  from progress_member [OF p Cons(4,6)] obtain g1 m1 where g1: "readFanoutGroup gid v = Some g1" "m1 \<in> set (fg_members g1)"
    "member_adv m m1" "fg_tenantId g1 = fg_tenantId g" by blast
  show ?case
  proof (cases "x = OpOutcome env k out")
    case True
    with x obtain r where "recordOutcome cfg env k out w = Some (r, v)" by auto
    from outcome_reported [OF Cons(2,4,5,6,7) _ this] True Cons(3) have "reported gid (fm_deviceRef m) v" by simp
    with reported_progress [OF p2] show ?thesis by blast
  next
    case False
    with Cons(8) have "OpOutcome env k out \<in> set xs" by simp
    with Cons(1) [OF groups.progress_inv [OF p] _ g1(1) _ g1(2) _ _ rest] Cons(3,5,7) g1(3,4) show ?thesis
      by (auto simp: member_adv_def)
  qed
qed simp

subsection \<open>Example\<close>

definition ex_fanout :: fanout_config where
  "ex_fanout = \<lparr>fc_tenantId = ''t1'', fc_reparse = (\<lambda>s. if s = ''7'' then Some ''7'' else None)\<rparr>"

definition ex_pending :: "string \<Rightarrow> string \<Rightarrow> fanout_member" where
  "ex_pending dev k = (ex_member dev)\<lparr>fm_delegationCallId := Some k, fm_status := MPending\<rparr>"

definition pending_group :: fanout_group where
  "pending_group = ex_group\<lparr>fg_members := [ex_pending ''x'' ''k1'', ex_pending ''y'' ''k2'']\<rparr>"

definition pending_world :: world where
  "pending_world = writeFanoutGroup pending_group empty_world"

definition ex_owners :: owners where
  "ex_owners k = (''g1'', if k = ''k1'' then ''x'' else ''y'')"

lemma pending_world_read: "readFanoutGroup ''g1'' pending_world = Some pending_group"
  "readFanoutGroup k pending_world = (if k = ''g1'' then Some pending_group else None)"
  by (simp_all add: pending_world_def tab_simps pending_group_def ex_group_def)
     (simp add: readFanoutGroup_def empty_world_def)

lemma inv_pending: "groups.inv ex_fanout ex_owners pending_world"
proof -
  have "wf_group ex_fanout ex_owners pending_group"
    by (simp add: wf_group_def wf_member_def pending_group_def ex_pending_def ex_member_def ex_group_def ex_owners_def terminal_member_def)
  moreover have "wf_fanouts pending_world"
    by (simp add: pending_world_def wf_fanouts_def writeFanoutGroup_def empty_world_def keyed_tput)
  ultimately show ?thesis by (simp add: groups.inv_def pending_world_read)
qed

definition ex_outcomes :: "fanout_op list" where
  "ex_outcomes = [OpOutcome [\<lambda>w. snd (now w)] ''k2'' (OutFailed ''lost'' ''gone''), OpOutcome [] ''k1'' (OutCompleted ''7''),
     OpOutcome [] ''k1'' (OutCompleted ''8''), OpDelivered [] ''g1'']"

lemma rely_now: "groups.rely cfg owner [\<lambda>w. snd (now w)]"
  using groups.same_table_progress same_groups_now(1) by simp

lemma ex_outcomes_ok: "\<forall>x \<in> set ex_outcomes. fanout_op_ok ex_fanout ex_owners x"
  using rely_now by (simp add: ex_outcomes_def)

subsection \<open>Properties\<close>

text \<open>
  C8: a fan-out is answered once. From well-formed groups, run any operations in any order, each
  disturbed between its reads and writes by anything that is itself progress: every operation returns;
  every group is still there with its request, its devices and every outcome it had; and a group's
  settlement is reported by at most one of the operations, with the aggregate that is stored from then on.
\<close>

lemma fanout_answers_once:
  assumes "groups.inv cfg owner w" and "\<forall>x \<in> set ops. fanout_op_ok cfg owner x"
  shows "\<exists>w1 reports. run_fanout_ops cfg ops w = Some (w1, reports)
    \<and> (\<forall>gid g. readFanoutGroup gid w = Some g \<longrightarrow> (\<exists>g1. readFanoutGroup gid w1 = Some g1 \<and> group_adv g g1 \<and> wf_group cfg owner g1))
    \<and> distinct (map fst reports)
    \<and> (\<forall>gid a. (gid, a) \<in> set reports \<longrightarrow> settled_in gid w = None \<and> settled_in gid w1 = Some a)"
  using fanout_ops_settle [OF assms] groups.progress_read by blast

lemma fanout_answers_once_witness:
  "\<exists>w1 reports. run_fanout_ops ex_fanout ex_outcomes pending_world = Some (w1, reports) \<and> length reports = 1 \<and> distinct (map fst reports)"
proof -
  have "case run_fanout_ops ex_fanout ex_outcomes pending_world of None \<Rightarrow> False | Some (w1, reports) \<Rightarrow> length reports = 1"
    by code_simp
  with fanout_answers_once [OF inv_pending ex_outcomes_ok] show ?thesis by auto
qed

text \<open>
  C23: a fan-out is answered. If every device of a group has been given its call, and among the operations
  run is one that records an outcome for each of these calls, in any order, with repetitions and
  interference, then the group ends settled, and its aggregate lists every device's final outcome.
\<close>

lemma fanout_is_answered:
  assumes inv: "groups.inv cfg owner w" and ops: "\<forall>x \<in> set ops. fanout_op_ok cfg owner x"
    and g: "readFanoutGroup gid w = Some g" "fg_tenantId g = fc_tenantId cfg"
    and all: "\<forall>m \<in> set (fg_members g). \<exists>k env out. fm_delegationCallId m = Some k \<and> OpOutcome env k out \<in> set ops"
  shows "\<exists>w1 reports g1. run_fanout_ops cfg ops w = Some (w1, reports) \<and> readFanoutGroup gid w1 = Some g1
    \<and> fg_status g1 = GSettled \<and> map fm_deviceRef (fg_members g1) = map fm_deviceRef (fg_members g)
    \<and> fg_aggregate g1 = Some (aggregate (fc_reparse cfg) (fg_members g1))"
proof -
  from fanout_ops_settle [OF inv ops] obtain w1 reports where
    run: "run_fanout_ops cfg ops w = Some (w1, reports)" and p: "groups.progress cfg owner w w1" by blast
  from groups.progress_read [OF p g(1)] obtain g1 where g1: "readFanoutGroup gid w1 = Some g1" "group_adv g g1" "wf_group cfg owner g1"
    by blast
  have refs: "map fm_deviceRef (fg_members g1) = map fm_deviceRef (fg_members g)"
    using g1(2) by (simp add: group_adv_def routing_intent_def)
  have "terminal_member m1" if m1: "m1 \<in> set (fg_members g1)" for m1
  proof -
    from m1 have "fm_deviceRef m1 \<in> set (map fm_deviceRef (fg_members g))" unfolding refs [symmetric] by simp
    then obtain m where m: "m \<in> set (fg_members g)" "fm_deviceRef m1 = fm_deviceRef m" by auto
    with all outcomes_reported [OF inv ops g m(1) _ _ run] have "reported gid (fm_deviceRef m1) w1" by metis
    then obtain m2 where m2: "m2 \<in> set (fg_members g1)" "fm_deviceRef m2 = fm_deviceRef m1" "terminal_member m2"
      using g1(1) by (auto simp: reported_def)
    with wf_ref_unique [OF g1(3) m1 m2(1)] show ?thesis by simp
  qed
  with g1(3) have "fg_status g1 = GSettled" by (simp add: wf_group_def list_all_iff)
  with g1 refs run show ?thesis by (auto simp: wf_group_def)
qed

lemma fanout_is_answered_witness:
  "\<exists>w1 reports g1. run_fanout_ops ex_fanout ex_outcomes pending_world = Some (w1, reports)
     \<and> readFanoutGroup ''g1'' w1 = Some g1 \<and> fg_status g1 = GSettled"
proof -
  have "\<forall>m \<in> set (fg_members pending_group). \<exists>k env out. fm_delegationCallId m = Some k \<and> OpOutcome env k out \<in> set ex_outcomes"
    by (auto simp: pending_group_def ex_pending_def ex_outcomes_def)
  with fanout_is_answered [OF inv_pending ex_outcomes_ok pending_world_read(1)] show ?thesis
    by (fastforce simp: pending_group_def ex_group_def ex_fanout_def)
qed

end
