(* ===== verification/Interactions.thy ===== *)
theory Interactions
  imports Managed SessionLogs Sessions
begin

text \<open>
  \<^verbatim>\<open>managers/interaction/interaction-manager.ts\<close>: a question of a running agent (an approval or a
  tool call), the views it is shown in (the session that asked and, for a delegated session, its parent), its one
  answer, and the delivery of the answer to the worker. Other tasks run between the read and the write of every
  update of a record: an operation with one update takes their effect as \<open>tasks\<close>, one with several as a function
  that gives the \<open>tasks\<close> of its \<open>n\<close>-th update. The events of a view are appended one operation at a time
  (\<^verbatim>\<open>sessionProjectionTails\<close>).
\<close>

subsection \<open>Update of a record\<close>

definition mutatePrepare ::
  "string \<Rightarrow> (interaction \<Rightarrow> world \<Rightarrow> interaction option \<times> world) \<Rightarrow> (interaction, interaction) attempt wop" where
  "mutatePrepare iid mutate w =
     (case readInteraction iid w of
        None \<Rightarrow> throw (InteractionNotFound iid) w
      | Some current \<Rightarrow>
          (case mutate current w of
             (None, w1) \<Rightarrow> ok (Return current) w1
           | (Some next, w1) \<Rightarrow> ok (Write (itx_revision current) next next) w1))"

definition updateInteraction ::
  "tasks \<Rightarrow> string \<Rightarrow> (interaction \<Rightarrow> world \<Rightarrow> interaction option \<times> world) \<Rightarrow> interaction async" where
  "updateInteraction env iid mutate = cas_loop env (mutatePrepare iid mutate) compareAndSetInteraction"

text \<open>\<open>f\<close> on every view in order, with the UUIDs it draws.\<close>

fun mapViews :: "(interaction_view \<Rightarrow> world \<Rightarrow> interaction_view \<times> world) \<Rightarrow> interaction_view list \<Rightarrow> world
    \<Rightarrow> interaction_view list \<times> world" where
  "mapViews f [] w = ([], w)"
| "mapViews f (v # vs) w = (let (v1, w1) = f v w; (vs1, w2) = mapViews f vs w1 in (v1 # vs1, w2))"

definition respondedView :: "interaction_view \<Rightarrow> world \<Rightarrow> interaction_view \<times> world" where
  "respondedView v w =
     (let (i, w1) = idOr (iv_respondedEventId v) w
      in (v\<lparr>iv_respondedEventId := Some i, iv_respondedProjected := False\<rparr>, w1))"

definition interruptedView :: "interaction_view \<Rightarrow> world \<Rightarrow> interaction_view \<times> world" where
  "interruptedView v w =
     (let (i, w1) = idOr (iv_interruptedEventId v) w
      in (v\<lparr>iv_interruptedEventId := Some i, iv_interruptedProjected := False\<rparr>, w1))"

definition interruptMutate :: "interruption_reason \<Rightarrow> interaction \<Rightarrow> world \<Rightarrow> interaction option \<times> world" where
  "interruptMutate reason current w =
     (if itx_state current \<noteq> IOpen then (None, w)
      else
        (let (t, w1) = now w; (vs, w2) = mapViews interruptedView (itx_views current) w1; (t2, w3) = now w2
         in (Some (current\<lparr>itx_state := IInterrupted, itx_interruption := Some (reason, t), itx_delivery := Abandoned,
                           itx_commandEventId := None, itx_views := vs, itx_revision := itx_revision current + 1,
                           itx_updatedAt := t2\<rparr>), w3)))"

definition interrupt :: "tasks \<Rightarrow> string \<Rightarrow> interruption_reason \<Rightarrow> interaction async" where
  "interrupt env iid reason = updateInteraction env iid (interruptMutate reason)"

definition abandonMutate :: "interaction \<Rightarrow> world \<Rightarrow> interaction option \<times> world" where
  "abandonMutate current w =
     (if itx_delivery current \<noteq> DeliveryPending then (None, w)
      else (let (t, w1) = now w
            in (Some (current\<lparr>itx_delivery := Abandoned, itx_revision := itx_revision current + 1, itx_updatedAt := t\<rparr>), w1)))"

datatype projection = PRequested | PResponded | PInterrupted

definition projectedView :: "string \<Rightarrow> projection \<Rightarrow> interaction_view \<Rightarrow> interaction_view" where
  "projectedView sid p v =
     (if iv_sessionId v = sid
      then v\<lparr>iv_requestedProjected := (p = PRequested \<or> iv_requestedProjected v),
             iv_respondedProjected := (p = PResponded \<or> iv_respondedProjected v),
             iv_interruptedProjected := (p = PInterrupted \<or> iv_interruptedProjected v)\<rparr>
      else v)"

definition markMutate :: "string \<Rightarrow> projection \<Rightarrow> interaction \<Rightarrow> world \<Rightarrow> interaction option \<times> world" where
  "markMutate sid p current w =
     (let (t, w1) = now w
      in (Some (current\<lparr>itx_views := map (projectedView sid p) (itx_views current),
                        itx_revision := itx_revision current + 1, itx_updatedAt := t\<rparr>), w1))"

definition markViewProjected :: "tasks \<Rightarrow> string \<Rightarrow> string \<Rightarrow> projection \<Rightarrow> interaction async" where
  "markViewProjected env iid sid p = updateInteraction env iid (markMutate sid p)"

subsection \<open>Events of a view\<close>

definition requireSession :: "string \<Rightarrow> session wop" where
  "requireSession sid w = (case readSession sid w of None \<Rightarrow> throw (SessionNotFound sid) w | Some s \<Rightarrow> ok s w)"

definition moveCursor :: "session \<Rightarrow> runtime_event \<Rightarrow> world \<Rightarrow> world" where
  "moveCursor s e w = (if ses_eventCursor s < ev_sequence e then snd (advanceEventCursor s (ev_sequence e) w) else w)"

definition appendViewEvent :: "interaction_view \<Rightarrow> string \<Rightarrow> event_type \<Rightarrow> payload \<Rightarrow> unit wop" where
  "appendViewEvent v eventId ty pl w =
     (let existing = find (\<lambda>e. ev_eventId e = eventId) (readEvents (iv_sessionId v) 0 w)
      in andThen (requireSession (iv_sessionId v)) (\<lambda>s.
           andThen (case existing of
                Some e \<Rightarrow> ok e
              | None \<Rightarrow> logAppend (Some eventId) ((draft ty CentralActor pl (ses_eventCursor s + 1) (Some (iv_sessionId v)))
                          \<lparr>ev_turnSeq := Some (iv_turnSeq v)\<rparr>))
             (\<lambda>e w1. ok () (publish (SessionEvents (iv_sessionId v)) e (moveCursor s e w1)))) w)"

fun kind_text :: "interaction_kind \<Rightarrow> string" where
  "kind_text Approval = ''approval''"
| "kind_text ToolCall = ''tool_call''"

fun reason_text :: "interruption_reason \<Rightarrow> string" where
  "reason_text OwnerLeaseLost = ''owner_lease_lost''"
| "reason_text OwnerTurnFailed = ''owner_turn_failed''"
| "reason_text OwnerSessionTerminal = ''owner_session_terminal''"

definition source_json :: "string \<times> string \<Rightarrow> json" where
  "source_json src = JObj [(''kind'', JStr ''delegated_session''), (''ownerSessionId'', JStr (fst src)),
     (''agentSpecId'', JStr (snd src))]"

definition projectRequested :: "interaction \<Rightarrow> interaction_view \<Rightarrow> unit wop" where
  "projectRequested i v =
     appendViewEvent v (iv_requestedEventId v) InteractionRequested (JsonPayload (jobj
       [(''interactionId'', Some (JStr (itx_interactionId i))), (''kind'', Some (JStr (kind_text (itx_kind i)))),
        (''request'', itx_request i), (''source'', map_option source_json (iv_source v))]))"

definition projectResponded :: "interaction \<Rightarrow> interaction_view \<Rightarrow> unit wop" where
  "projectResponded i v =
     (if itx_resolution i = None \<or> \<not> truthy (iv_respondedEventId v) then throw (MissingProjection (itx_interactionId i))
      else appendViewEvent v (the (iv_respondedEventId v)) InteractionResponded (JsonPayload (jobj
       [(''interactionId'', Some (JStr (itx_interactionId i))), (''kind'', Some (JStr (kind_text (itx_kind i)))),
        (''response'', Some (rs_response (the (itx_resolution i))))])))"

definition projectInterrupted :: "interaction \<Rightarrow> interaction_view \<Rightarrow> unit wop" where
  "projectInterrupted i v =
     (if itx_interruption i = None \<or> \<not> truthy (iv_interruptedEventId v) then throw (MissingProjection (itx_interactionId i))
      else appendViewEvent v (the (iv_interruptedEventId v)) InteractionInterrupted (JsonPayload (jobj
       [(''interactionId'', Some (JStr (itx_interactionId i))), (''kind'', Some (JStr (kind_text (itx_kind i)))),
        (''reason'', Some (JStr (reason_text (fst (the (itx_interruption i))))))])))"

subsection \<open>Delivery and the lease\<close>

definition reconcileLease :: "tasks \<Rightarrow> interaction \<Rightarrow> interaction async" where
  "reconcileLease env i w =
     (let owner = readSession (itx_ownerSessionId i) w
      in if (owner \<noteq> None \<and> ses_sessionLeaseId (the owner) = Some (itx_requestLeaseId i))
            \<or> itx_delivery i = DeliveryAccepted \<or> itx_delivery i = Abandoned
         then Some (Inr i, w)
         else if itx_state i = IOpen then interrupt env (itx_interactionId i) OwnerLeaseLost w
         else if itx_state i = IResolved \<and> itx_delivery i = DeliveryPending
         then updateInteraction env (itx_interactionId i) abandonMutate w
         else Some (Inr i, w))"

definition response_command :: "interaction \<Rightarrow> session \<Rightarrow> time \<Rightarrow> runtime_event" where
  "response_command i owner t =
     (let wid = the (ses_currentWorkerId owner)
      in \<lparr>ev_eventId = the (itx_commandEventId i), ev_sessionId = Some (ses_sessionId owner), ev_workerId = Some wid,
          ev_ackId = None, ev_turnSeq = Some (itx_ownerTurnSeq i), ev_sequence = ses_eventCursor owner,
          ev_type = SessionInteractionResponse, ev_timestamp = t, ev_actor = CentralActor,
          ev_sessionLeaseId = Some (itx_requestLeaseId i),
          ev_payload = JsonPayload (JObj [(''sessionId'', JStr (ses_sessionId owner)), (''workerId'', JStr wid),
            (''sessionLeaseId'', JStr (itx_requestLeaseId i)), (''interactionId'', JStr (itx_interactionId i)),
            (''adapterRequestId'', JStr (itx_adapterRequestId i)), (''kind'', JStr (kind_text (itx_kind i))),
            (''response'', rs_response (the (itx_resolution i)))])\<rparr>)"

definition deliver :: "tasks \<Rightarrow> interaction \<Rightarrow> unit async" where
  "deliver env i w =
     (if itx_delivery i \<noteq> DeliveryPending \<or> \<not> truthy (itx_commandEventId i) \<or> itx_resolution i = None then Some (Inr (), w)
      else awaiting (sync (requireSession (itx_ownerSessionId i))) (\<lambda>owner.
        if \<not> truthy (ses_currentWorkerId owner) \<or> ses_sessionLeaseId owner \<noteq> Some (itx_requestLeaseId i)
        then awaiting (reconcileLease env i) (\<lambda>_ w1. Some (Inr (), w1))
        else (\<lambda>w1. let (t, w2) = now w1
                   in Some (Inr (), publish (WorkerCommands (the (ses_currentWorkerId owner))) (response_command i owner t) w2))) w)"

subsection \<open>Reconciliation\<close>

text \<open>Projects the views of a list one by one, marking each; returns the record as last written.\<close>

fun projectViews ::
  "(nat \<Rightarrow> tasks) \<Rightarrow> (interaction \<Rightarrow> interaction_view \<Rightarrow> unit wop) \<Rightarrow> projection \<Rightarrow> interaction_view list \<Rightarrow> interaction
    \<Rightarrow> interaction async" where
  "projectViews env project p [] i w = Some (Inr i, w)"
| "projectViews env project p (v # vs) i w =
     awaiting (sync (project i v)) (\<lambda>_.
       awaiting (markViewProjected (env 0) (itx_interactionId i) (iv_sessionId v) p)
         (projectViews (\<lambda>n. env (Suc n)) project p vs)) w"

definition skip :: "nat \<Rightarrow> (nat \<Rightarrow> tasks) \<Rightarrow> nat \<Rightarrow> tasks" where
  "skip n env k = env (n + k)"

definition reconcileInteractionOnce :: "(nat \<Rightarrow> tasks) \<Rightarrow> string \<Rightarrow> unit async" where
  "reconcileInteractionOnce env iid w =
     (case readInteraction iid w of
        None \<Rightarrow> Some (Inr (), w)
      | Some i0 \<Rightarrow>
          awaiting (reconcileLease (env 0) i0) (\<lambda>i1.
            let asked = filter (\<lambda>v. \<not> iv_requestedProjected v) (itx_views i1); n = 1 + length asked in
            awaiting (projectViews (skip 1 env) projectRequested PRequested asked i1) (\<lambda>i2.
              if itx_state i2 = IResolved then
                (let answered = filter (\<lambda>v. \<not> iv_respondedProjected v) (itx_views i2) in
                 awaiting (projectViews (skip n env) projectResponded PResponded answered i2)
                   (deliver (env (n + length answered))))
              else if itx_state i2 = IInterrupted then
                awaiting (projectViews (skip n env) projectInterrupted PInterrupted
                            (filter (\<lambda>v. \<not> iv_interruptedProjected v) (itx_views i2)) i2) (\<lambda>_ w1. Some (Inr (), w1))
              else (\<lambda>w1. Some (Inr (), w1)))) w)"

definition tryReconcile :: "(nat \<Rightarrow> tasks) \<Rightarrow> string \<Rightarrow> unit async" where
  "tryReconcile env iid = attempted (reconcileInteractionOnce env iid)"

text \<open>\<open>reconcile\<close> goes through the interactions one by one and stops at the first that fails.\<close>

fun reconcileEach :: "(nat \<Rightarrow> nat \<Rightarrow> tasks) \<Rightarrow> interaction list \<Rightarrow> unit async" where
  "reconcileEach env [] w = Some (Inr (), w)"
| "reconcileEach env (i # is) w =
     awaiting (reconcileInteractionOnce (env 0) (itx_interactionId i)) (\<lambda>_. reconcileEach (\<lambda>n. env (Suc n)) is) w"

definition reconcileInteractions :: "(nat \<Rightarrow> nat \<Rightarrow> tasks) \<Rightarrow> unit async" where
  "reconcileInteractions env w = reconcileEach env (readInteractions w) w"

subsection \<open>Admission\<close>

record agent_request =
  ar_adapterRequestId :: string
  ar_kind :: interaction_kind
  ar_request :: "json option"

definition newView :: "string \<Rightarrow> int \<Rightarrow> view_role \<Rightarrow> world \<Rightarrow> interaction_view \<times> world" where
  "newView sid turnSeq role w =
     (let (i, w1) = freshId w
      in (\<lparr>iv_sessionId = sid, iv_turnSeq = turnSeq, iv_role = role, iv_source = None, iv_requestedEventId = i,
           iv_requestedProjected = False, iv_respondedEventId = None, iv_respondedProjected = False,
           iv_interruptedEventId = None, iv_interruptedProjected = False\<rparr>, w1))"

definition active_call :: "delegation \<Rightarrow> delegation_call option" where
  "active_call d = find (\<lambda>c. Some (dc_delegationCallId c) = dg_activeCallId d) (dg_calls d)"

definition buildViews :: "session \<Rightarrow> int \<Rightarrow> interaction_view list wop" where
  "buildViews owner turnSeq w =
     (let (v, w1) = newView (ses_sessionId owner) turnSeq OwnerView w
      in case ses_delegationBinding owner of
           None \<Rightarrow> ok [v] w1
         | Some b \<Rightarrow>
             (case readDelegation (db_delegationId b) w1 of
                None \<Rightarrow> throw (NoCallForTurn (ses_sessionId owner) turnSeq) w1
              | Some d \<Rightarrow>
                  (case active_call d of
                     None \<Rightarrow> throw (NoCallForTurn (ses_sessionId owner) turnSeq) w1
                   | Some c \<Rightarrow>
                       if dg_childSessionId d \<noteq> ses_sessionId owner
                          \<or> map_option dp_childTurnSeq (dc_dispatch c) \<noteq> Some turnSeq
                       then throw (NoCallForTurn (ses_sessionId owner) turnSeq) w1
                       else andThen (requireSession (dg_parentSessionId d)) (\<lambda>parent.
                         if ses_owner parent \<noteq> ses_owner owner
                         then throw (OwnerMismatch (ses_sessionId owner) (ses_sessionId parent))
                         else (\<lambda>w2. let (pv, w3) = newView (ses_sessionId parent) (dc_callerTurnSeq c) ParentProjection w2
                                    in ok [v, pv\<lparr>iv_source := Some (ses_sessionId owner,
                                            as_agentSpecId (ses_resolvedAgentSpec owner))\<rparr>] w3)) w1)))"

definition same_request :: "interaction \<Rightarrow> interaction \<Rightarrow> bool" where
  "same_request actual candidate =
     (itx_ownerSessionId actual = itx_ownerSessionId candidate \<and> itx_requestLeaseId actual = itx_requestLeaseId candidate
      \<and> itx_adapterRequestId actual = itx_adapterRequestId candidate \<and> itx_ownerTurnSeq actual = itx_ownerTurnSeq candidate
      \<and> itx_kind actual = itx_kind candidate \<and> itx_request actual = itx_request candidate)"

definition requireEventSession :: "runtime_event \<Rightarrow> session wop" where
  "requireEventSession e =
     (if \<not> truthy (ev_sessionId e) then throw (InvalidEvent (ev_type e)) else requireSession (the (ev_sessionId e)))"

definition assertEventLease :: "session \<Rightarrow> runtime_event \<Rightarrow> unit wop" where
  "assertEventLease s e =
     (if \<not> truthy (ev_sessionLeaseId e) then throw (InvalidEvent (ev_type e))
      else assertCurrentLease s (the (ev_sessionLeaseId e)))"

definition newInteraction :: "string \<Rightarrow> session \<Rightarrow> int \<Rightarrow> agent_request \<Rightarrow> time \<Rightarrow> interaction wop" where
  "newInteraction tenantId owner turnSeq req t w =
     (let (iid, w1) = freshId w
      in andThen (buildViews owner turnSeq) (\<lambda>vs.
           ok \<lparr>itx_interactionId = iid, itx_tenantId = tenantId, itx_kind = ar_kind req, itx_request = ar_request req,
               itx_ownerSessionId = ses_sessionId owner, itx_ownerTurnSeq = turnSeq,
               itx_adapterRequestId = ar_adapterRequestId req, itx_requestLeaseId = the (ses_sessionLeaseId owner),
               itx_views = vs, itx_state = IOpen, itx_resolution = None, itx_interruption = None,
               itx_delivery = NotReady, itx_commandEventId = None, itx_revision = 1, itx_createdAt = t,
               itx_updatedAt = t\<rparr>) w1)"

text \<open>The part up to the duplicate check: it returns the interaction that is stored.\<close>

definition admitRequest :: "string \<Rightarrow> runtime_event \<Rightarrow> agent_request \<Rightarrow> interaction wop" where
  "admitRequest tenantId e req =
     andThen (requireEventSession e) (\<lambda>owner.
     andThen (assertEventLease owner e) (\<lambda>_.
       (case ev_turnSeq e of
          None \<Rightarrow> throw (InvalidEvent (ev_type e))
        | Some turnSeq \<Rightarrow> (\<lambda>w. let (t, w1) = now w in
            andThen (newInteraction tenantId owner turnSeq req t) (\<lambda>candidate w2.
              (let ((actual, _), w3) = createInteraction candidate w2
               in if same_request actual candidate then ok actual w3
                  else throw (AdapterRequestReused (ar_adapterRequestId req)) w3)) w1))))"

definition admitAgentRequest :: "string \<Rightarrow> (nat \<Rightarrow> tasks) \<Rightarrow> runtime_event \<Rightarrow> agent_request \<Rightarrow> interaction async" where
  "admitAgentRequest tenantId env e req =
     awaiting (sync (admitRequest tenantId e req)) (\<lambda>i.
       awaiting (tryReconcile env (itx_interactionId i)) (\<lambda>_ w.
         Some (Inr (orElse (readInteraction (itx_interactionId i) w) i), w)))"

subsection \<open>Resolution\<close>

record respond_request =
  rq_interactionId :: string
  rq_decision :: "string option"
  rq_scope :: "string option"
  rq_result :: "json option"

datatype resolve_status = NowResolved | AlreadyResolved

definition authorizeResponse :: "interaction \<Rightarrow> string \<Rightarrow> request_context \<Rightarrow> unit wop" where
  "authorizeResponse i addressed ctx =
     (if \<not> list_ex (\<lambda>v. iv_sessionId v = addressed) (itx_views i) then throw (NotVisibleIn (itx_interactionId i) addressed)
      else andThen (requireSession addressed) (\<lambda>a.
        andThen (if addressed = itx_ownerSessionId i then ok a else requireSession (itx_ownerSessionId i)) (\<lambda>owner.
          if ses_owner a \<noteq> rq_principalId ctx \<or> ses_owner owner \<noteq> rq_principalId ctx
          then throw (InteractionNotFound (itx_interactionId i)) else ok ())))"

definition buildResponse :: "interaction \<Rightarrow> respond_request \<Rightarrow> json wop" where
  "buildResponse i req =
     (if itx_kind i = Approval then
        (if rq_decision req \<noteq> Some ''approved'' \<and> rq_decision req \<noteq> Some ''denied'' then throw (DecisionRequired (itx_interactionId i))
         else ok (JObj [(''decision'', JStr (the (rq_decision req))),
                        (''scope'', JStr (if rq_scope req = Some ''session'' then ''session'' else ''once''))]))
      else ok (jobj [(''result'', rq_result req)]))"

definition resolved_record ::
  "interaction \<Rightarrow> json \<Rightarrow> string \<Rightarrow> string \<Rightarrow> time \<Rightarrow> string \<Rightarrow> interaction_view list \<Rightarrow> interaction" where
  "resolved_record i response principalId addressed t cmd vs =
     i\<lparr>itx_state := IResolved,
       itx_resolution := Some \<lparr>rs_response = response, rs_principalId = principalId, rs_viaSessionId = addressed, rs_resolvedAt = t\<rparr>,
       itx_delivery := DeliveryPending, itx_commandEventId := Some cmd, itx_views := vs,
       itx_revision := itx_revision i + 1, itx_updatedAt := t\<rparr>"

definition resolvePrepare ::
  "string \<Rightarrow> request_context \<Rightarrow> string \<Rightarrow> respond_request \<Rightarrow> (interaction, resolve_status) attempt wop" where
  "resolvePrepare tenantId ctx addressed req w =
     (case readInteraction (rq_interactionId req) w of
        None \<Rightarrow> throw (InteractionNotFound (rq_interactionId req)) w
      | Some i \<Rightarrow>
          if itx_tenantId i \<noteq> tenantId then throw (InteractionNotFound (rq_interactionId req)) w
          else andThen (authorizeResponse i addressed ctx) (\<lambda>_.
            if itx_state i = IResolved then ok (Return AlreadyResolved)
            else if itx_state i = IInterrupted then throw (IsInterrupted (itx_interactionId i))
            else (\<lambda>w1. let (t, w2) = now w1 in
              andThen (buildResponse i req) (\<lambda>response w3.
                (let (cmd, w4) = freshId w3; (vs, w5) = mapViews respondedView (itx_views i) w4
                 in ok (Write (itx_revision i) (resolved_record i response (rq_principalId ctx) addressed t cmd vs) NowResolved) w5)) w2)) w)"

definition resolve ::
  "string \<Rightarrow> tasks \<Rightarrow> (nat \<Rightarrow> tasks) \<Rightarrow> request_context \<Rightarrow> string \<Rightarrow> respond_request \<Rightarrow> resolve_status async" where
  "resolve tenantId env renv ctx addressed req =
     awaiting (cas_loop env (resolvePrepare tenantId ctx addressed req) compareAndSetInteraction) (\<lambda>st.
       if st = NowResolved
       then awaiting (tryReconcile renv (rq_interactionId req)) (\<lambda>_ w. Some (Inr st, w))
       else (\<lambda>w. Some (Inr st, w)))"

subsection \<open>Acknowledgement and interruption\<close>

definition acceptMutate :: "string \<Rightarrow> interaction \<Rightarrow> world \<Rightarrow> interaction option \<times> world" where
  "acceptMutate cmd current w =
     (if itx_commandEventId current = Some cmd \<and> itx_delivery current = DeliveryPending
      then (let (t, w1) = now w
            in (Some (current\<lparr>itx_delivery := DeliveryAccepted, itx_revision := itx_revision current + 1, itx_updatedAt := t\<rparr>), w1))
      else (None, w))"

definition acknowledgeDelivery :: "tasks \<Rightarrow> string \<Rightarrow> bool async" where
  "acknowledgeDelivery env cmd w =
     (case find (\<lambda>i. itx_commandEventId i = Some cmd) (readInteractions w) of
        None \<Rightarrow> Some (Inr False, w)
      | Some i \<Rightarrow>
          if itx_delivery i = DeliveryAccepted then Some (Inr True, w)
          else if itx_delivery i \<noteq> DeliveryPending then Some (Inr False, w)
          else awaiting (updateInteraction env (itx_interactionId i) (acceptMutate cmd)) (\<lambda>_ w1. Some (Inr True, w1)) w)"

fun interruptEach :: "(nat \<Rightarrow> tasks) \<Rightarrow> (nat \<Rightarrow> nat \<Rightarrow> tasks) \<Rightarrow> interruption_reason \<Rightarrow> interaction list \<Rightarrow> unit async" where
  "interruptEach env renv reason [] w = Some (Inr (), w)"
| "interruptEach env renv reason (i # is) w =
     awaiting (interrupt (env 0) (itx_interactionId i) reason) (\<lambda>_.
       awaiting (tryReconcile (renv 0) (itx_interactionId i)) (\<lambda>_.
         interruptEach (\<lambda>n. env (Suc n)) (\<lambda>n. renv (Suc n)) reason is)) w"

definition interruptForOwnerSession ::
  "(nat \<Rightarrow> tasks) \<Rightarrow> (nat \<Rightarrow> nat \<Rightarrow> tasks) \<Rightarrow> string \<Rightarrow> interruption_reason \<Rightarrow> unit async" where
  "interruptForOwnerSession env renv sid reason w =
     interruptEach env renv reason (filter (\<lambda>i. itx_ownerSessionId i = sid) (readInteractions w)) w"

end
