(* ===== verification/InteractionInv.thy ===== *)
theory InteractionInv
  imports Interactions SessionProps
begin

text \<open>
  The interaction manager keeps its table: well-formed records that only move forward, through any operation and
  any interference of other tasks that does the same.
\<close>

subsection \<open>Well-formed records and their later states\<close>

definition wf_interaction :: "interaction \<Rightarrow> bool" where
  "wf_interaction i =
     (case itx_state i of
        IOpen \<Rightarrow> itx_resolution i = None \<and> itx_interruption i = None \<and> itx_delivery i = NotReady \<and> itx_commandEventId i = None
      | IResolved \<Rightarrow> itx_resolution i \<noteq> None \<and> itx_interruption i = None \<and> itx_delivery i \<noteq> NotReady \<and> itx_commandEventId i \<noteq> None
                    \<and> list_all (\<lambda>v. iv_respondedEventId v \<noteq> None) (itx_views i)
      | IInterrupted \<Rightarrow> itx_resolution i = None \<and> itx_interruption i \<noteq> None \<and> itx_delivery i = Abandoned \<and> itx_commandEventId i = None
                    \<and> list_all (\<lambda>v. iv_interruptedEventId v \<noteq> None) (itx_views i))"

definition view_identity :: "interaction_view \<Rightarrow> string \<times> int \<times> view_role \<times> (string \<times> string) option \<times> string" where
  "view_identity v = (iv_sessionId v, iv_turnSeq v, iv_role v, iv_source v, iv_requestedEventId v)"

definition view_adv :: "interaction_view \<Rightarrow> interaction_view \<Rightarrow> bool" where
  "view_adv v v1 =
     (view_identity v1 = view_identity v \<and> (iv_requestedProjected v \<longrightarrow> iv_requestedProjected v1)
      \<and> (iv_respondedEventId v \<noteq> None \<longrightarrow> iv_respondedEventId v1 = iv_respondedEventId v)
      \<and> (iv_interruptedEventId v \<noteq> None \<longrightarrow> iv_interruptedEventId v1 = iv_interruptedEventId v))"

fun delivery_adv :: "delivery_state \<Rightarrow> delivery_state \<Rightarrow> bool" where
  "delivery_adv NotReady d1 = True"
| "delivery_adv DeliveryPending d1 = (d1 \<noteq> NotReady)"
| "delivery_adv DeliveryAccepted d1 = (d1 = DeliveryAccepted)"
| "delivery_adv Abandoned d1 = (d1 = Abandoned)"

definition outcome :: "interaction \<Rightarrow> interaction_state \<times> resolution option \<times> (interruption_reason \<times> time) option \<times> string option" where
  "outcome i = (itx_state i, itx_resolution i, itx_interruption i, itx_commandEventId i)"

definition inter_adv :: "interaction \<Rightarrow> interaction \<Rightarrow> bool" where
  "inter_adv i i1 =
     (itx_interactionId i1 = itx_interactionId i \<and> owner_binding i1 = owner_binding i \<and> itx_kind i1 = itx_kind i
      \<and> itx_request i1 = itx_request i \<and> itx_createdAt i1 = itx_createdAt i
      \<and> itx_revision i \<le> itx_revision i1 \<and> (itx_revision i1 = itx_revision i \<longrightarrow> i1 = i)
      \<and> list_all2 view_adv (itx_views i) (itx_views i1)
      \<and> (itx_state i \<noteq> IOpen \<longrightarrow> outcome i1 = outcome i) \<and> delivery_adv (itx_delivery i) (itx_delivery i1))"

lemma view_adv_refl [simp]: "view_adv v v"
  by (simp add: view_adv_def)

lemma view_adv_trans: "view_adv v v1 \<Longrightarrow> view_adv v1 v2 \<Longrightarrow> view_adv v v2"
  by (simp add: view_adv_def)

lemma delivery_adv_refl [simp]: "delivery_adv d d"
  by (cases d) simp_all

lemma delivery_adv_trans: "delivery_adv d d1 \<Longrightarrow> delivery_adv d1 d2 \<Longrightarrow> delivery_adv d d2"
  by (cases d; cases d1; cases d2) simp_all

lemma inter_adv_refl: "inter_adv i i"
  by (simp add: inter_adv_def list_all2_refl)

lemma inter_adv_trans:
  assumes "inter_adv i i1" and "inter_adv i1 i2" shows "inter_adv i i2"
proof -
  have "list_all2 view_adv (itx_views i) (itx_views i2)"
    using assms list_all2_trans [of view_adv view_adv view_adv] view_adv_trans unfolding inter_adv_def by blast
  moreover have "delivery_adv (itx_delivery i) (itx_delivery i2)"
    using assms delivery_adv_trans unfolding inter_adv_def by blast
  moreover have "itx_state i \<noteq> IOpen \<longrightarrow> outcome i2 = outcome i"
    using assms by (auto simp: inter_adv_def outcome_def)
  moreover have "itx_revision i2 = itx_revision i \<longrightarrow> i2 = i"
    using assms by (auto simp: inter_adv_def)
  ultimately show ?thesis using assms by (simp add: inter_adv_def)
qed

lemma inter_adv_same:
  "inter_adv i i1 \<Longrightarrow> itx_interactionId i1 = itx_interactionId i \<and> owner_binding i1 = owner_binding i
    \<and> (itx_revision i1 = itx_revision i \<longrightarrow> i1 = i)"
  by (simp add: inter_adv_def)

interpretation inters: managed_table
  "\<lambda>w k. readInteraction k w" compareAndSetInteraction itx_interactionId itx_revision owner_binding
  wf_interaction inter_adv wf_interactions
  by unfold_locales (use inter_adv_refl inter_adv_trans inter_adv_same wf_interactions_cas readInteraction_id in blast)+

subsection \<open>Parts that leave the table alone\<close>

lemma same_interI: "w_interactions w1 = w_interactions w \<Longrightarrow> inters.same_table w w1"
  unfolding inters.same_table_def by (simp add: readInteraction_def wf_interactions_def)

definition same_inters :: "world \<Rightarrow> world \<Rightarrow> bool" where
  "same_inters w w1 = (w_interactions w1 = w_interactions w)"

lemma inters_writes [tab_simps]:
  "w_interactions (writeSession s w) = w_interactions w"
  "w_interactions (snd (advanceEventCursor s n w)) = w_interactions w"
  by (simp_all add: writeSession_def advanceEventCursor_eq Let_def tab_simps)

lemma inters_requireSession [tab_simps]: "snd (requireSession sid w) = w"
  by (simp add: requireSession_def split: option.splits)

lemma inters_mapViews:
  assumes "\<And>v w. w_interactions (snd (f v w)) = w_interactions w"
  shows "w_interactions (snd (mapViews f vs w)) = w_interactions w"
  using assms by (induction vs arbitrary: w) (simp_all add: Let_def split_def)

lemma inters_views [tab_simps]:
  "w_interactions (snd (respondedView v w)) = w_interactions w"
  "w_interactions (snd (interruptedView v w)) = w_interactions w"
  "w_interactions (snd (mapViews respondedView vs w)) = w_interactions w"
  "w_interactions (snd (mapViews interruptedView vs w)) = w_interactions w"
proof -
  show a: "w_interactions (snd (respondedView v w)) = w_interactions w" for v w
    by (simp add: respondedView_def Let_def split_def tab_simps)
  show b: "w_interactions (snd (interruptedView v w)) = w_interactions w" for v w
    by (simp add: interruptedView_def Let_def split_def tab_simps)
  show "w_interactions (snd (mapViews respondedView vs w)) = w_interactions w"
    "w_interactions (snd (mapViews interruptedView vs w)) = w_interactions w"
    by (rule inters_mapViews, rule a) (rule inters_mapViews, rule b)
qed

lemma inters_ok [simp]: "w_interactions (snd (ok x w)) = w_interactions w" "w_interactions (snd (throw e w)) = w_interactions w"
  by simp_all

lemma inters_appendViewEvent: "w_interactions (snd (appendViewEvent v i ty pl w)) = w_interactions w"
proof -
  have mv: "w_interactions (moveCursor s e u) = w_interactions u" for e s u
    by (simp add: moveCursor_def tab_simps)
  show ?thesis
    unfolding appendViewEvent_def Let_def
    by (rule andThen_same [where g = w_interactions], simp add: tab_simps, rule andThen_same [where g = w_interactions])
       (auto simp: tab_simps mv split: option.splits)
qed

lemma inters_project:
  "w_interactions (snd (projectRequested i v w)) = w_interactions w"
  "w_interactions (snd (projectResponded i v w)) = w_interactions w"
  "w_interactions (snd (projectInterrupted i v w)) = w_interactions w"
  by (simp_all add: projectRequested_def projectResponded_def projectInterrupted_def inters_appendViewEvent)

lemma inters_newView: "w_interactions (snd (newView sid t r w)) = w_interactions w"
  by (simp add: newView_def Let_def split_def tab_simps)

lemma inters_buildViews: "w_interactions (snd (buildViews s t w)) = w_interactions w"
proof -
  obtain v w1 where v: "newView (ses_sessionId s) t OwnerView w = (v, w1)" by (cases "newView (ses_sessionId s) t OwnerView w")
  have w1: "w_interactions w1 = w_interactions w" using inters_newView [of "ses_sessionId s" t OwnerView w] v by simp
  have p: "w_interactions (snd (andThen (requireSession sid) f w1)) = w_interactions w1"
    if "\<And>x u. w_interactions (snd (f x u)) = w_interactions u" for sid and f :: "session \<Rightarrow> interaction_view list wop"
    by (rule andThen_same [where g = w_interactions]) (simp_all add: tab_simps that)
  show ?thesis
    unfolding buildViews_def v Let_def split_def fst_conv snd_conv
    by (auto simp: w1 split: option.splits intro!: trans [OF p w1])
       (auto simp: Let_def split_def inters_newView)
qed

subsection \<open>Every update asks for a well-formed later state\<close>

text \<open>What a mutation must satisfy; it may assume that the record it is given is well formed.\<close>

definition good_mutation :: "(interaction \<Rightarrow> world \<Rightarrow> interaction option \<times> world) \<Rightarrow> bool" where
  "good_mutation mutate = (\<forall>i w. w_interactions (snd (mutate i w)) = w_interactions w
     \<and> (\<forall>n. wf_interaction i \<longrightarrow> fst (mutate i w) = Some n \<longrightarrow>
          itx_revision n = itx_revision i + 1 \<and> inter_adv i n \<and> wf_interaction n))"

lemma good_mutation_prepares:
  assumes "good_mutation mutate" shows "inters.prepares (mutatePrepare iid mutate)"
  unfolding inters.prepares_def
proof (intro allI impI)
  fix w a w1 assume inv: "inters.inv w" and a: "mutatePrepare iid mutate w = (a, w1)"
  show "inters.same_table w w1 \<and> (\<forall>rv n x. a = Inr (Write rv n x) \<longrightarrow>
      (\<exists>r. readInteraction (itx_interactionId n) w = Some r \<and> rv = itx_revision r \<and> itx_revision n = rv + 1 \<and> inter_adv r n \<and> wf_interaction n))"
  proof (cases "readInteraction iid w")
    case None
    with a show ?thesis by (auto simp: mutatePrepare_def inters.same_table_refl)
  next
    case (Some i)
    obtain m v where m: "mutate i w = (m, v)" by (cases "mutate i w")
    with assms have same: "inters.same_table w v" by (metis good_mutation_def same_interI snd_conv)
    from inv Some have wf: "wf_interaction i" and id: "itx_interactionId i = iid"
      unfolding inters.inv_def by (blast, blast intro: readInteraction_id)
    show ?thesis
    proof (cases m)
      case None
      with a Some m same show ?thesis by (auto simp: mutatePrepare_def)
    next
      case n: (Some n)
      from m n have "fst (mutate i w) = Some n" by simp
      with assms wf have "itx_revision n = itx_revision i + 1" "inter_adv i n" "wf_interaction n"
        unfolding good_mutation_def by blast+
      moreover from this(2) id have "itx_interactionId n = iid" by (simp add: inter_adv_def)
      ultimately show ?thesis using a Some m n same by (auto simp: mutatePrepare_def)
    qed
  qed
qed

lemma mapViews_all2: "(\<And>v w. P v (fst (f v w))) \<Longrightarrow> list_all2 P vs (fst (mapViews f vs w))"
  by (induction vs arbitrary: w) (simp_all add: Let_def split_def)

lemma respondedView_adv: "view_adv v (fst (respondedView v w)) \<and> iv_respondedEventId (fst (respondedView v w)) \<noteq> None"
  by (cases "iv_respondedEventId v") (simp_all add: respondedView_def Let_def split_def idOr_def view_adv_def view_identity_def)

lemma interruptedView_adv: "view_adv v (fst (interruptedView v w)) \<and> iv_interruptedEventId (fst (interruptedView v w)) \<noteq> None"
  by (cases "iv_interruptedEventId v") (simp_all add: interruptedView_def Let_def split_def idOr_def view_adv_def view_identity_def)

lemma list_all2_and: "list_all2 (\<lambda>x y. P x y \<and> Q y) xs ys \<Longrightarrow> list_all2 P xs ys \<and> list_all Q ys"
  by (induction rule: list_all2_induct) simp_all

lemma responded_views:
  "list_all2 view_adv vs (fst (mapViews respondedView vs w)) \<and> list_all (\<lambda>v. iv_respondedEventId v \<noteq> None) (fst (mapViews respondedView vs w))"
  by (rule list_all2_and [OF mapViews_all2]) (rule respondedView_adv)

lemma interrupted_views:
  "list_all2 view_adv vs (fst (mapViews interruptedView vs w)) \<and> list_all (\<lambda>v. iv_interruptedEventId v \<noteq> None) (fst (mapViews interruptedView vs w))"
  by (rule list_all2_and [OF mapViews_all2]) (rule interruptedView_adv)

lemma interrupt_good: "good_mutation (interruptMutate reason)"
  using interrupted_views
  by (auto simp: good_mutation_def interruptMutate_def Let_def split_def inter_adv_def wf_interaction_def owner_binding_def tab_simps
      split: if_splits)

lemma abandon_good: "good_mutation abandonMutate"
  by (auto simp: good_mutation_def abandonMutate_def Let_def split_def inter_adv_def wf_interaction_def owner_binding_def outcome_def
      list_all2_refl tab_simps split: if_splits interaction_state.splits)

lemma accept_good: "good_mutation (acceptMutate cmd)"
  by (auto simp: good_mutation_def acceptMutate_def Let_def split_def inter_adv_def wf_interaction_def owner_binding_def outcome_def
      list_all2_refl tab_simps split: if_splits interaction_state.splits)

lemma projectedView_adv: "view_adv v (projectedView sid p v) \<and> iv_respondedEventId (projectedView sid p v) = iv_respondedEventId v
    \<and> iv_interruptedEventId (projectedView sid p v) = iv_interruptedEventId v"
  by (simp add: projectedView_def view_adv_def view_identity_def)

lemma mark_good: "good_mutation (markMutate sid p)"
proof -
  have "list_all2 view_adv vs (map (projectedView sid p) vs)" for vs
    using projectedView_adv by (induction vs) simp_all
  then show ?thesis
    by (auto simp: good_mutation_def markMutate_def Let_def split_def inter_adv_def wf_interaction_def owner_binding_def outcome_def
        list_all_iff projectedView_adv tab_simps split: interaction_state.splits)
qed

lemma keeps_update: "good_mutation mutate \<Longrightarrow> inters.rely env \<Longrightarrow> inters.keeps (updateInteraction env iid mutate)"
  unfolding updateInteraction_def by (intro inters.keeps_loop good_mutation_prepares)

subsection \<open>Every operation returns, with progress\<close>

lemma keeps_return: "inters.keeps (\<lambda>w. Some (r, w))"
  by (rule inters.keeps_same) (use inters.same_table_refl in auto)

lemma keeps_ext: "(\<And>w. m w = m1 w) \<Longrightarrow> inters.keeps m1 \<Longrightarrow> inters.keeps m"
  by (simp add: inters.keeps_def)

lemma keeps_interrupt: "inters.rely env \<Longrightarrow> inters.keeps (interrupt env iid reason)"
  unfolding interrupt_def by (rule keeps_update [OF interrupt_good])

lemma keeps_mark: "inters.rely env \<Longrightarrow> inters.keeps (markViewProjected env iid sid p)"
  unfolding markViewProjected_def by (rule keeps_update [OF mark_good])

lemma keeps_reconcileLease:
  assumes "inters.rely env" shows "inters.keeps (reconcileLease env i)"
  unfolding inters.keeps_def
proof (intro allI impI)
  fix w assume w: "inters.inv w"
  from inters.keepsD [OF keeps_interrupt [OF assms, of "itx_interactionId i" OwnerLeaseLost] w]
    inters.keepsD [OF keeps_update [OF abandon_good assms, of "itx_interactionId i"] w] inters.progress_refl [OF w]
  show "\<exists>r w1. reconcileLease env i w = Some (r, w1) \<and> inters.progress w w1"
    by (simp add: reconcileLease_def Let_def)
qed

lemma keeps_project_sync:
  assumes "\<And>i v w. w_interactions (snd (project i v w)) = w_interactions w"
  shows "inters.keeps (sync (project i v))"
  by (rule inters.keeps_sync) (simp add: same_interI assms)

lemma keeps_projectViews:
  assumes "\<And>n. inters.rely (env n)" and "\<And>i v w. w_interactions (snd (project i v w)) = w_interactions w"
  shows "inters.keeps (projectViews env project p vs i)"
  using assms(1)
proof (induction vs arbitrary: env i)
  case Nil
  show ?case by (rule keeps_ext [OF _ keeps_return]) simp
next
  case (Cons v vs)
  have "inters.keeps (awaiting (sync (project i v)) (\<lambda>_. awaiting (markViewProjected (env 0) (itx_interactionId i) (iv_sessionId v) p)
       (projectViews (\<lambda>n. env (Suc n)) project p vs)))"
    by (intro inters.keeps_awaiting keeps_project_sync assms(2) keeps_mark Cons)
  then show ?case by (simp add: inters.keeps_def)
qed

lemma keeps_deliver:
  assumes "inters.rely env" shows "inters.keeps (deliver env i)"
proof -
  have pub: "inters.keeps (\<lambda>w1. let (t, w2) = now w1
      in Some (Inr (), publish ch (response_command i owner t) w2))" for ch owner
    by (rule inters.keeps_same) (auto simp: Let_def split_def intro!: same_interI simp: tab_simps)
  have "inters.keeps (awaiting (sync (requireSession (itx_ownerSessionId i))) (\<lambda>owner.
        if \<not> truthy (ses_currentWorkerId owner) \<or> ses_sessionLeaseId owner \<noteq> Some (itx_requestLeaseId i)
        then awaiting (reconcileLease env i) (\<lambda>_ w1. Some (Inr (), w1))
        else (\<lambda>w1. let (t, w2) = now w1
                   in Some (Inr (), publish (WorkerCommands (the (ses_currentWorkerId owner))) (response_command i owner t) w2))))"
    by (intro inters.keeps_awaiting inters.keeps_if keeps_reconcileLease assms keeps_return pub inters.keeps_sync)
       (simp add: same_interI tab_simps)
  then show ?thesis using inters.progress_refl by (simp add: inters.keeps_def deliver_def)
qed

lemma keeps_reconcileOnce:
  assumes rely: "\<And>n. inters.rely (env n)" shows "inters.keeps (reconcileInteractionOnce env iid)"
proof -
  have s: "inters.rely (skip n env k)" for n k by (simp add: skip_def rely)
  have "inters.keeps (awaiting (reconcileLease (env 0) i0) (\<lambda>i1.
            let asked = filter (\<lambda>v. \<not> iv_requestedProjected v) (itx_views i1); n = 1 + length asked in
            awaiting (projectViews (skip 1 env) projectRequested PRequested asked i1) (\<lambda>i2.
              if itx_state i2 = IResolved then
                (let answered = filter (\<lambda>v. \<not> iv_respondedProjected v) (itx_views i2) in
                 awaiting (projectViews (skip n env) projectResponded PResponded answered i2)
                   (deliver (env (n + length answered))))
              else if itx_state i2 = IInterrupted then
                awaiting (projectViews (skip n env) projectInterrupted PInterrupted
                            (filter (\<lambda>v. \<not> iv_interruptedProjected v) (itx_views i2)) i2) (\<lambda>_ w1. Some (Inr (), w1))
              else (\<lambda>w1. Some (Inr (), w1)))))" for i0
    unfolding Let_def
    by (intro inters.keeps_awaiting inters.keeps_if keeps_reconcileLease keeps_projectViews keeps_deliver keeps_return rely s inters_project)
  then show ?thesis
    unfolding inters.keeps_def reconcileInteractionOnce_def using inters.progress_refl by (auto split: option.splits)
qed

lemma keeps_tryReconcile: "(\<And>n. inters.rely (env n)) \<Longrightarrow> inters.keeps (tryReconcile env iid)"
  unfolding tryReconcile_def by (intro inters.keeps_attempted keeps_reconcileOnce)

lemma keeps_reconcileEach: "(\<And>n k. inters.rely (env n k)) \<Longrightarrow> inters.keeps (reconcileEach env is)"
proof (induction "is" arbitrary: env)
  case (Cons i "is")
  have "inters.keeps (awaiting (reconcileInteractionOnce (env 0) (itx_interactionId i)) (\<lambda>_. reconcileEach (\<lambda>n. env (Suc n)) is))"
    by (intro inters.keeps_awaiting keeps_reconcileOnce Cons)
  then show ?case by (simp add: inters.keeps_def)
qed (rule keeps_ext [OF _ keeps_return], simp)

lemma keeps_reconcileInteractions: "(\<And>n k. inters.rely (env n k)) \<Longrightarrow> inters.keeps (reconcileInteractions env)"
  using keeps_reconcileEach [of env] by (simp add: inters.keeps_def reconcileInteractions_def)

lemma keeps_interruptEach:
  "(\<And>n. inters.rely (env n)) \<Longrightarrow> (\<And>n k. inters.rely (renv n k)) \<Longrightarrow> inters.keeps (interruptEach env renv reason is)"
proof (induction "is" arbitrary: env renv)
  case (Cons i "is")
  have "inters.keeps (awaiting (interrupt (env 0) (itx_interactionId i) reason) (\<lambda>_.
       awaiting (tryReconcile (renv 0) (itx_interactionId i)) (\<lambda>_.
         interruptEach (\<lambda>n. env (Suc n)) (\<lambda>n. renv (Suc n)) reason is)))"
    by (intro inters.keeps_awaiting keeps_interrupt keeps_tryReconcile Cons)
  then show ?case by (simp add: inters.keeps_def)
qed (rule keeps_ext [OF _ keeps_return], simp)

lemma keeps_interruptForOwner:
  "(\<And>n. inters.rely (env n)) \<Longrightarrow> (\<And>n k. inters.rely (renv n k)) \<Longrightarrow> inters.keeps (interruptForOwnerSession env renv sid reason)"
  using keeps_interruptEach [of env renv] by (simp add: inters.keeps_def interruptForOwnerSession_def)

lemma keeps_acknowledge:
  assumes "inters.rely env" shows "inters.keeps (acknowledgeDelivery env cmd)"
proof -
  have "inters.keeps (awaiting (updateInteraction env iid (acceptMutate cmd)) (\<lambda>_ w1. Some (Inr True, w1)))" for iid
    by (intro inters.keeps_awaiting keeps_update accept_good assms keeps_return)
  then show ?thesis using inters.progress_refl
    unfolding inters.keeps_def acknowledgeDelivery_def by (auto split: option.splits)
qed

subsection \<open>Resolution and admission\<close>

lemma snd_authorize: "snd (authorizeResponse i addressed ctx w) = w"
  by (simp add: authorizeResponse_def requireSession_def andThen_def split: option.splits)

lemma snd_buildResponse: "snd (buildResponse i req w) = w"
  by (simp add: buildResponse_def)

text \<open>The attempts of \<open>resolve\<close>: what they return without a write, and the record they ask to write.\<close>

lemma resolvePrepare_cases:
  obtains (error) e where "fst (resolvePrepare tenantId ctx addressed req w) = Inl e"
      "w_interactions (snd (resolvePrepare tenantId ctx addressed req w)) = w_interactions w"
  | (already) i where "readInteraction (rq_interactionId req) w = Some i" "itx_state i = IResolved"
      "resolvePrepare tenantId ctx addressed req w = (Inr (Return AlreadyResolved), w)"
  | (answer) i response t cmd vs v where "readInteraction (rq_interactionId req) w = Some i" "itx_state i = IOpen" "itx_tenantId i = tenantId"
      "fst (authorizeResponse i addressed ctx w) = Inr ()" "fst (buildResponse i req w) = Inr response"
      "list_all2 view_adv (itx_views i) vs" "list_all (\<lambda>v. iv_respondedEventId v \<noteq> None) vs"
      "w_interactions v = w_interactions w"
      "resolvePrepare tenantId ctx addressed req w =
         (Inr (Write (itx_revision i) (resolved_record i response (rq_principalId ctx) addressed t cmd vs) NowResolved), v)"
proof (cases "readInteraction (rq_interactionId req) w")
  case None
  then show thesis using error by (simp add: resolvePrepare_def)
next
  case (Some i)
  show thesis
  proof (cases "itx_tenantId i = tenantId")
    case False
    with Some show thesis using error by (simp add: resolvePrepare_def)
  next
    case tenant: True
    obtain a where a: "authorizeResponse i addressed ctx w = (a, w)"
      using snd_authorize [of i addressed ctx w] by (cases "authorizeResponse i addressed ctx w") simp
    show thesis
    proof (cases a)
      case (Inl e)
      with Some tenant a show thesis using error [of e] by (simp add: resolvePrepare_def andThen_def)
    next
      case (Inr u)
      show thesis
      proof (cases "itx_state i")
        case IResolved
        with Some tenant a Inr show thesis using already by (simp add: resolvePrepare_def andThen_def)
      next
        case IInterrupted
        with Some tenant a Inr show thesis using error by (simp add: resolvePrepare_def andThen_def)
      next
        case IOpen
        define r where "r = fst (buildResponse i req w)"
        have r: "buildResponse i req x = (r, x)" for x
          by (simp add: r_def buildResponse_def)
        show thesis
        proof (cases r)
          case (Inl e)
          with Some tenant a Inr IOpen r show thesis
            using error [of e] by (simp add: resolvePrepare_def andThen_def Let_def split_def tab_simps)
        next
          case (Inr response)
          let ?w4 = "snd (freshId (snd (now w)))"
          let ?p = "mapViews respondedView (itx_views i) ?w4"
          show thesis
          proof (rule answer)
            show "resolvePrepare tenantId ctx addressed req w =
              (Inr (Write (itx_revision i) (resolved_record i response (rq_principalId ctx) addressed (fst (now w)) (fst (freshId (snd (now w))))
                 (fst ?p)) NowResolved), snd ?p)"
              using Some tenant a \<open>a = Inr u\<close> IOpen r Inr
              by (simp add: resolvePrepare_def andThen_def Let_def split_def)
          qed (use Some tenant a \<open>a = Inr u\<close> IOpen r Inr responded_views in \<open>simp_all add: tab_simps\<close>)
        qed
      qed
    qed
  qed
qed

lemma resolved_record_adv:
  assumes "itx_state i = IOpen" and "wf_interaction i" and "list_all2 view_adv (itx_views i) vs"
    and "list_all (\<lambda>v. iv_respondedEventId v \<noteq> None) vs"
  shows "itx_revision (resolved_record i r p a t cmd vs) = itx_revision i + 1 \<and> inter_adv i (resolved_record i r p a t cmd vs)
    \<and> wf_interaction (resolved_record i r p a t cmd vs)"
  using assms by (simp add: resolved_record_def inter_adv_def wf_interaction_def owner_binding_def)

lemma resolve_prepares: "inters.prepares (resolvePrepare tenantId ctx addressed req)"
  unfolding inters.prepares_def
proof (intro allI impI)
  fix w a w1 assume inv: "inters.inv w" and a: "resolvePrepare tenantId ctx addressed req w = (a, w1)"
  show "inters.same_table w w1 \<and> (\<forall>rv n x. a = Inr (Write rv n x) \<longrightarrow>
      (\<exists>r. readInteraction (itx_interactionId n) w = Some r \<and> rv = itx_revision r \<and> itx_revision n = rv + 1 \<and> inter_adv r n \<and> wf_interaction n))"
  proof (cases rule: resolvePrepare_cases [of tenantId ctx addressed req w])
    case (error e)
    with a show ?thesis by (auto intro: same_interI)
  next
    case (already i)
    with a show ?thesis by (auto simp: inters.same_table_refl)
  next
    case (answer i response t cmd vs v)
    from inv answer(1) have wf: "wf_interaction i" and id: "itx_interactionId i = rq_interactionId req"
      unfolding inters.inv_def by (blast, blast intro: readInteraction_id)
    note adv = resolved_record_adv [OF answer(2) wf answer(6,7), of response "rq_principalId ctx" addressed t cmd]
    moreover have "itx_interactionId (resolved_record i response (rq_principalId ctx) addressed t cmd vs) = rq_interactionId req"
      using id by (simp add: resolved_record_def)
    ultimately show ?thesis using a answer by (auto intro: same_interI)
  qed
qed

lemma keeps_resolve:
  assumes "inters.rely env" and "\<And>n. inters.rely (renv n)" shows "inters.keeps (resolve tenantId env renv ctx addressed req)"
  unfolding resolve_def
  by (intro inters.keeps_awaiting inters.keeps_loop resolve_prepares inters.keeps_if keeps_tryReconcile keeps_return assms)

lemma create_progress:
  assumes inv: "inters.inv w" and wf: "wf_interaction i"
  shows "inters.progress w (snd (createInteraction i w))"
proof -
  obtain r b w1 where c: "createInteraction i w = ((r, b), w1)" by (cases "createInteraction i w") auto
  have keyed: "wf_interactions w1" using adapter_requests.wf_create [of w i] inv c by (simp add: inters.inv_def)
  show ?thesis
  proof (cases b)
    case False
    with adapter_requests.create_old [of w i r w1] inv c have "w1 = w" by (simp add: inters.inv_def)
    with c inters.progress_refl [OF inv] show ?thesis by simp
  next
    case True
    have "readInteraction (itx_interactionId i) w = None
      \<and> readInteraction k w1 = (if k = itx_interactionId i then Some i else readInteraction k w)" for k
      using adapter_requests.create_new [of i w r w1 k] c True by simp
    with inv wf keyed c show ?thesis
      unfolding inters.progress_def inters.inv_def using inter_adv_refl by (auto split: if_splits)
  qed
qed

lemma requireEventSession_same: "snd (requireEventSession e w) = w"
  by (simp add: requireEventSession_def inters_requireSession)

lemma assertEventLease_same: "snd (assertEventLease s e w) = w"
  by (simp add: assertEventLease_def assertCurrentLease_def)

lemma newInteraction_out:
  assumes "newInteraction tenantId owner turnSeq req t w = (r, w1)"
  shows "w_interactions w1 = w_interactions w \<and> (\<forall>i. r = Inr i \<longrightarrow> wf_interaction i \<and> itx_tenantId i = tenantId
    \<and> adapter_key i = (ses_sessionId owner, the (ses_sessionLeaseId owner), ar_adapterRequestId req) \<and> itx_state i = IOpen
    \<and> itx_ownerTurnSeq i = turnSeq \<and> itx_kind i = ar_kind req \<and> itx_request i = ar_request req)"
proof -
  obtain i v where i: "freshId w = (i, v)" by (cases "freshId w")
  then have v: "w_interactions v = w_interactions w" using tables_freshId(6) [of w] by simp
  obtain x u where x: "buildViews owner turnSeq v = (x, u)" by (cases "buildViews owner turnSeq v")
  then have u: "w_interactions u = w_interactions w" using inters_buildViews [of owner turnSeq v] v by simp
  show ?thesis using assms i x u
    by (cases x) (auto simp: newInteraction_def andThen_def wf_interaction_def adapter_key_def)
qed

lemma admitRequest_progress: "inters.inv w \<Longrightarrow> inters.progress w (snd (admitRequest tenantId e req w))"
proof -
  assume inv: "inters.inv w"
  obtain a where a: "requireEventSession e w = (a, w)" using requireEventSession_same [of e w] by (cases "requireEventSession e w") simp
  show ?thesis
  proof (cases a)
    case (Inl x)
    with a inters.progress_refl [OF inv] show ?thesis by (simp add: admitRequest_def andThen_def)
  next
    case (Inr owner)
    obtain b where b: "assertEventLease owner e w = (b, w)" using assertEventLease_same [of owner e w] by (cases "assertEventLease owner e w") simp
    show ?thesis
    proof (cases "(\<exists>x. b = Inl x) \<or> ev_turnSeq e = None")
      case True
      with a Inr b inters.progress_refl [OF inv] show ?thesis
        by (cases b) (auto simp: admitRequest_def andThen_def)
    next
      case False
      then obtain u turnSeq where u: "b = Inr u" "ev_turnSeq e = Some turnSeq" by (cases b) auto
      obtain t v where t: "now w = (t, v)" by (cases "now w")
      then have v: "w_interactions v = w_interactions w" using tables_now(6) [of w] by simp
      obtain c z where c: "newInteraction tenantId owner turnSeq req t v = (c, z)" by (cases "newInteraction tenantId owner turnSeq req t v")
      from newInteraction_out [OF c] v have z: "inters.progress w z"
        by (intro inters.same_table_progress [OF inv] same_interI) simp
      show ?thesis
      proof (cases c)
        case (Inl x)
        with a Inr b u t c z show ?thesis by (simp add: admitRequest_def andThen_def)
      next
        case i: (Inr i)
        from newInteraction_out [OF c] i have "wf_interaction i" by simp
        from create_progress [OF inters.progress_inv [OF z] this] z
        have "inters.progress w (snd (createInteraction i z))" by (rule inters.progress_trans [rotated])
        with a Inr b u t c i show ?thesis by (simp add: admitRequest_def andThen_def Let_def split_def)
      qed
    qed
  qed
qed

lemma keeps_admit:
  assumes "\<And>n. inters.rely (env n)" shows "inters.keeps (admitAgentRequest tenantId env e req)"
proof -
  have "inters.keeps (sync (admitRequest tenantId e req))"
    unfolding inters.keeps_def sync_def by (metis admitRequest_progress prod.collapse)
  moreover have "inters.keeps (\<lambda>w. Some (Inr (orElse (readInteraction iid w) i), w))" for iid i
    by (rule inters.keeps_same) (use inters.same_table_refl in auto)
  ultimately show ?thesis
    unfolding admitAgentRequest_def by (intro inters.keeps_awaiting keeps_tryReconcile assms)
qed

end
