(* ===== verification/LogIds.thy ===== *)
theory LogIds
  imports SessionProps
begin

text \<open>
  Logs whose events also carry an id each of their own: what the writers that look an event up by its id before
  they append it (interaction views, reports of agents) keep.
\<close>

definition ids_once :: "world \<Rightarrow> bool" where
  "ids_once w = (\<forall>sid. distinct (map ev_eventId (sessionEvents sid w)) \<and> (\<forall>e \<in> set (sessionEvents sid w). 0 < ev_sequence e)
     \<and> (\<forall>s. readSession sid w = Some s \<longrightarrow> 0 \<le> ses_eventCursor s))"

definition logs_once :: "world \<Rightarrow> bool" where
  "logs_once w = (logs_ok w \<and> ids_once w)"

lemma same_logs_once: "same_logs w w1 \<Longrightarrow> logs_once w1 = logs_once w"
  by (simp add: logs_once_def ids_once_def same_logs_ok same_logs_reads)

text \<open>The log an appended event leaves.\<close>

lemma logAppend_log:
  assumes "logAppend (Some i) d w = (Inr e, w1)" and "ev_sessionId d = Some sid" and "sid \<noteq> []"
  shows "ev_eventId e = i"
    and "sessionEvents x w1 = (if x = sid then sessionEvents sid w @ [e] else sessionEvents x w)"
    and "readSession x w1 = readSession x w"
proof -
  from assms(1) have "e = d\<lparr>ev_eventId := i, ev_timestamp := fst (now w)\<rparr>"
    using assms(2,3) by (simp add: logAppend_def idOr_def appendEvent_def Let_def split_def)
  then show "ev_eventId e = i" by simp
  from logAppend_session [OF assms(2,3), of "Some i" w] obtain e1 w2 where
    "logAppend (Some i) d w = (Inr e1, w2)" "\<And>x. sessionEvents x w2 = (if x = sid then sessionEvents sid w @ [e1] else sessionEvents x w)"
    "\<And>x. readSession x w2 = readSession x w" by metis
  with assms(1) show "sessionEvents x w1 = (if x = sid then sessionEvents sid w @ [e] else sessionEvents x w)"
    "readSession x w1 = readSession x w" by simp_all
qed

lemma logs_once_append:
  assumes once: "logs_once w" and s: "readSession sid w = Some s" and sid: "sid \<noteq> []"
    and app: "logAppend (Some i) d w = (Inr e, w1)" and d: "ev_sessionId d = Some sid" "ev_sequence d = ses_eventCursor s + 1"
    and new: "\<forall>x \<in> set (sessionEvents sid w). ev_eventId x \<noteq> i"
    and n: "ses_sessionId n = sid" "ses_eventCursor n = ev_sequence e" "ses_nextTurnSeq n = ses_nextTurnSeq s"
    and turn: "\<not> turn_event d" and v: "same_logs w1 v"
  shows "logs_once (writeSession n v) \<and> e \<in> set (sessionEvents sid (writeSession n v))
    \<and> sessionEvents sid (writeSession n v) = sessionEvents sid w @ [e] \<and> ev_eventId e = i"
proof -
  have ok: "logs_ok w" and ids: "ids_once w" using once by (simp_all add: logs_once_def)
  note seq = logAppend_fields [OF app, THEN conjunct1]
  have "logs_ok (writeSession n v)"
    by (rule logs_ok_append [OF ok s app d(1)]) (use d(2) n turn v seq in simp_all)
  moreover have ev: "sessionEvents x (writeSession n v) = (if x = sid then sessionEvents sid w @ [e] else sessionEvents x w)"
    "readSession x (writeSession n v) = (if x = sid then Some n else readSession x w)" for x
    using logAppend_log(2,3) [OF app d(1) sid, of x] same_logs_reads [OF v, of x] n(1) by (simp_all add: log_reads_writeSession)
  moreover have "0 \<le> ses_eventCursor s" using ids s by (simp add: ids_once_def)
  with ids have "ids_once (writeSession n v)"
    using new seq d(2) n(2) logAppend_log(1) [OF app d(1) sid] by (auto simp: ids_once_def ev)
  ultimately show ?thesis using logAppend_log(1) [OF app d(1) sid] by (simp add: logs_once_def)
qed

lemma logs_once_reads: "logs_once w \<Longrightarrow> readEvents sid 0 w = sessionEvents sid w"
  by (simp add: readEvents_def logs_once_def ids_once_def filter_id_conv)

lemma logs_once_cursor:
  "logs_once w \<Longrightarrow> readSession sid w = Some s \<Longrightarrow> e \<in> set (sessionEvents sid w) \<Longrightarrow> ev_sequence e \<le> ses_eventCursor s"
  using logs_ok_log [of w sid] by (auto simp: logs_once_def log_ok_def below_all_def)

lemma logs_once_write:
  assumes "logs_once w" and "readSession (ses_sessionId n) w = Some s"
    and "ses_eventCursor s \<le> ses_eventCursor n" and "ses_nextTurnSeq s \<le> ses_nextTurnSeq n"
  shows "logs_once (writeSession n w)"
proof -
  have "0 \<le> ses_eventCursor s" using assms(1,2) by (simp add: logs_once_def ids_once_def)
  with assms(3) have "0 \<le> ses_eventCursor n" by simp
  with assms logs_ok_write [of w n s] show ?thesis by (auto simp: logs_once_def ids_once_def log_reads_writeSession)
qed

end
