(* ===== verification/InteractionProps.thy ===== *)
theory InteractionProps
  imports InteractionInv LogIds
begin

text \<open>
  What the interaction manager promises: a question has one answer, only its owner gives it, a request delivered
  twice is one interaction, and a view's event is logged once.
\<close>

subsection \<open>Runs of the operations\<close>

datatype inter_op =
    OpAdmit "nat \<Rightarrow> tasks" runtime_event agent_request
  | OpResolve tasks "nat \<Rightarrow> tasks" request_context string respond_request
  | OpAcknowledge tasks string
  | OpInterruptOwner "nat \<Rightarrow> tasks" "nat \<Rightarrow> nat \<Rightarrow> tasks" string interruption_reason
  | OpReconcile "nat \<Rightarrow> nat \<Rightarrow> tasks"

text \<open>The interaction a call has answered, and by whom: \<open>status: 'resolved'\<close> of \<^verbatim>\<open>resolve\<close>.\<close>

fun answer_of :: "request_context \<Rightarrow> respond_request \<Rightarrow> error + resolve_status \<Rightarrow> (string \<times> string) list" where
  "answer_of ctx req (Inr NowResolved) = [(rq_interactionId req, rq_principalId ctx)]"
| "answer_of ctx req _ = []"

fun run_inter_op :: "string \<Rightarrow> inter_op \<Rightarrow> world \<Rightarrow> (world \<times> (string \<times> string) list) option" where
  "run_inter_op tenant (OpAdmit env e req) w = map_option (\<lambda>(_, w1). (w1, [])) (admitAgentRequest tenant env e req w)"
| "run_inter_op tenant (OpResolve env renv ctx addressed req) w =
     map_option (\<lambda>(r, w1). (w1, answer_of ctx req r)) (resolve tenant env renv ctx addressed req w)"
| "run_inter_op tenant (OpAcknowledge env cmd) w = map_option (\<lambda>(_, w1). (w1, [])) (acknowledgeDelivery env cmd w)"
| "run_inter_op tenant (OpInterruptOwner env renv sid reason) w =
     map_option (\<lambda>(_, w1). (w1, [])) (interruptForOwnerSession env renv sid reason w)"
| "run_inter_op tenant (OpReconcile env) w = map_option (\<lambda>(_, w1). (w1, [])) (reconcileInteractions env w)"

fun run_inter_ops :: "string \<Rightarrow> inter_op list \<Rightarrow> world \<Rightarrow> (world \<times> (string \<times> string) list) option" where
  "run_inter_ops tenant [] w = Some (w, [])"
| "run_inter_ops tenant (x # xs) w =
     (case run_inter_op tenant x w of
        None \<Rightarrow> None
      | Some (w1, a) \<Rightarrow> map_option (\<lambda>(w2, as). (w2, a @ as)) (run_inter_ops tenant xs w1))"

fun inter_op_ok :: "inter_op \<Rightarrow> bool" where
  "inter_op_ok (OpAdmit env e req) = (\<forall>n. inters.rely (env n))"
| "inter_op_ok (OpResolve env renv ctx addressed req) = (inters.rely env \<and> (\<forall>n. inters.rely (renv n)))"
| "inter_op_ok (OpAcknowledge env cmd) = inters.rely env"
| "inter_op_ok (OpInterruptOwner env renv sid reason) = ((\<forall>n. inters.rely (env n)) \<and> (\<forall>n k. inters.rely (renv n k)))"
| "inter_op_ok (OpReconcile env) = (\<forall>n k. inters.rely (env n k))"

definition answered_by :: "string \<Rightarrow> string \<Rightarrow> world \<Rightarrow> bool" where
  "answered_by iid p w = (\<exists>i r. readInteraction iid w = Some i \<and> itx_state i = IResolved \<and> itx_resolution i = Some r \<and> rs_principalId r = p)"

definition still_open :: "string \<Rightarrow> world \<Rightarrow> bool" where
  "still_open iid w = (\<forall>i. readInteraction iid w = Some i \<longrightarrow> itx_state i = IOpen)"

lemma progress_outcome:
  assumes "inters.progress w w1" and "readInteraction iid w = Some i" and "itx_state i \<noteq> IOpen"
  shows "\<exists>i1. readInteraction iid w1 = Some i1 \<and> outcome i1 = outcome i"
  using inters.progress_read [OF assms(1,2)] assms(3) by (auto simp: inter_adv_def)

lemma answered_by_progress:
  assumes "inters.progress w w1" and "answered_by iid p w" shows "answered_by iid p w1"
proof -
  from assms(2) obtain i r where i: "readInteraction iid w = Some i" "itx_state i = IResolved" "itx_resolution i = Some r" "rs_principalId r = p"
    by (auto simp: answered_by_def)
  with progress_outcome [OF assms(1) i(1)] show ?thesis by (auto simp: answered_by_def outcome_def)
qed

lemma still_open_back:
  assumes "inters.progress w w1" and "still_open iid w1" shows "still_open iid w"
  unfolding still_open_def
proof (intro allI impI)
  fix i assume i: "readInteraction iid w = Some i"
  show "itx_state i = IOpen"
  proof (rule ccontr)
    assume "itx_state i \<noteq> IOpen"
    with progress_outcome [OF assms(1) i] assms(2) show False by (auto simp: still_open_def outcome_def)
  qed
qed

lemma answered_not_open: "answered_by iid p w \<Longrightarrow> \<not> still_open iid w"
  by (auto simp: answered_by_def still_open_def)

text \<open>The call that answers: before it the interaction was open, after it the answer is this caller's.\<close>

lemma resolve_answers:
  assumes inv: "inters.inv w" and rely: "inters.rely env" "\<And>n. inters.rely (renv n)"
    and run: "resolve tenant env renv ctx addressed req w = Some (Inr NowResolved, w1)"
  shows "still_open (rq_interactionId req) w \<and> answered_by (rq_interactionId req) (rq_principalId ctx) w1"
proof -
  let ?prep = "resolvePrepare tenant ctx addressed req"
  from inters.loop [OF resolve_prepares inv rely(1), of tenant ctx addressed req] obtain out u v where
    c: "cas_loop env ?prep compareAndSetInteraction w = Some (out, u)" and p: "inters.progress w u" "inters.progress w v"
    and last: "inters.last_attempt ?prep v out u" by blast
  from run c have out: "out = Inr NowResolved"
    by (cases out) (auto simp: resolve_def awaiting_def split: if_splits)
  from run c out have "tryReconcile renv (rq_interactionId req) u = Some (Inr (), w1)"
    by (auto simp: resolve_def awaiting_def split: option.splits prod.splits sum.splits)
  with inters.keepsD [OF keeps_tryReconcile [where env = renv and iid = "rq_interactionId req", OF rely(2)] inters.progress_inv [OF p(1)]]
  have p1: "inters.progress u w1" by auto
  show ?thesis
  proof (cases rule: resolvePrepare_cases [of tenant ctx addressed req v])
    case (error e)
    with last out show ?thesis by (auto simp: inters.last_attempt_def split: prod.splits)
  next
    case (already i)
    with last out show ?thesis by (auto simp: inters.last_attempt_def)
  next
    case (answer i response t cmd vs x)
    let ?n = "resolved_record i response (rq_principalId ctx) addressed t cmd vs"
    have "still_open (rq_interactionId req) v" using answer(1,2) by (simp add: still_open_def)
    with still_open_back [OF p(2)] have "still_open (rq_interactionId req) w" by blast
    moreover from last answer(9) obtain rv y where "compareAndSetInteraction rv ?n y = (Inr True, u)"
      by (auto simp: inters.last_attempt_def)
    from interactions.cas_won [OF this, of "itx_interactionId ?n"] have "readInteraction (itx_interactionId ?n) u = Some ?n" by simp
    moreover have "itx_interactionId ?n = rq_interactionId req"
      using answer(1) inters.progress_inv [OF p(2)] readInteraction_id by (auto simp: resolved_record_def inters.inv_def)
    ultimately show ?thesis
      using answered_by_progress [OF p1] by (auto simp: answered_by_def resolved_record_def)
  qed
qed

lemma run_inter_op_effect:
  assumes inv: "inters.inv w" and ok: "inter_op_ok x"
  shows "\<exists>w1 a. run_inter_op tenant x w = Some (w1, a) \<and> inters.progress w w1
    \<and> (a = [] \<or> (\<exists>iid p. a = [(iid, p)] \<and> still_open iid w \<and> answered_by iid p w1))"
proof (cases x)
  case (OpAdmit env e req)
  with inters.keepsD [OF keeps_admit [where tenantId = tenant and env = env and e = e and req = req] inv] ok show ?thesis by fastforce
next
  case (OpResolve env renv ctx addressed req)
  with inters.keepsD [OF keeps_resolve [where env = env and renv = renv and tenantId = tenant and ctx = ctx and addressed = addressed and req = req] inv] ok obtain r w1 where
    r: "resolve tenant env renv ctx addressed req w = Some (r, w1)" "inters.progress w w1" by auto
  with OpResolve resolve_answers [OF inv, of env renv tenant ctx addressed req w1] ok show ?thesis
    by (cases "(ctx, req, r)" rule: answer_of.cases) auto
next
  case (OpAcknowledge env cmd)
  with inters.keepsD [OF keeps_acknowledge [where env = env and cmd = cmd] inv] ok show ?thesis by fastforce
next
  case (OpInterruptOwner env renv sid reason)
  with inters.keepsD [OF keeps_interruptForOwner [where env = env and renv = renv and sid = sid and reason = reason] inv] ok show ?thesis by fastforce
next
  case (OpReconcile env)
  with inters.keepsD [OF keeps_reconcileInteractions [where env = env] inv] ok show ?thesis by fastforce
qed

lemma run_inter_ops_effect:
  assumes "inters.inv w" and "\<forall>x \<in> set xs. inter_op_ok x"
  shows "\<exists>w1 as. run_inter_ops tenant xs w = Some (w1, as) \<and> inters.progress w w1
    \<and> distinct (map fst as) \<and> (\<forall>(iid, p) \<in> set as. still_open iid w \<and> answered_by iid p w1)"
  using assms
proof (induction xs arbitrary: w)
  case Nil
  then show ?case by (simp add: inters.progress_refl)
next
  case (Cons x xs)
  from run_inter_op_effect [OF Cons(2), of x tenant] Cons(3) obtain w1 a where
    x: "run_inter_op tenant x w = Some (w1, a)" and p: "inters.progress w w1"
    and a: "a = [] \<or> (\<exists>iid p. a = [(iid, p)] \<and> still_open iid w \<and> answered_by iid p w1)" by auto
  from Cons(1) [OF inters.progress_inv [OF p]] Cons(3) obtain w2 as where
    xs: "run_inter_ops tenant xs w1 = Some (w2, as)" "inters.progress w1 w2" "distinct (map fst as)"
    and as: "\<forall>(iid, p) \<in> set as. still_open iid w1 \<and> answered_by iid p w2" by auto
  have old: "\<forall>(iid, p) \<in> set as. still_open iid w \<and> answered_by iid p w2" using as still_open_back [OF p] by blast
  show ?case
  proof (cases "a = []")
    case True
    with x xs old inters.progress_trans [OF p xs(2)] show ?thesis by auto
  next
    case False
    with a obtain iid q where q: "a = [(iid, q)]" "still_open iid w" "answered_by iid q w1" by blast
    moreover have "iid \<notin> fst ` set as" using as answered_not_open [OF q(3)] by force
    ultimately show ?thesis using x xs old inters.progress_trans [OF p xs(2)] answered_by_progress [OF xs(2)] by auto
  qed
qed

subsection \<open>Every view event is logged once\<close>

text \<open>Projecting a view appends its event when the log has no event with that id, and nothing otherwise.\<close>

lemma appendViewEvent_out:
  assumes once: "logs_once w" and run: "appendViewEvent v i ty pl w = (r, w1)"
    and ty: "ty \<noteq> SessionCreated" "ty \<noteq> InputAccepted"
  shows "logs_once w1 \<and> (r = Inr () \<longrightarrow> (\<exists>e \<in> set (sessionEvents (iv_sessionId v) w1). ev_eventId e = i))
    \<and> (\<forall>x. \<exists>new. sessionEvents x w1 = sessionEvents x w @ new)"
proof (cases "readSession (iv_sessionId v) w")
  case None
  with run once show ?thesis by (auto simp: appendViewEvent_def requireSession_def andThen_def Let_def)
next
  case (Some s)
  let ?sid = "iv_sessionId v"
  note read = logs_once_reads [OF once, of ?sid]
  show ?thesis
  proof (cases "find (\<lambda>e. ev_eventId e = i) (readEvents ?sid 0 w)")
    case e: (Some e)
    from find_SomeD [OF this] read have e1: "ev_eventId e = i" "e \<in> set (sessionEvents ?sid w)" by simp_all
    with logs_once_cursor [OF once Some] have "ev_sequence e \<le> ses_eventCursor s" by blast
    with run e Some have "w1 = publish (SessionEvents ?sid) e w"
      by (simp add: appendViewEvent_def requireSession_def andThen_def Let_def moveCursor_def)
    then have "same_logs w w1" by simp
    with once e1 show ?thesis using same_logs_once [of w w1] same_logs_reads [of w w1] by auto
  next
    case None
    let ?d = "(draft ty CentralActor pl (ses_eventCursor s + 1) (Some ?sid))\<lparr>ev_turnSeq := Some (iv_turnSeq v)\<rparr>"
    have new: "\<forall>e \<in> set (sessionEvents ?sid w). ev_eventId e \<noteq> i" using None read by (simp add: find_None_iff_ball)
    have d: "ev_sessionId ?d = Some ?sid" "ev_sequence ?d = ses_eventCursor s + 1" "\<not> turn_event ?d"
      using ty by (simp_all add: draft_def turn_event_def)
    show ?thesis
    proof (cases "?sid = []")
      case True
      then have "logAppend (Some i) ?d w = (Inl EventNeedsOwner, snd (now w))"
        by (simp add: logAppend_def idOr_def appendEvent_def Let_def split_def draft_def)
      with run Some None have "r = Inl EventNeedsOwner" "w1 = snd (now w)"
        by (simp_all add: appendViewEvent_def requireSession_def andThen_def Let_def)
      with once show ?thesis using same_logs_once [of w w1] same_logs_reads [of w w1] by simp
    next
    case sid: False
    from logAppend_stores [OF d(1) sid, of "Some i" w] obtain e x where a: "logAppend (Some i) ?d w = (Inr e, x)" by metis
    let ?n = "s\<lparr>ses_eventCursor := ev_sequence e, ses_lastEventUpdatedAt := fst (now x), ses_updatedAt := fst (now x)\<rparr>"
    let ?v = "writeSession ?n (snd (now x))"
    have id: "ses_sessionId s = ?sid" using once Some by (auto simp: logs_once_def dest: logs_ok_id)
    have o: "logs_once ?v \<and> e \<in> set (sessionEvents ?sid ?v) \<and> sessionEvents ?sid ?v = sessionEvents ?sid w @ [e] \<and> ev_eventId e = i"
      by (rule logs_once_append [OF once Some sid a d(1,2) new]) (use id d(3) in simp_all)
    have "ev_sequence e = ses_eventCursor s + 1" using logAppend_fields [OF a] d(2) by simp
    with run Some None a have w1: "r = Inr ()" "w1 = publish (SessionEvents ?sid) e ?v"
      by (simp_all add: appendViewEvent_def requireSession_def andThen_def Let_def moveCursor_def advanceEventCursor_eq)
    have "same_logs ?v w1" by (simp add: w1(2))
    moreover have "sessionEvents y ?v = (if y = ?sid then sessionEvents ?sid w @ [e] else sessionEvents y w)" for y
      using logAppend_log(2) [OF a d(1) sid, of y] by (simp add: log_reads_writeSession tab_simps)
    ultimately show ?thesis using o same_logs_once [of ?v w1] same_logs_reads [of ?v w1] by auto
    qed
  qed
qed

definition keeps_once :: "'a async \<Rightarrow> bool" where
  "keeps_once m = (\<forall>w r w1. logs_once w \<longrightarrow> m w = Some (r, w1) \<longrightarrow> logs_once w1)"

definition tasks_once :: "tasks \<Rightarrow> bool" where
  "tasks_once env = (\<forall>f \<in> set env. \<forall>w. logs_once w \<longrightarrow> logs_once (f w))"

lemma once_same: "(\<And>w r w1. m w = Some (r, w1) \<Longrightarrow> same_logs w w1) \<Longrightarrow> keeps_once m"
  unfolding keeps_once_def using same_logs_once by blast

lemma once_return [simp]: "keeps_once (\<lambda>w. Some (r, w))"
  by (simp add: keeps_once_def)

lemma once_read [simp]: "keeps_once (\<lambda>w. Some (f w, w))"
  by (simp add: keeps_once_def)

lemma once_ext: "(\<And>w. m w = m1 w) \<Longrightarrow> keeps_once m1 \<Longrightarrow> keeps_once m"
  by (simp add: keeps_once_def)

lemma once_awaiting:
  assumes m: "keeps_once m" and f: "\<And>x. keeps_once (f x)"
  shows "keeps_once (awaiting m f)"
  unfolding keeps_once_def
proof (intro allI impI)
  fix w r w1 assume w: "logs_once w" and run: "awaiting m f w = Some (r, w1)"
  from run obtain a v where v: "m w = Some (a, v)" by (cases "m w") (auto simp: awaiting_def)
  with m w have "logs_once v" by (simp add: keeps_once_def)
  with run v f show "logs_once w1" by (cases a) (auto simp: awaiting_def keeps_once_def)
qed

lemma once_attempted: "keeps_once m \<Longrightarrow> keeps_once (attempted m)"
  unfolding keeps_once_def attempted_def by (fastforce split: option.splits prod.splits)

lemma once_sync: "(\<And>w. logs_once w \<Longrightarrow> logs_once (snd (m w))) \<Longrightarrow> keeps_once (sync m)"
  unfolding keeps_once_def sync_def by (metis option.inject snd_conv)

lemma once_if: "(b \<Longrightarrow> keeps_once m) \<Longrightarrow> (\<not> b \<Longrightarrow> keeps_once m1) \<Longrightarrow> keeps_once (if b then m else m1)"
  by simp

lemma cas_same_logs: "same_logs w (snd (compareAndSetInteraction e i w))"
  by (auto simp: compareAndSetInteraction_def same_logs_def writeInteraction_def split: option.splits)

lemma once_loop:
  assumes "\<And>w. same_logs w (snd (prep w))" and "tasks_once env"
  shows "keeps_once (cas_loop env prep compareAndSetInteraction)"
  unfolding keeps_once_def
proof (intro allI impI)
  fix w r w1 assume w: "logs_once w" and run: "cas_loop env prep compareAndSetInteraction w = Some (r, w1)"
  have prep: "logs_once v1" if "logs_once v" "prep v = (x, v1)" for v x v1
    using that assms(1) [of v] same_logs_once [of v v1] by simp
  have cas: "logs_once v1" if "logs_once v" "compareAndSetInteraction e i v = (x, v1)" for v e i x v1
    using that cas_same_logs [of v e i] same_logs_once [of v v1] by simp
  show "logs_once w1"
  proof (rule cas_loop_last [where I = logs_once and Q = "\<lambda>_. logs_once", OF run])
    show "logs_once (snd (prep v))" if "logs_once v" for v using that same_logs_once [OF assms(1)] by simp
    show "logs_once (snd (compareAndSetInteraction e i v))" if "logs_once v" for v e i
      using that same_logs_once [OF cas_same_logs] by simp
    show "logs_once (f v)" if "f \<in> set env" "logs_once v" for f v using that assms(2) by (simp add: tasks_once_def)
  qed (rule w, erule (1) prep, erule (1) prep, erule (1) cas, erule (1) cas)
qed

lemma mapViews_same: "(\<And>v w. same_logs w (snd (f v w))) \<Longrightarrow> same_logs w (snd (mapViews f vs w))"
proof (induction vs arbitrary: w)
  case (Cons v vs)
  from Cons(1) [OF Cons(2), of "snd (f v w)"] Cons(2) [of w v] show ?case
    by (simp add: Let_def split_def same_logs_trans)
qed simp

lemma views_same_logs: "same_logs w (snd (respondedView v w))" "same_logs w (snd (interruptedView v w))"
  by (simp_all add: respondedView_def interruptedView_def Let_def split_def)

lemma once_update:
  assumes "\<And>i w. same_logs w (snd (mutate i w))" and "tasks_once env"
  shows "keeps_once (updateInteraction env iid mutate)"
  unfolding updateInteraction_def
proof (rule once_loop [OF _ assms(2)])
  show "same_logs w (snd (mutatePrepare iid mutate w))" for w
    using assms(1) by (auto simp: mutatePrepare_def split: option.splits prod.splits) (metis snd_conv)+
qed

lemma mutations_same_logs:
  "same_logs w (snd (interruptMutate reason i w))" "same_logs w (snd (abandonMutate i w))"
  "same_logs w (snd (markMutate sid p i w))" "same_logs w (snd (acceptMutate cmd i w))"
proof -
  have "same_logs (snd (now w)) (snd (mapViews interruptedView vs (snd (now w))))" for vs
    by (rule mapViews_same) (rule views_same_logs)
  then have "same_logs w (snd (now (snd (mapViews interruptedView vs (snd (now w))))))" for vs
    by (meson same_logs_readings(1) same_logs_trans)
  then show "same_logs w (snd (interruptMutate reason i w))" by (simp add: interruptMutate_def Let_def split_def)
qed (simp_all add: abandonMutate_def markMutate_def acceptMutate_def Let_def split_def)

lemma appendViewEvent_once:
  "logs_once w \<Longrightarrow> ty \<noteq> SessionCreated \<Longrightarrow> ty \<noteq> InputAccepted \<Longrightarrow> logs_once (snd (appendViewEvent v i ty pl w))"
  using appendViewEvent_out [of w v i ty pl] by (cases "appendViewEvent v i ty pl w") simp

lemma project_once:
  assumes "logs_once w"
  shows "logs_once (snd (projectRequested i v w))" "logs_once (snd (projectResponded i v w))" "logs_once (snd (projectInterrupted i v w))"
  by (simp_all add: projectRequested_def projectResponded_def projectInterrupted_def appendViewEvent_once assms)

lemma once_interrupt: "tasks_once env \<Longrightarrow> keeps_once (interrupt env iid reason)"
  unfolding interrupt_def by (rule once_update [OF mutations_same_logs(1)])

lemma once_reconcileLease:
  assumes "tasks_once env" shows "keeps_once (reconcileLease env i)"
  unfolding keeps_once_def
proof (intro allI impI)
  fix w r w1 assume w: "logs_once w" and run: "reconcileLease env i w = Some (r, w1)"
  note keep = once_interrupt [OF assms, unfolded keeps_once_def, rule_format, OF w]
    once_update [OF mutations_same_logs(2) assms, unfolded keeps_once_def, rule_format, OF w]
  from run consider "w1 = w" | "interrupt env (itx_interactionId i) OwnerLeaseLost w = Some (r, w1)"
    | "updateInteraction env (itx_interactionId i) abandonMutate w = Some (r, w1)"
    unfolding reconcileLease_def Let_def by (metis option.inject prod.inject)
  then show "logs_once w1" using w keep by cases blast+
qed

lemma once_projectViews:
  assumes "\<And>n. tasks_once (env n)" and "\<And>i v w. logs_once w \<Longrightarrow> logs_once (snd (project i v w))"
  shows "keeps_once (projectViews env project p vs i)"
  using assms(1)
proof (induction vs arbitrary: env i)
  case Nil
  show ?case by (rule once_ext [OF _ once_return]) simp
next
  case (Cons v vs)
  have "keeps_once (awaiting (sync (project i v)) (\<lambda>_. awaiting (markViewProjected (env 0) (itx_interactionId i) (iv_sessionId v) p)
       (projectViews (\<lambda>n. env (Suc n)) project p vs)))"
    unfolding markViewProjected_def
    by (intro once_awaiting once_sync assms(2) once_update mutations_same_logs Cons)
  then show ?case by (simp add: keeps_once_def)
qed

lemma once_deliver:
  assumes "tasks_once env" shows "keeps_once (deliver env i)"
proof -
  have pub: "keeps_once (\<lambda>w1. let (t, w2) = now w1 in Some (Inr (), publish ch (response_command i owner t) w2))" for ch owner
    by (rule once_same) (auto simp: Let_def split_def same_logs_def tab_simps)
  have "keeps_once (awaiting (sync (requireSession (itx_ownerSessionId i))) (\<lambda>owner.
        if \<not> truthy (ses_currentWorkerId owner) \<or> ses_sessionLeaseId owner \<noteq> Some (itx_requestLeaseId i)
        then awaiting (reconcileLease env i) (\<lambda>_ w1. Some (Inr (), w1))
        else (\<lambda>w1. let (t, w2) = now w1
                   in Some (Inr (), publish (WorkerCommands (the (ses_currentWorkerId owner))) (response_command i owner t) w2))))"
    by (intro once_awaiting once_if once_reconcileLease assms once_return pub once_sync) (simp add: tab_simps)
  then show ?thesis by (simp add: keeps_once_def deliver_def)
qed

lemma once_reconcileOnce:
  assumes "\<And>n. tasks_once (env n)" shows "keeps_once (reconcileInteractionOnce env iid)"
proof -
  have s: "tasks_once (skip n env k)" for n k by (simp add: skip_def assms)
  have "keeps_once (awaiting (reconcileLease (env 0) i0) (\<lambda>i1.
            let asked = filter (\<lambda>v. \<not> iv_requestedProjected v) (itx_views i1); n = 1 + length asked in
            awaiting (projectViews (skip 1 env) projectRequested PRequested asked i1) (\<lambda>i2.
              if itx_state i2 = IResolved then
                (let answered = filter (\<lambda>v. \<not> iv_respondedProjected v) (itx_views i2) in
                 awaiting (projectViews (skip n env) projectResponded PResponded answered i2)
                   (deliver (env (n + length answered))))
              else if itx_state i2 = IInterrupted then
                awaiting (projectViews (skip n env) projectInterrupted PInterrupted
                            (filter (\<lambda>v. \<not> iv_interruptedProjected v) (itx_views i2)) i2) (\<lambda>_ w1. Some (Inr (), w1))
              else (\<lambda>w1. Some (Inr (), w1)))))" for i0
    unfolding Let_def
    by (intro once_awaiting once_if once_reconcileLease once_projectViews once_deliver once_return assms s project_once)
  then show ?thesis unfolding keeps_once_def reconcileInteractionOnce_def by (auto split: option.splits)
qed

lemma once_tryReconcile: "(\<And>n. tasks_once (env n)) \<Longrightarrow> keeps_once (tryReconcile env iid)"
  unfolding tryReconcile_def by (intro once_attempted once_reconcileOnce)

lemma once_reconcileEach: "(\<And>n k. tasks_once (env n k)) \<Longrightarrow> keeps_once (reconcileEach env is)"
proof (induction "is" arbitrary: env)
  case (Cons i "is")
  have "keeps_once (awaiting (reconcileInteractionOnce (env 0) (itx_interactionId i)) (\<lambda>_. reconcileEach (\<lambda>n. env (Suc n)) is))"
    by (intro once_awaiting once_reconcileOnce Cons)
  then show ?case by (simp add: keeps_once_def)
qed (rule once_ext [OF _ once_return], simp)

lemma once_interruptEach:
  "(\<And>n. tasks_once (env n)) \<Longrightarrow> (\<And>n k. tasks_once (renv n k)) \<Longrightarrow> keeps_once (interruptEach env renv reason is)"
proof (induction "is" arbitrary: env renv)
  case (Cons i "is")
  have "keeps_once (awaiting (interrupt (env 0) (itx_interactionId i) reason) (\<lambda>_.
       awaiting (tryReconcile (renv 0) (itx_interactionId i)) (\<lambda>_.
         interruptEach (\<lambda>n. env (Suc n)) (\<lambda>n. renv (Suc n)) reason is)))"
    by (intro once_awaiting once_interrupt once_tryReconcile Cons)
  then show ?case by (simp add: keeps_once_def)
qed (rule once_ext [OF _ once_return], simp)

lemma once_acknowledge:
  assumes "tasks_once env" shows "keeps_once (acknowledgeDelivery env cmd)"
proof -
  have "keeps_once (awaiting (updateInteraction env iid (acceptMutate cmd)) (\<lambda>_ w1. Some (Inr True, w1)))" for iid
    by (intro once_awaiting once_update mutations_same_logs assms once_return)
  then show ?thesis unfolding keeps_once_def acknowledgeDelivery_def by (auto split: option.splits if_splits)
qed

lemma andThen_same_logs:
  "same_logs w (snd (m w)) \<Longrightarrow> (\<And>x v. same_logs v (snd (f x v))) \<Longrightarrow> same_logs w (snd (andThen m f w))"
  by (cases "m w"; cases "fst (m w)") (auto simp: andThen_def intro: same_logs_trans)

lemma same_logs_cond:
  "same_logs w (snd (m w)) \<Longrightarrow> same_logs w (snd (m1 w)) \<Longrightarrow> same_logs w (snd ((if b then m else m1) w))"
  by simp

lemma prepare_same_logs: "same_logs w (snd (resolvePrepare tenant ctx addressed req w))"
proof (cases "readInteraction (rq_interactionId req) w")
  case (Some i)
  have answer: "same_logs v (snd ((\<lambda>w1. let (t, w2) = now w1 in
        andThen (buildResponse i req) (\<lambda>response w3.
          (let (cmd, w4) = freshId w3; (vs, w5) = mapViews respondedView (itx_views i) w4
           in ok (Write (itx_revision i) (resolved_record i response (rq_principalId ctx) addressed t cmd vs) NowResolved) w5)) w2) v))" for v
  proof -
    have views: "same_logs x (snd (mapViews respondedView (itx_views i) (snd (freshId x))))" for x
      by (rule same_logs_trans [OF same_logs_readings(2) mapViews_same [OF views_same_logs(1)]])
    have "same_logs (snd (now v)) (snd (andThen (buildResponse i req) (\<lambda>response w3.
          (let (cmd, w4) = freshId w3; (vs, w5) = mapViews respondedView (itx_views i) w4
           in ok (Write (itx_revision i) (resolved_record i response (rq_principalId ctx) addressed (fst (now v)) cmd vs) NowResolved) w5)) (snd (now v))))"
      by (rule andThen_same_logs) (simp_all add: snd_buildResponse Let_def split_def views)
    then show ?thesis using same_logs_trans [OF same_logs_readings(1)] by (simp add: split_def Let_def)
  qed
  show ?thesis
  proof (cases "itx_tenantId i = tenant")
    case True
    have "same_logs w (snd (andThen (authorizeResponse i addressed ctx) (\<lambda>_.
            if itx_state i = IResolved then ok (Return AlreadyResolved)
            else if itx_state i = IInterrupted then throw (IsInterrupted (itx_interactionId i))
            else (\<lambda>w1. let (t, w2) = now w1 in
              andThen (buildResponse i req) (\<lambda>response w3.
                (let (cmd, w4) = freshId w3; (vs, w5) = mapViews respondedView (itx_views i) w4
                 in ok (Write (itx_revision i) (resolved_record i response (rq_principalId ctx) addressed t cmd vs) NowResolved) w5)) w2)) w))"
      by (intro andThen_same_logs same_logs_cond answer) (simp_all add: snd_authorize)
    with Some True show ?thesis by (simp add: resolvePrepare_def)
  qed (simp add: resolvePrepare_def Some)
qed (simp add: resolvePrepare_def)

lemma once_resolve:
  assumes "tasks_once env" and "\<And>n. tasks_once (renv n)"
  shows "keeps_once (resolve tenant env renv ctx addressed req)"
  unfolding resolve_def
  by (intro once_awaiting once_if once_loop prepare_same_logs once_tryReconcile once_return assms)

lemma newInteraction_same_logs: "same_logs w (snd (newInteraction tenant owner turnSeq req t w))"
proof -
  have nv: "same_logs v (snd (newView sid n role v))" for sid n role v
    by (simp add: newView_def split_def Let_def)
  have parent: "same_logs v (snd (andThen (requireSession p) (\<lambda>parent.
       if P parent then throw (E parent)
       else (\<lambda>w2. let (pv, w3) = newView (ses_sessionId parent) n ParentProjection w2 in ok (V pv) w3)) v))" for p P E V n v
    by (rule andThen_same_logs) (auto simp: tab_simps nv split_def Let_def)
  have views: "same_logs v (snd (buildViews owner turnSeq v))" for v
    using nv [of v] same_logs_trans [OF nv parent]
    by (auto simp: buildViews_def split_def Let_def split: option.splits)
  have "same_logs (snd (freshId w)) (snd (newInteraction tenant owner turnSeq req t w))"
    unfolding newInteraction_def split_def Let_def by (rule andThen_same_logs) (simp_all add: views)
  then show ?thesis using same_logs_readings(2) [of w] same_logs_trans by blast
qed

lemma admitRequest_same_logs: "same_logs w (snd (admitRequest tenant e req w))"
proof -
  have create: "same_logs v (snd (let ((actual, _), w3) = createInteraction c v
      in if same_request actual c then ok actual w3 else throw x w3))" for v c x
    by (auto simp: createInteraction_def writeInteraction_def same_logs_def Let_def split: option.splits)
  have body: "same_logs v (snd (andThen (newInteraction tenant owner turnSeq req t) (\<lambda>candidate w2.
       (let ((actual, _), w3) = createInteraction candidate w2
        in if same_request actual candidate then ok actual w3
           else throw (AdapterRequestReused (ar_adapterRequestId req)) w3)) v))" for owner turnSeq t v
    by (rule andThen_same_logs [OF newInteraction_same_logs create])
  show ?thesis
    unfolding admitRequest_def
  proof (rule andThen_same_logs)
    fix owner v
    show "same_logs v (snd (andThen (assertEventLease owner e) (\<lambda>_. case ev_turnSeq e of None \<Rightarrow> throw (InvalidEvent (ev_type e))
      | Some turnSeq \<Rightarrow> (\<lambda>w. let (t, w1) = now w in andThen (newInteraction tenant owner turnSeq req t) (\<lambda>candidate w2.
           (let ((actual, _), w3) = createInteraction candidate w2
            in if same_request actual candidate then ok actual w3
               else throw (AdapterRequestReused (ar_adapterRequestId req)) w3)) w1)) v))"
      using same_logs_trans [OF same_logs_readings(1) body]
      by (intro andThen_same_logs) (auto simp: assertEventLease_same split_def Let_def split: option.splits)
  qed (simp add: requireEventSession_same)
qed

lemma once_admit:
  assumes "\<And>n. tasks_once (env n)" shows "keeps_once (admitAgentRequest tenant env e req)"
proof -
  have "keeps_once (sync (admitRequest tenant e req))"
    by (rule once_sync) (use admitRequest_same_logs same_logs_once in blast)
  then show ?thesis
    unfolding admitAgentRequest_def by (intro once_awaiting once_tryReconcile once_read assms)
qed

fun inter_op_once :: "inter_op \<Rightarrow> bool" where
  "inter_op_once (OpAdmit env e req) = (\<forall>n. tasks_once (env n))"
| "inter_op_once (OpResolve env renv ctx addressed req) = (tasks_once env \<and> (\<forall>n. tasks_once (renv n)))"
| "inter_op_once (OpAcknowledge env cmd) = tasks_once env"
| "inter_op_once (OpInterruptOwner env renv sid reason) = ((\<forall>n. tasks_once (env n)) \<and> (\<forall>n k. tasks_once (renv n k)))"
| "inter_op_once (OpReconcile env) = (\<forall>n k. tasks_once (env n k))"

lemma onceD: "keeps_once m \<Longrightarrow> logs_once w \<Longrightarrow> m w = Some (r, w1) \<Longrightarrow> logs_once w1"
  unfolding keeps_once_def by blast

lemma run_inter_op_once:
  assumes "logs_once w" and "inter_op_once x" and "run_inter_op tenant x w = Some z"
  shows "logs_once (fst z)"
proof (cases x)
  case (OpAdmit env e req)
  with assms onceD [OF once_admit assms(1)] show ?thesis by fastforce
next
  case (OpResolve env renv ctx addressed req)
  with assms onceD [OF once_resolve assms(1)] show ?thesis by fastforce
next
  case (OpAcknowledge env cmd)
  with assms onceD [OF once_acknowledge assms(1)] show ?thesis by fastforce
next
  case (OpInterruptOwner env renv sid reason)
  have "keeps_once (interruptForOwnerSession env renv sid reason)"
    using once_interruptEach [of env renv reason] OpInterruptOwner assms(2)
    by (simp add: keeps_once_def interruptForOwnerSession_def)
  with OpInterruptOwner assms onceD [OF _ assms(1)] show ?thesis by fastforce
next
  case (OpReconcile env)
  have "keeps_once (reconcileInteractions env)"
    using once_reconcileEach [of env] OpReconcile assms(2) by (simp add: keeps_once_def reconcileInteractions_def)
  with OpReconcile assms onceD [OF _ assms(1)] show ?thesis by fastforce
qed

lemma run_inter_ops_once:
  "logs_once w \<Longrightarrow> \<forall>x \<in> set xs. inter_op_once x \<Longrightarrow> run_inter_ops tenant xs w = Some z \<Longrightarrow> logs_once (fst z)"
proof (induction xs arbitrary: w z)
  case (Cons x xs)
  from Cons(4) obtain w1 a w2 as where r: "run_inter_op tenant x w = Some (w1, a)" "run_inter_ops tenant xs w1 = Some (w2, as)" "fst z = w2"
    by (auto split: option.splits)
  from run_inter_op_once [OF Cons(2) _ r(1)] Cons(3) have "logs_once w1" by simp
  from Cons(1) [OF this _ r(2)] Cons(3) r(3) show ?case by simp
qed auto

subsection \<open>Requests delivered twice and answers of strangers\<close>

lemma admitRequest_known:
  assumes inv: "inters.inv w" and uniq: "adapter_requests.unique w" and j: "readInteraction iid w = Some j"
    and key: "adapter_key j = (sid, lease, ar_adapterRequestId req)"
    and e: "ev_sessionId e = Some sid" "ev_sessionLeaseId e = Some lease"
    and ids: "\<forall>s. readSession sid w = Some s \<longrightarrow> ses_sessionId s = sid"
  shows "w_interactions (snd (admitRequest tenant e req w)) = w_interactions w
    \<and> (\<forall>i. fst (admitRequest tenant e req w) = Inr i \<longrightarrow> i = j)"
proof -
  obtain a where a: "requireEventSession e w = (a, w)" using requireEventSession_same [of e w] by (cases "requireEventSession e w") simp
  show ?thesis
  proof (cases a)
    case (Inl x)
    with a show ?thesis by (simp add: admitRequest_def andThen_def)
  next
    case owner: (Inr owner)
    with a e have o: "readSession sid w = Some owner" "ses_sessionId owner = sid"
      using ids by (auto simp: requireEventSession_def requireSession_def split: if_splits option.splits)
    obtain b where b: "assertEventLease owner e w = (b, w)" using assertEventLease_same [of owner e w] by (cases "assertEventLease owner e w") simp
    show ?thesis
    proof (cases "(\<exists>x. b = Inl x) \<or> ev_turnSeq e = None")
      case True
      with a owner b show ?thesis by (cases b) (auto simp: admitRequest_def andThen_def)
    next
      case False
      then obtain u turnSeq where u: "b = Inr u" "ev_turnSeq e = Some turnSeq" by (cases b) auto
      from b u e have lease: "ses_sessionLeaseId owner = Some lease"
        by (auto simp: assertEventLease_def assertCurrentLease_def split: if_splits)
      obtain t v where t: "now w = (t, v)" by (cases "now w")
      then have v: "w_interactions v = w_interactions w" using tables_now(6) [of w] by simp
      obtain c z where c: "newInteraction tenant owner turnSeq req t v = (c, z)" by (cases "newInteraction tenant owner turnSeq req t v")
      note out = newInteraction_out [OF c]
      from out v have z: "w_interactions z = w_interactions w" by simp
      show ?thesis
      proof (cases c)
        case (Inl x)
        with a owner b u t c z show ?thesis by (simp add: admitRequest_def andThen_def)
      next
        case i: (Inr i)
        with out o lease key have k: "adapter_key i = adapter_key j" by simp
        have zr: "readInteraction x z = readInteraction x w" for x using z by (simp add: readInteraction_def)
        have zw: "wf_interactions z" using inv z by (simp add: inters.inv_def wf_interactions_def)
        obtain r n y where cr: "createInteraction i z = ((r, n), y)" by (cases "createInteraction i z") auto
        have n: "\<not> n" using adapter_requests.create_new [of i z r y iid j] cr k j zr by (cases n) auto
        with adapter_requests.create_old [OF zw, of i r y] cr have old: "y = z" "readInteraction (itx_interactionId r) w = Some r"
          by (simp_all add: zr)
        have "r = j" if "same_request r i"
        proof -
          from that k have "adapter_key r = adapter_key j" by (auto simp: same_request_def adapter_key_def)
          with uniq old(2) j have "itx_interactionId r = iid" unfolding adapter_requests.unique_def by blast
          with old(2) j show ?thesis by simp
        qed
        with a owner b u t c i cr old(1) z show ?thesis by (auto simp: admitRequest_def andThen_def Let_def split_def)
      qed
    qed
  qed
qed

lemma authorize_refuses:
  assumes "\<not> list_ex (\<lambda>v. iv_sessionId v = addressed) (itx_views i)
      \<or> (\<forall>s. readSession addressed w = Some s \<longrightarrow> ses_owner s \<noteq> rq_principalId ctx)
      \<or> (\<forall>s. readSession (itx_ownerSessionId i) w = Some s \<longrightarrow> ses_owner s \<noteq> rq_principalId ctx)"
  shows "\<exists>e. authorizeResponse i addressed ctx w = (Inl e, w)"
  using assms by (auto simp: authorizeResponse_def requireSession_def andThen_def split: option.splits)

subsection \<open>Example\<close>

definition ex_interaction :: interaction where
  "ex_interaction = \<lparr>itx_interactionId = ''i1'', itx_tenantId = ''t1'', itx_kind = Approval, itx_request = Some (JStr ''rm''),
     itx_ownerSessionId = ''s1'', itx_ownerTurnSeq = 1, itx_adapterRequestId = ''r1'', itx_requestLeaseId = ''l1'',
     itx_views = [\<lparr>iv_sessionId = ''s1'', iv_turnSeq = 1, iv_role = OwnerView, iv_source = None, iv_requestedEventId = ''e1'',
        iv_requestedProjected = False, iv_respondedEventId = None, iv_respondedProjected = False,
        iv_interruptedEventId = None, iv_interruptedProjected = False\<rparr>],
     itx_state = IOpen, itx_resolution = None, itx_interruption = None, itx_delivery = NotReady, itx_commandEventId = None,
     itx_revision = 1, itx_createdAt = 0, itx_updatedAt = 0\<rparr>"

definition asked_world :: world where
  "asked_world = writeInteraction ex_interaction (writeSession (ex_session\<lparr>ses_status := Running,
     ses_currentWorkerId := Some ''k1'', ses_sessionLeaseId := Some ''l1''\<rparr>) empty_world)"

definition mallory :: request_context where
  "mallory = alice\<lparr>rq_principalId := ''mallory''\<rparr>"

definition approve :: respond_request where
  "approve = \<lparr>rq_interactionId = ''i1'', rq_decision = Some ''approved'', rq_scope = None, rq_result = None\<rparr>"

definition ex_answers :: "inter_op list" where
  "ex_answers = [OpResolve [\<lambda>w. snd (now w)] (\<lambda>_. []) mallory ''s1'' approve,
     OpResolve [] (\<lambda>_. []) alice ''s1'' approve, OpReconcile (\<lambda>_ _. []),
     OpResolve [] (\<lambda>_. []) alice ''s1'' (approve\<lparr>rq_decision := Some ''denied''\<rparr>)]"

lemma asked_world_reads:
  "readInteraction x asked_world = (if x = ''i1'' then Some ex_interaction else None)"
  "readSession x asked_world = (if x = ''s1'' then Some (ex_session\<lparr>ses_status := Running,
     ses_currentWorkerId := Some ''k1'', ses_sessionLeaseId := Some ''l1''\<rparr>) else None)"
  "sessionEvents x asked_world = []"
  by (simp_all add: asked_world_def readInteraction_def readSession_def sessionEvents_def writeInteraction_def writeSession_def
      ex_interaction_def ex_session_def empty_world_def tget_tput)

lemma asked_world_inv: "inters.inv asked_world"
proof -
  have "wf_interactions asked_world"
    by (simp add: asked_world_def wf_interactions_def writeInteraction_def writeSession_def empty_world_def keyed_tput)
  moreover have "wf_interaction ex_interaction" by (simp add: wf_interaction_def ex_interaction_def)
  ultimately show ?thesis by (simp add: inters.inv_def asked_world_reads)
qed

lemma ex_answers_ok: "\<forall>x \<in> set ex_answers. inter_op_ok x"
proof -
  have "inters.rely [\<lambda>w. snd (now w)]"
    using inters.same_table_progress same_interI tables_now(6) by simp
  then show ?thesis by (simp add: ex_answers_def)
qed

lemma asked_world_once: "logs_once asked_world"
  by (simp add: logs_once_def logs_ok_def log_ok_def ids_once_def asked_world_reads turns_def ex_session_def)

lemma ex_answers_once: "\<forall>x \<in> set ex_answers. inter_op_once x"
proof -
  have "tasks_once [\<lambda>w. snd (now w)]" using same_logs_once [OF same_logs_readings(1)] by (simp add: tasks_once_def)
  moreover have "tasks_once []" by (simp add: tasks_once_def)
  ultimately show ?thesis by (simp add: ex_answers_def)
qed

definition ex_asked :: runtime_event where
  "ex_asked = \<lparr>ev_eventId = ''e9'', ev_sessionId = Some ''s1'', ev_workerId = Some ''k1'', ev_ackId = None, ev_turnSeq = Some 1,
     ev_sequence = 0, ev_type = AgentInteractionRequested, ev_timestamp = 0, ev_actor = SidecarActor,
     ev_sessionLeaseId = Some ''l1'', ev_payload = JsonPayload JNull\<rparr>"

definition ex_question :: "json \<Rightarrow> agent_request" where
  "ex_question q = \<lparr>ar_adapterRequestId = ''r1'', ar_kind = Approval, ar_request = Some q\<rparr>"

subsection \<open>Properties\<close>

text \<open>
  C5: a question of an agent has one answer. From well-formed interactions, run any operations of the interaction
  manager in any order, each disturbed between its reads and writes by anything that only moves interactions
  forward: every operation returns; no interaction is lost, changes what it asks, or changes an outcome it has;
  at most one call is told that it resolved a given interaction, this one was open, and the stored answer is
  that caller's.
\<close>

lemma question_answered_once:
  assumes "inters.inv w" and "\<forall>x \<in> set ops. inter_op_ok x"
  shows "\<exists>w1 answers. run_inter_ops tenant ops w = Some (w1, answers)
    \<and> (\<forall>iid i. readInteraction iid w = Some i \<longrightarrow> (\<exists>i1. readInteraction iid w1 = Some i1 \<and> inter_adv i i1 \<and> wf_interaction i1))
    \<and> distinct (map fst answers)
    \<and> (\<forall>iid p. (iid, p) \<in> set answers \<longrightarrow> still_open iid w \<and> answered_by iid p w1)"
  using run_inter_ops_effect [OF assms, of tenant] inters.progress_read by blast

lemma question_answered_once_witness:
  "\<exists>w1. run_inter_ops ''t1'' ex_answers asked_world = Some (w1, [(''i1'', ''alice'')]) \<and> answered_by ''i1'' ''alice'' w1"
proof -
  have "map_option snd (run_inter_ops ''t1'' ex_answers asked_world) = Some [(''i1'', ''alice'')]" by code_simp
  with question_answered_once [OF asked_world_inv ex_answers_ok, of "''t1''"] show ?thesis by auto
qed

text \<open>
  C39: only the owner answers. A response is refused, and nothing is written, read from a clock or published,
  when the interaction is of another tenant, is not shown in the session it is addressed to, or when the caller does
  not own this session and the session that asked.
\<close>

lemma resolve_refuses_strangers:
  assumes "readInteraction (rq_interactionId req) w = Some i"
    and "itx_tenantId i \<noteq> tenant \<or> \<not> list_ex (\<lambda>v. iv_sessionId v = addressed) (itx_views i)
      \<or> (\<forall>s. readSession addressed w = Some s \<longrightarrow> ses_owner s \<noteq> rq_principalId ctx)
      \<or> (\<forall>s. readSession (itx_ownerSessionId i) w = Some s \<longrightarrow> ses_owner s \<noteq> rq_principalId ctx)"
  shows "\<exists>e. resolve tenant env renv ctx addressed req w = Some (Inl e, w)"
proof -
  have "\<exists>e. resolvePrepare tenant ctx addressed req w = (Inl e, w)"
    using assms authorize_refuses [of addressed i w ctx] by (auto simp: resolvePrepare_def andThen_def)
  then show ?thesis by (cases env) (auto simp: resolve_def awaiting_def)
qed

lemma resolve_refuses_strangers_witness:
  "(\<exists>e. resolve ''t1'' [] (\<lambda>_. []) mallory ''s1'' approve asked_world = Some (Inl e, asked_world))
    \<and> (\<exists>w1. resolve ''t1'' [] (\<lambda>_. []) alice ''s1'' approve asked_world = Some (Inr NowResolved, w1))"
proof
  show "\<exists>e. resolve ''t1'' [] (\<lambda>_. []) mallory ''s1'' approve asked_world = Some (Inl e, asked_world)"
    by (rule resolve_refuses_strangers [where i = ex_interaction])
      (simp_all add: asked_world_reads approve_def mallory_def alice_def ex_session_def)
  have "map_option fst (resolve ''t1'' [] (\<lambda>_. []) alice ''s1'' approve asked_world) = Some (Inr NowResolved)" by code_simp
  then show "\<exists>w1. resolve ''t1'' [] (\<lambda>_. []) alice ''s1'' approve asked_world = Some (Inr NowResolved, w1)" by auto
qed

text \<open>
  a request that is delivered again is the same interaction. When an interaction is stored for the session,
  lease and adapter request of an \<^verbatim>\<open>agent.interaction.requested\<close> event, admitting the event again creates no
  record and changes none: it is refused (a stale lease, or another question under the same id), or continues
  with the stored interaction.
\<close>

lemma redelivered_question_is_one_interaction:
  assumes "inters.inv w" and "adapter_requests.unique w" and "readInteraction iid w = Some j"
    and "adapter_key j = (sid, lease, ar_adapterRequestId req)"
    and "ev_sessionId e = Some sid" and "ev_sessionLeaseId e = Some lease"
    and "\<forall>s. readSession sid w = Some s \<longrightarrow> ses_sessionId s = sid" and "\<forall>n. inters.rely (env n)"
  shows "w_interactions (snd (admitRequest tenant e req w)) = w_interactions w
    \<and> ((\<exists>x w1. admitAgentRequest tenant env e req w = Some (Inl x, w1) \<and> w_interactions w1 = w_interactions w)
      \<or> (\<exists>i w1. admitAgentRequest tenant env e req w = Some (Inr i, w1) \<and> inter_adv j i \<and> readInteraction iid w1 = Some i))"
proof -
  note known = admitRequest_known [OF assms(1-7), of tenant]
  have p0: "inters.progress w (snd (admitRequest tenant e req w))" using admitRequest_progress [OF assms(1)] .
  obtain r w0 where r: "admitRequest tenant e req w = (r, w0)" by (cases "admitRequest tenant e req w")
  show ?thesis
  proof (cases r)
    case (Inl x)
    with known r show ?thesis by (simp add: admitAgentRequest_def awaiting_def sync_def)
  next
    case (Inr i)
    have id: "itx_interactionId j = iid" using assms(1,3) readInteraction_id by (auto simp: inters.inv_def)
    from inters.keepsD [OF keeps_tryReconcile [where env = env and iid = iid] inters.progress_inv [OF p0]] assms(8) r obtain out w1 where
      t: "tryReconcile env iid w0 = Some (out, w1)" and p: "inters.progress w0 w1" by auto
    have "out = Inr ()" using t by (auto simp: tryReconcile_def attempted_def split: option.splits prod.splits)
    moreover from inters.progress_read [OF inters.progress_trans [OF p0 [unfolded r snd_conv] p] assms(3)] obtain j1 where
      "readInteraction iid w1 = Some j1" "inter_adv j j1" by blast
    ultimately show ?thesis using known r Inr t id by (simp add: admitAgentRequest_def awaiting_def sync_def)
  qed
qed

lemma redelivered_question_is_one_interaction_witness:
  "\<exists>w1 i. admitAgentRequest ''t1'' (\<lambda>_. []) ex_asked (ex_question (JStr ''rm'')) asked_world = Some (Inr i, w1) \<and> inter_adv ex_interaction i"
proof -
  have u: "adapter_requests.unique asked_world" by (simp add: adapter_requests.unique_def asked_world_reads)
  have k: "adapter_key ex_interaction = (''s1'', ''l1'', ar_adapterRequestId (ex_question (JStr ''rm'')))"
    by (simp add: adapter_key_def ex_interaction_def ex_question_def)
  have "case admitAgentRequest ''t1'' (\<lambda>_. []) ex_asked (ex_question (JStr ''rm'')) asked_world of Some (Inr _, _) \<Rightarrow> True | _ \<Rightarrow> False"
    by code_simp
  moreover from redelivered_question_is_one_interaction [OF asked_world_inv u _ k, of "''i1''" ex_asked "\<lambda>_. []" "''t1''"]
  have "(\<exists>x w1. admitAgentRequest ''t1'' (\<lambda>_. []) ex_asked (ex_question (JStr ''rm'')) asked_world = Some (Inl x, w1))
      \<or> (\<exists>i w1. admitAgentRequest ''t1'' (\<lambda>_. []) ex_asked (ex_question (JStr ''rm'')) asked_world = Some (Inr i, w1) \<and> inter_adv ex_interaction i)"
    by (auto simp: asked_world_reads ex_asked_def ex_session_def)
  ultimately show ?thesis by auto
qed

text \<open>
  Every projection of an interaction is logged once. Whatever operations run, with any interference that
  keeps the logs of sessions in order with an id of its own for each event, no session's log has two events
  with one id or out of sequence afterwards: a view's event that a reconciliation finds in the log is not
  appended again.
\<close>

lemma interaction_events_logged_once:
  assumes "logs_once w" and "\<forall>x \<in> set ops. inter_op_once x" and "run_inter_ops tenant ops w = Some (w1, answers)"
  shows "distinct (map ev_eventId (readEvents sid 0 w1)) \<and> sorted_wrt (<) (map ev_sequence (readEvents sid 0 w1))"
proof -
  from run_inter_ops_once [OF assms] have o: "logs_once w1" by simp
  with logs_ok_log [of w1 sid] show ?thesis
    unfolding logs_once_reads [OF o] by (auto simp: logs_once_def ids_once_def log_ok_def split: option.splits)
qed

lemma interaction_events_logged_once_witness:
  "\<exists>w1. run_inter_ops ''t1'' ex_answers asked_world = Some (w1, [(''i1'', ''alice'')])
    \<and> map ev_type (readEvents ''s1'' 0 w1) = [InteractionRequested, InteractionResponded]
    \<and> distinct (map ev_eventId (readEvents ''s1'' 0 w1))"
proof -
  have "map_option (\<lambda>(w1, as). (map ev_type (readEvents ''s1'' 0 w1), as)) (run_inter_ops ''t1'' ex_answers asked_world)
    = Some ([InteractionRequested, InteractionResponded], [(''i1'', ''alice'')])" by code_simp
  then obtain w1 where "run_inter_ops ''t1'' ex_answers asked_world = Some (w1, [(''i1'', ''alice'')])"
    "map ev_type (readEvents ''s1'' 0 w1) = [InteractionRequested, InteractionResponded]" by auto
  with interaction_events_logged_once [OF asked_world_once ex_answers_once this(1), of "''s1''"] show ?thesis by auto
qed

end
