(* ===== verification/AgentReports.thy ===== *)
theory AgentReports
  imports Interactions
begin

text \<open>
  What \<^verbatim>\<open>controllers/agent-runtime-event-controller.ts\<close> accepts as the payload of an event of a running
  agent: one parser for each event type (\<open>None\<close> is the thrown error), which copies the known fields of a JSON
  value and leaves out the ones of another type, and the payload interfaces of \<^verbatim>\<open>models/event.ts\<close> as
  predicates on the JSON value that is stored.
\<close>

subsection \<open>Fields\<close>

lemma jfield_notin: "k \<notin> set (map fst kvs) \<Longrightarrow> jfield k (jobj kvs) = None"
  by (induction kvs) (auto simp: jobj_def)

lemma jfield_jobj: "distinct (map fst kvs) \<Longrightarrow> jfield k (jobj kvs) = Option.bind (map_of kvs k) id"
proof (induction kvs)
  case (Cons a kvs)
  then show ?case using jfield_notin [of "fst a" kvs] by (cases a) (auto simp: jobj_def)
qed (simp add: jobj_def)

lemma jfield_jobj_simps [simp]:
  "k \<notin> set (map fst kvs) \<Longrightarrow> jfield k (jobj ((k, v) # kvs)) = v"
  "k \<noteq> k1 \<Longrightarrow> jfield k (jobj ((k1, v) # kvs)) = jfield k (jobj kvs)"
  "jfield k (jobj []) = None"
  using jfield_notin [of k kvs] by (auto simp: jobj_def)

lemma isRecord_jobj [simp]: "isRecord (Some (jobj kvs))"
  by (simp add: jobj_def)

lemma jstring_JStr [simp]: "jstring (map_option JStr v) = v"
  by (cases v) simp_all

text \<open>\<^verbatim>\<open>typeof x === 'string' ? x : undefined\<close>, as the value of a property.\<close>

definition stringField :: "string \<Rightarrow> json \<Rightarrow> json option" where
  "stringField k j = map_option JStr (jstring (jfield k j))"

definition is_string :: "json option \<Rightarrow> bool" where
  "is_string v = (jstring v \<noteq> None)"

fun is_number :: "json option \<Rightarrow> bool" where
  "is_number (Some (JNum n)) = True"
| "is_number _ = False"

definition string_or_absent :: "json option \<Rightarrow> bool" where
  "string_or_absent v = (v = None \<or> is_string v)"

lemma is_string_iff: "is_string v \<longleftrightarrow> (\<exists>s. v = Some (JStr s))"
  unfolding is_string_def by (cases v rule: jstring.cases) auto

lemma stringField_simps [simp]:
  "is_string (jfield k j) \<Longrightarrow> stringField k j = jfield k j"
  "jfield k j = None \<Longrightarrow> stringField k j = None"
  by (auto simp: stringField_def is_string_iff)

lemma stringField_typed [simp]: "string_or_absent (stringField k j)" "string_or_absent None"
  by (auto simp: string_or_absent_def stringField_def is_string_def)

lemma stringField_absent: "string_or_absent (jfield k j) \<Longrightarrow> stringField k j = jfield k j"
  by (auto simp: string_or_absent_def)

text \<open>The JSON body of an event; an event of a worker has no other payload.\<close>

fun jsonBody :: "payload \<Rightarrow> json option" where
  "jsonBody (JsonPayload j) = Some j"
| "jsonBody _ = None"

subsection \<open>Parsers\<close>

text \<open>An error object: its message (or the default), code and details.\<close>

definition parseError :: "json \<Rightarrow> json" where
  "parseError e = jobj
     [(''message'', Some (JStr (orElse (jstring (jfield ''message'' e)) ''agent turn failed''))),
      (''code'', stringField ''code'' e), (''details'', jfield ''details'' e)]"

definition parseStatusChangedPayload :: "json option \<Rightarrow> (session_status \<times> string option) option" where
  "parseStatusChangedPayload b =
     (if \<not> isRecord b then None
      else
        (let p = the b in
         if jfield ''status'' p = Some (JStr ''running'') then Some (Running, jstring (jfield ''reason'' p))
         else if jfield ''status'' p = Some (JStr ''failed'') then Some (Failed, jstring (jfield ''reason'' p))
         else None))"

definition statusText :: "session_status \<Rightarrow> string" where
  "statusText st = (if st = Failed then ''failed'' else ''running'')"

definition statusChangedJson :: "session_status \<times> string option \<Rightarrow> json" where
  "statusChangedJson p = jobj [(''status'', Some (JStr (statusText (fst p)))), (''reason'', map_option JStr (snd p))]"

text \<open>A started or completed tool call, with its summary under the given name.\<close>

definition parseToolEvent :: "string \<Rightarrow> json option \<Rightarrow> json option" where
  "parseToolEvent summary v =
     (if isRecord v \<and> is_string (jfield ''toolCallId'' (the v)) \<and> is_string (jfield ''toolName'' (the v))
      then Some (jobj [(''toolCallId'', jfield ''toolCallId'' (the v)), (''toolName'', jfield ''toolName'' (the v)),
                       (summary, jfield summary (the v))])
      else None)"

definition parseInternalEvent :: "json option \<Rightarrow> json option" where
  "parseInternalEvent v =
     (if isRecord v \<and> is_string (jfield ''type'' (the v))
      then Some (jobj [(''type'', jfield ''type'' (the v)), (''data'', jfield ''data'' (the v))])
      else None)"

definition parseAgentOutputPayload :: "json option \<Rightarrow> json option" where
  "parseAgentOutputPayload b =
     (if \<not> isRecord b then None
      else
        (let p = the b;
             error = (if isRecord (jfield ''error'' p) then Some (parseError (the (jfield ''error'' p))) else None)
         in Some (jobj
              [(''message'', stringField ''message'' p), (''delta'', stringField ''delta'' p), (''progress'', stringField ''progress'' p),
               (''toolStarted'', parseToolEvent ''inputSummary'' (jfield ''toolStarted'' p)),
               (''toolCompleted'', parseToolEvent ''outputSummary'' (jfield ''toolCompleted'' p)),
               (''approvalRequested'', jfield ''approvalRequested'' p),
               (''internalEvent'', parseInternalEvent (jfield ''internalEvent'' p)),
               (''output'', jfield ''output'' p), (''error'', error)])))"

definition parseWorkerCommandRejectedPayload :: "json option \<Rightarrow> json option" where
  "parseWorkerCommandRejectedPayload b =
     (if \<not> isRecord b then None
      else
        (let p = the b in
         if jfield ''reason'' p \<noteq> Some (JStr ''stale_session_lease'') \<and> jfield ''reason'' p \<noteq> Some (JStr ''unknown_session'')
            \<and> jfield ''reason'' p \<noteq> Some (JStr ''agent_not_running'')
         then None
         else Some (jobj [(''reason'', jfield ''reason'' p), (''expectedSessionLeaseId'', stringField ''expectedSessionLeaseId'' p),
                          (''receivedSessionLeaseId'', stringField ''receivedSessionLeaseId'' p)])))"

text \<open>The accepted command's payload is kept as it is.\<close>

definition parseWorkerCommandAcceptedPayload :: "json option \<Rightarrow> json option" where
  "parseWorkerCommandAcceptedPayload b =
     (if isRecord b \<and> is_string (jfield ''commandEventId'' (the b)) \<and> is_number (jfield ''turnSeq'' (the b)) then b else None)"

definition parseAgentInteractionRequestedPayload :: "json option \<Rightarrow> agent_request option" where
  "parseAgentInteractionRequestedPayload b =
     (if \<not> isRecord b \<or> \<not> truthy (jstring (jfield ''adapterRequestId'' (the b))) then None
      else
        (let p = the b; rid = the (jstring (jfield ''adapterRequestId'' p)) in
         if jfield ''kind'' p = Some (JStr ''approval'')
         then Some \<lparr>ar_adapterRequestId = rid, ar_kind = Approval, ar_request = jfield ''request'' p\<rparr>
         else if jfield ''kind'' p = Some (JStr ''tool_call'')
         then Some \<lparr>ar_adapterRequestId = rid, ar_kind = ToolCall, ar_request = jfield ''request'' p\<rparr>
         else None))"

definition parseTurnCompletedPayload :: "json option \<Rightarrow> json option" where
  "parseTurnCompletedPayload b =
     (if \<not> isRecord b \<or> \<not> isRecord (jfield ''result'' (the b)) then None
      else
        (let r = the (jfield ''result'' (the b))
         in Some (jobj [(''result'', Some (jobj [(''message'', stringField ''message'' r), (''output'', jfield ''output'' r)]))])))"

definition parseTurnFailedPayload :: "json option \<Rightarrow> json option" where
  "parseTurnFailedPayload b =
     (if \<not> isRecord b \<or> \<not> isRecord (jfield ''error'' (the b)) then None
      else Some (jobj [(''error'', Some (parseError (the (jfield ''error'' (the b)))))]))"

fun parsePart :: "json \<Rightarrow> snapshot_part option" where
  "parsePart (JStr s) = (if s = ''workspace'' then Some WorkspacePart else if s = ''agent-state'' then Some AgentStatePart else None)"
| "parsePart _ = None"

fun parseParts :: "json list \<Rightarrow> snapshot_part list option" where
  "parseParts [] = Some []"
| "parseParts (j # js) =
     (case (parsePart j, parseParts js) of (Some p, Some ps) \<Rightarrow> Some (p # ps) | _ \<Rightarrow> None)"

fun jarray :: "json option \<Rightarrow> json list option" where
  "jarray (Some (JArr js)) = Some js"
| "jarray _ = None"

text \<open>The outer option is the thrown error, the inner one a report without a snapshot.\<close>

definition parseSnapshotReport :: "json option \<Rightarrow> (string \<times> snapshot_part list) option option" where
  "parseSnapshotReport v =
     (if v = None then Some None
      else if \<not> isRecord v \<or> \<not> is_string (jfield ''snapshotId'' (the v)) \<or> jarray (jfield ''parts'' (the v)) = None then None
      else
        (case parseParts (the (jarray (jfield ''parts'' (the v)))) of
           None \<Rightarrow> None
         | Some ps \<Rightarrow> Some (Some (the (jstring (jfield ''snapshotId'' (the v))), ps))))"

definition pause_reasons :: "string list" where
  "pause_reasons = [''idle_timeout'', ''client_requested'', ''parent_terminal'']"

definition parseSessionPausedPayload :: "json option \<Rightarrow> (string option \<times> (string \<times> snapshot_part list) option) option" where
  "parseSessionPausedPayload b =
     (if \<not> isRecord b then None
      else
        (let p = the b; reason = jfield ''reason'' p in
         if reason \<noteq> None \<and> reason \<notin> set (map (\<lambda>r. Some (JStr r)) pause_reasons) then None
         else map_option (\<lambda>sn. (jstring reason, sn)) (parseSnapshotReport (jfield ''snapshot'' p))))"

subsection \<open>The payload interfaces\<close>

definition is_error :: "json option \<Rightarrow> bool" where
  "is_error v = (isRecord v \<and> is_string (jfield ''message'' (the v)) \<and> string_or_absent (jfield ''code'' (the v)))"

definition is_toolEvent :: "json option \<Rightarrow> bool" where
  "is_toolEvent v = (isRecord v \<and> is_string (jfield ''toolCallId'' (the v)) \<and> is_string (jfield ''toolName'' (the v)))"

definition is_AgentOutputPayload :: "json \<Rightarrow> bool" where
  "is_AgentOutputPayload p =
     (isRecord (Some p) \<and> string_or_absent (jfield ''message'' p) \<and> string_or_absent (jfield ''delta'' p)
      \<and> string_or_absent (jfield ''progress'' p)
      \<and> (jfield ''toolStarted'' p = None \<or> is_toolEvent (jfield ''toolStarted'' p))
      \<and> (jfield ''toolCompleted'' p = None \<or> is_toolEvent (jfield ''toolCompleted'' p))
      \<and> (jfield ''internalEvent'' p = None
          \<or> isRecord (jfield ''internalEvent'' p) \<and> is_string (jfield ''type'' (the (jfield ''internalEvent'' p))))
      \<and> (jfield ''error'' p = None \<or> is_error (jfield ''error'' p)))"

definition is_TurnCompletedPayload :: "json \<Rightarrow> bool" where
  "is_TurnCompletedPayload p =
     (isRecord (Some p) \<and> isRecord (jfield ''result'' p) \<and> string_or_absent (jfield ''message'' (the (jfield ''result'' p))))"

definition is_TurnFailedPayload :: "json \<Rightarrow> bool" where
  "is_TurnFailedPayload p = (isRecord (Some p) \<and> is_error (jfield ''error'' p))"

definition is_StatusChangedPayload :: "json \<Rightarrow> bool" where
  "is_StatusChangedPayload p =
     (isRecord (Some p) \<and> jfield ''status'' p \<in> {Some (JStr ''running''), Some (JStr ''failed'')} \<and> string_or_absent (jfield ''reason'' p))"

definition is_WorkerCommandRejectedPayload :: "json \<Rightarrow> bool" where
  "is_WorkerCommandRejectedPayload p =
     (isRecord (Some p)
      \<and> jfield ''reason'' p \<in> {Some (JStr ''stale_session_lease''), Some (JStr ''unknown_session''), Some (JStr ''agent_not_running''),
           Some (JStr ''turn_input_conflict'')}
      \<and> string_or_absent (jfield ''expectedSessionLeaseId'' p) \<and> string_or_absent (jfield ''receivedSessionLeaseId'' p))"

definition is_WorkerCommandAcceptedPayload :: "json \<Rightarrow> bool" where
  "is_WorkerCommandAcceptedPayload p =
     (isRecord (Some p) \<and> is_string (jfield ''commandEventId'' p) \<and> is_number (jfield ''turnSeq'' p))"

subsection \<open>What a parser returns\<close>

lemma is_error_parse [simp]: "is_error (Some (parseError e))"
  by (simp add: is_error_def parseError_def is_string_def)

lemma isRecord_parseError [simp]: "isRecord (Some (parseError e))"
  by (simp add: parseError_def)

lemma stringField_again [simp]: "map_option JStr (jstring (stringField k j)) = stringField k j"
  by (simp add: stringField_def)

lemma parseError_idem [simp]: "parseError (parseError e) = parseError e"
  by (simp add: parseError_def stringField_def)

lemma toolEvent_typed:
  assumes "k \<noteq> ''toolCallId''" and "k \<noteq> ''toolName''"
  shows "parseToolEvent k v = None \<or> is_toolEvent (parseToolEvent k v)" and "parseToolEvent k (parseToolEvent k v) = parseToolEvent k v"
  using assms by (auto simp: parseToolEvent_def is_toolEvent_def)

lemma internalEvent_again: "parseInternalEvent (parseInternalEvent v) = parseInternalEvent v"
  by (auto simp: parseInternalEvent_def is_string_def)

text \<open>The stored payload of each event type: what the parser returns, as the JSON value that is logged.\<close>

definition storedPayload :: "event_type \<Rightarrow> json option \<Rightarrow> json option" where
  "storedPayload ty b =
     (case ty of
        StatusChanged \<Rightarrow> map_option statusChangedJson (parseStatusChangedPayload b)
      | AgentOutput \<Rightarrow> parseAgentOutputPayload b
      | TurnCompleted \<Rightarrow> parseTurnCompletedPayload b
      | TurnFailed \<Rightarrow> parseTurnFailedPayload b
      | WorkerCommandRejected \<Rightarrow> parseWorkerCommandRejectedPayload b
      | WorkerCommandAccepted \<Rightarrow> parseWorkerCommandAcceptedPayload b
      | SessionPaused \<Rightarrow> map_option (\<lambda>p. jobj [(''reason'', map_option JStr (fst p))]) (parseSessionPausedPayload b)
      | _ \<Rightarrow> None)"

text \<open>The declared payload type of each event type.\<close>

definition declaredPayload :: "event_type \<Rightarrow> json \<Rightarrow> bool" where
  "declaredPayload ty p =
     (case ty of
        StatusChanged \<Rightarrow> is_StatusChangedPayload p
      | AgentOutput \<Rightarrow> is_AgentOutputPayload p
      | TurnCompleted \<Rightarrow> is_TurnCompletedPayload p
      | TurnFailed \<Rightarrow> is_TurnFailedPayload p
      | WorkerCommandRejected \<Rightarrow> is_WorkerCommandRejectedPayload p
      | WorkerCommandAccepted \<Rightarrow> is_WorkerCommandAcceptedPayload p
      | SessionPaused \<Rightarrow> isRecord (Some p) \<and> jfield ''reason'' p \<in> insert None (set (map (\<lambda>r. Some (JStr r)) pause_reasons))
      | _ \<Rightarrow> False)"

lemma internalEvent_typed:
  "parseInternalEvent v = None \<or> isRecord (parseInternalEvent v) \<and> is_string (jfield ''type'' (the (parseInternalEvent v)))"
  by (simp add: parseInternalEvent_def)

lemma agentOutput_typed:
  assumes "parseAgentOutputPayload b = Some p"
  shows "is_AgentOutputPayload p \<and> parseAgentOutputPayload (Some p) = Some p"
proof -
  let ?q = "the b"
  let ?err = "if isRecord (jfield ''error'' ?q) then Some (parseError (the (jfield ''error'' ?q))) else None"
  let ?fields = "[(''message'', stringField ''message'' ?q), (''delta'', stringField ''delta'' ?q), (''progress'', stringField ''progress'' ?q),
     (''toolStarted'', parseToolEvent ''inputSummary'' (jfield ''toolStarted'' ?q)),
     (''toolCompleted'', parseToolEvent ''outputSummary'' (jfield ''toolCompleted'' ?q)),
     (''approvalRequested'', jfield ''approvalRequested'' ?q),
     (''internalEvent'', parseInternalEvent (jfield ''internalEvent'' ?q)), (''output'', jfield ''output'' ?q), (''error'', ?err)]"
  from assms have p: "p = jobj ?fields" by (auto simp: parseAgentOutputPayload_def Let_def split: if_splits)
  have f: "jfield ''message'' p = stringField ''message'' ?q" "jfield ''delta'' p = stringField ''delta'' ?q"
    "jfield ''progress'' p = stringField ''progress'' ?q"
    "jfield ''toolStarted'' p = parseToolEvent ''inputSummary'' (jfield ''toolStarted'' ?q)"
    "jfield ''toolCompleted'' p = parseToolEvent ''outputSummary'' (jfield ''toolCompleted'' ?q)"
    "jfield ''approvalRequested'' p = jfield ''approvalRequested'' ?q"
    "jfield ''internalEvent'' p = parseInternalEvent (jfield ''internalEvent'' ?q)" "jfield ''output'' p = jfield ''output'' ?q"
    "jfield ''error'' p = ?err" unfolding p by simp_all
  have r: "isRecord (Some p)" unfolding p by simp
  have t: "is_AgentOutputPayload p"
    unfolding is_AgentOutputPayload_def f using r toolEvent_typed(1) internalEvent_typed by simp
  have s: "stringField ''message'' p = stringField ''message'' ?q" "stringField ''delta'' p = stringField ''delta'' ?q"
    "stringField ''progress'' p = stringField ''progress'' ?q"
    unfolding stringField_def f(1-3) by simp_all
  have e: "(if isRecord ?err then Some (parseError (the ?err)) else None) = ?err" by simp
  have "parseAgentOutputPayload (Some p) = Some (jobj ?fields)"
    unfolding parseAgentOutputPayload_def Let_def option.sel f s e using r toolEvent_typed(2) internalEvent_again by simp
  with t p show ?thesis by simp
qed

lemma turn_typed:
  "parseTurnCompletedPayload b = Some p \<Longrightarrow> is_TurnCompletedPayload p \<and> parseTurnCompletedPayload (Some p) = Some p"
  "parseTurnFailedPayload b = Some p \<Longrightarrow> is_TurnFailedPayload p \<and> parseTurnFailedPayload (Some p) = Some p"
  by (auto simp: parseTurnCompletedPayload_def is_TurnCompletedPayload_def parseTurnFailedPayload_def is_TurnFailedPayload_def
      Let_def stringField_def [of _ "jobj _"] split: if_splits)

lemma statusChanged_typed:
  "parseStatusChangedPayload b = Some p \<Longrightarrow>
     is_StatusChangedPayload (statusChangedJson p) \<and> parseStatusChangedPayload (Some (statusChangedJson p)) = Some p"
  by (auto simp: parseStatusChangedPayload_def statusChangedJson_def is_StatusChangedPayload_def statusText_def Let_def
      string_or_absent_def is_string_def split: if_splits)

lemma commandReply_typed:
  "parseWorkerCommandRejectedPayload b = Some p \<Longrightarrow> is_WorkerCommandRejectedPayload p \<and> parseWorkerCommandRejectedPayload (Some p) = Some p"
  "parseWorkerCommandAcceptedPayload b = Some p \<Longrightarrow> is_WorkerCommandAcceptedPayload p \<and> parseWorkerCommandAcceptedPayload (Some p) = Some p"
  by (auto simp: parseWorkerCommandRejectedPayload_def is_WorkerCommandRejectedPayload_def Let_def parseWorkerCommandAcceptedPayload_def
      is_WorkerCommandAcceptedPayload_def stringField_def [of _ "jobj _"] split: if_splits)

lemma paused_typed:
  assumes "parseSessionPausedPayload b = Some p"
  shows "map_option JStr (fst p) \<in> insert None (set (map (\<lambda>r. Some (JStr r)) pause_reasons))"
    and "map_option fst (parseSessionPausedPayload (Some (jobj [(''reason'', map_option JStr (fst p))]))) = Some (fst p)"
  using assms by (auto simp: parseSessionPausedPayload_def Let_def parseSnapshotReport_def pause_reasons_def split: if_splits option.splits)

subsection \<open>Properties\<close>



end
