(* ===== verification/AgentEvents.thy ===== *)
theory AgentEvents
  imports AgentReports Workers LogIds
begin

text \<open>
  \<^verbatim>\<open>controllers/agent-runtime-event-controller.ts\<close>: the events of a running agent become the session's
  history, once for each event id and only under the session's current lease. The appends of one session run one
  after the other (\<^verbatim>\<open>sessionAppendTails\<close>). The reconciler it triggers is a parameter; its failures are
  logged. Interactions are interrupted, admitted and acknowledged through the interaction manager, with other tasks
  running between its reads and writes (\<open>env\<close>, \<open>renv\<close>).
\<close>

record report_config =
  rc_tenantId :: string
  rc_hook :: terminal_hook
  rc_reconcile :: "unit wop"

text \<open>The options of \<^verbatim>\<open>appendSessionEvent\<close>, and its outcome.\<close>

record append_options =
  ao_assertLease :: bool
  ao_status :: "session_status option"
  ao_reason :: "string option"

definition plain :: append_options where
  "plain = \<lparr>ao_assertLease = True, ao_status = None, ao_reason = None\<rparr>"

record append_outcome =
  at_event :: runtime_event
  at_duplicate :: bool
  at_current :: bool

record report_outcome =
  ro_handled :: bool
  ro_duplicate :: bool

definition reportSession :: "runtime_event \<Rightarrow> session wop" where
  "reportSession e w =
     (if \<not> truthy (ev_sessionId e) then throw (InvalidEvent (ev_type e)) w
      else case readSession (the (ev_sessionId e)) w of
             None \<Rightarrow> throw (SessionNotFound (the (ev_sessionId e))) w
           | Some s \<Rightarrow> ok s w)"

definition assertReportLease :: "session \<Rightarrow> runtime_event \<Rightarrow> unit wop" where
  "assertReportLease s e =
     (case ev_sessionLeaseId e of None \<Rightarrow> throw (InvalidEvent (ev_type e)) | Some lease \<Rightarrow> assertCurrentLease s lease)"

text \<open>The transition, or the cursor alone, that an event moves the session by.\<close>

definition followEvent :: "terminal_hook \<Rightarrow> append_options \<Rightarrow> session \<Rightarrow> runtime_event \<Rightarrow> unit wop" where
  "followEvent hook opts s e =
     (case ao_status opts of
        Some st \<Rightarrow> andThen (transitionAfterEvent hook s st (ev_sequence e) (ev_timestamp e) (ao_reason opts)) (\<lambda>_. ok ())
      | None \<Rightarrow> (\<lambda>w. ok () (snd (advanceEventCursor s (ev_sequence e) w))))"

definition publishEvent :: "string \<Rightarrow> runtime_event \<Rightarrow> unit wop" where
  "publishEvent sid e w = ok () (publish (SessionEvents sid) e w)"

text \<open>An event that is in the log already: the session is brought up to it.\<close>

definition redelivered :: "terminal_hook \<Rightarrow> append_options \<Rightarrow> session \<Rightarrow> runtime_event \<Rightarrow> append_outcome wop" where
  "redelivered hook opts s existing =
     (let out = \<lparr>at_event = existing, at_duplicate = True, at_current = ses_eventCursor s \<le> ev_sequence existing\<rparr>
      in if ses_eventCursor s < ev_sequence existing
         then andThen (followEvent hook opts s existing) (\<lambda>_.
              andThen (publishEvent (ses_sessionId s) existing) (\<lambda>_. ok out))
         else if ses_eventCursor s = ev_sequence existing \<and> ao_status opts \<noteq> None
         then andThen (if Some (ses_status s) \<noteq> ao_status opts \<or> ses_lifecycleReason s \<noteq> ao_reason opts
                       then andThen (transitionAfterEvent hook s (the (ao_status opts)) (ev_sequence existing) (ev_timestamp existing)
                                       (ao_reason opts)) (\<lambda>_. ok ())
                       else reconcileTerminalHook hook s) (\<lambda>_.
              andThen (publishEvent (ses_sessionId s) existing) (\<lambda>_. ok out))
         else ok out)"

definition report_draft :: "runtime_event \<Rightarrow> json \<Rightarrow> session \<Rightarrow> runtime_event" where
  "report_draft e p s =
     (draft (ev_type e) (ev_actor e) (JsonPayload p) (ses_eventCursor s + 1) (Some (ses_sessionId s)))
       \<lparr>ev_workerId := ev_workerId e, ev_turnSeq := ev_turnSeq e, ev_sessionLeaseId := ev_sessionLeaseId e\<rparr>"

text \<open>
  \<^verbatim>\<open>JSON.stringify(existing.payload) !== JSON.stringify(payload)\<close>: an event of an agent is stored with its
  JSON payload; an event central wrote itself has another constructor and a fresh id of its own.
\<close>

definition same_report :: "runtime_event \<Rightarrow> runtime_event \<Rightarrow> json \<Rightarrow> bool" where
  "same_report existing e p =
     (ev_type existing = ev_type e \<and> ev_turnSeq existing = ev_turnSeq e \<and> ev_payload existing = JsonPayload p)"

definition appendSessionEventOnce ::
  "terminal_hook \<Rightarrow> runtime_event \<Rightarrow> json \<Rightarrow> append_options \<Rightarrow> append_outcome wop" where
  "appendSessionEventOnce hook e p opts =
     andThen (reportSession e) (\<lambda>s w.
       (case find (\<lambda>x. ev_eventId x = ev_eventId e) (readEvents (ses_sessionId s) 0 w) of
          Some existing \<Rightarrow>
            if \<not> same_report existing e p then throw (EventConflict (ev_eventId e)) w
            else redelivered hook opts s existing w
        | None \<Rightarrow>
            andThen (if ao_assertLease opts then assertReportLease s e else ok ()) (\<lambda>_.
            andThen (logAppend (Some (ev_eventId e)) (report_draft e p s)) (\<lambda>appended.
            andThen (followEvent hook opts s appended) (\<lambda>_.
            andThen (publishEvent (ses_sessionId s) appended) (\<lambda>_.
              ok \<lparr>at_event = appended, at_duplicate = False, at_current = True\<rparr>)))) w))"

definition appendSessionEvent ::
  "terminal_hook \<Rightarrow> runtime_event \<Rightarrow> json \<Rightarrow> append_options \<Rightarrow> append_outcome wop" where
  "appendSessionEvent hook e p opts =
     (if \<not> truthy (ev_sessionId e) then throw (InvalidEvent (ev_type e)) else appendSessionEventOnce hook e p opts)"

text \<open>A parsed payload, or the error of the parser.\<close>

definition parsed :: "runtime_event \<Rightarrow> (json option \<Rightarrow> 'a option) \<Rightarrow> 'a wop" where
  "parsed e f = (case f (jsonBody (ev_payload e)) of None \<Rightarrow> throw (InvalidEvent (ev_type e)) | Some p \<Rightarrow> ok p)"

subsection \<open>One handler for each event type\<close>

definition handled :: "append_outcome \<Rightarrow> report_outcome" where
  "handled a = \<lparr>ro_handled = True, ro_duplicate = at_duplicate a\<rparr>"

definition status_update :: "runtime_event \<Rightarrow> session_status \<Rightarrow> string option \<Rightarrow> runtime_event" where
  "status_update e st reason =
     e\<lparr>ev_ackId := None, ev_type := SessionStatusUpdated, ev_payload := StatusPayload (the (ev_sessionId e)) st reason\<rparr>"

definition handleStatusChanged ::
  "report_config \<Rightarrow> (nat \<Rightarrow> tasks) \<Rightarrow> (nat \<Rightarrow> nat \<Rightarrow> tasks) \<Rightarrow> runtime_event \<Rightarrow> report_outcome async" where
  "handleStatusChanged cfg env renv e =
     awaiting (sync (parsed e parseStatusChangedPayload)) (\<lambda>p.
     awaiting (sync (appendSessionEvent (rc_hook cfg) e (statusChangedJson p)
                \<lparr>ao_assertLease = True, ao_status = Some (fst p), ao_reason = snd p\<rparr>)) (\<lambda>a.
     awaiting (if fst p = Failed \<and> truthy (ev_sessionId e)
               then interruptForOwnerSession env renv (the (ev_sessionId e)) OwnerSessionTerminal
               else (\<lambda>w. Some (Inr (), w))) (\<lambda>_ w.
       Some (Inr (handled a),
             (if at_current a then publish ClientInbox (status_update (at_event a) (fst p) (snd p)) w else w)))))"

text \<open>\<^verbatim>\<open>agent.output\<close>, \<^verbatim>\<open>turn.completed\<close> and \<^verbatim>\<open>worker.command.rejected\<close> are appended, and that is all.\<close>

definition handleAppended :: "report_config \<Rightarrow> (json option \<Rightarrow> json option) \<Rightarrow> append_options \<Rightarrow> runtime_event \<Rightarrow> report_outcome async" where
  "handleAppended cfg parse opts e =
     awaiting (sync (parsed e parse)) (\<lambda>p.
     awaiting (sync (appendSessionEvent (rc_hook cfg) e p opts)) (\<lambda>a w. Some (Inr (handled a), w)))"

definition handleTurnFailed ::
  "report_config \<Rightarrow> (nat \<Rightarrow> tasks) \<Rightarrow> (nat \<Rightarrow> nat \<Rightarrow> tasks) \<Rightarrow> runtime_event \<Rightarrow> report_outcome async" where
  "handleTurnFailed cfg env renv e =
     awaiting (sync (parsed e parseTurnFailedPayload)) (\<lambda>p.
     awaiting (sync (appendSessionEvent (rc_hook cfg) e p plain)) (\<lambda>a.
     awaiting (if truthy (ev_sessionId e) then interruptForOwnerSession env renv (the (ev_sessionId e)) OwnerTurnFailed
               else (\<lambda>w. Some (Inr (), w))) (\<lambda>_ w. Some (Inr (handled a), w))))"

definition handleCommandAccepted :: "report_config \<Rightarrow> tasks \<Rightarrow> runtime_event \<Rightarrow> report_outcome async" where
  "handleCommandAccepted cfg env e =
     awaiting (sync (parsed e parseWorkerCommandAcceptedPayload)) (\<lambda>p.
     awaiting (sync (appendSessionEvent (rc_hook cfg) e p plain)) (\<lambda>a.
     awaiting (acknowledgeDelivery env (the (jstring (jfield ''commandEventId'' p)))) (\<lambda>_ w. Some (Inr (handled a), w))))"

definition handleInteractionRequested :: "report_config \<Rightarrow> (nat \<Rightarrow> tasks) \<Rightarrow> runtime_event \<Rightarrow> report_outcome async" where
  "handleInteractionRequested cfg env e =
     awaiting (sync (parsed e parseAgentInteractionRequestedPayload)) (\<lambda>p.
     awaiting (admitAgentRequest (rc_tenantId cfg) env e p) (\<lambda>_ w. Some (Inr \<lparr>ro_handled = True, ro_duplicate = False\<rparr>, w)))"

text \<open>The snapshot marker that follows a pause with a capture: what the session's record ends at.\<close>

definition snapshotMarker ::
  "session \<Rightarrow> string \<times> snapshot_part list \<Rightarrow> int \<times> time \<times> string option \<Rightarrow> (int \<times> time \<times> string option) wop" where
  "snapshotMarker s report final =
     andThen (recordCapture s (fst report) (snd report)) (\<lambda>snapshot.
       (case snapshot of
          None \<Rightarrow> ok final
        | Some sn \<Rightarrow>
            andThen (logAppend None (draft SnapshotCreated CentralActor
                (JsonPayload (JObj [(''snapshotId'', JStr (sn_snapshotId sn)), (''baseEventCursor'', JNum (sn_baseEventCursor sn))]))
                (ses_eventCursor s + 1) (Some (ses_sessionId s)))) (\<lambda>marker w.
              ok (ev_sequence marker, ev_timestamp marker, Some (sn_snapshotId sn))
                (publish (SessionEvents (ses_sessionId s)) marker (snd (advanceEventCursor s (ev_sequence marker) w))))))"

definition triggerReconcile :: "report_config \<Rightarrow> world \<Rightarrow> world" where
  "triggerReconcile cfg w = snd (rc_reconcile cfg w)"

definition handleSessionPaused :: "report_config \<Rightarrow> runtime_event \<Rightarrow> report_outcome wop" where
  "handleSessionPaused cfg e =
     andThen (parsed e parseSessionPausedPayload) (\<lambda>p.
     andThen (appendSessionEvent (rc_hook cfg) e (jobj [(''reason'', map_option JStr (fst p))]) plain) (\<lambda>a.
     andThen (reportSession e) (\<lambda>s.
     andThen (case snd p of
                None \<Rightarrow> ok (ev_sequence (at_event a), ev_timestamp (at_event a), ses_latestSnapshotRef s)
              | Some report \<Rightarrow> snapshotMarker s report (ev_sequence (at_event a), ev_timestamp (at_event a), ses_latestSnapshotRef s)) (\<lambda>final.
     andThen (if truthy (ses_currentWorkerId s) then andThen (releaseSessionLease (the (ses_currentWorkerId s))) (\<lambda>_. ok ())
              else ok ()) (\<lambda>_ w.
       (let (paused, w1) = pauseAfterEvent s (fst final) (fst (snd final)) (fst p) (snd (snd final)) w;
            w2 = triggerReconcile cfg w1
        in ok (handled a)
             (if at_duplicate a then w2 else publish ClientInbox (status_update (at_event a) Paused (fst p)) w2)))))))"

definition handleRuntimeEvent ::
  "report_config \<Rightarrow> (nat \<Rightarrow> tasks) \<Rightarrow> (nat \<Rightarrow> nat \<Rightarrow> tasks) \<Rightarrow> runtime_event \<Rightarrow> report_outcome async" where
  "handleRuntimeEvent cfg env renv e =
     (case ev_type e of
        StatusChanged \<Rightarrow> handleStatusChanged cfg env renv e
      | AgentOutput \<Rightarrow> handleAppended cfg parseAgentOutputPayload plain e
      | TurnCompleted \<Rightarrow> handleAppended cfg parseTurnCompletedPayload plain e
      | TurnFailed \<Rightarrow> handleTurnFailed cfg env renv e
      | WorkerCommandRejected \<Rightarrow> handleAppended cfg parseWorkerCommandRejectedPayload (plain\<lparr>ao_assertLease := False\<rparr>) e
      | WorkerCommandAccepted \<Rightarrow> handleCommandAccepted cfg (env 0) e
      | AgentInteractionRequested \<Rightarrow> handleInteractionRequested cfg env e
      | SessionPaused \<Rightarrow> sync (handleSessionPaused cfg e)
      | _ \<Rightarrow> (\<lambda>w. Some (Inr \<lparr>ro_handled = False, ro_duplicate = False\<rparr>, w)))"

definition acknowledgeWorkerResultIfNeeded :: "runtime_event \<Rightarrow> unit wop" where
  "acknowledgeWorkerResultIfNeeded e w =
     (if ev_type e \<noteq> TurnCompleted \<and> ev_type e \<noteq> TurnFailed then ok () w
      else if \<not> truthy (ev_workerId e) \<or> \<not> truthy (ev_sessionId e) \<or> ev_turnSeq e = None then throw (InvalidEvent (ev_type e)) w
      else
        (let (eid, w1) = freshId w; (t, w2) = now w1
         in ok () (publish (WorkerCommands (the (ev_workerId e)))
              \<lparr>ev_eventId = eid, ev_sessionId = ev_sessionId e, ev_workerId = ev_workerId e, ev_ackId = None, ev_turnSeq = ev_turnSeq e,
               ev_sequence = 0, ev_type = WorkerResultAcknowledged, ev_timestamp = t, ev_actor = CentralActor,
               ev_sessionLeaseId = ev_sessionLeaseId e,
               ev_payload = JsonPayload (JObj [(''resultEventId'', JStr (ev_eventId e))])\<rparr> w2)))"

end
