(* ===== verification/AgentEventProps.thy ===== *)
theory AgentEventProps
  imports AgentEvents InteractionProps
begin

text \<open>
  What the agent event controller promises: a report is taken once, only under the current lease, with a payload of
  the declared type; and two places where it does not.
\<close>

subsection \<open>Reading the log\<close>

lemma reportSession_some:
  assumes "ev_sessionId e = Some sid" and "sid \<noteq> []" and "readSession sid w = Some s"
  shows "reportSession e w = (Inr s, w)"
  using assms by (simp add: reportSession_def)

lemma reportSession_same [simp]: "snd (reportSession e w) = w"
  by (simp add: reportSession_def split: option.splits)

lemma logged_found:
  assumes once: "logs_once w" and x: "x \<in> set (sessionEvents sid w)"
  shows "find (\<lambda>y. ev_eventId y = ev_eventId x) (readEvents sid 0 w) = Some x"
proof -
  have d: "distinct (map ev_eventId (sessionEvents sid w))" using once by (simp add: logs_once_def ids_once_def)
  have "find (\<lambda>y. ev_eventId y = ev_eventId x) es = Some x" if "distinct (map ev_eventId es)" "x \<in> set es" for es
    using that by (induction es) auto
  with d x show ?thesis by (simp add: logs_once_reads [OF once])
qed

text \<open>A report without a status that is in the log: nothing happens.\<close>

lemma append_known:
  assumes once: "logs_once w" and s: "readSession sid w = Some s" and e: "ev_sessionId e = Some sid" "sid \<noteq> []"
    and x: "x \<in> set (sessionEvents sid w)" "ev_eventId x = ev_eventId e" "same_report x e p" and opts: "ao_status opts = None"
  shows "appendSessionEvent hook e p opts w
    = (Inr \<lparr>at_event = x, at_duplicate = True, at_current = (ses_eventCursor s \<le> ev_sequence x)\<rparr>, w)"
proof -
  have id: "ses_sessionId s = sid" using logs_ok_id [OF _ s] once by (simp add: logs_once_def)
  have "ev_sequence x \<le> ses_eventCursor s" by (rule logs_once_cursor [OF once s x(1)])
  moreover have "find (\<lambda>y. ev_eventId y = ev_eventId e) (readEvents sid 0 w) = Some x" using logged_found [OF once x(1)] x(2) by simp
  ultimately show ?thesis
    using e x(3) opts reportSession_some [OF e s] id
    by (simp add: appendSessionEvent_def appendSessionEventOnce_def redelivered_def andThen_def Let_def)
qed

text \<open>What a first delivery leaves in the log.\<close>

lemma same_report_draft: "same_report ((report_draft e p s)\<lparr>ev_eventId := i, ev_timestamp := t\<rparr>) e p"
  by (simp add: same_report_def report_draft_def draft_def)

text \<open>A terminal hook (the revocation of a case's devices) leaves sessions and their logs alone.\<close>

definition hook_ok :: "terminal_hook \<Rightarrow> bool" where
  "hook_ok hook = (\<forall>h. hook = Some h \<longrightarrow> (\<forall>s w. same_logs w (snd (h s w))))"

lemma fire_same_logs: "hook_ok hook \<Longrightarrow> same_logs w (snd (fireTerminalHook hook st s w))"
  "hook_ok hook \<Longrightarrow> same_logs w (snd (reconcileTerminalHook hook s w))"
  by (auto simp: fireTerminalHook_def reconcileTerminalHook_def hook_ok_def split: option.splits)

lemma andThen_always_ok: "snd (andThen m (\<lambda>_. ok r) w) = snd (m w)"
  by (cases "m w"; cases "fst (m w)") (auto simp: andThen_def)

text \<open>How a session's record moves with an event, whatever becomes of the hook.\<close>

lemma followEvent_writes:
  assumes "hook_ok hook"
  obtains n v where "ses_sessionId n = ses_sessionId s" and "ses_eventCursor n = ev_sequence e" and "ses_nextTurnSeq n = ses_nextTurnSeq s"
    and "same_logs w v" and "same_logs (writeSession n v) (snd (followEvent hook opts s e w))"
proof (cases "ao_status opts")
  case None
  show thesis
    by (rule that [of "s\<lparr>ses_eventCursor := ev_sequence e, ses_lastEventUpdatedAt := fst (now w), ses_updatedAt := fst (now w)\<rparr>" "snd (now w)"])
      (simp_all add: None followEvent_def advanceEventCursor_eq Let_def)
next
  case (Some st)
  let ?n = "s\<lparr>ses_status := st, ses_lifecycleReason := ao_reason opts, ses_eventCursor := ev_sequence e,
     ses_lastEventUpdatedAt := ev_timestamp e, ses_updatedAt := fst (now w)\<rparr>"
  show thesis
    by (rule that [of ?n "snd (now w)"])
      (simp_all add: Some followEvent_def transitionAfterEvent_def andThen_always_ok Let_def split_def fire_same_logs [OF assms])
qed

definition agent_report :: "event_type \<Rightarrow> bool" where
  "agent_report ty = (ty \<in> {StatusChanged, AgentOutput, TurnCompleted, TurnFailed, WorkerCommandRejected, WorkerCommandAccepted, SessionPaused})"

lemma report_no_turn: "agent_report (ev_type e) \<Longrightarrow> \<not> turn_event (report_draft e p s)"
  by (auto simp: agent_report_def turn_event_def report_draft_def draft_def)

lemma append_new:
  assumes once: "logs_once w" and s: "readSession sid w = Some s" and e: "ev_sessionId e = Some sid" "sid \<noteq> []" "agent_report (ev_type e)"
    and new: "\<forall>x \<in> set (sessionEvents sid w). ev_eventId x \<noteq> ev_eventId e"
    and hook: "hook_ok hook" and run: "appendSessionEvent hook e p opts w = (r, w1)"
  shows "logs_once w1 \<and> (\<forall>a. r = Inr a \<longrightarrow> \<not> at_duplicate a \<and> at_event a \<in> set (sessionEvents sid w1)
      \<and> ev_eventId (at_event a) = ev_eventId e \<and> same_report (at_event a) e p)
    \<and> (\<forall>x. \<exists>more. sessionEvents x w1 = sessionEvents x w @ more)"
proof -
  have id: "ses_sessionId s = sid" using logs_ok_id [OF _ s] once by (simp add: logs_once_def)
  have none: "find (\<lambda>x. ev_eventId x = ev_eventId e) (readEvents sid 0 w) = None"
    using new by (simp add: logs_once_reads [OF once] find_None_iff_ball)
  let ?lease = "if ao_assertLease opts then assertReportLease s e else ok ()"
  have same: "snd (?lease w) = w" by (simp add: assertReportLease_def assertCurrentLease_def split: option.splits)
  have unfold: "appendSessionEvent hook e p opts w = andThen ?lease (\<lambda>_.
            andThen (logAppend (Some (ev_eventId e)) (report_draft e p s)) (\<lambda>appended.
            andThen (followEvent hook opts s appended) (\<lambda>_.
            andThen (publishEvent sid appended) (\<lambda>_.
              ok \<lparr>at_event = appended, at_duplicate = False, at_current = True\<rparr>)))) w"
    using e reportSession_some [OF e(1,2) s] none id
    by (simp add: appendSessionEvent_def appendSessionEventOnce_def andThen_def)
  show ?thesis
  proof (cases "fst (?lease w)")
    case (Inl x)
    with unfold run same have "w1 = w" "r = Inl x" by (cases "?lease w"; simp add: andThen_def)+
    with once show ?thesis by simp
  next
    case (Inr u)
    let ?d = "report_draft e p s"
    have d: "ev_sessionId ?d = Some sid" "ev_sequence ?d = ses_eventCursor s + 1" by (simp_all add: report_draft_def draft_def id)
    from logAppend_stores [OF d(1) e(2), of "Some (ev_eventId e)" w] obtain x v where
      a: "logAppend (Some (ev_eventId e)) ?d w = (Inr x, v)" by metis
    obtain n u where n: "ses_sessionId n = ses_sessionId s" "ses_eventCursor n = ev_sequence x" "ses_nextTurnSeq n = ses_nextTurnSeq s"
      and u: "same_logs v u" and f: "same_logs (writeSession n u) (snd (followEvent hook opts s x v))"
      using followEvent_writes [OF hook, of s x v opts] by blast
    note o = logs_once_append [OF once s e(2) a d new _ n(2,3) report_no_turn [OF e(3)] u] n(1) id
    have x: "x = ?d\<lparr>ev_eventId := ev_eventId e, ev_timestamp := fst (now w)\<rparr>"
      using a d(1) e(2) by (simp add: logAppend_def idOr_def appendEvent_def Let_def split_def)
    have rest: "same_logs (snd (followEvent hook opts s x v)) w1 \<and> (\<forall>b. r = Inr b \<longrightarrow> at_event b = x \<and> \<not> at_duplicate b)"
      using unfold run same Inr a
      by (cases "?lease w"; cases "followEvent hook opts s x v"; cases "fst (followEvent hook opts s x v)") (auto simp: andThen_def publishEvent_def)
    have l: "same_logs (writeSession n u) w1" using f rest same_logs_trans by blast
    have ev: "sessionEvents y (writeSession n u) = (if y = sid then sessionEvents sid w @ [x] else sessionEvents y w)" for y
      using logAppend_log(2) [OF a d(1) e(2), of y] same_logs_reads [OF u, of y] by (simp add: log_reads_writeSession)
    have "logs_once w1" using same_logs_once [OF l] o by simp
    moreover have "sessionEvents y w1 = (if y = sid then sessionEvents sid w @ [x] else sessionEvents y w)" for y
      using same_logs_reads [OF l, of y] ev [of y] by simp
    ultimately show ?thesis using rest x same_report_draft [where e = e and p = p and s = s] by auto
  qed
qed

subsection \<open>The handlers\<close>

lemma parsed_out:
  "parsed e f w = (case f (jsonBody (ev_payload e)) of None \<Rightarrow> (Inl (InvalidEvent (ev_type e)), w) | Some p \<Rightarrow> (Inr p, w))"
  by (simp add: parsed_def split: option.splits)

text \<open>A report that is only appended.\<close>

definition appended_only :: "event_type \<Rightarrow> bool" where
  "appended_only ty = (ty \<in> {AgentOutput, TurnCompleted, WorkerCommandRejected})"

definition append_opts :: "event_type \<Rightarrow> append_options" where
  "append_opts ty = plain\<lparr>ao_assertLease := (ty \<noteq> WorkerCommandRejected)\<rparr>"

lemma append_opts_status [simp]: "ao_status (append_opts ty) = None"
  by (simp add: append_opts_def plain_def)

lemma handle_appended:
  assumes "appended_only (ev_type e)"
  shows "handleRuntimeEvent cfg env renv e w =
     (case storedPayload (ev_type e) (jsonBody (ev_payload e)) of
        None \<Rightarrow> Some (Inl (InvalidEvent (ev_type e)), w)
      | Some p \<Rightarrow> (case appendSessionEvent (rc_hook cfg) e p (append_opts (ev_type e)) w of
           (Inl x, w1) \<Rightarrow> Some (Inl x, w1) | (Inr a, w1) \<Rightarrow> Some (Inr (handled a), w1)))"
  using assms
  by (auto simp: appended_only_def handleRuntimeEvent_def handleAppended_def awaiting_def sync_def parsed_out storedPayload_def
      append_opts_def plain_def split: option.splits sum.splits prod.splits)

lemma appended_report: "appended_only ty \<Longrightarrow> agent_report ty"
  by (auto simp: appended_only_def agent_report_def)

text \<open>An append that returns has the report in the log, as it was the first time.\<close>

lemma append_logged:
  assumes once: "logs_once w" and e: "ev_sessionId e = Some sid" "sid \<noteq> []" "agent_report (ev_type e)" and hook: "hook_ok hook"
    and opts: "ao_status opts = None" and run: "appendSessionEvent hook e p opts w = (Inr a, w1)"
  shows "\<exists>x \<in> set (sessionEvents sid w1). ev_eventId x = ev_eventId e \<and> same_report x e p \<and> (at_duplicate a \<longrightarrow> w1 = w)"
proof -
  from run e obtain s where s: "readSession sid w = Some s"
    by (auto simp: appendSessionEvent_def appendSessionEventOnce_def reportSession_def andThen_def split: option.splits if_splits)
  show ?thesis
  proof (cases "\<forall>x \<in> set (sessionEvents sid w). ev_eventId x \<noteq> ev_eventId e")
    case True
    from append_new [OF once s e True hook run] show ?thesis by auto
  next
    case False
    then obtain x where x: "x \<in> set (sessionEvents sid w)" "ev_eventId x = ev_eventId e" by blast
    have id: "ses_sessionId s = sid" using logs_ok_id [OF _ s] once by (simp add: logs_once_def)
    have f: "find (\<lambda>y. ev_eventId y = ev_eventId e) (readEvents sid 0 w) = Some x" using logged_found [OF once x(1)] x(2) by simp
    have "same_report x e p"
      using run e f id reportSession_some [OF e(1,2) s]
      by (auto simp: appendSessionEvent_def appendSessionEventOnce_def andThen_def split: if_splits)
    with append_known [OF once s e(1,2) x _ opts, of p hook] run x show ?thesis by auto
  qed
qed

text \<open>The lease check of a report that is not in the log.\<close>

lemma append_stale:
  assumes s: "readSession sid w = Some s" "ses_sessionId s = sid" and e: "ev_sessionId e = Some sid"
    and new: "\<forall>x \<in> set (readEvents sid 0 w). ev_eventId x \<noteq> ev_eventId e"
    and lease: "ev_sessionLeaseId e = None \<or> ev_sessionLeaseId e \<noteq> ses_sessionLeaseId s" and opts: "ao_assertLease opts"
  shows "\<exists>x. appendSessionEvent hook e p opts w = (Inl x, w)"
proof (cases "sid = []")
  case False
  have "find (\<lambda>x. ev_eventId x = ev_eventId e) (readEvents sid 0 w) = None" using new by (simp add: find_None_iff_ball)
  with False opts lease show ?thesis using e s
    by (auto simp: appendSessionEvent_def appendSessionEventOnce_def reportSession_def andThen_def assertReportLease_def
        assertCurrentLease_def split: option.splits)
qed (simp add: appendSessionEvent_def e)

subsection \<open>A pause that is delivered again\<close>

text \<open>What \<open>releaseSessionLease\<close> keeps.\<close>

lemma release_same_logs: "same_logs w (snd (releaseSessionLease k w))"
  by (auto simp: releaseSessionLease_def requireWorker_def andThen_def Let_def split_def same_logs_def tab_simps writeWorker_def
      split: option.splits)

lemma pauseAfterEvent_out:
  "pauseAfterEvent s sq ts reason ref w =
     (s\<lparr>ses_status := Paused, ses_currentWorkerId := None, ses_sessionLeaseId := None,
        ses_latestSnapshotRef := orOpt ref (ses_latestSnapshotRef s), ses_lifecycleReason := reason, ses_eventCursor := sq,
        ses_lastEventUpdatedAt := ts, ses_updatedAt := fst (now w)\<rparr>,
      writeSession (s\<lparr>ses_status := Paused, ses_currentWorkerId := None, ses_sessionLeaseId := None,
        ses_latestSnapshotRef := orOpt ref (ses_latestSnapshotRef s), ses_lifecycleReason := reason, ses_eventCursor := sq,
        ses_lastEventUpdatedAt := ts, ses_updatedAt := fst (now w)\<rparr>) (snd (now w)))"
  by (simp add: pauseAfterEvent_def Let_def split_def)

text \<open>
  A \<^verbatim>\<open>session.paused\<close> that is delivered again after the session was resumed on another worker is taken
  for a duplicate, and still pauses the session: the lease of the new worker is dropped without a word to it, and
  the session's cursor goes back to the event's number, so that the next events get numbers that are in the log.
\<close>

lemma redelivered_pause_rewinds_session:
  assumes once: "logs_once w" and s: "readSession sid w = Some s" and e: "ev_sessionId e = Some sid" "sid \<noteq> []" "ev_type e = SessionPaused"
    and x: "x \<in> set (sessionEvents sid w)" "ev_eventId x = ev_eventId e" "same_report x e (jobj [(''reason'', map_option JStr reason)])"
    and p: "parseSessionPausedPayload (jsonBody (ev_payload e)) = Some (reason, None)"
    and k: "ses_currentWorkerId s = Some k" "k \<noteq> []" "readWorker k w \<noteq> None" and rc: "\<forall>v. same_logs v (snd (rc_reconcile cfg v))"
  shows "\<exists>w1 s1. handleRuntimeEvent cfg env renv e w = Some (Inr \<lparr>ro_handled = True, ro_duplicate = True\<rparr>, w1)
    \<and> readSession sid w1 = Some s1 \<and> ses_status s1 = Paused \<and> ses_sessionLeaseId s1 = None \<and> ses_eventCursor s1 = ev_sequence x
    \<and> ((\<exists>y \<in> set (sessionEvents sid w). ev_sequence x < ev_sequence y) \<longrightarrow> \<not> logs_ok w1)"
proof -
  have id: "ses_sessionId s = sid" using logs_ok_id [OF _ s] once by (simp add: logs_once_def)
  have opts: "ao_status plain = None" by (simp add: plain_def)
  note a = append_known [OF once s e(1,2) x opts, of "rc_hook cfg"]
  obtain out v where r: "releaseSessionLease k w = (out, v)" by (cases "releaseSessionLease k w")
  with release_same_logs [of w k] have v: "same_logs w v" by simp
  from r k(3) obtain b where rel: "releaseSessionLease k w = (Inr b, v)"
    by (auto simp: releaseSessionLease_def requireWorker_def andThen_def Let_def split_def split: if_splits)
  let ?n = "s\<lparr>ses_status := Paused, ses_currentWorkerId := None, ses_sessionLeaseId := None,
        ses_latestSnapshotRef := orOpt (ses_latestSnapshotRef s) (ses_latestSnapshotRef s), ses_lifecycleReason := reason,
        ses_eventCursor := ev_sequence x, ses_lastEventUpdatedAt := ev_timestamp x, ses_updatedAt := fst (now v)\<rparr>"
  let ?w1 = "snd (rc_reconcile cfg (writeSession ?n (snd (now v))))"
  have run: "handleRuntimeEvent cfg env renv e w = Some (Inr \<lparr>ro_handled = True, ro_duplicate = True\<rparr>, ?w1)"
    using a rel k(1,2) p reportSession_some [OF e(1,2) s]
    by (simp add: handleRuntimeEvent_def e(3) sync_def handleSessionPaused_def andThen_def parsed_out handled_def triggerReconcile_def
        pauseAfterEvent_out)
  have l: "same_logs (writeSession ?n (snd (now v))) ?w1" using rc by blast
  have r: "readSession sid ?w1 = Some ?n" "sessionEvents sid ?w1 = sessionEvents sid w"
    using same_logs_reads [OF l, of sid] same_logs_reads [OF v, of sid] same_logs_reads [OF same_logs_readings(1) [of v], of sid] id
    by (simp_all add: log_reads_writeSession)
  have "\<not> logs_ok ?w1" if "y \<in> set (sessionEvents sid w)" "ev_sequence x < ev_sequence y" for y
    proof
    assume "logs_ok ?w1"
    from logs_ok_log [OF this, of sid] r have "\<forall>z \<in> set (sessionEvents sid w). ev_sequence z \<le> ev_sequence x"
      by (simp add: log_ok_def below_all_def)
    with that show False by force
  qed
  with run r show ?thesis by auto
qed

text \<open>
  The reason \<^verbatim>\<open>turn_input_conflict\<close> is one of the declared reasons and a sidecar reports it, but the event
  is refused: the rejected command never reaches the session's log.
\<close>

lemma input_conflict_report_refused:
  assumes "ev_type e = WorkerCommandRejected" and "ev_payload e = JsonPayload (JObj ((''reason'', JStr ''turn_input_conflict'') # rest))"
  shows "handleRuntimeEvent cfg env renv e w = Some (Inl (InvalidEvent WorkerCommandRejected), w)"
  using assms handle_appended [of e cfg env renv w]
  by (simp add: appended_only_def storedPayload_def parseWorkerCommandRejectedPayload_def)

subsection \<open>Example\<close>

definition ex_report :: "event_type \<Rightarrow> json \<Rightarrow> runtime_event" where
  "ex_report ty p = \<lparr>ev_eventId = ''e5'', ev_sessionId = Some ''s1'', ev_workerId = Some ''k1'', ev_ackId = None, ev_turnSeq = Some 1,
     ev_sequence = 0, ev_type = ty, ev_timestamp = 0, ev_actor = SidecarActor, ev_sessionLeaseId = Some ''l1'', ev_payload = JsonPayload p\<rparr>"

definition ex_report_cfg :: report_config where
  "ex_report_cfg = \<lparr>rc_tenantId = ''t1'', rc_hook = None, rc_reconcile = ok ()\<rparr>"

definition ex_completed :: json where
  "ex_completed = JObj [(''result'', JObj [(''message'', JStr ''done''), (''cost'', JNum 3)])]"

lemma ex_report_cfg_ok: "hook_ok (rc_hook ex_report_cfg)"
  by (simp add: hook_ok_def ex_report_cfg_def)

subsection \<open>Properties\<close>





end
