(* ===== verification/WorkerPools.thy ===== *)
theory WorkerPools
  imports Workers Selector
begin

text \<open>
  \<^verbatim>\<open>managers/worker/worker-pool-manager.ts\<close>: the host instances of each configured pool. A tick brings the
  known instances forward (a start that is due, a report that is expected, a worker that died), starts instances for
  queued sessions and stops idle ones. The host adapters (Docker, Foundry) call external services: they are
  parameters. Ticks run one after the other (\<^verbatim>\<open>reconcileTail\<close>).
\<close>

datatype durable_action = Retain | Release

record host_adapter =
  ha_ensureRunning :: "worker_pool \<Rightarrow> host_instance \<Rightarrow> string wop"
  ha_ensureStopped :: "worker_pool \<Rightarrow> host_instance \<Rightarrow> durable_action \<Rightarrow> unit wop"

record pool_config =
  pm_pools :: "worker_pool list"
  pm_adapters :: "string \<Rightarrow> host_adapter option"
  pm_epoch :: string
  pm_errorText :: "error \<Rightarrow> string"

text \<open>\<^verbatim>\<open>filter\<close> with a test that reads the clock.\<close>

fun filterW :: "('a \<Rightarrow> world \<Rightarrow> bool \<times> world) \<Rightarrow> 'a list \<Rightarrow> world \<Rightarrow> 'a list \<times> world" where
  "filterW f [] w = ([], w)"
| "filterW f (x # xs) w = (let (b, w1) = f x w; (ys, w2) = filterW f xs w1 in (if b then x # ys else ys, w2))"

text \<open>\<^verbatim>\<open>for (const x of xs) await f(x)\<close>, and \<^verbatim>\<open>try { m } catch (error) { h(error) }\<close>.\<close>

fun eachOf :: "('a \<Rightarrow> unit wop) \<Rightarrow> 'a list \<Rightarrow> unit wop" where
  "eachOf f [] = ok ()"
| "eachOf f (x # xs) = andThen (f x) (\<lambda>_. eachOf f xs)"

definition catching :: "'a wop \<Rightarrow> (error \<Rightarrow> 'a wop) \<Rightarrow> 'a wop" where
  "catching m h w = (case m w of (Inl e, w1) \<Rightarrow> h e w1 | (Inr a, w1) \<Rightarrow> (Inr a, w1))"

definition ignoring :: "'a wop \<Rightarrow> unit wop" where
  "ignoring m = andThen m (\<lambda>_. ok ())"

subsection \<open>Facts about instances and workers\<close>

definition requireHostPoolAdapter :: "pool_config \<Rightarrow> worker_pool \<Rightarrow> host_adapter wop" where
  "requireHostPoolAdapter cfg pool w =
     (case pm_adapters cfg (wp_hostPoolControllerClass pool) of
        None \<Rightarrow> throw (NoAdapter (wp_hostPoolControllerClass pool)) w
      | Some a \<Rightarrow> ok a w)"

definition isQueuedForPool :: "worker_pool \<Rightarrow> session \<Rightarrow> world \<Rightarrow> bool \<times> world" where
  "isQueuedForPool pool s w =
     (if ses_tenantId s = wp_tenantId pool \<and> ses_status s = Queued
      then (let (t, w1) = now w
            in (t - ses_lastEventUpdatedAt s < as_idlePauseTimeoutMs (ses_resolvedAgentSpec s)
                \<and> matchesLabels (wp_templateLabels pool) (as_matchLabels (ses_resolvedAgentSpec s)), w1))
      else (False, w))"

definition assignableAt :: "time \<Rightarrow> worker_pool \<Rightarrow> session \<Rightarrow> worker \<Rightarrow> bool" where
  "assignableAt t pool s k =
     (wk_tenantId k = wp_tenantId pool \<and> wk_lifecycleState k = Active \<and> t < wk_expiresAt k \<and> 0 < wk_allocatable k
      \<and> Ready \<in> set (wk_conditions k) \<and> matchesLabels (wk_labels k) (as_matchLabels (ses_resolvedAgentSpec s))
      \<and> (wp_reuse pool \<noteq> Some False \<or> \<not> truthy (wk_boundSessionId k) \<or> wk_boundSessionId k = Some (ses_sessionId s)))"

definition hasAssignableWorker :: "worker list \<Rightarrow> worker_pool \<Rightarrow> session \<Rightarrow> world \<Rightarrow> bool \<times> world" where
  "hasAssignableWorker ks pool s w = (let (t, w1) = now w in (list_ex (assignableAt t pool s) ks, w1))"

definition isPendingInstance :: "host_instance \<Rightarrow> bool" where
  "isPendingInstance i = (hi_state i = Pending \<or> hi_state i = InstReady \<and> \<not> truthy (hi_currentWorkerId i))"

definition pendingInstanceCount :: "host_instance list \<Rightarrow> worker_pool \<Rightarrow> int" where
  "pendingInstanceCount is pool = int (length (filter (\<lambda>i. hi_poolId i = wp_poolId pool \<and> isPendingInstance i) is))"

definition reportDeadline :: "time \<Rightarrow> worker_pool \<Rightarrow> time" where
  "reportDeadline t pool = t + wp_workerReportTimeoutMs pool"

definition resolveDurableAction :: "host_instance \<Rightarrow> world \<Rightarrow> durable_action" where
  "resolveDurableAction i w =
     (if \<not> truthy (hi_boundSessionId i) then Release
      else case readSession (the (hi_boundSessionId i)) w of
             None \<Rightarrow> Release
           | Some s \<Rightarrow> if terminal_status (ses_status s) then Release else Retain)"

definition isScaleInCandidate :: "worker \<Rightarrow> bool" where
  "isScaleInCandidate k =
     (wk_lifecycleState k = Active \<and> Ready \<in> set (wk_conditions k) \<and> wk_currentSessionCount k = 0
      \<and> wk_allocatable k = wk_capacity k)"

definition isWorkerTerminal :: "worker option \<Rightarrow> bool" where
  "isWorkerTerminal k = (case k of None \<Rightarrow> False | Some k \<Rightarrow> wk_lifecycleState k = Closed \<or> wk_lifecycleState k = Expired)"

definition clearIdleSince :: "host_instance \<Rightarrow> unit wop" where
  "clearIdleSince i w =
     (if hi_idleSince i = None then ok () w
      else (let (t, w1) = now w in ok () (writeHostPoolInstance (i\<lparr>hi_idleSince := None, hi_updatedAt := t\<rparr>) w1)))"

definition currentWorkerOf :: "host_instance \<Rightarrow> world \<Rightarrow> worker option" where
  "currentWorkerOf i w = (if truthy (hi_currentWorkerId i) then readWorker (the (hi_currentWorkerId i)) w else None)"

subsection \<open>Stopping and starting\<close>

datatype stop_outcome = StopStopped | StopFailed

definition stopInstance ::
  "worker_pool \<Rightarrow> host_adapter \<Rightarrow> host_instance \<Rightarrow> worker option \<Rightarrow> stop_outcome \<Rightarrow> string option \<Rightarrow> unit wop" where
  "stopInstance pool adapter i worker out failureReason w =
     (let (t, w1) = now w;
          stopping = i\<lparr>hi_state := Stopping,
                       hi_failureReason := (if out = StopFailed then Some (orElse failureReason ''host_instance_failed'') else None),
                       hi_updatedAt := t\<rparr>
      in andThen (case worker of
             Some k \<Rightarrow> if wk_lifecycleState k = Active then ignoring (closeWorker (wk_workerId k)) else ok ()
           | None \<Rightarrow> ok ()) (\<lambda>_ w2.
         andThen (ha_ensureStopped adapter pool stopping (resolveDurableAction stopping w2)) (\<lambda>_ w3.
           (let (t2, w4) = now w3
            in ok () (writeHostPoolInstance (stopping\<lparr>hi_state := (if out = StopFailed then InstFailed else Stopped),
                                               hi_stoppedAt := Some t2, hi_updatedAt := t2\<rparr>) w4))) w2)
         (writeHostPoolInstance stopping w1))"

definition completeStoppingInstance :: "worker_pool \<Rightarrow> host_adapter \<Rightarrow> host_instance \<Rightarrow> unit wop" where
  "completeStoppingInstance pool adapter i w =
     stopInstance pool adapter i (currentWorkerOf i w) (if truthy (hi_failureReason i) then StopFailed else StopStopped)
       (hi_failureReason i) w"

definition ensureInstanceRunning ::
  "pool_config \<Rightarrow> worker_pool \<Rightarrow> host_adapter \<Rightarrow> host_instance \<Rightarrow> host_instance option wop" where
  "ensureInstanceRunning cfg pool adapter i =
     catching (andThen (ha_ensureRunning adapter pool i) (\<lambda>handle.
         if truthy (hi_hostHandle i) \<and> hi_hostHandle i \<noteq> Some handle
         then andThen (stopInstance pool adapter i None StopFailed (Some ''host_handle_changed'')) (\<lambda>_. ok None)
         else if hi_hostHandle i = Some handle then ok (Some i)
         else (\<lambda>w. let (t, w1) = now w; next = i\<lparr>hi_hostHandle := Some handle, hi_updatedAt := t\<rparr>
                   in ok (Some next) (writeHostPoolInstance next w1))))
       (\<lambda>e. andThen (stopInstance pool adapter i None StopFailed (Some (''host_ensure_running_failed: '' @ pm_errorText cfg e)))
              (\<lambda>_. ok None))"

definition liveWorkerOf :: "host_instance \<Rightarrow> worker \<Rightarrow> bool" where
  "liveWorkerOf i k =
     (wk_hostPoolInstanceId k = Some (hi_instanceId i) \<and> (wk_lifecycleState k = Registered \<or> wk_lifecycleState k = Active))"

definition fenceInstanceWorkers :: "host_instance \<Rightarrow> string \<Rightarrow> unit wop" where
  "fenceInstanceWorkers i reason w =
     eachOf (\<lambda>k. ignoring (expireWorker (wk_workerId k) reason)) (filter (liveWorkerOf i) (readWorkers w)) w"

subsection \<open>The report of an instance's worker\<close>

definition needsReportExpectation :: "pool_config \<Rightarrow> host_instance \<Rightarrow> bool" where
  "needsReportExpectation cfg i =
     (hi_controllerEpoch i \<noteq> Some (pm_epoch cfg)
      \<or> hi_state i = Pending \<and> (hi_reportExpectedAfter i = None \<or> hi_reportDeadline i = None))"

definition rearmReportExpectation :: "pool_config \<Rightarrow> host_instance \<Rightarrow> worker_pool \<Rightarrow> host_instance wop" where
  "rearmReportExpectation cfg i pool w =
     (let (t, w1) = now w;
          pending = i\<lparr>hi_state := Pending, hi_currentWorkerId := None, hi_controllerEpoch := Some (pm_epoch cfg),
                      hi_reportExpectedAfter := Some t, hi_reportDeadline := Some (reportDeadline t pool),
                      hi_idleSince := None, hi_failureReason := None, hi_updatedAt := t\<rparr>;
          w2 = writeHostPoolInstance pending w1
      in andThen (eachOf (\<lambda>k. ignoring (awaitFreshReport (wk_workerId k) (reportDeadline t pool)))
                    (filter (liveWorkerOf i) (readWorkers w2)))
           (\<lambda>_. ok pending) w2)"

definition qualifyingAt :: "time \<Rightarrow> host_instance \<Rightarrow> worker_pool \<Rightarrow> worker \<Rightarrow> bool" where
  "qualifyingAt t i pool k =
     (let storage = map_of (wp_templateLabels pool) ''storage''
      in wk_tenantId k = hi_tenantId i \<and> wk_hostPoolInstanceId k = Some (hi_instanceId i) \<and> wk_lifecycleState k = Active
         \<and> Disconnected \<notin> set (wk_conditions k)
         \<and> the (hi_reportExpectedAfter i) \<le> wk_heartbeatAt k \<and> wk_heartbeatAt k \<le> the (hi_reportDeadline i)
         \<and> t < wk_expiresAt k \<and> wk_capacity k = hi_capacity i
         \<and> (\<not> truthy storage \<or> Some (wk_storageClass k) = storage)
         \<and> matchesLabels (wk_labels k) (hi_labels i))"

definition isQualifyingWorkerReport :: "host_instance \<Rightarrow> worker_pool \<Rightarrow> worker \<Rightarrow> world \<Rightarrow> bool \<times> world" where
  "isQualifyingWorkerReport i pool k w = (let (t, w1) = now w in (qualifyingAt t i pool k, w1))"

definition stampWorkerPlacement :: "pool_config \<Rightarrow> string \<Rightarrow> host_instance \<Rightarrow> unit wop" where
  "stampWorkerPlacement cfg wid i w =
     (case find (\<lambda>p. wp_poolId p = hi_poolId i) (pm_pools cfg) of
        None \<Rightarrow> ok () w
      | Some pool \<Rightarrow>
          (case readWorker wid w of
             None \<Rightarrow> ok () w
           | Some k \<Rightarrow>
               (let reuse = (wp_reuse pool \<noteq> Some False); bound = orOpt (wk_boundSessionId k) (hi_boundSessionId i)
                in if wk_reuse k = Some reuse \<and> wk_boundSessionId k = bound then ok () w
                   else (let (t, w1) = now w
                         in ok () (writeWorker (k\<lparr>wk_reuse := Some reuse, wk_boundSessionId := bound, wk_updatedAt := t\<rparr>) w1)))))"

definition reconcilePendingInstance :: "pool_config \<Rightarrow> worker_pool \<Rightarrow> host_adapter \<Rightarrow> host_instance \<Rightarrow> unit wop" where
  "reconcilePendingInstance cfg pool adapter i w =
     (if hi_reportExpectedAfter i = None \<or> hi_reportDeadline i = None then throw (NoReportExpectation (hi_instanceId i)) w
      else
        (let (candidates, w1) = filterW (isQualifyingWorkerReport i pool) (readWorkers w) w
         in if length candidates = 1
            then andThen (stampWorkerPlacement cfg (wk_workerId (hd candidates)) i) (\<lambda>_ w2.
              (let (t, w3) = now w2
               in ok () (writeHostPoolInstance (i\<lparr>hi_state := InstReady, hi_currentWorkerId := Some (wk_workerId (hd candidates)),
                    hi_reportExpectedAfter := None, hi_reportDeadline := None, hi_updatedAt := t\<rparr>) w3))) w1
            else if 1 < length candidates
            then andThen (fenceInstanceWorkers i ''multiple_worker_reports'') (\<lambda>_.
                   stopInstance pool adapter i None StopFailed (Some ''multiple_worker_reports'')) w1
            else
              (let (t, w2) = now w1
               in if t < the (hi_reportDeadline i) then ok () w2
                  else andThen (fenceInstanceWorkers i ''worker_report_timeout'') (\<lambda>_.
                    stopInstance pool adapter i None StopFailed (Some ''worker_report_timeout'')) w2)))"

subsection \<open>A tick\<close>

definition scaleOutInstance ::
  "pool_config \<Rightarrow> worker_pool \<Rightarrow> host_adapter \<Rightarrow> string option \<Rightarrow> string option \<Rightarrow> unit wop" where
  "scaleOutInstance cfg pool adapter boundSessionId workspaceRef w =
     (let (t, w1) = now w; (iid, w2) = freshId w1;
          i = \<lparr>hi_instanceId = iid, hi_tenantId = wp_tenantId pool, hi_poolId = wp_poolId pool,
               hi_hostPoolControllerClass = wp_hostPoolControllerClass pool, hi_labels = wp_templateLabels pool,
               hi_capacity = wp_templateCapacity pool, hi_state = Pending, hi_hostHandle = None, hi_currentWorkerId = None,
               hi_controllerEpoch = Some (pm_epoch cfg), hi_reportExpectedAfter = Some t,
               hi_reportDeadline = Some (reportDeadline t pool),
               hi_boundSessionId = (if truthy boundSessionId then boundSessionId else None),
               hi_workspaceRef = (if truthy workspaceRef then workspaceRef else None), hi_idleSince = None,
               hi_failureReason = None, hi_createdAt = t, hi_updatedAt = t, hi_stoppedAt = None\<rparr>
      in andThen (ensureInstanceRunning cfg pool adapter i) (\<lambda>running.
           case running of None \<Rightarrow> ok () | Some r \<Rightarrow> reconcilePendingInstance cfg pool adapter r)
         (writeHostPoolInstance i w2))"

definition pinnedPendingSessions :: "host_instance list \<Rightarrow> worker_pool \<Rightarrow> string set" where
  "pinnedPendingSessions is pool =
     set (map (the \<circ> hi_boundSessionId)
       (filter (\<lambda>i. hi_poolId i = wp_poolId pool \<and> truthy (hi_boundSessionId i) \<and> isPendingInstance i) is))"

definition scaleOutPool ::
  "pool_config \<Rightarrow> session list \<Rightarrow> worker list \<Rightarrow> host_instance list \<Rightarrow> worker_pool \<Rightarrow> unit wop" where
  "scaleOutPool cfg ss ks is pool w =
     (let (queued, w1) = filterW (isQueuedForPool pool) ss w
      in if queued = [] then ok () w1
         else
           (let (unserved, w2) = filterW (\<lambda>s v. let (b, v1) = hasAssignableWorker ks pool s v in (\<not> b, v1)) queued w1;
                budget = wp_scaleOutMaxPendingPerTick pool - pendingInstanceCount is pool
            in if budget \<le> 0 then ok () w2
               else andThen (requireHostPoolAdapter cfg pool) (\<lambda>adapter.
                 if wp_reuse pool = Some False
                 then eachOf (\<lambda>s. scaleOutInstance cfg pool adapter (Some (ses_sessionId s)) (Some (ses_workspaceRef s)))
                        (take (nat budget) (filter (\<lambda>s. ses_sessionId s \<notin> pinnedPendingSessions is pool) unserved))
                 else eachOf (\<lambda>_. scaleOutInstance cfg pool adapter None None)
                        [0..<nat (min (int (length unserved)) budget)]) w2))"

definition scaleOutForQueuedSessions :: "pool_config \<Rightarrow> unit wop" where
  "scaleOutForQueuedSessions cfg w =
     eachOf (scaleOutPool cfg (readSessions w) (readWorkers w) (readHostPoolInstances w)) (pm_pools cfg) w"

definition reconcileKnownInstance :: "pool_config \<Rightarrow> worker_pool \<Rightarrow> host_adapter \<Rightarrow> host_instance \<Rightarrow> unit wop" where
  "reconcileKnownInstance cfg pool adapter stored =
     (if hi_state stored = Stopping then completeStoppingInstance pool adapter stored
      else andThen (if needsReportExpectation cfg stored then rearmReportExpectation cfg stored pool else ok stored) (\<lambda>i w.
        (let worker = currentWorkerOf i w
         in if hi_state i = InstReady \<and> isWorkerTerminal worker
            then stopInstance pool adapter i worker StopFailed (Some ''current_worker_lost'') w
            else if hi_state i = InstReady \<and> truthy (hi_currentWorkerId i) \<and> worker = None then ok () w
            else andThen (ensureInstanceRunning cfg pool adapter i) (\<lambda>running.
              case running of
                None \<Rightarrow> ok ()
              | Some r \<Rightarrow> if hi_state r = Pending then reconcilePendingInstance cfg pool adapter r else ok ()) w)))"

definition reconcileHostPoolInstances :: "pool_config \<Rightarrow> unit wop" where
  "reconcileHostPoolInstances cfg w =
     (let all = readHostPoolInstances w
      in eachOf (\<lambda>pool. andThen (requireHostPoolAdapter cfg pool) (\<lambda>adapter.
           eachOf (reconcileKnownInstance cfg pool adapter)
             (filter (\<lambda>i. hi_poolId i = wp_poolId pool \<and> hi_state i \<noteq> Stopped \<and> hi_state i \<noteq> InstFailed) all)))
         (pm_pools cfg) w)"

definition scaleInInstance :: "worker list \<Rightarrow> worker_pool \<Rightarrow> host_adapter \<Rightarrow> host_instance \<Rightarrow> unit wop" where
  "scaleInInstance ks pool adapter i w =
     (let worker = find (\<lambda>k. Some (wk_workerId k) = hi_currentWorkerId i) ks
      in if isWorkerTerminal worker then stopInstance pool adapter i worker StopFailed (Some ''current_worker_lost'') w
         else case worker of
           None \<Rightarrow> ok () w
         | Some k \<Rightarrow>
             if \<not> isScaleInCandidate k then clearIdleSince i w
             else
               (let (t, w1) = now w; idleSince = orElse (hi_idleSince i) t
                in if hi_idleSince i = None
                   then ok () (writeHostPoolInstance (i\<lparr>hi_idleSince := Some idleSince, hi_updatedAt := t\<rparr>) w1)
                   else if t - idleSince < wp_scaleInIdleMs pool then ok () w1
                   else
                     (case (readHostPoolInstance (hi_instanceId i) w1, readWorker (wk_workerId k) w1) of
                        (Some ci, Some ck) \<Rightarrow>
                          if hi_state ci \<noteq> InstReady \<or> hi_currentWorkerId ci \<noteq> Some (wk_workerId k) \<or> \<not> isScaleInCandidate ck
                          then clearIdleSince ci w1
                          else stopInstance pool adapter (ci\<lparr>hi_idleSince := Some idleSince\<rparr>) (Some ck) StopStopped None w1
                      | (Some ci, None) \<Rightarrow> clearIdleSince ci w1
                      | (None, _) \<Rightarrow> ok () w1)))"

definition scaleInIdleWorkers :: "pool_config \<Rightarrow> unit wop" where
  "scaleInIdleWorkers cfg w =
     (let ks = readWorkers w; is = readHostPoolInstances w
      in eachOf (\<lambda>pool. andThen (requireHostPoolAdapter cfg pool) (\<lambda>adapter.
           eachOf (scaleInInstance ks pool adapter)
             (filter (\<lambda>i. hi_poolId i = wp_poolId pool \<and> hi_state i = InstReady \<and> truthy (hi_currentWorkerId i)) is)))
         (pm_pools cfg) w)"

definition poolReconcile :: "pool_config \<Rightarrow> unit wop" where
  "poolReconcile cfg =
     (if pm_pools cfg = [] then ok ()
      else andThen (reconcileHostPoolInstances cfg) (\<lambda>_.
           andThen (scaleOutForQueuedSessions cfg) (\<lambda>_. scaleInIdleWorkers cfg)))"

end
