(* ===== verification/Reconciler.thy ===== *)
theory Reconciler
  imports WorkerPools Sessions
begin

text \<open>
  \<^verbatim>\<open>managers/session/session-lifecycle-reconciler.ts\<close>: one pass over the durable facts, after the pools and
  the expiry of workers: queued sessions get a worker or are paused when idle, idle running sessions are asked to
  pause, and an interrupted pause is recovered. The commands to workers are published at the end. Passes run one
  after the other (\<^verbatim>\<open>reconcileTail\<close>).
\<close>

record reconciler_config =
  lc_pools :: "pool_config option"
  lc_hook :: terminal_hook

definition reconcilePools :: "reconciler_config \<Rightarrow> unit wop" where
  "reconcilePools cfg = (case lc_pools cfg of None \<Rightarrow> ok () | Some p \<Rightarrow> poolReconcile p)"

definition publishSessionStatus :: "session \<Rightarrow> session_status \<Rightarrow> string option \<Rightarrow> world \<Rightarrow> world" where
  "publishSessionStatus s st reason w =
     (let (eid, w1) = freshId w; (t, w2) = now w1
      in publish ClientInbox \<lparr>ev_eventId = eid, ev_sessionId = Some (ses_sessionId s), ev_workerId = None, ev_ackId = None,
           ev_turnSeq = None, ev_sequence = 0, ev_type = SessionStatusUpdated, ev_timestamp = t, ev_actor = CentralActor,
           ev_sessionLeaseId = None, ev_payload = StatusPayload (ses_sessionId s) st reason\<rparr> w2)"

definition has_pending_call :: "delegation \<Rightarrow> bool" where
  "has_pending_call d = list_ex (\<lambda>c. dc_status c = CQueued \<or> dc_status c = CActive \<or> dc_status c = CCancelRequested) (dg_calls d)"

definition sessionsWithPendingDelegationWork :: "world \<Rightarrow> string set" where
  "sessionsWithPendingDelegationWork w =
     (\<Union>d \<in> set (filter has_pending_call (readDelegations w)). {dg_parentSessionId d, dg_childSessionId d})"

definition isIdle :: "session \<Rightarrow> bool \<Rightarrow> world \<Rightarrow> bool \<times> world" where
  "isIdle s pending w =
     (if \<not> pending \<and> \<not> list_ex (\<lambda>i. itx_state i = IOpen) (readInteractionsBySession (ses_sessionId s) w)
      then (let (t, w1) = now w
            in (as_idlePauseTimeoutMs (ses_resolvedAgentSpec s) \<le> t - ses_lastEventUpdatedAt s, w1))
      else (False, w))"

definition pauseQueuedSession :: "session \<Rightarrow> unit wop" where
  "pauseQueuedSession s =
     andThen (logAppend None (draft SessionPaused CentralActor (PausedPayload (Some ''idle_timeout'')) (ses_eventCursor s + 1)
                (Some (ses_sessionId s)))) (\<lambda>e w.
       (let (paused, w1) = pauseAfterEvent s (ev_sequence e) (ev_timestamp e) (Some ''idle_timeout'') None w
        in ok () (publishSessionStatus paused Paused (Some ''idle_timeout'') (publish (SessionEvents (ses_sessionId s)) e w1))))"

definition reconcileQueuedSession :: "session \<Rightarrow> bool \<Rightarrow> worker_command list wop" where
  "reconcileQueuedSession s pending w =
     (let (idle, w1) = isIdle s pending w
      in if idle then andThen (pauseQueuedSession s) (\<lambda>_. ok []) w1
         else andThen (assignReadyWorker s) (\<lambda>(assigned, command).
           case command of
             None \<Rightarrow> ok []
           | Some c \<Rightarrow> (\<lambda>w2. ok [c] (publishSessionStatus assigned Starting None w2))) w1)"

definition requestIdlePause :: "reconciler_config \<Rightarrow> session \<Rightarrow> worker_command list wop" where
  "requestIdlePause cfg s =
     (if \<not> truthy (ses_currentWorkerId s) \<or> \<not> truthy (ses_sessionLeaseId s) then ok []
      else andThen (requestPause (lc_hook cfg) s CentralActor ''idle_timeout'' None) (\<lambda>out w.
        ok [po_workerCommand out]
          (publishSessionStatus (po_session out) Pausing (Some ''idle_timeout'')
            (publish (SessionEvents (ses_sessionId s)) (po_requestedEvent out) w))))"

definition canContinuePause :: "session \<Rightarrow> worker option \<Rightarrow> world \<Rightarrow> bool \<times> world" where
  "canContinuePause s worker w =
     (case worker of
        None \<Rightarrow> (False, w)
      | Some k \<Rightarrow>
          if truthy (ses_currentWorkerId s) \<and> truthy (ses_sessionLeaseId s) \<and> Some (wk_workerId k) = ses_currentWorkerId s
             \<and> wk_lifecycleState k = Active \<and> Disconnected \<notin> set (wk_conditions k)
          then (let (t, w1) = now w in (t < wk_expiresAt k, w1))
          else (False, w))"

definition recoverPause :: "session \<Rightarrow> worker_command list wop" where
  "recoverPause s w =
     (let worker = (if truthy (ses_currentWorkerId s) then readWorker (the (ses_currentWorkerId s)) w else None);
          lost = andThen (failSessionForWorkerLoss s (map_option wk_lifecycleState worker)) (\<lambda>_. ok []);
          (continues, w1) = canContinuePause s worker w
      in if \<not> continues then lost w1
         else andThen (recoverPauseCommand s) (\<lambda>command.
           case command of Some c \<Rightarrow> ok [c] | None \<Rightarrow> lost) w1)"

definition reconcileSession :: "reconciler_config \<Rightarrow> string set \<Rightarrow> session \<Rightarrow> worker_command list wop" where
  "reconcileSession cfg pending s w =
     (if ses_status s = Queued then reconcileQueuedSession s (ses_sessionId s \<in> pending) w
      else if ses_status s = Running
      then (let (idle, w1) = isIdle s (ses_sessionId s \<in> pending) w in if idle then requestIdlePause cfg s w1 else ok [] w1)
      else if ses_status s = Pausing then recoverPause s w
      else ok [] w)"

fun reconcileSessions :: "reconciler_config \<Rightarrow> string set \<Rightarrow> session list \<Rightarrow> worker_command list wop" where
  "reconcileSessions cfg pending [] = ok []"
| "reconcileSessions cfg pending (s # ss) =
     andThen (reconcileSession cfg pending s) (\<lambda>cs. andThen (reconcileSessions cfg pending ss) (\<lambda>cs1. ok (cs @ cs1)))"

definition publishCommands :: "worker_command list \<Rightarrow> world \<Rightarrow> world" where
  "publishCommands cs = fold (\<lambda>c. publish (WorkerCommands (wc_workerId c)) (wc_event c)) cs"

definition lifecycleReconcile :: "reconciler_config \<Rightarrow> unit wop" where
  "lifecycleReconcile cfg =
     andThen (reconcilePools cfg) (\<lambda>_.
     andThen expireWorkers (\<lambda>_.
     andThen (reconcilePools cfg) (\<lambda>_ w.
       andThen (reconcileSessions cfg (sessionsWithPendingDelegationWork w) (readSessions w)) (\<lambda>commands.
       andThen (reconcilePools cfg) (\<lambda>_ w1. ok () (publishCommands commands w1))) w)))"

end
