(* ===== verification/ReconcilerInv.thy ===== *)
theory ReconcilerInv
  imports Reconciler SessionProps
begin

text \<open>
  A pass of the reconciler keeps the sessions and their logs in order: each step writes one session's record and
  log only, and moves them together.
\<close>

definition sessions_ok :: "world \<Rightarrow> bool" where
  "sessions_ok w = (logs_ok w \<and> keyed ses_sessionId (w_sessions w) \<and> readSession [] w = None)"

lemma same_logs_sessions: "same_logs w w1 \<Longrightarrow> sessions_ok w1 = sessions_ok w"
  by (simp add: sessions_ok_def same_logs_ok same_logs_reads) (simp add: same_logs_def)

text \<open>What a step on one session leaves alone.\<close>

definition frame :: "string \<Rightarrow> world \<Rightarrow> world \<Rightarrow> bool" where
  "frame sid w w1 = ((\<forall>x. x \<noteq> sid \<longrightarrow> readSession x w1 = readSession x w)
     \<and> (keyed ses_sessionId (w_sessions w) \<longrightarrow> keyed ses_sessionId (w_sessions w1)))"

lemma frame_trans: "frame sid w w1 \<Longrightarrow> frame sid w1 w2 \<Longrightarrow> frame sid w w2"
  by (simp add: frame_def)

lemma frame_same: "same_logs w w1 \<Longrightarrow> frame sid w w1"
  by (simp add: frame_def same_logs_reads) (simp add: same_logs_def)

lemma frame_write: "ses_sessionId n = sid \<Longrightarrow> frame sid w (writeSession n w)"
  by (simp add: frame_def log_reads_writeSession) (simp add: writeSession_def keyed_tput)

lemma frame_then:
  assumes "frame sid w (snd (m w))" and "\<And>x v. frame sid v (snd (f x v))"
  shows "frame sid w (snd (andThen m f w))"
proof -
  obtain r v where m: "m w = (r, v)" by (cases "m w")
  with assms(1) assms(2) [where v = v] show ?thesis by (cases r) (auto simp: andThen_def intro: frame_trans)
qed

lemma frame_logAppend: "frame sid w (snd (logAppend g d w))"
  by (simp add: frame_def reads_logAppend tables_logAppend)

lemma frame_ok [simp]: "frame sid w w"
  by (simp add: frame_def)

lemma same_logs_publishStatus: "same_logs w (publishSessionStatus s st reason w)"
  by (simp add: publishSessionStatus_def Let_def split_def same_logs_def tab_simps)

definition moves :: "string \<Rightarrow> world \<Rightarrow> world \<Rightarrow> bool" where
  "moves sid w w1 = (sessions_ok w1 \<and> (\<forall>x. x \<noteq> sid \<longrightarrow> readSession x w1 = readSession x w))"

lemma movesI: "sessions_ok w \<Longrightarrow> sid \<noteq> [] \<Longrightarrow> frame sid w w1 \<Longrightarrow> logs_ok w1 \<Longrightarrow> moves sid w w1"
  by (auto simp: moves_def sessions_ok_def frame_def)

lemma moves_same: "sessions_ok w \<Longrightarrow> same_logs w w1 \<Longrightarrow> moves sid w w1"
  by (simp add: moves_def same_logs_sessions same_logs_reads)

lemma moves_then_same: "moves sid w w1 \<Longrightarrow> same_logs w1 w2 \<Longrightarrow> moves sid w w2"
  by (simp add: moves_def same_logs_sessions same_logs_reads)

lemma same_logs_moves: "same_logs w w1 \<Longrightarrow> moves sid w1 w2 \<Longrightarrow> moves sid w w2"
  by (simp add: moves_def same_logs_reads)

lemma moves_andThen:
  assumes "moves sid w (snd (m w))" and "\<And>x v. same_logs v (snd (f x v))"
  shows "moves sid w (snd (andThen m f w))"
proof -
  obtain r v where m: "m w = (r, v)" by (cases "m w")
  with assms(1) assms(2) [where v = v] show ?thesis by (cases r) (auto simp: andThen_def intro: moves_then_same)
qed

lemma sessions_ok_read:
  assumes "sessions_ok w" and "s \<in> set (readSessions w)"
  shows "readSession (ses_sessionId s) w = Some s" "ses_sessionId s \<noteq> []"
proof -
  show r: "readSession (ses_sessionId s) w = Some s"
    using assms tall_tget [of ses_sessionId "w_sessions w" s] by (simp add: sessions_ok_def readSessions_def readSession_def)
  show "ses_sessionId s \<noteq> []"
  proof
    assume "ses_sessionId s = []"
    with r assms(1) show False by (simp add: sessions_ok_def)
  qed
qed

subsection \<open>The steps of a pass\<close>

lemma assign_moves:
  assumes "sessions_ok w" and "readSession (ses_sessionId s) w = Some s" and "ses_sessionId s \<noteq> []"
  shows "moves (ses_sessionId s) w (snd (assignReadyWorker s w))"
proof (rule movesI [OF assms(1,3)])
  show "logs_ok (snd (assignReadyWorker s w))" using assms(1,2) by (intro assignReadyWorker_logs) (simp_all add: sessions_ok_def)
  let ?w0 = "tick_by (length (readWorkers w)) w"
  have t: "same_logs w ?w0" by (simp add: same_logs_def tick_by_def)
  show "frame (ses_sessionId s) w (snd (assignReadyWorker s w))"
  proof (cases "select (readings w) s (readWorkers w)")
    case None
    with t show ?thesis by (simp add: assignReadyWorker_def frame_same)
  next
    case (Some k)
    obtain n w1 where n: "leaseAssign s k ?w0 = (n, w1)" by (cases "leaseAssign s k ?w0")
    then have w1: "w1 = writeSession n (snd (freshId ?w0))" "ses_sessionId n = ses_sessionId s"
      by (auto simp: leaseAssign_def Let_def split_def)
    let ?w3 = "writeWorker (placed_worker s k (fst (now w1))) (snd (now w1))"
    have "same_logs w1 ?w3" by (simp add: same_logs_def tab_simps)
    then have f: "frame (ses_sessionId s) w ?w3"
      using frame_trans [OF frame_same [OF same_logs_trans [OF t same_logs_readings(2)]] frame_write [OF w1(2)]] w1(1)
      by (metis frame_same frame_trans)
    have "frame (ses_sessionId s) ?w3 (snd (andThen (planRestore n) g ?w3))" if "\<And>r v. same_logs v (snd (g r v))" for g :: "restore_ref option \<Rightarrow> (session \<times> worker_command option) wop"
      by (rule frame_then) (simp_all add: planRestore_same frame_same that)
    with f show ?thesis using Some n
      by (auto simp: assignReadyWorker_def Let_def split_def same_logs_def tab_simps intro!: frame_trans [OF f])
  qed
qed

lemma pauseQueued_moves:
  assumes "sessions_ok w" and s: "readSession (ses_sessionId s) w = Some s" and "ses_sessionId s \<noteq> []"
  shows "moves (ses_sessionId s) w (snd (pauseQueuedSession s w))"
proof -
  let ?d = "draft SessionPaused CentralActor (PausedPayload (Some ''idle_timeout'')) (ses_eventCursor s + 1) (Some (ses_sessionId s))"
  have d: "ev_sessionId ?d = Some (ses_sessionId s)" "ev_sequence ?d = ses_eventCursor s + 1" "\<not> turn_event ?d"
    by (simp_all add: draft_def turn_event_def)
  from logAppend_stores [OF d(1) assms(3), of None w] obtain e v where a: "logAppend None ?d w = (Inr e, v)" by metis
  define n where "n = fst (pauseAfterEvent s (ev_sequence e) (ev_timestamp e) (Some ''idle_timeout'') None v)"
  have n: "ses_sessionId n = ses_sessionId s" "ses_eventCursor n = ev_sequence e" "ses_nextTurnSeq n = ses_nextTurnSeq s"
    "snd (pauseAfterEvent s (ev_sequence e) (ev_timestamp e) (Some ''idle_timeout'') None v) = writeSession n (snd (now v))"
    by (simp_all add: n_def pauseAfterEvent_def Let_def split_def)
  have "logs_ok (writeSession n (snd (now v)))"
    by (rule logs_ok_append [OF _ s a d(1)]) (use assms(1) d n logAppend_fields [OF a] in \<open>simp_all add: sessions_ok_def\<close>)
  moreover have "frame (ses_sessionId s) w (writeSession n (snd (now v)))"
    using frame_logAppend [of "ses_sessionId s" w None ?d] frame_same [OF same_logs_readings(1) [of v]] frame_write [OF n(1)] a
    by (metis frame_trans snd_conv)
  ultimately have m: "moves (ses_sessionId s) w (writeSession n (snd (now v)))" by (intro movesI assms)
  have "same_logs (writeSession n (snd (now v))) (snd (pauseQueuedSession s w))"
    using a n(4) by (simp add: pauseQueuedSession_def andThen_def split_def Let_def same_logs_trans [OF same_logs_readings(4) same_logs_publishStatus])
  with m show ?thesis by (rule moves_then_same)
qed

lemma requestPause_frame: "frame (ses_sessionId s) w (snd (requestPause hook s ac reason ackId w))"
proof -
  have tr: "frame (ses_sessionId s) v (snd (transitionAfterEvent hook s Pausing sq ts r v))" for sq ts r v
    by (simp add: transitionAfterEvent_live Let_def frame_trans [OF frame_same [OF same_logs_readings(1)] frame_write])
  have rest: "frame (ses_sessionId s) v (snd (andThen (transitionAfterEvent hook s Pausing (ev_sequence e) (ev_timestamp e) (Some reason))
     (\<lambda>pausing. andThen (pauseCommand pausing e) (\<lambda>command.
        ok \<lparr>po_session = pausing, po_requestedEvent = e, po_workerCommand = command\<rparr>)) v))" for e v
    by (rule frame_then [OF tr], rule frame_then [OF frame_same [OF pauseCommand_same]]) simp
  have "frame (ses_sessionId s) (snd (freshId w)) (snd (andThen (logAppend (Some i) d) (\<lambda>e.
       andThen (transitionAfterEvent hook s Pausing (ev_sequence e) (ev_timestamp e) (Some reason)) (\<lambda>pausing.
       andThen (pauseCommand pausing e) (\<lambda>command.
         ok \<lparr>po_session = pausing, po_requestedEvent = e, po_workerCommand = command\<rparr>))) (snd (freshId w))))" for i d
    by (rule frame_then [OF frame_logAppend rest])
  then show ?thesis
    using frame_trans [OF frame_same [OF same_logs_readings(2)]]
    by (auto simp: requestPause_def assertWorkerLease_def andThen_def [of "assertWorkerLease s"] Let_def split_def)
qed

lemma requestIdle_moves:
  assumes "sessions_ok w" and "readSession (ses_sessionId s) w = Some s" and "ses_sessionId s \<noteq> []"
  shows "moves (ses_sessionId s) w (snd (requestIdlePause cfg s w))"
proof -
  have m: "moves (ses_sessionId s) w (snd (requestPause (lc_hook cfg) s CentralActor ''idle_timeout'' None w))"
    using assms requestPause_logs by (intro movesI requestPause_frame) (simp_all add: sessions_ok_def)
  show ?thesis
  proof (cases "\<not> truthy (ses_currentWorkerId s) \<or> \<not> truthy (ses_sessionLeaseId s)")
    case True
    then show ?thesis using moves_same [OF assms(1) same_logs_refl] by (auto simp: requestIdlePause_def)
  next
    case False
    then show ?thesis
      unfolding requestIdlePause_def if_not_P [OF False]
      by (intro moves_andThen m) (simp add: same_logs_trans [OF same_logs_readings(4) same_logs_publishStatus])
  qed
qed

text \<open>The events a lost worker leaves in a session's log are no inputs.\<close>

definition no_new_turns :: "world \<Rightarrow> world \<Rightarrow> bool" where
  "no_new_turns w w1 = (\<forall>x. \<forall>e \<in> set (sessionEvents x w1). e \<in> set (sessionEvents x w) \<or> \<not> turn_event e)"

lemma no_new_turns_trans: "no_new_turns w w1 \<Longrightarrow> no_new_turns w1 w2 \<Longrightarrow> no_new_turns w w2"
  unfolding no_new_turns_def by blast

lemma no_new_turns_append:
  assumes "ev_sessionId d = Some sid" and "sid \<noteq> []" and "\<not> turn_event d"
  shows "no_new_turns w (snd (logAppend g d w))"
proof -
  from logAppend_event [OF assms(1,2), of g w] obtain e where "e = d\<lparr>ev_eventId := ev_eventId e, ev_timestamp := ev_timestamp e\<rparr>"
    and ev: "\<And>x. sessionEvents x (snd (logAppend g d w)) = (if x = sid then sessionEvents sid w @ [e] else sessionEvents x w)" by metis
  then have "\<not> turn_event e" using assms(3) by (metis (no_types, lifting) runtime_event.simps(7,8,18,19) turn_event_def runtime_event.select_convs(7) runtime_event.update_convs(1,8) runtime_event.surjective)
  with ev show ?thesis by (auto simp: no_new_turns_def)
qed

lemma no_new_turns_events: "(\<And>x. sessionEvents x w1 = sessionEvents x w) \<Longrightarrow> no_new_turns w w1"
  by (simp add: no_new_turns_def)

lemma failTurn_no_turns: "ses_sessionId s \<noteq> [] \<Longrightarrow> no_new_turns w (snd (failTurnInFlight s st existing sq turn w))"
  using no_new_turns_append [of "turnFailedDraft s st n (sq + 1)" "ses_sessionId s" w None for n]
  by (auto simp: failTurnInFlight_def turnFailedDraft_def draft_def turn_event_def no_new_turns_def [of w w] split: option.splits)

lemma leaseLost_no_turns: "ses_sessionId s \<noteq> [] \<Longrightarrow> no_new_turns w (snd (recordLeaseLost s st existing sq w))"
  using no_new_turns_append [of "leaseLostDraft s st (sq + 1)" "ses_sessionId s" w None]
  by (auto simp: recordLeaseLost_def leaseLostDraft_def draft_def turn_event_def no_new_turns_def [of w w] split: option.splits)

lemma failSession_no_turns:
  assumes "ses_sessionId s \<noteq> []" shows "no_new_turns w (snd (failSessionForWorkerLoss s st w))"
proof -
  let ?ex = "readEvents (ses_sessionId s) 0 w"
  let ?sq = "fold max (map ev_sequence ?ex) (ses_eventCursor s)"
  obtain a v where a: "failTurnInFlight s st ?ex ?sq (findInFlightTurnSeq s w) w = (a, v)"
    by (cases "failTurnInFlight s st ?ex ?sq (findInFlightTurnSeq s w) w")
  have v: "no_new_turns w v" using failTurn_no_turns [OF assms, of w st ?ex ?sq "findInFlightTurnSeq s w"] a by simp
  have pub: "sessionEvents x (fold (publishSessionEvent y) es z) = sessionEvents x z" for x y es z
    by (simp add: sessionEvents_def tables_publishEach)
  show ?thesis
  proof (cases a)
    case (Inl e)
    with a v show ?thesis by (simp add: failSessionForWorkerLoss_def andThen_def no_new_turns_def Let_def)
  next
    case (Inr p)
    obtain b u where b: "recordLeaseLost s st ?ex (fst p) v = (b, u)" by (cases "recordLeaseLost s st ?ex (fst p) v")
    have u: "no_new_turns w u" using no_new_turns_trans [OF v] leaseLost_no_turns [OF assms, of v st ?ex "fst p"] b by simp
    show ?thesis
    proof (cases b)
      case (Inl e)
      with a b Inr u show ?thesis by (simp add: failSessionForWorkerLoss_def andThen_def no_new_turns_def Let_def split_def)
    next
      case q: (Inr q)
      have "sessionEvents x (snd (failSessionForWorkerLoss s st w)) = sessionEvents x u \<or> snd (failSessionForWorkerLoss s st w) = w" for x
        using a b Inr q by (simp add: failSessionForWorkerLoss_def andThen_def Let_def split_def pub log_reads_writeSession tab_simps del: fold_append)
      with u show ?thesis unfolding no_new_turns_def by metis
    qed
  qed
qed

lemma sorted_upto: "sorted_wrt (<) [i..j :: int]"
  by (simp add: sorted_wrt_iff_nth_less nth_upto)

lemma fail_moves:
  assumes inv: "sessions_ok w" and s: "readSession (ses_sessionId s) w = Some s" and sid: "ses_sessionId s \<noteq> []"
  shows "moves (ses_sessionId s) w (snd (failSessionForWorkerLoss s st w))"
proof (cases "truthy (ses_currentWorkerId s) \<and> truthy (ses_sessionLeaseId s)")
  case False
  then show ?thesis using moves_same [OF inv same_logs_refl] by (auto simp: failSessionForWorkerLoss_def)
next
  case True
  let ?sid = "ses_sessionId s" and ?es = "sessionEvents (ses_sessionId s) w"
  let ?sq = "fold max (map ev_sequence (readEvents ?sid 0 w)) (ses_eventCursor s)"
  from failSession_leased [OF conjunct1 [OF True] conjunct2 [OF True] sid, of st w] obtain c t new w1 where
    run: "failSessionForWorkerLoss s st w = (Inr (failed_for_loss s c t), w1)"
    and tab: "w_sessions w1 = tput ?sid (failed_for_loss s c t) (w_sessions w)"
    and ev: "\<forall>x. sessionEvents x w1 = (if x = ?sid then sessionEvents x w @ new else sessionEvents x w)"
    and new: "map ev_sequence new = [?sq + 1 .. c]" "?sq \<le> c" by metis
  have ok: "logs_ok w" using inv by (simp add: sessions_ok_def)
  note l = logs_ok_log [OF ok, of ?sid, unfolded s log_ok_def, simplified]
  have le: "\<forall>x \<in> set (map ev_sequence (readEvents ?sid 0 w)). x \<le> ses_eventCursor s"
    using l by (auto simp: readEvents_def below_all_def)
  have sq: "?sq = ses_eventCursor s" by (rule fold_max_id [OF le])
  have "\<not> turn_event e" if "e \<in> set new" for e
  proof -
    from that have "ev_sequence e \<in> set [?sq + 1 .. c]" using new(1) by (metis image_eqI list.set_map)
    then have "e \<notin> set ?es" using l sq by (auto simp: below_all_def)
    moreover have "e \<in> set (sessionEvents ?sid w1)" using that ev by simp
    ultimately show ?thesis using failSession_no_turns [OF sid, of w st] run unfolding no_new_turns_def by auto
  qed
  then have turns: "turns (?es @ new) = turns ?es" by (simp add: turns_def filter_empty_conv)
  have read: "readSession x w1 = (if x = ?sid then Some (failed_for_loss s c t) else readSession x w)" for x
    by (simp add: readSession_def tab tget_tput)
  have "sorted_wrt (<) (map ev_sequence (?es @ new))"
    using l new sq by (auto simp: sorted_wrt_append sorted_upto below_all_def)
  moreover have "below_all (c + 1) (map ev_sequence (?es @ new))" using l new sq by (auto simp: below_all_def)
  ultimately have log: "log_ok (Some (failed_for_loss s c t)) (?es @ new)"
    using l unfolding log_ok_def turns by (simp add: failed_for_loss_def)
  have "logs_ok w1"
    unfolding logs_ok_def
  proof (intro conjI allI impI)
    fix x r assume "readSession x w1 = Some r"
    then show "ses_sessionId r = x" using logs_ok_id [OF ok] by (auto simp: read failed_for_loss_def split: if_splits)
  next
    fix x show "log_ok (readSession x w1) (sessionEvents x w1)"
      using log logs_ok_log [OF ok, of x] ev by (cases "x = ?sid") (simp_all add: read)
  qed
  moreover have "frame ?sid w w1" by (simp add: frame_def read tab keyed_tput failed_for_loss_def)
  ultimately show ?thesis using run by (simp add: movesI [OF inv sid])
qed

lemma recover_moves:
  assumes "sessions_ok w" and "readSession (ses_sessionId s) w = Some s" and "ses_sessionId s \<noteq> []"
  shows "moves (ses_sessionId s) w (snd (recoverPause s w))"
proof -
  let ?k = "if truthy (ses_currentWorkerId s) then readWorker (the (ses_currentWorkerId s)) w else None"
  obtain b v where b: "canContinuePause s ?k w = (b, v)" by (cases "canContinuePause s ?k w")
  have v: "same_logs w v" using b same_logs_readings(1) [of w]
    by (auto simp: canContinuePause_def Let_def split_def split: option.splits if_splits)
  have lost: "moves (ses_sessionId s) w (snd (andThen (failSessionForWorkerLoss s st) (\<lambda>_. ok ([] :: worker_command list)) u))"
    if "same_logs w u" for st u
  proof -
    have "moves (ses_sessionId s) u (snd (failSessionForWorkerLoss s st u))"
      using that assms by (intro fail_moves) (simp_all add: same_logs_sessions same_logs_reads)
    with that show ?thesis by (simp add: same_logs_moves)
  qed
  have rec: "same_logs v (snd (recoverPauseCommand s v))"
    using pauseCommand_same
    by (auto simp: recoverPauseCommand_def assertWorkerLease_def andThen_def [of "assertWorkerLease s"] split: option.splits)
  obtain r u where r: "recoverPauseCommand s v = (r, u)" by (cases "recoverPauseCommand s v")
  have u: "same_logs w u" using same_logs_trans [OF v rec] r by simp
  show ?thesis
  proof (cases b)
    case False
    with b lost [OF v] show ?thesis by (simp add: recoverPause_def Let_def)
  next
    case True
    with b r lost [OF u] moves_same [OF assms(1) u] show ?thesis
      by (cases r) (auto simp: recoverPause_def Let_def andThen_def [of "recoverPauseCommand s"] split: option.splits)
  qed
qed

lemma isIdle_same: "same_logs w (snd (isIdle s p w))"
  by (simp add: isIdle_def split_def Let_def)

lemma reconcileSession_moves:
  assumes inv: "sessions_ok w" and s: "readSession (ses_sessionId s) w = Some s" and sid: "ses_sessionId s \<noteq> []"
  shows "moves (ses_sessionId s) w (snd (reconcileSession cfg pending s w))"
proof -
  obtain b v where b: "isIdle s (ses_sessionId s \<in> pending) w = (b, v)" by (cases "isIdle s (ses_sessionId s \<in> pending) w")
  have v: "same_logs w v" using isIdle_same [of w s "ses_sessionId s \<in> pending"] b by simp
  have inv1: "sessions_ok v" "readSession (ses_sessionId s) v = Some s"
    using inv s v by (simp_all add: same_logs_sessions same_logs_reads)
  have assign: "moves (ses_sessionId s) w (snd (andThen (assignReadyWorker s) (\<lambda>(assigned, command).
           case command of None \<Rightarrow> ok [] | Some c \<Rightarrow> (\<lambda>w2. ok [c] (publishSessionStatus assigned Starting None w2))) v))"
    by (rule same_logs_moves [OF v], rule moves_andThen, rule assign_moves [OF inv1 sid])
      (simp add: split_def same_logs_publishStatus split: option.splits)
  have pause: "moves (ses_sessionId s) w (snd (andThen (pauseQueuedSession s) (\<lambda>_. ok ([] :: worker_command list)) v))"
    by (simp add: same_logs_moves [OF v pauseQueued_moves [OF inv1 sid]])
  have idle: "moves (ses_sessionId s) w (snd (requestIdlePause cfg s v))"
    by (rule same_logs_moves [OF v requestIdle_moves [OF inv1 sid]])
  have queued: "moves (ses_sessionId s) w (snd (reconcileQueuedSession s (ses_sessionId s \<in> pending) w))"
    unfolding reconcileQueuedSession_def b Let_def prod.case using assign pause by (cases b) (simp_all only: if_True if_False)
  show ?thesis
    using queued idle recover_moves [OF inv s sid] moves_same [OF inv same_logs_refl] moves_same [OF inv v] b
    by (simp add: reconcileSession_def)
qed

lemma reconcileSessions_ok:
  assumes "sessions_ok w" and "distinct (map ses_sessionId ss)"
    and "\<forall>s \<in> set ss. readSession (ses_sessionId s) w = Some s \<and> ses_sessionId s \<noteq> []"
  shows "sessions_ok (snd (reconcileSessions cfg pending ss w))"
  using assms
proof (induction ss arbitrary: w)
  case (Cons s ss)
  obtain r v where r: "reconcileSession cfg pending s w = (r, v)" by (cases "reconcileSession cfg pending s w")
  from reconcileSession_moves [OF Cons(2), of s cfg pending] Cons(4) r have m: "moves (ses_sessionId s) w v" by simp
  have "sessions_ok (snd (reconcileSessions cfg pending ss v))"
  proof (rule Cons(1))
    show "\<forall>x \<in> set ss. readSession (ses_sessionId x) v = Some x \<and> ses_sessionId x \<noteq> []"
    proof
      fix x assume x: "x \<in> set ss"
      with Cons(3) have "ses_sessionId x \<noteq> ses_sessionId s" by (metis distinct.simps(2) image_eqI list.set_map list.simps(9))
      with m x Cons(4) show "readSession (ses_sessionId x) v = Some x \<and> ses_sessionId x \<noteq> []" by (simp add: moves_def)
    qed
  qed (use m Cons(3) in \<open>simp_all add: moves_def\<close>)
  with m r show ?case by (cases r) (simp_all add: andThen_def [of "reconcileSession cfg pending s"] moves_def)
qed simp

subsection \<open>Expiry and the pools\<close>

definition keeps_sessions :: "'a wop \<Rightarrow> bool" where
  "keeps_sessions m = (\<forall>w. sessions_ok w \<longrightarrow> sessions_ok (snd (m w)))"

lemma ks_same: "(\<And>w. same_logs w (snd (m w))) \<Longrightarrow> keeps_sessions m"
  using same_logs_sessions by (simp add: keeps_sessions_def) blast

lemma ks_ok [simp]: "keeps_sessions (ok x)" "keeps_sessions (throw e)"
  by (simp_all add: keeps_sessions_def)

lemma ks_then: "keeps_sessions m \<Longrightarrow> (\<And>x. keeps_sessions (f x)) \<Longrightarrow> keeps_sessions (andThen m f)"
  unfolding keeps_sessions_def by (metis andThen_preserves)

lemma ks_ignoring: "keeps_sessions m \<Longrightarrow> keeps_sessions (ignoring m)"
  unfolding ignoring_def by (intro ks_then ks_ok)

lemma ks_if: "keeps_sessions m \<Longrightarrow> keeps_sessions m1 \<Longrightarrow> keeps_sessions (if b then m else m1)"
  by simp

lemma ks_each: "(\<And>x. keeps_sessions (f x)) \<Longrightarrow> keeps_sessions (eachOf f xs)"
  by (induction xs) (simp_all add: ks_then)

lemma ks_catching:
  assumes "keeps_sessions m" and "\<And>e. keeps_sessions (h e)" shows "keeps_sessions (catching m h)"
  unfolding keeps_sessions_def
proof (intro allI impI)
  fix w assume w: "sessions_ok w"
  obtain r v where m: "m w = (r, v)" by (cases "m w")
  with assms(1) w have "sessions_ok v" by (metis keeps_sessions_def snd_conv)
  with m assms(2) show "sessions_ok (snd (catching m h w))" by (cases r) (simp_all add: catching_def keeps_sessions_def)
qed

text \<open>A part that makes a step which leaves the logs alone before it goes on.\<close>

lemma ks_after:
  assumes "sessions_ok w" and "keeps_sessions m" and "same_logs w v" shows "sessions_ok (snd (m v))"
  using assms by (simp add: keeps_sessions_def same_logs_sessions)

lemma ks_failEach:
  assumes "sessions_ok w" and "distinct (map ses_sessionId ss)"
    and "\<forall>s \<in> set ss. readSession (ses_sessionId s) w = Some s \<and> ses_sessionId s \<noteq> []"
  shows "sessions_ok (snd (failEach st ss w))"
  using assms
proof (induction ss arbitrary: w)
  case (Cons s ss)
  obtain r v where r: "failSessionForWorkerLoss s (Some st) w = (r, v)" by (cases "failSessionForWorkerLoss s (Some st) w")
  from fail_moves [OF Cons(2), of s "Some st"] Cons(4) r have m: "moves (ses_sessionId s) w v" by simp
  have "sessions_ok (snd (failEach st ss v))"
  proof (rule Cons(1))
    show "\<forall>x \<in> set ss. readSession (ses_sessionId x) v = Some x \<and> ses_sessionId x \<noteq> []"
    proof
      fix x assume x: "x \<in> set ss"
      with Cons(3) have "ses_sessionId x \<noteq> ses_sessionId s" by (metis distinct.simps(2) image_eqI list.set_map list.simps(9))
      with m x Cons(4) show "readSession (ses_sessionId x) v = Some x \<and> ses_sessionId x \<noteq> []" by (simp add: moves_def)
    qed
  qed (use m Cons(3) in \<open>simp_all add: moves_def\<close>)
  with m r show ?case by (cases r) (simp_all add: andThen_def [of "failSessionForWorkerLoss s (Some st)"] moves_def)
qed simp

lemma sessions_distinct: "sessions_ok w \<Longrightarrow> distinct (map ses_sessionId (filter P (readSessions w)))"
proof -
  assume "sessions_ok w"
  then have k: "keyed ses_sessionId (w_sessions w)" by (simp add: sessions_ok_def)
  then have "map ses_sessionId (readSessions w) = map fst (w_sessions w)" by (auto simp: keyed_def readSessions_def tall_def)
  with k have "distinct (map ses_sessionId (readSessions w))" by (simp add: keyed_def)
  then show ?thesis by (rule distinct_map_filter)
qed

lemma ks_failLeased: "keeps_sessions (failLeasedSessions k)"
  unfolding keeps_sessions_def
proof (intro allI impI)
  fix w assume w: "sessions_ok w"
  show "sessions_ok (snd (failLeasedSessions k w))"
    unfolding failLeasedSessions_def by (rule ks_failEach [OF w sessions_distinct [OF w]]) (use sessions_ok_read [OF w] in auto)
qed

lemma ks_workerEvent: "keeps_sessions (appendWorkerEvent wid ty pl)"
  by (rule ks_same) (simp add: appendWorkerEvent_def logAppend_def appendEvent_def workerDraft_def draft_def Let_def split_def same_logs_def tab_simps)

lemma ks_terminate: "keeps_sessions (terminate k st reason ty)"
  unfolding keeps_sessions_def
proof (intro allI impI)
  fix w assume w: "sessions_ok w"
  let ?n = "k\<lparr>wk_allocatable := 0, wk_currentSessionCount := 0, wk_conditions := [Disconnected], wk_lifecycleState := st,
        wk_terminalReason := Some reason, wk_updatedAt := fst (now w)\<rparr>"
  have "keeps_sessions (andThen (appendWorkerEvent (wk_workerId ?n) ty (ReasonPayload reason)) (\<lambda>_. andThen (failLeasedSessions ?n) (\<lambda>_. ok ?n)))"
    by (intro ks_then ks_workerEvent ks_failLeased ks_ok)
  from ks_after [OF w this, of "writeWorker ?n (snd (now w))"] show "sessions_ok (snd (terminate k st reason ty w))"
    by (simp add: terminate_def Let_def split_def same_logs_def tab_simps)
qed

lemma requireWorker_same: "same_logs w (snd (requireWorker wid w))"
  by (simp add: requireWorker_def split: option.splits)

lemma assertActive_same: "same_logs w (snd (assertActiveWorker k w))"
  by (simp add: assertActiveWorker_def)

lemma ks_close: "keeps_sessions (closeWorker wid)"
  unfolding closeWorker_def by (intro ks_then ks_terminate ks_same requireWorker_same assertActive_same)

lemma ks_expireWorker: "keeps_sessions (expireWorker wid reason)"
  unfolding expireWorker_def by (intro ks_then ks_if ks_terminate ks_same [OF requireWorker_same] ks_ok)

lemma ks_expireWorkers: "keeps_sessions expireWorkers"
  unfolding keeps_sessions_def
proof (intro allI impI)
  fix w assume w: "sessions_ok w"
  have "keeps_sessions (terminateEach ks)" for ks by (induction ks) (simp_all add: ks_then ks_terminate, simp add: keeps_sessions_def)
  from ks_after [OF w this same_logs_readings(1)] show "sessions_ok (snd (expireWorkers w))"
    by (simp add: expireWorkers_def Let_def split_def)
qed

text \<open>The adapters of the host pools are other programs: they leave central's files alone.\<close>

definition adapter_ok :: "host_adapter \<Rightarrow> bool" where
  "adapter_ok a = ((\<forall>p i w. same_logs w (snd (ha_ensureRunning a p i w))) \<and> (\<forall>p i d w. same_logs w (snd (ha_ensureStopped a p i d w))))"

definition pools_ok :: "pool_config \<Rightarrow> bool" where
  "pools_ok cfg = (\<forall>n a. pm_adapters cfg n = Some a \<longrightarrow> adapter_ok a)"

lemma ks_stop:
  assumes "adapter_ok a" shows "keeps_sessions (stopInstance pool a i k out reason)"
  unfolding keeps_sessions_def
proof (intro allI impI)
  fix w assume w: "sessions_ok w"
  let ?st = "i\<lparr>hi_state := Stopping, hi_failureReason := (if out = StopFailed then Some (orElse reason ''host_instance_failed'') else None),
      hi_updatedAt := fst (now w)\<rparr>"
  have stopped: "same_logs v (snd (ha_ensureStopped a pool ?st d v))" for d v using assms by (simp add: adapter_ok_def)
  have last: "keeps_sessions (\<lambda>w3. let (t2, w4) = now w3 in ok () (writeHostPoolInstance (?st\<lparr>hi_state := (if out = StopFailed then InstFailed else Stopped),
       hi_stoppedAt := Some t2, hi_updatedAt := t2\<rparr>) w4))"
    by (rule ks_same) (simp add: Let_def split_def same_logs_def tab_simps writeHostPoolInstance_def)
  have stop: "keeps_sessions (\<lambda>w2. andThen (ha_ensureStopped a pool ?st (resolveDurableAction ?st w2)) (\<lambda>_ w3.
      let (t2, w4) = now w3 in ok () (writeHostPoolInstance (?st\<lparr>hi_state := (if out = StopFailed then InstFailed else Stopped),
       hi_stoppedAt := Some t2, hi_updatedAt := t2\<rparr>) w4)) w2)"
    unfolding keeps_sessions_def using ks_then [OF ks_same [OF stopped] last] by (simp add: keeps_sessions_def)
  have "keeps_sessions (case k of Some k \<Rightarrow> if wk_lifecycleState k = Active then ignoring (closeWorker (wk_workerId k)) else ok () | None \<Rightarrow> ok ())"
    by (cases k) (simp_all add: ks_ignoring ks_close)
  from ks_after [OF w ks_then [OF this stop], of "writeHostPoolInstance ?st (snd (now w))"]
  show "sessions_ok (snd (stopInstance pool a i k out reason w))"
    by (simp add: stopInstance_def Let_def split_def same_logs_def tab_simps writeHostPoolInstance_def)
qed

lemma writeInstance_same: "same_logs w (writeHostPoolInstance i w)"
  by (simp add: same_logs_def writeHostPoolInstance_def)

lemma ks_writeInstance: "keeps_sessions (\<lambda>w. let (t, w1) = now w in ok (r t) (writeHostPoolInstance (f t) w1))"
  by (rule ks_same) (simp add: Let_def split_def same_logs_trans [OF same_logs_readings(1) writeInstance_same])

lemma ks_ensureRunning: "adapter_ok a \<Longrightarrow> keeps_sessions (ensureInstanceRunning cfg pool a i)"
proof -
  assume a: "adapter_ok a"
  have run: "keeps_sessions (ha_ensureRunning a pool i)" using a by (intro ks_same) (simp add: adapter_ok_def)
  have failed: "keeps_sessions (andThen (stopInstance pool a i None StopFailed r) (\<lambda>_. ok (None :: host_instance option)))" for r
    by (intro ks_then ks_stop a ks_ok)
  have moved: "keeps_sessions (\<lambda>w. let (t, w1) = now w; next = i\<lparr>hi_hostHandle := Some handle, hi_updatedAt := t\<rparr>
       in ok (Some next) (writeHostPoolInstance next w1))" for handle
    using ks_writeInstance [of "\<lambda>t. Some (i\<lparr>hi_hostHandle := Some handle, hi_updatedAt := t\<rparr>)" "\<lambda>t. i\<lparr>hi_hostHandle := Some handle, hi_updatedAt := t\<rparr>"]
    by (simp add: Let_def)
  show ?thesis unfolding ensureInstanceRunning_def by (intro ks_catching ks_then run ks_if failed moved ks_ok)
qed

lemma ks_eachWorker: "(\<And>k. keeps_sessions (f k)) \<Longrightarrow> keeps_sessions (\<lambda>w. eachOf f (filter P (readWorkers w)) w)"
  by (simp add: keeps_sessions_def ks_each [unfolded keeps_sessions_def, rule_format])

lemma ks_fence: "keeps_sessions (fenceInstanceWorkers i reason)"
  unfolding fenceInstanceWorkers_def [abs_def] by (intro ks_eachWorker ks_ignoring ks_expireWorker)

lemma ks_fresh: "keeps_sessions (awaitFreshReport wid d)"
  unfolding awaitFreshReport_def
  by (intro ks_then ks_same [OF requireWorker_same], rule ks_same) (simp add: Let_def split_def same_logs_def tab_simps)

lemma ks_rearm: "keeps_sessions (rearmReportExpectation cfg i pool)"
  unfolding keeps_sessions_def
proof (intro allI impI)
  fix w assume w: "sessions_ok w"
  have "keeps_sessions (andThen (eachOf (\<lambda>k. ignoring (awaitFreshReport (wk_workerId k) d)) ks) (\<lambda>_. ok p))" for d ks and p :: host_instance
    by (intro ks_then ks_each ks_ignoring ks_fresh ks_ok)
  from ks_after [OF w this same_logs_trans [OF same_logs_readings(1) writeInstance_same]]
  show "sessions_ok (snd (rearmReportExpectation cfg i pool w))" by (simp add: rearmReportExpectation_def Let_def split_def)
qed

lemma stamp_same: "same_logs w (snd (stampWorkerPlacement cfg wid i w))"
  by (simp add: stampWorkerPlacement_def Let_def split_def same_logs_def tab_simps split: option.splits)

lemma filterW_same: "(\<And>x w. same_logs w (snd (f x w))) \<Longrightarrow> same_logs w (snd (filterW f xs w))"
proof (induction xs arbitrary: w)
  case (Cons x xs)
  from same_logs_trans [OF Cons(2) [of w x] Cons(1) [OF Cons(2)]] show ?case by (simp add: Let_def split_def)
qed simp

lemma ks_pending: "adapter_ok a \<Longrightarrow> keeps_sessions (reconcilePendingInstance cfg pool a i)"
  unfolding keeps_sessions_def
proof (intro allI impI)
  assume a: "adapter_ok a"
  fix w assume w: "sessions_ok w"
  obtain ks v where v: "filterW (isQualifyingWorkerReport i pool) (readWorkers w) w = (ks, v)"
    by (cases "filterW (isQualifyingWorkerReport i pool) (readWorkers w) w")
  have same: "same_logs w v"
    using filterW_same [of "isQualifyingWorkerReport i pool" w "readWorkers w"] v by (simp add: isQualifyingWorkerReport_def Let_def split_def)
  have ready: "keeps_sessions (andThen (stampWorkerPlacement cfg wid i) (\<lambda>_ w2. let (t, w3) = now w2
      in ok () (writeHostPoolInstance (i\<lparr>hi_state := InstReady, hi_currentWorkerId := Some wid, hi_reportExpectedAfter := None,
         hi_reportDeadline := None, hi_updatedAt := t\<rparr>) w3)))" for wid
    by (intro ks_then ks_same [OF stamp_same] ks_writeInstance)
  have fenced: "keeps_sessions (andThen (fenceInstanceWorkers i r) (\<lambda>_. stopInstance pool a i None StopFailed (Some r)))" for r
    by (intro ks_then ks_fence ks_stop a)
  note after = ks_after [OF w ready same] ks_after [OF w fenced same] ks_after [OF w fenced same_logs_trans [OF same same_logs_readings(1)]]
  show "sessions_ok (snd (reconcilePendingInstance cfg pool a i w))"
    using after w same same_logs_sessions [OF same] same_logs_sessions [OF same_logs_trans [OF same same_logs_readings(1)]]
    by (simp add: reconcilePendingInstance_def v Let_def split_def)
qed

lemma ks_scaleOutInstance:
  assumes a: "adapter_ok a" shows "keeps_sessions (scaleOutInstance cfg pool a b r)"
  unfolding keeps_sessions_def
proof (intro allI impI)
  fix w assume w: "sessions_ok w"
  have rest: "keeps_sessions (case x of None \<Rightarrow> ok () | Some r \<Rightarrow> reconcilePendingInstance cfg pool a r)" for x
    by (cases x) (simp_all add: ks_pending [OF a])
  have "keeps_sessions (andThen (ensureInstanceRunning cfg pool a i) (\<lambda>running. case running of None \<Rightarrow> ok ()
      | Some r \<Rightarrow> reconcilePendingInstance cfg pool a r))" for i
    by (intro ks_then ks_ensureRunning a rest)
  from ks_after [OF w this same_logs_trans [OF same_logs_trans [OF same_logs_readings(1) same_logs_readings(2)] writeInstance_same]]
  show "sessions_ok (snd (scaleOutInstance cfg pool a b r w))" by (simp add: scaleOutInstance_def Let_def split_def)
qed

lemma ks_withAdapter:
  assumes "pools_ok cfg" and "\<And>a. adapter_ok a \<Longrightarrow> keeps_sessions (f a)"
  shows "keeps_sessions (andThen (requireHostPoolAdapter cfg pool) f)"
  using assms by (auto simp: keeps_sessions_def requireHostPoolAdapter_def andThen_def pools_ok_def split: option.splits)

lemma ks_scaleOutPool:
  assumes "pools_ok cfg" shows "keeps_sessions (scaleOutPool cfg ss ks is pool)"
  unfolding keeps_sessions_def
proof (intro allI impI)
  fix w assume w: "sessions_ok w"
  obtain queued v where v: "filterW (isQueuedForPool pool) ss w = (queued, v)" by (cases "filterW (isQueuedForPool pool) ss w")
  have same: "same_logs w v" using filterW_same [of "isQueuedForPool pool" w ss] v by (simp add: isQueuedForPool_def Let_def split_def)
  let ?f = "\<lambda>s v. let (b, v1) = hasAssignableWorker ks pool s v in (\<not> b, v1)"
  obtain unserved u where u: "filterW ?f queued v = (unserved, u)" by (cases "filterW ?f queued v")
  have same1: "same_logs w u"
    using same_logs_trans [OF same filterW_same [of ?f v queued]] u by (simp add: hasAssignableWorker_def Let_def split_def)
  have go: "keeps_sessions (andThen (requireHostPoolAdapter cfg pool) (\<lambda>adapter.
       if wp_reuse pool = Some False
       then eachOf (\<lambda>s. scaleOutInstance cfg pool adapter (Some (ses_sessionId s)) (Some (ses_workspaceRef s))) xs
       else eachOf (\<lambda>_. scaleOutInstance cfg pool adapter None None) ns))" for xs and ns :: "nat list"
    by (intro ks_withAdapter assms ks_if ks_each ks_scaleOutInstance)
  show "sessions_ok (snd (scaleOutPool cfg ss ks is pool w))"
    using w same_logs_sessions [OF same] same_logs_sessions [OF same1]
    by (simp add: scaleOutPool_def v u [unfolded Let_def] Let_def) (intro impI ks_after [OF w go same1])
qed

lemma ks_known: "adapter_ok a \<Longrightarrow> keeps_sessions (reconcileKnownInstance cfg pool a stored)"
proof -
  assume a: "adapter_ok a"
  have stopping: "keeps_sessions (completeStoppingInstance pool a stored)"
    using ks_stop [OF a] by (simp add: keeps_sessions_def completeStoppingInstance_def)
  have pend: "keeps_sessions (case x of None \<Rightarrow> ok () | Some r \<Rightarrow> if hi_state r = Pending then reconcilePendingInstance cfg pool a r else ok ())" for x
    by (cases x) (simp_all add: ks_pending [OF a])
  have go: "keeps_sessions (andThen (ensureInstanceRunning cfg pool a i) (\<lambda>running. case running of None \<Rightarrow> ok ()
      | Some r \<Rightarrow> if hi_state r = Pending then reconcilePendingInstance cfg pool a r else ok ()))" for i
    by (intro ks_then ks_ensureRunning a pend)
  have inner: "keeps_sessions (\<lambda>w. let worker = currentWorkerOf i w
         in if hi_state i = InstReady \<and> isWorkerTerminal worker
            then stopInstance pool a i worker StopFailed (Some ''current_worker_lost'') w
            else if hi_state i = InstReady \<and> truthy (hi_currentWorkerId i) \<and> worker = None then ok () w
            else andThen (ensureInstanceRunning cfg pool a i) (\<lambda>running.
              case running of
                None \<Rightarrow> ok ()
              | Some r \<Rightarrow> if hi_state r = Pending then reconcilePendingInstance cfg pool a r else ok ()) w)" for i
    using ks_stop [OF a] go by (simp add: keeps_sessions_def Let_def)
  show ?thesis
    unfolding reconcileKnownInstance_def by (intro ks_if stopping ks_then ks_rearm ks_ok inner)
qed

lemma ks_scaleIn: "adapter_ok a \<Longrightarrow> keeps_sessions (scaleInInstance ks pool a i)"
  unfolding keeps_sessions_def
proof (intro allI impI)
  assume a: "adapter_ok a"
  fix w assume w: "sessions_ok w"
  have v: "sessions_ok (snd (now w))" using same_logs_sessions [OF same_logs_readings(1)] w by simp
  have clear: "same_logs u (snd (clearIdleSince x u))" for x u
    by (simp add: clearIdleSince_def Let_def split_def same_logs_trans [OF same_logs_readings(1) writeInstance_same])
  have clear1: "sessions_ok (snd (clearIdleSince x u))" if "sessions_ok u" for x u
    using that same_logs_sessions [OF clear] by simp
  have stop: "sessions_ok (snd (stopInstance pool a x k out r u))" if "sessions_ok u" for x k out r u
    using that ks_stop [OF a] by (simp add: keeps_sessions_def)
  have put: "sessions_ok (writeHostPoolInstance x (snd (now w)))" for x using v same_logs_sessions [OF writeInstance_same] by simp
  show "sessions_ok (snd (scaleInInstance ks pool a i w))"
    using w v by (simp add: scaleInInstance_def Let_def split_def clear1 stop put split: option.splits)
qed

lemma ks_pools:
  assumes "pools_ok cfg" shows "keeps_sessions (poolReconcile cfg)"
proof -
  have known: "keeps_sessions (reconcileHostPoolInstances cfg)"
    unfolding keeps_sessions_def reconcileHostPoolInstances_def Let_def
    by (intro allI impI ks_each [unfolded keeps_sessions_def, rule_format] ks_withAdapter [OF assms, unfolded keeps_sessions_def, rule_format]
        ks_known [unfolded keeps_sessions_def, rule_format]) assumption+
  have out: "keeps_sessions (scaleOutForQueuedSessions cfg)"
    unfolding keeps_sessions_def scaleOutForQueuedSessions_def
    by (intro allI impI ks_each [unfolded keeps_sessions_def, rule_format] ks_scaleOutPool [OF assms, unfolded keeps_sessions_def, rule_format]) assumption+
  have idle: "keeps_sessions (scaleInIdleWorkers cfg)"
    unfolding keeps_sessions_def scaleInIdleWorkers_def Let_def
    by (intro allI impI ks_each [unfolded keeps_sessions_def, rule_format] ks_withAdapter [OF assms, unfolded keeps_sessions_def, rule_format]
        ks_scaleIn [unfolded keeps_sessions_def, rule_format]) assumption+
  show ?thesis unfolding poolReconcile_def by (intro ks_if ks_then known out idle ks_ok)
qed

lemma publishCommands_same: "same_logs w (publishCommands cs w)"
proof -
  have "same_logs w (fold (\<lambda>c. publish (WorkerCommands (wc_workerId c)) (wc_event c)) cs w)"
    by (induction cs arbitrary: w) (auto intro: same_logs_trans [OF same_logs_readings(4)])
  then show ?thesis by (simp add: publishCommands_def)
qed

lemma ks_lifecycle:
  assumes "\<forall>p. lc_pools cfg = Some p \<longrightarrow> pools_ok p" shows "keeps_sessions (lifecycleReconcile cfg)"
proof -
  have pools: "keeps_sessions (reconcilePools cfg)" using assms ks_pools by (simp add: reconcilePools_def split: option.splits)
  have publish: "keeps_sessions (\<lambda>w1. ok () (publishCommands cs w1))" for cs
    by (rule ks_same) (simp add: publishCommands_same)
  have sessions: "keeps_sessions (\<lambda>w. reconcileSessions cfg (sessionsWithPendingDelegationWork w) (readSessions w) w)"
    unfolding keeps_sessions_def
  proof (intro allI impI)
    fix w assume w: "sessions_ok w"
    show "sessions_ok (snd (reconcileSessions cfg (sessionsWithPendingDelegationWork w) (readSessions w) w))"
      by (rule reconcileSessions_ok [OF w]) (use sessions_distinct [OF w, of "\<lambda>_. True"] sessions_ok_read [OF w] in auto)
  qed
  have "keeps_sessions (\<lambda>w. andThen (reconcileSessions cfg (sessionsWithPendingDelegationWork w) (readSessions w)) (\<lambda>commands.
       andThen (reconcilePools cfg) (\<lambda>_ w1. ok () (publishCommands commands w1))) w)"
    unfolding keeps_sessions_def
  proof (intro allI impI)
    fix w assume w: "sessions_ok w"
    obtain r v where r: "reconcileSessions cfg (sessionsWithPendingDelegationWork w) (readSessions w) w = (r, v)"
      by (cases "reconcileSessions cfg (sessionsWithPendingDelegationWork w) (readSessions w) w")
    from sessions [unfolded keeps_sessions_def, rule_format, OF w] r have v: "sessions_ok v" by simp
    show "sessions_ok (snd (andThen (reconcileSessions cfg (sessionsWithPendingDelegationWork w) (readSessions w)) (\<lambda>commands.
       andThen (reconcilePools cfg) (\<lambda>_ w1. ok () (publishCommands commands w1))) w))"
      using r v ks_then [OF pools publish, unfolded keeps_sessions_def, rule_format, OF v]
      by (cases r) (simp_all add: andThen_def [of "reconcileSessions cfg (sessionsWithPendingDelegationWork w) (readSessions w)"])
  qed
  then show ?thesis unfolding lifecycleReconcile_def by (intro ks_then pools ks_expireWorkers)
qed

end
