(* ===== verification/ReconcilerProps.thy ===== *)
theory ReconcilerProps
  imports ReconcilerInv
begin

text \<open>What a pass of the reconciler promises, and the commands it can lose.\<close>

subsection \<open>Commands that are lost\<close>

text \<open>
  The commands of a pass are published when all sessions were visited: if one session throws, the commands for the
  sessions before it are gone, although these sessions are stored as starting under leases their workers never hear of.
\<close>

definition strange_worker :: worker where
  "strange_worker = ex_worker\<lparr>wk_workerId := ''k2'', wk_storageClass := ''tape''\<rparr>"

definition waiting :: "string \<Rightarrow> session" where
  "waiting sid = ex_session\<lparr>ses_sessionId := sid, ses_lastEventUpdatedAt := 1000\<rparr>"

definition two_waiting :: world where
  "two_waiting = writeSession (waiting ''s2'') (writeSession (waiting ''s1'') (writeWorker strange_worker (writeWorker ex_worker empty_world)))"

definition no_pools :: reconciler_config where
  "no_pools = \<lparr>lc_pools = None, lc_hook = None\<rparr>"

definition worker_messages :: "world \<Rightarrow> (channel \<times> runtime_event) list" where
  "worker_messages w = filter (\<lambda>(ch, e). \<exists>k \<in> set (map wk_workerId (readWorkers w)). ch = WorkerCommands k) (w_published w)"

lemma failed_pass_loses_commands:
  "\<exists>e w1 s1. lifecycleReconcile no_pools two_waiting = (Inl e, w1)
     \<and> readSession ''s1'' w1 = Some s1 \<and> ses_status s1 = Starting \<and> ses_currentWorkerId s1 = Some ''k1'' \<and> ses_sessionLeaseId s1 \<noteq> None
     \<and> worker_messages w1 = []"
proof -
  have "case lifecycleReconcile no_pools two_waiting of
      (Inl e, w1) \<Rightarrow> (case readSession ''s1'' w1 of None \<Rightarrow> False
        | Some s1 \<Rightarrow> ses_status s1 = Starting \<and> ses_currentWorkerId s1 = Some ''k1'' \<and> ses_sessionLeaseId s1 \<noteq> None) \<and> worker_messages w1 = []
    | _ \<Rightarrow> False" by code_simp
  then show ?thesis by (auto split: prod.splits sum.splits option.splits)
qed

subsection \<open>Properties\<close>


lemma two_waiting_ok: "sessions_ok two_waiting"
proof -
  have r: "readSession x two_waiting = (if x = ''s2'' then Some (waiting ''s2'') else if x = ''s1'' then Some (waiting ''s1'') else None)"
    "sessionEvents x two_waiting = []" for x
    by (simp_all add: two_waiting_def readSession_def sessionEvents_def writeSession_def writeWorker_def empty_world_def tget_tput waiting_def)
  have "keyed ses_sessionId (w_sessions two_waiting)"
    by (simp add: two_waiting_def writeSession_def writeWorker_def empty_world_def keyed_tput)
  then show ?thesis
    by (simp add: sessions_ok_def logs_ok_def log_ok_def r waiting_def turns_def ex_session_def)
qed


end
