(* ===== verification/DelegationTargets.thy ===== *)
theory DelegationTargets
  imports AgentReports Sessions
begin

text \<open>
  The targets of \<^verbatim>\<open>controllers/delegation-runtime-event-controller.ts\<close>: what a tool request may name as
  its target, the operator's selection that is bound to the turn, and the devices of a fan-out.
\<close>

datatype target_spec = PoolTarget | DeviceTarget string | FanoutTarget "bool option" "string list option"

text \<open>\<^verbatim>\<open>[...new Set(xs)]\<close>: the first of each.\<close>

fun firsts :: "'a list \<Rightarrow> 'a list" where
  "firsts [] = []"
| "firsts (x # xs) = x # filter (\<lambda>y. y \<noteq> x) (firsts xs)"

definition non_empty_string :: "json \<Rightarrow> string option" where
  "non_empty_string j = (if truthy (jstring (Some j)) then jstring (Some j) else None)"

fun stringsOf :: "json list \<Rightarrow> string list option" where
  "stringsOf [] = Some []"
| "stringsOf (j # js) =
     (case (non_empty_string j, stringsOf js) of (Some s, Some ss) \<Rightarrow> Some (s # ss) | _ \<Rightarrow> None)"

definition resolveTargetSpec :: "json option \<Rightarrow> error + target_spec" where
  "resolveTargetSpec target =
     (if target = None \<or> target = Some JNull then Inr PoolTarget
      else if \<not> isRecord target then Inl TargetRejected
      else
        (let c = the target in
         if jfield ''scope'' c = Some (JStr ''any'') then Inr PoolTarget
         else if jfield ''scope'' c = Some (JStr ''all'') then Inr (FanoutTarget (Some True) None)
         else
           (case jarray (jfield ''deviceRefs'' c) of
              Some js \<Rightarrow>
                (if js = [] then Inl TargetRejected
                 else case stringsOf js of None \<Rightarrow> Inl TargetRejected | Some refs \<Rightarrow> Inr (FanoutTarget None (Some (firsts refs))))
            | None \<Rightarrow>
                (if truthy (jstring (jfield ''deviceRef'' c)) then Inr (DeviceTarget (the (jstring (jfield ''deviceRef'' c))))
                 else Inl TargetRejected))))"

fun targetSpecEquals :: "target_spec \<Rightarrow> target_spec \<Rightarrow> bool" where
  "targetSpecEquals PoolTarget PoolTarget = True"
| "targetSpecEquals (DeviceTarget a) (DeviceTarget b) = (a = b)"
| "targetSpecEquals (FanoutTarget a as) (FanoutTarget b bs) =
     ((a = Some True) = (b = Some True) \<and> sort (orElse as []) = sort (orElse bs []))"
| "targetSpecEquals _ _ = False"

text \<open>The selection the operator bound to a turn is part of the turn's durable \<^verbatim>\<open>input.accepted\<close>.\<close>

definition readTurnDelegationTarget :: "string \<Rightarrow> int \<Rightarrow> world \<Rightarrow> json option" where
  "readTurnDelegationTarget sid turnSeq w =
     (case find (\<lambda>e. ev_type e = InputAccepted \<and> ev_turnSeq e = Some turnSeq) (readEvents sid 0 w) of
        None \<Rightarrow> None
      | Some e \<Rightarrow>
          (case Option.bind (Option.bind (jsonBody (ev_payload e)) (jfield ''input'')) (jfield ''delegationTarget'') of
             Some JNull \<Rightarrow> None
           | t \<Rightarrow> t))"

definition resolveEnforcedTargetSpec :: "string \<Rightarrow> int \<Rightarrow> json option \<Rightarrow> world \<Rightarrow> error + target_spec" where
  "resolveEnforcedTargetSpec sid turnSeq toolTarget w =
     (case readTurnDelegationTarget sid turnSeq w of
        None \<Rightarrow> resolveTargetSpec toolTarget
      | Some bound \<Rightarrow>
          (case resolveTargetSpec (Some bound) of
             Inl e \<Rightarrow> Inl e
           | Inr boundSpec \<Rightarrow>
               if toolTarget \<noteq> None \<and> toolTarget \<noteq> Some JNull then
                 (case resolveTargetSpec toolTarget of
                    Inl e \<Rightarrow> Inl e
                  | Inr requested \<Rightarrow> if targetSpecEquals boundSpec requested then Inr boundSpec else Inl TargetRejected)
               else Inr boundSpec))"

definition resolveFanoutDeviceRefs :: "string \<Rightarrow> bool option \<Rightarrow> string list option \<Rightarrow> world \<Rightarrow> error + string list" where
  "resolveFanoutDeviceRefs parentId everyone refs w =
     (let activeRefs = firsts (map cb_deviceRef (filter (\<lambda>b. cb_status b = BActive) (readCaseDeviceBindings parentId w)))
      in if everyone = Some True then Inr activeRefs
         else
           (case filter (\<lambda>r. r \<notin> set activeRefs) (orElse refs []) of
              [] \<Rightarrow> Inr (orElse refs [])
            | r # _ \<Rightarrow> Inl (TargetNotPaired r parentId)))"

subsection \<open>What the functions decide\<close>

lemma set_firsts [simp]: "set (firsts xs) = set xs"
  by (induction xs) auto

lemma distinct_firsts [simp]: "distinct (firsts xs)"
  by (induction xs) auto

end
