(* ===== verification/WorkerEvents.thy ===== *)
theory WorkerEvents
  imports AgentEvents Sessions
begin

text \<open>
  \<^verbatim>\<open>controllers/worker-runtime-event-controller.ts\<close>: the heartbeats, drains and closings that a worker
  sends through the tenant inbox, under the worker's own identity. A heartbeat triggers the reconciler, whose
  failure is only logged.
\<close>

record worker_event_config =
  we_leaseTtl :: int
  we_reconcile :: "unit wop"

fun jnumber :: "json option \<Rightarrow> int option" where
  "jnumber (Some (JNum n)) = Some n"
| "jnumber _ = None"

text \<open>A status as the text it is stored and sent as.\<close>

fun session_status_text :: "session_status \<Rightarrow> string" where
  "session_status_text Created = ''created''"
| "session_status_text Queued = ''queued''"
| "session_status_text Starting = ''starting''"
| "session_status_text Running = ''running''"
| "session_status_text Pausing = ''pausing''"
| "session_status_text Paused = ''paused''"
| "session_status_text Resuming = ''resuming''"
| "session_status_text Completed = ''completed''"
| "session_status_text Cancelled = ''cancelled''"
| "session_status_text Failed = ''failed''"

fun conditionOf :: "json \<Rightarrow> worker_condition option" where
  "conditionOf (JStr s) =
     (if s = ''ready'' then Some Ready else if s = ''busy'' then Some Busy
      else if s = ''draining'' then Some Draining else if s = ''disconnected'' then Some Disconnected else None)"
| "conditionOf _ = None"

fun conditionsOf :: "json list \<Rightarrow> worker_condition list option" where
  "conditionsOf [] = Some []"
| "conditionsOf (j # js) = (case (conditionOf j, conditionsOf js) of (Some c, Some cs) \<Rightarrow> Some (c # cs) | _ \<Rightarrow> None)"

definition parseWorkerHeartbeatPayload :: "json option \<Rightarrow> worker_heartbeat_payload option" where
  "parseWorkerHeartbeatPayload b =
     (if b = None then None
      else
        (case (jstring (jfield ''workerId'' (the b)), jnumber (jfield ''capacity'' (the b)), jnumber (jfield ''allocatable'' (the b)),
               Option.bind (jarray (jfield ''conditions'' (the b))) conditionsOf) of
           (Some wid, Some cap, Some al, Some cs) \<Rightarrow>
             Some \<lparr>wh_workerId = wid, wh_capacity = cap, wh_allocatable = al, wh_conditions = cs\<rparr>
         | _ \<Rightarrow> None))"

definition parseWorkerIdentityPayload :: "json option \<Rightarrow> string option" where
  "parseWorkerIdentityPayload b = (if b = None then None else jstring (jfield ''workerId'' (the b)))"

definition assertWorkerIdentity :: "request_context \<Rightarrow> string \<Rightarrow> unit wop" where
  "assertWorkerIdentity ctx wid =
     (if rq_principalType ctx \<noteq> ServicePrincipal \<or> rq_principalId ctx \<noteq> wid
      then throw (IdentityMismatch (rq_principalId ctx) wid) else ok ())"

text \<open>\<^verbatim>\<open>void this.reconcileSessions().catch(...)\<close>\<close>

definition triggerWorkerReconcile :: "worker_event_config \<Rightarrow> world \<Rightarrow> world" where
  "triggerWorkerReconcile cfg w = snd (we_reconcile cfg w)"

text \<open>Whether the event was one of a worker's.\<close>

definition handleWorkerEvent :: "worker_event_config \<Rightarrow> request_context \<Rightarrow> runtime_event \<Rightarrow> bool wop" where
  "handleWorkerEvent cfg ctx e =
     (case ev_type e of
        WorkerHeartbeat \<Rightarrow>
          andThen (parsed e parseWorkerHeartbeatPayload) (\<lambda>p.
          andThen (assertWorkerIdentity ctx (wh_workerId p)) (\<lambda>_.
          andThen (heartbeat (we_leaseTtl cfg) p) (\<lambda>_ w. ok True (triggerWorkerReconcile cfg w))))
      | WorkerDrainRequested \<Rightarrow>
          andThen (parsed e parseWorkerIdentityPayload) (\<lambda>wid.
          andThen (assertWorkerIdentity ctx wid) (\<lambda>_.
          andThen (drainWorker wid) (\<lambda>_. ok True)))
      | WorkerCloseRequested \<Rightarrow>
          andThen (parsed e parseWorkerIdentityPayload) (\<lambda>wid.
          andThen (assertWorkerIdentity ctx wid) (\<lambda>_.
          andThen (closeWorker wid) (\<lambda>_. ok True)))
      | _ \<Rightarrow> ok False)"

end
