(* ===== verification/ClientEvents.thy ===== *)
theory ClientEvents
  imports WorkerEvents Pairing
begin

text \<open>
  \<^verbatim>\<open>controllers/client-runtime-event-controller.ts\<close>: the requests of a client become calls of the session,
  interaction and case pairing managers, and their outcomes are published. The message of an error and the order of
  \<^verbatim>\<open>localeCompare\<close> are parameters; a time in a response stands for its ISO text.
\<close>

record client_config =
  cl_sessions :: session_config
  cl_pairing :: pairing_config
  cl_localeCompare :: "string \<Rightarrow> string \<Rightarrow> int"
  cl_errorText :: "error \<Rightarrow> string"

subsection \<open>Parsers\<close>

definition isCreateSessionRequestedPayload :: "json \<Rightarrow> bool" where
  "isCreateSessionRequestedPayload p =
     (is_string (Option.bind (jfield ''agent'' p) (jfield ''agentSpecId''))
      \<and> (jfield ''input'' p = None \<or> is_string (Option.bind (jfield ''input'' p) (jfield ''message'')))
      \<and> Option.bind (jfield ''workspace'' p) (jfield ''source'') = Some (JStr ''empty''))"

definition is_ref :: "json \<Rightarrow> bool" where
  "is_ref j = truthy (jstring (Some j))"

definition isDelegationTarget :: "json \<Rightarrow> bool" where
  "isDelegationTarget v =
     (if \<not> isRecord (Some v) then False
      else if jfield ''scope'' v = Some (JStr ''all'') \<or> jfield ''scope'' v = Some (JStr ''any'') then True
      else if truthy (jstring (jfield ''deviceRef'' v)) then True
      else (case jarray (jfield ''deviceRefs'' v) of None \<Rightarrow> False | Some js \<Rightarrow> js \<noteq> [] \<and> list_all is_ref js))"

definition isSessionInputPayload :: "json \<Rightarrow> bool" where
  "isSessionInputPayload p =
     (is_string (Option.bind (jfield ''input'' p) (jfield ''message''))
      \<and> (case Option.bind (jfield ''input'' p) (jfield ''delegationTarget'') of None \<Rightarrow> True | Some t \<Rightarrow> isDelegationTarget t))"

definition parseCreateSessionRequestedPayload :: "json option \<Rightarrow> json option" where
  "parseCreateSessionRequestedPayload b =
     (case b of None \<Rightarrow> None | Some p \<Rightarrow> if isCreateSessionRequestedPayload p then Some p else None)"

definition parseSessionInputPayload :: "json option \<Rightarrow> json option" where
  "parseSessionInputPayload b = (case b of None \<Rightarrow> None | Some p \<Rightarrow> if isSessionInputPayload p then Some p else None)"

definition parseInteractionRespondPayload :: "json option \<Rightarrow> respond_request option" where
  "parseInteractionRespondPayload b =
     (case b of
        None \<Rightarrow> None
      | Some p \<Rightarrow>
          if \<not> truthy (jstring (jfield ''interactionId'' p)) then None
          else if jfield ''decision'' p \<notin> {None, Some (JStr ''approved''), Some (JStr ''denied'')} then None
          else if jfield ''scope'' p \<notin> {None, Some (JStr ''once''), Some (JStr ''session'')} then None
          else Some \<lparr>rq_interactionId = the (jstring (jfield ''interactionId'' p)), rq_decision = jstring (jfield ''decision'' p),
                     rq_scope = jstring (jfield ''scope'' p), rq_result = jfield ''result'' p\<rparr>)"

definition parseSessionEventsRequestedPayload :: "json option \<Rightarrow> int option" where
  "parseSessionEventsRequestedPayload b =
     (case Option.bind b (\<lambda>p. jnumber (jfield ''afterSequence'' p)) of
        None \<Rightarrow> None
      | Some n \<Rightarrow> if n < 0 then None else Some n)"

definition parseCaseId :: "json option \<Rightarrow> string option" where
  "parseCaseId b =
     (case Option.bind b (\<lambda>p. jstring (jfield ''caseId'' p)) of
        None \<Rightarrow> None
      | Some c \<Rightarrow> if c = [] then None else Some c)"

definition parseSessionCommandSessionId :: "runtime_event \<Rightarrow> string wop" where
  "parseSessionCommandSessionId e =
     (if truthy (ev_sessionId e) then ok (the (ev_sessionId e)) else throw (InvalidEvent (ev_type e)))"

subsection \<open>Answers to a client\<close>

definition toClientAckEvent :: "runtime_event \<Rightarrow> event_type \<Rightarrow> payload \<Rightarrow> runtime_event" where
  "toClientAckEvent e ty pl = e\<lparr>ev_type := ty, ev_payload := pl\<rparr>"

definition toClientProjectionEvent :: "runtime_event \<Rightarrow> event_type \<Rightarrow> payload \<Rightarrow> runtime_event" where
  "toClientProjectionEvent e ty pl = e\<lparr>ev_ackId := None, ev_turnSeq := None, ev_type := ty, ev_payload := pl\<rparr>"

definition toRequestAckEvent :: "runtime_event \<Rightarrow> event_type \<Rightarrow> payload \<Rightarrow> world \<Rightarrow> runtime_event \<times> world" where
  "toRequestAckEvent e ty pl w =
     (let (eid, w1) = freshId w
      in (e\<lparr>ev_eventId := eid, ev_actor := CentralActor, ev_type := ty, ev_payload := pl\<rparr>, w1))"

definition requireClientConnectionId :: "request_context \<Rightarrow> string wop" where
  "requireClientConnectionId ctx =
     (if truthy (rq_connectionId ctx) then ok (the (rq_connectionId ctx)) else throw MissingConnection)"

definition publishTo :: "channel \<Rightarrow> runtime_event \<Rightarrow> unit wop" where
  "publishTo ch e w = ok () (publish ch e w)"

definition publishPrivately :: "request_context \<Rightarrow> (world \<Rightarrow> runtime_event \<times> world) \<Rightarrow> unit wop" where
  "publishPrivately ctx f =
     andThen (requireClientConnectionId ctx) (\<lambda>c w. let (e, w1) = f w in publishTo (ClientPrivateInbox c) e w1)"

definition publishCommand :: "worker_command option \<Rightarrow> unit wop" where
  "publishCommand c =
     (case c of None \<Rightarrow> ok () | Some x \<Rightarrow> publishTo (WorkerCommands (wc_workerId x)) (wc_event x))"

definition status_ack :: "string \<Rightarrow> payload" where
  "status_ack st = JsonPayload (JObj [(''status'', JStr st)])"

subsection \<open>Case pairing requests\<close>

fun pairing_code :: "pairing_error \<Rightarrow> string" where
  "pairing_code CaseNotFound = ''case_not_found''"
| "pairing_code CaseClosed = ''case_closed''"
| "pairing_code InviteNotFound = ''invite_not_found''"
| "pairing_code InviteExpired = ''invite_expired''"
| "pairing_code InviteAlreadyRedeemed = ''invite_already_redeemed''"
| "pairing_code InviteSecretInvalid = ''invite_secret_invalid''"
| "pairing_code BindingNotFound = ''binding_not_found''"
| "pairing_code BindingCredentialInvalid = ''binding_credential_invalid''"
| "pairing_code InvalidInput = ''invalid_input''"

text \<open>The details of an internal error do not reach a client.\<close>

definition toCaseError :: "(error \<Rightarrow> string) \<Rightarrow> error \<Rightarrow> json" where
  "toCaseError txt err =
     (case err of
        Pairing p \<Rightarrow> JObj [(''code'', JStr (pairing_code p)), (''message'', JStr (txt (Pairing p)))]
      | _ \<Rightarrow> JObj [(''code'', JStr ''case_pairing_failed''), (''message'', JStr ''case pairing request failed'')])"

definition mint_json :: "mint_result \<Rightarrow> json" where
  "mint_json r = JObj [(''inviteId'', JStr (mr_inviteId r)), (''inviteSecret'', JStr (mr_inviteSecret r)),
     (''caseId'', JStr (mr_caseId r)), (''expiresAt'', JNum (mr_expiresAt r))]"

definition device_json :: "case_device_view \<Rightarrow> json" where
  "device_json v = jobj
     [(''deviceRef'', Some (JStr (cv_deviceRef v))), (''deviceLabel'', Some (JStr (cv_deviceLabel v))),
      (''online'', Some (JBool (cv_online v))), (''ready'', Some (JBool (cv_ready v))), (''busy'', Some (JBool (cv_busy v))),
      (''workerId'', map_option JStr (cv_workerId v)), (''lastHeartbeatAt'', map_option JNum (cv_lastHeartbeatAt v)),
      (''lastRedeemedAt'', Some (JNum (cv_lastRedeemedAt v)))]"

text \<open>A case request that is authorized and answered, or answered with its error.\<close>

definition casePayload ::
  "client_config \<Rightarrow> request_context \<Rightarrow> string \<Rightarrow> string \<Rightarrow> json wop \<Rightarrow> world \<Rightarrow> json \<times> world" where
  "casePayload cfg ctx caseId name act w =
     (case andThen (authorizeCaseAccess (cl_pairing cfg) caseId (rq_principalId ctx)) (\<lambda>_. act) w of
        (Inr j, w1) \<Rightarrow> (JObj [(''caseId'', JStr caseId), (name, j)], w1)
      | (Inl err, w1) \<Rightarrow> (JObj [(''caseId'', JStr caseId), (''error'', toCaseError (cl_errorText cfg) err)], w1))"

definition mintPairingPayload :: "client_config \<Rightarrow> request_context \<Rightarrow> string \<Rightarrow> world \<Rightarrow> json \<times> world" where
  "mintPairingPayload cfg ctx caseId =
     casePayload cfg ctx caseId ''invite'' (andThen (mintPairingInvite (cl_pairing cfg) caseId) (\<lambda>r. ok (mint_json r)))"

definition listCaseDevicesPayload ::
  "client_config \<Rightarrow> (world \<Rightarrow> world) \<Rightarrow> request_context \<Rightarrow> string \<Rightarrow> world \<Rightarrow> json \<times> world" where
  "listCaseDevicesPayload cfg between ctx caseId =
     casePayload cfg ctx caseId ''devices''
       (andThen (listCaseDevices (cl_pairing cfg) (cl_localeCompare cfg) between caseId) (\<lambda>ds. ok (JArr (map device_json ds))))"

definition publishCaseResponse :: "request_context \<Rightarrow> string option \<Rightarrow> event_type \<Rightarrow> json \<Rightarrow> unit wop" where
  "publishCaseResponse ctx ackId ty p =
     publishPrivately ctx (\<lambda>w. let (eid, w1) = freshId w; (t, w2) = now w1
       in (\<lparr>ev_eventId = eid, ev_sessionId = None, ev_workerId = None, ev_ackId = ackId, ev_turnSeq = None, ev_sequence = 0,
            ev_type = ty, ev_timestamp = t, ev_actor = CentralActor, ev_sessionLeaseId = None, ev_payload = JsonPayload p\<rparr>, w2))"

subsection \<open>One handler for each request\<close>

definition session_events_of :: "session \<Rightarrow> runtime_event \<Rightarrow> unit wop" where
  "session_events_of s e = publishTo (SessionEvents (ses_sessionId s)) e"

definition handleCreateRequested :: "client_config \<Rightarrow> request_context \<Rightarrow> runtime_event \<Rightarrow> bool wop" where
  "handleCreateRequested cfg ctx e =
     andThen (parsed e parseCreateSessionRequestedPayload) (\<lambda>p.
     andThen (startSession (cl_sessions cfg) ctx (ev_ackId e) p) (\<lambda>out.
     andThen (session_events_of (so_session out) (so_createdEvent out)) (\<lambda>_.
     andThen (publishPrivately ctx (Pair (toClientAckEvent (so_createdEvent out) SessionCreatedAck
                (status_ack (session_status_text (ses_status (so_session out))))))) (\<lambda>_.
     andThen (publishTo ClientInbox (so_catalogEvent out)) (\<lambda>_.
     andThen (publishCommand (so_workerCommand out)) (\<lambda>_ w.
       ok True (reconcileStartedSession (cl_sessions cfg) (so_needsReconcile out) w)))))))"

definition handleInputReceived :: "request_context \<Rightarrow> runtime_event \<Rightarrow> bool wop" where
  "handleInputReceived ctx e =
     andThen (parseSessionCommandSessionId e) (\<lambda>sid.
     andThen (parsed e parseSessionInputPayload) (\<lambda>p.
     andThen (acceptInput ctx sid (ev_ackId e) p) (\<lambda>out.
     andThen (session_events_of (io_session out) (io_inputAcceptedEvent out)) (\<lambda>_.
     andThen (publishPrivately ctx (Pair (toClientAckEvent (io_inputAcceptedEvent out) InputAcceptedAck (status_ack ''accepted'')))) (\<lambda>_.
     andThen (case io_turnFailedEvent out of None \<Rightarrow> ok () | Some f \<Rightarrow> session_events_of (io_session out) f) (\<lambda>_.
     andThen (publishCommand (io_workerCommand out)) (\<lambda>_. ok True)))))))"

definition handleListRequested :: "request_context \<Rightarrow> runtime_event \<Rightarrow> bool wop" where
  "handleListRequested ctx e w =
     (let (answer, w1) = listSessions ctx (ev_ackId e) w
      in andThen (publishPrivately ctx (Pair answer)) (\<lambda>_. ok True) w1)"

definition handleEventsRequested :: "request_context \<Rightarrow> runtime_event \<Rightarrow> bool wop" where
  "handleEventsRequested ctx e =
     andThen (parseSessionCommandSessionId e) (\<lambda>sid.
     andThen (parsed e parseSessionEventsRequestedPayload) (\<lambda>n.
     andThen (readSessionEvents ctx sid (ev_ackId e) n) (\<lambda>answer.
     andThen (publishPrivately ctx (Pair answer)) (\<lambda>_. ok True))))"

definition handleMintRequested :: "client_config \<Rightarrow> request_context \<Rightarrow> runtime_event \<Rightarrow> bool wop" where
  "handleMintRequested cfg ctx e =
     andThen (parsed e parseCaseId) (\<lambda>caseId w.
       (let (p, w1) = mintPairingPayload cfg ctx caseId w
        in andThen (publishCaseResponse ctx (ev_ackId e) CasePairingMinted p) (\<lambda>_. ok True) w1))"

definition handleDevicesRequested :: "client_config \<Rightarrow> (world \<Rightarrow> world) \<Rightarrow> request_context \<Rightarrow> runtime_event \<Rightarrow> bool wop" where
  "handleDevicesRequested cfg between ctx e =
     andThen (parsed e parseCaseId) (\<lambda>caseId w.
       (let (p, w1) = listCaseDevicesPayload cfg between ctx caseId w
        in andThen (publishCaseResponse ctx (ev_ackId e) CaseDevicesProvided p) (\<lambda>_. ok True) w1))"

definition status_projection :: "session \<Rightarrow> runtime_event \<Rightarrow> runtime_event" where
  "status_projection s e =
     toClientProjectionEvent e SessionStatusUpdated (StatusPayload (ses_sessionId s) (ses_status s) None)"

definition handlePauseRequested :: "client_config \<Rightarrow> request_context \<Rightarrow> runtime_event \<Rightarrow> bool wop" where
  "handlePauseRequested cfg ctx e =
     andThen (parseSessionCommandSessionId e) (\<lambda>sid.
     andThen (pauseSession (cl_sessions cfg) ctx sid (ev_ackId e)) (\<lambda>paused.
       (case paused of
          None \<Rightarrow> ok True
        | Some out \<Rightarrow>
            andThen (session_events_of (po_session out) (po_requestedEvent out)) (\<lambda>_.
            andThen (publishTo ClientInbox (status_projection (po_session out) (po_requestedEvent out))) (\<lambda>_.
            andThen (publishCommand (Some (po_workerCommand out))) (\<lambda>_. ok True))))))"

definition handleResumeRequested :: "client_config \<Rightarrow> request_context \<Rightarrow> runtime_event \<Rightarrow> bool wop" where
  "handleResumeRequested cfg ctx e =
     andThen (parseSessionCommandSessionId e) (\<lambda>sid.
     andThen (resumeSession (cl_sessions cfg) ctx sid (ev_ackId e)) (\<lambda>out.
     andThen (session_events_of (ro_session out) (ro_resumeRequestedEvent out)) (\<lambda>_.
     andThen (publishTo ClientInbox (status_projection (ro_session out) (ro_resumeRequestedEvent out))) (\<lambda>_. ok True))))"

text \<open>The acknowledgement of a response: resolved now, resolved before, or rejected with the error.\<close>

fun resolve_status_text :: "resolve_status \<Rightarrow> string" where
  "resolve_status_text NowResolved = ''resolved''"
| "resolve_status_text AlreadyResolved = ''already_resolved''"

definition respond_ack :: "(error \<Rightarrow> string) \<Rightarrow> string \<Rightarrow> error + resolve_status \<Rightarrow> json" where
  "respond_ack txt iid r =
     (case r of
        Inr st \<Rightarrow> JObj [(''interactionId'', JStr iid), (''status'', JStr (resolve_status_text st))]
      | Inl err \<Rightarrow> JObj [(''interactionId'', JStr iid), (''status'', JStr ''rejected''),
          (''error'', JObj [(''code'', JStr ''interaction_response_rejected''), (''message'', JStr (txt err))])])"

definition handleRespondRequested ::
  "client_config \<Rightarrow> tasks \<Rightarrow> (nat \<Rightarrow> tasks) \<Rightarrow> request_context \<Rightarrow> runtime_event \<Rightarrow> bool async" where
  "handleRespondRequested cfg env renv ctx e =
     awaiting (sync (parseSessionCommandSessionId e)) (\<lambda>sid.
     awaiting (sync (parsed e parseInteractionRespondPayload)) (\<lambda>req w.
       (case resolve (sc_tenantId (cl_sessions cfg)) env renv ctx sid req w of
          None \<Rightarrow> None
        | Some (r, w1) \<Rightarrow>
            sync (andThen (publishPrivately ctx (toRequestAckEvent e InteractionRespondedAck
                    (JsonPayload (respond_ack (cl_errorText cfg) (rq_interactionId req) r)))) (\<lambda>_. ok True)) w1)))"

definition handleClientEvent ::
  "client_config \<Rightarrow> (world \<Rightarrow> world) \<Rightarrow> tasks \<Rightarrow> (nat \<Rightarrow> tasks) \<Rightarrow> request_context \<Rightarrow> runtime_event \<Rightarrow> bool async" where
  "handleClientEvent cfg between env renv ctx e =
     (case ev_type e of
        SessionCreateRequested \<Rightarrow> sync (handleCreateRequested cfg ctx e)
      | InputReceived \<Rightarrow> sync (handleInputReceived ctx e)
      | SessionListRequested \<Rightarrow> sync (handleListRequested ctx e)
      | SessionEventsRequested \<Rightarrow> sync (handleEventsRequested ctx e)
      | CasePairingMintRequested \<Rightarrow> sync (handleMintRequested cfg ctx e)
      | CaseDevicesRequested \<Rightarrow> sync (handleDevicesRequested cfg between ctx e)
      | SessionPauseRequested \<Rightarrow> sync (handlePauseRequested cfg ctx e)
      | SessionResumeRequested \<Rightarrow> sync (handleResumeRequested cfg ctx e)
      | InteractionRespondRequested \<Rightarrow> handleRespondRequested cfg env renv ctx e
      | _ \<Rightarrow> (\<lambda>w. Some (Inr False, w)))"

end
