(* ===== verification/DelegationEvents.thy ===== *)
theory DelegationEvents
  imports DelegationTargets Dispatch Fanout WorkerEvents
begin

text \<open>
  \<^verbatim>\<open>controllers/delegation-runtime-event-controller.ts\<close>: a delegate tool request of a parent becomes a call of
  its delegation, or a fan-out of calls to several devices; the events of a child session move its delegation on,
  and the result goes back to the parent's tool request.

  Other tasks run at the compare-and-sets of the operations called here. One list of tasks serves every such
  place: a task sees the world with the number of clock readings, so it may act differently at each of them. The
  state is the world with the dispatcher's failed queues (\<open>tails\<close>).
\<close>

record delegation_event_config =
  de_delegations :: delegation_config
  de_fanout :: fanout_config
  de_sessions :: session_config
  de_errorText :: "error \<Rightarrow> string"

type_synonym 'a ctl = "(tails \<times> world, error, 'a) aop"

definition onWorld :: "'a async \<Rightarrow> 'a ctl" where
  "onWorld m s = map_option (\<lambda>(r, w1). (r, (fst s, w1))) (m (snd s))"

definition nothing :: "unit ctl" where
  "nothing s = Some (Inr (), s)"

text \<open>\<^verbatim>\<open>try { ... } catch (error) { ... }\<close>\<close>

definition rescued :: "('w, 'e, 'a) aop \<Rightarrow> ('e \<Rightarrow> ('w, 'e, 'a) aop) \<Rightarrow> ('w, 'e, 'a) aop" where
  "rescued m h s = (case m s of None \<Rightarrow> None | Some (Inl e, s1) \<Rightarrow> h e s1 | Some (Inr x, s1) \<Rightarrow> Some (Inr x, s1))"

fun each :: "('a \<Rightarrow> unit ctl) \<Rightarrow> 'a list \<Rightarrow> unit ctl" where
  "each f [] s = Some (Inr (), s)"
| "each f (x # xs) s = awaiting (f x) (\<lambda>_. each f xs) s"

subsection \<open>Messages\<close>

definition publishOn :: "channel \<Rightarrow> runtime_event \<Rightarrow> unit ctl" where
  "publishOn ch e s = Some (Inr (), (fst s, publish ch e (snd s)))"

definition publishWorkerCommand :: "worker_command \<Rightarrow> unit ctl" where
  "publishWorkerCommand c = publishOn (WorkerCommands (wc_workerId c)) (wc_event c)"

definition tool_response :: "session \<Rightarrow> string \<Rightarrow> string \<Rightarrow> string \<Rightarrow> time \<Rightarrow> runtime_event" where
  "tool_response s requestId res eid t =
     \<lparr>ev_eventId = eid, ev_sessionId = Some (ses_sessionId s), ev_workerId = ses_currentWorkerId s, ev_ackId = None,
      ev_turnSeq = None, ev_sequence = ses_eventCursor s, ev_type = SessionRuntimeToolResponse, ev_timestamp = t,
      ev_actor = CentralActor, ev_sessionLeaseId = ses_sessionLeaseId s,
      ev_payload = JsonPayload (JObj [(''sessionId'', JStr (ses_sessionId s)), (''workerId'', JStr (the (ses_currentWorkerId s))),
        (''sessionLeaseId'', JStr (the (ses_sessionLeaseId s))), (''requestId'', JStr requestId), (''result'', JStr res)])\<rparr>"

definition leased :: "session \<Rightarrow> bool" where
  "leased s = (truthy (ses_currentWorkerId s) \<and> truthy (ses_sessionLeaseId s))"

definition publishToolResponse :: "session \<Rightarrow> string \<Rightarrow> string \<Rightarrow> unit ctl" where
  "publishToolResponse s requestId res st =
     (if \<not> leased s then Some (Inl (NoWorkerLease (ses_sessionId s)), st)
      else
        (let (eid, w1) = freshId (snd st); (t, w2) = now w1
         in Some (Inr (), (fst st, publish (WorkerCommands (the (ses_currentWorkerId s))) (tool_response s requestId res eid t) w2))))"

definition rejection :: "(error \<Rightarrow> string) \<Rightarrow> error \<Rightarrow> string" where
  "rejection txt e = ''Subagent failed [delegation_rejected]: '' @ txt e"

subsection \<open>Parsing\<close>

definition record_of :: "json option \<Rightarrow> error + json" where
  "record_of v = (if isRecord v then Inr (the v) else Inl (Raised ''delegation payload must be an object''))"

text \<open>Every value of the model's JSON type is one of \<^verbatim>\<open>isJsonValue\<close>; an absent input is none.\<close>

definition parseRuntimeToolRequest :: "json option \<Rightarrow> error + string \<times> string \<times> json" where
  "parseRuntimeToolRequest b =
     (case record_of b of
        Inl e \<Rightarrow> Inl e
      | Inr p \<Rightarrow>
          (case (jstring (jfield ''requestId'' p), jstring (jfield ''toolName'' p), jfield ''input'' p) of
             (Some r, Some n, Some i) \<Rightarrow> Inr (r, n, i)
           | _ \<Rightarrow> Inl (InvalidEvent RuntimeToolRequested)))"

definition completedMessage :: "json option \<Rightarrow> error + string" where
  "completedMessage b =
     (case record_of b of
        Inl e \<Rightarrow> Inl e
      | Inr p \<Rightarrow>
          (let m = jstring (Option.bind (jfield ''result'' p) (jfield ''message''))
           in if truthy m then Inr (the m) else Inl (Raised ''delegated Child turn completed without a message'')))"

definition failureMessage :: "json option \<Rightarrow> string" where
  "failureMessage b =
     orElse (jstring (Option.bind (Option.bind b (jfield ''error'')) (jfield ''message''))) ''delegated Child turn failed''"

fun call_status_text :: "call_status \<Rightarrow> string" where
  "call_status_text CQueued = ''queued''"
| "call_status_text CActive = ''active''"
| "call_status_text CCancelRequested = ''cancel_requested''"
| "call_status_text CCompleted = ''completed''"
| "call_status_text CFailed = ''failed''"
| "call_status_text CCancelled = ''cancelled''"
| "call_status_text CExpired = ''expired''"

definition failure_code :: "delegation_call \<Rightarrow> string" where
  "failure_code c = orElse (map_option fl_code (dc_failure c)) (call_status_text (dc_status c))"

definition failure_text :: "delegation_call \<Rightarrow> string" where
  "failure_text c = orElse (map_option fl_message (dc_failure c)) (''DelegationCall '' @ call_status_text (dc_status c))"

definition await_result :: "delegation_call \<Rightarrow> string" where
  "await_result c =
     (if dc_status c = CCompleted then orElse (dc_result c) []
      else ''Subagent failed ['' @ failure_code c @ '']: '' @ failure_text c)"

definition member_outcome_of :: "delegation_call \<Rightarrow> member_outcome" where
  "member_outcome_of c =
     (if dc_status c = CCompleted then OutCompleted (orElse (dc_result c) []) else OutFailed (failure_code c) (failure_text c))"

subsection \<open>Dispatching the next call\<close>

definition dispatching :: "tasks \<Rightarrow> string \<Rightarrow> dispatch_result option ctl" where
  "dispatching env did s = map_option (\<lambda>(r, b, w1). (r, (b, w1))) (dispatchNext env did (fst s) (snd s))"

definition publishDispatch :: "session_config \<Rightarrow> dispatch_result \<Rightarrow> unit ctl" where
  "publishDispatch cfg d =
     (let p = dr_prepared d; child = dg_childSessionId (dr_delegation d) in
      awaiting (case pc_sessionCreatedEvent p of None \<Rightarrow> nothing | Some e \<Rightarrow> publishOn (SessionEvents child) e) (\<lambda>_.
      awaiting (case pc_sessionCatalogUpdatedEvent p of None \<Rightarrow> nothing | Some e \<Rightarrow> publishOn ClientInbox e) (\<lambda>_.
      awaiting (each publishWorkerCommand (pc_workerCommands p)) (\<lambda>_ s.
        Some (Inr (), if pc_sessionCreatedEvent p = None then s
                      else (fst s, reconcileStartedSession cfg (pc_needsReconcile p) (snd s)))))))"

definition has_queued :: "delegation \<Rightarrow> bool" where
  "has_queued d = list_ex (\<lambda>c. dc_status c = CQueued) (dg_calls d)"

definition resumeChild :: "session_config \<Rightarrow> session \<Rightarrow> unit ctl" where
  "resumeChild cfg child =
     awaiting (onWorld (sync (resumeDelegatedSession cfg (ses_sessionId child)))) (\<lambda>resumed.
       case resumed of None \<Rightarrow> nothing | Some r \<Rightarrow> publishOn (SessionEvents (ses_sessionId child)) (ro_resumeRequestedEvent r))"

definition can_take_input :: "session option \<Rightarrow> bool" where
  "can_take_input s = (map_option ses_status s = Some Created \<or> map_option ses_status s = Some Running)"

definition progressRelation :: "session_config \<Rightarrow> tasks \<Rightarrow> string \<Rightarrow> unit ctl" where
  "progressRelation cfg env did s =
     (case readDelegation did (snd s) of
        None \<Rightarrow> nothing s
      | Some d \<Rightarrow>
          if dg_status d \<noteq> Open then nothing s
          else
            (case readSession (dg_childSessionId d) (snd s) of
               None \<Rightarrow> nothing s
             | Some child \<Rightarrow>
                 awaiting (if has_queued d \<and> ses_status child = Paused then resumeChild cfg child else nothing) (\<lambda>_ s1.
                   if has_queued d \<and> \<not> can_take_input (readSession (dg_childSessionId d) (snd s1)) then nothing s1
                   else awaiting (dispatching env did) (\<lambda>r.
                          case r of None \<Rightarrow> nothing | Some x \<Rightarrow> publishDispatch cfg x) s1) s))"

subsection \<open>Answers to the parent\<close>

definition pending_requests :: "delegation_call \<Rightarrow> await_request list" where
  "pending_requests c = filter (\<lambda>a. aw_status a = AwPending) (orElse (dc_awaitRequests c) [])"

definition answerRequest :: "tasks \<Rightarrow> delegation_call \<Rightarrow> await_request \<Rightarrow> unit ctl" where
  "answerRequest env c a s =
     (case readSession (aw_parentSessionId a) (snd s) of
        None \<Rightarrow> nothing s
      | Some parent \<Rightarrow>
          if \<not> leased parent then nothing s
          else awaiting (publishToolResponse parent (aw_requestId a) (await_result c)) (\<lambda>_.
                 onWorld (markAwaitResponded env (dc_delegationCallId c) (aw_requestId a))) s)"

definition deliverAwaitResponses :: "tasks \<Rightarrow> string \<Rightarrow> unit ctl" where
  "deliverAwaitResponses env callId s =
     (case readCall callId (snd s) of
        None \<Rightarrow> nothing s
      | Some (d, c) \<Rightarrow>
          if \<not> terminal_call (dc_status c) then nothing s
          else each (answerRequest env c) (pending_requests c) s)"

definition deliverFanoutResult :: "fanout_config \<Rightarrow> tasks \<Rightarrow> string \<Rightarrow> unit ctl" where
  "deliverFanoutResult cfg env gid s =
     (case readFanoutGroup gid (snd s) of
        None \<Rightarrow> nothing s
      | Some g \<Rightarrow>
          if fg_status g \<noteq> GSettled \<or> fg_deliveryStatus g = GDelivered \<or> fg_aggregate g = None then nothing s
          else
            (case readSession (fg_parentSessionId g) (snd s) of
               None \<Rightarrow> nothing s
             | Some parent \<Rightarrow>
                 if terminal_status (ses_status parent)
                 then awaiting (onWorld (markDelivered cfg env gid)) (\<lambda>_. nothing) s
                 else if \<not> leased parent then nothing s
                 else awaiting (publishToolResponse parent (fg_parentRequestId g) (the (fg_aggregate g))) (\<lambda>_.
                        awaiting (onWorld (markDelivered cfg env gid)) (\<lambda>_. nothing)) s))"

definition settleFanoutMember :: "fanout_config \<Rightarrow> tasks \<Rightarrow> string \<Rightarrow> member_outcome \<Rightarrow> unit ctl" where
  "settleFanoutMember cfg env callId out =
     awaiting (onWorld (recordOutcome cfg env callId out)) (\<lambda>settled.
       case settled of None \<Rightarrow> nothing | Some r \<Rightarrow> deliverFanoutResult cfg env (fg_groupId (or_group r)))"

definition deliverFanoutMember :: "fanout_config \<Rightarrow> tasks \<Rightarrow> string \<Rightarrow> unit ctl" where
  "deliverFanoutMember cfg env callId s =
     (case readCall callId (snd s) of
        None \<Rightarrow> nothing s
      | Some (d, c) \<Rightarrow>
          if \<not> terminal_call (dc_status c) then nothing s
          else settleFanoutMember cfg env callId (member_outcome_of c) s)"

subsection \<open>Fan-out\<close>

definition member_input :: "fanout_group \<Rightarrow> session \<Rightarrow> string \<Rightarrow> start_input" where
  "member_input g parent ref =
     \<lparr>si_parentSession = parent, si_callerTurnSeq = fg_parentTurnSeq g,
      si_callerToolRequestId = fg_parentRequestId g @ ''#'' @ ref, si_delegateId = fg_delegateId g,
      si_input = fg_input g, si_targetRef = Some ref\<rparr>"

definition startMember :: "delegation_event_config \<Rightarrow> tasks \<Rightarrow> fanout_group \<Rightarrow> session \<Rightarrow> fanout_member \<Rightarrow> unit ctl" where
  "startMember cfg env g parent m =
     rescued
       (awaiting (onWorld (startCall (de_delegations cfg) (disturb env) env env (member_input g parent (fm_deviceRef m)))) (\<lambda>(d, c).
        awaiting (onWorld (attachMemberCall (de_fanout cfg) env (fg_groupId g) (fm_deviceRef m) (dc_delegationCallId c))) (\<lambda>_.
          progressRelation (de_sessions cfg) env (dg_delegationId d))))
       (\<lambda>e. awaiting (onWorld (recordStartupFailure (de_fanout cfg) env (fg_groupId g) (fm_deviceRef m)
                ''delegation_rejected'' (de_errorText cfg e))) (\<lambda>_. nothing))"

definition deliverPending :: "delegation_event_config \<Rightarrow> tasks \<Rightarrow> fanout_member \<Rightarrow> unit ctl" where
  "deliverPending cfg env m =
     (if fm_status m = MPending \<and> truthy (fm_delegationCallId m)
      then deliverFanoutMember (de_fanout cfg) env (the (fm_delegationCallId m)) else nothing)"

definition progressFanoutGroup :: "delegation_event_config \<Rightarrow> tasks \<Rightarrow> string \<Rightarrow> unit ctl" where
  "progressFanoutGroup cfg env gid s =
     (case readFanoutGroup gid (snd s) of
        None \<Rightarrow> nothing s
      | Some g \<Rightarrow>
          if fg_status g \<noteq> GOpen then deliverFanoutResult (de_fanout cfg) env gid s
          else
            (case readSession (fg_parentSessionId g) (snd s) of
               None \<Rightarrow> nothing s
             | Some parent \<Rightarrow>
                 awaiting (each (startMember cfg env g parent) (filter (\<lambda>m. fm_status m = MStarting) (fg_members g))) (\<lambda>_ s1.
                   awaiting (each (deliverPending cfg env) (fg_members (orElse (readFanoutGroup gid (snd s1)) g))) (\<lambda>_.
                     deliverFanoutResult (de_fanout cfg) env gid) s1) s))"

definition fanout_input :: "session \<Rightarrow> int \<Rightarrow> string \<Rightarrow> string \<Rightarrow> string \<Rightarrow> string list \<Rightarrow> open_group_input" where
  "fanout_input parent turnSeq requestId delegateId message refs =
     \<lparr>og_parentSessionId = ses_sessionId parent, og_parentTurnSeq = turnSeq, og_parentRequestId = requestId,
      og_caseId = ses_sessionId parent, og_delegateId = delegateId, og_input = message, og_deviceRefs = refs\<rparr>"

definition handleFanoutTool ::
  "delegation_event_config \<Rightarrow> tasks \<Rightarrow> session \<Rightarrow> int \<Rightarrow> string \<Rightarrow> string \<Rightarrow> string \<Rightarrow> bool option \<Rightarrow> string list option \<Rightarrow> unit ctl" where
  "handleFanoutTool cfg env parent turnSeq requestId delegateId message everyone refs s =
     (case readGroupByRequest (ses_sessionId parent) requestId (snd s) of
        Some existing \<Rightarrow> progressFanoutGroup cfg env (fg_groupId existing) s
      | None \<Rightarrow>
          (case resolveFanoutDeviceRefs (ses_sessionId parent) everyone refs (snd s) of
             Inl e \<Rightarrow> publishToolResponse parent requestId (rejection (de_errorText cfg) e) s
           | Inr deviceRefs \<Rightarrow>
               if deviceRefs = []
               then publishToolResponse parent requestId
                      ''Subagent failed [delegation_rejected]: no devices are paired to this case to scan'' s
               else
                 (let ((g, _), w1) = openGroup (de_fanout cfg) (fanout_input parent turnSeq requestId delegateId message deviceRefs) (snd s)
                  in progressFanoutGroup cfg env (fg_groupId g) (fst s, w1))))"

subsection \<open>The tool request of a parent\<close>

definition requireLeasedSession :: "runtime_event \<Rightarrow> session wop" where
  "requireLeasedSession e w =
     (if \<not> truthy (ev_sessionId e) \<or> \<not> truthy (ev_sessionLeaseId e) then throw (InvalidEvent (ev_type e)) w
      else
        (case readSession (the (ev_sessionId e)) w of
           None \<Rightarrow> throw (SessionNotFound (the (ev_sessionId e))) w
         | Some s \<Rightarrow> andThen (assertCurrentLease s (the (ev_sessionLeaseId e))) (\<lambda>_. ok s) w))"

definition call_input :: "session \<Rightarrow> int \<Rightarrow> string \<Rightarrow> string \<Rightarrow> string \<Rightarrow> string option \<Rightarrow> start_input" where
  "call_input parent turnSeq requestId delegateId message ref =
     \<lparr>si_parentSession = parent, si_callerTurnSeq = turnSeq, si_callerToolRequestId = requestId,
      si_delegateId = delegateId, si_input = message, si_targetRef = ref\<rparr>"

text \<open>A call to one target: a rejection goes back to the parent as the tool's answer.\<close>

definition handleCallTool ::
  "delegation_event_config \<Rightarrow> tasks \<Rightarrow> session \<Rightarrow> int \<Rightarrow> string \<Rightarrow> string \<Rightarrow> string \<Rightarrow> string option \<Rightarrow> unit ctl" where
  "handleCallTool cfg env parent turnSeq requestId delegateId message ref s =
     (case onWorld (startCall (de_delegations cfg) (disturb env) env env (call_input parent turnSeq requestId delegateId message ref)) s of
        None \<Rightarrow> None
      | Some (Inl e, s1) \<Rightarrow> publishToolResponse parent requestId (rejection (de_errorText cfg) e) s1
      | Some (Inr (d, c), s1) \<Rightarrow>
          awaiting (onWorld (registerAwait env (ses_sessionId parent) turnSeq requestId (dc_delegationCallId c))) (\<lambda>_.
          awaiting (progressRelation (de_sessions cfg) env (dg_delegationId d)) (\<lambda>_.
            deliverAwaitResponses env (dc_delegationCallId c))) s1)"

definition target_ref :: "target_spec \<Rightarrow> string option" where
  "target_ref t = (case t of DeviceTarget r \<Rightarrow> (if truthy (Some r) then Some r else None) | _ \<Rightarrow> None)"

definition handleRuntimeTool :: "delegation_event_config \<Rightarrow> tasks \<Rightarrow> runtime_event \<Rightarrow> string \<times> string \<times> json \<Rightarrow> unit ctl" where
  "handleRuntimeTool cfg env e request =
     awaiting (onWorld (sync (requireLeasedSession e))) (\<lambda>parent.
       (case find (\<lambda>t. td_name t = fst (snd request)) (ra_runtimeTools (ses_resolvedAgentSpec parent)) of
          None \<Rightarrow> (\<lambda>s. Some (Inl (UnknownTool (fst (snd request)) (ses_sessionId parent)), s))
        | Some tool \<Rightarrow>
            (case record_of (Some (snd (snd request))) of
               Inl err \<Rightarrow> (\<lambda>s. Some (Inl err, s))
             | Inr input \<Rightarrow>
                 if \<not> truthy (jstring (jfield ''message'' input)) then (\<lambda>s. Some (Inl (EmptyMessage (fst (snd request))), s))
                 else
                   (case ev_turnSeq e of
                      None \<Rightarrow> (\<lambda>s. Some (Inl (InvalidEvent (ev_type e)), s))
                    | Some turnSeq \<Rightarrow> (\<lambda>s.
                        (let message = the (jstring (jfield ''message'' input)) in
                         case resolveEnforcedTargetSpec (ses_sessionId parent) turnSeq (jfield ''target'' input) (snd s) of
                           Inl err \<Rightarrow> publishToolResponse parent (fst request) (rejection (de_errorText cfg) err) s
                         | Inr (FanoutTarget everyone refs) \<Rightarrow>
                             handleFanoutTool cfg env parent turnSeq (fst request) (td_delegateId tool) message everyone refs s
                         | Inr t \<Rightarrow>
                             handleCallTool cfg env parent turnSeq (fst request) (td_delegateId tool) message (target_ref t) s))))))"

definition handleDelegationEvent :: "delegation_event_config \<Rightarrow> tasks \<Rightarrow> runtime_event \<Rightarrow> bool ctl" where
  "handleDelegationEvent cfg env e s =
     (if ev_type e \<noteq> RuntimeToolRequested then Some (Inr False, s)
      else
        (case parseRuntimeToolRequest (jsonBody (ev_payload e)) of
           Inl err \<Rightarrow> Some (Inl err, s)
         | Inr request \<Rightarrow> awaiting (handleRuntimeTool cfg env e request) (\<lambda>_ s1. Some (Inr True, s1)) s))"

subsection \<open>The events of a child session\<close>

definition active_dispatch :: "delegation option \<Rightarrow> call_dispatch option" where
  "active_dispatch d =
     (case d of
        None \<Rightarrow> None
      | Some d \<Rightarrow> Option.bind (find (\<lambda>c. Some (dc_delegationCallId c) = dg_activeCallId d) (dg_calls d)) dc_dispatch)"

definition call_of_turn :: "delegation option \<Rightarrow> int \<Rightarrow> delegation_call option" where
  "call_of_turn d turnSeq =
     (case d of
        None \<Rightarrow> None
      | Some d \<Rightarrow> find (\<lambda>c. map_option dp_childTurnSeq (dc_dispatch c) = Some turnSeq) (dg_calls d))"

definition settled_call :: "delegation_call \<Rightarrow> bool" where
  "settled_call c = (dc_status c = CCompleted \<or> dc_status c = CFailed)"

text \<open>The command id and the turn of an accepted command, as the agent controller checked them.\<close>

definition observeCommandAccepted :: "tasks \<Rightarrow> session \<Rightarrow> string \<Rightarrow> runtime_event \<Rightarrow> unit ctl" where
  "observeCommandAccepted env child did e s =
     (let b = orElse (jsonBody (ev_payload e)) JNull;
          cmd = jstring (jfield ''commandEventId'' b)
      in case active_dispatch (readDelegation did (snd s)) of
           None \<Rightarrow> nothing s
         | Some dp \<Rightarrow>
             if Some (dp_commandEventId dp) = cmd
             then onWorld (acknowledgeCommand env (ses_sessionId child) (dp_commandEventId dp)
                             (orElse (jnumber (jfield ''turnSeq'' b)) 0)) s
             else nothing s)"

text \<open>The call that a completed turn settles: a result that is not acceptable fails it.\<close>

definition settleTurn :: "delegation_event_config \<Rightarrow> tasks \<Rightarrow> session \<Rightarrow> string \<Rightarrow> int \<Rightarrow> json option \<Rightarrow> string option ctl" where
  "settleTurn cfg env child did turnSeq body =
     rescued
       (case completedMessage body of
          Inl e \<Rightarrow> (\<lambda>s. Some (Inl e, s))
        | Inr m \<Rightarrow>
            awaiting (onWorld (completeTurn (de_delegations cfg) env (ses_sessionId child) turnSeq m)) (\<lambda>c s.
              Some (Inr (Some (dc_delegationCallId c)), s)))
       (\<lambda>e. awaiting (onWorld (failTurn env (ses_sessionId child) turnSeq (de_errorText cfg e))) (\<lambda>_ s.
              Some (Inr (map_option dc_delegationCallId (call_of_turn (readDelegation did (snd s)) turnSeq)), s)))"

definition deliverCall :: "delegation_event_config \<Rightarrow> tasks \<Rightarrow> string \<Rightarrow> unit ctl" where
  "deliverCall cfg env callId =
     awaiting (deliverAwaitResponses env callId) (\<lambda>_. deliverFanoutMember (de_fanout cfg) env callId)"

definition observeTurnCompleted :: "delegation_event_config \<Rightarrow> tasks \<Rightarrow> session \<Rightarrow> string \<Rightarrow> int \<Rightarrow> runtime_event \<Rightarrow> unit ctl" where
  "observeTurnCompleted cfg env child did turnSeq e s =
     awaiting (case call_of_turn (readDelegation did (snd s)) turnSeq of
                 Some c \<Rightarrow>
                   (if settled_call c then (\<lambda>s1. Some (Inr (Some (dc_delegationCallId c)), s1))
                    else settleTurn cfg env child did turnSeq (jsonBody (ev_payload e)))
               | None \<Rightarrow> settleTurn cfg env child did turnSeq (jsonBody (ev_payload e)))
       (\<lambda>callId. if truthy callId
                 then awaiting (progressRelation (de_sessions cfg) env did) (\<lambda>_. deliverCall cfg env (the callId))
                 else nothing) s"

definition observeTurnFailed :: "delegation_event_config \<Rightarrow> tasks \<Rightarrow> session \<Rightarrow> string \<Rightarrow> int \<Rightarrow> runtime_event \<Rightarrow> unit ctl" where
  "observeTurnFailed cfg env child did turnSeq e s =
     (let call = call_of_turn (readDelegation did (snd s)) turnSeq
      in awaiting (if (case call of None \<Rightarrow> True | Some c \<Rightarrow> \<not> settled_call c)
                   then onWorld (failTurn env (ses_sessionId child) turnSeq (failureMessage (jsonBody (ev_payload e)))) else nothing)
           (\<lambda>_. case call of None \<Rightarrow> nothing | Some c \<Rightarrow> deliverCall cfg env (dc_delegationCallId c)) s)"

definition observeAgentEvent :: "delegation_event_config \<Rightarrow> tasks \<Rightarrow> runtime_event \<Rightarrow> unit ctl" where
  "observeAgentEvent cfg env e s =
     (case (if truthy (ev_sessionId e) then readSession (the (ev_sessionId e)) (snd s) else None) of
        None \<Rightarrow> nothing s
      | Some child \<Rightarrow>
          (case ses_delegationBinding child of
             None \<Rightarrow> nothing s
           | Some b \<Rightarrow>
               (let did = db_delegationId b in
                if ev_type e = StatusChanged \<or> ev_type e = SessionPaused then progressRelation (de_sessions cfg) env did s
                else if ev_type e = WorkerCommandAccepted then observeCommandAccepted env child did e s
                else
                  (case ev_turnSeq e of
                     None \<Rightarrow> nothing s
                   | Some turnSeq \<Rightarrow>
                       if ev_type e = TurnCompleted then observeTurnCompleted cfg env child did turnSeq e s
                       else if ev_type e = TurnFailed then observeTurnFailed cfg env child did turnSeq e s
                       else nothing s))))"

subsection \<open>Reconciliation\<close>

definition pauseChildForTerminalParent :: "session_config \<Rightarrow> string \<Rightarrow> unit ctl" where
  "pauseChildForTerminalParent cfg child s =
     (if map_option ses_status (readSession child (snd s)) \<noteq> Some Running then nothing s
      else awaiting (onWorld (sync (pauseDelegatedSession cfg child))) (\<lambda>paused.
             case paused of
               None \<Rightarrow> nothing
             | Some p \<Rightarrow> awaiting (publishOn (SessionEvents child) (po_requestedEvent p)) (\<lambda>_.
                 publishWorkerCommand (po_workerCommand p))) s)"

definition lost_message :: "string \<Rightarrow> session \<Rightarrow> string" where
  "lost_message child s =
     ''Child Session '' @ child @ '' was lost before the scan completed (''
       @ orElse (ses_lifecycleReason s) (session_status_text (ses_status s)) @ '')''"

definition failLostChild :: "tasks \<Rightarrow> delegation \<Rightarrow> unit ctl" where
  "failLostChild env d s =
     (case readSession (dg_childSessionId d) (snd s) of
        Some child \<Rightarrow>
          if live d \<and> terminal_status (ses_status child)
          then awaiting (onWorld (failForChildLost env (dg_childSessionId d) (lost_message (dg_childSessionId d) child))) (\<lambda>_. nothing) s
          else nothing s
      | None \<Rightarrow> nothing s)"

definition has_pending_request :: "delegation_call \<Rightarrow> bool" where
  "has_pending_request c = list_ex (\<lambda>a. aw_status a = AwPending) (orElse (dc_awaitRequests c) [])"

definition reconcileDelegation :: "delegation_event_config \<Rightarrow> tasks \<Rightarrow> delegation \<Rightarrow> unit ctl" where
  "reconcileDelegation cfg env d s =
     (if (case readSession (dg_parentSessionId d) (snd s) of None \<Rightarrow> False | Some p \<Rightarrow> terminal_status (ses_status p))
      then awaiting (onWorld (failForParentTerminal env (dg_delegationId d))) (\<lambda>_.
             pauseChildForTerminalParent (de_sessions cfg) (dg_childSessionId d)) s
      else awaiting (failLostChild env d) (\<lambda>_.
           awaiting (if dg_status d = Open then progressRelation (de_sessions cfg) env (dg_delegationId d) else nothing) (\<lambda>_.
             each (\<lambda>c. deliverAwaitResponses env (dc_delegationCallId c)) (filter has_pending_request (dg_calls d)))) s)"

definition reconcilePendingAwaitResponses :: "delegation_event_config \<Rightarrow> tasks \<Rightarrow> unit ctl" where
  "reconcilePendingAwaitResponses cfg env s =
     awaiting (each (reconcileDelegation cfg env) (readDelegations (snd s))) (\<lambda>_ s1.
       each (\<lambda>g. progressFanoutGroup cfg env (fg_groupId g)) (readFanoutGroups (snd s1)) s1) s"

end
