(* ===== verification/TenantInbox.thy ===== *)
theory TenantInbox
  imports ClientEvents DelegationEvents Reconciler
begin

text \<open>
  \<^verbatim>\<open>controllers/tenant-inbox-controller.ts\<close> and \<^verbatim>\<open>tenant-runtime.ts\<close>: every event of a tenant's
  inbox is offered to the controllers of workers, delegations, agents and clients in turn, and the runtime builds
  them over one storage, one lifecycle hook and one reconciler. The issuer of connections, the host adapters and
  the credentials are parameters.
\<close>

record tenant_config =
  tn_tenantId :: string
  tn_specs :: "(string, agent_spec) table"
  tn_tools :: "agent_spec \<Rightarrow> tool_definition list"
  tn_specDigest :: "agent_spec \<Rightarrow> tool_definition list \<Rightarrow> string"
  tn_delegation :: "delegation_config option"
  tn_pools :: "worker_pool list"
  tn_adapters :: "string \<Rightarrow> host_adapter option"
  tn_epoch :: string
  tn_credentials :: credential_provider
  tn_sha :: "string \<Rightarrow> string"
  tn_reparse :: "string \<Rightarrow> string option"
  tn_localeCompare :: "string \<Rightarrow> string \<Rightarrow> int"
  tn_errorText :: "error \<Rightarrow> string"

subsection \<open>What the constructor builds\<close>

definition keepalive_ttl :: int where "keepalive_ttl = 30000"

definition default_invite_ttl :: int where "default_invite_ttl = 10 * 60000"

definition tenant_pairing :: "tenant_config \<Rightarrow> pairing_config" where
  "tenant_pairing cfg =
     \<lparr>pc_tenantId = tn_tenantId cfg, pc_inviteTtlMs = default_invite_ttl, pc_credentials = tn_credentials cfg, pc_sha = tn_sha cfg\<rparr>"

text \<open>The terminal edge of a session revokes its case at once; a failure is only logged.\<close>

definition tenant_hook :: "tenant_config \<Rightarrow> terminal_hook" where
  "tenant_hook cfg = Some (\<lambda>s. catching (ignoring (revokeCase (tenant_pairing cfg) (ses_sessionId s))) (\<lambda>_. ok ()))"

definition tenant_reconciler :: "tenant_config \<Rightarrow> reconciler_config" where
  "tenant_reconciler cfg =
     \<lparr>lc_pools = (if tn_pools cfg = [] then None
                  else Some \<lparr>pm_pools = tn_pools cfg, pm_adapters = tn_adapters cfg, pm_epoch = tn_epoch cfg,
                             pm_errorText = tn_errorText cfg\<rparr>),
      lc_hook = tenant_hook cfg\<rparr>"

definition tenant_reconcile :: "tenant_config \<Rightarrow> unit wop" where
  "tenant_reconcile cfg = lifecycleReconcile (tenant_reconciler cfg)"

definition tenant_sessions :: "tenant_config \<Rightarrow> session_config" where
  "tenant_sessions cfg =
     \<lparr>sc_tenantId = tn_tenantId cfg, sc_specs = tn_specs cfg, sc_tools = tn_tools cfg, sc_specDigest = tn_specDigest cfg,
      sc_hook = tenant_hook cfg, sc_reconcile = tenant_reconcile cfg\<rparr>"

definition tenant_workers :: "tenant_config \<Rightarrow> worker_event_config" where
  "tenant_workers cfg = \<lparr>we_leaseTtl = keepalive_ttl, we_reconcile = tenant_reconcile cfg\<rparr>"

definition tenant_reports :: "tenant_config \<Rightarrow> report_config" where
  "tenant_reports cfg = \<lparr>rc_tenantId = tn_tenantId cfg, rc_hook = tenant_hook cfg, rc_reconcile = tenant_reconcile cfg\<rparr>"

definition tenant_delegations :: "tenant_config \<Rightarrow> delegation_event_config option" where
  "tenant_delegations cfg =
     map_option (\<lambda>d. \<lparr>de_delegations = d, de_fanout = \<lparr>fc_tenantId = tn_tenantId cfg, fc_reparse = tn_reparse cfg\<rparr>,
                      de_sessions = tenant_sessions cfg, de_errorText = tn_errorText cfg\<rparr>) (tn_delegation cfg)"

definition tenant_clients :: "tenant_config \<Rightarrow> client_config" where
  "tenant_clients cfg =
     \<lparr>cl_sessions = tenant_sessions cfg, cl_pairing = tenant_pairing cfg, cl_localeCompare = tn_localeCompare cfg,
      cl_errorText = tn_errorText cfg\<rparr>"

subsection \<open>TenantInboxController\<close>

text \<open>
  What other tasks do meanwhile: at the loops of the delegation controller (\<open>ib_calls\<close>), at the updates of
  interactions and the reconciliations after them (\<open>ib_updates\<close>, \<open>ib_after\<close>), between the reads of a
  roster (\<open>ib_between\<close>), and at each interaction of a reconciliation (\<open>ib_interactions\<close>).
\<close>

record interference =
  ib_calls :: tasks
  ib_updates :: "nat \<Rightarrow> tasks"
  ib_after :: "nat \<Rightarrow> nat \<Rightarrow> tasks"
  ib_between :: "world \<Rightarrow> world"
  ib_interactions :: "nat \<Rightarrow> nat \<Rightarrow> tasks"

definition offered :: "bool ctl \<Rightarrow> unit ctl \<Rightarrow> unit ctl" where
  "offered m next = awaiting m (\<lambda>handled. if handled then nothing else next)"

definition delegationEvent :: "tenant_config \<Rightarrow> tasks \<Rightarrow> runtime_event \<Rightarrow> bool ctl" where
  "delegationEvent cfg env e =
     (case tenant_delegations cfg of None \<Rightarrow> (\<lambda>s. Some (Inr False, s)) | Some d \<Rightarrow> handleDelegationEvent d env e)"

definition observed :: "tenant_config \<Rightarrow> tasks \<Rightarrow> runtime_event \<Rightarrow> unit ctl" where
  "observed cfg env e = (case tenant_delegations cfg of None \<Rightarrow> nothing | Some d \<Rightarrow> observeAgentEvent d env e)"

definition agentEvent :: "tenant_config \<Rightarrow> interference \<Rightarrow> runtime_event \<Rightarrow> bool ctl" where
  "agentEvent cfg ib e =
     awaiting (onWorld (handleRuntimeEvent (tenant_reports cfg) (ib_updates ib) (ib_after ib) e)) (\<lambda>out.
       if ro_handled out
       then awaiting (observed cfg (ib_calls ib) e) (\<lambda>_.
            awaiting (onWorld (sync (acknowledgeWorkerResultIfNeeded e))) (\<lambda>_ s. Some (Inr True, s)))
       else (\<lambda>s. Some (Inr False, s)))"

definition clientEvent :: "tenant_config \<Rightarrow> interference \<Rightarrow> request_context \<Rightarrow> runtime_event \<Rightarrow> bool ctl" where
  "clientEvent cfg ib ctx e =
     onWorld (handleClientEvent (tenant_clients cfg) (ib_between ib) (ib_calls ib) (ib_updates ib) ctx e)"

text \<open>An event that is rejected is dropped, and the inbox goes on.\<close>

definition handleInboxEvent :: "tenant_config \<Rightarrow> interference \<Rightarrow> request_context \<Rightarrow> runtime_event \<Rightarrow> unit ctl" where
  "handleInboxEvent cfg ib ctx e =
     rescued
       (offered (onWorld (sync (handleWorkerEvent (tenant_workers cfg) ctx e)))
         (offered (delegationEvent cfg (ib_calls ib) e)
           (offered (agentEvent cfg ib e)
             (offered (clientEvent cfg ib ctx e) nothing))))
       (\<lambda>_. nothing)"

definition inboxReconcile :: "tenant_config \<Rightarrow> interference \<Rightarrow> unit ctl" where
  "inboxReconcile cfg ib =
     awaiting (onWorld (sync (tenant_reconcile cfg))) (\<lambda>_.
     awaiting (case tenant_delegations cfg of None \<Rightarrow> nothing | Some d \<Rightarrow> reconcilePendingAwaitResponses d (ib_calls ib)) (\<lambda>_.
       onWorld (reconcileInteractions (ib_interactions ib))))"

subsection \<open>TenantRuntime\<close>

definition tenantReconcileSessions :: "tenant_config \<Rightarrow> interference \<Rightarrow> unit ctl" where
  "tenantReconcileSessions cfg ib =
     awaiting (inboxReconcile cfg ib) (\<lambda>_. onWorld (sync (reconcileTerminalCases (tenant_pairing cfg))))"

text \<open>
  The label keys of a device are central's own: a value the client sent is dropped, and the keys are set again only
  from a binding whose credential was checked.
\<close>

definition strip_edge_labels :: "labels \<Rightarrow> labels" where
  "strip_edge_labels ls = filter (\<lambda>(k, v). k \<noteq> edge_case_label \<and> k \<noteq> edge_device_label) ls"

definition edge_input :: "edge_binding_payload \<Rightarrow> resolve_input" where
  "edge_input b = \<lparr>rs_caseId = eb_caseId b, rs_deviceId = eb_deviceId b, rs_deviceRef = eb_deviceRef b,
                   rs_bindingCredential = eb_bindingCredential b\<rparr>"

definition merge_labels :: "labels \<Rightarrow> labels \<Rightarrow> labels" where
  "merge_labels ls minted = fold (\<lambda>(k, v). tput k v) minted ls"

definition resolveWorkerLabels ::
  "tenant_config \<Rightarrow> (world \<Rightarrow> world) \<Rightarrow> worker_register_payload \<Rightarrow> labels wop" where
  "resolveWorkerLabels cfg between r =
     (case wr_edgeBinding r of
        None \<Rightarrow> ok (strip_edge_labels (wr_labels r))
      | Some b \<Rightarrow>
          andThen (resolveEdgeBinding (tenant_pairing cfg) between (edge_input b)) (\<lambda>resolved.
            ok (merge_labels (strip_edge_labels (wr_labels r)) (rb_mintedLabels resolved))))"

text \<open>
  \<^verbatim>\<open>{ tenantId: this.tenant.tenantId, ...registration, labels }\<close>: a \<^verbatim>\<open>tenantId\<close> that the body of
  the request carries beside the declared fields (\<open>override\<close>) comes after the runtime's own and wins.
\<close>

record grant =
  gr_url :: string
  gr_clientConnectionId :: "string option"
  gr_worker :: "worker option"

record issuer =
  is_client :: "string \<times> principal_type \<times> string option \<Rightarrow> channel list \<Rightarrow> string"
  is_sidecar :: "string \<times> principal_type \<times> string option \<Rightarrow> channel list \<Rightarrow> string"

definition negotiateClientConnection :: "issuer \<Rightarrow> request_context \<Rightarrow> grant wop" where
  "negotiateClientConnection iss ctx =
     (if \<not> truthy (rq_connectionId ctx) then throw MissingConnection
      else
        (let c = the (rq_connectionId ctx)
         in ok \<lparr>gr_url = is_client iss (rq_principalId ctx, rq_principalType ctx, Some c)
                   [TenantInbox, ClientInbox, ClientPrivateInbox c],
                gr_clientConnectionId = Some c, gr_worker = None\<rparr>))"

definition negotiateSidecarConnection ::
  "tenant_config \<Rightarrow> issuer \<Rightarrow> (world \<Rightarrow> world) \<Rightarrow> string option \<Rightarrow> worker_register_payload \<Rightarrow> grant wop" where
  "negotiateSidecarConnection cfg iss between override r =
     andThen (resolveWorkerLabels cfg between r) (\<lambda>ls.
     andThen (register keepalive_ttl (orElse override (tn_tenantId cfg)) (r\<lparr>wr_labels := ls\<rparr>)) (\<lambda>k.
       ok \<lparr>gr_url = is_sidecar iss (wk_workerId k, ServicePrincipal, Some (wk_workerId k))
              [TenantInbox, WorkerCommands (wk_workerId k)],
           gr_clientConnectionId = None, gr_worker = Some k\<rparr>))"

end
