(* ===== verification/Routes.thy ===== *)
theory Routes
  imports TenantInbox
begin

text \<open>
  \<^verbatim>\<open>central-service.ts\<close>, \<^verbatim>\<open>http/poc-routes.ts\<close> and the route table of
  \<^verbatim>\<open>http/central-http-server.ts\<close>: an HTTP request is found by method and path, its body is checked, and it
  runs on the runtime of the tenant it names. Parsing of URLs and JSON texts is a parameter: a request carries its
  path, its query and the text of its body.
\<close>

record http_request =
  hr_method :: string
  hr_path :: string
  hr_query :: "(string \<times> string) list"
  hr_body :: "string option"

datatype http_body =
    ErrorBody string
  | HealthBody
  | StatusBody "worker_pool list" "host_instance list" "worker list" "agent_spec list"
  | GrantBody grant
  | RedeemBody redeem_result
  | EmptyBody

record json_response =
  jr_statusCode :: nat
  jr_body :: http_body

record service =
  sv_runtimes :: "(string \<times> tenant_config) list"
  sv_issuer :: issuer
  sv_parse :: "string \<Rightarrow> json option"
  sv_errorText :: "error \<Rightarrow> string"

subsection \<open>CentralService\<close>

text \<open>Running \<open>m\<close> on a tenant's runtime; \<^verbatim>\<open>null\<close>, an empty and an unknown tenant id are errors.\<close>

definition resolveTenantRuntime :: "service \<Rightarrow> string option \<Rightarrow> tenant_config wop" where
  "resolveTenantRuntime sv tenantId =
     (if \<not> truthy tenantId then throw (Raised ''tenantId is required'')
      else case map_of (sv_runtimes sv) (the tenantId) of
             None \<Rightarrow> throw (Raised ''tenant runtime is not active'')
           | Some cfg \<Rightarrow> ok cfg)"

definition describeWorkerPools :: "tenant_config \<Rightarrow> world \<Rightarrow> http_body" where
  "describeWorkerPools cfg w =
     StatusBody (tn_pools cfg) (readHostPoolInstances w) (readWorkers w) (map snd (tn_specs cfg))"

subsection \<open>Bodies\<close>

definition isStringRecord :: "json option \<Rightarrow> bool" where
  "isStringRecord v = (case v of Some (JObj kvs) \<Rightarrow> list_all (\<lambda>(k, j). is_string (Some j)) kvs | _ \<Rightarrow> False)"

definition string_record :: "json option \<Rightarrow> labels" where
  "string_record v = (case v of Some (JObj kvs) \<Rightarrow> map (\<lambda>(k, j). (k, the (jstring (Some j)))) kvs | _ \<Rightarrow> [])"

definition isNonEmptyString :: "json option \<Rightarrow> bool" where
  "isNonEmptyString v = truthy (jstring v)"

definition isEdgeBindingPayload :: "json \<Rightarrow> bool" where
  "isEdgeBindingPayload j =
     (isNonEmptyString (jfield ''caseId'' j) \<and> isNonEmptyString (jfield ''deviceId'' j)
      \<and> isNonEmptyString (jfield ''deviceRef'' j) \<and> isNonEmptyString (jfield ''bindingCredential'' j))"

definition isWorkerRegisterPayload :: "json \<Rightarrow> bool" where
  "isWorkerRegisterPayload j =
     ((jfield ''hostPoolInstanceId'' j = None \<or> isNonEmptyString (jfield ''hostPoolInstanceId'' j))
      \<and> isStringRecord (jfield ''labels'' j) \<and> isNonEmptyString (jfield ''storageClass'' j)
      \<and> is_number (jfield ''capacity'' j) \<and> is_number (jfield ''allocatable'' j)
      \<and> (jfield ''description'' j = None \<or> isStringRecord (jfield ''description'' j))
      \<and> (case jfield ''edgeBinding'' j of None \<Rightarrow> True | Some b \<Rightarrow> isEdgeBindingPayload b))"

definition field_text :: "string \<Rightarrow> json \<Rightarrow> string" where
  "field_text k j = orElse (jstring (jfield k j)) []"

definition registration_of :: "json \<Rightarrow> worker_register_payload" where
  "registration_of j =
     \<lparr>wr_hostPoolInstanceId = jstring (jfield ''hostPoolInstanceId'' j), wr_labels = string_record (jfield ''labels'' j),
      wr_storageClass = field_text ''storageClass'' j,
      wr_description = map_option (\<lambda>d. string_record (Some d)) (jfield ''description'' j),
      wr_capacity = orElse (jnumber (jfield ''capacity'' j)) 0, wr_allocatable = orElse (jnumber (jfield ''allocatable'' j)) 0,
      wr_edgeBinding = map_option (\<lambda>b. \<lparr>eb_caseId = field_text ''caseId'' b, eb_deviceId = field_text ''deviceId'' b,
          eb_deviceRef = field_text ''deviceRef'' b, eb_bindingCredential = field_text ''bindingCredential'' b\<rparr>)
        (jfield ''edgeBinding'' j)\<rparr>"

definition read_body :: "service \<Rightarrow> http_request \<Rightarrow> (json \<Rightarrow> bool) \<Rightarrow> json wop" where
  "read_body sv req valid =
     (case hr_body req of
        None \<Rightarrow> throw (Raised ''body is required'')
      | Some txt \<Rightarrow>
          (case sv_parse sv txt of
             None \<Rightarrow> throw (Raised ''JSON.parse'')
           | Some j \<Rightarrow> if valid j then ok j else throw (Raised ''invalid body'')))"

text \<open>The body is passed on as it was parsed: a property that no check names stays in it.\<close>

definition readSidecarRegistrationBody :: "service \<Rightarrow> http_request \<Rightarrow> (worker_register_payload \<times> string option) wop" where
  "readSidecarRegistrationBody sv req =
     andThen (read_body sv req isWorkerRegisterPayload) (\<lambda>j. ok (registration_of j, jstring (jfield ''tenantId'' j)))"

definition isPairingRedeemPayload :: "json \<Rightarrow> bool" where
  "isPairingRedeemPayload j =
     (isNonEmptyString (jfield ''inviteId'' j) \<and> isNonEmptyString (jfield ''inviteSecret'' j)
      \<and> isNonEmptyString (jfield ''deviceId'' j) \<and> isNonEmptyString (jfield ''deviceLabel'' j))"

definition redeem_of :: "json \<Rightarrow> redeem_input" where
  "redeem_of j = \<lparr>rx_inviteId = field_text ''inviteId'' j, rx_inviteSecret = field_text ''inviteSecret'' j,
                  rx_deviceId = field_text ''deviceId'' j, rx_deviceLabel = field_text ''deviceLabel'' j\<rparr>"

definition readPairingRedeemBody :: "service \<Rightarrow> http_request \<Rightarrow> redeem_input wop" where
  "readPairingRedeemBody sv req = andThen (read_body sv req isPairingRedeemPayload) (\<lambda>j. ok (redeem_of j))"

subsection \<open>The routes\<close>

definition tenant_param :: "http_request \<Rightarrow> string option" where
  "tenant_param req = map_of (hr_query req) ''tenantId''"

text \<open>A route's answer: 200 with its body, or 400 with the message of the error.\<close>

definition answered :: "service \<Rightarrow> http_body wop \<Rightarrow> world \<Rightarrow> json_response \<times> world" where
  "answered sv m w =
     (case m w of
        (Inr b, w1) \<Rightarrow> (\<lparr>jr_statusCode = 200, jr_body = b\<rparr>, w1)
      | (Inl e, w1) \<Rightarrow> (\<lparr>jr_statusCode = 400, jr_body = ErrorBody (sv_errorText sv e)\<rparr>, w1))"

definition runtimeStatus :: "service \<Rightarrow> http_request \<Rightarrow> http_body wop" where
  "runtimeStatus sv req = andThen (resolveTenantRuntime sv (tenant_param req)) (\<lambda>cfg w. ok (describeWorkerPools cfg w) w)"

definition demo_client :: request_context where
  "demo_client = \<lparr>rq_principalId = ''demo-user'', rq_principalType = UserPrincipal, rq_connectionId = Some ''demo-connection''\<rparr>"

definition clientNegotiate :: "service \<Rightarrow> http_request \<Rightarrow> http_body wop" where
  "clientNegotiate sv req =
     (if \<not> truthy (map_of (hr_query req) ''clientConnectionId'') then throw (Raised ''clientConnectionId is required'')
      else andThen (resolveTenantRuntime sv (tenant_param req)) (\<lambda>cfg.
           andThen (negotiateClientConnection (sv_issuer sv)
                      (demo_client\<lparr>rq_connectionId := map_of (hr_query req) ''clientConnectionId''\<rparr>)) (\<lambda>g. ok (GrantBody g))))"

definition sidecarNegotiate :: "service \<Rightarrow> (world \<Rightarrow> world) \<Rightarrow> http_request \<Rightarrow> http_body wop" where
  "sidecarNegotiate sv between req =
     andThen (readSidecarRegistrationBody sv req) (\<lambda>(r, override).
     andThen (resolveTenantRuntime sv (tenant_param req)) (\<lambda>cfg.
     andThen (negotiateSidecarConnection cfg (sv_issuer sv) between override r) (\<lambda>g. ok (GrantBody g))))"

definition casePairingRedeem :: "service \<Rightarrow> http_request \<Rightarrow> http_body wop" where
  "casePairingRedeem sv req =
     andThen (readPairingRedeemBody sv req) (\<lambda>i.
     andThen (resolveTenantRuntime sv (tenant_param req)) (\<lambda>cfg.
     andThen (redeemPairingInvite (tenant_pairing cfg) i) (\<lambda>r. ok (RedeemBody r))))"

type_synonym handler = "http_request \<Rightarrow> world \<Rightarrow> json_response \<times> world"

definition pocRoutes :: "service \<Rightarrow> (world \<Rightarrow> world) \<Rightarrow> ((string \<times> string) \<times> handler) list" where
  "pocRoutes sv between =
     [((''GET'', ''/health''), \<lambda>req w. (\<lparr>jr_statusCode = 200, jr_body = HealthBody\<rparr>, w)),
      ((''GET'', ''/runtime/status''), \<lambda>req. answered sv (runtimeStatus sv req)),
      ((''POST'', ''/client/negotiate''), \<lambda>req. answered sv (clientNegotiate sv req)),
      ((''POST'', ''/sidecar/negotiate''), \<lambda>req. answered sv (sidecarNegotiate sv between req)),
      ((''POST'', ''/cases/pair/redeem''), \<lambda>req. answered sv (casePairingRedeem sv req))]"

definition route :: "((string \<times> string) \<times> handler) list \<Rightarrow> handler" where
  "route routes req w =
     (if hr_method req = ''OPTIONS'' then (\<lparr>jr_statusCode = 204, jr_body = EmptyBody\<rparr>, w)
      else case find (\<lambda>r. fst r = (hr_method req, hr_path req)) routes of
             None \<Rightarrow> (\<lparr>jr_statusCode = 404, jr_body = ErrorBody ''not found''\<rparr>, w)
           | Some r \<Rightarrow> snd r req w)"

end
