(* ===== verification/PairingEnds.thy ===== *)
theory PairingEnds
  imports PairingProps "HOL-Library.Multiset"
begin

text \<open>
  The requests of the pairing manager end: a rank of each request that every step of it lowers, whatever else
  happens in between, and no request is left waiting for its case's queue for ever.
\<close>

subsection \<open>Segments belong to their request\<close>

fun segment_of :: "pairing_request \<Rightarrow> segment \<Rightarrow> bool" where
  "segment_of (Redeem i) (RevokingOne b) = False"
| "segment_of (Redeem i) (Revoking bs n) = False"
| "segment_of (Redeem i) seg = True"
| "segment_of (RevokeDevice c ref) seg = (\<exists>b. seg = RevokingOne b)"
| "segment_of (RevokeCase c) seg = (\<exists>b bs n. seg = Revoking (b # bs) n)"

definition own_segment :: "pairing_request \<times> pairing_pc \<Rightarrow> bool" where
  "own_segment rp = (case snd rp of Inside c seg \<Rightarrow> segment_of (fst rp) seg | _ \<Rightarrow> True)"

lemma own_segment_simps [simp]:
  "own_segment (r, Called)" "own_segment (r, Waiting c)" "own_segment (r, Returned x)"
  "own_segment (r, Inside c seg) = segment_of r seg"
  by (simp_all add: own_segment_def)

definition returned :: "pairing_pc \<Rightarrow> bool" where
  "returned pc = (case pc of Returned _ \<Rightarrow> True | _ \<Rightarrow> False)"

subsection \<open>The rank of a request\<close>

fun segment_rank :: "segment \<Rightarrow> nat" where
  "segment_rank (Checked p) = 4"
| "segment_rank (Authorized p ref t) = 3"
| "segment_rank (Claimed p ref t) = 2"
| "segment_rank (Issued p ref t credential h existing) = 1"
| "segment_rank (RevokingOne b) = 1"
| "segment_rank (Revoking bs n) = length bs"

fun pc_rank :: "pairing_pc \<Rightarrow> nat \<times> nat" where
  "pc_rank Called = (3, 0)"
| "pc_rank (Waiting c) = (2, 0)"
| "pc_rank (Inside c seg) = (1, segment_rank seg)"
| "pc_rank (Returned x) = (0, 0)"

abbreviation lower :: "((nat \<times> nat) \<times> (nat \<times> nat)) set" where
  "lower \<equiv> less_than <*lex*> less_than"

lemma goto_cases:
  assumes "goto m f w = (pc1, w1)"
  obtains e where "pc1 = Returned (Inl e)" | x where "pc1 = f x" "m w = (Inr x, w1)"
  using assms by (auto simp: goto_eq)

lemma step_lowers:
  assumes "pairing_step cfg r pc w = (pc1, w1)" and "own_segment (r, pc)" and "\<not> returned pc"
  shows "own_segment (r, pc1) \<and> (pc_rank pc1, pc_rank pc) \<in> lower"
proof (cases pc)
  case Called
  with assms show ?thesis by (cases r) (auto simp: pairing_step_def elim!: goto_cases)
next
  case (Waiting c)
  show ?thesis
  proof (cases r)
    case (RevokeCase c1)
    have "bs \<noteq> [] \<Longrightarrow> \<exists>b bs1. bs = b # bs1" for bs :: "device_binding list" by (cases bs) auto
    with RevokeCase Waiting assms show ?thesis by (fastforce simp: pairing_step_def Let_def split: if_splits)
  qed (use Waiting assms in \<open>auto simp: pairing_step_def split: option.splits if_splits elim!: goto_cases\<close>)
next
  case (Inside c seg)
  show ?thesis
  proof (cases r)
    case (Redeem i)
    show ?thesis
      by (cases seg) (use Inside Redeem assms in \<open>auto simp: pairing_step_def Let_def split_def elim!: goto_cases\<close>)
  next
    case (RevokeDevice c1 ref)
    with Inside assms show ?thesis by (auto simp: pairing_step_def elim!: goto_cases)
  next
    case (RevokeCase c1)
    with Inside assms obtain b bs n where seg: "seg = Revoking (b # bs) n" by auto
    show ?thesis
    proof (cases bs)
      case Nil
      with seg Inside RevokeCase assms show ?thesis by (auto simp: pairing_step_def Let_def elim!: goto_cases)
    next
      case (Cons b1 bs1)
      with seg Inside RevokeCase assms show ?thesis by (auto simp: pairing_step_def Let_def elim!: goto_cases)
    qed
  qed
qed (use assms in \<open>simp add: returned_def\<close>)

lemma reachable_own_segments:
  assumes "pairing_reachable cfg w0 s" shows "list_all own_segment (snd s)"
  using assms unfolding pairing_reachable_def
proof (induction rule: rtranclp_induct)
  case (step s s1)
  from step(2,3) show ?case
  proof (induction rule: pairing_system.induct)
    case (run n ps r pc w pc1 w1)
    then have me: "own_segment (r, pc)" by (metis list_all_length snd_conv)
    have "own_segment (r, pc1)"
    proof (cases "returned pc")
      case True
      with run(4) show ?thesis by (auto simp: returned_def pairing_step_def split: pairing_pc.splits)
    qed (use step_lowers [OF run(4) me] in blast)
    with run(1,5) show ?case by (auto simp: list_all_length nth_list_update)
  qed simp_all
qed simp

subsection \<open>Every schedule ends\<close>

text \<open>One more step of some request, from a state that can be reached; the world it finds is any.\<close>

definition pairing_work :: "pairing_config \<Rightarrow> (pairing_procs \<times> pairing_procs) set" where
  "pairing_work cfg = {(ps1, ps). \<exists>w0 w w1 n r pc pc1. pairing_reachable cfg w0 (w, ps)
     \<and> n < length ps \<and> ps ! n = (r, pc) \<and> \<not> returned pc \<and> may_run ps pc
     \<and> pairing_step cfg r pc w = (pc1, w1) \<and> ps1 = ps[n := (r, pc1)]}"

definition ranks :: "pairing_procs \<Rightarrow> (nat \<times> nat) multiset" where
  "ranks ps = image_mset (\<lambda>rp. pc_rank (snd rp)) (mset ps)"

lemma work_lowers:
  assumes "(ps1, ps) \<in> pairing_work cfg" shows "(ranks ps1, ranks ps) \<in> mult lower"
proof -
  from assms obtain w0 w w1 n r pc pc1 where s: "pairing_reachable cfg w0 (w, ps)" "n < length ps" "ps ! n = (r, pc)"
    "\<not> returned pc" "pairing_step cfg r pc w = (pc1, w1)" "ps1 = ps[n := (r, pc1)]"
    unfolding pairing_work_def by blast
  have "own_segment (r, pc)" using reachable_own_segments [OF s(1)] s(2,3) by (metis list_all_length snd_conv)
  with step_lowers [OF s(5)] s(4) have low: "(pc_rank pc1, pc_rank pc) \<in> lower" by blast
  obtain A where A: "mset ps = add_mset (ps ! n) A" using multi_member_split [of "ps ! n" "mset ps"] s(2) by auto
  let ?rest = "image_mset (\<lambda>rp. pc_rank (snd rp)) A"
  have "ranks ps = ?rest + {#pc_rank pc#}" "ranks ps1 = ?rest + {#pc_rank pc1#}"
    using s(2,3,6) by (simp_all add: ranks_def A mset_update)
  moreover have "(?rest + {#pc_rank pc1#}, ?rest + {#pc_rank pc#}) \<in> mult lower"
    by (rule one_step_implies_mult) (use low in simp_all)
  ultimately show ?thesis by simp
qed

lemma wf_pairing_work: "wf (pairing_work cfg)"
proof (rule wf_subset)
  show "wf (inv_image (mult lower) ranks)" by (intro wf_inv_image wf_mult wf_lex_prod wf_less_than)
  show "pairing_work cfg \<subseteq> inv_image (mult lower) ranks" using work_lowers by (auto simp: inv_image_def)
qed

lemma someone_may_run:
  assumes "(r, pc) \<in> set ps" and "\<not> returned pc"
  shows "\<exists>r1 pc1. (r1, pc1) \<in> set ps \<and> \<not> returned pc1 \<and> may_run ps pc1"
proof (cases "may_run ps pc")
  case False
  then obtain c r1 pc1 where "(r1, pc1) \<in> set ps" "holds pc1 = Some c" by (auto simp: may_run_def split: pairing_pc.splits)
  then have "(r1, pc1) \<in> set ps" "\<not> returned pc1" "may_run ps pc1"
    by (cases pc1; simp add: returned_def may_run_def)+
  then show ?thesis by blast
qed (use assms in blast)

text \<open>
  C24: Requests of the pairing manager end. Whatever else happens between their steps, redeems and revocations
  that are under way take only finitely many steps in any order, and as long as one has not returned, one that has
  not returned can take its next step: none waits for ever behind the queue of its case.
\<close>

theorem pairing_requests_end:
  assumes "pairing_reachable cfg w0 (w, ps)" and "\<not> list_all (\<lambda>rp. returned (snd rp)) ps"
  shows "wf (pairing_work cfg) \<and> (\<exists>ps1. (ps1, ps) \<in> pairing_work cfg)"
proof -
  from assms(2) obtain r0 pc0 where "(r0, pc0) \<in> set ps" "\<not> returned pc0" by (auto simp: list_all_iff)
  from someone_may_run [OF this] obtain r pc where "(r, pc) \<in> set ps" "\<not> returned pc" "may_run ps pc" by blast
  then obtain n where n: "n < length ps" "ps ! n = (r, pc)" "\<not> returned pc" "may_run ps pc" by (auto simp: in_set_conv_nth)
  obtain pc1 w1 where "pairing_step cfg r pc w = (pc1, w1)" by (cases "pairing_step cfg r pc w")
  with n assms(1) have "(ps[n := (r, pc1)], ps) \<in> pairing_work cfg" unfolding pairing_work_def by blast
  with wf_pairing_work show ?thesis by blast
qed

lemma pairing_requests_end_witness:
  "\<exists>ps1. (ps1, [(RevokeCase ''s1'', Called), (RevokeCase ''s1'', Called)]) \<in> pairing_work ex_pairing"
proof -
  have "pairing_system ex_pairing (invited_world, []) (invited_world, [(RevokeCase ''s1'', Called)])"
    "pairing_system ex_pairing (invited_world, [(RevokeCase ''s1'', Called)])
       (invited_world, [(RevokeCase ''s1'', Called), (RevokeCase ''s1'', Called)])"
    using pairing_system.request [of ex_pairing invited_world "[]"]
      pairing_system.request [of ex_pairing invited_world "[(RevokeCase ''s1'', Called)]"] by simp_all
  then have "pairing_reachable ex_pairing invited_world
      (invited_world, [(RevokeCase ''s1'', Called), (RevokeCase ''s1'', Called)])"
    unfolding pairing_reachable_def by (meson converse_rtranclp_into_rtranclp rtranclp.rtrancl_refl)
  from pairing_requests_end [OF this] show ?thesis by (simp add: returned_def)
qed

end
