(* ===== verification/SidecarCommands.thy ===== *)
theory SidecarCommands
  imports AgentReports Admission
begin

text \<open>
  The commands central sends to a worker, as the sidecar reads them: the payload parsers of
  \<^verbatim>\<open>sidecar/sidecar-daemon.ts\<close>, and the JSON form of the payloads central builds.
\<close>

text \<open>\<^verbatim>\<open>JSON.stringify\<close>: the entries of an object in the order they were put in.\<close>

fun json_text :: "json \<Rightarrow> string" where
  "json_text JNull = ''null''"
| "json_text (JBool b) = (if b then ''true'' else ''false'')"
| "json_text (JNum i) = int_text i"
| "json_text (JStr s) = json_quote s"
| "json_text (JArr vs) = CHR ''['' # join_commas (map json_text vs) @ '']''"
| "json_text (JObj kvs) =
     CHR ''{'' # join_commas (map (\<lambda>(k, v). json_quote k @ CHR '':'' # json_text v) kvs) @ ''}''"

subsection \<open>Parsers\<close>

record assign_command =
  ac_sessionId :: string
  ac_workerId :: string
  ac_sessionLeaseId :: string
  ac_workspaceRef :: string
  ac_copilotSessionStateRef :: string
  ac_resolvedAgentSpec :: json
  ac_restore :: "(string \<times> json list) option"

text \<open>The outer option is the thrown error. A \<^verbatim>\<open>null\<close> restore makes the check itself throw.\<close>

definition parseRestore :: "json option \<Rightarrow> (string \<times> json list) option option" where
  "parseRestore v =
     (case v of
        None \<Rightarrow> Some None
      | Some r \<Rightarrow>
          if \<not> is_string (jfield ''snapshotId'' r) \<or> \<not> is_string (jfield ''storageClass'' r)
             \<or> \<not> is_string (jfield ''handle'' r) \<or> jarray (jfield ''parts'' r) = None then None
          else Some (Some (the (jstring (jfield ''handle'' r)), the (jarray (jfield ''parts'' r)))))"

definition parseAssignPayload :: "json option \<Rightarrow> assign_command option" where
  "parseAssignPayload b =
     (case b of
        None \<Rightarrow> None
      | Some p \<Rightarrow>
          if \<not> is_string (jfield ''sessionId'' p) \<or> \<not> is_string (jfield ''workerId'' p) \<or> \<not> is_string (jfield ''sessionLeaseId'' p)
             \<or> \<not> is_string (jfield ''workspaceRef'' p) \<or> \<not> is_string (jfield ''copilotSessionStateRef'' p)
             \<or> \<not> is_string (Option.bind (jfield ''resolvedAgentSpec'' p) (jfield ''agentSpecId'')) then None
          else
            map_option (\<lambda>restore.
              \<lparr>ac_sessionId = the (jstring (jfield ''sessionId'' p)), ac_workerId = the (jstring (jfield ''workerId'' p)),
               ac_sessionLeaseId = the (jstring (jfield ''sessionLeaseId'' p)), ac_workspaceRef = the (jstring (jfield ''workspaceRef'' p)),
               ac_copilotSessionStateRef = the (jstring (jfield ''copilotSessionStateRef'' p)),
               ac_resolvedAgentSpec = the (jfield ''resolvedAgentSpec'' p), ac_restore = restore\<rparr>)
              (parseRestore (jfield ''restore'' p)))"

record turn_command =
  ic_sessionId :: string
  ic_workerId :: string
  ic_sessionLeaseId :: string
  ic_turnSeq :: int
  ic_input :: json

definition parseInputPayload :: "json option \<Rightarrow> turn_command option" where
  "parseInputPayload b =
     (case b of
        None \<Rightarrow> None
      | Some p \<Rightarrow>
          if \<not> is_string (jfield ''sessionId'' p) \<or> \<not> is_string (jfield ''workerId'' p) \<or> \<not> is_string (jfield ''sessionLeaseId'' p)
             \<or> \<not> is_number (jfield ''turnSeq'' p) \<or> \<not> is_string (Option.bind (jfield ''input'' p) (jfield ''message'')) then None
          else Some \<lparr>ic_sessionId = the (jstring (jfield ''sessionId'' p)), ic_workerId = the (jstring (jfield ''workerId'' p)),
                 ic_sessionLeaseId = the (jstring (jfield ''sessionLeaseId'' p)),
                 ic_turnSeq = (case jfield ''turnSeq'' p of Some (JNum n) \<Rightarrow> n | _ \<Rightarrow> 0), ic_input = the (jfield ''input'' p)\<rparr>)"

definition ic_message :: "turn_command \<Rightarrow> string" where
  "ic_message ic = the (jstring (jfield ''message'' (ic_input ic)))"

record tool_response_command =
  tr_sessionId :: string
  tr_workerId :: string
  tr_sessionLeaseId :: string
  tr_requestId :: string
  tr_result :: string

definition parseRuntimeToolResponsePayload :: "json option \<Rightarrow> tool_response_command option" where
  "parseRuntimeToolResponsePayload b =
     (case b of
        None \<Rightarrow> None
      | Some p \<Rightarrow>
          if \<not> isRecord (Some p) \<or> \<not> is_string (jfield ''sessionId'' p) \<or> \<not> is_string (jfield ''workerId'' p)
             \<or> \<not> is_string (jfield ''sessionLeaseId'' p) \<or> \<not> is_string (jfield ''requestId'' p) \<or> \<not> is_string (jfield ''result'' p) then None
          else Some \<lparr>tr_sessionId = the (jstring (jfield ''sessionId'' p)), tr_workerId = the (jstring (jfield ''workerId'' p)),
                 tr_sessionLeaseId = the (jstring (jfield ''sessionLeaseId'' p)), tr_requestId = the (jstring (jfield ''requestId'' p)),
                 tr_result = the (jstring (jfield ''result'' p))\<rparr>)"

record pause_command =
  pq_sessionId :: string
  pq_workerId :: string
  pq_sessionLeaseId :: string
  pq_reason :: "string option"
  pq_capture :: "(string \<times> string) option"

definition parsePausePayload :: "json option \<Rightarrow> pause_command option" where
  "parsePausePayload b =
     (case b of
        None \<Rightarrow> None
      | Some p \<Rightarrow>
          let capture = jfield ''capture'' p; reason = jfield ''reason'' p in
          if \<not> is_string (jfield ''sessionId'' p) \<or> \<not> is_string (jfield ''workerId'' p) \<or> \<not> is_string (jfield ''sessionLeaseId'' p) then None
          else if capture \<noteq> None \<and> (\<not> is_string (jfield ''snapshotId'' (the capture)) \<or> \<not> is_string (jfield ''storageClass'' (the capture))
                    \<or> \<not> is_string (jfield ''handle'' (the capture))) then None
          else if reason \<noteq> None \<and> reason \<notin> set (map (\<lambda>r. Some (JStr r)) pause_reasons) then None
          else Some \<lparr>pq_sessionId = the (jstring (jfield ''sessionId'' p)), pq_workerId = the (jstring (jfield ''workerId'' p)),
                 pq_sessionLeaseId = the (jstring (jfield ''sessionLeaseId'' p)), pq_reason = jstring reason,
                 pq_capture = map_option (\<lambda>c. (the (jstring (jfield ''snapshotId'' c)), the (jstring (jfield ''handle'' c)))) capture\<rparr>)"

record interaction_response_command =
  ir_sessionId :: string
  ir_workerId :: string
  ir_sessionLeaseId :: string
  ir_interactionId :: string
  ir_adapterRequestId :: string
  ir_kind :: interaction_kind
  ir_response :: "json option"

definition kindOf :: "json option \<Rightarrow> interaction_kind option" where
  "kindOf v = (if v = Some (JStr ''approval'') then Some Approval else if v = Some (JStr ''tool_call'') then Some ToolCall else None)"

definition parseInteractionResponsePayload :: "json option \<Rightarrow> interaction_response_command option" where
  "parseInteractionResponsePayload b =
     (case b of
        None \<Rightarrow> None
      | Some p \<Rightarrow>
          if \<not> is_string (jfield ''sessionId'' p) \<or> \<not> is_string (jfield ''workerId'' p) \<or> \<not> is_string (jfield ''sessionLeaseId'' p)
             \<or> \<not> is_string (jfield ''interactionId'' p) \<or> \<not> is_string (jfield ''adapterRequestId'' p) \<or> kindOf (jfield ''kind'' p) = None then None
          else Some \<lparr>ir_sessionId = the (jstring (jfield ''sessionId'' p)), ir_workerId = the (jstring (jfield ''workerId'' p)),
                 ir_sessionLeaseId = the (jstring (jfield ''sessionLeaseId'' p)), ir_interactionId = the (jstring (jfield ''interactionId'' p)),
                 ir_adapterRequestId = the (jstring (jfield ''adapterRequestId'' p)), ir_kind = the (kindOf (jfield ''kind'' p)),
                 ir_response = jfield ''response'' p\<rparr>)"

definition parseWorkerResultAcknowledgedPayload :: "json option \<Rightarrow> string option" where
  "parseWorkerResultAcknowledgedPayload b = (case b of None \<Rightarrow> None | Some p \<Rightarrow> jstring (jfield ''resultEventId'' p))"

end
