(* ===== verification/Sidecar.thy ===== *)
theory Sidecar
  imports SidecarCommands
begin

text \<open>
  The sidecar daemon of a worker, \<^verbatim>\<open>sidecar/sidecar-daemon.ts\<close>. Its transport starts a handler for each
  command and does not wait for it, so handlers run at the same time and interleave at every \<^verbatim>\<open>await\<close>. A handler
  that waits is a \<open>sidecar_task\<close>, named after what it waits for; \<open>runTask\<close> is the code from there to the
  next \<^verbatim>\<open>await\<close>, with the outcome of what was awaited as a \<open>signal\<close>. The workspace adapter, the agent
  adapter and the transport are outside: \<open>sc_calls\<close> and \<open>sc_sent\<close> are the calls and events handed to
  them, and signals are their answers, any at any time.

  Objects that handlers share by reference are entries of \<open>sc_runs\<close> and \<open>sc_promises\<close>, named by their index.
\<close>

subsection \<open>State\<close>

datatype promise_state = Unsettled | Fulfilled | RejectedWith string

type_synonym workspace_mount = "string \<times> string"

record active_run =
  ar_sessionId :: string
  ar_workerId :: string
  ar_sessionLeaseId :: string
  ar_ready :: nat
  ar_mount :: workspace_mount
  ar_runtimeToolNames :: "string list"
  ar_acceptedInputs :: "(int, string \<times> string) table"
  ar_resolvedInteractionCommands :: "string list"
  ar_inFlightInteractionCommands :: "(string, nat) table"
  ar_resolvedRuntimeToolRequests :: "string list"

record completed_pause =
  cp_sessionId :: string
  cp_workerId :: string
  cp_sessionLeaseId :: string
  cp_payload :: json

text \<open>Calls of the adapters. The number in \<open>SendCall\<close> and \<open>RespondCall\<close> is the run they are for.\<close>

datatype adapter_call =
    RestoreCall workspace_mount string "json list"
  | StartCall workspace_mount string string string json
  | SendCall nat turn_command
  | RespondCall nat string string interaction_kind "json option"
  | PauseAtCall string
  | StopCall string
  | CaptureCall workspace_mount string

record sidecar =
  sc_runs :: "active_run list"
  sc_promises :: "promise_state list"
  sc_activeRuns :: "(string, nat) table"
  sc_inFlightPauses :: "(string, nat) table"
  sc_completedPauses :: "(string, completed_pause) table"
  sc_heartbeatState :: "(string \<times> int) option"
  sc_heartbeatTimer :: bool
  sc_connected :: bool
  sc_sent :: "runtime_event list"
  sc_calls :: "adapter_call list"
  sc_uuid :: "nat \<Rightarrow> string"
  sc_clock :: "nat \<Rightarrow> time"
  sc_steps :: nat

text \<open>The adapters the image ships with: what mounting answers and which optional methods exist.\<close>

record sidecar_config =
  sd_mount :: "string \<Rightarrow> string \<Rightarrow> workspace_mount option"
  sd_responds :: bool
  sd_pauses :: bool
  sd_stops :: bool
  sd_sha :: "string \<Rightarrow> string"

datatype agent_event =
    AgentSays json
  | AgentAsks string interaction_kind "json option"

datatype sidecar_signal =
    Wake
  | Resolved
  | RejectedSignal string
  | CapturedParts "snapshot_part list"
  | AgentEmits agent_event
  | AgentReturns "string option" "json option"
  | GrantedWorker "(string \<times> int) option"

datatype sidecar_task =
    Delivered runtime_event
  | ReadyRestoring nat workspace_mount assign_command
  | ReadyStarting nat
  | AssignWaiting assign_command nat
  | AssignReporting assign_command string
  | InputWaiting runtime_event turn_command nat
  | InputAcknowledging turn_command nat
  | TurnRunning turn_command nat
  | TurnReporting turn_command
  | TurnFailing turn_command string
  | Responding runtime_event nat nat
  | ResponseShared runtime_event nat
  | PauseShared nat
  | PauseWaiting pause_command nat nat
  | PauseBoundary pause_command nat nat
  | PauseStopping pause_command nat nat
  | PauseCapturing pause_command nat nat
  | PausePublishing nat
  | PauseHeartbeat nat
  | PauseOuter string nat
  | Negotiating
  | Connecting "string \<times> int"
  | Subscribing "string \<times> int"
  | HeartbeatStarting
  | StoppingAll

type_synonym continued = "(sidecar_task list \<times> sidecar) option"

text \<open>What a step may end in: the handler is over, by returning or by an error its caller logs, or it goes on.\<close>

abbreviation done_with :: "sidecar \<Rightarrow> continued" where
  "done_with st \<equiv> Some ([], st)"

abbreviation goes_on :: "sidecar_task \<Rightarrow> sidecar \<Rightarrow> continued" where
  "goes_on t st \<equiv> Some ([t], st)"

definition threw :: "sidecar \<Rightarrow> continued" where
  "threw st = Some ([], st)"

text \<open>\<^verbatim>\<open>await\<close> of a call of an adapter or the transport that answers with no value.\<close>

definition awaited :: "sidecar_signal \<Rightarrow> continued \<Rightarrow> (string \<Rightarrow> continued) \<Rightarrow> continued" where
  "awaited sig resolved rejected =
     (case sig of Resolved \<Rightarrow> resolved | RejectedSignal msg \<Rightarrow> rejected msg | _ \<Rightarrow> None)"

subsection \<open>Small steps on the state\<close>

definition tdel :: "'k \<Rightarrow> ('k, 'r) table \<Rightarrow> ('k, 'r) table" where
  "tdel k t = filter (\<lambda>e. fst e \<noteq> k) t"

definition activeRun :: "string \<Rightarrow> sidecar \<Rightarrow> nat option" where
  "activeRun sid st = tget (sc_activeRuns st) sid"

definition the_run :: "nat \<Rightarrow> sidecar \<Rightarrow> active_run" where
  "the_run r st = sc_runs st ! r"

definition updateRun :: "nat \<Rightarrow> (active_run \<Rightarrow> active_run) \<Rightarrow> sidecar \<Rightarrow> sidecar" where
  "updateRun r f st = st\<lparr>sc_runs := (sc_runs st)[r := f (sc_runs st ! r)]\<rparr>"

definition promise :: "nat \<Rightarrow> sidecar \<Rightarrow> promise_state" where
  "promise p st = sc_promises st ! p"

definition newPromise :: "promise_state \<Rightarrow> sidecar \<Rightarrow> sidecar" where
  "newPromise s st = st\<lparr>sc_promises := sc_promises st @ [s]\<rparr>"

definition settle :: "nat \<Rightarrow> promise_state \<Rightarrow> sidecar \<Rightarrow> sidecar" where
  "settle p s st = st\<lparr>sc_promises := (sc_promises st)[p := s]\<rparr>"

definition called :: "adapter_call \<Rightarrow> sidecar \<Rightarrow> sidecar" where
  "called c st = st\<lparr>sc_calls := sc_calls st @ [c]\<rparr>"

definition publishTenantEvent ::
  "event_type \<Rightarrow> string option \<Rightarrow> string option \<Rightarrow> string option \<Rightarrow> int option \<Rightarrow> json \<Rightarrow> sidecar \<Rightarrow> sidecar" where
  "publishTenantEvent ty sid wid lease turn body st =
     st\<lparr>sc_sent := sc_sent st @ [\<lparr>ev_eventId = sc_uuid st (sc_steps st), ev_sessionId = sid, ev_workerId = wid, ev_ackId = None,
          ev_turnSeq = turn, ev_sequence = 0, ev_type = ty, ev_timestamp = sc_clock st (sc_steps st), ev_actor = SidecarActor,
          ev_sessionLeaseId = lease, ev_payload = JsonPayload body\<rparr>],
        sc_steps := Suc (sc_steps st)\<rparr>"

definition publishCommandRejected :: "runtime_event \<Rightarrow> string \<Rightarrow> string option \<Rightarrow> string option \<Rightarrow> sidecar \<Rightarrow> sidecar" where
  "publishCommandRejected e reason expected received =
     publishTenantEvent WorkerCommandRejected (ev_sessionId e) (ev_workerId e) received (ev_turnSeq e)
       (jobj [(''reason'', Some (JStr reason)), (''expectedSessionLeaseId'', map_option JStr expected),
              (''receivedSessionLeaseId'', map_option JStr received)])"

definition publishCommandAccepted :: "runtime_event \<Rightarrow> int \<Rightarrow> sidecar \<Rightarrow> sidecar" where
  "publishCommandAccepted e turn =
     publishTenantEvent WorkerCommandAccepted (ev_sessionId e) (ev_workerId e) (ev_sessionLeaseId e) (Some turn)
       (jobj [(''commandEventId'', Some (JStr (ev_eventId e))), (''turnSeq'', Some (JNum turn))])"

definition statusReport :: "assign_command \<Rightarrow> json \<Rightarrow> sidecar \<Rightarrow> sidecar" where
  "statusReport ac = publishTenantEvent StatusChanged (Some (ac_sessionId ac)) (Some (ac_workerId ac)) (Some (ac_sessionLeaseId ac)) None"

definition turnReport :: "event_type \<Rightarrow> turn_command \<Rightarrow> json \<Rightarrow> sidecar \<Rightarrow> sidecar" where
  "turnReport ty ic = publishTenantEvent ty (Some (ic_sessionId ic)) (Some (ic_workerId ic)) (Some (ic_sessionLeaseId ic)) (Some (ic_turnSeq ic))"

definition error_body :: "string \<Rightarrow> json" where
  "error_body msg = jobj [(''error'', Some (jobj [(''message'', Some (JStr msg))]))]"

subsection \<open>Heartbeats and the start of the worker\<close>

definition heartbeat_body :: "string \<Rightarrow> int \<Rightarrow> nat \<Rightarrow> json" where
  "heartbeat_body wid capacity active =
     (let allocatable = max 0 (capacity - int active)
      in jobj [(''workerId'', Some (JStr wid)), (''capacity'', Some (JNum capacity)), (''allocatable'', Some (JNum allocatable)),
               (''conditions'', Some (JArr [JStr (if allocatable > 0 then ''ready'' else ''busy'')]))])"

definition publishHeartbeat :: "sidecar \<Rightarrow> sidecar" where
  "publishHeartbeat st =
     (case sc_heartbeatState st of
        None \<Rightarrow> st
      | Some (wid, capacity) \<Rightarrow>
          publishTenantEvent WorkerHeartbeat None (Some wid) None None (heartbeat_body wid capacity (length (sc_activeRuns st))) st)"

definition stopHeartbeat :: "sidecar \<Rightarrow> sidecar" where
  "stopHeartbeat st = st\<lparr>sc_heartbeatTimer := False\<rparr>"

definition startHeartbeat :: "string \<times> int \<Rightarrow> sidecar \<Rightarrow> sidecar" where
  "startHeartbeat k st = publishHeartbeat (stopHeartbeat (st\<lparr>sc_heartbeatState := Some k\<rparr>))"

text \<open>The body of the negotiation request, as \<^verbatim>\<open>JSON.stringify\<close> leaves undefined fields out.\<close>

definition registration_body :: "worker_register_payload \<Rightarrow> json" where
  "registration_body r =
     jobj [(''hostPoolInstanceId'', map_option JStr (wr_hostPoolInstanceId r)), (''storageClass'', Some (JStr (wr_storageClass r))),
           (''labels'', Some (JObj (map (\<lambda>(k, v). (k, JStr v)) (wr_labels r)))),
           (''description'', map_option (\<lambda>d. JObj (map (\<lambda>(k, v). (k, JStr v)) d)) (wr_description r)),
           (''capacity'', Some (JNum (wr_capacity r))), (''allocatable'', Some (JNum (wr_allocatable r)))]"

text \<open>After the negotiation: no worker in the grant is an error; then connect, subscribe, the first heartbeat.\<close>

definition negotiated :: "sidecar_signal \<Rightarrow> sidecar \<Rightarrow> continued" where
  "negotiated sig st =
     (case sig of
        GrantedWorker None \<Rightarrow> threw st
      | GrantedWorker (Some k) \<Rightarrow> goes_on (Connecting k) st
      | RejectedSignal m \<Rightarrow> threw st
      | _ \<Rightarrow> None)"

definition connected :: "string \<times> int \<Rightarrow> sidecar_signal \<Rightarrow> sidecar \<Rightarrow> continued" where
  "connected k sig st = awaited sig (goes_on (Subscribing k) (st\<lparr>sc_connected := True\<rparr>)) (\<lambda>m. threw st)"

definition subscribed :: "string \<times> int \<Rightarrow> sidecar_signal \<Rightarrow> sidecar \<Rightarrow> continued" where
  "subscribed k sig st = awaited sig (goes_on HeartbeatStarting (startHeartbeat k st)) (\<lambda>m. threw st)"

definition heartbeatStarted :: "sidecar_signal \<Rightarrow> sidecar \<Rightarrow> continued" where
  "heartbeatStarted sig st = awaited sig (done_with (st\<lparr>sc_heartbeatTimer := True\<rparr>)) (\<lambda>m. threw st)"

definition clearAll :: "sidecar \<Rightarrow> sidecar" where
  "clearAll st = st\<lparr>sc_activeRuns := [], sc_inFlightPauses := [], sc_completedPauses := [], sc_connected := False\<rparr>"

definition stopDaemon :: "sidecar_config \<Rightarrow> sidecar \<Rightarrow> sidecar_task list \<times> sidecar" where
  "stopDaemon cfg st =
     (let st1 = stopHeartbeat st
      in if sd_stops cfg
         then ([StoppingAll], fold (\<lambda>r. called (StopCall (ar_sessionId (the_run r st1)))) (tall (sc_activeRuns st1)) st1)
         else ([], clearAll st1))"

definition stopped :: "sidecar_signal \<Rightarrow> sidecar \<Rightarrow> continued" where
  "stopped sig st = awaited sig (done_with (clearAll st)) (\<lambda>m. threw st)"

subsection \<open>session.assign\<close>

text \<open>
  \<^verbatim>\<open>runtimeTools.map(tool => tool.name)\<close>: the parser does not look at the tools, so a spec without
  the list, or with a \<^verbatim>\<open>null\<close> in it, throws here. A name that is no string names no tool.
\<close>

definition toolNames :: "json \<Rightarrow> string list option" where
  "toolNames spec =
     (case jarray (jfield ''runtimeTools'' spec) of
        None \<Rightarrow> None
      | Some js \<Rightarrow> if JNull \<in> set js then None else Some (List.map_filter (\<lambda>j. jstring (jfield ''name'' j)) js))"

definition startAgent :: "workspace_mount \<Rightarrow> assign_command \<Rightarrow> sidecar \<Rightarrow> sidecar" where
  "startAgent m ac = called (StartCall m (ac_sessionId ac) (ac_workerId ac) (ac_sessionLeaseId ac) (ac_resolvedAgentSpec ac))"

definition of_session :: "string \<Rightarrow> string \<Rightarrow> bool" where
  "of_session sid key = (take (Suc (length sid)) key = sid @ '':'')"

definition new_run :: "assign_command \<Rightarrow> nat \<Rightarrow> workspace_mount \<Rightarrow> string list \<Rightarrow> active_run" where
  "new_run ac ready m names =
     \<lparr>ar_sessionId = ac_sessionId ac, ar_workerId = ac_workerId ac, ar_sessionLeaseId = ac_sessionLeaseId ac, ar_ready = ready,
      ar_mount = m, ar_runtimeToolNames = names, ar_acceptedInputs = [], ar_resolvedInteractionCommands = [],
      ar_inFlightInteractionCommands = [], ar_resolvedRuntimeToolRequests = []\<rparr>"

text \<open>The function that makes the run ready starts at once; the rest of the handler registers the run and waits for it.\<close>

definition handleAssign :: "sidecar_config \<Rightarrow> runtime_event \<Rightarrow> sidecar \<Rightarrow> continued" where
  "handleAssign cfg e st =
     (case parseAssignPayload (jsonBody (ev_payload e)) of
        None \<Rightarrow> threw st
      | Some ac \<Rightarrow>
          if ev_sessionLeaseId e \<noteq> Some (ac_sessionLeaseId ac) then threw st
          else
            (let st1 = st\<lparr>sc_completedPauses := filter (\<lambda>p. \<not> of_session (ac_sessionId ac) (fst p)) (sc_completedPauses st)\<rparr>
             in case sd_mount cfg (ac_workspaceRef ac) (ac_copilotSessionStateRef ac) of
                  None \<Rightarrow> threw st1
                | Some m \<Rightarrow>
                    (let p = length (sc_promises st1);
                         (ready, st2) =
                           (case ac_restore ac of
                              None \<Rightarrow> (ReadyStarting p, startAgent m ac (newPromise Unsettled st1))
                            | Some (handle, parts) \<Rightarrow>
                                (ReadyRestoring p m ac, called (RestoreCall m handle parts) (newPromise Unsettled st1)))
                     in case toolNames (ac_resolvedAgentSpec ac) of
                          None \<Rightarrow> Some ([ready], st2)
                        | Some names \<Rightarrow>
                            Some ([ready, AssignWaiting ac p],
                              st2\<lparr>sc_runs := sc_runs st2 @ [new_run ac p m names],
                                  sc_activeRuns := tput (ac_sessionId ac) (length (sc_runs st2)) (sc_activeRuns st2)\<rparr>))))"

definition restored :: "nat \<Rightarrow> workspace_mount \<Rightarrow> assign_command \<Rightarrow> sidecar_signal \<Rightarrow> sidecar \<Rightarrow> continued" where
  "restored p m ac sig st =
     awaited sig (goes_on (ReadyStarting p) (startAgent m ac st)) (\<lambda>msg. done_with (settle p (RejectedWith msg) st))"

definition agentStarted :: "nat \<Rightarrow> sidecar_signal \<Rightarrow> sidecar \<Rightarrow> continued" where
  "agentStarted p sig st =
     awaited sig (done_with (settle p Fulfilled st)) (\<lambda>msg. done_with (settle p (RejectedWith msg) st))"

definition assignReady :: "assign_command \<Rightarrow> nat \<Rightarrow> sidecar \<Rightarrow> continued" where
  "assignReady ac p st =
     (case promise p st of
        Unsettled \<Rightarrow> None
      | Fulfilled \<Rightarrow> done_with (statusReport ac (jobj [(''status'', Some (JStr ''running''))]) st)
      | RejectedWith msg \<Rightarrow>
          goes_on (AssignReporting ac msg)
            (publishTenantEvent AgentOutput (Some (ac_sessionId ac)) (Some (ac_workerId ac)) (Some (ac_sessionLeaseId ac)) None
               (error_body msg) (st\<lparr>sc_activeRuns := tdel (ac_sessionId ac) (sc_activeRuns st)\<rparr>)))"

definition assignReported :: "assign_command \<Rightarrow> string \<Rightarrow> sidecar_signal \<Rightarrow> sidecar \<Rightarrow> continued" where
  "assignReported ac msg sig st =
     awaited sig
       (done_with (statusReport ac (jobj [(''status'', Some (JStr ''failed'')), (''reason'', Some (JStr msg))]) st)) (\<lambda>m. threw st)"

subsection \<open>session.input\<close>

text \<open>The check every command of a running session passes: the run exists and both leases are the run's.\<close>

definition fenced ::
  "runtime_event \<Rightarrow> string \<Rightarrow> string \<Rightarrow> sidecar \<Rightarrow> (nat \<Rightarrow> continued) \<Rightarrow> continued" where
  "fenced e sid lease st f =
     (case activeRun sid st of
        None \<Rightarrow> done_with (publishCommandRejected e ''unknown_session'' None (Some lease) st)
      | Some r \<Rightarrow>
          (let own = ar_sessionLeaseId (the_run r st)
           in if own \<noteq> lease \<or> ev_sessionLeaseId e \<noteq> Some own
              then done_with (publishCommandRejected e ''stale_session_lease'' (Some own) (orOpt (ev_sessionLeaseId e) (Some lease)) st)
              else f r))"

definition handleInput :: "runtime_event \<Rightarrow> sidecar \<Rightarrow> continued" where
  "handleInput e st =
     (case parseInputPayload (jsonBody (ev_payload e)) of
        None \<Rightarrow> threw st
      | Some ic \<Rightarrow> fenced e (ic_sessionId ic) (ic_sessionLeaseId ic) st (\<lambda>r. goes_on (InputWaiting e ic r) st))"

definition input_digest :: "sidecar_config \<Rightarrow> turn_command \<Rightarrow> string" where
  "input_digest cfg ic = sd_sha cfg (json_text (ic_input ic))"

definition inputReady :: "sidecar_config \<Rightarrow> runtime_event \<Rightarrow> turn_command \<Rightarrow> nat \<Rightarrow> sidecar \<Rightarrow> continued" where
  "inputReady cfg e ic r st =
     (let a = the_run r st
      in case promise (ar_ready a) st of
           Unsettled \<Rightarrow> None
         | RejectedWith msg \<Rightarrow>
             done_with (publishCommandRejected e ''agent_not_running'' (Some (ar_sessionLeaseId a))
               (orOpt (ev_sessionLeaseId e) (Some (ic_sessionLeaseId ic))) st)
         | Fulfilled \<Rightarrow>
             (case tget (ar_acceptedInputs a) (ic_turnSeq ic) of
                Some (digest, _) \<Rightarrow>
                  if digest \<noteq> input_digest cfg ic
                  then done_with (publishCommandRejected e ''turn_input_conflict'' (Some (ar_sessionLeaseId a)) (Some (ic_sessionLeaseId ic)) st)
                  else done_with (publishCommandAccepted e (ic_turnSeq ic) st)
              | None \<Rightarrow>
                  goes_on (InputAcknowledging ic r)
                    (publishCommandAccepted e (ic_turnSeq ic)
                      (updateRun r (\<lambda>a. a\<lparr>ar_acceptedInputs :=
                         tput (ic_turnSeq ic) (input_digest cfg ic, ev_eventId e) (ar_acceptedInputs a)\<rparr>) st))))"

definition inputAcknowledged :: "turn_command \<Rightarrow> nat \<Rightarrow> sidecar_signal \<Rightarrow> sidecar \<Rightarrow> continued" where
  "inputAcknowledged ic r sig st = awaited sig (goes_on (TurnRunning ic r) (called (SendCall r ic) st)) (\<lambda>m. threw st)"

subsection \<open>A turn of the agent\<close>

text \<open>A tool the spec lists, called with an object, is a request to the runtime and not a question to a person.\<close>

definition runtimeToolCall :: "active_run \<Rightarrow> json option \<Rightarrow> (string \<times> json) option" where
  "runtimeToolCall a request =
     (let tool = (if isRecord request then jstring (jfield ''toolName'' (the request)) else None);
          args = (if isRecord request \<and> isRecord (jfield ''arguments'' (the request)) then jfield ''arguments'' (the request) else None)
      in if \<not> truthy tool \<or> args = None \<or> the tool \<notin> set (ar_runtimeToolNames a) then None
         else Some (the tool, the args))"

definition publishRuntimeToolRequest :: "turn_command \<Rightarrow> active_run \<Rightarrow> string \<Rightarrow> json option \<Rightarrow> sidecar \<Rightarrow> sidecar option" where
  "publishRuntimeToolRequest ic a iid request st =
     map_option (\<lambda>(tool, args). turnReport RuntimeToolRequested ic
         (jobj [(''requestId'', Some (JStr iid)), (''toolName'', Some (JStr tool)), (''input'', Some args)]) st)
       (runtimeToolCall a request)"

definition kind_text :: "interaction_kind \<Rightarrow> string" where
  "kind_text k = (case k of Approval \<Rightarrow> ''approval'' | ToolCall \<Rightarrow> ''tool_call'')"

definition onAgentEvent :: "turn_command \<Rightarrow> agent_event \<Rightarrow> sidecar \<Rightarrow> sidecar" where
  "onAgentEvent ic ev st =
     (case ev of
        AgentSays body \<Rightarrow> turnReport AgentOutput ic body st
      | AgentAsks iid kind request \<Rightarrow>
          (let tool = (if kind = ToolCall
                       then Option.bind (activeRun (ic_sessionId ic) st) (\<lambda>r. publishRuntimeToolRequest ic (the_run r st) iid request st)
                       else None)
           in case tool of
                Some st1 \<Rightarrow> st1
              | None \<Rightarrow>
                  turnReport AgentInteractionRequested ic
                    (jobj [(''adapterRequestId'', Some (JStr iid)), (''kind'', Some (JStr (kind_text kind))), (''request'', request)]) st))"

text \<open>
  \<^verbatim>\<open>runTurn\<close> goes on in the background while the agent works; each event of the agent is published in a
  callback of the adapter, which gets the outcome. A completion that cannot be published counts as a failed turn.
\<close>

definition turnError :: "turn_command \<Rightarrow> string \<Rightarrow> sidecar \<Rightarrow> continued" where
  "turnError ic msg st = goes_on (TurnFailing ic msg) (turnReport AgentOutput ic (error_body msg) st)"

definition runTurn :: "turn_command \<Rightarrow> nat \<Rightarrow> sidecar_signal \<Rightarrow> sidecar \<Rightarrow> continued" where
  "runTurn ic r sig st =
     (case sig of
        AgentEmits ev \<Rightarrow> goes_on (TurnRunning ic r) (onAgentEvent ic ev st)
      | AgentReturns message out \<Rightarrow>
          goes_on (TurnReporting ic)
            (turnReport TurnCompleted ic (jobj [(''result'', Some (jobj [(''message'', map_option JStr message), (''output'', out)]))]) st)
      | RejectedSignal msg \<Rightarrow> turnError ic msg st
      | _ \<Rightarrow> None)"

definition turnReported :: "turn_command \<Rightarrow> sidecar_signal \<Rightarrow> sidecar \<Rightarrow> continued" where
  "turnReported ic sig st = awaited sig (done_with st) (\<lambda>msg. turnError ic msg st)"

definition turnErrorReported :: "turn_command \<Rightarrow> string \<Rightarrow> sidecar_signal \<Rightarrow> sidecar \<Rightarrow> continued" where
  "turnErrorReported ic msg sig st = awaited sig (done_with (turnReport TurnFailed ic (error_body msg) st)) (\<lambda>m. threw st)"

subsection \<open>Answers to the agent\<close>

definition handleInteractionResponse :: "sidecar_config \<Rightarrow> runtime_event \<Rightarrow> sidecar \<Rightarrow> continued" where
  "handleInteractionResponse cfg e st =
     (case parseInteractionResponsePayload (jsonBody (ev_payload e)) of
        None \<Rightarrow> threw st
      | Some ir \<Rightarrow>
          fenced e (ir_sessionId ir) (ir_sessionLeaseId ir) st (\<lambda>r.
            if ev_eventId e \<in> set (ar_resolvedInteractionCommands (the_run r st))
            then done_with (publishCommandAccepted e (orElse (ev_turnSeq e) 0) st)
            else case tget (ar_inFlightInteractionCommands (the_run r st)) (ev_eventId e) of
                   Some p \<Rightarrow> goes_on (ResponseShared e p) st
                 | None \<Rightarrow>
                     (let p = length (sc_promises st);
                          st1 = (if sd_responds cfg
                                 then called (RespondCall r (ev_eventId e) (ir_adapterRequestId ir) (ir_kind ir) (ir_response ir)) (newPromise Unsettled st)
                                 else newPromise Fulfilled st)
                      in goes_on (Responding e r p)
                           (updateRun r (\<lambda>a. a\<lparr>ar_inFlightInteractionCommands :=
                              tput (ev_eventId e) p (ar_inFlightInteractionCommands a)\<rparr>) st1))))"

definition responded :: "runtime_event \<Rightarrow> nat \<Rightarrow> sidecar \<Rightarrow> sidecar" where
  "responded e r st = updateRun r (\<lambda>a. a\<lparr>ar_inFlightInteractionCommands := tdel (ev_eventId e) (ar_inFlightInteractionCommands a)\<rparr>) st"

definition responseDone :: "runtime_event \<Rightarrow> nat \<Rightarrow> sidecar \<Rightarrow> continued" where
  "responseDone e r st =
     done_with (publishCommandAccepted e (orElse (ev_turnSeq e) 0)
       (updateRun r (\<lambda>a. a\<lparr>ar_resolvedInteractionCommands := ar_resolvedInteractionCommands a @ [ev_eventId e]\<rparr>) (responded e r st)))"

text \<open>The handler that called the adapter is the first to see the call settle.\<close>

definition responding :: "runtime_event \<Rightarrow> nat \<Rightarrow> nat \<Rightarrow> sidecar_signal \<Rightarrow> sidecar \<Rightarrow> continued" where
  "responding e r p sig st =
     (if promise p st = Fulfilled then (if sig = Wake then responseDone e r st else None)
      else case sig of
             Resolved \<Rightarrow> responseDone e r (settle p Fulfilled st)
           | RejectedSignal m \<Rightarrow> threw (responded e r (settle p (RejectedWith m) st))
           | _ \<Rightarrow> None)"

definition responseShared :: "runtime_event \<Rightarrow> nat \<Rightarrow> sidecar \<Rightarrow> continued" where
  "responseShared e p st =
     (case promise p st of
        Unsettled \<Rightarrow> None
      | Fulfilled \<Rightarrow> done_with (publishCommandAccepted e (orElse (ev_turnSeq e) 0) st)
      | RejectedWith m \<Rightarrow> threw st)"

text \<open>Nothing follows the call of the adapter, so its outcome is not waited for here.\<close>

definition handleRuntimeToolResponse :: "sidecar_config \<Rightarrow> runtime_event \<Rightarrow> sidecar \<Rightarrow> continued" where
  "handleRuntimeToolResponse cfg e st =
     (case parseRuntimeToolResponsePayload (jsonBody (ev_payload e)) of
        None \<Rightarrow> threw st
      | Some tr \<Rightarrow>
          fenced e (tr_sessionId tr) (tr_sessionLeaseId tr) st (\<lambda>r.
            if tr_requestId tr \<in> set (ar_resolvedRuntimeToolRequests (the_run r st)) then done_with st
            else
              (let st1 = updateRun r (\<lambda>a. a\<lparr>ar_resolvedRuntimeToolRequests := ar_resolvedRuntimeToolRequests a @ [tr_requestId tr]\<rparr>) st
               in done_with (if sd_responds cfg
                     then called (RespondCall r (ev_eventId e) (tr_requestId tr) ToolCall (Some (jobj [(''result'', Some (JStr (tr_result tr)))]))) st1
                     else st1))))"

subsection \<open>session.pause.requested\<close>

definition publishCompletedPause :: "completed_pause \<Rightarrow> sidecar \<Rightarrow> sidecar" where
  "publishCompletedPause c =
     publishTenantEvent SessionPaused (Some (cp_sessionId c)) (Some (cp_workerId c)) (Some (cp_sessionLeaseId c)) None (cp_payload c)"

definition pause_key :: "pause_command \<Rightarrow> string" where
  "pause_key pq = pq_sessionId pq @ '':'' @ pq_sessionLeaseId pq"

definition handlePause :: "runtime_event \<Rightarrow> sidecar \<Rightarrow> continued" where
  "handlePause e st =
     (case parsePausePayload (jsonBody (ev_payload e)) of
        None \<Rightarrow> threw st
      | Some pq \<Rightarrow>
          (case tget (sc_inFlightPauses st) (pause_key pq) of
             Some p \<Rightarrow> goes_on (PauseShared p) st
           | None \<Rightarrow>
               (case tget (sc_completedPauses st) (pause_key pq) of
                  Some c \<Rightarrow> done_with (publishCompletedPause c st)
                | None \<Rightarrow>
                    fenced e (pq_sessionId pq) (pq_sessionLeaseId pq) st (\<lambda>r.
                      let p = length (sc_promises st); st1 = newPromise Unsettled st
                      in Some ([PauseWaiting pq r p, PauseOuter (pause_key pq) p],
                               st1\<lparr>sc_inFlightPauses := tput (pause_key pq) p (sc_inFlightPauses st1)\<rparr>)))))"

text \<open>The operation itself: ready, at a turn boundary, stopped, captured, forgotten, reported.\<close>

definition part_json :: "snapshot_part \<Rightarrow> json" where
  "part_json p = JStr (case p of WorkspacePart \<Rightarrow> ''workspace'' | AgentStatePart \<Rightarrow> ''agent-state'')"

definition snapshot_body :: "(string \<times> snapshot_part list) option \<Rightarrow> pause_command \<Rightarrow> json" where
  "snapshot_body snapshot pq =
     jobj [(''reason'', map_option JStr (pq_reason pq)),
           (''snapshot'', map_option (\<lambda>(sid, parts). jobj [(''snapshotId'', Some (JStr sid)), (''parts'', Some (JArr (map part_json parts)))]) snapshot)]"

definition finishPause :: "pause_command \<Rightarrow> nat \<Rightarrow> (string \<times> snapshot_part list) option \<Rightarrow> sidecar \<Rightarrow> continued" where
  "finishPause pq p snapshot st =
     (let c = \<lparr>cp_sessionId = pq_sessionId pq, cp_workerId = pq_workerId pq, cp_sessionLeaseId = pq_sessionLeaseId pq,
               cp_payload = snapshot_body snapshot pq\<rparr>
      in goes_on (PausePublishing p)
           (publishCompletedPause c
             (st\<lparr>sc_activeRuns := tdel (pq_sessionId pq) (sc_activeRuns st),
                 sc_completedPauses := tput (pause_key pq) c (sc_completedPauses st)\<rparr>)))"

definition pauseFailed :: "nat \<Rightarrow> string \<Rightarrow> sidecar \<Rightarrow> continued" where
  "pauseFailed p msg st = done_with (settle p (RejectedWith msg) st)"

definition pauseReady :: "sidecar_config \<Rightarrow> pause_command \<Rightarrow> nat \<Rightarrow> nat \<Rightarrow> sidecar \<Rightarrow> continued" where
  "pauseReady cfg pq r p st =
     (case promise (ar_ready (the_run r st)) st of
        Unsettled \<Rightarrow> None
      | RejectedWith msg \<Rightarrow> pauseFailed p msg st
      | Fulfilled \<Rightarrow> goes_on (PauseBoundary pq r p) (if sd_pauses cfg then called (PauseAtCall (pq_sessionId pq)) st else st))"

definition atBoundary :: "sidecar_config \<Rightarrow> pause_command \<Rightarrow> nat \<Rightarrow> nat \<Rightarrow> sidecar_signal \<Rightarrow> sidecar \<Rightarrow> continued" where
  "atBoundary cfg pq r p sig st =
     awaited sig (goes_on (PauseStopping pq r p) (if sd_stops cfg then called (StopCall (pq_sessionId pq)) st else st))
       (\<lambda>m. if sd_pauses cfg then pauseFailed p m st else None)"

definition agentStopped :: "sidecar_config \<Rightarrow> pause_command \<Rightarrow> nat \<Rightarrow> nat \<Rightarrow> sidecar_signal \<Rightarrow> sidecar \<Rightarrow> continued" where
  "agentStopped cfg pq r p sig st =
     awaited sig
       (case pq_capture pq of
          None \<Rightarrow> finishPause pq p None st
        | Some (sid, handle) \<Rightarrow> goes_on (PauseCapturing pq r p) (called (CaptureCall (ar_mount (the_run r st)) handle) st))
       (\<lambda>m. if sd_stops cfg then pauseFailed p m st else None)"

definition captured :: "pause_command \<Rightarrow> nat \<Rightarrow> sidecar_signal \<Rightarrow> sidecar \<Rightarrow> continued" where
  "captured pq p sig st =
     (case sig of
        CapturedParts parts \<Rightarrow> finishPause pq p (map_option (\<lambda>(sid, handle). (sid, parts)) (pq_capture pq)) st
      | RejectedSignal m \<Rightarrow> pauseFailed p m st
      | _ \<Rightarrow> None)"

definition pauseReported :: "nat \<Rightarrow> sidecar_signal \<Rightarrow> sidecar \<Rightarrow> continued" where
  "pauseReported p sig st = awaited sig (goes_on (PauseHeartbeat p) (publishHeartbeat st)) (\<lambda>m. pauseFailed p m st)"

definition pauseEnded :: "nat \<Rightarrow> sidecar_signal \<Rightarrow> sidecar \<Rightarrow> continued" where
  "pauseEnded p sig st = awaited sig (done_with (settle p Fulfilled st)) (\<lambda>m. pauseFailed p m st)"

definition pauseShared :: "nat \<Rightarrow> sidecar \<Rightarrow> continued" where
  "pauseShared p st = (case promise p st of Unsettled \<Rightarrow> None | Fulfilled \<Rightarrow> done_with st | RejectedWith m \<Rightarrow> threw st)"

definition pauseOuter :: "string \<Rightarrow> nat \<Rightarrow> sidecar \<Rightarrow> continued" where
  "pauseOuter key p st =
     (if promise p st = Unsettled then None
      else done_with (st\<lparr>sc_inFlightPauses := tdel key (sc_inFlightPauses st)\<rparr>))"

subsection \<open>The daemon\<close>

definition handleWorkerCommand :: "sidecar_config \<Rightarrow> runtime_event \<Rightarrow> sidecar \<Rightarrow> continued" where
  "handleWorkerCommand cfg e st =
     (case ev_type e of
        SessionAssign \<Rightarrow> handleAssign cfg e st
      | SessionInput \<Rightarrow> handleInput e st
      | SessionPauseRequested \<Rightarrow> handlePause e st
      | SessionInteractionResponse \<Rightarrow> handleInteractionResponse cfg e st
      | SessionRuntimeToolResponse \<Rightarrow> handleRuntimeToolResponse cfg e st
      | WorkerResultAcknowledged \<Rightarrow>
          if parseWorkerResultAcknowledgedPayload (jsonBody (ev_payload e)) = None then threw st else done_with st
      | _ \<Rightarrow> threw st)"

definition runTask :: "sidecar_config \<Rightarrow> sidecar_task \<Rightarrow> sidecar_signal \<Rightarrow> sidecar \<Rightarrow> continued" where
  "runTask cfg t sig st =
     (case t of
        Delivered e \<Rightarrow> handleWorkerCommand cfg e st
      | ReadyRestoring p m ac \<Rightarrow> restored p m ac sig st
      | ReadyStarting p \<Rightarrow> agentStarted p sig st
      | AssignWaiting ac p \<Rightarrow> assignReady ac p st
      | AssignReporting ac msg \<Rightarrow> assignReported ac msg sig st
      | InputWaiting e ic r \<Rightarrow> inputReady cfg e ic r st
      | InputAcknowledging ic r \<Rightarrow> inputAcknowledged ic r sig st
      | TurnRunning ic r \<Rightarrow> runTurn ic r sig st
      | TurnReporting ic \<Rightarrow> turnReported ic sig st
      | TurnFailing ic msg \<Rightarrow> turnErrorReported ic msg sig st
      | Responding e r p \<Rightarrow> responding e r p sig st
      | ResponseShared e p \<Rightarrow> responseShared e p st
      | PauseShared p \<Rightarrow> pauseShared p st
      | PauseWaiting pq r p \<Rightarrow> pauseReady cfg pq r p st
      | PauseBoundary pq r p \<Rightarrow> atBoundary cfg pq r p sig st
      | PauseStopping pq r p \<Rightarrow> agentStopped cfg pq r p sig st
      | PauseCapturing pq r p \<Rightarrow> captured pq p sig st
      | PausePublishing p \<Rightarrow> pauseReported p sig st
      | PauseHeartbeat p \<Rightarrow> pauseEnded p sig st
      | PauseOuter key p \<Rightarrow> pauseOuter key p st
      | Negotiating \<Rightarrow> negotiated sig st
      | Connecting k \<Rightarrow> connected k sig st
      | Subscribing k \<Rightarrow> subscribed k sig st
      | HeartbeatStarting \<Rightarrow> heartbeatStarted sig st
      | StoppingAll \<Rightarrow> stopped sig st)"

text \<open>
  The process: a worker that starts, commands that arrive in any order and any number of times, a timer for
  heartbeats, a stop, and any waiting handler that goes on.
\<close>

inductive sidecar_step :: "sidecar_config \<Rightarrow> sidecar \<times> sidecar_task list \<Rightarrow> sidecar \<times> sidecar_task list \<Rightarrow> bool" for cfg where
  start: "sidecar_step cfg (st, ts) (st, ts @ [Negotiating])"
| command: "sidecar_step cfg (st, ts) (st, ts @ [Delivered e])"
| beat: "sc_heartbeatTimer st \<Longrightarrow> sidecar_step cfg (st, ts) (publishHeartbeat st, ts)"
| stop: "stopDaemon cfg st = (new, st1) \<Longrightarrow> sidecar_step cfg (st, ts) (st1, ts @ new)"
| run: "n < length ts \<Longrightarrow> runTask cfg (ts ! n) sig st = Some (new, st1) \<Longrightarrow>
    sidecar_step cfg (st, ts) (st1, take n ts @ drop (Suc n) ts @ new)"

inductive_cases sidecar_stepE: "sidecar_step cfg s s1"

definition fresh_sidecar :: "(nat \<Rightarrow> string) \<Rightarrow> (nat \<Rightarrow> time) \<Rightarrow> sidecar" where
  "fresh_sidecar ids clock =
     \<lparr>sc_runs = [], sc_promises = [], sc_activeRuns = [], sc_inFlightPauses = [], sc_completedPauses = [],
      sc_heartbeatState = None, sc_heartbeatTimer = False, sc_connected = False, sc_sent = [], sc_calls = [],
      sc_uuid = ids, sc_clock = clock, sc_steps = 0\<rparr>"

definition sidecar_reachable :: "sidecar_config \<Rightarrow> sidecar \<times> sidecar_task list \<Rightarrow> bool" where
  "sidecar_reachable cfg s = (\<exists>ids clock. (sidecar_step cfg)\<^sup>*\<^sup>* (fresh_sidecar ids clock, []) s)"

end
