(* ===== verification/SidecarProps.thy ===== *)
theory SidecarProps
  imports Sidecar WorkerEvents
begin

text \<open>
  Properties of the sidecar daemon, over every reachable state of the process: what it reports, and what reaches the
  agent, however commands are repeated and handlers interleave.
\<close>

subsection \<open>Frames\<close>

named_theorems sd_simps \<open>which field of the sidecar's state a small step changes\<close>

lemma publish_frame [sd_simps]:
  "sc_runs (publishTenantEvent ty sid wid lease turn body st) = sc_runs st"
  "sc_promises (publishTenantEvent ty sid wid lease turn body st) = sc_promises st"
  "sc_activeRuns (publishTenantEvent ty sid wid lease turn body st) = sc_activeRuns st"
  "sc_completedPauses (publishTenantEvent ty sid wid lease turn body st) = sc_completedPauses st"
  "sc_calls (publishTenantEvent ty sid wid lease turn body st) = sc_calls st"
  by (simp_all add: publishTenantEvent_def)

lemma promise_frame [sd_simps]:
  "sc_runs (newPromise s st) = sc_runs st" "sc_runs (settle p s st) = sc_runs st"
  "sc_activeRuns (newPromise s st) = sc_activeRuns st" "sc_activeRuns (settle p s st) = sc_activeRuns st"
  "sc_completedPauses (newPromise s st) = sc_completedPauses st" "sc_completedPauses (settle p s st) = sc_completedPauses st"
  "sc_calls (newPromise s st) = sc_calls st" "sc_calls (settle p s st) = sc_calls st"
  "sc_sent (newPromise s st) = sc_sent st" "sc_sent (settle p s st) = sc_sent st"
  "sc_promises (newPromise s st) = sc_promises st @ [s]" "sc_promises (settle p s st) = (sc_promises st)[p := s]"
  by (simp_all add: newPromise_def settle_def)

lemma update_frame [sd_simps]:
  "sc_promises (updateRun r f st) = sc_promises st" "sc_activeRuns (updateRun r f st) = sc_activeRuns st"
  "sc_completedPauses (updateRun r f st) = sc_completedPauses st" "sc_calls (updateRun r f st) = sc_calls st"
  "sc_sent (updateRun r f st) = sc_sent st" "sc_runs (updateRun r f st) = (sc_runs st)[r := f (sc_runs st ! r)]"
  by (simp_all add: updateRun_def)

lemma called_frame [sd_simps]:
  "sc_runs (called c st) = sc_runs st" "sc_promises (called c st) = sc_promises st"
  "sc_activeRuns (called c st) = sc_activeRuns st" "sc_completedPauses (called c st) = sc_completedPauses st"
  "sc_sent (called c st) = sc_sent st" "sc_calls (called c st) = sc_calls st @ [c]"
  by (simp_all add: called_def)

lemmas report_defs = publishCommandRejected_def publishCommandAccepted_def statusReport_def turnReport_def publishCompletedPause_def

lemma reports_frame [sd_simps]:
  "sc_runs (publishHeartbeat st) = sc_runs st" "sc_promises (publishHeartbeat st) = sc_promises st"
  "sc_activeRuns (publishHeartbeat st) = sc_activeRuns st" "sc_completedPauses (publishHeartbeat st) = sc_completedPauses st"
  "sc_calls (publishHeartbeat st) = sc_calls st"
  by (simp_all add: publishHeartbeat_def sd_simps split: option.splits)

lemma agentEvent_frame [sd_simps]:
  "sc_runs (onAgentEvent ic ev st) = sc_runs st" "sc_promises (onAgentEvent ic ev st) = sc_promises st"
  "sc_activeRuns (onAgentEvent ic ev st) = sc_activeRuns st" "sc_completedPauses (onAgentEvent ic ev st) = sc_completedPauses st"
  "sc_calls (onAgentEvent ic ev st) = sc_calls st"
  by (auto simp: onAgentEvent_def publishRuntimeToolRequest_def report_defs sd_simps Let_def bind_eq_Some_conv
      split: agent_event.splits option.splits if_splits)

lemma fold_called [sd_simps]:
  "sc_runs (fold (\<lambda>r. called (f r)) rs st) = sc_runs st" "sc_promises (fold (\<lambda>r. called (f r)) rs st) = sc_promises st"
  "sc_activeRuns (fold (\<lambda>r. called (f r)) rs st) = sc_activeRuns st"
  "sc_completedPauses (fold (\<lambda>r. called (f r)) rs st) = sc_completedPauses st"
  "sc_sent (fold (\<lambda>r. called (f r)) rs st) = sc_sent st" "sc_calls (fold (\<lambda>r. called (f r)) rs st) = sc_calls st @ map f rs"
  by (induction rs arbitrary: st) (simp_all add: sd_simps)

text \<open>A waiting handler is taken out of the pool and what it continues with put in.\<close>

lemma pool_split: "n < length ts \<Longrightarrow> \<exists>xs ys. ts = xs @ ts ! n # ys \<and> take n ts @ drop (Suc n) ts = xs @ ys"
  by (metis id_take_nth_drop)

lemma sidecar_reachable_induct:
  assumes "sidecar_reachable cfg s" and "\<And>ids clock. I (fresh_sidecar ids clock) []"
    and "\<And>st ts st1 ts1. I st ts \<Longrightarrow> sidecar_step cfg (st, ts) (st1, ts1) \<Longrightarrow> I st1 ts1"
  shows "I (fst s) (snd s)"
proof -
  obtain ids clock where "(sidecar_step cfg)\<^sup>*\<^sup>* (fresh_sidecar ids clock, []) s"
    using assms(1) by (auto simp: sidecar_reachable_def)
  then show ?thesis
  proof (induction rule: rtranclp_induct)
    case (step s1 s2)
    then show ?case using assms(3) [of "fst s1" "snd s1" "fst s2" "snd s2"] by simp
  qed (simp add: assms(2))
qed

text \<open>What holds of the handlers and the state a step ends in, if it can be taken.\<close>

definition leads :: "(sidecar_task list \<Rightarrow> sidecar \<Rightarrow> bool) \<Rightarrow> continued \<Rightarrow> bool" where
  "leads P c = (case c of None \<Rightarrow> True | Some (new, st) \<Rightarrow> P new st)"

lemma leads_simps [simp]: "leads P None" "leads P (Some (new, st)) = P new st" "leads P (threw st) = P [] st"
  by (simp_all add: leads_def threw_def)

lemma leadsD: "leads P c \<Longrightarrow> c = Some (new, st) \<Longrightarrow> P new st"
  by (simp add: leads_def)

lemma leads_awaited: "leads P a \<Longrightarrow> (\<And>m. leads P (b m)) \<Longrightarrow> leads P (awaited sig a b)"
  by (simp add: awaited_def split: sidecar_signal.splits)

lemma leads_fenced:
  assumes "\<And>own. P [] (publishCommandRejected e ''unknown_session'' None own st)"
    and "\<And>own got. P [] (publishCommandRejected e ''stale_session_lease'' own got st)"
    and "\<And>r. activeRun sid st = Some r \<Longrightarrow> ar_sessionLeaseId (the_run r st) = lease \<Longrightarrow>
          ev_sessionLeaseId e = Some lease \<Longrightarrow> leads P (f r)"
  shows "leads P (fenced e sid lease st f)"
  using assms by (auto simp: fenced_def Let_def split: option.splits)

text \<open>A run of the process as a script: a command arrives, or the \<open>n\<close>-th waiting handler goes on.\<close>

datatype happening = Arrives runtime_event | Continues nat sidecar_signal

fun play :: "sidecar_config \<Rightarrow> happening list \<Rightarrow> sidecar \<times> sidecar_task list \<Rightarrow> (sidecar \<times> sidecar_task list) option" where
  "play cfg [] s = Some s"
| "play cfg (Arrives e # hs) (st, ts) = play cfg hs (st, ts @ [Delivered e])"
| "play cfg (Continues n sig # hs) (st, ts) =
     (if n < length ts
      then (case runTask cfg (ts ! n) sig st of
              None \<Rightarrow> None
            | Some (new, st1) \<Rightarrow> play cfg hs (st1, take n ts @ drop (Suc n) ts @ new))
      else None)"

lemma play_steps: "play cfg hs s = Some s1 \<Longrightarrow> (sidecar_step cfg)\<^sup>*\<^sup>* s s1"
proof (induction cfg hs s rule: play.induct)
  case (2 cfg e hs st ts)
  then show ?case by (auto intro: converse_rtranclp_into_rtranclp sidecar_step.command)
next
  case (3 cfg n sig hs st ts)
  then show ?case
    by (auto split: if_splits option.splits prod.splits intro: converse_rtranclp_into_rtranclp sidecar_step.run)
qed simp

lemma play_reachable: "play cfg hs (fresh_sidecar ids clock, []) = Some s \<Longrightarrow> sidecar_reachable cfg s"
  unfolding sidecar_reachable_def using play_steps by blast

definition ex_sidecar_config :: sidecar_config where
  "ex_sidecar_config = \<lparr>sd_mount = (\<lambda>a b. Some (a, b)), sd_responds = True, sd_pauses = True, sd_stops = True, sd_sha = (\<lambda>s. s)\<rparr>"

definition ex_sidecar :: sidecar where
  "ex_sidecar = fresh_sidecar (\<lambda>n. replicate n CHR ''u'') int"

definition ex_command :: "string \<Rightarrow> string \<Rightarrow> event_type \<Rightarrow> (string \<times> json option) list \<Rightarrow> runtime_event" where
  "ex_command lease eid ty kvs =
     \<lparr>ev_eventId = eid, ev_sessionId = Some ''s1'', ev_workerId = Some ''k1'', ev_ackId = None, ev_turnSeq = None, ev_sequence = 1,
      ev_type = ty, ev_timestamp = 0, ev_actor = CentralActor, ev_sessionLeaseId = Some lease,
      ev_payload = JsonPayload (jobj ([(''sessionId'', Some (JStr ''s1'')), (''workerId'', Some (JStr ''k1'')),
        (''sessionLeaseId'', Some (JStr lease))] @ kvs))\<rparr>"

definition ex_assign :: "string \<Rightarrow> runtime_event" where
  "ex_assign lease = ex_command lease ''c1'' SessionAssign
     [(''workspaceRef'', Some (JStr ''w'')), (''copilotSessionStateRef'', Some (JStr ''c'')),
      (''resolvedAgentSpec'', Some (JObj [(''agentSpecId'', JStr ''a''), (''runtimeTools'', JArr [])]))]"

definition ex_input :: "string \<Rightarrow> runtime_event" where
  "ex_input eid = ex_command ''l1'' eid SessionInput
     [(''turnSeq'', Some (JNum 1)), (''input'', Some (JObj [(''message'', JStr ''go'')]))]"

text \<open>The session is assigned and ready, and an input of it has arrived twice.\<close>

definition ex_started :: "happening list" where
  "ex_started = [Arrives (ex_assign ''l1''), Continues 0 Wake, Continues 0 Resolved, Continues 0 Wake]"

definition ex_twice :: "happening list" where
  "ex_twice = ex_started @ [Arrives (ex_input ''c2''), Arrives (ex_input ''c2''), Continues 0 Wake, Continues 0 Wake,
     Continues 0 Wake, Continues 0 Wake, Continues 0 Resolved]"

subsection \<open>What the daemon reports\<close>

definition own_reports :: "event_type set" where
  "own_reports = {StatusChanged, TurnCompleted, TurnFailed, WorkerCommandAccepted, WorkerCommandRejected, SessionPaused, WorkerHeartbeat}"

definition report_read :: "runtime_event \<Rightarrow> bool" where
  "report_read e =
     (case ev_type e of
        WorkerHeartbeat \<Rightarrow>
          (case parseWorkerHeartbeatPayload (jsonBody (ev_payload e)) of
             None \<Rightarrow> False
           | Some h \<Rightarrow> ev_workerId e = Some (wh_workerId h) \<and> 0 \<le> wh_allocatable h \<and> wh_allocatable h \<le> max 0 (wh_capacity h)
               \<and> wh_conditions h = [if wh_allocatable h > 0 then Ready else Busy])
      | ty \<Rightarrow> storedPayload ty (jsonBody (ev_payload e)) \<noteq> None)"

definition input_conflict :: "runtime_event \<Rightarrow> bool" where
  "input_conflict e = (Option.bind (jsonBody (ev_payload e)) (jfield ''reason'') = Some (JStr ''turn_input_conflict''))"

definition reports_ok :: "sidecar \<Rightarrow> bool" where
  "reports_ok st =
     ((\<forall>e \<in> set (sc_sent st). ev_type e \<in> own_reports \<longrightarrow> report_read e \<or> input_conflict e)
      \<and> (\<forall>c \<in> set (sc_completedPauses st). parseSessionPausedPayload (Some (cp_payload (snd c))) \<noteq> None))"

lemma reports_ok_publish:
  "reports_ok (publishTenantEvent ty sid wid lease turn body st) \<longleftrightarrow>
     reports_ok st \<and> (ty \<in> own_reports \<longrightarrow>
       report_read \<lparr>ev_eventId = sc_uuid st (sc_steps st), ev_sessionId = sid, ev_workerId = wid, ev_ackId = None,
          ev_turnSeq = turn, ev_sequence = 0, ev_type = ty, ev_timestamp = sc_clock st (sc_steps st), ev_actor = SidecarActor,
          ev_sessionLeaseId = lease, ev_payload = JsonPayload body\<rparr>
       \<or> jfield ''reason'' body = Some (JStr ''turn_input_conflict''))"
  by (auto simp: reports_ok_def publishTenantEvent_def input_conflict_def)

lemma reports_ok_frames:
  "reports_ok (newPromise s st) = reports_ok st" "reports_ok (settle p s st) = reports_ok st"
  "reports_ok (updateRun r f st) = reports_ok st" "reports_ok (called c st) = reports_ok st"
  "reports_ok (fold (\<lambda>r. called (g r)) rs st) = reports_ok st"
  by (simp_all add: reports_ok_def sd_simps)

lemma own_report_types [simp]:
  "AgentOutput \<notin> own_reports" "RuntimeToolRequested \<notin> own_reports" "AgentInteractionRequested \<notin> own_reports"
  by (simp_all add: own_reports_def)

lemma reports_ok_status:
  "reports_ok st \<Longrightarrow> reports_ok (statusReport ac (jobj [(''status'', Some (JStr ''running''))]) st)"
  "reports_ok st \<Longrightarrow> reports_ok (statusReport ac (jobj [(''status'', Some (JStr ''failed'')), (''reason'', Some (JStr msg))]) st)"
  by (simp_all add: statusReport_def reports_ok_publish report_read_def storedPayload_def parseStatusChangedPayload_def Let_def)

lemma reports_ok_turn:
  "reports_ok st \<Longrightarrow> reports_ok (turnReport AgentOutput ic body st)"
  "reports_ok st \<Longrightarrow> reports_ok (turnReport RuntimeToolRequested ic body st)"
  "reports_ok st \<Longrightarrow> reports_ok (turnReport AgentInteractionRequested ic body st)"
  "reports_ok st \<Longrightarrow> reports_ok (turnReport TurnCompleted ic (jobj [(''result'', Some (jobj kvs))]) st)"
  "reports_ok st \<Longrightarrow> reports_ok (turnReport TurnFailed ic (error_body msg) st)"
  by (simp_all add: turnReport_def reports_ok_publish report_read_def storedPayload_def parseTurnCompletedPayload_def
      parseTurnFailedPayload_def error_body_def Let_def)

lemma reports_ok_commands:
  "reports_ok st \<Longrightarrow> reports_ok (publishCommandAccepted e turn st)"
  "reports_ok st \<Longrightarrow> reason \<in> {''unknown_session'', ''stale_session_lease'', ''agent_not_running'', ''turn_input_conflict''} \<Longrightarrow>
    reports_ok (publishCommandRejected e reason expected received st)"
  by (auto simp: publishCommandAccepted_def publishCommandRejected_def reports_ok_publish report_read_def storedPayload_def
      parseWorkerCommandAcceptedPayload_def parseWorkerCommandRejectedPayload_def is_string_def Let_def)

lemma reports_ok_heartbeat: "reports_ok st \<Longrightarrow> reports_ok (publishHeartbeat st)"
  by (auto simp: publishHeartbeat_def heartbeat_body_def reports_ok_publish report_read_def parseWorkerHeartbeatPayload_def Let_def
      split: option.splits)

text \<open>A pause command that got past the parser has a reason central knows.\<close>

definition reason_ok :: "pause_command \<Rightarrow> bool" where
  "reason_ok pq = (pq_reason pq \<in> insert None (Some ` set pause_reasons))"

fun pausing :: "sidecar_task \<Rightarrow> pause_command option" where
  "pausing (PauseWaiting pq r p) = Some pq"
| "pausing (PauseBoundary pq r p) = Some pq"
| "pausing (PauseStopping pq r p) = Some pq"
| "pausing (PauseCapturing pq r p) = Some pq"
| "pausing _ = None"

definition pause_tasks_ok :: "sidecar_task list \<Rightarrow> bool" where
  "pause_tasks_ok ts = (\<forall>t \<in> set ts. \<forall>pq. pausing t = Some pq \<longrightarrow> reason_ok pq)"

lemma pause_tasks_simps [simp]:
  "pause_tasks_ok []" "pause_tasks_ok (t # ts) \<longleftrightarrow> (\<forall>pq. pausing t = Some pq \<longrightarrow> reason_ok pq) \<and> pause_tasks_ok ts"
  "pause_tasks_ok (ts @ ts1) \<longleftrightarrow> pause_tasks_ok ts \<and> pause_tasks_ok ts1"
  by (auto simp: pause_tasks_ok_def)

definition reports_inv :: "sidecar_task list \<Rightarrow> sidecar \<Rightarrow> bool" where
  "reports_inv ts st = (pause_tasks_ok ts \<and> reports_ok st)"

lemma parsePart_json: "parsePart (part_json p) = Some p"
  by (cases p) (simp_all add: part_json_def)

lemma parseParts_json: "parseParts (map part_json ps) = Some ps"
  by (induction ps) (simp_all add: parsePart_json)

lemma snapshot_body_read: "reason_ok pq \<Longrightarrow> parseSessionPausedPayload (Some (snapshot_body sn pq)) \<noteq> None"
  by (cases sn)
     (auto simp: reason_ok_def snapshot_body_def parseSessionPausedPayload_def parseSnapshotReport_def parseParts_json is_string_def Let_def)

lemma reports_ok_paused:
  "reports_ok st \<Longrightarrow> parseSessionPausedPayload (Some (cp_payload c)) \<noteq> None \<Longrightarrow> reports_ok (publishCompletedPause c st)"
  by (auto simp: publishCompletedPause_def reports_ok_publish report_read_def storedPayload_def)

lemma set_tput: "e \<in> set (tput k r t) \<Longrightarrow> e \<in> set t \<or> e = (k, r)"
  unfolding tput_def by (induction t) (auto split: if_splits)

lemma finishPause_inv: "reports_ok st \<Longrightarrow> reason_ok pq \<Longrightarrow> leads reports_inv (finishPause pq p sn st)"
  unfolding finishPause_def Let_def leads_simps reports_inv_def
  by (intro conjI reports_ok_paused)
     (use snapshot_body_read [of pq sn] in \<open>auto simp: reports_ok_def dest!: set_tput\<close>)

lemma parsePause_reason: "parsePausePayload b = Some pq \<Longrightarrow> reason_ok pq"
  by (auto simp: parsePausePayload_def reason_ok_def Let_def split: option.splits if_splits)

lemmas reports_kept = reports_ok_status reports_ok_turn reports_ok_commands reports_ok_heartbeat reports_ok_frames

lemma handle_reports:
  assumes ok: "reports_ok st"
  shows "leads reports_inv (handleWorkerCommand cfg e st)"
proof -
  have rejected: "reports_inv [] (publishCommandRejected e ''unknown_session'' None own st)"
    "reports_inv [] (publishCommandRejected e ''stale_session_lease'' exp own st)" for own exp
    using ok by (simp_all add: reports_inv_def reports_kept)
  have "reports_ok (st\<lparr>sc_completedPauses := filter P (sc_completedPauses st)\<rparr>)" for P
    using ok by (auto simp: reports_ok_def)
  moreover have "reports_ok (st1\<lparr>sc_runs := x, sc_activeRuns := y\<rparr>) = reports_ok st1" for st1 x y
    by (simp add: reports_ok_def)
  ultimately have assign: "leads reports_inv (handleAssign cfg e st)"
    using ok by (auto simp: handleAssign_def reports_inv_def startAgent_def reports_ok_frames Let_def split: option.splits prod.splits)
  have pause: "leads reports_inv (handlePause e st)"
  proof -
    have "reports_ok (publishCompletedPause c st)" if "tget (sc_completedPauses st) k = Some c" for k c
      using ok that by (intro reports_ok_paused) (auto simp: reports_ok_def tget_def dest!: map_of_SomeD)
    moreover have "reports_ok (newPromise s st\<lparr>sc_inFlightPauses := x\<rparr>)" for s x
      using ok by (simp add: reports_ok_def newPromise_def)
    ultimately show ?thesis
      using ok by (auto simp: handlePause_def Let_def reports_inv_def parsePause_reason split: option.splits
          intro!: leads_fenced rejected)
  qed
  have input: "leads reports_inv (handleInput e st)"
    using ok by (auto simp: handleInput_def reports_inv_def split: option.splits intro!: leads_fenced rejected)
  have answer: "leads reports_inv (handleInteractionResponse cfg e st)"
    using ok by (auto simp: handleInteractionResponse_def reports_inv_def reports_kept Let_def split: option.splits
        intro!: leads_fenced rejected)
  have tool: "leads reports_inv (handleRuntimeToolResponse cfg e st)"
    using ok by (auto simp: handleRuntimeToolResponse_def reports_inv_def reports_kept Let_def split: option.splits
        intro!: leads_fenced rejected)
  have idle: "leads reports_inv (threw st)" "leads reports_inv (done_with st)" using ok by (simp_all add: reports_inv_def)
  show ?thesis
    unfolding handleWorkerCommand_def using assign pause input answer tool idle by (cases "ev_type e") simp_all
qed

lemma turnError_reports: "reports_ok st \<Longrightarrow> leads reports_inv (turnError ic m st)"
  by (simp add: turnError_def reports_inv_def reports_kept)

lemma agentEvent_reports: "reports_ok st \<Longrightarrow> reports_ok (onAgentEvent ic ev st)"
  by (auto simp: onAgentEvent_def publishRuntimeToolRequest_def reports_kept Let_def bind_eq_Some_conv
      split: agent_event.splits option.splits if_splits)

lemma reports_ok_states:
  "reports_ok (st\<lparr>sc_activeRuns := x\<rparr>) = reports_ok st" "reports_ok (st\<lparr>sc_inFlightPauses := y\<rparr>) = reports_ok st"
  "reports_ok (st\<lparr>sc_connected := b\<rparr>) = reports_ok st" "reports_ok (st\<lparr>sc_heartbeatTimer := b\<rparr>) = reports_ok st"
  "reports_ok (st\<lparr>sc_heartbeatState := h\<rparr>) = reports_ok st" "reports_ok st \<Longrightarrow> reports_ok (clearAll st)"
  by (simp_all add: reports_ok_def clearAll_def)

lemma runTask_reports:
  assumes ok: "reports_ok st" and t: "\<forall>pq. pausing t = Some pq \<longrightarrow> reason_ok pq"
  shows "leads reports_inv (runTask cfg t sig st)"
proof -
  have failed: "leads reports_inv (pauseFailed p m st)" for p m
    using ok by (simp add: pauseFailed_def reports_inv_def reports_kept)
  have shared: "leads reports_inv (responseShared e p st)" "leads reports_inv (pauseShared p st)"
     "leads reports_inv (responding e r p sig st)" for e p r
    using ok by (auto simp: responseShared_def pauseShared_def responding_def responseDone_def responded_def reports_inv_def reports_kept
        split: promise_state.splits sidecar_signal.splits)
  have pauses: "leads reports_inv (pauseReady cfg pq r p st)" "leads reports_inv (atBoundary cfg pq r p sig st)"
     "leads reports_inv (agentStopped cfg pq r p sig st)" "leads reports_inv (captured pq p sig st)" if "reason_ok pq" for pq r p
    using ok failed that finishPause_inv [OF ok that]
    by (auto simp: pauseReady_def atBoundary_def agentStopped_def captured_def reports_inv_def reports_kept
        intro!: leads_awaited split: promise_state.splits sidecar_signal.splits option.splits prod.splits)
  have turns: "leads reports_inv (runTurn ic r sig st)" "leads reports_inv (turnReported ic sig st)"
     "leads reports_inv (turnErrorReported ic m sig st)" for ic r m
    using ok turnError_reports [OF ok] agentEvent_reports [OF ok]
    by (auto simp: runTurn_def turnReported_def turnErrorReported_def reports_inv_def reports_kept
        intro!: leads_awaited split: sidecar_signal.splits)
  have inputs: "leads reports_inv (inputReady cfg e ic r st)" "leads reports_inv (inputAcknowledged ic r sig st)" for e ic r
    using ok by (auto simp: inputReady_def inputAcknowledged_def reports_inv_def reports_kept Let_def
        intro!: leads_awaited split: promise_state.splits option.splits prod.splits)
  have assigns: "leads reports_inv (restored p m ac sig st)" "leads reports_inv (agentStarted p sig st)"
     "leads reports_inv (assignReady ac p st)" "leads reports_inv (assignReported ac msg sig st)" for p m ac msg
    using ok by (auto simp: restored_def agentStarted_def assignReady_def assignReported_def startAgent_def reports_inv_def
        reports_kept reports_ok_states reports_ok_publish intro!: leads_awaited split: promise_state.splits)
  have rest: "leads reports_inv (negotiated sig st)" "leads reports_inv (connected k sig st)" "leads reports_inv (subscribed k sig st)"
     "leads reports_inv (heartbeatStarted sig st)" "leads reports_inv (stopped sig st)" "leads reports_inv (pauseReported p sig st)"
     "leads reports_inv (pauseEnded p sig st)" "leads reports_inv (pauseOuter key p st)" for k p key
    using ok failed by (auto simp: negotiated_def connected_def subscribed_def heartbeatStarted_def stopped_def pauseReported_def
        pauseEnded_def pauseOuter_def startHeartbeat_def stopHeartbeat_def reports_inv_def reports_kept reports_ok_states
        intro!: leads_awaited split: sidecar_signal.splits option.splits)
  show ?thesis
    unfolding runTask_def using t handle_reports [OF ok] shared pauses turns inputs assigns rest by (cases t) simp_all
qed

lemma sidecar_step_reports:
  assumes "reports_inv ts st" and "sidecar_step cfg (st, ts) (st1, ts1)"
  shows "reports_inv ts1 st1"
  using assms(2)
proof cases
  case (run n sig new)
  obtain xs ys where split: "ts = xs @ ts ! n # ys" "take n ts @ drop (Suc n) ts = xs @ ys" using pool_split [OF run(2)] by blast
  from assms(1) have ok: "reports_ok st" "pause_tasks_ok (xs @ ts ! n # ys)" using split(1) by (simp_all add: reports_inv_def)
  then have "\<forall>pq. pausing (ts ! n) = Some pq \<longrightarrow> reason_ok pq" by simp
  from leadsD [OF runTask_reports [OF ok(1) this] run(3)] ok(2) have "reports_inv ((xs @ ys) @ new) st1"
    by (simp add: reports_inv_def)
  then show ?thesis unfolding run(1) split(2) [symmetric] by simp
qed (use assms(1) in \<open>auto simp: reports_inv_def stopDaemon_def stopHeartbeat_def reports_kept reports_ok_states Let_def
      split: if_splits\<close>)

text \<open>
  C27: Central reads what the daemon reports. Whatever commands arrive, however often and in whatever order, and
  whatever the adapters answer: every event of the daemon's own making (heartbeats, accepted and rejected commands,
  started, failed and paused sessions, completed and failed turns) has a payload that the parser of central's
  controller for it accepts, except a rejection for conflicting input; and a heartbeat never offers less than no place
  or more than the worker's capacity, and says ready exactly when a place is free.
\<close>

theorem sidecar_reports_are_read:
  assumes "sidecar_reachable cfg (st, ts)" and "e \<in> set (sc_sent st)" and "ev_type e \<in> own_reports"
  shows "report_read e \<or> input_conflict e"
proof -
  have "reports_inv (snd (st, ts)) (fst (st, ts))"
  proof (rule sidecar_reachable_induct [OF assms(1)])
    show "reports_inv [] (fresh_sidecar ids clock)" for ids clock
      by (simp add: reports_inv_def reports_ok_def fresh_sidecar_def)
  qed (rule sidecar_step_reports)
  with assms(2,3) show ?thesis by (simp add: reports_inv_def reports_ok_def)
qed

lemma sidecar_reports_are_read_witness:
  "\<exists>st ts e. play ex_sidecar_config ex_twice (ex_sidecar, []) = Some (st, ts) \<and> sc_sent st ! 0 = e
     \<and> ev_type e = StatusChanged \<and> (report_read e \<or> input_conflict e)"
proof -
  have "case play ex_sidecar_config ex_twice (ex_sidecar, []) of
      None \<Rightarrow> False | Some (st, ts) \<Rightarrow> 0 < length (sc_sent st) \<and> ev_type (sc_sent st ! 0) = StatusChanged" by code_simp
  then obtain st ts where run: "play ex_sidecar_config ex_twice (ex_sidecar, []) = Some (st, ts)"
    and e: "0 < length (sc_sent st)" "ev_type (sc_sent st ! 0) = StatusChanged" by (auto split: option.splits)
  from run have "sidecar_reachable ex_sidecar_config (st, ts)" unfolding ex_sidecar_def by (rule play_reachable)
  from sidecar_reports_are_read [OF this, of "sc_sent st ! 0"] e run show ?thesis
    by (simp add: own_reports_def)
qed

end
