(* ===== verification/SidecarTurns.thy ===== *)
theory SidecarTurns
  imports SidecarProps
begin

text \<open>
  What reaches the agent: the input of a turn at most once for each run of a session, under the run's own lease.
\<close>

subsection \<open>Sent and due inputs\<close>

fun sent_input :: "adapter_call \<Rightarrow> (nat \<times> turn_command) option" where
  "sent_input (SendCall r ic) = Some (r, ic)"
| "sent_input _ = None"

definition sends :: "sidecar \<Rightarrow> (nat \<times> turn_command) list" where
  "sends st = List.map_filter sent_input (sc_calls st)"

text \<open>An input whose acceptance is being published is sent next.\<close>

fun due_input :: "sidecar_task \<Rightarrow> (nat \<times> turn_command) option" where
  "due_input (InputAcknowledging ic r) = Some (r, ic)"
| "due_input _ = None"

definition due :: "sidecar_task list \<Rightarrow> (nat \<times> turn_command) list" where
  "due ts = List.map_filter due_input ts"

lemma due_simps [simp]:
  "due [] = []" "due (t # ts) = (case due_input t of None \<Rightarrow> due ts | Some x \<Rightarrow> x # due ts)" "due (ts @ ts1) = due ts @ due ts1"
  by (simp_all add: due_def List.map_filter_def split: option.splits)

lemma sends_frames [sd_simps]:
  "sends (publishTenantEvent ty sid wid lease turn body st) = sends st" "sends (newPromise s st) = sends st"
  "sends (settle p s st) = sends st" "sends (updateRun r f st) = sends st" "sends (publishHeartbeat st) = sends st"
  "sends (onAgentEvent ic ev st) = sends st"
  by (simp_all add: sends_def sd_simps)

lemma sends_called [sd_simps]: "sends (called c st) = sends st @ (case sent_input c of None \<Rightarrow> [] | Some x \<Rightarrow> [x])"
  by (simp add: sends_def sd_simps List.map_filter_def split: option.splits)

definition addressed :: "turn_command \<Rightarrow> active_run \<Rightarrow> bool" where
  "addressed ic a = (ic_sessionId ic = ar_sessionId a \<and> ic_sessionLeaseId ic = ar_sessionLeaseId a)"

definition recorded :: "sidecar_config \<Rightarrow> sidecar \<Rightarrow> nat \<times> turn_command \<Rightarrow> bool" where
  "recorded cfg st x = (fst x < length (sc_runs st) \<and> addressed (snd x) (the_run (fst x) st)
     \<and> (\<exists>c. tget (ar_acceptedInputs (the_run (fst x) st)) (ic_turnSeq (snd x)) = Some (input_digest cfg (snd x), c)))"

definition turn_of :: "nat \<times> turn_command \<Rightarrow> nat \<times> int" where
  "turn_of x = (fst x, ic_turnSeq (snd x))"

subsection \<open>Runs keep what identifies them\<close>

definition runs_grow :: "sidecar \<Rightarrow> sidecar \<Rightarrow> bool" where
  "runs_grow st st1 = (length (sc_runs st) \<le> length (sc_runs st1) \<and> (\<forall>r < length (sc_runs st).
     ar_sessionId (the_run r st1) = ar_sessionId (the_run r st) \<and> ar_sessionLeaseId (the_run r st1) = ar_sessionLeaseId (the_run r st)
     \<and> (\<forall>k v. tget (ar_acceptedInputs (the_run r st)) k = Some v \<longrightarrow> tget (ar_acceptedInputs (the_run r st1)) k = Some v)))"

lemma grow_same: "sc_runs st1 = sc_runs st \<Longrightarrow> runs_grow st st1"
  by (simp add: runs_grow_def the_run_def)

lemma grow_new: "sc_runs st1 = sc_runs st @ [a] \<Longrightarrow> runs_grow st st1"
  by (simp add: runs_grow_def the_run_def nth_append)

lemma grow_update:
  assumes "sc_runs st1 = (sc_runs st)[r := f (sc_runs st ! r)]"
    and "\<And>a. ar_sessionId (f a) = ar_sessionId a" "\<And>a. ar_sessionLeaseId (f a) = ar_sessionLeaseId a"
    and "\<And>k v. tget (ar_acceptedInputs (sc_runs st ! r)) k = Some v \<Longrightarrow> tget (ar_acceptedInputs (f (sc_runs st ! r))) k = Some v"
  shows "runs_grow st st1"
  using assms by (cases "r < length (sc_runs st)") (auto simp: runs_grow_def the_run_def nth_list_update)

lemma recorded_grow: "runs_grow st st1 \<Longrightarrow> recorded cfg st x \<Longrightarrow> recorded cfg st1 x"
  unfolding runs_grow_def recorded_def addressed_def by force

lemma grow_trans: "runs_grow st st1 \<Longrightarrow> runs_grow st1 st2 \<Longrightarrow> runs_grow st st2"
  by (auto simp: runs_grow_def)

definition active_ok :: "sidecar \<Rightarrow> bool" where
  "active_ok st = (\<forall>e \<in> set (sc_activeRuns st). snd e < length (sc_runs st) \<and> ar_sessionId (the_run (snd e) st) = fst e)"

lemma active_run_ok: "active_ok st \<Longrightarrow> activeRun sid st = Some r \<Longrightarrow> r < length (sc_runs st) \<and> ar_sessionId (the_run r st) = sid"
  by (auto simp: active_ok_def activeRun_def tget_def dest!: map_of_SomeD)

lemma active_grow:
  "active_ok st \<Longrightarrow> runs_grow st st1 \<Longrightarrow> set (sc_activeRuns st1) \<subseteq> set (sc_activeRuns st) \<Longrightarrow> active_ok st1"
  unfolding active_ok_def runs_grow_def by (metis order_less_le_trans subsetD)

fun waits_ok :: "sidecar \<Rightarrow> sidecar_task \<Rightarrow> bool" where
  "waits_ok st (InputWaiting e ic r) = (r < length (sc_runs st) \<and> addressed ic (the_run r st))"
| "waits_ok st _ = True"

lemma waits_grow: "runs_grow st st1 \<Longrightarrow> waits_ok st t \<Longrightarrow> waits_ok st1 t"
  by (cases t) (auto simp: runs_grow_def addressed_def)

subsection \<open>One step\<close>

text \<open>A step that neither sends an input nor makes one due.\<close>

definition quiet :: "sidecar \<Rightarrow> sidecar_task list \<Rightarrow> sidecar \<Rightarrow> bool" where
  "quiet st new st1 = (runs_grow st st1 \<and> set (sc_activeRuns st1) \<subseteq> set (sc_activeRuns st) \<and> sends st1 = sends st
     \<and> due new = [] \<and> list_all (waits_ok st1) new)"

lemma quiet_same:
  "sc_runs st1 = sc_runs st \<Longrightarrow> set (sc_activeRuns st1) \<subseteq> set (sc_activeRuns st) \<Longrightarrow> sends st1 = sends st \<Longrightarrow> due new = [] \<Longrightarrow>
    list_all (waits_ok st1) new \<Longrightarrow> quiet st new st1"
  by (simp add: quiet_def grow_same)

lemma quiet_idle: "list_all (waits_ok st) new \<Longrightarrow> due new = [] \<Longrightarrow> quiet st new st"
  by (simp add: quiet_same)

lemma quiet_then:
  assumes "quiet st new st1" and "runs_grow st1 st2" and "set (sc_activeRuns st2) \<subseteq> set (sc_activeRuns st1)" and "sends st2 = sends st1"
  shows "quiet st new st2"
  using assms waits_grow [OF assms(2)] by (auto simp: quiet_def list_all_iff intro: grow_trans)

lemma quiet_frames:
  "quiet st new st1 \<Longrightarrow> quiet st new (publishTenantEvent ty sid wid lease turn body st1)"
  "quiet st new st1 \<Longrightarrow> quiet st new (publishHeartbeat st1)"
  "quiet st new st1 \<Longrightarrow> quiet st new (onAgentEvent ic ev st1)"
  "quiet st new st1 \<Longrightarrow> quiet st new (newPromise s st1)"
  "quiet st new st1 \<Longrightarrow> quiet st new (settle p s st1)"
  "quiet st new st1 \<Longrightarrow> sent_input c = None \<Longrightarrow> quiet st new (called c st1)"
  "quiet st new st1 \<Longrightarrow> quiet st new (st1\<lparr>sc_activeRuns := tdel k (sc_activeRuns st1)\<rparr>)"
  "quiet st new st1 \<Longrightarrow> quiet st new (st1\<lparr>sc_inFlightPauses := x\<rparr>)"
  "quiet st new st1 \<Longrightarrow> quiet st new (st1\<lparr>sc_completedPauses := y\<rparr>)"
  "quiet st new st1 \<Longrightarrow> quiet st new (st1\<lparr>sc_connected := b\<rparr>)"
  "quiet st new st1 \<Longrightarrow> quiet st new (st1\<lparr>sc_heartbeatTimer := b\<rparr>)"
  "quiet st new st1 \<Longrightarrow> quiet st new (st1\<lparr>sc_heartbeatState := h\<rparr>)"
  "quiet st new st1 \<Longrightarrow> quiet st new (clearAll st1)"
  by (auto elim!: quiet_then simp: sd_simps sends_def clearAll_def tdel_def List.map_filter_def intro!: grow_same)

lemma quiet_updateRun:
  assumes "quiet st new st1" and "\<And>a. ar_sessionId (f a) = ar_sessionId a" and "\<And>a. ar_sessionLeaseId (f a) = ar_sessionLeaseId a"
    and "\<And>a. ar_acceptedInputs (f a) = ar_acceptedInputs a"
  shows "quiet st new (updateRun r f st1)"
  using assms(1) by (rule quiet_then) (auto simp: sd_simps assms(2-4) intro!: grow_update)

lemma quiet_report:
  "quiet st new st1 \<Longrightarrow> quiet st new (publishCommandRejected e reason expected received st1)"
  "quiet st new st1 \<Longrightarrow> quiet st new (publishCommandAccepted e turn st1)"
  "quiet st new st1 \<Longrightarrow> quiet st new (publishCompletedPause c st1)"
  "quiet st new st1 \<Longrightarrow> quiet st new (turnReport ty ic body st1)"
  "quiet st new st1 \<Longrightarrow> quiet st new (statusReport ac body st1)"
  by (simp_all add: report_defs quiet_frames)

lemmas quiet_rules = quiet_frames quiet_updateRun quiet_report quiet_idle

definition moves :: "sidecar_config \<Rightarrow> sidecar \<Rightarrow> sidecar_task list \<Rightarrow> sidecar \<Rightarrow> bool" where
  "moves cfg st new st1 = (runs_grow st st1 \<and> active_ok st1 \<and> sends st1 = sends st \<and> list_all (waits_ok st1) new
     \<and> (due new = [] \<or> (\<exists>x. due new = [x] \<and> recorded cfg st1 x
          \<and> fst x < length (sc_runs st) \<and> tget (ar_acceptedInputs (the_run (fst x) st)) (ic_turnSeq (snd x)) = None)))"

lemma quiet_moves: "active_ok st \<Longrightarrow> quiet st new st1 \<Longrightarrow> moves cfg st new st1"
  unfolding quiet_def moves_def by (blast intro: active_grow)

lemma leads_mono: "leads P c \<Longrightarrow> (\<And>new st. P new st \<Longrightarrow> Q new st) \<Longrightarrow> leads Q c"
  by (auto simp: leads_def split: option.splits)

lemma handle_quiet:
  assumes "active_ok st"
  shows "leads (quiet st) (handleInput e st)" and "leads (quiet st) (handleInteractionResponse cfg e st)"
    and "leads (quiet st) (handleRuntimeToolResponse cfg e st)" and "leads (quiet st) (handlePause e st)"
proof -
  have "addressed ic (the_run r st) \<and> r < length (sc_runs st)"
    if "activeRun (ic_sessionId ic) st = Some r" "ar_sessionLeaseId (the_run r st) = ic_sessionLeaseId ic" for ic r
    using active_run_ok [OF assms that(1)] that(2) by (simp add: addressed_def)
  then show "leads (quiet st) (handleInput e st)"
    by (auto simp: handleInput_def intro!: leads_fenced quiet_rules split: option.splits)
  show "leads (quiet st) (handleInteractionResponse cfg e st)"
    by (auto simp: handleInteractionResponse_def Let_def intro!: leads_fenced quiet_rules split: option.splits)
  show "leads (quiet st) (handleRuntimeToolResponse cfg e st)"
    by (auto simp: handleRuntimeToolResponse_def Let_def intro!: leads_fenced quiet_rules split: option.splits)
  show "leads (quiet st) (handlePause e st)"
    by (auto simp: handlePause_def Let_def intro!: leads_fenced quiet_rules split: option.splits)
qed

lemma handleAssign_moves:
  assumes "active_ok st"
  shows "leads (moves cfg st) (handleAssign cfg e st)"
proof -
  let ?st1 = "\<lambda>P. st\<lparr>sc_completedPauses := filter P (sc_completedPauses st)\<rparr>"
  have quiet: "moves cfg st new (?st1 P)" if "new = []" for new P
    unfolding that by (rule quiet_moves [OF assms quiet_frames(9) [OF quiet_idle]]) simp_all
  have idle: "moves cfg st [] st" by (rule quiet_moves [OF assms quiet_idle]) simp_all
  have ready: "moves cfg st [t] (called c (newPromise Unsettled (?st1 P)))"
      "moves cfg st [t, AssignWaiting ac p] (called c (newPromise Unsettled (?st1 P))\<lparr>sc_runs := sc_runs st @ [new_run ac p m names],
         sc_activeRuns := tput (ac_sessionId ac) (length (sc_runs st)) (sc_activeRuns st)\<rparr>)"
    if "sent_input c = None" "due_input t = None" "\<And>s. waits_ok s t" for c P t ac p m names
  proof -
    show "moves cfg st [t] (called c (newPromise Unsettled (?st1 P)))"
      using that by (intro quiet_moves [OF assms]) (auto intro!: quiet_rules)
    let ?st2 = "called c (newPromise Unsettled (?st1 P))\<lparr>sc_runs := sc_runs st @ [new_run ac p m names],
         sc_activeRuns := tput (ac_sessionId ac) (length (sc_runs st)) (sc_activeRuns st)\<rparr>"
    have grow: "runs_grow st ?st2" by (rule grow_new) simp
    have "active_ok ?st2"
      unfolding active_ok_def
    proof
      fix x assume "x \<in> set (sc_activeRuns ?st2)"
      then consider "x \<in> set (sc_activeRuns st)" | "x = (ac_sessionId ac, length (sc_runs st))" by (auto dest: set_tput)
      then show "snd x < length (sc_runs ?st2) \<and> ar_sessionId (the_run (snd x) ?st2) = fst x"
      proof cases
        case 1
        with assms show ?thesis by (auto simp: active_ok_def the_run_def nth_append)
      qed (simp add: the_run_def new_run_def)
    qed
    with grow that show "moves cfg st [t, AssignWaiting ac p] ?st2"
      by (simp add: moves_def sends_def called_def newPromise_def List.map_filter_def)
  qed
  show ?thesis
    by (auto simp: handleAssign_def Let_def startAgent_def sd_simps intro!: quiet idle ready split: option.splits)
qed

lemma leads_quiet: "active_ok st \<Longrightarrow> leads (quiet st) c \<Longrightarrow> leads (moves cfg st) c"
  by (auto elim: leads_mono intro: quiet_moves)

lemma handleWorkerCommand_moves:
  assumes "active_ok st" shows "leads (moves cfg st) (handleWorkerCommand cfg e st)"
proof -
  have "moves cfg st [] st" by (rule quiet_moves [OF assms quiet_idle]) simp_all
  with assms handleAssign_moves [OF assms, of cfg e] show ?thesis
    by (cases "ev_type e") (simp_all add: handleWorkerCommand_def leads_quiet handle_quiet)
qed

text \<open>The step that accepts an input, and the step that sends it.\<close>

lemma inputReady_moves:
  assumes ok: "active_ok st" and w: "r < length (sc_runs st)" "addressed ic (the_run r st)"
  shows "leads (moves cfg st) (inputReady cfg e ic r st)"
proof (cases "promise (ar_ready (the_run r st)) st = Fulfilled \<and> tget (ar_acceptedInputs (the_run r st)) (ic_turnSeq ic) = None")
  case True
  let ?f = "\<lambda>a. a\<lparr>ar_acceptedInputs := tput (ic_turnSeq ic) (input_digest cfg ic, ev_eventId e) (ar_acceptedInputs a)\<rparr>"
  let ?st1 = "publishCommandAccepted e (ic_turnSeq ic) (updateRun r ?f st)"
  have runs: "sc_runs ?st1 = (sc_runs st)[r := ?f (sc_runs st ! r)]" by (simp add: report_defs sd_simps)
  have grow: "runs_grow st ?st1"
    using True by (intro grow_update [where f = ?f and r = r, OF runs]) (auto simp: tget_tput the_run_def)
  moreover have "active_ok ?st1" by (rule active_grow [OF ok grow]) (simp add: report_defs sd_simps)
  moreover have "recorded cfg ?st1 (r, ic)"
    using w by (simp add: recorded_def the_run_def runs addressed_def tget_tput)
  moreover have "sends ?st1 = sends st" by (simp add: report_defs sd_simps)
  ultimately show ?thesis using True w by (simp add: inputReady_def Let_def moves_def)
next
  case False
  have "leads (quiet st) (inputReady cfg e ic r st)"
    using False by (auto simp: inputReady_def Let_def intro!: quiet_rules split: promise_state.splits option.splits)
  with ok show ?thesis by (rule leads_quiet)
qed

lemma runTask_quiet:
  assumes "due_input t = None" and "\<And>e ic r. t \<noteq> InputWaiting e ic r" and "\<And>e. t \<noteq> Delivered e"
  shows "leads (quiet st) (runTask cfg t sig st)"
proof -
  have ends: "leads (quiet st) (pauseFailed p m st)" "leads (quiet st) (finishPause pq p sn st)" "leads (quiet st) (turnError ic m st)"
    for p m pq sn ic
    by (auto simp: pauseFailed_def finishPause_def turnError_def Let_def intro!: quiet_rules)
  note defs = restored_def agentStarted_def assignReady_def assignReported_def startAgent_def runTurn_def turnReported_def
    turnErrorReported_def responding_def responseDone_def responded_def responseShared_def pauseShared_def pauseReady_def atBoundary_def
    agentStopped_def captured_def pauseReported_def pauseEnded_def pauseOuter_def negotiated_def connected_def subscribed_def
    heartbeatStarted_def stopped_def startHeartbeat_def stopHeartbeat_def
  show ?thesis
    using assms unfolding runTask_def
    by (cases t) (auto simp: defs intro!: ends leads_awaited quiet_rules
        split: promise_state.splits sidecar_signal.splits option.splits prod.splits)
qed

lemma runTask_moves:
  assumes "active_ok st" and "waits_ok st t" and "due_input t = None"
  shows "leads (moves cfg st) (runTask cfg t sig st)"
proof (cases t)
  case (Delivered e)
  with handleWorkerCommand_moves [OF assms(1)] show ?thesis by (simp add: runTask_def)
next
  case (InputWaiting e ic r)
  with inputReady_moves [OF assms(1)] assms(2) show ?thesis by (simp add: runTask_def)
qed (use assms runTask_quiet [of t st cfg sig] leads_quiet in auto)

subsection \<open>The invariant\<close>

definition sends_inv :: "sidecar_config \<Rightarrow> sidecar_task list \<Rightarrow> sidecar \<Rightarrow> bool" where
  "sends_inv cfg ts st = (active_ok st \<and> list_all (waits_ok st) ts \<and> distinct (map turn_of (sends st @ due ts))
     \<and> list_all (recorded cfg st) (sends st @ due ts))"

lemma recorded_turn:
  "recorded cfg st x \<Longrightarrow> turn_of x = turn_of y \<Longrightarrow> tget (ar_acceptedInputs (the_run (fst y) st)) (ic_turnSeq (snd y)) \<noteq> None"
  by (auto simp: recorded_def turn_of_def)

lemma moves_inv:
  assumes inv: "sends_inv cfg (xs @ t # ys) st" and t: "due_input t = None" and m: "moves cfg st new st1"
  shows "sends_inv cfg ((xs @ ys) @ new) st1"
proof -
  let ?old = "sends st @ due (xs @ ys)"
  have old: "distinct (map turn_of ?old)" "\<forall>x \<in> set ?old. recorded cfg st x" "list_all (waits_ok st) (xs @ ys)"
    using inv t by (auto simp: sends_inv_def list_all_iff)
  have g: "runs_grow st st1" "sends st1 = sends st" "active_ok st1" "list_all (waits_ok st1) new"
    using m by (simp_all add: moves_def)
  have waits: "list_all (waits_ok st1) (xs @ ys)" using old(3) waits_grow [OF g(1)] by (auto simp: list_all_iff)
  have rec: "list_all (recorded cfg st1) ?old" using old(2) recorded_grow [OF g(1)] by (auto simp: list_all_iff)
  show ?thesis
  proof (cases "due new")
    case Nil
    with old(1) g waits rec show ?thesis by (simp add: sends_inv_def)
  next
    case (Cons x zs)
    with m have x: "due new = [x]" "recorded cfg st1 x"
      "tget (ar_acceptedInputs (the_run (fst x) st)) (ic_turnSeq (snd x)) = None"
      by (auto simp: moves_def)
    have "turn_of x \<notin> turn_of ` set ?old"
    proof
      assume "turn_of x \<in> turn_of ` set ?old"
      then obtain y where "y \<in> set ?old" "turn_of y = turn_of x" by (metis imageE)
      with old(2) recorded_turn [of cfg st y x] x(3) show False by blast
    qed
    with old(1) g waits rec x show ?thesis by (auto simp: sends_inv_def)
  qed
qed

lemma sent_inv:
  assumes inv: "sends_inv cfg (xs @ t # ys) st" and t: "t = InputAcknowledging ic r"
  shows "leads (\<lambda>new. sends_inv cfg ((xs @ ys) @ new)) (runTask cfg t sig st)"
proof -
  have grow: "runs_grow st (called (SendCall r ic) st)" by (rule grow_same) (simp add: sd_simps)
  have "sends_inv cfg ((xs @ ys) @ [TurnRunning ic r]) (called (SendCall r ic) st)"
    using inv t waits_grow [OF grow] recorded_grow [OF grow] active_grow [OF _ grow]
    by (auto simp: sends_inv_def sd_simps list_all_iff)
  moreover have "sends_inv cfg ((xs @ ys) @ []) st"
    using inv t by (auto simp: sends_inv_def)
  ultimately show ?thesis
    unfolding t runTask_def by (auto simp: inputAcknowledged_def intro!: leads_awaited)
qed

lemma sidecar_step_sends:
  assumes inv: "sends_inv cfg ts st" and "sidecar_step cfg (st, ts) (st1, ts1)"
  shows "sends_inv cfg ts1 st1"
  using assms(2)
proof cases
  case (run n sig new)
  obtain xs ys where split: "ts = xs @ ts ! n # ys" "take n ts @ drop (Suc n) ts = xs @ ys" using pool_split [OF run(2)] by blast
  with inv have inv1: "sends_inv cfg (xs @ ts ! n # ys) st" by simp
  have "sends_inv cfg ((xs @ ys) @ new) st1"
  proof (cases "due_input (ts ! n)")
    case None
    have "active_ok st" "waits_ok st (ts ! n)" using inv1 by (simp_all add: sends_inv_def)
    from leadsD [OF runTask_moves [OF this None] run(3)] moves_inv [OF inv1 None] show ?thesis by blast
  next
    case (Some x)
    then obtain ic r where "ts ! n = InputAcknowledging ic r" by (cases "ts ! n") auto
    from leadsD [OF sent_inv [OF inv1 this] run(3)] show ?thesis .
  qed
  then show ?thesis unfolding run(1) split(2) [symmetric] by simp
next
  case (stop new)
  have "quiet st new st1"
    using stop(2)
    by (auto simp: stopDaemon_def stopHeartbeat_def Let_def sd_simps sends_def List.map_filter_def
        intro!: quiet_frames quiet_idle quiet_same split: if_splits)
  then have "moves cfg st new st1" using inv by (intro quiet_moves) (simp_all add: sends_inv_def)
  moreover have "sends_inv cfg (ts @ Negotiating # []) st" using inv by (simp add: sends_inv_def)
  ultimately show ?thesis using moves_inv [of cfg ts Negotiating "[]"] stop(1) by simp
next
  case beat
  have "quiet st [] st1" unfolding beat by (intro quiet_frames quiet_idle) simp_all
  then have "moves cfg st [] st1" using inv by (intro quiet_moves) (simp_all add: sends_inv_def)
  moreover have "sends_inv cfg (ts @ Negotiating # []) st" using inv by (simp add: sends_inv_def)
  ultimately show ?thesis using moves_inv [of cfg ts Negotiating "[]" st "[]" st1] by (simp add: beat)
qed (use inv in \<open>auto simp: sends_inv_def\<close>)

text \<open>
  C2: An input reaches the agent once. However often the commands of a session arrive and however their handlers
  interleave with assignments, pauses and stops: within one run of the session the agent is given at most one input for
  each turn; it is addressed to that session under the very lease the run was assigned with; and it is the input whose
  digest the run recorded when it accepted the turn.
\<close>

theorem input_reaches_agent_once:
  assumes "sidecar_reachable cfg (st, ts)"
  shows "distinct (map turn_of (sends st))
    \<and> list_all (\<lambda>(r, ic). r < length (sc_runs st) \<and> ic_sessionId ic = ar_sessionId (the_run r st)
         \<and> ic_sessionLeaseId ic = ar_sessionLeaseId (the_run r st)
         \<and> map_option fst (tget (ar_acceptedInputs (the_run r st)) (ic_turnSeq ic)) = Some (input_digest cfg ic)) (sends st)"
proof -
  have "sends_inv cfg (snd (st, ts)) (fst (st, ts))"
  proof (rule sidecar_reachable_induct [OF assms])
    show "sends_inv cfg [] (fresh_sidecar ids clock)" for ids clock
      by (simp add: sends_inv_def active_ok_def fresh_sidecar_def sends_def List.map_filter_def)
  qed (rule sidecar_step_sends)
  then have "distinct (map turn_of (sends st))" "\<And>x. x \<in> set (sends st) \<Longrightarrow> recorded cfg st x"
    by (simp_all add: sends_inv_def list_all_iff)
  then show ?thesis by (fastforce simp: list_all_iff recorded_def addressed_def)
qed

lemma input_reaches_agent_once_witness:
  "\<exists>st ts. play ex_sidecar_config ex_twice (ex_sidecar, []) = Some (st, ts) \<and> length (sends st) = 1
     \<and> distinct (map turn_of (sends st))"
proof -
  have "case play ex_sidecar_config ex_twice (ex_sidecar, []) of None \<Rightarrow> False | Some (st, ts) \<Rightarrow> length (sends st) = 1"
    by code_simp
  then obtain st ts where run: "play ex_sidecar_config ex_twice (ex_sidecar, []) = Some (st, ts)" "length (sends st) = 1"
    by (auto split: option.splits)
  from run(1) have "sidecar_reachable ex_sidecar_config (st, ts)" unfolding ex_sidecar_def by (rule play_reachable)
  from input_reaches_agent_once [OF this] run show ?thesis by blast
qed

subsection \<open>Where a command is lost\<close>

text \<open>
  When the acceptance of an input cannot be published the input is not given to the agent, but the run has recorded it
  as accepted, and the repeated command is answered as accepted without being run.
\<close>

definition ex_lost_input :: "happening list" where
  "ex_lost_input = ex_started @ [Arrives (ex_input ''c2''), Continues 0 Wake, Continues 0 Wake, Continues 0 (RejectedSignal ''offline''),
     Arrives (ex_input ''c2''), Continues 0 Wake, Continues 0 Wake]"

lemma accepted_input_never_sent:
  "case play ex_sidecar_config ex_lost_input (ex_sidecar, []) of
     None \<Rightarrow> False
   | Some (st, ts) \<Rightarrow> ts = [] \<and> sends st = [] \<and> map ev_type (sc_sent st) = [StatusChanged, WorkerCommandAccepted, WorkerCommandAccepted]"
  by code_simp

text \<open>A pause that ends after the session was assigned anew forgets the new run, whatever its lease.\<close>

definition ex_pause :: runtime_event where
  "ex_pause = ex_command ''l1'' ''c3'' SessionPauseRequested []"

definition ex_late_pause :: "happening list" where
  "ex_late_pause = ex_started @ [Arrives ex_pause, Continues 0 Wake, Continues 0 Wake, Continues 1 Resolved,
     Arrives (ex_assign ''l2''), Continues 2 Wake, Continues 2 Resolved, Continues 2 Wake, Continues 1 Resolved]"

lemma late_pause_forgets_new_run:
  "case play ex_sidecar_config ex_late_pause (ex_sidecar, []) of
     None \<Rightarrow> False
   | Some (st, ts) \<Rightarrow> sc_activeRuns st = [] \<and> length (sc_runs st) = 2
       \<and> map ev_type (sc_sent st) = [StatusChanged, StatusChanged, SessionPaused]"
  by code_simp

end
