(* ===== verification/WorkerLink.thy ===== *)
theory WorkerLink
  imports SidecarProps SessionProps
begin

text \<open>
  Central and the sidecar together: the commands central makes, sent as JSON, are what the sidecar's parsers read, and
  an assignment by central's assignment manager starts a run that takes the inputs central sends under the same lease.
\<close>

subsection \<open>Commands as JSON\<close>

definition labels_json :: "labels \<Rightarrow> json" where
  "labels_json ls = JObj (map (\<lambda>(k, v). (k, JStr v)) ls)"

definition strings_json :: "string list \<Rightarrow> json" where
  "strings_json xs = JArr (map JStr xs)"

definition tool_json :: "tool_definition \<Rightarrow> json" where
  "tool_json t =
     jobj [(''name'', Some (JStr (td_name t))), (''description'', Some (JStr (td_description t))), (''inputSchema'', Some (td_inputSchema t)),
           (''binding'', Some (jobj [(''kind'', Some (JStr ''delegate'')), (''delegateId'', Some (JStr (td_delegateId t)))]))]"

text \<open>The time of resolution is written as its milliseconds.\<close>

definition spec_json :: "resolved_agent_spec \<Rightarrow> json" where
  "spec_json a =
     jobj [(''agentSpecId'', Some (JStr (as_agentSpecId a))), (''labels'', Some (labels_json (as_labels a))),
           (''launch'', Some (jobj [(''command'', Some (JStr (as_command a))), (''args'', Some (strings_json (as_args a)))])),
           (''instructions'', Some (JStr (as_instructions a))), (''toolProfile'', Some (JStr (as_toolProfile a))),
           (''delegateRefs'', Some (jobj [(''asCaller'', Some (strings_json (as_asCaller a))), (''asCallee'', Some (strings_json (as_asCallee a)))])),
           (''workerSelector'', Some (jobj [(''matchLabels'', Some (labels_json (as_matchLabels a)))])),
           (''pausePolicy'', Some (JStr (as_pausePolicy a))), (''recoveryPolicy'', Some (JStr (as_recoveryPolicy a))),
           (''idlePauseTimeoutMs'', Some (JNum (as_idlePauseTimeoutMs a))), (''version'', Some (JStr (as_version a))),
           (''runtimeTools'', Some (JArr (map tool_json (ra_runtimeTools a)))), (''resolvedAt'', Some (JNum (ra_resolvedAt a))),
           (''digest'', Some (JStr (ra_digest a)))]"

definition restore_json :: "restore_ref \<Rightarrow> json" where
  "restore_json r = jobj [(''snapshotId'', Some (JStr (rr_snapshotId r))), (''storageClass'', Some (JStr (rr_storageClass r))),
     (''handle'', Some (JStr (rr_handle r))), (''parts'', Some (JArr (map part_json (rr_parts r))))]"

definition capture_json :: "capture_ref \<Rightarrow> json" where
  "capture_json c = jobj [(''snapshotId'', Some (JStr (cr_snapshotId c))), (''storageClass'', Some (JStr (cr_storageClass c))),
     (''handle'', Some (JStr (cr_handle c)))]"

definition address_fields :: "string \<Rightarrow> string \<Rightarrow> string option \<Rightarrow> (string \<times> json option) list" where
  "address_fields sid wid lease = [(''sessionId'', Some (JStr sid)), (''workerId'', Some (JStr wid)), (''sessionLeaseId'', map_option JStr lease)]"

definition command_json :: "payload \<Rightarrow> json option" where
  "command_json p =
     (case p of
        AssignPayload sid wid lease workspace state spec restore \<Rightarrow>
          Some (jobj (address_fields sid wid (Some lease) @ [(''workspaceRef'', Some (JStr workspace)),
            (''copilotSessionStateRef'', Some (JStr state)), (''resolvedAgentSpec'', Some (spec_json spec)), (''restore'', map_option restore_json restore)]))
      | InputCommandPayload sid wid lease turn body \<Rightarrow>
          Some (jobj (address_fields sid wid lease @ [(''turnSeq'', Some (JNum turn)), (''input'', Some body)]))
      | PauseCommandPayload sid wid lease reason capture \<Rightarrow>
          Some (jobj (address_fields sid wid (Some lease) @ [(''reason'', map_option JStr reason), (''capture'', map_option capture_json capture)]))
      | JsonPayload j \<Rightarrow> Some j
      | _ \<Rightarrow> None)"

text \<open>The event as the worker's transport hands it over.\<close>

definition received :: "runtime_event \<Rightarrow> runtime_event" where
  "received e = e\<lparr>ev_payload := (case command_json (ev_payload e) of None \<Rightarrow> NoPayload | Some j \<Rightarrow> JsonPayload j)\<rparr>"

lemma toolNames_spec: "toolNames (spec_json a) = Some (map td_name (ra_runtimeTools a))"
proof -
  have "JNull \<notin> set (map tool_json ts)" "List.map_filter (\<lambda>j. jstring (jfield ''name'' j)) (map tool_json ts) = map td_name ts" for ts
    by (induction ts) (simp_all add: tool_json_def jobj_def List.map_filter_def)
  then show ?thesis by (simp add: toolNames_def spec_json_def)
qed

lemma parseRestore_json: "parseRestore (map_option restore_json r) = Some (map_option (\<lambda>r. (rr_handle r, map part_json (rr_parts r))) r)"
  by (cases r) (simp_all add: parseRestore_def restore_json_def is_string_def)

lemma assign_parsed:
  "parseAssignPayload (command_json (AssignPayload sid wid lease workspace state spec restore))
     = Some \<lparr>ac_sessionId = sid, ac_workerId = wid, ac_sessionLeaseId = lease, ac_workspaceRef = workspace, ac_copilotSessionStateRef = state,
         ac_resolvedAgentSpec = spec_json spec, ac_restore = map_option (\<lambda>r. (rr_handle r, map part_json (rr_parts r))) restore\<rparr>"
proof -
  have "jfield ''agentSpecId'' (spec_json spec) = Some (JStr (as_agentSpecId spec))" by (simp add: spec_json_def)
  then show ?thesis
    by (simp add: command_json_def address_fields_def parseAssignPayload_def parseRestore_json is_string_def)
qed

lemma input_parsed:
  "is_string (jfield ''message'' body) \<Longrightarrow>
    parseInputPayload (command_json (InputCommandPayload sid wid (Some lease) turn body))
      = Some \<lparr>ic_sessionId = sid, ic_workerId = wid, ic_sessionLeaseId = lease, ic_turnSeq = turn, ic_input = body\<rparr>"
  by (simp add: command_json_def address_fields_def parseInputPayload_def is_string_def)

lemma pause_parsed:
  "reason \<in> insert None (Some ` set pause_reasons) \<Longrightarrow>
    parsePausePayload (command_json (PauseCommandPayload sid wid lease reason capture))
      = Some \<lparr>pq_sessionId = sid, pq_workerId = wid, pq_sessionLeaseId = lease, pq_reason = reason,
          pq_capture = map_option (\<lambda>c. (cr_snapshotId c, cr_handle c)) capture\<rparr>"
  by (cases capture)
    (auto simp: command_json_def address_fields_def parsePausePayload_def capture_json_def is_string_def Let_def pause_reasons_def)

lemma jsonBody_received: "command_json (ev_payload e) = Some j \<Longrightarrow> jsonBody (ev_payload (received e)) = Some j"
  by (simp add: received_def)

lemma received_fields [simp]: "ev_sessionLeaseId (received e) = ev_sessionLeaseId e" "ev_type (received e) = ev_type e"
  by (simp_all add: received_def)

subsection \<open>An assignment\<close>

lemma assign_registers:
  assumes "parseAssignPayload (jsonBody (ev_payload e)) = Some ac" and "ev_sessionLeaseId e = Some (ac_sessionLeaseId ac)"
    and "sd_mount cfg (ac_workspaceRef ac) (ac_copilotSessionStateRef ac) = Some m"
    and "toolNames (ac_resolvedAgentSpec ac) = Some names"
  obtains ready p st1 where "handleAssign cfg e st = Some ([ready, AssignWaiting ac p], st1)"
    "activeRun (ac_sessionId ac) st1 = Some (length (sc_runs st))"
    "the_run (length (sc_runs st)) st1 = new_run ac p m names"
  using assms
  by (cases "ac_restore ac")
     (auto simp: handleAssign_def Let_def startAgent_def activeRun_def the_run_def tget_tput sd_simps)

lemma assign_command_of:
  assumes "assignReadyWorker s w = (Inr (a, Some c), w1)"
  obtains restore where "ev_type (wc_event c) = SessionAssign" "ev_payload (wc_event c)
     = AssignPayload (ses_sessionId a) (wc_workerId c) (the (ses_sessionLeaseId a)) (ses_workspaceRef a)
         (''copilot-session:'' @ ses_sessionId a) (ses_resolvedAgentSpec a) restore"
  using assms
  by (auto simp: assignReadyWorker_def andThen_def Let_def split_def split: option.splits sum.splits if_splits)

text \<open>
  C12: An assignment starts a run that takes the session's inputs. When central's assignment manager gives a session to
  a worker, the command it makes, sent as JSON, passes every check of the worker's daemon whatever its state: the
  daemon registers a new run under the session's lease, with the tools of the session's spec and no turn accepted. Any
  input central then makes a command of for that session is let in to that run.
\<close>

theorem assignment_starts_a_run:
  assumes "keyed wk_workerId (w_workers w)" and "assignReadyWorker s w = (Inr (a, Some c), w1)"
    and "sd_mount cfg (ses_workspaceRef a) (''copilot-session:'' @ ses_sessionId a) = Some m"
    and "is_string (jfield ''message'' body)"
  shows "\<exists>ts st1 run.
      handleWorkerCommand cfg (received (wc_event c)) st = Some (ts, st1)
    \<and> activeRun (ses_sessionId s) st1 = Some (length (sc_runs st)) \<and> the_run (length (sc_runs st)) st1 = run
    \<and> Some (ar_sessionLeaseId run) = ses_sessionLeaseId a \<and> ar_workerId run = wc_workerId c
    \<and> ar_runtimeToolNames run = map td_name (ra_runtimeTools (ses_resolvedAgentSpec s)) \<and> ar_acceptedInputs run = []
    \<and> (let e1 = received (wc_event (input_command (ses_sessionId s) a turn body eid e))
       in \<exists>ic. ic_turnSeq ic = turn \<and> ic_input ic = body
             \<and> handleWorkerCommand cfg e1 st1 = Some ([InputWaiting e1 ic (length (sc_runs st))], st1))"
proof -
  from assignReadyWorker_assigns [OF assms(1,2)] obtain k :: worker and lease where a: "a = s\<lparr>ses_currentWorkerId := Some (wk_workerId k), ses_sessionLeaseId := Some lease,
           ses_storageClass := Some (orElse (ses_storageClass s) (wk_storageClass k)), ses_status := Starting\<rparr>"
    and c: "ev_sessionLeaseId (wc_event c) = Some lease"
    by metis
  obtain restore where p: "ev_type (wc_event c) = SessionAssign" "ev_payload (wc_event c)
     = AssignPayload (ses_sessionId s) (wc_workerId c) lease (ses_workspaceRef s) (''copilot-session:'' @ ses_sessionId s)
         (ses_resolvedAgentSpec s) restore"
    by (rule assign_command_of [OF assms(2)]) (use a in simp)
  let ?ac = "\<lparr>ac_sessionId = ses_sessionId s, ac_workerId = wc_workerId c, ac_sessionLeaseId = lease, ac_workspaceRef = ses_workspaceRef s,
     ac_copilotSessionStateRef = ''copilot-session:'' @ ses_sessionId s, ac_resolvedAgentSpec = spec_json (ses_resolvedAgentSpec s),
     ac_restore = map_option (\<lambda>r. (rr_handle r, map part_json (rr_parts r))) restore\<rparr>"
  have parsed: "parseAssignPayload (jsonBody (ev_payload (received (wc_event c)))) = Some ?ac"
    using assign_parsed jsonBody_received by (simp add: p(2) received_def command_json_def)
  obtain ready q st1 where run: "handleAssign cfg (received (wc_event c)) st = Some ([ready, AssignWaiting ?ac q], st1)"
      "activeRun (ses_sessionId s) st1 = Some (length (sc_runs st))"
      "the_run (length (sc_runs st)) st1 = new_run ?ac q m (map td_name (ra_runtimeTools (ses_resolvedAgentSpec s)))"
    by (rule assign_registers [OF parsed, of cfg m]) (use c assms(3) a toolNames_spec in simp_all)
  let ?e = "received (wc_event (input_command (ses_sessionId s) a turn body eid e))"
  have "parseInputPayload (jsonBody (ev_payload ?e))
      = Some \<lparr>ic_sessionId = ses_sessionId s, ic_workerId = wk_workerId k, ic_sessionLeaseId = lease, ic_turnSeq = turn, ic_input = body\<rparr>"
    using input_parsed [OF assms(4)] a by (simp add: received_def input_command_def command_json_def Let_def)
  then have "handleWorkerCommand cfg ?e st1 = Some ([InputWaiting ?e
      \<lparr>ic_sessionId = ses_sessionId s, ic_workerId = wk_workerId k, ic_sessionLeaseId = lease, ic_turnSeq = turn, ic_input = body\<rparr>
      (length (sc_runs st))], st1)"
    using run(2,3) a by (simp add: handleWorkerCommand_def handleInput_def fenced_def input_command_def Let_def new_run_def)
  with run p(1) a show ?thesis by (auto simp: handleWorkerCommand_def new_run_def Let_def)
qed

lemma assignment_starts_a_run_witness:
  "\<exists>a c w1 ts st1. assignReadyWorker ex_session single_use_world = (Inr (a, Some c), w1)
    \<and> handleWorkerCommand ex_sidecar_config (received (wc_event c)) ex_sidecar = Some (ts, st1)
    \<and> activeRun ''s1'' st1 = Some 0 \<and> Some (ar_sessionLeaseId (the_run 0 st1)) = ses_sessionLeaseId a"
proof -
  have "map fst (placement (fst (assignReadyWorker ex_session single_use_world))) = [''k1'']" by code_simp
  then obtain a c w1 where r: "assignReadyWorker ex_session single_use_world = (Inr (a, Some c), w1)"
    by (cases "assignReadyWorker ex_session single_use_world") (auto elim: placement.elims)
  have m: "sd_mount ex_sidecar_config (ses_workspaceRef a) (''copilot-session:'' @ ses_sessionId a)
      = Some (ses_workspaceRef a, ''copilot-session:'' @ ses_sessionId a)" by (simp add: ex_sidecar_config_def)
  have "is_string (jfield ''message'' (JObj [(''message'', JStr ''go'')]))" "sc_runs ex_sidecar = []" "ses_sessionId ex_session = ''s1''"
    by (simp_all add: is_string_def ex_sidecar_def fresh_sidecar_def ex_session_def)
  with assignment_starts_a_run [OF single_use_world_facts(2) r m, of "JObj [(''message'', JStr ''go'')]" ex_sidecar] r
  show ?thesis by (fastforce simp: Let_def)
qed

end
