(* ===== verification/Channels.thy ===== *)
theory Channels
  imports AgentReports "HOL-Library.Sublist"
begin

text \<open>
  The transports: the Web PubSub groups the channels are mapped to by central and by both SDKs, the user id that
  carries a connection's principal, and the adapters of central and of the sidecar
  (\<^verbatim>\<open>shared/protocol/web-pubsub-runtime-channel.ts\<close>, \<^verbatim>\<open>central/adapters\<close>,
  \<^verbatim>\<open>sidecar/adapters/web-pubsub-client-adapter.ts\<close>, the channel mappers of \<^verbatim>\<open>sdk\<close>). The service itself is
  not modelled: a message arrives with the group it was sent to and the user id of its sender.
\<close>

subsection \<open>Percent encoding\<close>

text \<open>
  \<^verbatim>\<open>encodeURIComponent\<close> and \<^verbatim>\<open>decodeURIComponent\<close> on code units below 256: a unit from 128 on is two bytes of
  UTF-8. Decoding throws (\<open>None\<close>) on a malformed sequence, and here also on one for a larger unit.
\<close>

definition unreserved :: "char \<Rightarrow> bool" where
  "unreserved c = (c \<in> set (''ABCDEFGHIJKLMNOPQRSTUVWXYZabcdefghijklmnopqrstuvwxyz0123456789-_.!~*()'' @ [CHR 0x27]))"

definition uriHex :: "nat \<Rightarrow> char" where
  "uriHex n = ''0123456789ABCDEF'' ! n"

definition percent :: "nat \<Rightarrow> string" where
  "percent b = [CHR ''%'', uriHex (b div 16), uriHex (b mod 16)]"

definition utf8 :: "nat \<Rightarrow> nat list" where
  "utf8 n = (if n < 128 then [n] else [192 + n div 64, 128 + n mod 64])"

definition encodeUnit :: "char \<Rightarrow> string" where
  "encodeUnit c = (if unreserved c then [c] else concat (map percent (utf8 (of_char c))))"

definition encodeURIComponent :: "string \<Rightarrow> string" where
  "encodeURIComponent s = concat (map encodeUnit s)"

definition hexValue :: "char \<Rightarrow> nat option" where
  "hexValue c =
     (let n = of_char c :: nat
      in if 48 \<le> n \<and> n \<le> 57 then Some (n - 48)
         else if 65 \<le> n \<and> n \<le> 70 then Some (n - 55)
         else if 97 \<le> n \<and> n \<le> 102 then Some (n - 87)
         else None)"

fun byte_at :: "string \<Rightarrow> nat option" where
  "byte_at (h # l # _) = (case (hexValue h, hexValue l) of (Some a, Some b) \<Rightarrow> Some (16 * a + b) | _ \<Rightarrow> None)"
| "byte_at _ = None"

fun decodeURIComponent :: "string \<Rightarrow> string option" where
  "decodeURIComponent [] = Some []"
| "decodeURIComponent (c # cs) =
     (if c \<noteq> CHR ''%'' then map_option (Cons c) (decodeURIComponent cs)
      else
        case byte_at cs of
          None \<Rightarrow> None
        | Some b \<Rightarrow>
            if b < 128 then map_option (Cons (char_of b)) (decodeURIComponent (drop 2 cs))
            else if (b = 194 \<or> b = 195) \<and> take 1 (drop 2 cs) = ''%'' then
              (case byte_at (drop 3 cs) of
                 None \<Rightarrow> None
               | Some k \<Rightarrow>
                   if 128 \<le> k \<and> k < 192 then
                     map_option (Cons (char_of ((b - 192) * 64 + (k - 128)))) (decodeURIComponent (drop 5 cs))
                   else None)
            else None)"

lemma uriHex_cases:
  assumes "n < 16"
  shows "hexValue (uriHex n) = Some n \<and> uriHex n \<noteq> CHR '':''"
proof -
  have "\<forall>n \<in> set [0..<16]. hexValue (uriHex n) = Some n \<and> uriHex n \<noteq> CHR '':''" by code_simp
  with assms show ?thesis by simp
qed

lemma byte_at_percent: "b < 256 \<Longrightarrow> byte_at (uriHex (b div 16) # uriHex (b mod 16) # xs) = Some b"
  using uriHex_cases [of "b div 16"] uriHex_cases [of "b mod 16"] by simp

lemma two_byte_units:
  fixes n :: nat
  assumes "n < 256" and "\<not> n < 128"
  shows "n div 64 = 2 \<or> n div 64 = 3" and "(192 + n div 64 - 192) * 64 + (128 + n mod 64 - 128) = n"
proof -
  from assms have "2 \<le> n div 64" "n div 64 < 4" by (simp_all add: less_eq_div_iff_mult_less_eq div_less_iff_less_mult)
  then show "n div 64 = 2 \<or> n div 64 = 3" by linarith
  show "(192 + n div 64 - 192) * 64 + (128 + n mod 64 - 128) = n" by simp
qed

lemma utf8_byte: "n < 256 \<Longrightarrow> b \<in> set (utf8 n) \<Longrightarrow> b < 256"
  using two_byte_units(1) [of n] mod_less_divisor [of 64 n] by (auto simp: utf8_def split: if_splits)

lemma decode_encodeUnit: "decodeURIComponent (encodeUnit c @ xs) = map_option (Cons c) (decodeURIComponent xs)"
proof (cases "unreserved c")
  case True
  then have "c \<noteq> CHR ''%''" by (auto simp: unreserved_def)
  with True show ?thesis by (simp add: encodeUnit_def)
next
  case False
  let ?n = "of_char c :: nat"
  have n: "?n < 256" by simp
  show ?thesis
  proof (cases "?n < 128")
    case True
    with False n show ?thesis by (simp add: encodeUnit_def utf8_def percent_def byte_at_percent del: byte_at.simps)
  next
    case low: False
    define hi where "hi = 192 + ?n div 64"
    define lo where "lo = 128 + ?n mod 64"
    from two_byte_units [OF n low] mod_less_divisor [of 64 ?n]
    have b: "hi < 256" "lo < 256" "hi = 194 \<or> hi = 195" "128 \<le> lo" "lo < 192" "(hi - 192) * 64 + (lo - 128) = ?n"
      unfolding hi_def lo_def by linarith+
    have "encodeUnit c @ xs = percent hi @ percent lo @ xs"
      using False low by (simp add: encodeUnit_def utf8_def hi_def lo_def)
    with b show ?thesis
      by (auto simp: percent_def byte_at_percent simp del: byte_at.simps)
  qed
qed

lemma decode_encode [simp]: "decodeURIComponent (encodeURIComponent s) = Some s"
  by (induction s) (simp_all add: encodeURIComponent_def decode_encodeUnit)

lemma encode_inj [simp]: "encodeURIComponent s = encodeURIComponent t \<longleftrightarrow> s = t"
  by (metis decode_encode option.inject)

lemma encode_no_colon [simp]: "CHR '':'' \<notin> set (encodeURIComponent s)"
proof -
  have "CHR '':'' \<notin> set (encodeUnit c)" for c
  proof -
    have b: "b < 256" if "b \<in> set (utf8 (of_char c))" for b using utf8_byte [OF _ that] by simp
    have "CHR '':'' \<notin> set (percent b)" if "b \<in> set (utf8 (of_char c))" for b
    proof -
      from b [OF that] have "b div 16 < 16" by (simp add: div_less_iff_less_mult)
      then show ?thesis using uriHex_cases [of "b div 16"] uriHex_cases [of "b mod 16"] by (auto simp: percent_def)
    qed
    then show ?thesis by (auto simp: encodeUnit_def unreserved_def)
  qed
  then show ?thesis by (simp add: encodeURIComponent_def)
qed

subsection \<open>Channels and groups\<close>

text \<open>\<open>None\<close> is the error thrown on an empty segment or tenant.\<close>

definition toGroupSegment :: "string \<Rightarrow> string option" where
  "toGroupSegment v = (if v = [] then None else Some (encodeURIComponent v))"

definition toGroup :: "string \<Rightarrow> channel \<Rightarrow> string option" where
  "toGroup tenantId ch =
     Option.bind (toGroupSegment tenantId) (\<lambda>t.
       let tenantPrefix = ''tenant:'' @ t
       in case ch of
            TenantInbox \<Rightarrow> Some (tenantPrefix @ '':central:events'')
          | ClientInbox \<Rightarrow> Some (tenantPrefix @ '':clients'')
          | ClientPrivateInbox c \<Rightarrow> map_option (\<lambda>c. tenantPrefix @ '':client:'' @ c @ '':inbox'') (toGroupSegment c)
          | SessionEvents sid \<Rightarrow> map_option (\<lambda>sid. tenantPrefix @ '':session:'' @ sid) (toGroupSegment sid)
          | WorkerCommands wid \<Rightarrow> map_option (\<lambda>wid. tenantPrefix @ '':worker:'' @ wid) (toGroupSegment wid))"

text \<open>The channels of the client SDK and of the edge worker SDK, and their own mappers.\<close>

datatype sdk_channel = SdkTenantInbox | SdkClientInbox | SdkClientPrivateInbox string | SdkSessionEvents string

datatype edge_channel = EdgeTenantInbox | EdgeWorkerCommands string

definition sdkToGroup :: "string \<Rightarrow> sdk_channel \<Rightarrow> string option" where
  "sdkToGroup tenantId ch =
     (if tenantId = [] then None
      else
        let tenantPrefix = ''tenant:'' @ encodeURIComponent tenantId;
            segment = (\<lambda>v. if v = [] then None else Some (encodeURIComponent v))
        in case ch of
             SdkTenantInbox \<Rightarrow> Some (tenantPrefix @ '':central:events'')
           | SdkClientInbox \<Rightarrow> Some (tenantPrefix @ '':clients'')
           | SdkClientPrivateInbox c \<Rightarrow> map_option (\<lambda>c. tenantPrefix @ '':client:'' @ c @ '':inbox'') (segment c)
           | SdkSessionEvents sid \<Rightarrow> map_option (\<lambda>sid. tenantPrefix @ '':session:'' @ sid) (segment sid))"

definition edgeToGroup :: "string \<Rightarrow> edge_channel \<Rightarrow> string option" where
  "edgeToGroup tenantId ch =
     (if tenantId = [] then None
      else
        let tenantPrefix = ''tenant:'' @ encodeURIComponent tenantId
        in case ch of
             EdgeTenantInbox \<Rightarrow> Some (tenantPrefix @ '':central:events'')
           | EdgeWorkerCommands wid \<Rightarrow>
               if wid = [] then None else Some (tenantPrefix @ '':worker:'' @ encodeURIComponent wid))"

fun sdk_channel_of :: "sdk_channel \<Rightarrow> channel" where
  "sdk_channel_of SdkTenantInbox = TenantInbox"
| "sdk_channel_of SdkClientInbox = ClientInbox"
| "sdk_channel_of (SdkClientPrivateInbox c) = ClientPrivateInbox c"
| "sdk_channel_of (SdkSessionEvents sid) = SessionEvents sid"

fun edge_channel_of :: "edge_channel \<Rightarrow> channel" where
  "edge_channel_of EdgeTenantInbox = TenantInbox"
| "edge_channel_of (EdgeWorkerCommands wid) = WorkerCommands wid"

lemma sdkToGroup_agrees: "sdkToGroup t ch = toGroup t (sdk_channel_of ch)"
  by (cases ch) (simp_all add: sdkToGroup_def toGroup_def toGroupSegment_def)

lemma edgeToGroup_agrees: "edgeToGroup t ch = toGroup t (edge_channel_of ch)"
  by (cases ch) (simp_all add: edgeToGroup_def toGroup_def toGroupSegment_def)

lemma first_segment:
  assumes "a @ CHR '':'' # x = b @ CHR '':'' # y" and "CHR '':'' \<notin> set a" and "CHR '':'' \<notin> set b"
  shows "a = b \<and> x = y"
  using assms by (induction a arbitrary: b) (case_tac b; auto)+

lemma segment_end:
  "a @ '':inbox'' = b @ '':inbox'' \<longleftrightarrow> a = b"
  by simp

lemma toGroup_parts:
  assumes "toGroup t ch = Some g"
  shows "\<exists>rest. g = ''tenant:'' @ encodeURIComponent t @ CHR '':'' # rest \<and>
    rest = (case ch of
        TenantInbox \<Rightarrow> ''central:events''
      | ClientInbox \<Rightarrow> ''clients''
      | ClientPrivateInbox c \<Rightarrow> ''client:'' @ encodeURIComponent c @ '':inbox''
      | SessionEvents sid \<Rightarrow> ''session:'' @ encodeURIComponent sid
      | WorkerCommands wid \<Rightarrow> ''worker:'' @ encodeURIComponent wid)"
  using assms by (cases ch) (auto simp: toGroup_def toGroupSegment_def split: if_splits)

lemma toGroup_inj:
  assumes "toGroup t ch = Some g" and "toGroup t1 ch1 = Some g"
  shows "t = t1 \<and> ch = ch1"
proof -
  from toGroup_parts [OF assms(1)] toGroup_parts [OF assms(2)] obtain r r1 where
    "encodeURIComponent t @ CHR '':'' # r = encodeURIComponent t1 @ CHR '':'' # r1"
    and r: "r = (case ch of TenantInbox \<Rightarrow> ''central:events'' | ClientInbox \<Rightarrow> ''clients''
      | ClientPrivateInbox c \<Rightarrow> ''client:'' @ encodeURIComponent c @ '':inbox'' | SessionEvents sid \<Rightarrow> ''session:'' @ encodeURIComponent sid
      | WorkerCommands wid \<Rightarrow> ''worker:'' @ encodeURIComponent wid)"
    and r1: "r1 = (case ch1 of TenantInbox \<Rightarrow> ''central:events'' | ClientInbox \<Rightarrow> ''clients''
      | ClientPrivateInbox c \<Rightarrow> ''client:'' @ encodeURIComponent c @ '':inbox'' | SessionEvents sid \<Rightarrow> ''session:'' @ encodeURIComponent sid
      | WorkerCommands wid \<Rightarrow> ''worker:'' @ encodeURIComponent wid)"
    by auto
  then have t: "t = t1" and eq: "r = r1" using first_segment [of "encodeURIComponent t" r "encodeURIComponent t1" r1] by auto
  from eq have "ch = ch1" by (cases ch; cases ch1) (auto simp: r r1)
  with t show ?thesis by simp
qed

text \<open>
  C31: The groups of the transport keep tenants and channels apart. Whatever the tenant ids, session ids, worker ids and
  connection ids are, two channels have the same group only when they are the same channel of the same tenant; and the
  client SDK and the edge worker SDK give each of their channels the group central gives it.
\<close>

theorem channel_groups_are_separate:
  assumes "toGroup t ch = Some g" and "toGroup t1 ch1 = Some g"
  shows "t = t1 \<and> ch = ch1
    \<and> (\<forall>sch. sdkToGroup t sch = Some g \<longleftrightarrow> sdk_channel_of sch = ch)
    \<and> (\<forall>ech. edgeToGroup t ech = Some g \<longleftrightarrow> edge_channel_of ech = ch)"
  using assms toGroup_inj by (auto simp: sdkToGroup_agrees edgeToGroup_agrees)

theorem channel_groups_are_separate_witness:
  "toGroup ''a:b'' (WorkerCommands ''w'') = Some ''tenant:a%3Ab:worker:w''
   \<and> edgeToGroup ''a:b'' (EdgeWorkerCommands ''w'') = Some ''tenant:a%3Ab:worker:w''"
proof -
  have "toGroup ''a:b'' (WorkerCommands ''w'') = Some ''tenant:a%3Ab:worker:w''" by code_simp
  with channel_groups_are_separate [OF this this] show ?thesis by simp
qed

end
