(* ===== verification/Transports.thy ===== *)
theory Transports
  imports Channels TenantInbox
begin

text \<open>
  The transport adapters of central (\<^verbatim>\<open>web-pubsub-transport-adapter.ts\<close>,
  \<^verbatim>\<open>in-memory-runtime-transport-adapter.ts\<close>) and of the sidecar (\<^verbatim>\<open>web-pubsub-client-adapter.ts\<close>): the
  connections they issue, and what becomes of a message of a group. The service client, which makes a token from a user
  id, the groups and the roles, is a parameter. A message carries the group it was sent to and the user id of its sender.
\<close>

subsection \<open>User ids\<close>

fun principal_type_text :: "principal_type \<Rightarrow> string" where
  "principal_type_text UserPrincipal = ''user''"
| "principal_type_text ServicePrincipal = ''service''"

definition toUserId :: "request_context \<Rightarrow> string" where
  "toUserId p =
     (let encodedPrincipal = principal_type_text (rq_principalType p) @ '':'' @ encodeURIComponent (rq_principalId p)
      in if truthy (rq_connectionId p)
         then encodedPrincipal @ '':connection:'' @ encodeURIComponent (the (rq_connectionId p)) else encodedPrincipal)"

text \<open>\<^verbatim>\<open>String.prototype.indexOf\<close>.\<close>

fun indexOf :: "string \<Rightarrow> string \<Rightarrow> nat option" where
  "indexOf p [] = (if p = [] then Some 0 else None)"
| "indexOf p (c # cs) = (if take (length p) (c # cs) = p then Some 0 else map_option Suc (indexOf p cs))"

text \<open>The principal with its connection; \<open>None\<close> is the error \<^verbatim>\<open>decodeURIComponent\<close> throws.\<close>

definition user_named :: "string \<Rightarrow> request_context" where
  "user_named uid = \<lparr>rq_principalId = uid, rq_principalType = UserPrincipal, rq_connectionId = None\<rparr>"

definition principalFromUserId :: "string \<Rightarrow> request_context option" where
  "principalFromUserId userId =
     (case indexOf '':'' userId of
        None \<Rightarrow> Some (user_named userId)
      | Some separatorIndex \<Rightarrow>
          let ty = take separatorIndex userId; rest = drop (separatorIndex + 1) userId in
          if ty \<noteq> ''user'' \<and> ty \<noteq> ''service'' then Some (user_named userId)
          else
            let pt = (if ty = ''user'' then UserPrincipal else ServicePrincipal) in
            case indexOf '':connection:'' rest of
              None \<Rightarrow>
                map_option (\<lambda>p. \<lparr>rq_principalId = p, rq_principalType = pt, rq_connectionId = None\<rparr>) (decodeURIComponent rest)
            | Some connectionIndex \<Rightarrow>
                (case (decodeURIComponent (take connectionIndex rest), decodeURIComponent (drop (connectionIndex + length '':connection:'') rest)) of
                   (Some p, Some c) \<Rightarrow> Some \<lparr>rq_principalId = p, rq_principalType = pt, rq_connectionId = Some c\<rparr>
                 | _ \<Rightarrow> None))"

text \<open>The context of a request repeats the connection of its principal.\<close>

definition contextFromGroupMessage :: "string \<Rightarrow> request_context option" where
  "contextFromGroupMessage fromUserId = principalFromUserId fromUserId"

lemma indexOf_skip:
  assumes "CHR '':'' \<notin> set xs"
  shows "indexOf (CHR '':'' # p) (xs @ ys) = map_option (\<lambda>i. length xs + i) (indexOf (CHR '':'' # p) ys)"
  using assms
proof (induction xs)
  case Nil
  then show ?case by (cases "indexOf (CHR '':'' # p) ys") simp_all
qed (auto simp: option.map_comp comp_def intro!: option.map_cong)

lemma indexOf_absent: "CHR '':'' \<notin> set xs \<Longrightarrow> indexOf (CHR '':'' # p) xs = None"
  using indexOf_skip [of xs p "[]"] by simp

lemma indexOf_here: "indexOf p (p @ ys) = Some 0"
  by (cases p; cases ys) auto

lemma indexOf_segment: "CHR '':'' \<notin> set xs \<Longrightarrow> indexOf (CHR '':'' # p) (xs @ (CHR '':'' # p) @ ys) = Some (length xs)"
  using indexOf_skip [of xs p "(CHR '':'' # p) @ ys"] indexOf_here [of "CHR '':'' # p" ys] by simp

lemma user_id_round_trip:
  assumes "rq_connectionId p \<noteq> Some []"
  shows "contextFromGroupMessage (toUserId p) = Some p"
proof -
  let ?ty = "principal_type_text (rq_principalType p)" and ?enc = "encodeURIComponent (rq_principalId p)"
  have ty: "CHR '':'' \<notin> set ?ty" "?ty = ''user'' \<or> ?ty = ''service''" "(if ?ty = ''user'' then UserPrincipal else ServicePrincipal) = rq_principalType p"
    by (cases "rq_principalType p"; simp)+
  have first: "indexOf '':'' (?ty @ CHR '':'' # rest) = Some (length ?ty)" for rest
    using indexOf_segment [OF ty(1), of "[]" rest] by simp
  show ?thesis
  proof (cases "rq_connectionId p")
    case None
    have "indexOf '':connection:'' ?enc = None" by (rule indexOf_absent) simp
    with None first [of ?enc] ty(2,3) show ?thesis
      by (auto simp: contextFromGroupMessage_def principalFromUserId_def toUserId_def Let_def)
  next
    case (Some c)
    let ?rest = "?enc @ '':connection:'' @ encodeURIComponent c"
    have "indexOf '':connection:'' ?rest = Some (length ?enc)"
      using indexOf_segment [of ?enc "''connection:''" "encodeURIComponent c"] by simp
    with Some assms first [of ?rest] ty(2,3) show ?thesis
      by (auto simp: contextFromGroupMessage_def principalFromUserId_def toUserId_def Let_def)
  qed
qed

subsection \<open>Issuing a connection\<close>

definition groups_of :: "string \<Rightarrow> channel list \<Rightarrow> string list option" where
  "groups_of tenantId channels = those (map (toGroup tenantId) channels)"

definition connection_roles :: "string list \<Rightarrow> string list" where
  "connection_roles groups =
     ''webpubsub.joinLeaveGroup'' #
     concat (map (\<lambda>g. [''webpubsub.joinLeaveGroup.'' @ g, ''webpubsub.sendToGroup.'' @ g]) groups)"

definition issueConnection ::
  "(string \<Rightarrow> string list \<Rightarrow> string list \<Rightarrow> string) \<Rightarrow> string \<Rightarrow> request_context \<Rightarrow> channel list \<Rightarrow> string option" where
  "issueConnection getClientAccessToken tenantId p channels =
     map_option (\<lambda>groups. getClientAccessToken (toUserId p) groups (connection_roles groups)) (groups_of tenantId channels)"

text \<open>
  Every connection may join any group: beside the roles for its own groups it gets the role that names none.
\<close>

lemma those_SomeD: "those xs = Some ys \<Longrightarrow> map Some ys = xs"
  by (induction xs arbitrary: ys) (auto split: option.splits)

lemma any_group_may_be_joined: "''webpubsub.joinLeaveGroup'' \<in> set (connection_roles groups)"
  by (simp add: connection_roles_def)

subsection \<open>Messages\<close>

text \<open>The data of a message: a JSON value, or a text with the value it parses to when it is JSON.\<close>

datatype message_data = Data json | DataText "json option"

definition isRuntimeEvent :: "json \<Rightarrow> bool" where
  "isRuntimeEvent j =
     (isRecord (Some j) \<and> is_string (jfield ''eventId'' j) \<and> is_number (jfield ''sequence'' j) \<and> is_string (jfield ''type'' j)
      \<and> is_string (jfield ''timestamp'' j) \<and> is_string (jfield ''actor'' j) \<and> jfield ''payload'' j \<noteq> None)"

text \<open>\<open>None\<close> is an error, of \<^verbatim>\<open>JSON.parse\<close> or of the check.\<close>

definition parseRuntimeEvent :: "message_data \<Rightarrow> json option" where
  "parseRuntimeEvent d =
     (case d of
        Data j \<Rightarrow> if isRuntimeEvent j then Some j else None
      | DataText t \<Rightarrow> (case t of Some j \<Rightarrow> if isRuntimeEvent j then Some j else None | None \<Rightarrow> None))"

text \<open>
  Central's adapter. \<open>dispatchGroupMessage\<close> gives the handlers of the group, in the order they subscribed in, with
  what each is called with; an error of a handler is caught. \<open>None\<close> is a promise that is rejected, and the
  listener of the client leaves it so.
\<close>

type_synonym 'h handler_table = "(string, 'h list) table"

definition handlers_of :: "'h handler_table \<Rightarrow> string \<Rightarrow> 'h list" where
  "handlers_of t g = orElse (tget t g) []"

definition subscribeGroup :: "string \<Rightarrow> channel \<Rightarrow> 'h \<Rightarrow> 'h handler_table \<Rightarrow> 'h handler_table option" where
  "subscribeGroup tenantId ch h t = map_option (\<lambda>g. tput g (handlers_of t g @ [h]) t) (toGroup tenantId ch)"

definition closeGroup :: "string \<Rightarrow> 'h \<Rightarrow> 'h handler_table \<Rightarrow> 'h handler_table" where
  "closeGroup g h t = tput g (filter (\<lambda>h1. h1 \<noteq> h) (handlers_of t g)) t"

definition dispatchGroupMessage ::
  "'h handler_table \<Rightarrow> string \<Rightarrow> message_data \<Rightarrow> string \<Rightarrow> ('h \<times> json \<times> request_context) list option" where
  "dispatchGroupMessage t g d fromUserId =
     Option.bind (parseRuntimeEvent d) (\<lambda>e.
     map_option (\<lambda>ctx. map (\<lambda>h. (h, e, ctx)) (handlers_of t g)) (contextFromGroupMessage fromUserId))"

text \<open>One message that is no event is enough for a rejection nobody handles, from any sender.\<close>

lemma invalid_message_is_not_handled: "parseRuntimeEvent d = None \<Longrightarrow> dispatchGroupMessage t g d fromUserId = None"
  by (simp add: dispatchGroupMessage_def)

text \<open>The sidecar's adapter: a subscription's listener, with the error it throws into the client it listens on.\<close>

definition sidecar_principal :: request_context where
  "sidecar_principal = \<lparr>rq_principalId = ''sidecar'', rq_principalType = ServicePrincipal, rq_connectionId = None\<rparr>"

definition sidecarListener :: "string \<Rightarrow> 'h \<Rightarrow> string \<Rightarrow> message_data \<Rightarrow> ('h \<times> json \<times> request_context) list option" where
  "sidecarListener own h g d =
     (if g \<noteq> own then Some [] else map_option (\<lambda>e. [(h, e, sidecar_principal)]) (parseRuntimeEvent d))"

subsection \<open>The transport of tests and of the single process\<close>

fun channelKey :: "channel \<Rightarrow> string" where
  "channelKey TenantInbox = ''tenant-inbox''"
| "channelKey ClientInbox = ''client-inbox''"
| "channelKey (ClientPrivateInbox c) = ''client-private-inbox:'' @ c"
| "channelKey (SessionEvents sid) = ''session-events:'' @ sid"
| "channelKey (WorkerCommands wid) = ''worker-commands:'' @ wid"

fun actor_text :: "actor \<Rightarrow> string" where
  "actor_text ClientActor = ''client''"
| "actor_text CentralActor = ''central''"
| "actor_text SidecarActor = ''sidecar''"
| "actor_text SystemActor = ''system''"

definition contextFromEvent :: "runtime_event \<Rightarrow> request_context" where
  "contextFromEvent e =
     (let isWorkerReport = ev_actor e = SidecarActor \<and> ev_workerId e \<noteq> None
      in \<lparr>rq_principalId = (if isWorkerReport then the (ev_workerId e) else actor_text (ev_actor e)),
          rq_principalType = (if ev_actor e = SidecarActor then ServicePrincipal else UserPrincipal), rq_connectionId = None\<rparr>)"

definition publishInMemory ::
  "'h handler_table \<Rightarrow> channel \<Rightarrow> runtime_event \<Rightarrow> request_context option \<Rightarrow> ('h \<times> runtime_event \<times> request_context) list" where
  "publishInMemory t ch e context = map (\<lambda>h. (h, e, orElse context (contextFromEvent e))) (handlers_of t (channelKey ch))"

definition subscribeInMemory :: "channel \<Rightarrow> 'h \<Rightarrow> 'h handler_table \<Rightarrow> 'h handler_table" where
  "subscribeInMemory ch h t = tput (channelKey ch) (handlers_of t (channelKey ch) @ [h]) t"

lemma channelKey_inj: "channelKey a = channelKey b \<Longrightarrow> a = b"
  by (cases a; cases b) auto

text \<open>
  C16: A handler acts for the principal the connection was issued to. When the service's token carries the user id of an
  issued connection, every message that is an event reaches each handler of its group, in order, with exactly the
  principal and the connection id the connection was issued for, whatever characters these contain; the
  groups of the token are those of the issued channels, one for each.
\<close>

theorem sender_is_the_issued_principal:
  assumes "issueConnection getToken tenantId p channels = Some url" and "rq_connectionId p \<noteq> Some []"
    and "isRuntimeEvent e"
  shows "\<exists>uid groups. url = getToken uid groups (connection_roles groups)
    \<and> map Some groups = map (toGroup tenantId) channels
    \<and> dispatchGroupMessage t g (Data e) uid = Some (map (\<lambda>h. (h, e, p)) (handlers_of t g))"
proof -
  from assms(1) obtain groups where "url = getToken (toUserId p) groups (connection_roles groups)"
      and "those (map (toGroup tenantId) channels) = Some groups"
    by (auto simp: issueConnection_def groups_of_def)
  then show ?thesis
    using assms(3) user_id_round_trip [OF assms(2)]
    by (auto simp: dispatchGroupMessage_def parseRuntimeEvent_def dest: those_SomeD)
qed

theorem sender_is_the_issued_principal_witness:
  "let p = \<lparr>rq_principalId = ''a:connection:b'', rq_principalType = UserPrincipal, rq_connectionId = Some ''c 1''\<rparr>;
       e = JObj [(''eventId'', JStr ''e''), (''sequence'', JNum 0), (''type'', JStr ''input.received''), (''timestamp'', JStr ''t''),
             (''actor'', JStr ''client''), (''payload'', JNull)]
   in \<exists>uid groups. issueConnection (\<lambda>u gs rs. u) ''t1'' p [TenantInbox, ClientPrivateInbox ''c 1''] = Some uid
    \<and> map Some groups = map (toGroup ''t1'') [TenantInbox, ClientPrivateInbox ''c 1'']
    \<and> dispatchGroupMessage [(''tenant:t1:central:events'', [1::nat])] ''tenant:t1:central:events'' (Data e) uid = Some [(1, e, p)]"
proof -
  let ?p = "\<lparr>rq_principalId = ''a:connection:b'', rq_principalType = UserPrincipal, rq_connectionId = Some ''c 1''\<rparr>"
  let ?chs = "[TenantInbox, ClientPrivateInbox ''c 1'']"
  have groups: "groups_of ''t1'' ?chs = Some (map (\<lambda>ch. the (toGroup ''t1'' ch)) ?chs)"
    by (simp add: groups_of_def toGroup_def toGroupSegment_def)
  then have "issueConnection (\<lambda>u gs rs. u) ''t1'' ?p ?chs = Some (toUserId ?p)"
    by (simp add: issueConnection_def)
  from sender_is_the_issued_principal [OF this, where g = "''tenant:t1:central:events''" and t = "[(''tenant:t1:central:events'', [1::nat])]"
      and e = "JObj [(''eventId'', JStr ''e''), (''sequence'', JNum 0), (''type'', JStr ''input.received''), (''timestamp'', JStr ''t''),
             (''actor'', JStr ''client''), (''payload'', JNull)]"] this
  show ?thesis
    by (auto simp: isRuntimeEvent_def is_string_def handlers_of_def tget_def Let_def)
qed

end
