(* ===== verification/ClientSdk.thy ===== *)
theory ClientSdk
  imports Channels WorkerEvents
begin

text \<open>
  The client SDK, \<^verbatim>\<open>sdk/client/src/agent-runtime-client.ts\<close>: the events a client publishes and how it reads
  the answers, its table of pending acknowledgements, and the mapper from runtime events to the typed events of a session.
  An event a client receives is a \<open>runtime_event\<close> with a JSON payload; a message that does not pass the check of
  \<^verbatim>\<open>parseEvent\<close> is \<open>None\<close>. Ids and times are arguments.
\<close>

subsection \<open>Session events\<close>

record turn_error =
  te_message :: string
  te_code :: "string option"
  te_details :: "json option"

text \<open>Each event has the session and the turn it belongs to.\<close>

datatype session_event =
    EvUserMessage string int string
  | EvStatus string int string
  | EvInteractionRequested string int string interaction_kind "json option" "(string \<times> string) option"
  | EvInteractionResponded string int string interaction_kind "json option"
  | EvInteractionInterrupted string int string interaction_kind interruption_reason
  | EvTurnStarted string int
  | EvAssistantDelta string int string
  | EvInternal string int string "json option"
  | EvProgress string int string
  | EvToolStarted string int string string "json option"
  | EvToolCompleted string int string string "json option"
  | EvTurnCompleted string int "string option" "json option"
  | EvTurnFailed string int turn_error

fun event_turn :: "session_event \<Rightarrow> int" where
  "event_turn (EvUserMessage _ n _) = n"
| "event_turn (EvStatus _ n _) = n"
| "event_turn (EvInteractionRequested _ n _ _ _ _) = n"
| "event_turn (EvInteractionResponded _ n _ _ _) = n"
| "event_turn (EvInteractionInterrupted _ n _ _ _) = n"
| "event_turn (EvTurnStarted _ n) = n"
| "event_turn (EvAssistantDelta _ n _) = n"
| "event_turn (EvInternal _ n _ _) = n"
| "event_turn (EvProgress _ n _) = n"
| "event_turn (EvToolStarted _ n _ _ _) = n"
| "event_turn (EvToolCompleted _ n _ _ _) = n"
| "event_turn (EvTurnCompleted _ n _ _) = n"
| "event_turn (EvTurnFailed _ n _) = n"

text \<open>A value whose properties are read: one that is no object has none.\<close>

definition mapRecord :: "json option \<Rightarrow> json" where
  "mapRecord v = (case v of Some (JObj kvs) \<Rightarrow> JObj kvs | _ \<Rightarrow> JObj [])"

definition mapTurnError :: "json option \<Rightarrow> turn_error" where
  "mapTurnError v =
     (let err = mapRecord v
      in \<lparr>te_message = orElse (jstring (jfield ''message'' err)) ''agent turn failed'',
          te_code = jstring (jfield ''code'' err), te_details = jfield ''details'' err\<rparr>)"

definition mapDelegatedInteractionSource :: "json option \<Rightarrow> (string \<times> string) option" where
  "mapDelegatedInteractionSource v =
     (let source = mapRecord v
      in case (jstring (jfield ''ownerSessionId'' source), jstring (jfield ''agentSpecId'' source)) of
           (Some owner, Some spec) \<Rightarrow> if jfield ''kind'' source = Some (JStr ''delegated_session'') then Some (owner, spec) else None
         | _ \<Rightarrow> None)"

text \<open>\<^verbatim>\<open>if (x)\<close> on a JSON value.\<close>

fun truthy_json :: "json option \<Rightarrow> bool" where
  "truthy_json None = False"
| "truthy_json (Some JNull) = False"
| "truthy_json (Some (JBool b)) = b"
| "truthy_json (Some (JNum n)) = (n \<noteq> 0)"
| "truthy_json (Some (JStr s)) = (s \<noteq> [])"
| "truthy_json (Some _) = True"

definition event_kind :: "json \<Rightarrow> interaction_kind" where
  "event_kind p = (if jfield ''kind'' p = Some (JStr ''tool_call'') then ToolCall else Approval)"

definition interrupt_reason :: "json option \<Rightarrow> interruption_reason option" where
  "interrupt_reason v =
     (if v = Some (JStr ''owner_lease_lost'') then Some OwnerLeaseLost
      else if v = Some (JStr ''owner_turn_failed'') then Some OwnerTurnFailed
      else if v = Some (JStr ''owner_session_terminal'') then Some OwnerSessionTerminal
      else None)"

text \<open>The report of a tool that starts or completes: its call, its name and its summary.\<close>

definition tool_report :: "string \<Rightarrow> string \<Rightarrow> json \<Rightarrow> (string \<times> string \<times> json option) option" where
  "tool_report name summary p =
     (let report = mapRecord (jfield name p)
      in case (jstring (jfield ''toolCallId'' report), jstring (jfield ''toolName'' report)) of
           (Some call, Some tool) \<Rightarrow> Some (call, tool, jfield summary report)
         | _ \<Rightarrow> None)"

definition mapAgentOutput :: "string \<Rightarrow> int \<Rightarrow> json \<Rightarrow> session_event option" where
  "mapAgentOutput sid turnSeq p =
     (case jstring (jfield ''delta'' p) of
        Some d \<Rightarrow> Some (EvAssistantDelta sid turnSeq d)
      | None \<Rightarrow>
     (case jstring (jfield ''progress'' p) of
        Some m \<Rightarrow> Some (EvProgress sid turnSeq m)
      | None \<Rightarrow>
     (case tool_report ''toolStarted'' ''inputSummary'' p of
        Some (call, tool, summary) \<Rightarrow> Some (EvToolStarted sid turnSeq call tool summary)
      | None \<Rightarrow>
     (case tool_report ''toolCompleted'' ''outputSummary'' p of
        Some (call, tool, summary) \<Rightarrow> Some (EvToolCompleted sid turnSeq call tool summary)
      | None \<Rightarrow>
          if truthy_json (jfield ''error'' p) then Some (EvInternal sid turnSeq ''agent.error'' (jfield ''error'' p))
          else
            let internal = mapRecord (jfield ''internalEvent'' p)
            in map_option (\<lambda>ty. EvInternal sid turnSeq ty (jfield ''data'' internal)) (jstring (jfield ''type'' internal))))))"

definition mapSessionEvent :: "runtime_event \<Rightarrow> session_event option" where
  "mapSessionEvent e =
     (if \<not> truthy (ev_sessionId e) then None
      else
        let sid = the (ev_sessionId e);
            p = mapRecord (jsonBody (ev_payload e));
            turnSeq = orElse (ev_turnSeq e) (orElse (jnumber (jfield ''turnSeq'' p)) 0);
            interaction = jstring (jfield ''interactionId'' p)
        in case ev_type e of
             SessionCreated \<Rightarrow> map_option (EvUserMessage sid turnSeq) (jstring (jfield ''message'' (mapRecord (jfield ''input'' p))))
           | InputAccepted \<Rightarrow> map_option (EvUserMessage sid turnSeq) (jstring (jfield ''message'' (mapRecord (jfield ''input'' p))))
           | StatusChanged \<Rightarrow> map_option (EvStatus sid turnSeq) (jstring (jfield ''status'' p))
           | SessionStatusUpdated \<Rightarrow> map_option (EvStatus sid turnSeq) (jstring (jfield ''status'' p))
           | TurnCompleted \<Rightarrow>
               let result = mapRecord (jfield ''result'' p)
               in Some (EvTurnCompleted sid turnSeq (jstring (jfield ''message'' result)) (jfield ''output'' result))
           | TurnFailed \<Rightarrow> Some (EvTurnFailed sid turnSeq (mapTurnError (jfield ''error'' p)))
           | InteractionRequested \<Rightarrow>
               map_option (\<lambda>i. EvInteractionRequested sid turnSeq i (event_kind p) (jfield ''request'' p)
                 (mapDelegatedInteractionSource (jfield ''source'' p))) interaction
           | InteractionResponded \<Rightarrow>
               map_option (\<lambda>i. EvInteractionResponded sid turnSeq i (event_kind p) (jfield ''response'' p)) interaction
           | InteractionInterrupted \<Rightarrow>
               (case (interaction, interrupt_reason (jfield ''reason'' p)) of
                  (Some i, Some r) \<Rightarrow> Some (EvInteractionInterrupted sid turnSeq i (event_kind p) r)
                | _ \<Rightarrow> None)
           | AgentOutput \<Rightarrow> mapAgentOutput sid turnSeq p
           | _ \<Rightarrow> None)"

subsection \<open>Errors\<close>

datatype sdk_error =
    ClosedBeforeAcknowledgement
  | AcknowledgementTimeout event_type
  | UnexpectedAcknowledgement event_type event_type
  | NotConnected
  | NegotiateFailed int
  | PropertyOfNull
  | InvalidSessionList
  | InvalidSessionSummary
  | WrongSession event_type
  | InvalidSessionEvents
  | InvalidSdkEvent
  | InvalidPairingInvite
  | InvalidDeviceRoster
  | InvalidDeviceView
  | CasePairingError string string
  | NoSessionId event_type
  | NoTurnSeq event_type
  | WrongInteraction
  | InteractionResponseError string string
  | InvalidResponseAcknowledgement

text \<open>A list of values read one by one: the first that is refused is the error.\<close>

fun read_all :: "('a \<Rightarrow> sdk_error + 'b) \<Rightarrow> 'a list \<Rightarrow> sdk_error + 'b list" where
  "read_all f [] = Inr []"
| "read_all f (x # xs) =
     (case f x of
        Inl err \<Rightarrow> Inl err
      | Inr y \<Rightarrow> (case read_all f xs of Inl err \<Rightarrow> Inl err | Inr ys \<Rightarrow> Inr (y # ys)))"

text \<open>The properties of an answer's payload: reading one of \<^verbatim>\<open>undefined\<close> or \<^verbatim>\<open>null\<close> throws.\<close>

definition with_payload :: "runtime_event \<Rightarrow> (json \<Rightarrow> sdk_error + 'a) \<Rightarrow> sdk_error + 'a" where
  "with_payload e f =
     (case jsonBody (ev_payload e) of None \<Rightarrow> Inl PropertyOfNull | Some p \<Rightarrow> if p = JNull then Inl PropertyOfNull else f p)"

subsection \<open>Reading the values of an answer\<close>

record session_summary =
  sum_sessionId :: string
  sum_parentSessionId :: "string option"
  sum_status :: string
  sum_agentSpecId :: string
  sum_owner :: string
  sum_currentWorkerId :: "string option"
  sum_eventCursor :: int
  sum_createdAt :: string
  sum_updatedAt :: string

definition toSessionSummary :: "json \<Rightarrow> sdk_error + session_summary" where
  "toSessionSummary v =
     (let spec = mapRecord (jfield ''resolvedAgentSpec'' v) in
      if \<not> is_string (jfield ''sessionId'' v) \<or> \<not> is_string (jfield ''status'' v) \<or> \<not> is_string (jfield ''agentSpecId'' spec)
         \<or> \<not> is_string (jfield ''owner'' v) \<or> \<not> is_number (jfield ''eventCursor'' v) \<or> \<not> is_string (jfield ''createdAt'' v)
         \<or> \<not> is_string (jfield ''updatedAt'' v) then Inl InvalidSessionSummary
      else Inr \<lparr>sum_sessionId = the (jstring (jfield ''sessionId'' v)), sum_parentSessionId = jstring (jfield ''parentSessionId'' v),
             sum_status = the (jstring (jfield ''status'' v)), sum_agentSpecId = the (jstring (jfield ''agentSpecId'' spec)),
             sum_owner = the (jstring (jfield ''owner'' v)), sum_currentWorkerId = jstring (jfield ''currentWorkerId'' v),
             sum_eventCursor = the (jnumber (jfield ''eventCursor'' v)), sum_createdAt = the (jstring (jfield ''createdAt'' v)),
             sum_updatedAt = the (jstring (jfield ''updatedAt'' v))\<rparr>)"

text \<open>\<open>None\<close> when there is no error to throw.\<close>

definition throwCaseError :: "json option \<Rightarrow> sdk_error option" where
  "throwCaseError v =
     (if v = None \<or> v = Some JNull then None
      else
        case jstring (jfield ''code'' (mapRecord v)) of
          Some code \<Rightarrow> Some (CasePairingError code (orElse (jstring (jfield ''message'' (mapRecord v))) code))
        | None \<Rightarrow> Some (CasePairingError ''case_pairing_failed'' ''case pairing request failed''))"

record sdk_invite =
  inv_caseId :: string
  inv_inviteId :: string
  inv_inviteSecret :: string
  inv_expiresAt :: string

definition toPairingInvite :: "json option \<Rightarrow> sdk_error + sdk_invite" where
  "toPairingInvite i =
     (let v = mapRecord i in
      if \<not> is_string (jfield ''caseId'' v) \<or> \<not> is_string (jfield ''inviteId'' v) \<or> \<not> is_string (jfield ''inviteSecret'' v)
         \<or> \<not> is_string (jfield ''expiresAt'' v) then Inl InvalidPairingInvite
      else Inr \<lparr>inv_caseId = the (jstring (jfield ''caseId'' v)), inv_inviteId = the (jstring (jfield ''inviteId'' v)),
             inv_inviteSecret = the (jstring (jfield ''inviteSecret'' v)), inv_expiresAt = the (jstring (jfield ''expiresAt'' v))\<rparr>)"

record sdk_device =
  dev_deviceRef :: string
  dev_deviceLabel :: string
  dev_online :: bool
  dev_ready :: bool
  dev_busy :: bool
  dev_workerId :: "string option"
  dev_lastHeartbeatAt :: "string option"
  dev_lastRedeemedAt :: string

fun jbool :: "json option \<Rightarrow> bool option" where
  "jbool (Some (JBool b)) = Some b"
| "jbool _ = None"

definition sdkCaseDeviceView :: "json \<Rightarrow> sdk_error + sdk_device" where
  "sdkCaseDeviceView v =
     (if \<not> is_string (jfield ''deviceRef'' v) \<or> \<not> is_string (jfield ''deviceLabel'' v) \<or> jbool (jfield ''online'' v) = None
         \<or> jbool (jfield ''ready'' v) = None \<or> jbool (jfield ''busy'' v) = None \<or> \<not> is_string (jfield ''lastRedeemedAt'' v)
      then Inl InvalidDeviceView
      else Inr \<lparr>dev_deviceRef = the (jstring (jfield ''deviceRef'' v)), dev_deviceLabel = the (jstring (jfield ''deviceLabel'' v)),
             dev_online = the (jbool (jfield ''online'' v)), dev_ready = the (jbool (jfield ''ready'' v)), dev_busy = the (jbool (jfield ''busy'' v)),
             dev_workerId = jstring (jfield ''workerId'' v), dev_lastHeartbeatAt = jstring (jfield ''lastHeartbeatAt'' v),
             dev_lastRedeemedAt = the (jstring (jfield ''lastRedeemedAt'' v))\<rparr>)"

subsection \<open>Requests and their answers\<close>

text \<open>
  The event a request publishes to the tenant inbox. A request waits under its acknowledgement id for an answer of a
  type, and reads it: \<open>listSessions\<close>, \<open>readSessionEvents\<close>, \<open>mintCasePairing\<close>, \<open>listCaseDevices\<close>, \<open>start\<close>, \<open>send\<close>
  and \<open>respondToInteraction\<close> are the event, the type and the reading together.
\<close>

definition tenantEvent :: "string \<Rightarrow> time \<Rightarrow> event_type \<Rightarrow> string option \<Rightarrow> string option \<Rightarrow> json \<Rightarrow> runtime_event" where
  "tenantEvent eid t ty sid ackId p =
     \<lparr>ev_eventId = eid, ev_sessionId = sid, ev_workerId = None, ev_ackId = ackId, ev_turnSeq = None, ev_sequence = 0, ev_type = ty,
      ev_timestamp = t, ev_actor = ClientActor, ev_sessionLeaseId = None, ev_payload = JsonPayload p\<rparr>"

definition listRequest :: "string \<Rightarrow> time \<Rightarrow> string \<Rightarrow> runtime_event" where
  "listRequest eid t ackId = tenantEvent eid t SessionListRequested None (Some ackId) (JObj [])"

definition listAnswer :: "runtime_event \<Rightarrow> sdk_error + session_summary list" where
  "listAnswer e =
     with_payload e (\<lambda>p. case jarray (jfield ''sessions'' p) of None \<Rightarrow> Inl InvalidSessionList | Some js \<Rightarrow> read_all toSessionSummary js)"

definition eventsRequest :: "string \<Rightarrow> time \<Rightarrow> string \<Rightarrow> string \<Rightarrow> int option \<Rightarrow> runtime_event" where
  "eventsRequest eid t ackId sid afterSequence =
     tenantEvent eid t SessionEventsRequested (Some sid) (Some ackId) (JObj [(''afterSequence'', JNum (orElse afterSequence 0))])"

text \<open>\<open>parse\<close> reads one event of the answer, \<open>None\<close> when it is refused.\<close>

definition eventsAnswer :: "(json \<Rightarrow> runtime_event option) \<Rightarrow> string \<Rightarrow> runtime_event \<Rightarrow> sdk_error + runtime_event list" where
  "eventsAnswer parse sid e =
     (if ev_sessionId e \<noteq> Some sid then Inl (WrongSession SessionEventsReplayed)
      else with_payload e (\<lambda>p. case jarray (jfield ''events'' p) of
             None \<Rightarrow> Inl InvalidSessionEvents
           | Some js \<Rightarrow> read_all (\<lambda>j. case parse j of None \<Rightarrow> Inl InvalidSdkEvent | Some e1 \<Rightarrow> Inr e1) js))"

definition mintRequest :: "string \<Rightarrow> time \<Rightarrow> string \<Rightarrow> string \<Rightarrow> runtime_event" where
  "mintRequest eid t ackId caseId = tenantEvent eid t CasePairingMintRequested None (Some ackId) (JObj [(''caseId'', JStr caseId)])"

definition mintAnswer :: "runtime_event \<Rightarrow> sdk_error + sdk_invite" where
  "mintAnswer e =
     with_payload e (\<lambda>p. case throwCaseError (jfield ''error'' p) of Some err \<Rightarrow> Inl err | None \<Rightarrow> toPairingInvite (jfield ''invite'' p))"

definition devicesRequest :: "string \<Rightarrow> time \<Rightarrow> string \<Rightarrow> string \<Rightarrow> runtime_event" where
  "devicesRequest eid t ackId caseId = tenantEvent eid t CaseDevicesRequested None (Some ackId) (JObj [(''caseId'', JStr caseId)])"

definition devicesAnswer :: "runtime_event \<Rightarrow> sdk_error + sdk_device list" where
  "devicesAnswer e =
     with_payload e (\<lambda>p.
       case throwCaseError (jfield ''error'' p) of
         Some err \<Rightarrow> Inl err
       | None \<Rightarrow>
           (case jarray (jfield ''devices'' p) of None \<Rightarrow> Inl InvalidDeviceRoster | Some js \<Rightarrow> read_all sdkCaseDeviceView js))"

text \<open>\<^verbatim>\<open>start\<close>: the agent by its id or as a reference, and the other fields of the input as JSON values.\<close>

definition toAgentSpecRef :: "string + json \<Rightarrow> json" where
  "toAgentSpecRef a = (case a of Inl spec \<Rightarrow> JObj [(''agentSpecId'', JStr spec)] | Inr r \<Rightarrow> r)"

definition startRequest ::
  "string \<Rightarrow> time \<Rightarrow> string \<Rightarrow> string + json \<Rightarrow> json option \<Rightarrow> (string \<Rightarrow> json option) \<Rightarrow> runtime_event" where
  "startRequest eid t ackId agent input field =
     tenantEvent eid t SessionCreateRequested None (Some ackId) (jobj
       [(''agent'', Some (toAgentSpecRef agent)), (''input'', input), (''displayName'', field ''displayName''),
        (''description'', field ''description''), (''externalId'', field ''externalId''),
        (''workspace'', Some (orElse (field ''workspace'') (JObj [(''source'', JStr ''empty'')]))), (''metadata'', field ''metadata'')])"

definition startAnswer :: "runtime_event \<Rightarrow> sdk_error + (string \<times> int)" where
  "startAnswer e =
     (if \<not> truthy (ev_sessionId e) then Inl (NoSessionId (ev_type e))
      else case ev_turnSeq e of None \<Rightarrow> Inl (NoTurnSeq SessionCreatedAck) | Some n \<Rightarrow> Inr (the (ev_sessionId e), n))"

definition sendRequest :: "string \<Rightarrow> time \<Rightarrow> string \<Rightarrow> string \<Rightarrow> json \<Rightarrow> runtime_event" where
  "sendRequest eid t ackId sid input = tenantEvent eid t InputReceived (Some sid) (Some ackId) (JObj [(''input'', input)])"

definition sendAnswer :: "string \<Rightarrow> runtime_event \<Rightarrow> sdk_error + int" where
  "sendAnswer sid e =
     (if ev_sessionId e \<noteq> Some sid then Inl (WrongSession InputAcceptedAck)
      else case ev_turnSeq e of None \<Rightarrow> Inl (NoTurnSeq InputAcceptedAck) | Some n \<Rightarrow> Inr n)"

text \<open>Requests without an answer.\<close>

definition pauseRequest :: "string \<Rightarrow> time \<Rightarrow> string \<Rightarrow> runtime_event" where
  "pauseRequest eid t sid = tenantEvent eid t SessionPauseRequested (Some sid) None (JObj [])"

definition resumeRequest :: "string \<Rightarrow> time \<Rightarrow> string \<Rightarrow> runtime_event" where
  "resumeRequest eid t sid = tenantEvent eid t SessionResumeRequested (Some sid) None (JObj [])"

definition cancelRequest :: "string \<Rightarrow> time \<Rightarrow> string \<Rightarrow> string option \<Rightarrow> runtime_event" where
  "cancelRequest eid t sid reason =
     tenantEvent eid t SessionCancelRequested (Some sid) None (jobj [(''reason'', map_option JStr reason)])"

definition respondRequest ::
  "string \<Rightarrow> time \<Rightarrow> string \<Rightarrow> string \<Rightarrow> string \<Rightarrow> string option \<Rightarrow> string option \<Rightarrow> json option \<Rightarrow> runtime_event" where
  "respondRequest eid t ackId sid iid decision scope result =
     tenantEvent eid t InteractionRespondRequested (Some sid) (Some ackId) (jobj
       [(''interactionId'', Some (JStr iid)), (''decision'', map_option JStr decision), (''scope'', map_option JStr scope), (''result'', result)])"

definition respondAnswer :: "string \<Rightarrow> runtime_event \<Rightarrow> sdk_error + resolve_status" where
  "respondAnswer iid e =
     (let p = mapRecord (jsonBody (ev_payload e)) in
      if jfield ''interactionId'' p \<noteq> Some (JStr iid) then Inl WrongInteraction
      else if jfield ''status'' p = Some (JStr ''rejected'') then
        (let err = mapRecord (jfield ''error'' p)
         in Inl (InteractionResponseError (orElse (jstring (jfield ''code'' err)) ''interaction_response_rejected'')
              (orElse (jstring (jfield ''message'' err)) ''interaction response was rejected'')))
      else if jfield ''status'' p = Some (JStr ''resolved'') then Inr NowResolved
      else if jfield ''status'' p = Some (JStr ''already_resolved'') then Inr AlreadyResolved
      else Inl InvalidResponseAcknowledgement)"

end
