(* ===== verification/ClientSession.thy ===== *)
theory ClientSession
  imports ClientSdk
begin

text \<open>
  The state of a client of the SDK: its connection and its pending acknowledgements (\<^verbatim>\<open>AgentRuntimeClient\<close>),
  and the two streams it builds from a session's events, \<^verbatim>\<open>SessionHandle.observe\<close> and \<^verbatim>\<open>AgentTurn.events\<close>.
  What other tasks do between two \<^verbatim>\<open>await\<close>s is a sequence of inputs of a state machine.
\<close>

subsection \<open>The client\<close>

text \<open>
  \<open>ck_transports\<close> counts the connections that were started and whose listener still runs; \<open>ck_client\<close> says that the last of
  them is the client; \<open>ck_connecting\<close> counts the calls of \<^verbatim>\<open>connect\<close> that await their connection. \<open>ck_settled\<close>
  has the type each settled acknowledgement was waiting for and what it was settled with, \<open>ck_calls\<close> the calls of the
  handlers of projection events.
\<close>

record sdk_client =
  ck_client :: bool
  ck_connecting :: nat
  ck_transports :: nat
  ck_inbox :: "string option"
  ck_private :: "string option"
  ck_pending :: "(string, event_type) table"
  ck_handlers :: "nat list"
  ck_settled :: "(string \<times> event_type \<times> (sdk_error + runtime_event)) list"
  ck_calls :: "(nat \<times> runtime_event) list"

definition new_client :: sdk_client where
  "new_client = \<lparr>ck_client = False, ck_connecting = 0, ck_transports = 0, ck_inbox = None, ck_private = None, ck_pending = [], ck_handlers = [],
     ck_settled = [], ck_calls = []\<rparr>"

definition tremove :: "'k \<Rightarrow> ('k, 'r) table \<Rightarrow> ('k, 'r) table" where
  "tremove k t = filter (\<lambda>p. fst p \<noteq> k) t"

lemma tget_tremove [tab_simps]: "tget (tremove k t) k1 = (if k1 = k then None else tget t k1)"
  by (induction t) (auto simp: tremove_def tget_def)

definition settleAck :: "string \<Rightarrow> event_type \<Rightarrow> sdk_error + runtime_event \<Rightarrow> sdk_client \<Rightarrow> sdk_client" where
  "settleAck ackId expected r c =
     c\<lparr>ck_pending := tremove ackId (ck_pending c), ck_settled := ck_settled c @ [(ackId, expected, r)]\<rparr>"

text \<open>
  \<^verbatim>\<open>connect\<close>: nothing to do with a client there; otherwise it begins, and ends after the negotiation and the
  connection were awaited. A second call that begins before the first one ends makes a second connection.
\<close>

definition connectBegins :: "sdk_client \<Rightarrow> sdk_client" where
  "connectBegins c = (if ck_client c then c else c\<lparr>ck_connecting := ck_connecting c + 1\<rparr>)"

definition connectEnds :: "string option \<Rightarrow> string option \<Rightarrow> sdk_client \<Rightarrow> sdk_client" where
  "connectEnds inbox private c =
     c\<lparr>ck_client := True, ck_connecting := ck_connecting c - 1, ck_transports := ck_transports c + 1,
       ck_inbox := inbox, ck_private := private\<rparr>"

definition grantGroups :: "string \<Rightarrow> bool \<Rightarrow> string option \<Rightarrow> string option \<times> string option" where
  "grantGroups tenantId clientInbox privateInbox =
     (if clientInbox then sdkToGroup tenantId SdkClientInbox else None,
      Option.bind privateInbox (\<lambda>c. sdkToGroup tenantId (SdkClientPrivateInbox c)))"

definition waitForAcknowledgement :: "string \<Rightarrow> event_type \<Rightarrow> sdk_client \<Rightarrow> sdk_client" where
  "waitForAcknowledgement ackId expectedType c = c\<lparr>ck_pending := tput ackId expectedType (ck_pending c)\<rparr>"

text \<open>The timer of an acknowledgement: it is cleared when the acknowledgement is settled.\<close>

definition acknowledgementTimeout :: "string \<Rightarrow> sdk_client \<Rightarrow> sdk_client" where
  "acknowledgementTimeout ackId c =
     (case tget (ck_pending c) ackId of None \<Rightarrow> c | Some ty \<Rightarrow> settleAck ackId ty (Inl (AcknowledgementTimeout ty)) c)"

definition dispatchPrivateAcknowledgement :: "runtime_event option \<Rightarrow> sdk_client \<Rightarrow> sdk_client" where
  "dispatchPrivateAcknowledgement m c =
     (case m of
        None \<Rightarrow> c
      | Some e \<Rightarrow>
          if \<not> truthy (ev_ackId e) then c
          else
            let ackId = the (ev_ackId e) in
            case tget (ck_pending c) ackId of
              None \<Rightarrow> c
            | Some expected \<Rightarrow>
                if ev_type e \<noteq> expected then settleAck ackId expected (Inl (UnexpectedAcknowledgement expected (ev_type e))) c
                else settleAck ackId expected (Inr e) c)"

definition dispatchClientProjectionEvent :: "runtime_event option \<Rightarrow> sdk_client \<Rightarrow> sdk_client" where
  "dispatchClientProjectionEvent m c =
     (case m of None \<Rightarrow> c | Some e \<Rightarrow> c\<lparr>ck_calls := ck_calls c @ map (\<lambda>h. (h, e)) (ck_handlers c)\<rparr>)"

text \<open>The listener of one connection, and a message that reaches every connection.\<close>

definition groupMessage :: "string \<Rightarrow> runtime_event option \<Rightarrow> sdk_client \<Rightarrow> sdk_client" where
  "groupMessage g m c =
     (let c1 = (if Some g = ck_private c then dispatchPrivateAcknowledgement m c else c)
      in if Some g = ck_inbox c1 then dispatchClientProjectionEvent m c1 else c1)"

definition messageArrives :: "string \<Rightarrow> runtime_event option \<Rightarrow> sdk_client \<Rightarrow> sdk_client" where
  "messageArrives g m c = (groupMessage g m ^^ ck_transports c) c"

definition disconnected :: "sdk_client \<Rightarrow> sdk_client" where
  "disconnected c = c\<lparr>ck_client := False, ck_transports := ck_transports c - (if ck_client c then 1 else 0),
     ck_inbox := None, ck_private := None, ck_handlers := []\<rparr>"

definition closeClient :: "sdk_client \<Rightarrow> sdk_client" where
  "closeClient c =
     disconnected (c\<lparr>ck_pending := [],
       ck_settled := ck_settled c @ map (\<lambda>(ackId, ty). (ackId, ty, Inl ClosedBeforeAcknowledgement)) (ck_pending c)\<rparr>)"

definition stopClient :: "sdk_client \<Rightarrow> sdk_client" where
  "stopClient c = disconnected c"

definition subscribeClientEvents :: "nat \<Rightarrow> sdk_client \<Rightarrow> sdk_client" where
  "subscribeClientEvents h c = c\<lparr>ck_handlers := (if h \<in> set (ck_handlers c) then ck_handlers c else ck_handlers c @ [h])\<rparr>"

definition unsubscribeClientEvents :: "nat \<Rightarrow> sdk_client \<Rightarrow> sdk_client" where
  "unsubscribeClientEvents h c = c\<lparr>ck_handlers := filter (\<lambda>h1. h1 \<noteq> h) (ck_handlers c)\<rparr>"

text \<open>The steps of a client. An acknowledgement id is a new UUID.\<close>

inductive client_step :: "sdk_client \<Rightarrow> sdk_client \<Rightarrow> bool" where
  ConnectBegins: "client_step c (connectBegins c)"
| ConnectEnds: "0 < ck_connecting c \<Longrightarrow> client_step c (connectEnds inbox private c)"
| Waits: "tget (ck_pending c) ackId = None \<Longrightarrow> ackId \<notin> fst ` set (ck_settled c) \<Longrightarrow>
    client_step c (waitForAcknowledgement ackId ty c)"
| TimesOut: "client_step c (acknowledgementTimeout ackId c)"
| Message: "client_step c (messageArrives g m c)"
| Closes: "client_step c (closeClient c)"
| Stops: "client_step c (stopClient c)"
| Subscribes: "client_step c (subscribeClientEvents h c)"
| Unsubscribes: "client_step c (unsubscribeClientEvents h c)"

definition client_reachable :: "sdk_client \<Rightarrow> bool" where
  "client_reachable = client_step\<^sup>*\<^sup>* new_client"

subsection \<open>Observing a session\<close>

text \<open>
  \<open>ob_ready\<close> and \<open>ob_backlog\<close> are the lists of \<^verbatim>\<open>observe\<close>; \<open>ob_yielded\<close> is what the consumer has got.
\<close>

record observer =
  ob_ready :: "session_event list"
  ob_yielded :: "session_event list"
  ob_backlog :: "runtime_event list"
  ob_seen :: "string list"
  ob_flushed :: bool
  ob_closed :: bool

definition observeStart :: "bool \<Rightarrow> observer" where
  "observeStart includeHistory =
     \<lparr>ob_ready = [], ob_yielded = [], ob_backlog = [], ob_seen = [], ob_flushed = (\<not> includeHistory), ob_closed = False\<rparr>"

definition emit :: "runtime_event \<Rightarrow> observer \<Rightarrow> observer" where
  "emit e ob =
     (if ev_eventId e \<in> set (ob_seen ob) then ob
      else
        let ob1 = ob\<lparr>ob_seen := ev_eventId e # ob_seen ob\<rparr>
        in case mapSessionEvent e of None \<Rightarrow> ob1 | Some m \<Rightarrow> ob1\<lparr>ob_ready := ob_ready ob @ [m]\<rparr>)"

definition emitAll :: "runtime_event list \<Rightarrow> observer \<Rightarrow> observer" where
  "emitAll es ob = fold emit es ob"

datatype stream_input = Live runtime_event | History "runtime_event list option" | Take | Abort

text \<open>
  A live event; the answer to the read of the history, \<open>None\<close> when it failed; the consumer asks for the next event;
  the caller aborts.
\<close>

definition onLive :: "runtime_event \<Rightarrow> observer \<Rightarrow> observer" where
  "onLive e ob = (if ob_flushed ob then emit e ob else ob\<lparr>ob_backlog := ob_backlog ob @ [e]\<rparr>)"

definition onHistory :: "runtime_event list option \<Rightarrow> observer \<Rightarrow> observer" where
  "onHistory h ob =
     (let ob1 = emitAll (orElse h []) ob; ob2 = emitAll (ob_backlog ob1) (ob1\<lparr>ob_flushed := True\<rparr>)
      in ob2\<lparr>ob_backlog := []\<rparr>)"

definition onTake :: "observer \<Rightarrow> observer" where
  "onTake ob =
     (if ob_closed ob \<or> \<not> ob_flushed ob then ob
      else case ob_ready ob of [] \<Rightarrow> ob | m # ms \<Rightarrow> ob\<lparr>ob_ready := ms, ob_yielded := ob_yielded ob @ [m]\<rparr>)"

fun observe :: "stream_input \<Rightarrow> observer \<Rightarrow> observer" where
  "observe (Live e) ob = onLive e ob"
| "observe (History h) ob = onHistory h ob"
| "observe Take ob = onTake ob"
| "observe Abort ob = ob\<lparr>ob_closed := True\<rparr>"

definition observeAll :: "stream_input list \<Rightarrow> observer \<Rightarrow> observer" where
  "observeAll ins ob = fold observe ins ob"

subsection \<open>The events of one turn\<close>

record turn_stream =
  ts_pending :: "session_event list"
  ts_yielded :: "session_event list"
  ts_seen :: "string list"
  ts_closed :: bool
  ts_aborted :: bool

definition turnStart :: "string \<Rightarrow> int \<Rightarrow> turn_stream" where
  "turnStart sid turnSeq =
     \<lparr>ts_pending = [EvTurnStarted sid turnSeq], ts_yielded = [], ts_seen = [], ts_closed = False, ts_aborted = False\<rparr>"

fun turn_type :: "session_event \<Rightarrow> bool" where
  "turn_type (EvUserMessage _ _ _) = False"
| "turn_type (EvStatus _ _ _) = False"
| "turn_type (EvInteractionRequested _ _ _ _ _ _) = False"
| "turn_type (EvInteractionResponded _ _ _ _ _) = False"
| "turn_type (EvInteractionInterrupted _ _ _ _ _) = False"
| "turn_type _ = True"

fun ends_turn :: "session_event \<Rightarrow> bool" where
  "ends_turn (EvTurnCompleted _ _ _ _) = True"
| "ends_turn (EvTurnFailed _ _ _) = True"
| "ends_turn _ = False"

definition toTurnEvent :: "int \<Rightarrow> runtime_event \<Rightarrow> session_event option" where
  "toTurnEvent turnSeq e =
     (case mapSessionEvent e of None \<Rightarrow> None | Some m \<Rightarrow> if event_turn m = turnSeq \<and> turn_type m then Some m else None)"

definition enqueue :: "int \<Rightarrow> runtime_event \<Rightarrow> turn_stream \<Rightarrow> turn_stream" where
  "enqueue turnSeq e ts =
     (if ev_eventId e \<in> set (ts_seen ts) then ts
      else
        let ts1 = ts\<lparr>ts_seen := ev_eventId e # ts_seen ts\<rparr>
        in case toTurnEvent turnSeq e of
             None \<Rightarrow> ts1
           | Some m \<Rightarrow> ts1\<lparr>ts_pending := ts_pending ts @ [m], ts_closed := (ts_closed ts \<or> ends_turn m)\<rparr>)"

definition replayFailed :: "string \<Rightarrow> int \<Rightarrow> string \<Rightarrow> turn_stream \<Rightarrow> turn_stream" where
  "replayFailed sid turnSeq text ts =
     ts\<lparr>ts_pending := ts_pending ts @ [EvTurnFailed sid turnSeq \<lparr>te_message = text, te_code = Some ''event_replay_failed'', te_details = None\<rparr>],
        ts_closed := True\<rparr>"

text \<open>An abort makes the next step of the loop throw, and the consumer gets no more events.\<close>

fun turnInput :: "string \<Rightarrow> int \<Rightarrow> string \<Rightarrow> stream_input \<Rightarrow> turn_stream \<Rightarrow> turn_stream" where
  "turnInput sid turnSeq text (Live e) ts = enqueue turnSeq e ts"
| "turnInput sid turnSeq text (History (Some es)) ts = fold (enqueue turnSeq) es ts"
| "turnInput sid turnSeq text (History None) ts = replayFailed sid turnSeq text ts"
| "turnInput sid turnSeq text Take ts =
     (if ts_aborted ts then ts
      else case ts_pending ts of [] \<Rightarrow> ts | m # ms \<Rightarrow> ts\<lparr>ts_pending := ms, ts_yielded := ts_yielded ts @ [m]\<rparr>)"
| "turnInput sid turnSeq text Abort ts = ts\<lparr>ts_closed := True, ts_aborted := True\<rparr>"

text \<open>
  The generator has ended when the loop leaves: then nothing more is yielded. \<^verbatim>\<open>waitForResult\<close> gives the
  first event that ends the turn, as a result or as an error.
\<close>

definition turnEnded :: "turn_stream \<Rightarrow> bool" where
  "turnEnded ts = (ts_aborted ts \<or> ts_closed ts \<and> ts_pending ts = [])"

fun turnStep :: "string \<Rightarrow> int \<Rightarrow> string \<Rightarrow> stream_input \<Rightarrow> turn_stream \<Rightarrow> turn_stream" where
  "turnStep sid turnSeq text i ts = (if turnEnded ts then ts else turnInput sid turnSeq text i ts)"

definition turnRun :: "string \<Rightarrow> int \<Rightarrow> string \<Rightarrow> stream_input list \<Rightarrow> turn_stream" where
  "turnRun sid turnSeq text ins = fold (turnStep sid turnSeq text) ins (turnStart sid turnSeq)"

definition waitForResult :: "turn_stream \<Rightarrow> (string + string option \<times> json option) option" where
  "waitForResult ts =
     (case find ends_turn (ts_yielded ts) of
        Some (EvTurnCompleted _ _ m out) \<Rightarrow> Some (Inr (m, out))
      | Some (EvTurnFailed _ _ err) \<Rightarrow> Some (Inl (te_message err))
      | _ \<Rightarrow> None)"

end
