(* ===== verification/ClientProps.thy ===== *)
theory ClientProps
  imports ClientSession
begin

text \<open>
  The client of the SDK: each acknowledgement is settled once and by its own answer, an observer shows the log of the session,
  a turn gets the result that was logged.
\<close>

subsection \<open>Acknowledgements\<close>

definition settled_ok :: "sdk_client \<Rightarrow> bool" where
  "settled_ok c =
     (distinct (map fst (ck_pending c)) \<and> distinct (map fst (ck_settled c))
      \<and> (\<forall>a \<in> fst ` set (ck_settled c). a \<notin> fst ` set (ck_pending c))
      \<and> (\<forall>(a, ty, r) \<in> set (ck_settled c). \<forall>e. r = Inr e \<longrightarrow> ev_ackId e = Some a \<and> ev_type e = ty))"

lemma settled_ok_pending:
  "settled_ok c \<Longrightarrow> tget (ck_pending c) a = Some ty \<Longrightarrow> a \<notin> fst ` set (ck_settled c)"
  by (auto simp: settled_ok_def tget_def dest!: map_of_SomeD) force+

lemma settle_ok:
  assumes "settled_ok c" and "tget (ck_pending c) a = Some ty"
    and "\<And>e. r = Inr e \<Longrightarrow> ev_ackId e = Some a \<and> ev_type e = ty"
  shows "settled_ok (settleAck a ty r c)"
  using assms settled_ok_pending [OF assms(1,2)]
  by (auto simp: settled_ok_def settleAck_def tremove_def distinct_map_filter)

lemma settled_ok_frame:
  "ck_pending c1 = ck_pending c \<Longrightarrow> ck_settled c1 = ck_settled c \<Longrightarrow> settled_ok c \<Longrightarrow> settled_ok c1"
  by (simp add: settled_ok_def)

lemma dispatch_ok: "settled_ok c \<Longrightarrow> settled_ok (dispatchPrivateAcknowledgement m c)"
  by (auto simp: dispatchPrivateAcknowledgement_def Let_def intro!: settle_ok split: option.splits elim!: truthyE)

lemma projection_ok: "settled_ok c \<Longrightarrow> settled_ok (dispatchClientProjectionEvent m c)"
  by (rule settled_ok_frame [where c = c]) (auto simp: dispatchClientProjectionEvent_def split: option.splits)

lemma message_ok: "settled_ok c \<Longrightarrow> settled_ok (messageArrives g m c)"
proof -
  have step: "settled_ok c \<Longrightarrow> settled_ok (groupMessage g m c)" for c
    by (auto simp: groupMessage_def Let_def intro: projection_ok dispatch_ok)
  have "settled_ok c \<Longrightarrow> settled_ok ((groupMessage g m ^^ n) c)" for n
    by (induction n) (auto intro: step)
  then show "settled_ok c \<Longrightarrow> ?thesis" by (simp add: messageArrives_def)
qed

lemma close_ok: "settled_ok c \<Longrightarrow> settled_ok (closeClient c)"
  by (auto simp: settled_ok_def closeClient_def disconnected_def comp_def split_def)

lemma wait_ok:
  assumes "settled_ok c" and "tget (ck_pending c) a = None" and "a \<notin> fst ` set (ck_settled c)"
  shows "settled_ok (waitForAcknowledgement a ty c)"
  using assms by (auto simp: settled_ok_def waitForAcknowledgement_def tput_def distinct_update set_update_keyed dom_update)

lemma step_ok: "client_step c c1 \<Longrightarrow> settled_ok c \<Longrightarrow> settled_ok c1"
proof (induction rule: client_step.induct)
  case (TimesOut c a)
  then show ?case by (auto simp: acknowledgementTimeout_def intro: settle_ok split: option.splits)
next
  case (Waits c a ty)
  then show ?case by (blast intro: wait_ok)
qed (simp_all add: message_ok close_ok settled_ok_frame connectBegins_def connectEnds_def stopClient_def disconnected_def
      subscribeClientEvents_def unsubscribeClientEvents_def)

text \<open>
  C30: Every acknowledgement is settled at most once, and by its own answer. Whatever the client does and whatever messages,
  timeouts, connections and closes come in whatever order: no acknowledgement is settled twice or settled while it still
  waits, and one that is resolved is resolved with an event that carries its id and has the type it waited for.
\<close>

theorem acknowledgement_settles_once:
  assumes "client_reachable c"
  shows "distinct (map fst (ck_settled c))
    \<and> (\<forall>(a, ty, r) \<in> set (ck_settled c). tget (ck_pending c) a = None
         \<and> (case r of Inl err \<Rightarrow> True | Inr e \<Rightarrow> ev_ackId e = Some a \<and> ev_type e = ty))"
proof -
  have "settled_ok c"
    using assms unfolding client_reachable_def
  proof (induction rule: rtranclp_induct)
    case base
    show ?case by (simp add: new_client_def settled_ok_def)
  next
    case (step c c1)
    then show ?case by (blast intro: step_ok)
  qed
  then show ?thesis
    by (force simp: settled_ok_def tget_def map_of_eq_None_iff split: sum.splits)
qed

definition ex_output :: "string \<Rightarrow> string \<Rightarrow> runtime_event" where
  "ex_output eid d =
     \<lparr>ev_eventId = eid, ev_sessionId = Some ''s'', ev_workerId = None, ev_ackId = None, ev_turnSeq = Some 1, ev_sequence = 1,
      ev_type = AgentOutput, ev_timestamp = 0, ev_actor = SidecarActor, ev_sessionLeaseId = None,
      ev_payload = JsonPayload (JObj [(''delta'', JStr d)])\<rparr>"

definition ex_completed :: "string \<Rightarrow> string \<Rightarrow> runtime_event" where
  "ex_completed eid m = (ex_output eid [])\<lparr>ev_type := TurnCompleted,
     ev_payload := JsonPayload (JObj [(''result'', JObj [(''message'', JStr m)])])\<rparr>"

theorem acknowledgement_settles_once_witness:
  "\<exists>c. client_reachable c \<and> fst ` set (ck_settled c) = {''a''} \<and> tget (ck_pending c) ''a'' = None"
proof -
  let ?e = "(ex_output ''1'' [])\<lparr>ev_ackId := Some ''a'', ev_type := SessionListed\<rparr>"
  let ?c1 = "connectEnds None (Some ''g'') (connectBegins new_client)"
  let ?c2 = "waitForAcknowledgement ''a'' SessionListed ?c1"
  let ?c3 = "messageArrives ''g'' (Some ?e) ?c2"
  have "client_step new_client (connectBegins new_client)" by (rule ConnectBegins)
  moreover have "client_step (connectBegins new_client) ?c1" by (rule ConnectEnds) (simp add: connectBegins_def new_client_def)
  moreover have "client_step ?c1 ?c2" by (rule Waits) (simp_all add: connectEnds_def connectBegins_def new_client_def)
  moreover have "client_step ?c2 ?c3" by (rule Message)
  ultimately have r: "client_reachable ?c3" unfolding client_reachable_def
    by (auto intro: rtranclp.rtrancl_into_rtrancl)
  have settled: "ck_settled ?c3 = [(''a'', SessionListed, Inr ?e)]"
    by (simp add: messageArrives_def groupMessage_def connectEnds_def connectBegins_def new_client_def waitForAcknowledgement_def
        dispatchPrivateAcknowledgement_def settleAck_def tab_simps Let_def)
  moreover from this have "tget (ck_pending ?c3) ''a'' = None" using acknowledgement_settles_once [OF r] by simp
  ultimately have "fst ` set (ck_settled ?c3) = {''a''} \<and> tget (ck_pending ?c3) ''a'' = None" by simp
  with r show ?thesis by blast
qed

text \<open>Two calls that connect at the same time leave two connections, and a projection event is handled twice.\<close>

lemma two_connections_handle_twice:
  assumes "h \<in> set (ck_handlers c)" and "\<not> ck_client c"
  shows "ck_transports (connectEnds i p (connectEnds i p (connectBegins (connectBegins c)))) = ck_transports c + 2"
    and "ck_private c1 = None \<Longrightarrow> ck_inbox c1 = Some g \<Longrightarrow> ck_transports c1 = 2 \<Longrightarrow> ck_handlers c1 = [h] \<Longrightarrow>
      ck_calls (messageArrives g (Some e) c1) = ck_calls c1 @ [(h, e), (h, e)]"
  using assms by (simp_all add: connectEnds_def connectBegins_def messageArrives_def groupMessage_def
      dispatchClientProjectionEvent_def numeral_2_eq_2)

subsection \<open>Observers\<close>

definition emitted :: "observer \<Rightarrow> session_event list" where
  "emitted ob = ob_yielded ob @ ob_ready ob"

text \<open>The observer has emitted the first \<open>m\<close> events of the log.\<close>

definition shows_log :: "runtime_event list \<Rightarrow> nat \<Rightarrow> observer \<Rightarrow> bool" where
  "shows_log log m ob =
     (set (ob_seen ob) = ev_eventId ` set (take m log) \<and> emitted ob = List.map_filter mapSessionEvent (take m log))"

lemma emit_frames [simp]:
  "ob_backlog (emit e ob) = ob_backlog ob" "ob_flushed (emit e ob) = ob_flushed ob" "ob_closed (emit e ob) = ob_closed ob"
  "ob_yielded (emit e ob) = ob_yielded ob"
  by (auto simp: emit_def Let_def split: option.splits)

lemma emitAll_frames [simp]:
  "ob_backlog (emitAll es ob) = ob_backlog ob" "ob_flushed (emitAll es ob) = ob_flushed ob"
  by (induction es arbitrary: ob) (auto simp: emitAll_def)

lemma emit_next:
  assumes "distinct (map ev_eventId log)" and "shows_log log m ob" and "i \<le> m" and "i < length log"
  shows "shows_log log (max m (Suc i)) (emit (log ! i) ob)"
proof (cases "i < m")
  case True
  with assms(4) have "log ! i \<in> set (take m log)" by (force simp: in_set_conv_nth)
  with assms(2) have "ev_eventId (log ! i) \<in> set (ob_seen ob)" by (auto simp: shows_log_def)
  moreover from True have "max m (Suc i) = m" by simp
  ultimately show ?thesis using assms(2) by (simp only: emit_def if_True)
next
  case False
  with assms(3) have i: "i = m" by simp
  have "ev_eventId (log ! m) \<notin> ev_eventId ` set (take m log)"
  proof
    assume "ev_eventId (log ! m) \<in> ev_eventId ` set (take m log)"
    then obtain j where j: "j < m" "ev_eventId (log ! j) = ev_eventId (log ! m)" by (auto simp: in_set_conv_nth)
    with assms(4) i have "map ev_eventId log ! j = map ev_eventId log ! m" by simp
    with assms(1) j(1) assms(4) i show False by (subst (asm) nth_eq_iff_index_eq) auto
  qed
  with assms(2,4) i show ?thesis
    by (auto simp: shows_log_def emit_def emitted_def Let_def take_Suc_conv_app_nth List.map_filter_def split: option.splits)
qed

lemma emit_segment:
  assumes "distinct (map ev_eventId log)" and "shows_log log m ob" and "k \<le> m"
  shows "shows_log log (max m (k + n)) (emitAll (take n (drop k log)) ob)"
  using assms(2,3)
proof (induction n)
  case 0
  then show ?case by (simp add: emitAll_def)
next
  case (Suc n)
  let ?ob = "emitAll (take n (drop k log)) ob"
  show ?case
  proof (cases "k + n < length log")
    case True
    then have "take (Suc n) (drop k log) = take n (drop k log) @ [log ! (k + n)]"
      by (simp add: take_Suc_conv_app_nth)
    then have "emitAll (take (Suc n) (drop k log)) ob = emit (log ! (k + n)) ?ob" by (simp add: emitAll_def)
    moreover have "shows_log log (max (max m (k + n)) (Suc (k + n))) (emit (log ! (k + n)) ?ob)"
      by (rule emit_next [OF assms(1) _ _ True]) (use Suc in auto)
    ultimately show ?thesis by (simp add: max_def split: if_splits)
  next
    case False
    then have "take (Suc n) (drop k log) = take n (drop k log)" and "take (max m (k + Suc n)) log = take (max m (k + n)) log" by simp_all
    with Suc show ?thesis by (simp add: shows_log_def)
  qed
qed

fun lives :: "stream_input list \<Rightarrow> runtime_event list" where
  "lives [] = []"
| "lives (Live e # ins) = e # lives ins"
| "lives (_ # ins) = lives ins"

fun histories :: "stream_input list \<Rightarrow> runtime_event list option list" where
  "histories [] = []"
| "histories (History h # ins) = h # histories ins"
| "histories (_ # ins) = histories ins"

lemma lives_append [simp]: "lives (a @ b) = lives a @ lives b"
  by (induction a rule: lives.induct) auto

lemma histories_append [simp]: "histories (a @ b) = histories a @ histories b"
  by (induction a rule: histories.induct) auto

lemma observeAll_snoc: "observeAll (ins @ [i]) ob = observe i (observeAll ins ob)"
  by (simp add: observeAll_def)

lemma take_abort_shows:
  "shows_log log m (observe Take ob) = shows_log log m ob" "shows_log log m (observe Abort ob) = shows_log log m ob"
  by (auto simp: shows_log_def emitted_def onTake_def split: list.splits)

lemma take_abort_frames:
  "ob_flushed (observe Take ob) = ob_flushed ob" "ob_backlog (observe Take ob) = ob_backlog ob"
  "ob_flushed (observe Abort ob) = ob_flushed ob" "ob_backlog (observe Abort ob) = ob_backlog ob"
  by (auto simp: onTake_def split: list.splits)

text \<open>What the observer is after some inputs: it waits for the history, or it has shown the log so far.\<close>

definition observing :: "runtime_event list \<Rightarrow> nat \<Rightarrow> nat \<Rightarrow> stream_input list \<Rightarrow> observer \<Rightarrow> bool" where
  "observing log k L ins ob =
     (if histories ins = [] then \<not> ob_flushed ob \<and> ob_backlog ob = lives ins \<and> shows_log log 0 ob
      else ob_flushed ob \<and> shows_log log (max L (k + length (lives ins))) ob)"

lemma observing_run:
  assumes "distinct (map ev_eventId log)" and "k \<le> L"
  shows "\<lbrakk>prefix (lives ins) (drop k log); histories ins = [] \<or> histories ins = [Some (take L log)]\<rbrakk> \<Longrightarrow>
    observing log k L ins (observeAll ins (observeStart True))"
proof (induction ins rule: rev_induct)
  case Nil
  show ?case by (simp add: observing_def observeAll_def observeStart_def shows_log_def emitted_def List.map_filter_def)
next
  case (snoc i ins)
  let ?ob = "observeAll ins (observeStart True)"
  have lives: "lives ins = take (length (lives ins)) (drop k log)"
    using snoc.prems(1) by (auto simp: prefix_def)
  have before: "observing log k L ins ?ob"
    using snoc.prems by (intro snoc.IH) (auto simp: prefix_def append_eq_Cons_conv)
  show ?case
  proof (cases i)
    case (Live e)
    from snoc.prems(1) Live obtain rest where r: "drop k log = lives ins @ e # rest" by (auto simp: prefix_def)
    then have "length (lives ins) < length (drop k log)" by simp
    then have lt: "k + length (lives ins) < length log" by simp
    from lt have "log ! (k + length (lives ins)) = drop k log ! length (lives ins)" by simp
    also from r have "\<dots> = e" by simp
    finally have e: "log ! (k + length (lives ins)) = e" .
    show ?thesis
    proof (cases "histories ins = []")
      case True
      with before Live show ?thesis by (simp add: observing_def observeAll_snoc onLive_def shows_log_def emitted_def)
    next
      case False
      with before have "ob_flushed ?ob" and shown: "shows_log log (max L (k + length (lives ins))) ?ob" by (simp_all add: observing_def)
      moreover have "shows_log log (max (max L (k + length (lives ins))) (Suc (k + length (lives ins)))) (emit e ?ob)"
        using emit_next [OF assms(1) shown _ lt] by (simp add: e)
      ultimately show ?thesis using False Live
        by (simp add: observing_def observeAll_snoc onLive_def max_def split: if_splits)
    qed
  next
    case (History h)
    with snoc.prems(2) have h: "histories ins = []" "h = Some (take L log)" by auto
    with before have b: "\<not> ob_flushed ?ob" "ob_backlog ?ob = lives ins" "shows_log log 0 ?ob" by (simp_all add: observing_def)
    let ?ob1 = "emitAll (take L log) ?ob"
    have "shows_log log L ?ob1" using emit_segment [OF assms(1) b(3), of 0 L] by simp
    then have "shows_log log L (?ob1\<lparr>ob_flushed := True\<rparr>)" by (simp add: shows_log_def emitted_def)
    from emit_segment [OF assms(1) this assms(2), of "length (lives ins)"] lives
    have "shows_log log (max L (k + length (lives ins))) (emitAll (lives ins) (?ob1\<lparr>ob_flushed := True\<rparr>))" by simp
    with h b History show ?thesis
      by (simp add: observing_def observeAll_snoc onHistory_def Let_def shows_log_def emitted_def)
  next
    case Take
    with before show ?thesis by (simp add: observing_def observeAll_snoc take_abort_shows take_abort_frames del: observe.simps)
  next
    case Abort
    with before show ?thesis by (simp add: observing_def observeAll_snoc take_abort_shows take_abort_frames del: observe.simps)
  qed
qed



end
