(* ===== verification/ClientTurns.thy ===== *)
theory ClientTurns
  imports ClientProps
begin

text \<open>
  The stream of one turn, \<^verbatim>\<open>AgentTurn.events\<close> and \<^verbatim>\<open>waitForResult\<close>: the result of the turn is the one that was
  logged, though the events before it may come in another order or not at all.
\<close>

definition turn_events :: "turn_stream \<Rightarrow> session_event list" where
  "turn_events ts = ts_yielded ts @ ts_pending ts"

fun input_events :: "stream_input \<Rightarrow> runtime_event list" where
  "input_events (Live e) = [e]"
| "input_events (History (Some es)) = es"
| "input_events _ = []"

text \<open>The inputs of a turn that is not aborted and whose replay does not fail, with events of the log only.\<close>

definition plain_inputs :: "runtime_event list \<Rightarrow> stream_input list \<Rightarrow> bool" where
  "plain_inputs log ins =
     (Abort \<notin> set ins \<and> History None \<notin> set ins \<and> (\<forall>i \<in> set ins. set (input_events i) \<subseteq> set log))"

text \<open>\<open>m\<close> is the event of the log that ends the turn.\<close>

definition ends_with :: "runtime_event list \<Rightarrow> int \<Rightarrow> session_event \<Rightarrow> bool" where
  "ends_with log n m =
     (ends_turn m \<and> (\<forall>e \<in> set log. \<forall>m1. toTurnEvent n e = Some m1 \<and> ends_turn m1 \<longrightarrow> m1 = m))"

definition turn_ok :: "runtime_event list \<Rightarrow> int \<Rightarrow> session_event \<Rightarrow> turn_stream \<Rightarrow> bool" where
  "turn_ok log n m ts =
     (\<not> ts_aborted ts \<and> (\<forall>x \<in> set (turn_events ts). ends_turn x \<longrightarrow> x = m)
      \<and> (ts_closed ts \<longleftrightarrow> m \<in> set (turn_events ts))
      \<and> (\<forall>e \<in> set log. ev_eventId e \<in> set (ts_seen ts) \<longrightarrow> (\<forall>x. toTurnEvent n e = Some x \<longrightarrow> x \<in> set (turn_events ts))))"

lemma enqueue_ok:
  assumes "distinct (map ev_eventId log)" and "ends_with log n m" and "turn_ok log n m ts" and "e \<in> set log"
  shows "turn_ok log n m (enqueue n e ts) \<and> ev_eventId e \<in> set (ts_seen (enqueue n e ts))
    \<and> set (ts_seen ts) \<subseteq> set (ts_seen (enqueue n e ts))"
proof (cases "ev_eventId e \<in> set (ts_seen ts)")
  case True
  with assms(3) show ?thesis by (simp add: enqueue_def)
next
  case False
  have same: "\<And>e1. e1 \<in> set log \<Longrightarrow> ev_eventId e1 = ev_eventId e \<longleftrightarrow> e1 = e"
    using assms(1,4) by (auto simp: distinct_map inj_on_def)
  show ?thesis
  proof (cases "toTurnEvent n e")
    case None
    with False assms(3) show ?thesis by (auto simp: enqueue_def turn_ok_def turn_events_def Let_def same)
  next
    case (Some x)
    with assms(2,4) have "ends_turn x \<Longrightarrow> x = m" "ends_turn m" by (auto simp: ends_with_def)
    with Some False assms(3) show ?thesis by (auto simp: enqueue_def turn_ok_def turn_events_def Let_def same)
  qed
qed

lemma enqueues_ok:
  assumes "distinct (map ev_eventId log)" and "ends_with log n m"
  shows "turn_ok log n m ts \<Longrightarrow> set es \<subseteq> set log \<Longrightarrow>
    turn_ok log n m (fold (enqueue n) es ts)
    \<and> ev_eventId ` set es \<union> set (ts_seen ts) \<subseteq> set (ts_seen (fold (enqueue n) es ts))"
proof (induction es arbitrary: ts)
  case Nil
  then show ?case by simp
next
  case (Cons e es)
  with enqueue_ok [OF assms, of ts e] have "turn_ok log n m (enqueue n e ts)"
    "insert (ev_eventId e) (set (ts_seen ts)) \<subseteq> set (ts_seen (enqueue n e ts))" by auto
  with Cons.IH [of "enqueue n e ts"] Cons.prems show ?case by auto
qed

lemma enqueue_grows: "set (turn_events ts) \<subseteq> set (turn_events (enqueue n e ts))"
  by (auto simp: enqueue_def turn_events_def Let_def split: option.splits)

lemma grows: "set (turn_events ts) \<subseteq> set (turn_events (fold (enqueue n) es ts))"
proof (induction es arbitrary: ts)
  case Nil
  show ?case by simp
next
  case (Cons e es)
  have "set (turn_events (enqueue n e ts)) \<subseteq> set (turn_events (fold (enqueue n) es (enqueue n e ts)))" by (rule Cons.IH)
  with enqueue_grows [of ts n e] show ?case by simp
qed

lemma take_events: "turn_events (turnInput sid n t Take ts) = turn_events ts"
  by (auto simp: turn_events_def split: list.splits)

lemma take_frames:
  "ts_seen (turnInput sid n t Take ts) = ts_seen ts" "ts_closed (turnInput sid n t Take ts) = ts_closed ts"
  "ts_aborted (turnInput sid n t Take ts) = ts_aborted ts"
  by (auto split: list.splits)

lemma turnStep_ok:
  assumes "distinct (map ev_eventId log)" and "ends_with log n m" and "turn_ok log n m ts" and "plain_inputs log [i]"
  shows "turn_ok log n m (turnStep sid n t i ts) \<and> set (turn_events ts) \<subseteq> set (turn_events (turnStep sid n t i ts))"
proof (cases "turnEnded ts")
  case True
  with assms(3) show ?thesis by simp
next
  case False
  show ?thesis
  proof (cases i)
    case (Live e)
    with False assms(4) enqueues_ok [OF assms(1-3), of "[e]"] grows [of ts n "[e]"] show ?thesis by (simp add: plain_inputs_def)
  next
    case (History h)
    with assms(4) obtain es where "h = Some es" "set es \<subseteq> set log" by (cases h) (auto simp: plain_inputs_def)
    with False History enqueues_ok [OF assms(1-3), of es] grows [of ts n es] show ?thesis by simp
  next
    case Take
    with False assms(3) show ?thesis
      by (simp add: turn_ok_def take_events take_frames del: turnInput.simps)
  next
    case Abort
    with assms(4) show ?thesis by (simp add: plain_inputs_def)
  qed
qed

lemma turnRun_snoc: "turnRun sid n t (ins @ [i]) = turnStep sid n t i (turnRun sid n t ins)"
  by (simp add: turnRun_def)

lemma turnRun_ok:
  assumes "distinct (map ev_eventId log)" and "ends_with log n m" and "f \<in> set log" and "toTurnEvent n f = Some m"
  shows "plain_inputs log ins \<Longrightarrow> turn_ok log n m (turnRun sid n t ins)
    \<and> (f \<in> set (concat (map input_events ins)) \<longrightarrow> m \<in> set (turn_events (turnRun sid n t ins)))"
proof (induction ins rule: rev_induct)
  case Nil
  from assms(2) have "m \<noteq> EvTurnStarted sid n" by (auto simp: ends_with_def)
  then show ?case by (simp add: turnRun_def turnStart_def turn_ok_def turn_events_def)
next
  case (snoc i ins)
  let ?ts = "turnRun sid n t ins"
  from snoc have before: "turn_ok log n m ?ts"
    "f \<in> set (concat (map input_events ins)) \<longrightarrow> m \<in> set (turn_events ?ts)" and i: "plain_inputs log [i]"
    by (auto simp: plain_inputs_def)
  note step = turnStep_ok [OF assms(1,2) before(1) i, of sid t]
  have "m \<in> set (turn_events (turnStep sid n t i ?ts))" if f: "f \<in> set (input_events i)"
  proof (cases "turnEnded ?ts")
    case True
    with before(1) show ?thesis by (simp add: turnEnded_def turn_ok_def)
  next
    case False
    from f have fed: "turnStep sid n t i ?ts = fold (enqueue n) (input_events i) ?ts" and "set (input_events i) \<subseteq> set log"
      using False i by (cases i rule: input_events.cases; simp add: plain_inputs_def)+
    with enqueues_ok [OF assms(1,2) before(1)] f
    have "ev_eventId f \<in> set (ts_seen (turnStep sid n t i ?ts))" by auto
    with step assms(3,4) show ?thesis by (auto simp: turn_ok_def)
  qed
  with before(2) step show ?case by (auto simp: turnRun_snoc simp del: turnStep.simps)
qed

fun turn_result :: "session_event \<Rightarrow> (string + string option \<times> json option) option" where
  "turn_result (EvTurnCompleted _ _ m out) = Some (Inr (m, out))"
| "turn_result (EvTurnFailed _ _ err) = Some (Inl (te_message err))"
| "turn_result _ = None"

lemma waitForResult_of:
  assumes "\<forall>x \<in> set (turn_events ts). ends_turn x \<longrightarrow> x = m" and "ends_turn m"
  shows "waitForResult ts = (if m \<in> set (ts_yielded ts) then turn_result m else None)"
proof (cases "find ends_turn (ts_yielded ts)")
  case None
  with assms(2) have "m \<notin> set (ts_yielded ts)" by (auto simp: find_None_iff)
  with None show ?thesis by (simp add: waitForResult_def)
next
  case (Some x)
  with assms(1) find_SomeD [OF Some] have "x = m" "m \<in> set (ts_yielded ts)" by (auto simp: turn_events_def)
  with Some assms(2) show ?thesis by (cases m) (simp_all add: waitForResult_def)
qed

lemma takes_all:
  "\<not> ts_aborted ts \<Longrightarrow>
    ts_yielded (fold (turnStep sid n t) (replicate (length (ts_pending ts)) Take) ts) = turn_events ts"
proof (induction "ts_pending ts" arbitrary: ts)
  case Nil
  then show ?case by (simp add: turn_events_def)
next
  case (Cons x xs)
  let ?ts = "ts\<lparr>ts_pending := xs, ts_yielded := ts_yielded ts @ [x]\<rparr>"
  from Cons.hyps(2) Cons.prems have "turnStep sid n t Take ts = ?ts" by (simp add: turnEnded_def flip: Cons.hyps(2))
  with Cons.hyps(1) [of ?ts] Cons.prems show ?case
    by (simp add: turn_events_def flip: Cons.hyps(2) del: turnStep.simps)
qed



text \<open>
  The deltas of the turn keep neither their order nor their place before the result: the history is not awaited before live events
  are yielded, and the stream ends with the outcome though the history is still to come.
\<close>

lemma turn_deltas_out_of_order:
  "ts_yielded (turnRun ''s'' 1 t [Live (ex_output ''2'' ''b''), Take, Take,
      History (Some [ex_output ''1'' ''a'', ex_output ''2'' ''b'']), Take])
   = [EvTurnStarted ''s'' 1, EvAssistantDelta ''s'' 1 ''b'', EvAssistantDelta ''s'' 1 ''a'']"
  by code_simp

lemma turn_deltas_lost:
  "ts_yielded (turnRun ''s'' 1 t [Live (ex_completed ''3'' ''ab''), Take, Take,
      History (Some [ex_output ''1'' ''a'', ex_output ''2'' ''b'', ex_completed ''3'' ''ab'']), Take])
   = [EvTurnStarted ''s'' 1, EvTurnCompleted ''s'' 1 (Some ''ab'') None]"
  by code_simp

end
