(* ===== verification/ClientLink.thy ===== *)
theory ClientLink
  imports ClientTurns TenantInbox SessionProps
begin

text \<open>
  The client of the SDK and central together: what central answers to the requests the client publishes, and what the
  client makes of the answers.
\<close>

subsection \<open>An input\<close>

lemma accepted_event:
  assumes "acceptInput ctx sid ackId request w = (Inr out, w1)" and "readSession sid w = Some s" and "ses_sessionId s = sid" and "sid \<noteq> []"
  defines "e \<equiv> io_inputAcceptedEvent out"
  shows "ev_sessionId e = Some sid \<and> ev_ackId e = ackId \<and> ev_turnSeq e = Some (ses_nextTurnSeq s) \<and> ev_type e = InputAccepted
    \<and> ev_payload e = JsonPayload (jobj [(''input'', jfield ''input'' request), (''status'', Some (JStr ''accepted'')),
        (''acceptedBy'', Some (JStr (rq_principalId ctx)))])
    \<and> ses_sessionId (io_session out) = sid"
  using assms
  by (auto simp: acceptInput_def publicSession_def assertPublicSession_def acceptInputFrom_def allocateNextTurn_def advanceEventCursor_def
      andThen_Inr logAppend_def appendEvent_def draft_def Let_def split_def split: if_splits)

definition input_of :: "string \<Rightarrow> json option \<Rightarrow> json" where
  "input_of text target = jobj [(''message'', Some (JStr text)), (''delegationTarget'', target)]"

lemma input_of_message: "jfield ''message'' (input_of text target) = Some (JStr text)"
  by (simp add: input_of_def)

lemma publishes: "andThen (publishTo ch e) f w = f () (publish ch e w)"
  by (simp add: andThen_def publishTo_def)

lemma publishPrivately_Pair:
  "truthy (rq_connectionId ctx) \<Longrightarrow>
    andThen (publishPrivately ctx (Pair e)) f w = f () (publish (ClientPrivateInbox (the (rq_connectionId ctx))) e w)"
  by (simp add: publishPrivately_def requireClientConnectionId_def andThen_def publishTo_def)

text \<open>
  C15: An input a client sends is acknowledged to it, and shown to whoever observes the session, under one turn. Whenever central
  handles the event that \<^verbatim>\<open>send\<close> publishes without an error, it publishes to the session's events an
  event that every observer maps to a user message with that text, and to the client's own inbox an answer that resolves
  the pending acknowledgement and is read as a turn; both carry the session's next turn number.
\<close>

theorem sent_input_is_acknowledged:
  assumes "readSession sid w = Some s" and "ses_sessionId s = sid" and "sid \<noteq> []" and "ackId \<noteq> []"
    and "rq_connectionId ctx = Some conn" and "conn \<noteq> []"
    and "tget (ck_pending c) ackId = Some InputAcceptedAck"
    and "handleInputReceived ctx (sendRequest eid t ackId sid (input_of text target)) w = (Inr b, w1)"
  shows "\<exists>e answer. (SessionEvents sid, e) \<in> set (w_published w1)
    \<and> mapSessionEvent e = Some (EvUserMessage sid (ses_nextTurnSeq s) text)
    \<and> (ClientPrivateInbox conn, answer) \<in> set (w_published w1)
    \<and> dispatchPrivateAcknowledgement (Some answer) c = settleAck ackId InputAcceptedAck (Inr answer) c
    \<and> sendAnswer sid answer = Inr (ses_nextTurnSeq s)"
proof -
  let ?req = "sendRequest eid t ackId sid (input_of text target)"
  let ?p = "JObj [(''input'', input_of text target)]"
  have req: "ev_sessionId ?req = Some sid" "ev_ackId ?req = Some ackId" "ev_payload ?req = JsonPayload ?p"
    by (simp_all add: sendRequest_def tenantEvent_def)
  from assms(8) have "isSessionInputPayload ?p"
    using assms(3) by (auto simp: handleInputReceived_def andThen_Inr parsed_def parseSessionInputPayload_def req split: if_splits option.splits)
  then have parsed: "parsed ?req parseSessionInputPayload = ok ?p"
    by (simp add: parsed_def parseSessionInputPayload_def req)
  obtain r v where acc: "acceptInput ctx sid (Some ackId) ?p w = (r, v)" by (cases "acceptInput ctx sid (Some ackId) ?p w")
  with assms(3,8) parsed obtain out where out: "r = Inr out"
    by (cases r) (auto simp: handleInputReceived_def andThen_def [of "acceptInput _ _ _ _"] parseSessionCommandSessionId_def req)
  note e = accepted_event [OF acc [unfolded out] assms(1-3)]
  let ?e = "io_inputAcceptedEvent out"
  let ?answer = "toClientAckEvent ?e InputAcceptedAck (status_ack ''accepted'')"
  let ?v1 = "publish (ClientPrivateInbox conn) ?answer (publish (SessionEvents sid) ?e v)"
  have "w_published w1 = w_published ?v1 @ drop (length (w_published ?v1)) (w_published w1)"
    using assms(3,5,6,8) parsed acc out e
    by (auto simp: handleInputReceived_def andThen_def [of "acceptInput _ _ _ _"] parseSessionCommandSessionId_def req session_events_of_def
        publishes publishPrivately_Pair publishCommand_def andThen_Inr publishTo_def publish_def split: option.splits)
  then have "set (w_published ?v1) \<subseteq> set (w_published w1)" by (metis set_append sup_ge1)
  then have published: "(SessionEvents sid, ?e) \<in> set (w_published w1)" "(ClientPrivateInbox conn, ?answer) \<in> set (w_published w1)"
    by (auto simp: publish_def)
  have "mapSessionEvent ?e = Some (EvUserMessage sid (ses_nextTurnSeq s) text)"
    using e assms(3) by (simp add: mapSessionEvent_def mapRecord_def Let_def jobj_def input_of_message)
      (simp add: input_of_def jobj_def)
  moreover have "dispatchPrivateAcknowledgement (Some ?answer) c = settleAck ackId InputAcceptedAck (Inr ?answer) c"
    using assms(4,7) e by (simp add: dispatchPrivateAcknowledgement_def toClientAckEvent_def)
  moreover have "sendAnswer sid ?answer = Inr (ses_nextTurnSeq s)"
    using e by (simp add: sendAnswer_def toClientAckEvent_def)
  ultimately show ?thesis using published by blast
qed

definition waiting_client :: sdk_client where
  "waiting_client = waitForAcknowledgement ''a1'' InputAcceptedAck new_client"

theorem sent_input_is_acknowledged_witness:
  "\<exists>w1 e answer.
      handleInputReceived (alice\<lparr>rq_connectionId := Some ''c''\<rparr>) (sendRequest ''e1'' 0 ''a1'' ''s1'' (input_of ''hi'' None)) running_world = (Inr True, w1)
    \<and> (SessionEvents ''s1'', e) \<in> set (w_published w1) \<and> mapSessionEvent e = Some (EvUserMessage ''s1'' 1 ''hi'')
    \<and> ck_settled (dispatchPrivateAcknowledgement (Some answer) waiting_client) = [(''a1'', InputAcceptedAck, Inr answer)]
    \<and> sendAnswer ''s1'' answer = Inr 1"
proof -
  let ?ctx = "alice\<lparr>rq_connectionId := Some ''c''\<rparr>" and ?req = "sendRequest ''e1'' 0 ''a1'' ''s1'' (input_of ''hi'' None)"
  have "fst (handleInputReceived ?ctx ?req running_world) = Inr True" by code_simp
  then obtain w1 where run: "handleInputReceived ?ctx ?req running_world = (Inr True, w1)"
    by (cases "handleInputReceived ?ctx ?req running_world") auto
  have s: "readSession ''s1'' running_world = Some running_session" using running_world_facts by simp
  have "ses_sessionId running_session = ''s1''" "ses_nextTurnSeq running_session = 1" by code_simp+
  moreover have "tget (ck_pending waiting_client) ''a1'' = Some InputAcceptedAck" by code_simp
  ultimately obtain e answer where "(SessionEvents ''s1'', e) \<in> set (w_published w1)" "mapSessionEvent e = Some (EvUserMessage ''s1'' 1 ''hi'')"
    "dispatchPrivateAcknowledgement (Some answer) waiting_client = settleAck ''a1'' InputAcceptedAck (Inr answer) waiting_client"
    "sendAnswer ''s1'' answer = Inr 1"
    using sent_input_is_acknowledged [OF s _ _ _ _ _ _ run, where conn = "''c''" and c = waiting_client] by auto
  moreover have "ck_settled (settleAck ''a1'' InputAcceptedAck (Inr answer) waiting_client) = [(''a1'', InputAcceptedAck, Inr answer)]" for answer
    by (simp add: settleAck_def waiting_client_def waitForAcknowledgement_def new_client_def)
  ultimately show ?thesis using run by metis
qed

subsection \<open>A cancel\<close>


subsection \<open>Errors\<close>

text \<open>Central's answer to a response is read as its outcome, and a refusal as an error with its text.\<close>

lemma response_outcome_is_read:
  assumes "ev_payload e = JsonPayload (respond_ack txt iid r)"
  shows "respondAnswer iid e
    = (case r of Inr st \<Rightarrow> Inr st | Inl err \<Rightarrow> Inl (InteractionResponseError ''interaction_response_rejected'' (txt err)))"
proof (cases r)
  case (Inr st)
  with assms show ?thesis by (cases st) (simp_all add: respondAnswer_def respond_ack_def mapRecord_def Let_def)
qed (use assms in \<open>simp add: respondAnswer_def respond_ack_def mapRecord_def Let_def\<close>)

text \<open>An error of a case request is thrown at the caller with its code.\<close>

lemma case_error_is_thrown:
  assumes "ev_payload e = JsonPayload (JObj [(''caseId'', JStr caseId), (''error'', toCaseError txt err)])"
  shows "\<exists>code text. mintAnswer e = Inl (CasePairingError code text) \<and> devicesAnswer e = Inl (CasePairingError code text)
    \<and> (\<forall>p. err = Pairing p \<longrightarrow> code = pairing_code p)"
  using assms
  by (cases err) (auto simp: mintAnswer_def devicesAnswer_def with_payload_def throwCaseError_def toCaseError_def mapRecord_def)

end
