(* ===== verification/TenantProps.thy ===== *)
theory TenantProps
  imports Routes PairingProps
begin

text \<open>
  Properties of the runtime as it is wired: the labels a registration may carry, and the target of a delegated call
  on a turn the operator bound.
\<close>

subsection \<open>The labels of a device\<close>

lemma tget_strip [simp]:
  "tget (strip_edge_labels ls) edge_case_label = None" "tget (strip_edge_labels ls) edge_device_label = None"
  by (auto simp: tget_def strip_edge_labels_def map_of_eq_None_iff)

lemma register_labels: "fst (register ttl tenant p w) = Inr k \<Longrightarrow> wk_labels k = wr_labels p"
  by (auto simp: register_def Let_def now_def freshId_def andThen_def split: prod.splits sum.splits)

lemma resolveEdgeBinding_Inr:
  assumes "fst (resolveEdgeBinding cfg between i w) = Inr r"
  obtains b s where "readCaseDeviceBinding (rs_caseId i) (rs_deviceRef i) w = Some b" "cb_tenantId b = pc_tenantId cfg"
    "cb_status b = BActive" "readSession (cb_caseId b) (between w) = Some s" "\<not> terminal_case (ses_status s)"
    "cr_verify (pc_credentials cfg) (rs_bindingCredential i) \<lparr>hs_salt = cb_bindingCredentialSalt b, hs_hash = cb_bindingCredentialHash b\<rparr>"
    "rb_mintedLabels r = [(edge_case_label, cb_caseId b), (edge_device_label, cb_deviceRef b)]"
  using assms
  by (auto simp: resolveEdgeBinding_def requireBounded_def requireNonEmptyInput_def andThen_def Let_def
           split: if_splits option.splits)

lemma resolveWorkerLabels_Inr:
  assumes "fst (resolveWorkerLabels cfg between r w) = Inr ls"
    and "tget ls edge_case_label \<noteq> None \<or> tget ls edge_device_label \<noteq> None"
  obtains e b s where "wr_edgeBinding r = Some e" "readCaseDeviceBinding (eb_caseId e) (eb_deviceRef e) w = Some b"
    "cb_tenantId b = tn_tenantId cfg" "cb_status b = BActive" "readSession (cb_caseId b) (between w) = Some s"
    "\<not> terminal_case (ses_status s)"
    "cr_verify (tn_credentials cfg) (eb_bindingCredential e) \<lparr>hs_salt = cb_bindingCredentialSalt b, hs_hash = cb_bindingCredentialHash b\<rparr>"
    "tget ls edge_case_label = Some (cb_caseId b)" "tget ls edge_device_label = Some (cb_deviceRef b)"
proof (cases "wr_edgeBinding r")
  case None
  with assms(1) have "ls = strip_edge_labels (wr_labels r)" by (simp add: resolveWorkerLabels_def)
  with assms(2) show ?thesis by simp
next
  case (Some e)
  with assms(1) obtain res w1 where res: "resolveEdgeBinding (tenant_pairing cfg) between (edge_input e) w = (Inr res, w1)"
    and ls: "ls = merge_labels (strip_edge_labels (wr_labels r)) (rb_mintedLabels res)"
    by (auto simp: resolveWorkerLabels_def andThen_def split: prod.splits sum.splits)
  from res have "fst (resolveEdgeBinding (tenant_pairing cfg) between (edge_input e) w) = Inr res" by simp
  then obtain b s where b: "readCaseDeviceBinding (eb_caseId e) (eb_deviceRef e) w = Some b" "cb_tenantId b = tn_tenantId cfg"
      "cb_status b = BActive" "readSession (cb_caseId b) (between w) = Some s" "\<not> terminal_case (ses_status s)"
      "cr_verify (tn_credentials cfg) (eb_bindingCredential e) \<lparr>hs_salt = cb_bindingCredentialSalt b, hs_hash = cb_bindingCredentialHash b\<rparr>"
    and minted: "rb_mintedLabels res = [(edge_case_label, cb_caseId b), (edge_device_label, cb_deviceRef b)]"
    by (elim resolveEdgeBinding_Inr) (simp add: edge_input_def tenant_pairing_def)
  have "tget ls edge_case_label = Some (cb_caseId b)" "tget ls edge_device_label = Some (cb_deviceRef b)"
    by (simp_all add: ls merge_labels_def minted edge_case_label_def edge_device_label_def tget_tput)
  with Some b show ?thesis by (rule that)
qed

lemma negotiateSidecar_Inr:
  assumes "negotiateSidecarConnection cfg iss between override r w = (Inr g, w1)"
  obtains ls k where "fst (resolveWorkerLabels cfg between r w) = Inr ls" "gr_worker g = Some k" "wk_labels k = ls"
proof -
  obtain ls w2 k where "resolveWorkerLabels cfg between r w = (Inr ls, w2)"
      "fst (register keepalive_ttl (orElse override (tn_tenantId cfg)) (r\<lparr>wr_labels := ls\<rparr>) w2) = Inr k" "gr_worker g = Some k"
    using assms by (auto simp: negotiateSidecarConnection_def andThen_def split: prod.splits sum.splits)
  with register_labels [of keepalive_ttl _ "r\<lparr>wr_labels := ls\<rparr>" w2 k] show ?thesis by (intro that) simp_all
qed

lemma answered_ok:
  "answered sv m w = (a, w1) \<Longrightarrow> jr_statusCode a = 200 \<Longrightarrow> m w = (Inr (jr_body a), w1)"
  by (auto simp: answered_def split: prod.splits sum.splits)

lemma route_worker:
  assumes "route (pocRoutes sv between) req w = (a, w1)" "jr_statusCode a = 200" "jr_body a = GrantBody g" "gr_worker g \<noteq> None"
  shows "sidecarNegotiate sv between req w = (Inr (GrantBody g), w1)"
proof -
  have not_status: "runtimeStatus sv req w \<noteq> (Inr (GrantBody g), w1)"
    by (auto simp: runtimeStatus_def describeWorkerPools_def andThen_def split: prod.splits sum.splits)
  have not_redeem: "casePairingRedeem sv req w \<noteq> (Inr (GrantBody g), w1)"
    by (auto simp: casePairingRedeem_def andThen_def split: prod.splits sum.splits)
  have not_client: "clientNegotiate sv req w \<noteq> (Inr (GrantBody g), w1)"
    using assms(4)
    by (auto simp: clientNegotiate_def negotiateClientConnection_def Let_def andThen_def split: prod.splits sum.splits if_splits)
  show ?thesis
    using assms(1-3) not_status not_redeem not_client
    by (auto simp: route_def pocRoutes_def dest: answered_ok split: if_splits)
qed

lemma sidecarNegotiate_Inr:
  assumes "sidecarNegotiate sv between req w = (Inr (GrantBody g), w1)"
  obtains bt j cfg where "hr_body req = Some bt" "sv_parse sv bt = Some j" "isWorkerRegisterPayload j"
    "Option.bind (tenant_param req) (map_of (sv_runtimes sv)) = Some cfg"
    "negotiateSidecarConnection cfg (sv_issuer sv) between (jstring (jfield ''tenantId'' j)) (registration_of j) w = (Inr g, w1)"
proof -
  obtain bt j where body: "hr_body req = Some bt" "sv_parse sv bt = Some j" "isWorkerRegisterPayload j"
    and rest: "andThen (resolveTenantRuntime sv (tenant_param req)) (\<lambda>cfg.
       andThen (negotiateSidecarConnection cfg (sv_issuer sv) between (jstring (jfield ''tenantId'' j)) (registration_of j)) (\<lambda>g. ok (GrantBody g))) w
       = (Inr (GrantBody g), w1)"
    using assms by (auto simp: sidecarNegotiate_def readSidecarRegistrationBody_def read_body_def andThen_def split: option.splits if_splits)
  obtain tid cfg where tid: "tenant_param req = Some tid" "map_of (sv_runtimes sv) tid = Some cfg"
    and neg: "andThen (negotiateSidecarConnection cfg (sv_issuer sv) between (jstring (jfield ''tenantId'' j)) (registration_of j)) (\<lambda>g. ok (GrantBody g)) w
       = (Inr (GrantBody g), w1)"
    using rest by (cases "tenant_param req") (auto simp: resolveTenantRuntime_def andThen_def truthy_def split: option.splits if_splits)
  from neg have "negotiateSidecarConnection cfg (sv_issuer sv) between (jstring (jfield ''tenantId'' j)) (registration_of j) w = (Inr g, w1)"
    by (auto simp: andThen_def split: prod.splits sum.splits)
  with body tid show ?thesis by (intro that) simp_all
qed

text \<open>
  C7: However a worker registers over HTTP, and whatever labels its request claims: if the registered worker
  carries a label that pins a device's sessions to it, then the request presented the credential of a binding that
  is active in this tenant, of a case that is still open, and both labels are that binding's.
\<close>

theorem device_labels_are_earned:
  assumes "route (pocRoutes sv between) req w = (a, w1)" and "jr_statusCode a = 200" and "jr_body a = GrantBody g"
    and "gr_worker g = Some k"
    and "tget (wk_labels k) edge_case_label \<noteq> None \<or> tget (wk_labels k) edge_device_label \<noteq> None"
  shows "\<exists>cfg j e b s. Option.bind (tenant_param req) (map_of (sv_runtimes sv)) = Some cfg
    \<and> Option.bind (hr_body req) (sv_parse sv) = Some j \<and> wr_edgeBinding (registration_of j) = Some e
    \<and> readCaseDeviceBinding (eb_caseId e) (eb_deviceRef e) w = Some b
    \<and> cb_status b = BActive \<and> cb_tenantId b = tn_tenantId cfg
    \<and> readSession (cb_caseId b) (between w) = Some s \<and> \<not> terminal_case (ses_status s)
    \<and> cr_verify (tn_credentials cfg) (eb_bindingCredential e) \<lparr>hs_salt = cb_bindingCredentialSalt b, hs_hash = cb_bindingCredentialHash b\<rparr>
    \<and> tget (wk_labels k) edge_case_label = Some (cb_caseId b) \<and> tget (wk_labels k) edge_device_label = Some (cb_deviceRef b)"
proof -
  have "sidecarNegotiate sv between req w = (Inr (GrantBody g), w1)"
    by (rule route_worker [OF assms(1-3)]) (simp add: assms(4))
  then obtain bt j cfg where req: "hr_body req = Some bt" "sv_parse sv bt = Some j"
      "Option.bind (tenant_param req) (map_of (sv_runtimes sv)) = Some cfg"
    and neg: "negotiateSidecarConnection cfg (sv_issuer sv) between (jstring (jfield ''tenantId'' j)) (registration_of j) w = (Inr g, w1)"
    by (rule sidecarNegotiate_Inr)
  from neg obtain ls k1 where ls: "fst (resolveWorkerLabels cfg between (registration_of j) w) = Inr ls" "gr_worker g = Some k1" "wk_labels k1 = ls"
    by (rule negotiateSidecar_Inr)
  with assms(4) have k: "wk_labels k = ls" by simp
  from assms(5) have pinned: "tget ls edge_case_label \<noteq> None \<or> tget ls edge_device_label \<noteq> None" by (simp only: k)
  obtain e b s where "wr_edgeBinding (registration_of j) = Some e" "readCaseDeviceBinding (eb_caseId e) (eb_deviceRef e) w = Some b"
    "cb_tenantId b = tn_tenantId cfg" "cb_status b = BActive" "readSession (cb_caseId b) (between w) = Some s"
    "\<not> terminal_case (ses_status s)"
    "cr_verify (tn_credentials cfg) (eb_bindingCredential e) \<lparr>hs_salt = cb_bindingCredentialSalt b, hs_hash = cb_bindingCredentialHash b\<rparr>"
    "tget ls edge_case_label = Some (cb_caseId b)" "tget ls edge_device_label = Some (cb_deviceRef b)"
    by (rule resolveWorkerLabels_Inr [OF ls(1) pinned])
  with req k show ?thesis by fastforce
qed

text \<open>
  The runtime's tenant id gives way to one in the body: a worker is recorded under any tenant its request names.
\<close>

lemma registration_body_overrides_tenant:
  assumes "negotiateSidecarConnection cfg iss between (Some t) r w = (Inr g, w1)" and "gr_worker g = Some k"
  shows "wk_tenantId k = t"
proof -
  obtain ls w2 k1 w3 where k1: "register keepalive_ttl t (r\<lparr>wr_labels := ls\<rparr>) w2 = (Inr k1, w3)" "gr_worker g = Some k1"
    using assms(1) by (auto simp: negotiateSidecarConnection_def andThen_def split: prod.splits sum.splits)
  then have "wk_tenantId k1 = t"
    by (auto simp: register_def Let_def now_def freshId_def andThen_def split: prod.splits sum.splits)
  with k1(2) assms(2) show ?thesis by simp
qed

definition ex_tenant :: tenant_config where
  "ex_tenant = \<lparr>tn_tenantId = ''t1'', tn_specs = [], tn_tools = (\<lambda>_. []), tn_specDigest = (\<lambda>_ _. []), tn_delegation = None,
     tn_pools = [], tn_adapters = (\<lambda>_. None), tn_epoch = [], tn_credentials = bearerProvider ex_hmac [], tn_sha = (\<lambda>s. s),
     tn_reparse = (\<lambda>_. None), tn_localeCompare = ex_compare, tn_errorText = (\<lambda>_. ''error'')\<rparr>"

definition ex_registration :: json where
  "ex_registration = JObj [(''labels'', JObj [(''agent'', JStr ''edge''), (''case'', JStr ''s9'')]), (''storageClass'', JStr ''host-managed''),
     (''capacity'', JNum 1), (''allocatable'', JNum 1), (''tenantId'', JStr ''t2''),
     (''edgeBinding'', JObj [(''caseId'', JStr ''s1''), (''deviceId'', JStr ''dev''),
        (''deviceRef'', JStr (deriveDeviceRef (\<lambda>s. s) ''t1'' ''s1'' ''dev'')), (''bindingCredential'', JStr ''u'')])]"

definition ex_service :: service where
  "ex_service = \<lparr>sv_runtimes = [(''t1'', ex_tenant)], sv_issuer = \<lparr>is_client = (\<lambda>_ _. ''url''), is_sidecar = (\<lambda>_ _. ''url'')\<rparr>,
     sv_parse = (\<lambda>_. Some ex_registration), sv_errorText = (\<lambda>_. ''error'')\<rparr>"

definition ex_request :: http_request where
  "ex_request = \<lparr>hr_method = ''POST'', hr_path = ''/sidecar/negotiate'', hr_query = [(''tenantId'', ''t1'')], hr_body = Some ''...''\<rparr>"

definition paired_world :: world where
  "paired_world = snd (redeemPairingInvite ex_pairing (ex_redeem ''i1'' ''dev'') invited_world)"

definition registered :: "json_response \<Rightarrow> worker option" where
  "registered a = (case jr_body a of GrantBody g \<Rightarrow> gr_worker g | _ \<Rightarrow> None)"

lemma ex_registers:
  "let a = fst (route (pocRoutes ex_service id) ex_request paired_world)
   in jr_statusCode a = 200
      \<and> (case registered a of None \<Rightarrow> False
         | Some k \<Rightarrow> tget (wk_labels k) edge_case_label = Some ''s1'' \<and> tget (wk_labels k) ''agent'' = Some ''edge''
             \<and> wk_tenantId k = ''t2'')"
  by code_simp

lemma device_labels_are_earned_witness:
  "\<exists>k b. registered (fst (route (pocRoutes ex_service id) ex_request paired_world)) = Some k
     \<and> readCaseDeviceBinding ''s1'' (deriveDeviceRef (\<lambda>s. s) ''t1'' ''s1'' ''dev'') paired_world = Some b
     \<and> cb_status b = BActive \<and> tget (wk_labels k) edge_device_label = Some (cb_deviceRef b)"
proof -
  obtain a w1 where run: "route (pocRoutes ex_service id) ex_request paired_world = (a, w1)" by (cases "route (pocRoutes ex_service id) ex_request paired_world")
  from ex_registers run obtain k where a: "jr_statusCode a = 200" "registered a = Some k"
      "tget (wk_labels k) edge_case_label = Some ''s1''"
    by (auto simp: Let_def split: option.splits)
  from a(2) obtain g where g: "jr_body a = GrantBody g" "gr_worker g = Some k"
    by (auto simp: registered_def split: http_body.splits)
  have "tget (wk_labels k) edge_case_label \<noteq> None \<or> tget (wk_labels k) edge_device_label \<noteq> None" using a(3) by simp
  note device_labels_are_earned [OF run a(1) g this]
  then obtain j e b where "Option.bind (hr_body ex_request) (sv_parse ex_service) = Some j" "wr_edgeBinding (registration_of j) = Some e"
     "readCaseDeviceBinding (eb_caseId e) (eb_deviceRef e) paired_world = Some b" "cb_status b = BActive"
     "tget (wk_labels k) edge_device_label = Some (cb_deviceRef b)" by blast
  moreover from this have "eb_caseId e = ''s1''" "eb_deviceRef e = deriveDeviceRef (\<lambda>s. s) ''t1'' ''s1'' ''dev''"
    by (auto simp: ex_request_def ex_service_def ex_registration_def registration_of_def field_text_def)
  ultimately show ?thesis using a(2) run by auto
qed

subsection \<open>Selections that pass the input check\<close>

text \<open>
  The check of an operator's selection and the reading of it disagree: one that names a device beside an empty list
  is bound to the turn and then refused for every delegate call, and beside a list of others the device is ignored.
\<close>

lemma bound_selection_misread:
  "isDelegationTarget (JObj [(''deviceRef'', JStr ''a''), (''deviceRefs'', JArr [])])"
  "resolveTargetSpec (Some (JObj [(''deviceRef'', JStr ''a''), (''deviceRefs'', JArr [])])) = Inl TargetRejected"
  "isDelegationTarget (JObj [(''deviceRef'', JStr ''a''), (''deviceRefs'', JArr [JStr ''b''])])"
  "resolveTargetSpec (Some (JObj [(''deviceRef'', JStr ''a''), (''deviceRefs'', JArr [JStr ''b''])]))
     = Inr (FanoutTarget None (Some [''b'']))"
  by code_simp+

end
