(* ===== verification/DelegationEventProps.thy ===== *)
theory DelegationEventProps
  imports DelegationEvents DelegationProps SessionProps
begin

text \<open>
  Who decides where a delegated call runs: on a turn the operator bound to a target, the target an agent puts into
  its tool request has no effect but a refusal.
\<close>

subsection \<open>A turn that is bound\<close>

definition message_only :: "string \<Rightarrow> json" where
  "message_only m = JObj [(''message'', JStr m)]"

lemma message_only_fields [simp]:
  "jfield ''message'' (message_only m) = Some (JStr m)" "jfield ''target'' (message_only m) = None"
  "isRecord (Some (message_only m))"
  by (simp_all add: message_only_def)

lemma enforced_bound:
  assumes "readTurnDelegationTarget sid turnSeq w = Some bound"
  shows "resolveEnforcedTargetSpec sid turnSeq t w = resolveTargetSpec (Some bound)
    \<or> (\<exists>e. resolveEnforcedTargetSpec sid turnSeq t w = Inl e)"
    and "resolveEnforcedTargetSpec sid turnSeq None w = resolveTargetSpec (Some bound)"
  using assms by (auto simp: resolveEnforcedTargetSpec_def split: sum.splits)

text \<open>What a refusal changes: nothing but the answer it publishes, or nothing at all.\<close>

definition same_tables :: "world \<Rightarrow> world \<Rightarrow> bool" where
  "same_tables w1 w =
     (w_sessions w1 = w_sessions w \<and> w_sessionEvents w1 = w_sessionEvents w \<and> w_delegations w1 = w_delegations w
      \<and> w_fanouts w1 = w_fanouts w \<and> w_workers w1 = w_workers w)"

lemma tool_response_tables:
  "publishToolResponse s req res st = Some (r, st1) \<Longrightarrow> same_tables (snd st1) (snd st) \<and> fst st1 = fst st"
  by (auto simp: publishToolResponse_def same_tables_def Let_def split_def freshId_def now_def publish_def split: if_splits)

lemma requireLeased_Inr:
  "requireLeasedSession e w = (Inr s, w1) \<Longrightarrow> w1 = w \<and> truthy (ev_sessionId e) \<and> readSession (the (ev_sessionId e)) w = Some s"
  by (auto simp: requireLeasedSession_def assertCurrentLease_def andThen_def split: if_splits option.splits)

text \<open>
  C9: On a turn that the operator bound to a target, a tool request with any target an agent chose is handled
  exactly as the request with the same message and no target at all, or it is answered with a refusal, and then
  no session, log, worker, delegation or fan-out group has changed.
\<close>

theorem agent_cannot_redirect:
  assumes bound: "\<And>s. readSession (the (ev_sessionId e)) w = Some s \<Longrightarrow>
        readTurnDelegationTarget (ses_sessionId s) turnSeq w = Some target"
    and turn: "ev_turnSeq e = Some turnSeq"
    and input: "isRecord (Some i)" "jfield ''message'' i = Some (JStr m)"
  shows "handleRuntimeTool cfg env e (req, tool, i) (broken, w) = handleRuntimeTool cfg env e (req, tool, message_only m) (broken, w)
    \<or> (\<exists>parent err r w1. handleRuntimeTool cfg env e (req, tool, i) (broken, w) = Some (r, broken, w1)
         \<and> publishToolResponse parent req (rejection (de_errorText cfg) err) (broken, w) = Some (r, broken, w1)
         \<and> same_tables w1 w)"
proof (cases "requireLeasedSession e w")
  case (Pair res w0)
  show ?thesis
  proof (cases res)
    case (Inl err)
    with Pair show ?thesis by (simp add: handleRuntimeTool_def awaiting_def onWorld_def sync_def)
  next
    case (Inr s)
    with Pair requireLeased_Inr [of e w s w0] have s: "w0 = w" "readSession (the (ev_sessionId e)) w = Some s" by auto
    have b: "readTurnDelegationTarget (ses_sessionId s) turnSeq w = Some target" by (rule bound [OF s(2)])
    let ?spec = "resolveEnforcedTargetSpec (ses_sessionId s) turnSeq (jfield ''target'' i) w"
    let ?plain = "resolveEnforcedTargetSpec (ses_sessionId s) turnSeq None w"
    have run: "handleRuntimeTool cfg env e (req, tool, j) (broken, w) =
       (case find (\<lambda>t. td_name t = tool) (ra_runtimeTools (ses_resolvedAgentSpec s)) of
          None \<Rightarrow> Some (Inl (UnknownTool tool (ses_sessionId s)), (broken, w))
        | Some t \<Rightarrow>
            if m = [] then Some (Inl (EmptyMessage tool), (broken, w))
            else (case resolveEnforcedTargetSpec (ses_sessionId s) turnSeq (jfield ''target'' j) w of
                Inl err \<Rightarrow> publishToolResponse s req (rejection (de_errorText cfg) err) (broken, w)
              | Inr (FanoutTarget everyone refs) \<Rightarrow>
                  handleFanoutTool cfg env s turnSeq req (td_delegateId t) m everyone refs (broken, w)
              | Inr x \<Rightarrow> handleCallTool cfg env s turnSeq req (td_delegateId t) m (target_ref x) (broken, w)))"
      if "isRecord (Some j)" "jfield ''message'' j = Some (JStr m)" for j
      using Pair Inr s(1) that turn
      unfolding handleRuntimeTool_def fst_conv snd_conv
      by (simp add: awaiting_def onWorld_def sync_def record_of_def truthy_def split: option.splits)
    show ?thesis
    proof (cases "?spec = ?plain")
      case True
      show ?thesis
        by (rule disjI1) (simp only: run [OF input] run [OF message_only_fields(3,1)] message_only_fields(2) True)
    next
      case False
      with enforced_bound [OF b] obtain err where err: "?spec = Inl err" by metis
      show ?thesis
      proof (cases "m = [] \<or> find (\<lambda>t. td_name t = tool) (ra_runtimeTools (ses_resolvedAgentSpec s)) = None")
        case True
        then show ?thesis
          by (intro disjI1) (simp only: run [OF input] run [OF message_only_fields(3,1)], auto split: option.splits)
      next
        case ok: False
        then have step: "handleRuntimeTool cfg env e (req, tool, i) (broken, w)
            = publishToolResponse s req (rejection (de_errorText cfg) err) (broken, w)"
          using run [OF input] err by auto
        obtain r st1 where out: "publishToolResponse s req (rejection (de_errorText cfg) err) (broken, w) = Some (r, st1)"
          by (cases "leased s") (auto simp: publishToolResponse_def Let_def split_def)
        from tool_response_tables [OF out] obtain w1 where "st1 = (broken, w1)" "same_tables w1 w" by (cases st1) auto
        with step out show ?thesis by metis
      qed
    qed
  qed
qed

subsection \<open>A turn bound to one device\<close>

definition scan_tool :: tool_definition where
  "scan_tool = \<lparr>td_name = ''scan_device'', td_description = [], td_inputSchema = JNull, td_delegateId = ''scan''\<rparr>"

definition bound_session :: session where
  "bound_session = ex_session\<lparr>ses_status := Running, ses_currentWorkerId := Some ''k1'', ses_sessionLeaseId := Some ''l1'',
     ses_eventCursor := 1, ses_nextTurnSeq := 2, ses_resolvedAgentSpec := ex_spec\<lparr>ra_runtimeTools := [scan_tool]\<rparr>\<rparr>"

definition bound_input :: runtime_event where
  "bound_input = \<lparr>ev_eventId = ''e1'', ev_sessionId = Some ''s1'', ev_workerId = None, ev_ackId = None, ev_turnSeq = Some 1,
     ev_sequence = 1, ev_type = InputAccepted, ev_timestamp = 0, ev_actor = CentralActor, ev_sessionLeaseId = None,
     ev_payload = JsonPayload (JObj [(''input'', JObj [(''message'', JStr ''scan''),
        (''delegationTarget'', JObj [(''deviceRef'', JStr ''x'')])])])\<rparr>"

definition bound_world :: world where
  "bound_world = writeSession bound_session (empty_world\<lparr>w_sessionEvents := [(''s1'', [bound_input])]\<rparr>)"

definition tool_event :: runtime_event where
  "tool_event = bound_input\<lparr>ev_eventId := ''e2'', ev_type := RuntimeToolRequested, ev_sessionLeaseId := Some ''l1'', ev_payload := NoPayload\<rparr>"

definition wide_input :: json where
  "wide_input = JObj [(''message'', JStr ''scan''), (''target'', JObj [(''scope'', JStr ''all'')])]"

definition ex_events :: delegation_event_config where
  "ex_events = \<lparr>de_delegations = ex_config, de_fanout = \<lparr>fc_tenantId = ''t1'', fc_reparse = (\<lambda>_. None)\<rparr>, de_sessions = ex_session_cfg,
     de_errorText = (\<lambda>_. ''error'')\<rparr>"

lemma wide_target_refused:
  "case handleRuntimeTool ex_events [] tool_event (''r1'', ''scan_device'', wide_input) (\<lambda>_. None, bound_world) of
     Some (Inr _, _, w1) \<Rightarrow> w_fanouts w1 = [] \<and> w_delegations w1 = [] \<and> length (w_published w1) = 1
   | _ \<Rightarrow> False"
  by code_simp

lemma agent_cannot_redirect_witness:
  "(handleRuntimeTool ex_events [] tool_event (''r1'', ''scan_device'', wide_input) (\<lambda>_. None, bound_world)
      = handleRuntimeTool ex_events [] tool_event (''r1'', ''scan_device'', message_only ''scan'') (\<lambda>_. None, bound_world)
    \<or> (\<exists>parent err r w1. handleRuntimeTool ex_events [] tool_event (''r1'', ''scan_device'', wide_input) (\<lambda>_. None, bound_world)
           = Some (r, \<lambda>_. None, w1)
         \<and> publishToolResponse parent ''r1'' (rejection (de_errorText ex_events) err) (\<lambda>_. None, bound_world) = Some (r, \<lambda>_. None, w1)
         \<and> same_tables w1 bound_world))"
proof (rule agent_cannot_redirect)
  have "readSession (the (ev_sessionId tool_event)) bound_world = Some bound_session
      \<and> readTurnDelegationTarget ''s1'' 1 bound_world = Some (JObj [(''deviceRef'', JStr ''x'')])" by code_simp
  then show "readTurnDelegationTarget (ses_sessionId s) 1 bound_world = Some (JObj [(''deviceRef'', JStr ''x'')])"
    if "readSession (the (ev_sessionId tool_event)) bound_world = Some s" for s
    using that by (auto simp: bound_session_def ex_session_def)
  show "ev_turnSeq tool_event = Some 1" "isRecord (Some wide_input)" "jfield ''message'' wide_input = Some (JStr ''scan'')"
    by (simp_all add: tool_event_def bound_input_def wide_input_def)
qed

end
