(* ===== verification/EdgeWorker.thy ===== *)
theory EdgeWorker
  imports Sidecar
begin

text \<open>
  The SDK of edge workers, \<^verbatim>\<open>sdk/edge-worker/src/edge-worker-runtime.ts\<close>: the worker a browser tab is. As in
  the sidecar's model, handlers run at the same time and interleave at every \<^verbatim>\<open>await\<close>; a waiting handler is an
  \<open>edge_task\<close>, and what follows a subroutine it called is an \<open>edge_cont\<close>. The agent, the transport and the
  negotiation are outside: \<open>ew_calls\<close> and \<open>ew_sent\<close> are what they are handed, signals are their answers.
\<close>

subsection \<open>The durable queue of results\<close>

text \<open>\<^verbatim>\<open>outbound-queue.ts\<close>: a result waits here, without lease and worker, until central has acknowledged it.\<close>

record queued_result =
  qr_queueId :: string
  qr_sessionId :: string
  qr_turnSeq :: int
  qr_digest :: string
  qr_type :: event_type
  qr_payload :: json
  qr_enqueuedAt :: time

text \<open>The two stores: a list in memory, and a slot of the browser's storage with what its text parses to.\<close>

definition memoryAdd :: "queued_result \<Rightarrow> queued_result list \<Rightarrow> queued_result list" where
  "memoryAdd q items = items @ [q]"

fun memoryRemove :: "string \<Rightarrow> queued_result list \<Rightarrow> queued_result list" where
  "memoryRemove i [] = []"
| "memoryRemove i (q # qs) = (if qr_queueId q = i then qs else q # memoryRemove i qs)"

datatype web_slot = Absent | Foreign | Stored "queued_result list"

fun webList :: "web_slot \<Rightarrow> queued_result list" where
  "webList (Stored qs) = qs"
| "webList _ = []"

definition webWrite :: "queued_result list \<Rightarrow> web_slot" where
  "webWrite qs = (if qs = [] then Absent else Stored qs)"

definition webAdd :: "queued_result \<Rightarrow> web_slot \<Rightarrow> web_slot" where
  "webAdd q s = webWrite (webList s @ [q])"

definition webRemove :: "string \<Rightarrow> web_slot \<Rightarrow> web_slot" where
  "webRemove i s = webWrite (filter (\<lambda>q. qr_queueId q \<noteq> i) (webList s))"

text \<open>What the runtime relies on in a store, and both stores give it.\<close>

locale outbound_store =
  fixes items :: "'s \<Rightarrow> queued_result list"
    and add :: "queued_result \<Rightarrow> 's \<Rightarrow> 's"
    and remove :: "string \<Rightarrow> 's \<Rightarrow> 's"
  assumes items_add: "items (add q s) = items s @ [q]"
    and items_remove: "distinct (map qr_queueId (items s)) \<Longrightarrow> items (remove i s) = filter (\<lambda>q. qr_queueId q \<noteq> i) (items s)"
begin

lemma distinct_remove: "distinct (map qr_queueId (items s)) \<Longrightarrow> distinct (map qr_queueId (items (remove i s)))"
  by (simp add: items_remove distinct_map_filter)

lemma kept_until_removed:
  "distinct (map qr_queueId (items s)) \<Longrightarrow> q \<in> set (items (remove i s)) \<longleftrightarrow> q \<in> set (items s) \<and> qr_queueId q \<noteq> i"
  by (simp add: items_remove)

lemma remove_added:
  assumes "distinct (map qr_queueId (items s))" and "qr_queueId q \<notin> qr_queueId ` set (items s)"
  shows "items (remove (qr_queueId q) (add q s)) = items s"
proof -
  have "items (remove (qr_queueId q) (add q s)) = filter (\<lambda>x. qr_queueId x \<noteq> qr_queueId q) (items s)"
    using assms by (subst items_remove) (simp_all add: items_add)
  moreover have "filter (\<lambda>x. qr_queueId x \<noteq> qr_queueId q) (items s) = items s"
    using assms(2) by (intro filter_True ballI) (metis image_eqI)
  ultimately show ?thesis by simp
qed

end

lemma memoryRemove_filter:
  "distinct (map qr_queueId qs) \<Longrightarrow> memoryRemove i qs = filter (\<lambda>q. qr_queueId q \<noteq> i) qs"
proof (induction qs)
  case (Cons q qs)
  then have "qr_queueId q = i \<Longrightarrow> filter (\<lambda>q. qr_queueId q \<noteq> i) qs = qs" by (intro filter_True ballI) (metis distinct.simps(2) image_eqI image_set list.simps(9))
  with Cons show ?case by simp
qed simp

interpretation memory: outbound_store "\<lambda>s. s" memoryAdd memoryRemove
  by unfold_locales (simp_all add: memoryAdd_def memoryRemove_filter)

interpretation web: outbound_store webList webAdd webRemove
  by unfold_locales (simp_all add: webAdd_def webRemove_def webWrite_def)

subsection \<open>A map that is iterated while it changes\<close>

text \<open>
  A \<^verbatim>\<open>Map\<close> of JavaScript: entries in the order of insertion, where a deleted one leaves a hole, so that the
  position of an iteration stays what it is.
\<close>

type_synonym 'v jsmap = "(string \<times> 'v) option list"

definition mget :: "string \<Rightarrow> 'v jsmap \<Rightarrow> 'v option" where
  "mget k m = map_of (List.map_filter id m) k"

definition mset_at :: "string \<Rightarrow> 'v \<Rightarrow> 'v jsmap \<Rightarrow> 'v jsmap" where
  "mset_at k v m =
     (if mget k m = None then m @ [Some (k, v)]
      else map (\<lambda>e. case e of None \<Rightarrow> None | Some (k1, v1) \<Rightarrow> Some (k1, if k1 = k then v else v1)) m)"

definition mdel :: "string \<Rightarrow> 'v jsmap \<Rightarrow> 'v jsmap" where
  "mdel k m = map (\<lambda>e. case e of None \<Rightarrow> None | Some (k1, v1) \<Rightarrow> if k1 = k then None else Some (k1, v1)) m"

definition mclear :: "'v jsmap \<Rightarrow> 'v jsmap" where
  "mclear m = map (\<lambda>e. None) m"

definition msize :: "'v jsmap \<Rightarrow> nat" where
  "msize m = length (List.map_filter id m)"

text \<open>The next entry of an iteration, with the position after it.\<close>

definition mnext :: "nat \<Rightarrow> 'v jsmap \<Rightarrow> (nat \<times> 'v) option" where
  "mnext i m = Option.bind (find (\<lambda>j. m ! j \<noteq> None) [i..<length m]) (\<lambda>j. Some (Suc j, snd (the (m ! j))))"

subsection \<open>Commands\<close>

record edge_assign =
  ea_sessionId :: string
  ea_workerId :: string
  ea_sessionLeaseId :: string
  ea_agentSpecId :: string

definition parseEdgeAssign :: "json option \<Rightarrow> edge_assign option" where
  "parseEdgeAssign b =
     (case b of
        None \<Rightarrow> None
      | Some p \<Rightarrow>
          if \<not> isRecord b \<or> \<not> is_string (jfield ''sessionId'' p) \<or> \<not> is_string (jfield ''workerId'' p)
             \<or> \<not> is_string (jfield ''sessionLeaseId'' p) \<or> \<not> isRecord (jfield ''resolvedAgentSpec'' p)
             \<or> \<not> is_string (Option.bind (jfield ''resolvedAgentSpec'' p) (jfield ''agentSpecId'')) then None
          else Some \<lparr>ea_sessionId = the (jstring (jfield ''sessionId'' p)), ea_workerId = the (jstring (jfield ''workerId'' p)),
                 ea_sessionLeaseId = the (jstring (jfield ''sessionLeaseId'' p)),
                 ea_agentSpecId = the (jstring (Option.bind (jfield ''resolvedAgentSpec'' p) (jfield ''agentSpecId'')))\<rparr>)"

definition parseEdgeInput :: "json option \<Rightarrow> turn_command option" where
  "parseEdgeInput b =
     (case b of
        None \<Rightarrow> None
      | Some p \<Rightarrow> if \<not> isRecord b \<or> \<not> isRecord (jfield ''input'' p) then None else parseInputPayload b)"

record edge_pause =
  ep_sessionId :: string
  ep_workerId :: string
  ep_sessionLeaseId :: string
  ep_reason :: "json option"

definition parseEdgePause :: "json option \<Rightarrow> edge_pause option" where
  "parseEdgePause b =
     (case b of
        None \<Rightarrow> None
      | Some p \<Rightarrow>
          if \<not> isRecord b \<or> \<not> is_string (jfield ''sessionId'' p) \<or> \<not> is_string (jfield ''workerId'' p)
             \<or> \<not> is_string (jfield ''sessionLeaseId'' p) then None
          else Some \<lparr>ep_sessionId = the (jstring (jfield ''sessionId'' p)), ep_workerId = the (jstring (jfield ''workerId'' p)),
                 ep_sessionLeaseId = the (jstring (jfield ''sessionLeaseId'' p)), ep_reason = jfield ''reason'' p\<rparr>)"

definition parseResultAcknowledged :: "json option \<Rightarrow> string option" where
  "parseResultAcknowledged b =
     (case Option.bind b (\<lambda>p. jstring (jfield ''resultEventId'' p)) of None \<Rightarrow> None | Some i \<Rightarrow> if i = [] then None else Some i)"

definition rejectionReason :: "json option \<Rightarrow> string" where
  "rejectionReason b =
     (case Option.bind b (\<lambda>p. jstring (jfield ''reason'' p)) of
        None \<Rightarrow> ''heartbeat-rejected''
      | Some r \<Rightarrow> if r = [] then ''heartbeat-rejected'' else r)"

subsection \<open>State\<close>

record edge_run =
  er_sessionId :: string
  er_workerId :: string
  er_sessionLeaseId :: string
  er_agentSpecId :: string
  er_ready :: nat
  er_acceptedInputs :: "(int, string) table"
  er_currentTurn :: "nat option"

text \<open>
  Calls of the agent, of the transport and of the negotiation. The numbers of \<open>RunTurnCall\<close> are the run and the
  \<^verbatim>\<open>AbortController\<close> of the turn.
\<close>

datatype edge_call =
    NegotiateCall worker_register_payload
  | ConnectCall
  | CloseCall
  | SubscribeCall string
  | StartSessionCall string string
  | RunTurnCall nat turn_command nat
  | StopSessionCall string
  | StopTransportCall

text \<open>What the observer is told.\<close>

datatype edge_notice =
    Registered string
  | Beat int
  | SessionAssigned string string
  | SessionRunning string
  | TurnStarted string int string
  | TurnProgress string int string
  | TurnDone string int "string option" "json option"
  | TurnError string int string
  | TurnReplayed string int
  | ResultQueued string int nat
  | ResultSynced string int nat
  | TransportState bool
  | ReRegistering string
  | SessionPausedNotice string "json option"
  | CommandRejected "string option" string
  | WorkerStopped
  | ErrorNotice string
  | Discarded nat string string

record edge =
  ew_runs :: "edge_run list"
  ew_promises :: "promise_state list"
  ew_activeRuns :: "nat jsmap"
  ew_completedPauses :: "string list"
  ew_queue :: "queued_result list"
  ew_heartbeatState :: "(string \<times> int) option"
  ew_timer :: bool
  ew_subscribed :: bool
  ew_wired :: bool
  ew_registration :: "worker_register_payload option"
  ew_reregistering :: bool
  ew_turns :: nat
  ew_aborted :: "nat list"
  ew_sent :: "runtime_event list"
  ew_calls :: "edge_call list"
  ew_notices :: "edge_notice list"
  ew_uuid :: "nat \<Rightarrow> string"
  ew_clock :: "nat \<Rightarrow> time"
  ew_steps :: nat

text \<open>The optional methods of the agent and of the transport, and whether the store has room for a result.\<close>

record edge_config =
  ec_starts :: bool
  ec_stops :: bool
  ec_reportsState :: bool
  ec_room :: "queued_result \<Rightarrow> queued_result list \<Rightarrow> bool"

datatype edge_signal =
    Wakes
  | Resolves
  | Rejects string
  | Progresses string
  | Deltas string
  | Returns "string option" "json option"
  | Grants "(string \<times> int) option"

text \<open>What follows a subroutine: a flush, a heartbeat, a discard or the end of an agent's session.\<close>

datatype edge_cont =
    Ends
  | TurnFlushed nat nat edge_notice
  | FlushOn nat edge_cont
  | ConnectionBeaten "string \<times> int" bool
  | PauseStopped edge_pause
  | PauseDiscarded edge_pause
  | PauseBeaten edge_pause
  | DropStopped string nat nat
  | DropDiscarded string nat
  | WorkerStopping nat

datatype edge_task =
    EdgeDelivered runtime_event
  | AgentStarting nat
  | EdgeAssigned edge_assign nat
  | RunningReported edge_assign
  | StartFailing edge_assign string
  | StartFailed string
  | RejectionReported "string option" string
  | EdgeInputWaiting runtime_event turn_command nat
  | EdgeInputAcknowledging turn_command nat
  | ReplayListed turn_command nat "queued_result list"
  | EdgeTurn turn_command nat nat
  | Telemetry
  | ResultAdded nat nat edge_notice
  | ResultCounted nat nat edge_notice nat
  | EdgeTurnFailing turn_command nat nat string
  | FlushListed nat "queued_result list" edge_cont
  | FlushPublishing nat "queued_result list" edge_cont
  | AckListed string "queued_result list"
  | AckRemoved queued_result
  | AckCounted queued_result nat
  | DiscardListed string string "queued_result list" edge_cont
  | Discarding string string "queued_result list" nat edge_cont
  | SessionStopping string string edge_cont
  | EdgePausePublishing edge_pause
  | PauseRepeated
  | EdgeBeating int edge_cont
  | BeatListed nat edge_cont
  | EdgeNegotiating bool
  | EdgeConnecting "string \<times> int" bool
  | SubscriptionClosing "string \<times> int" bool
  | EdgeSubscribing "string \<times> int" bool
  | CloseRequested
  | Unsubscribing
  | TransportStopping

type_synonym edge_continued = "(edge_task list \<times> edge) option"

abbreviation over :: "edge \<Rightarrow> edge_continued" where
  "over st \<equiv> Some ([], st)"

abbreviation then_task :: "edge_task \<Rightarrow> edge \<Rightarrow> edge_continued" where
  "then_task t st \<equiv> Some ([t], st)"

definition on_answer :: "edge_signal \<Rightarrow> edge_continued \<Rightarrow> (string \<Rightarrow> edge_continued) \<Rightarrow> edge_continued" where
  "on_answer sig resolved rejected = (case sig of Resolves \<Rightarrow> resolved | Rejects msg \<Rightarrow> rejected msg | _ \<Rightarrow> None)"

definition on_wake :: "edge_signal \<Rightarrow> edge_continued \<Rightarrow> edge_continued" where
  "on_wake sig c = (case sig of Wakes \<Rightarrow> c | _ \<Rightarrow> None)"

subsection \<open>Small steps on the state\<close>

definition edgeRun :: "nat \<Rightarrow> edge \<Rightarrow> edge_run" where
  "edgeRun r st = ew_runs st ! r"

definition updateEdgeRun :: "nat \<Rightarrow> (edge_run \<Rightarrow> edge_run) \<Rightarrow> edge \<Rightarrow> edge" where
  "updateEdgeRun r f st = st\<lparr>ew_runs := (ew_runs st)[r := f (ew_runs st ! r)]\<rparr>"

definition notice :: "edge_notice \<Rightarrow> edge \<Rightarrow> edge" where
  "notice n st = st\<lparr>ew_notices := ew_notices st @ [n]\<rparr>"

definition edgeCalls :: "edge_call \<Rightarrow> edge \<Rightarrow> edge" where
  "edgeCalls c st = st\<lparr>ew_calls := ew_calls st @ [c]\<rparr>"

definition abortTurn :: "nat \<Rightarrow> edge \<Rightarrow> edge" where
  "abortTurn r st = (case er_currentTurn (edgeRun r st) of None \<Rightarrow> st | Some t \<Rightarrow> st\<lparr>ew_aborted := t # ew_aborted st\<rparr>)"

definition edgePublish ::
  "string option \<Rightarrow> event_type \<Rightarrow> string option \<Rightarrow> string option \<Rightarrow> string option \<Rightarrow> int option \<Rightarrow> json \<Rightarrow> edge \<Rightarrow> edge" where
  "edgePublish eid ty sid wid lease turn body st =
     st\<lparr>ew_sent := ew_sent st @ [\<lparr>ev_eventId = orElse eid (ew_uuid st (ew_steps st)), ev_sessionId = sid, ev_workerId = wid, ev_ackId = None,
          ev_turnSeq = turn, ev_sequence = 0, ev_type = ty, ev_timestamp = ew_clock st (ew_steps st), ev_actor = SidecarActor,
          ev_sessionLeaseId = lease, ev_payload = JsonPayload body\<rparr>],
        ew_steps := Suc (ew_steps st)\<rparr>"

definition edgeCommandAccepted :: "runtime_event \<Rightarrow> int \<Rightarrow> edge \<Rightarrow> edge" where
  "edgeCommandAccepted e turn =
     edgePublish None WorkerCommandAccepted (ev_sessionId e) (ev_workerId e) (ev_sessionLeaseId e) (Some turn)
       (jobj [(''commandEventId'', Some (JStr (ev_eventId e))), (''turnSeq'', Some (JNum turn))])"

definition edgeCommandRejected :: "runtime_event \<Rightarrow> string \<Rightarrow> string option \<Rightarrow> string option \<Rightarrow> edge \<Rightarrow> edge_continued" where
  "edgeCommandRejected e reason expected received st =
     then_task (RejectionReported (ev_sessionId e) reason)
       (edgePublish None WorkerCommandRejected (ev_sessionId e) (ev_workerId e) received (ev_turnSeq e)
          (jobj [(''reason'', Some (JStr reason)), (''expectedSessionLeaseId'', map_option JStr expected),
                 (''receivedSessionLeaseId'', map_option JStr received)]) st)"

definition edgeReport :: "event_type \<Rightarrow> turn_command \<Rightarrow> json \<Rightarrow> edge \<Rightarrow> edge" where
  "edgeReport ty ic = edgePublish None ty (Some (ic_sessionId ic)) (Some (ic_workerId ic)) (Some (ic_sessionLeaseId ic)) (Some (ic_turnSeq ic))"

definition assignReport :: "event_type \<Rightarrow> edge_assign \<Rightarrow> json \<Rightarrow> edge \<Rightarrow> edge" where
  "assignReport ty ea = edgePublish None ty (Some (ea_sessionId ea)) (Some (ea_workerId ea)) (Some (ea_sessionLeaseId ea)) None"

subsection \<open>Flushing the queue\<close>

text \<open>
  A flush of one run lists the queue, and publishes what it finds for the run's accepted turns in the order of the turns,
  each with the run's own worker and lease; the first that cannot be published ends it.
\<close>

definition flushRun :: "nat \<Rightarrow> edge_cont \<Rightarrow> edge \<Rightarrow> edge_continued" where
  "flushRun r k st = then_task (FlushListed r (ew_queue st) k) st"

definition flushable :: "edge_run \<Rightarrow> queued_result list \<Rightarrow> queued_result list" where
  "flushable a items =
     sort_key qr_turnSeq (filter (\<lambda>q. qr_sessionId q = er_sessionId a \<and> tget (er_acceptedInputs a) (qr_turnSeq q) \<noteq> None) items)"

definition publishResult :: "nat \<Rightarrow> queued_result \<Rightarrow> edge \<Rightarrow> edge" where
  "publishResult r q st =
     (let a = edgeRun r st
      in edgePublish (Some (qr_queueId q)) (qr_type q) (Some (qr_sessionId q)) (Some (er_workerId a)) (Some (er_sessionLeaseId a))
           (Some (qr_turnSeq q)) (qr_payload q) st)"

definition flushPending :: "nat \<Rightarrow> edge_cont \<Rightarrow> (edge \<Rightarrow> edge_continued) \<Rightarrow> edge \<Rightarrow> edge_continued" where
  "flushPending i k return st =
     (case mnext i (ew_activeRuns st) of None \<Rightarrow> return st | Some (j, r) \<Rightarrow> flushRun r (FlushOn j k) st)"

subsection \<open>Heartbeats\<close>

definition edgeHeartbeat :: "edge_cont \<Rightarrow> (edge \<Rightarrow> edge_continued) \<Rightarrow> edge \<Rightarrow> edge_continued" where
  "edgeHeartbeat k return st =
     (case ew_heartbeatState st of
        None \<Rightarrow> return st
      | Some (wid, capacity) \<Rightarrow>
          then_task (EdgeBeating (max 0 (capacity - int (msize (ew_activeRuns st)))) k)
            (edgePublish None WorkerHeartbeat None (Some wid) None None (heartbeat_body wid capacity (msize (ew_activeRuns st))) st))"

subsection \<open>The end of a session on this worker\<close>

definition stopAgentSession :: "edge_config \<Rightarrow> string \<Rightarrow> string \<Rightarrow> edge_cont \<Rightarrow> edge \<Rightarrow> edge_continued" where
  "stopAgentSession cfg sid reason k st =
     then_task (SessionStopping sid reason k) (if ec_stops cfg then edgeCalls (StopSessionCall sid) st else st)"

definition discardQueuedResults :: "string \<Rightarrow> string \<Rightarrow> edge_cont \<Rightarrow> edge \<Rightarrow> edge_continued" where
  "discardQueuedResults sid reason k st =
     then_task (DiscardListed sid reason (filter (\<lambda>q. qr_sessionId q = sid) (ew_queue st)) k) st"

text \<open>One removal after the other; afterwards the observer is told how many there were.\<close>

definition discardNext ::
  "string \<Rightarrow> string \<Rightarrow> queued_result list \<Rightarrow> nat \<Rightarrow> edge_cont \<Rightarrow> (edge \<Rightarrow> edge_continued) \<Rightarrow> edge \<Rightarrow> edge_continued" where
  "discardNext sid reason qs n k return st =
     (case qs of
        q # rest \<Rightarrow> then_task (Discarding sid reason rest n k) (st\<lparr>ew_queue := memoryRemove (qr_queueId q) (ew_queue st)\<rparr>)
      | [] \<Rightarrow> return (if n > 0 then notice (Discarded n sid reason) st else st))"

subsection \<open>Registration\<close>

definition failConnection :: "bool \<Rightarrow> string \<Rightarrow> edge \<Rightarrow> edge_continued" where
  "failConnection rereg msg st = over (if rereg then (notice (ErrorNotice msg) st)\<lparr>ew_reregistering := False\<rparr> else st)"

definition startNegotiation :: "bool \<Rightarrow> edge \<Rightarrow> edge_continued" where
  "startNegotiation rereg st =
     then_task (EdgeNegotiating rereg) (edgeCalls (NegotiateCall (the (ew_registration st))) st)"

definition registerWorker :: "worker_register_payload \<Rightarrow> edge \<Rightarrow> edge_continued" where
  "registerWorker reg st = startNegotiation False (st\<lparr>ew_registration := Some reg\<rparr>)"

definition edgeNegotiated :: "edge_config \<Rightarrow> bool \<Rightarrow> edge_signal \<Rightarrow> edge \<Rightarrow> edge_continued" where
  "edgeNegotiated cfg rereg sig st =
     (case sig of
        Grants None \<Rightarrow> failConnection rereg ''negotiate response did not include a worker record'' st
      | Grants (Some w) \<Rightarrow>
          then_task (EdgeConnecting w rereg) (edgeCalls ConnectCall (if ec_reportsState cfg then st\<lparr>ew_wired := True\<rparr> else st))
      | Rejects m \<Rightarrow> failConnection rereg m st
      | _ \<Rightarrow> None)"

definition edgeConnected :: "string \<times> int \<Rightarrow> bool \<Rightarrow> edge_signal \<Rightarrow> edge \<Rightarrow> edge_continued" where
  "edgeConnected w rereg sig st =
     on_answer sig (then_task (SubscriptionClosing w rereg) (if ew_subscribed st then edgeCalls CloseCall st else st))
       (\<lambda>m. failConnection rereg m st)"

definition subscriptionClosed :: "string \<times> int \<Rightarrow> bool \<Rightarrow> edge_signal \<Rightarrow> edge \<Rightarrow> edge_continued" where
  "subscriptionClosed w rereg sig st =
     on_answer sig (then_task (EdgeSubscribing w rereg) (edgeCalls (SubscribeCall (fst w)) (st\<lparr>ew_subscribed := False\<rparr>)))
       (\<lambda>m. failConnection rereg m st)"

definition connectionBeaten :: "string \<times> int \<Rightarrow> bool \<Rightarrow> edge \<Rightarrow> edge_continued" where
  "connectionBeaten w rereg st =
     over ((notice (Registered (fst w)) (st\<lparr>ew_timer := True\<rparr>))\<lparr>ew_reregistering := (if rereg then False else ew_reregistering st)\<rparr>)"

definition edgeSubscribed :: "string \<times> int \<Rightarrow> bool \<Rightarrow> edge_signal \<Rightarrow> edge \<Rightarrow> edge_continued" where
  "edgeSubscribed w rereg sig st =
     on_answer sig
       (edgeHeartbeat (ConnectionBeaten w rereg) (connectionBeaten w rereg)
          (st\<lparr>ew_subscribed := True, ew_heartbeatState := Some w, ew_timer := False\<rparr>))
       (\<lambda>m. failConnection rereg m st)"

text \<open>
  A rejected heartbeat: the runs are dropped one after the other, each with its queued results, and the worker negotiates again.
\<close>

definition dropFrom :: "edge_config \<Rightarrow> string \<Rightarrow> nat \<Rightarrow> edge \<Rightarrow> edge_continued" where
  "dropFrom cfg reason i st =
     (case mnext i (ew_activeRuns st) of
        None \<Rightarrow> startNegotiation True (st\<lparr>ew_activeRuns := mclear (ew_activeRuns st), ew_completedPauses := []\<rparr>)
      | Some (j, r) \<Rightarrow> stopAgentSession cfg (er_sessionId (edgeRun r st)) reason (DropStopped reason j r) (abortTurn r st))"

definition reregister :: "edge_config \<Rightarrow> string \<Rightarrow> edge \<Rightarrow> edge_continued" where
  "reregister cfg reason st =
     (if ew_reregistering st then over st
      else if ew_registration st = None then over (notice (TransportState False) st)
      else dropFrom cfg ''worker identity was replaced'' 0
             ((notice (ReRegistering reason) (st\<lparr>ew_reregistering := True\<rparr>))\<lparr>ew_timer := False\<rparr>))"

subsection \<open>session.assign\<close>

definition edgeAssign :: "edge_config \<Rightarrow> runtime_event \<Rightarrow> edge \<Rightarrow> edge_continued" where
  "edgeAssign cfg e st =
     (case parseEdgeAssign (jsonBody (ev_payload e)) of
        None \<Rightarrow> over st
      | Some ea \<Rightarrow>
          if ev_sessionLeaseId e \<noteq> Some (ea_sessionLeaseId ea) then over st
          else
            (let p = length (ew_promises st);
                 st1 = st\<lparr>ew_completedPauses := filter (\<lambda>key. \<not> of_session (ea_sessionId ea) key) (ew_completedPauses st)\<rparr>;
                 (starting, st2) =
                   (if ec_starts cfg
                    then ([AgentStarting p], edgeCalls (StartSessionCall (ea_sessionId ea) (ea_agentSpecId ea)) (st1\<lparr>ew_promises := ew_promises st1 @ [Unsettled]\<rparr>))
                    else ([], st1\<lparr>ew_promises := ew_promises st1 @ [Fulfilled]\<rparr>));
                 run = \<lparr>er_sessionId = ea_sessionId ea, er_workerId = ea_workerId ea, er_sessionLeaseId = ea_sessionLeaseId ea,
                        er_agentSpecId = ea_agentSpecId ea, er_ready = p, er_acceptedInputs = [], er_currentTurn = None\<rparr>
             in Some (starting @ [EdgeAssigned ea p],
                  notice (SessionAssigned (ea_sessionId ea) (ea_agentSpecId ea))
                    (st2\<lparr>ew_runs := ew_runs st2 @ [run],
                         ew_activeRuns := mset_at (ea_sessionId ea) (length (ew_runs st2)) (ew_activeRuns st2)\<rparr>))))"

definition agentReady :: "nat \<Rightarrow> edge_signal \<Rightarrow> edge \<Rightarrow> edge_continued" where
  "agentReady p sig st =
     on_answer sig (over (st\<lparr>ew_promises := (ew_promises st)[p := Fulfilled]\<rparr>))
       (\<lambda>msg. over (st\<lparr>ew_promises := (ew_promises st)[p := RejectedWith msg]\<rparr>))"

definition edgeAssigned :: "edge_assign \<Rightarrow> nat \<Rightarrow> edge_signal \<Rightarrow> edge \<Rightarrow> edge_continued" where
  "edgeAssigned ea p sig st =
     on_wake sig
       (case ew_promises st ! p of
          Unsettled \<Rightarrow> None
        | Fulfilled \<Rightarrow> then_task (RunningReported ea) (assignReport StatusChanged ea (jobj [(''status'', Some (JStr ''running''))]) st)
        | RejectedWith msg \<Rightarrow>
            then_task (StartFailing ea msg)
              (assignReport AgentOutput ea (error_body msg) (st\<lparr>ew_activeRuns := mdel (ea_sessionId ea) (ew_activeRuns st)\<rparr>)))"

definition runningReported :: "edge_assign \<Rightarrow> edge_signal \<Rightarrow> edge \<Rightarrow> edge_continued" where
  "runningReported ea sig st = on_answer sig (over (notice (SessionRunning (ea_sessionId ea)) st)) (\<lambda>m. over st)"

definition startFailing :: "edge_assign \<Rightarrow> string \<Rightarrow> edge_signal \<Rightarrow> edge \<Rightarrow> edge_continued" where
  "startFailing ea msg sig st =
     on_answer sig
       (then_task (StartFailed msg) (assignReport StatusChanged ea (jobj [(''status'', Some (JStr ''failed'')), (''reason'', Some (JStr msg))]) st))
       (\<lambda>m. over st)"

definition startFailed :: "string \<Rightarrow> edge_signal \<Rightarrow> edge \<Rightarrow> edge_continued" where
  "startFailed msg sig st = on_answer sig (over (notice (ErrorNotice msg) st)) (\<lambda>m. over st)"

subsection \<open>session.input\<close>

definition rejectionReported :: "string option \<Rightarrow> string \<Rightarrow> edge_signal \<Rightarrow> edge \<Rightarrow> edge_continued" where
  "rejectionReported sid reason sig st = on_answer sig (over (notice (CommandRejected sid reason) st)) (\<lambda>m. over st)"

definition edgeFenced ::
  "runtime_event \<Rightarrow> string \<Rightarrow> string \<Rightarrow> edge \<Rightarrow> (nat \<Rightarrow> edge_continued) \<Rightarrow> edge_continued" where
  "edgeFenced e sid lease st f =
     (case mget sid (ew_activeRuns st) of
        None \<Rightarrow> edgeCommandRejected e ''unknown_session'' None (Some lease) st
      | Some r \<Rightarrow>
          (let own = er_sessionLeaseId (edgeRun r st)
           in if own \<noteq> lease \<or> ev_sessionLeaseId e \<noteq> Some own
              then edgeCommandRejected e ''stale_session_lease'' (Some own) (orOpt (ev_sessionLeaseId e) (Some lease)) st
              else f r))"

definition edgeInput :: "runtime_event \<Rightarrow> edge \<Rightarrow> edge_continued" where
  "edgeInput e st =
     (case parseEdgeInput (jsonBody (ev_payload e)) of
        None \<Rightarrow> over st
      | Some ic \<Rightarrow> edgeFenced e (ic_sessionId ic) (ic_sessionLeaseId ic) st (\<lambda>r. then_task (EdgeInputWaiting e ic r) st))"

definition edge_digest :: "turn_command \<Rightarrow> string" where
  "edge_digest ic = json_text (ic_input ic)"

definition edgeInputReady :: "runtime_event \<Rightarrow> turn_command \<Rightarrow> nat \<Rightarrow> edge_signal \<Rightarrow> edge \<Rightarrow> edge_continued" where
  "edgeInputReady e ic r sig st =
     on_wake sig
       (let a = edgeRun r st; received = orOpt (ev_sessionLeaseId e) (Some (ic_sessionLeaseId ic))
        in case ew_promises st ! er_ready a of
             Unsettled \<Rightarrow> None
           | RejectedWith msg \<Rightarrow> edgeCommandRejected e ''agent_not_running'' (Some (er_sessionLeaseId a)) received st
           | Fulfilled \<Rightarrow>
               (case tget (er_acceptedInputs a) (ic_turnSeq ic) of
                  Some digest \<Rightarrow>
                    if digest \<noteq> edge_digest ic
                    then edgeCommandRejected e ''turn_input_conflict'' (Some (er_sessionLeaseId a)) (Some (ic_sessionLeaseId ic)) st
                    else over (edgeCommandAccepted e (ic_turnSeq ic) st)
                | None \<Rightarrow>
                    then_task (EdgeInputAcknowledging ic r)
                      (edgeCommandAccepted e (ic_turnSeq ic)
                        (updateEdgeRun r (\<lambda>a. a\<lparr>er_acceptedInputs := tput (ic_turnSeq ic) (edge_digest ic) (er_acceptedInputs a)\<rparr>) st))))"

definition edgeInputAcknowledged :: "turn_command \<Rightarrow> nat \<Rightarrow> edge_signal \<Rightarrow> edge \<Rightarrow> edge_continued" where
  "edgeInputAcknowledged ic r sig st = on_answer sig (then_task (ReplayListed ic r (ew_queue st)) st) (\<lambda>m. over st)"

definition saved_result :: "turn_command \<Rightarrow> nat \<Rightarrow> queued_result list \<Rightarrow> edge \<Rightarrow> queued_result option" where
  "saved_result ic r items st =
     find (\<lambda>q. qr_sessionId q = er_sessionId (edgeRun r st) \<and> qr_turnSeq q = ic_turnSeq ic \<and> qr_digest q = edge_digest ic) items"

definition startTurn :: "turn_command \<Rightarrow> nat \<Rightarrow> edge \<Rightarrow> edge_continued" where
  "startTurn ic r st =
     (let t = ew_turns st
      in then_task (EdgeTurn ic r t)
           (edgeCalls (RunTurnCall r ic t)
             (notice (TurnStarted (ic_sessionId ic) (ic_turnSeq ic) (ic_message ic))
               (updateEdgeRun r (\<lambda>a. a\<lparr>er_currentTurn := Some t\<rparr>) (st\<lparr>ew_turns := Suc t\<rparr>)))))"

text \<open>A result that is saved for the turn is delivered again instead of running the turn.\<close>

definition replayListed :: "turn_command \<Rightarrow> nat \<Rightarrow> queued_result list \<Rightarrow> edge_signal \<Rightarrow> edge \<Rightarrow> edge_continued" where
  "replayListed ic r items sig st =
     on_wake sig
       (case saved_result ic r items st of
          None \<Rightarrow> startTurn ic r st
        | Some q \<Rightarrow> flushRun r Ends (notice (TurnReplayed (er_sessionId (edgeRun r st)) (ic_turnSeq ic)) st))"

subsection \<open>A turn of the agent\<close>

definition endTurn :: "nat \<Rightarrow> nat \<Rightarrow> edge \<Rightarrow> edge" where
  "endTurn r t = updateEdgeRun r (\<lambda>a. a\<lparr>er_currentTurn := (if er_currentTurn a = Some t then None else er_currentTurn a)\<rparr>)"

definition newQueuedResult :: "nat \<Rightarrow> turn_command \<Rightarrow> event_type \<Rightarrow> json \<Rightarrow> edge \<Rightarrow> queued_result" where
  "newQueuedResult r ic ty body st =
     (let sid = er_sessionId (edgeRun r st)
      in \<lparr>qr_queueId = sid @ '':'' @ int_text (ic_turnSeq ic) @ '':'' @ ew_uuid st (ew_steps st), qr_sessionId = sid,
          qr_turnSeq = ic_turnSeq ic, qr_digest = edge_digest ic, qr_type = ty, qr_payload = body,
          qr_enqueuedAt = ew_clock st (ew_steps st)\<rparr>)"

text \<open>\<open>full\<close> is what follows when the store has no room and throws.\<close>

definition enqueueResult ::
  "edge_config \<Rightarrow> nat \<Rightarrow> nat \<Rightarrow> turn_command \<Rightarrow> event_type \<Rightarrow> json \<Rightarrow> edge_notice \<Rightarrow> (edge \<Rightarrow> edge_continued) \<Rightarrow> edge \<Rightarrow> edge_continued" where
  "enqueueResult cfg r t ic ty body n full st =
     (let q = newQueuedResult r ic ty body st; st1 = st\<lparr>ew_steps := Suc (ew_steps st)\<rparr>
      in if ec_room cfg q (ew_queue st) then then_task (ResultAdded r t n) (st1\<lparr>ew_queue := memoryAdd q (ew_queue st1)\<rparr>)
         else full st1)"

definition edgeTurnError :: "turn_command \<Rightarrow> nat \<Rightarrow> nat \<Rightarrow> string \<Rightarrow> edge \<Rightarrow> edge_continued" where
  "edgeTurnError ic r t msg st = then_task (EdgeTurnFailing ic r t msg) (edgeReport AgentOutput ic (error_body msg) st)"

definition store_full :: string where "store_full = ''QuotaExceededError''"

definition edgeTurn :: "edge_config \<Rightarrow> turn_command \<Rightarrow> nat \<Rightarrow> nat \<Rightarrow> edge_signal \<Rightarrow> edge \<Rightarrow> edge_continued" where
  "edgeTurn cfg ic r t sig st =
     (case sig of
        Progresses text \<Rightarrow>
          Some ([EdgeTurn ic r t, Telemetry],
            edgeReport AgentOutput ic (jobj [(''progress'', Some (JStr text))]) (notice (TurnProgress (ic_sessionId ic) (ic_turnSeq ic) text) st))
      | Deltas text \<Rightarrow> Some ([EdgeTurn ic r t, Telemetry], edgeReport AgentOutput ic (jobj [(''delta'', Some (JStr text))]) st)
      | Returns message out \<Rightarrow>
          enqueueResult cfg r t ic TurnCompleted
            (jobj [(''result'', Some (jobj [(''message'', map_option JStr message), (''output'', out)]))])
            (TurnDone (ic_sessionId ic) (ic_turnSeq ic) message out) (edgeTurnError ic r t store_full) st
      | Rejects msg \<Rightarrow> edgeTurnError ic r t msg st
      | _ \<Rightarrow> None)"

text \<open>Telemetry that cannot be published is only noticed.\<close>

definition telemetry :: "edge_signal \<Rightarrow> edge \<Rightarrow> edge_continued" where
  "telemetry sig st = on_answer sig (over st) (\<lambda>m. over (notice (ErrorNotice m) st))"

definition edgeTurnFailed :: "edge_config \<Rightarrow> turn_command \<Rightarrow> nat \<Rightarrow> nat \<Rightarrow> string \<Rightarrow> edge_signal \<Rightarrow> edge \<Rightarrow> edge_continued" where
  "edgeTurnFailed cfg ic r t msg sig st =
     on_answer sig
       (enqueueResult cfg r t ic TurnFailed (error_body msg) (TurnError (ic_sessionId ic) (ic_turnSeq ic) msg) (\<lambda>st1. over (endTurn r t st1)) st)
       (\<lambda>m. over (endTurn r t st))"

definition resultAdded :: "nat \<Rightarrow> nat \<Rightarrow> edge_notice \<Rightarrow> edge_signal \<Rightarrow> edge \<Rightarrow> edge_continued" where
  "resultAdded r t n sig st = on_wake sig (then_task (ResultCounted r t n (length (ew_queue st))) st)"

fun notice_turn :: "edge_notice \<Rightarrow> string \<times> int" where
  "notice_turn (TurnDone sid turn _ _) = (sid, turn)"
| "notice_turn (TurnError sid turn _) = (sid, turn)"
| "notice_turn _ = ([], 0)"

definition resultCounted :: "nat \<Rightarrow> nat \<Rightarrow> edge_notice \<Rightarrow> nat \<Rightarrow> edge_signal \<Rightarrow> edge \<Rightarrow> edge_continued" where
  "resultCounted r t n pending sig st =
     on_wake sig (flushRun r (TurnFlushed r t n)
       (notice (ResultQueued (er_sessionId (edgeRun r st)) (snd (notice_turn n)) pending) st))"

subsection \<open>worker.result.acknowledged\<close>

definition resultAcknowledged :: "runtime_event \<Rightarrow> edge \<Rightarrow> edge_continued" where
  "resultAcknowledged e st =
     (case parseResultAcknowledged (jsonBody (ev_payload e)) of
        None \<Rightarrow> over st
      | Some i \<Rightarrow> then_task (AckListed i (ew_queue st)) st)"

definition ackListed :: "string \<Rightarrow> queued_result list \<Rightarrow> edge_signal \<Rightarrow> edge \<Rightarrow> edge_continued" where
  "ackListed i items sig st =
     on_wake sig
       (case find (\<lambda>q. qr_queueId q = i) items of
          None \<Rightarrow> over st
        | Some q \<Rightarrow> then_task (AckRemoved q) (st\<lparr>ew_queue := memoryRemove (qr_queueId q) (ew_queue st)\<rparr>))"

definition ackRemoved :: "queued_result \<Rightarrow> edge_signal \<Rightarrow> edge \<Rightarrow> edge_continued" where
  "ackRemoved q sig st = on_wake sig (then_task (AckCounted q (length (ew_queue st))) st)"

definition ackCounted :: "queued_result \<Rightarrow> nat \<Rightarrow> edge_signal \<Rightarrow> edge \<Rightarrow> edge_continued" where
  "ackCounted q n sig st = on_wake sig (over (notice (ResultSynced (qr_sessionId q) (qr_turnSeq q) n) st))"

subsection \<open>session.pause.requested\<close>

definition edge_pause_key :: "edge_pause \<Rightarrow> string" where
  "edge_pause_key p = ep_sessionId p @ '':'' @ ep_sessionLeaseId p"

definition publishPaused :: "edge_pause \<Rightarrow> edge \<Rightarrow> edge" where
  "publishPaused p =
     edgePublish None SessionPaused (Some (ep_sessionId p)) (Some (ep_workerId p)) (Some (ep_sessionLeaseId p)) None
       (jobj [(''reason'', ep_reason p)])"

definition edgePause :: "edge_config \<Rightarrow> runtime_event \<Rightarrow> edge \<Rightarrow> edge_continued" where
  "edgePause cfg e st =
     (case parseEdgePause (jsonBody (ev_payload e)) of
        None \<Rightarrow> over st
      | Some p \<Rightarrow>
          if edge_pause_key p \<in> set (ew_completedPauses st) then then_task PauseRepeated (publishPaused p st)
          else edgeFenced e (ep_sessionId p) (ep_sessionLeaseId p) st (\<lambda>r.
                 stopAgentSession cfg (ep_sessionId p) ''pausing the session'' (PauseStopped p) (abortTurn r st)))"

definition pauseDiscarded :: "edge_pause \<Rightarrow> edge \<Rightarrow> edge_continued" where
  "pauseDiscarded p st =
     then_task (EdgePausePublishing p)
       (publishPaused p
         (st\<lparr>ew_activeRuns := mdel (ep_sessionId p) (ew_activeRuns st), ew_completedPauses := ew_completedPauses st @ [edge_pause_key p]\<rparr>))"

definition pauseBeaten :: "edge_pause \<Rightarrow> edge \<Rightarrow> edge_continued" where
  "pauseBeaten p st = over (notice (SessionPausedNotice (ep_sessionId p) (ep_reason p)) st)"

definition edgePausePublished :: "edge_pause \<Rightarrow> edge_signal \<Rightarrow> edge \<Rightarrow> edge_continued" where
  "edgePausePublished p sig st = on_answer sig (edgeHeartbeat (PauseBeaten p) (pauseBeaten p) st) (\<lambda>m. over st)"

subsection \<open>The end of the worker\<close>

definition stopFrom :: "edge_config \<Rightarrow> nat \<Rightarrow> edge \<Rightarrow> edge_continued" where
  "stopFrom cfg i st =
     (case mnext i (ew_activeRuns st) of
        None \<Rightarrow>
          (let st1 = st\<lparr>ew_activeRuns := mclear (ew_activeRuns st), ew_completedPauses := []\<rparr>
           in then_task Unsubscribing (if ew_subscribed st1 then edgeCalls CloseCall st1 else st1))
      | Some (j, r) \<Rightarrow>
          stopAgentSession cfg (er_sessionId (edgeRun r st)) ''stopping the worker runtime'' (WorkerStopping j) (abortTurn r st))"

definition stopEdge :: "edge_config \<Rightarrow> edge \<Rightarrow> edge_continued" where
  "stopEdge cfg st =
     (let st1 = st\<lparr>ew_timer := False\<rparr>
      in case ew_heartbeatState st1 of
           None \<Rightarrow> stopFrom cfg 0 st1
         | Some (wid, capacity) \<Rightarrow>
             then_task CloseRequested (edgePublish None WorkerCloseRequested None (Some wid) None None (jobj [(''workerId'', Some (JStr wid))]) st1))"

definition closeRequested :: "edge_config \<Rightarrow> edge_signal \<Rightarrow> edge \<Rightarrow> edge_continued" where
  "closeRequested cfg sig st = on_answer sig (stopFrom cfg 0 st) (\<lambda>m. stopFrom cfg 0 st)"

definition unsubscribed :: "edge_signal \<Rightarrow> edge \<Rightarrow> edge_continued" where
  "unsubscribed sig st =
     on_answer sig (then_task TransportStopping (edgeCalls StopTransportCall (st\<lparr>ew_subscribed := False, ew_heartbeatState := None\<rparr>)))
       (\<lambda>m. over st)"

definition transportStopped :: "edge_signal \<Rightarrow> edge \<Rightarrow> edge_continued" where
  "transportStopped sig st = on_answer sig (over (notice WorkerStopped st)) (\<lambda>m. over st)"

subsection \<open>The worker\<close>

text \<open>What follows a subroutine that returns, and one that throws, which only a heartbeat does.\<close>

fun resume :: "edge_config \<Rightarrow> edge_cont \<Rightarrow> edge \<Rightarrow> edge_continued" where
  "resume cfg Ends st = over st"
| "resume cfg (TurnFlushed r t n) st = over (endTurn r t (notice n st))"
| "resume cfg (FlushOn i k) st = flushPending i k (resume cfg k) st"
| "resume cfg (ConnectionBeaten w rereg) st = connectionBeaten w rereg st"
| "resume cfg (PauseStopped p) st = discardQueuedResults (ep_sessionId p) ''session was paused'' (PauseDiscarded p) st"
| "resume cfg (PauseDiscarded p) st = pauseDiscarded p st"
| "resume cfg (PauseBeaten p) st = pauseBeaten p st"
| "resume cfg (DropStopped reason i r) st = discardQueuedResults (er_sessionId (edgeRun r st)) reason (DropDiscarded reason i) st"
| "resume cfg (DropDiscarded reason i) st = dropFrom cfg reason i st"
| "resume cfg (WorkerStopping i) st = stopFrom cfg i st"

definition heartbeatThrew :: "edge_cont \<Rightarrow> string \<Rightarrow> edge \<Rightarrow> edge_continued" where
  "heartbeatThrew k msg st =
     (case k of
        Ends \<Rightarrow> over (notice (ErrorNotice msg) st)
      | ConnectionBeaten w rereg \<Rightarrow> failConnection rereg msg st
      | _ \<Rightarrow> over st)"

definition edgeBeaten :: "int \<Rightarrow> edge_cont \<Rightarrow> edge_signal \<Rightarrow> edge \<Rightarrow> edge_continued" where
  "edgeBeaten allocatable k sig st =
     on_answer sig (let st1 = notice (Beat allocatable) st in then_task (BeatListed (length (ew_queue st1)) k) st1) (\<lambda>m. heartbeatThrew k m st)"

definition beatListed :: "edge_config \<Rightarrow> nat \<Rightarrow> edge_cont \<Rightarrow> edge_signal \<Rightarrow> edge \<Rightarrow> edge_continued" where
  "beatListed cfg n k sig st = on_wake sig (if n > 0 then flushPending 0 k (resume cfg k) st else resume cfg k st)"

definition publishNext :: "edge_config \<Rightarrow> nat \<Rightarrow> queued_result list \<Rightarrow> edge_cont \<Rightarrow> edge \<Rightarrow> edge_continued" where
  "publishNext cfg r qs k st =
     (case qs of [] \<Rightarrow> resume cfg k st | q # rest \<Rightarrow> then_task (FlushPublishing r rest k) (publishResult r q st))"

definition flushListed :: "edge_config \<Rightarrow> nat \<Rightarrow> queued_result list \<Rightarrow> edge_cont \<Rightarrow> edge_signal \<Rightarrow> edge \<Rightarrow> edge_continued" where
  "flushListed cfg r items k sig st = on_wake sig (publishNext cfg r (flushable (edgeRun r st) items) k st)"

definition flushPublished :: "edge_config \<Rightarrow> nat \<Rightarrow> queued_result list \<Rightarrow> edge_cont \<Rightarrow> edge_signal \<Rightarrow> edge \<Rightarrow> edge_continued" where
  "flushPublished cfg r rest k sig st =
     on_answer sig (publishNext cfg r rest k st) (\<lambda>m. resume cfg k (notice (ErrorNotice m) st))"

definition discardListed ::
  "edge_config \<Rightarrow> string \<Rightarrow> string \<Rightarrow> queued_result list \<Rightarrow> edge_cont \<Rightarrow> edge_signal \<Rightarrow> edge \<Rightarrow> edge_continued" where
  "discardListed cfg sid reason qs k sig st = on_wake sig (discardNext sid reason qs (length qs) k (resume cfg k) st)"

definition discarding ::
  "edge_config \<Rightarrow> string \<Rightarrow> string \<Rightarrow> queued_result list \<Rightarrow> nat \<Rightarrow> edge_cont \<Rightarrow> edge_signal \<Rightarrow> edge \<Rightarrow> edge_continued" where
  "discarding cfg sid reason rest n k sig st = on_wake sig (discardNext sid reason rest n k (resume cfg k) st)"

definition sessionStopped :: "edge_config \<Rightarrow> string \<Rightarrow> string \<Rightarrow> edge_cont \<Rightarrow> edge_signal \<Rightarrow> edge \<Rightarrow> edge_continued" where
  "sessionStopped cfg sid reason k sig st = on_answer sig (resume cfg k st) (\<lambda>m. resume cfg k (notice (ErrorNotice m) st))"

definition edgeCommand :: "edge_config \<Rightarrow> runtime_event \<Rightarrow> edge \<Rightarrow> edge_continued" where
  "edgeCommand cfg e st =
     (case ev_type e of
        SessionAssign \<Rightarrow> edgeAssign cfg e st
      | SessionInput \<Rightarrow> edgeInput e st
      | SessionPauseRequested \<Rightarrow> edgePause cfg e st
      | WorkerHeartbeatRejected \<Rightarrow> reregister cfg (rejectionReason (jsonBody (ev_payload e))) st
      | WorkerResultAcknowledged \<Rightarrow> resultAcknowledged e st
      | _ \<Rightarrow> over st)"

definition edgeTask :: "edge_config \<Rightarrow> edge_task \<Rightarrow> edge_signal \<Rightarrow> edge \<Rightarrow> edge_continued" where
  "edgeTask cfg t sig st =
     (case t of
        EdgeDelivered e \<Rightarrow> edgeCommand cfg e st
      | AgentStarting p \<Rightarrow> agentReady p sig st
      | EdgeAssigned ea p \<Rightarrow> edgeAssigned ea p sig st
      | RunningReported ea \<Rightarrow> runningReported ea sig st
      | StartFailing ea msg \<Rightarrow> startFailing ea msg sig st
      | StartFailed msg \<Rightarrow> startFailed msg sig st
      | RejectionReported sid reason \<Rightarrow> rejectionReported sid reason sig st
      | EdgeInputWaiting e ic r \<Rightarrow> edgeInputReady e ic r sig st
      | EdgeInputAcknowledging ic r \<Rightarrow> edgeInputAcknowledged ic r sig st
      | ReplayListed ic r items \<Rightarrow> replayListed ic r items sig st
      | EdgeTurn ic r n \<Rightarrow> edgeTurn cfg ic r n sig st
      | Telemetry \<Rightarrow> telemetry sig st
      | ResultAdded r n x \<Rightarrow> resultAdded r n x sig st
      | ResultCounted r n x pending \<Rightarrow> resultCounted r n x pending sig st
      | EdgeTurnFailing ic r n msg \<Rightarrow> edgeTurnFailed cfg ic r n msg sig st
      | FlushListed r items k \<Rightarrow> flushListed cfg r items k sig st
      | FlushPublishing r rest k \<Rightarrow> flushPublished cfg r rest k sig st
      | AckListed i items \<Rightarrow> ackListed i items sig st
      | AckRemoved q \<Rightarrow> ackRemoved q sig st
      | AckCounted q n \<Rightarrow> ackCounted q n sig st
      | DiscardListed sid reason qs k \<Rightarrow> discardListed cfg sid reason qs k sig st
      | Discarding sid reason rest n k \<Rightarrow> discarding cfg sid reason rest n k sig st
      | SessionStopping sid reason k \<Rightarrow> sessionStopped cfg sid reason k sig st
      | EdgePausePublishing p \<Rightarrow> edgePausePublished p sig st
      | PauseRepeated \<Rightarrow> on_answer sig (over st) (\<lambda>m. over st)
      | EdgeBeating n k \<Rightarrow> edgeBeaten n k sig st
      | BeatListed n k \<Rightarrow> beatListed cfg n k sig st
      | EdgeNegotiating rereg \<Rightarrow> edgeNegotiated cfg rereg sig st
      | EdgeConnecting w rereg \<Rightarrow> edgeConnected w rereg sig st
      | SubscriptionClosing w rereg \<Rightarrow> subscriptionClosed w rereg sig st
      | EdgeSubscribing w rereg \<Rightarrow> edgeSubscribed w rereg sig st
      | CloseRequested \<Rightarrow> closeRequested cfg sig st
      | Unsubscribing \<Rightarrow> unsubscribed sig st
      | TransportStopping \<Rightarrow> transportStopped sig st)"

text \<open>
  What begins without a waiting handler: a registration, a command, a heartbeat of the timer, a change of the connection, a
  flush or a stop by the application.
\<close>

datatype edge_entry =
    Registers worker_register_payload
  | Commanded runtime_event
  | TimerBeats
  | ConnectionIs bool
  | Flushes
  | StopsWorker

definition connectionChanged :: "edge_config \<Rightarrow> bool \<Rightarrow> edge \<Rightarrow> edge_continued" where
  "connectionChanged cfg up st =
     (let st1 = notice (TransportState up) st in if up then flushPending 0 Ends over st1 else over st1)"

fun enter :: "edge_config \<Rightarrow> edge_entry \<Rightarrow> edge \<Rightarrow> edge_continued" where
  "enter cfg (Registers reg) st = registerWorker reg st"
| "enter cfg (Commanded e) st = then_task (EdgeDelivered e) st"
| "enter cfg TimerBeats st = (if ew_timer st then edgeHeartbeat Ends over st else None)"
| "enter cfg (ConnectionIs up) st = (if ew_wired st then connectionChanged cfg up st else None)"
| "enter cfg Flushes st = flushPending 0 Ends over st"
| "enter cfg StopsWorker st = stopEdge cfg st"

inductive edge_step :: "edge_config \<Rightarrow> edge \<times> edge_task list \<Rightarrow> edge \<times> edge_task list \<Rightarrow> bool" for cfg where
  enters: "enter cfg i st = Some (new, st1) \<Longrightarrow> edge_step cfg (st, ts) (st1, ts @ new)"
| continues: "n < length ts \<Longrightarrow> edgeTask cfg (ts ! n) sig st = Some (new, st1) \<Longrightarrow>
    edge_step cfg (st, ts) (st1, take n ts @ drop (Suc n) ts @ new)"

inductive_cases edge_stepE: "edge_step cfg s s1"

text \<open>A worker that is loaded begins with the results the store has kept.\<close>

definition fresh_edge :: "queued_result list \<Rightarrow> (nat \<Rightarrow> string) \<Rightarrow> (nat \<Rightarrow> time) \<Rightarrow> edge" where
  "fresh_edge saved ids clock =
     \<lparr>ew_runs = [], ew_promises = [], ew_activeRuns = [], ew_completedPauses = [], ew_queue = saved, ew_heartbeatState = None,
      ew_timer = False, ew_subscribed = False, ew_wired = False, ew_registration = None, ew_reregistering = False, ew_turns = 0,
      ew_aborted = [], ew_sent = [], ew_calls = [], ew_notices = [], ew_uuid = ids, ew_clock = clock, ew_steps = 0\<rparr>"

definition edge_reachable :: "edge_config \<Rightarrow> queued_result list \<Rightarrow> edge \<times> edge_task list \<Rightarrow> bool" where
  "edge_reachable cfg saved s = (\<exists>ids clock. (edge_step cfg)\<^sup>*\<^sup>* (fresh_edge saved ids clock, []) s)"

end
