(* ===== verification/EdgeProps.thy ===== *)
theory EdgeProps
  imports EdgeWorker SidecarProps
begin

text \<open>
  The edge worker, over every reachable state of the process: a turn is captured at most once for each run of a session,
  and a result that was saved stays saved until central has acknowledged it or its session has left the device.
\<close>

subsection \<open>Frames\<close>

named_theorems ew_simps \<open>which field of the edge worker's state a small step changes\<close>

lemma notice_frame [ew_simps]:
  "ew_runs (notice n st) = ew_runs st" "ew_activeRuns (notice n st) = ew_activeRuns st" "ew_calls (notice n st) = ew_calls st"
  "ew_queue (notice n st) = ew_queue st" "ew_sent (notice n st) = ew_sent st"
  by (simp_all add: notice_def)

lemma edgePublish_frame [ew_simps]:
  "ew_runs (edgePublish i ty sid wid lease turn b st) = ew_runs st" "ew_activeRuns (edgePublish i ty sid wid lease turn b st) = ew_activeRuns st"
  "ew_calls (edgePublish i ty sid wid lease turn b st) = ew_calls st" "ew_queue (edgePublish i ty sid wid lease turn b st) = ew_queue st"
  by (simp_all add: edgePublish_def)

lemma edgeCalls_frame [ew_simps]:
  "ew_runs (edgeCalls c st) = ew_runs st" "ew_activeRuns (edgeCalls c st) = ew_activeRuns st"
  "ew_calls (edgeCalls c st) = ew_calls st @ [c]" "ew_queue (edgeCalls c st) = ew_queue st"
  by (simp_all add: edgeCalls_def)

lemma updateEdgeRun_frame [ew_simps]:
  "ew_activeRuns (updateEdgeRun r f st) = ew_activeRuns st" "ew_calls (updateEdgeRun r f st) = ew_calls st"
  "ew_queue (updateEdgeRun r f st) = ew_queue st" "ew_runs (updateEdgeRun r f st) = (ew_runs st)[r := f (ew_runs st ! r)]"
  by (simp_all add: updateEdgeRun_def)

lemma abortTurn_frame [ew_simps]:
  "ew_runs (abortTurn r st) = ew_runs st" "ew_activeRuns (abortTurn r st) = ew_activeRuns st" "ew_calls (abortTurn r st) = ew_calls st"
  "ew_queue (abortTurn r st) = ew_queue st"
  by (simp_all add: abortTurn_def split: option.splits)

lemmas edge_reports = edgeCommandAccepted_def edgeReport_def assignReport_def publishResult_def publishPaused_def

definition edge_leads :: "(edge_task list \<Rightarrow> edge \<Rightarrow> bool) \<Rightarrow> edge_continued \<Rightarrow> bool" where
  "edge_leads P c = (case c of None \<Rightarrow> True | Some (new, st) \<Rightarrow> P new st)"

lemma edge_leads_simps [simp]: "edge_leads P None" "edge_leads P (Some (new, st)) = P new st"
  by (simp_all add: edge_leads_def)

lemma edge_leadsD: "edge_leads P c \<Longrightarrow> c = Some (new, st) \<Longrightarrow> P new st"
  by (simp add: edge_leads_def)

lemma edge_leads_answer: "edge_leads P a \<Longrightarrow> (\<And>m. edge_leads P (b m)) \<Longrightarrow> edge_leads P (on_answer sig a b)"
  by (simp add: on_answer_def split: edge_signal.splits)

lemma edge_leads_wake: "edge_leads P a \<Longrightarrow> edge_leads P (on_wake sig a)"
  by (simp add: on_wake_def split: edge_signal.splits)

lemma edge_leads_mono: "edge_leads P c \<Longrightarrow> (\<And>new st. P new st \<Longrightarrow> Q new st) \<Longrightarrow> edge_leads Q c"
  by (auto simp: edge_leads_def split: option.splits)

subsection \<open>Maps\<close>

definition entries :: "'v jsmap \<Rightarrow> (string \<times> 'v) set" where
  "entries m = {e. Some e \<in> set m}"

lemma mget_entry: "mget k m = Some v \<Longrightarrow> (k, v) \<in> entries m"
  by (auto simp: mget_def entries_def List.map_filter_def dest!: map_of_SomeD)

lemma mdel_entries: "entries (mdel k m) \<subseteq> entries m"
  by (auto simp: entries_def mdel_def split: option.splits if_splits)

lemma mclear_entries [simp]: "entries (mclear m) = {}"
  by (auto simp: entries_def mclear_def)

lemma mset_at_entries: "entries (mset_at k v m) \<subseteq> insert (k, v) (entries m)"
  by (auto simp: entries_def mset_at_def split: option.splits if_splits)

subsection \<open>Runs keep what identifies them\<close>

definition edge_runs_grow :: "edge \<Rightarrow> edge \<Rightarrow> bool" where
  "edge_runs_grow st st1 = (length (ew_runs st) \<le> length (ew_runs st1) \<and> (\<forall>r < length (ew_runs st).
     er_sessionId (edgeRun r st1) = er_sessionId (edgeRun r st) \<and> er_sessionLeaseId (edgeRun r st1) = er_sessionLeaseId (edgeRun r st)
     \<and> (\<forall>k v. tget (er_acceptedInputs (edgeRun r st)) k = Some v \<longrightarrow> tget (er_acceptedInputs (edgeRun r st1)) k = Some v)))"

lemma edge_grow_same: "ew_runs st1 = ew_runs st \<Longrightarrow> edge_runs_grow st st1"
  by (simp add: edge_runs_grow_def edgeRun_def)

lemma edge_grow_new: "ew_runs st1 = ew_runs st @ [a] \<Longrightarrow> edge_runs_grow st st1"
  by (simp add: edge_runs_grow_def edgeRun_def nth_append)

lemma edge_grow_update:
  assumes "ew_runs st1 = (ew_runs st)[r := f (ew_runs st ! r)]"
    and "\<And>a. er_sessionId (f a) = er_sessionId a" "\<And>a. er_sessionLeaseId (f a) = er_sessionLeaseId a"
    and "\<And>k v. tget (er_acceptedInputs (ew_runs st ! r)) k = Some v \<Longrightarrow> tget (er_acceptedInputs (f (ew_runs st ! r))) k = Some v"
  shows "edge_runs_grow st st1"
  using assms by (cases "r < length (ew_runs st)") (auto simp: edge_runs_grow_def edgeRun_def nth_list_update)

lemma edge_grow_trans: "edge_runs_grow st st1 \<Longrightarrow> edge_runs_grow st1 st2 \<Longrightarrow> edge_runs_grow st st2"
  by (auto simp: edge_runs_grow_def)

definition edge_active_ok :: "edge \<Rightarrow> bool" where
  "edge_active_ok st = (\<forall>(k, r) \<in> entries (ew_activeRuns st). r < length (ew_runs st) \<and> er_sessionId (edgeRun r st) = k)"

lemma edge_active_run: "edge_active_ok st \<Longrightarrow> mget sid (ew_activeRuns st) = Some r \<Longrightarrow> r < length (ew_runs st) \<and> er_sessionId (edgeRun r st) = sid"
  by (auto simp: edge_active_ok_def dest: mget_entry)

lemma edge_active_grow:
  assumes ok: "edge_active_ok st" and g: "edge_runs_grow st st1" and sub: "entries (ew_activeRuns st1) \<subseteq> entries (ew_activeRuns st)"
  shows "edge_active_ok st1"
  unfolding edge_active_ok_def
proof clarify
  fix k r assume "(k, r) \<in> entries (ew_activeRuns st1)"
  with ok sub have "r < length (ew_runs st)" "er_sessionId (edgeRun r st) = k" by (auto simp: edge_active_ok_def)
  with g show "r < length (ew_runs st1) \<and> er_sessionId (edgeRun r st1) = k" by (auto simp: edge_runs_grow_def)
qed

subsection \<open>Captures\<close>

fun capture_of :: "edge_call \<Rightarrow> (nat \<times> turn_command) option" where
  "capture_of (RunTurnCall r ic t) = Some (r, ic)"
| "capture_of _ = None"

definition captures :: "edge \<Rightarrow> (nat \<times> turn_command) list" where
  "captures st = List.map_filter capture_of (ew_calls st)"

text \<open>An input that was accepted and not yet looked up among the saved results.\<close>

fun due_capture :: "edge_task \<Rightarrow> (nat \<times> turn_command) option" where
  "due_capture (EdgeInputAcknowledging ic r) = Some (r, ic)"
| "due_capture (ReplayListed ic r items) = Some (r, ic)"
| "due_capture _ = None"

definition dues :: "edge_task list \<Rightarrow> (nat \<times> turn_command) list" where
  "dues ts = List.map_filter due_capture ts"

lemma dues_simps [simp]:
  "dues [] = []" "dues (t # ts) = (case due_capture t of None \<Rightarrow> dues ts | Some x \<Rightarrow> x # dues ts)" "dues (ts @ ts1) = dues ts @ dues ts1"
  by (simp_all add: dues_def List.map_filter_def split: option.splits)

lemma captures_frames [ew_simps]:
  "captures (notice n st) = captures st" "captures (edgePublish i ty sid wid lease turn b st) = captures st"
  "captures (updateEdgeRun r f st) = captures st" "captures (abortTurn r st) = captures st"
  "captures (edgeCalls c st) = captures st @ (case capture_of c of None \<Rightarrow> [] | Some x \<Rightarrow> [x])"
  by (simp_all add: captures_def ew_simps List.map_filter_def split: option.splits)

definition for_run :: "turn_command \<Rightarrow> edge_run \<Rightarrow> bool" where
  "for_run ic a = (ic_sessionId ic = er_sessionId a \<and> ic_sessionLeaseId ic = er_sessionLeaseId a)"

definition noted :: "edge \<Rightarrow> nat \<times> turn_command \<Rightarrow> bool" where
  "noted st x = (fst x < length (ew_runs st) \<and> for_run (snd x) (edgeRun (fst x) st)
     \<and> tget (er_acceptedInputs (edgeRun (fst x) st)) (ic_turnSeq (snd x)) = Some (edge_digest (snd x)))"

lemma noted_grow: "edge_runs_grow st st1 \<Longrightarrow> noted st x \<Longrightarrow> noted st1 x"
  unfolding edge_runs_grow_def noted_def for_run_def by force

definition captured_turn :: "nat \<times> turn_command \<Rightarrow> nat \<times> int" where
  "captured_turn x = (fst x, ic_turnSeq (snd x))"

fun edge_waits_ok :: "edge \<Rightarrow> edge_task \<Rightarrow> bool" where
  "edge_waits_ok st (EdgeInputWaiting e ic r) = (r < length (ew_runs st) \<and> for_run ic (edgeRun r st))"
| "edge_waits_ok st _ = True"

lemma edge_waits_grow: "edge_runs_grow st st1 \<Longrightarrow> edge_waits_ok st t \<Longrightarrow> edge_waits_ok st1 t"
  by (cases t) (auto simp: edge_runs_grow_def for_run_def)

subsection \<open>One step\<close>

text \<open>A step that neither captures a turn nor makes one due.\<close>

definition edge_quiet :: "edge \<Rightarrow> edge_task list \<Rightarrow> edge \<Rightarrow> bool" where
  "edge_quiet st new st1 = (edge_runs_grow st st1 \<and> entries (ew_activeRuns st1) \<subseteq> entries (ew_activeRuns st) \<and> captures st1 = captures st
     \<and> dues new = [] \<and> list_all (edge_waits_ok st1) new)"

lemma edge_quiet_idle: "list_all (edge_waits_ok st) new \<Longrightarrow> dues new = [] \<Longrightarrow> edge_quiet st new st"
  by (simp add: edge_quiet_def edge_grow_same)

lemma edge_quiet_then:
  assumes "edge_quiet st new st1" and "edge_runs_grow st1 st2" and "entries (ew_activeRuns st2) \<subseteq> entries (ew_activeRuns st1)"
    and "captures st2 = captures st1"
  shows "edge_quiet st new st2"
  using assms edge_waits_grow [OF assms(2)] by (auto simp: edge_quiet_def list_all_iff intro: edge_grow_trans)

lemma edge_quiet_frames:
  "edge_quiet st new st1 \<Longrightarrow> edge_quiet st new (edgePublish i ty sid wid lease turn body st1)"
  "edge_quiet st new st1 \<Longrightarrow> edge_quiet st new (notice n st1)"
  "edge_quiet st new st1 \<Longrightarrow> edge_quiet st new (abortTurn r st1)"
  "edge_quiet st new st1 \<Longrightarrow> capture_of c = None \<Longrightarrow> edge_quiet st new (edgeCalls c st1)"
  "edge_quiet st new st1 \<Longrightarrow> edge_quiet st new (st1\<lparr>ew_activeRuns := mdel k (ew_activeRuns st1)\<rparr>)"
  "edge_quiet st new st1 \<Longrightarrow> edge_quiet st new (st1\<lparr>ew_activeRuns := mclear (ew_activeRuns st1)\<rparr>)"
  "edge_quiet st new st1 \<Longrightarrow> edge_quiet st new (st1\<lparr>ew_completedPauses := ks\<rparr>)"
  "edge_quiet st new st1 \<Longrightarrow> edge_quiet st new (st1\<lparr>ew_promises := ps\<rparr>)"
  "edge_quiet st new st1 \<Longrightarrow> edge_quiet st new (st1\<lparr>ew_queue := qs\<rparr>)"
  "edge_quiet st new st1 \<Longrightarrow> edge_quiet st new (st1\<lparr>ew_heartbeatState := h\<rparr>)"
  "edge_quiet st new st1 \<Longrightarrow> edge_quiet st new (st1\<lparr>ew_timer := b\<rparr>)"
  "edge_quiet st new st1 \<Longrightarrow> edge_quiet st new (st1\<lparr>ew_subscribed := b\<rparr>)"
  "edge_quiet st new st1 \<Longrightarrow> edge_quiet st new (st1\<lparr>ew_wired := b\<rparr>)"
  "edge_quiet st new st1 \<Longrightarrow> edge_quiet st new (st1\<lparr>ew_registration := g\<rparr>)"
  "edge_quiet st new st1 \<Longrightarrow> edge_quiet st new (st1\<lparr>ew_reregistering := b\<rparr>)"
  "edge_quiet st new st1 \<Longrightarrow> edge_quiet st new (st1\<lparr>ew_steps := j\<rparr>)"
  by (auto elim!: edge_quiet_then simp: ew_simps captures_def List.map_filter_def dest: subsetD [OF mdel_entries]
      intro!: edge_grow_same)

lemma edge_quiet_update:
  assumes "edge_quiet st new st1" and "\<And>a. er_sessionId (f a) = er_sessionId a" and "\<And>a. er_sessionLeaseId (f a) = er_sessionLeaseId a"
    and "\<And>a. er_acceptedInputs (f a) = er_acceptedInputs a"
  shows "edge_quiet st new (updateEdgeRun r f st1)"
proof (rule edge_quiet_then [OF assms(1)])
  show "edge_runs_grow st1 (updateEdgeRun r f st1)"
    by (rule edge_grow_update [where r = r and f = f]) (simp_all add: ew_simps assms(2-4))
qed (simp_all add: ew_simps)

lemma edge_quiet_reports:
  "edge_quiet st new st1 \<Longrightarrow> edge_quiet st new (edgeCommandAccepted e turn st1)"
  "edge_quiet st new st1 \<Longrightarrow> edge_quiet st new (edgeReport ty ic body st1)"
  "edge_quiet st new st1 \<Longrightarrow> edge_quiet st new (assignReport ty ea body st1)"
  "edge_quiet st new st1 \<Longrightarrow> edge_quiet st new (publishResult r q st1)"
  "edge_quiet st new st1 \<Longrightarrow> edge_quiet st new (publishPaused p st1)"
  "edge_quiet st new st1 \<Longrightarrow> edge_quiet st new (endTurn r t st1)"
  by (auto simp: edge_reports endTurn_def Let_def intro!: edge_quiet_frames edge_quiet_update)

lemma edge_quiet_task: "edge_quiet st [] st1 \<Longrightarrow> due_capture t = None \<Longrightarrow> edge_waits_ok st1 t \<Longrightarrow> edge_quiet st [t] st1"
  by (simp add: edge_quiet_def)

lemmas edge_quiet_rules = edge_quiet_frames edge_quiet_reports edge_quiet_idle edge_quiet_task

abbreviation calm :: "edge \<Rightarrow> edge_continued \<Rightarrow> bool" where
  "calm st \<equiv> edge_leads (edge_quiet st)"

lemma calm_subroutines:
  assumes "edge_quiet st [] st1"
  shows "calm st (flushRun r k st1)" and "calm st (stopAgentSession cfg sid reason k st1)"
    and "calm st (discardQueuedResults sid reason k st1)" and "calm st (failConnection rereg msg st1)" and "calm st (startNegotiation rereg st1)"
    and "calm st (connectionBeaten w rereg st1)" and "calm st (pauseDiscarded p st1)" and "calm st (pauseBeaten p st1)"
    and "calm st (edgeCommandRejected e reason expected received st1)" and "calm st (edgeTurnError ic r t msg st1)"
  using assms
  by (auto simp: flushRun_def stopAgentSession_def discardQueuedResults_def failConnection_def startNegotiation_def connectionBeaten_def
      pauseDiscarded_def pauseBeaten_def edgeCommandRejected_def edgeTurnError_def Let_def intro!: edge_quiet_rules)

lemma calm_loops:
  assumes "edge_quiet st [] st1"
  shows "calm st (return st1) \<Longrightarrow> calm st (flushPending i k return st1)"
    and "calm st (dropFrom cfg reason i st1)" and "calm st (stopFrom cfg i st1)"
    and "calm st (return st1) \<Longrightarrow> calm st (edgeHeartbeat k return st1)"
  using assms
  by (auto simp: flushPending_def dropFrom_def stopFrom_def edgeHeartbeat_def Let_def
      intro!: calm_subroutines edge_quiet_rules split: option.splits prod.splits)

lemma calm_discard:
  assumes "edge_quiet st [] st1" and "\<And>s. edge_quiet st [] s \<Longrightarrow> calm st (return s)"
  shows "calm st (discardNext sid reason qs n k return st1)"
  using assms by (auto simp: discardNext_def intro!: edge_quiet_rules split: list.splits)

lemma calm_resume: "edge_quiet st [] st1 \<Longrightarrow> calm st (resume cfg k st1)"
  by (induction k arbitrary: st1) (auto intro!: calm_subroutines calm_loops edge_quiet_rules)

text \<open>What a step may do besides: make one turn due, which its run had not accepted before and has accepted now.\<close>

definition edge_moves :: "edge \<Rightarrow> edge_task list \<Rightarrow> edge \<Rightarrow> bool" where
  "edge_moves st new st1 = (edge_runs_grow st st1 \<and> edge_active_ok st1 \<and> captures st1 = captures st \<and> list_all (edge_waits_ok st1) new
     \<and> (dues new = [] \<or> (\<exists>x. dues new = [x] \<and> noted st1 x
          \<and> fst x < length (ew_runs st) \<and> tget (er_acceptedInputs (edgeRun (fst x) st)) (ic_turnSeq (snd x)) = None)))"

lemma quiet_edge_moves: "edge_active_ok st \<Longrightarrow> edge_quiet st new st1 \<Longrightarrow> edge_moves st new st1"
  unfolding edge_quiet_def edge_moves_def by (blast intro: edge_active_grow)

lemma calm_moves: "edge_active_ok st \<Longrightarrow> calm st c \<Longrightarrow> edge_leads (edge_moves st) c"
  by (auto elim: edge_leads_mono intro: quiet_edge_moves)

lemma calm_fenced:
  assumes "\<And>r. mget sid (ew_activeRuns st) = Some r \<Longrightarrow> er_sessionLeaseId (edgeRun r st) = lease \<Longrightarrow> calm st (f r)"
  shows "calm st (edgeFenced e sid lease st f)"
  using assms by (auto simp: edgeFenced_def Let_def intro!: calm_subroutines edge_quiet_rules split: option.splits)

lemma calm_commands:
  assumes "edge_active_ok st"
  shows "calm st (edgeInput e st)" and "calm st (edgePause cfg e st)" and "calm st (reregister cfg reason st)"
    and "calm st (resultAcknowledged e st)"
proof -
  have "r < length (ew_runs st) \<and> for_run ic (edgeRun r st)"
    if "mget (ic_sessionId ic) (ew_activeRuns st) = Some r" "er_sessionLeaseId (edgeRun r st) = ic_sessionLeaseId ic" for ic r
    using edge_active_run [OF assms that(1)] that(2) by (simp add: for_run_def)
  then show "calm st (edgeInput e st)"
    by (auto simp: edgeInput_def intro!: calm_fenced edge_quiet_rules split: option.splits)
  show "calm st (edgePause cfg e st)"
    by (auto simp: edgePause_def intro!: calm_fenced calm_subroutines edge_quiet_rules split: option.splits)
  show "calm st (reregister cfg reason st)"
    by (auto simp: reregister_def intro!: calm_loops edge_quiet_rules)
  show "calm st (resultAcknowledged e st)"
    by (auto simp: resultAcknowledged_def intro!: edge_quiet_rules split: option.splits)
qed

lemma edgeAssign_moves:
  assumes "edge_active_ok st"
  shows "edge_leads (edge_moves st) (edgeAssign cfg e st)"
proof -
  have idle: "edge_moves st [] st" by (rule quiet_edge_moves [OF assms edge_quiet_idle]) simp_all
  have new_run: "edge_moves st new st1"
    if runs: "ew_runs st1 = ew_runs st @ [a]" and active: "ew_activeRuns st1 = mset_at (er_sessionId a) (length (ew_runs st)) (ew_activeRuns st)"
      and rest: "captures st1 = captures st" "dues new = []" "list_all (edge_waits_ok st1) new" for st1 a new
  proof -
    have grow: "edge_runs_grow st st1" by (rule edge_grow_new [OF runs])
    have "edge_active_ok st1"
      unfolding edge_active_ok_def
    proof clarify
      fix k r assume "(k, r) \<in> entries (ew_activeRuns st1)"
      then have "(k, r) \<in> insert (er_sessionId a, length (ew_runs st)) (entries (ew_activeRuns st))"
        unfolding active by (rule subsetD [OF mset_at_entries])
      with assms show "r < length (ew_runs st1) \<and> er_sessionId (edgeRun r st1) = k"
        by (auto simp: edge_active_ok_def edgeRun_def runs nth_append)
    qed
    with grow rest show ?thesis by (simp add: edge_moves_def)
  qed
  show ?thesis
    by (auto simp: edgeAssign_def Let_def captures_def ew_simps edgeCalls_def notice_def List.map_filter_def
        intro!: idle new_run split: option.splits)
qed

lemma edgeCommand_moves:
  assumes "edge_active_ok st" shows "edge_leads (edge_moves st) (edgeCommand cfg e st)"
proof -
  have "edge_moves st [] st" by (rule quiet_edge_moves [OF assms edge_quiet_idle]) simp_all
  with assms edgeAssign_moves [OF assms, of cfg e] show ?thesis
    by (cases "ev_type e") (simp_all add: edgeCommand_def calm_moves calm_commands)
qed

text \<open>The step that accepts a turn.\<close>

lemma edgeInputReady_moves:
  assumes ok: "edge_active_ok st" and w: "r < length (ew_runs st)" "for_run ic (edgeRun r st)"
  shows "edge_leads (edge_moves st) (edgeInputReady e ic r sig st)"
proof (cases "ew_promises st ! er_ready (edgeRun r st) = Fulfilled \<and> tget (er_acceptedInputs (edgeRun r st)) (ic_turnSeq ic) = None")
  case True
  let ?f = "\<lambda>a. a\<lparr>er_acceptedInputs := tput (ic_turnSeq ic) (edge_digest ic) (er_acceptedInputs a)\<rparr>"
  let ?st1 = "edgeCommandAccepted e (ic_turnSeq ic) (updateEdgeRun r ?f st)"
  have runs: "ew_runs ?st1 = (ew_runs st)[r := ?f (ew_runs st ! r)]" by (simp add: edge_reports ew_simps)
  have grow: "edge_runs_grow st ?st1"
    using True by (intro edge_grow_update [where f = ?f and r = r, OF runs]) (auto simp: tget_tput edgeRun_def)
  moreover have "edge_active_ok ?st1" by (rule edge_active_grow [OF ok grow]) (simp add: edge_reports ew_simps)
  moreover have "noted ?st1 (r, ic)"
    using w by (simp add: noted_def edgeRun_def runs for_run_def tget_tput)
  moreover have "captures ?st1 = captures st" by (simp add: edge_reports ew_simps)
  ultimately have "edge_moves st [EdgeInputAcknowledging ic r] ?st1" using True w by (simp add: edge_moves_def)
  with True show ?thesis by (simp add: edgeInputReady_def Let_def on_wake_def split: edge_signal.splits)
next
  case False
  have "calm st (edgeInputReady e ic r sig st)"
    using False by (auto simp: edgeInputReady_def Let_def intro!: edge_leads_wake calm_subroutines edge_quiet_rules
        split: promise_state.splits option.splits)
  with ok show ?thesis by (rule calm_moves)
qed

lemma calm_tasks:
  assumes "due_capture t = None" and "\<And>e ic r. t \<noteq> EdgeInputWaiting e ic r" and "\<And>e. t \<noteq> EdgeDelivered e"
  shows "calm st (edgeTask cfg t sig st)"
proof -
  have idle: "edge_quiet st [] st" by (rule edge_quiet_idle) simp_all
  note loops = calm_subroutines calm_loops calm_discard calm_resume
  have queue: "calm st (enqueueResult cfg r n ic ty body x full st1)"
    if "\<And>st1. edge_quiet st [] st1 \<Longrightarrow> calm st (full st1)" "edge_quiet st [] st1" for r n ic ty body x full st1
    using that by (auto simp: enqueueResult_def Let_def intro!: edge_quiet_rules)
  have next_result: "calm st (publishNext cfg r qs k st1)" if "edge_quiet st [] st1" for r qs k st1
    using that by (auto simp: publishNext_def intro!: edge_quiet_rules loops split: list.splits)
  note defs = agentReady_def edgeAssigned_def runningReported_def startFailing_def startFailed_def rejectionReported_def
    edgeTurn_def telemetry_def resultAdded_def resultCounted_def edgeTurnFailed_def flushListed_def flushPublished_def ackListed_def
    ackRemoved_def ackCounted_def discardListed_def discarding_def sessionStopped_def edgePausePublished_def edgeBeaten_def beatListed_def
    edgeNegotiated_def edgeConnected_def subscriptionClosed_def edgeSubscribed_def closeRequested_def unsubscribed_def
    transportStopped_def heartbeatThrew_def
  show ?thesis
    using assms unfolding edgeTask_def
    by (cases t) (auto simp: defs Let_def intro!: idle queue next_result loops edge_leads_wake edge_leads_answer edge_quiet_rules
        split: promise_state.splits edge_signal.splits option.splits edge_cont.splits)
qed

lemma edgeTask_moves:
  assumes "edge_active_ok st" and "edge_waits_ok st t" and "due_capture t = None"
  shows "edge_leads (edge_moves st) (edgeTask cfg t sig st)"
proof (cases t)
  case (EdgeDelivered e)
  with edgeCommand_moves [OF assms(1)] show ?thesis by (simp add: edgeTask_def)
next
  case (EdgeInputWaiting e ic r)
  with edgeInputReady_moves [OF assms(1)] assms(2) show ?thesis by (simp add: edgeTask_def)
qed (use assms calm_tasks [of t st cfg sig] calm_moves in auto)

lemma enter_moves:
  assumes "edge_active_ok st" shows "edge_leads (edge_moves st) (enter cfg i st)"
proof -
  have idle: "edge_quiet st [] st" by (rule edge_quiet_idle) simp_all
  have "calm st (enter cfg i st)"
    by (cases i) (auto simp: registerWorker_def connectionChanged_def stopEdge_def Let_def
        intro!: idle calm_subroutines calm_loops edge_quiet_rules split: option.splits)
  with assms show ?thesis by (rule calm_moves)
qed

subsection \<open>The invariant\<close>

definition captures_inv :: "edge_task list \<Rightarrow> edge \<Rightarrow> bool" where
  "captures_inv ts st = (edge_active_ok st \<and> list_all (edge_waits_ok st) ts \<and> distinct (map captured_turn (captures st @ dues ts))
     \<and> list_all (noted st) (captures st @ dues ts))"

lemma noted_turn:
  "noted st x \<Longrightarrow> captured_turn x = captured_turn y \<Longrightarrow> tget (er_acceptedInputs (edgeRun (fst y) st)) (ic_turnSeq (snd y)) \<noteq> None"
  by (auto simp: noted_def captured_turn_def)

lemma moves_captures_inv:
  assumes inv: "captures_inv (xs @ ys) st" and m: "edge_moves st new st1"
  shows "captures_inv ((xs @ ys) @ new) st1"
proof -
  let ?old = "captures st @ dues (xs @ ys)"
  have old: "distinct (map captured_turn ?old)" "\<forall>x \<in> set ?old. noted st x" "list_all (edge_waits_ok st) (xs @ ys)"
    using inv by (auto simp: captures_inv_def list_all_iff)
  have g: "edge_runs_grow st st1" "captures st1 = captures st" "edge_active_ok st1" "list_all (edge_waits_ok st1) new"
    using m by (simp_all add: edge_moves_def)
  have waits: "list_all (edge_waits_ok st1) (xs @ ys)" using old(3) edge_waits_grow [OF g(1)] by (auto simp: list_all_iff)
  have rec: "list_all (noted st1) ?old" using old(2) noted_grow [OF g(1)] by (auto simp: list_all_iff)
  show ?thesis
  proof (cases "dues new")
    case Nil
    with old(1) g waits rec show ?thesis by (simp add: captures_inv_def)
  next
    case (Cons x zs)
    with m have x: "dues new = [x]" "noted st1 x" "tget (er_acceptedInputs (edgeRun (fst x) st)) (ic_turnSeq (snd x)) = None"
      by (auto simp: edge_moves_def)
    have "captured_turn x \<notin> captured_turn ` set ?old"
    proof
      assume "captured_turn x \<in> captured_turn ` set ?old"
      then obtain y where "y \<in> set ?old" "captured_turn y = captured_turn x" by (metis imageE)
      with old(2) noted_turn [of st y x] x(3) show False by blast
    qed
    with old(1) g waits rec x show ?thesis by (auto simp: captures_inv_def)
  qed
qed

lemma captures_inv_drop: "captures_inv (xs @ t # ys) st \<Longrightarrow> captures_inv (xs @ ys) st"
  by (auto simp: captures_inv_def split: option.splits)

text \<open>The steps of an accepted turn: the lookup of its saved result, and the capture when there is none.\<close>

lemma due_captures_inv:
  assumes inv: "captures_inv (xs @ t # ys) st" and t: "due_capture t = Some x"
  shows "edge_leads (\<lambda>new. captures_inv ((xs @ ys) @ new)) (edgeTask cfg t sig st)"
proof -
  obtain r ic where x: "x = (r, ic)" by (cases x)
  have due: "due_capture t1 = Some (r, ic) \<Longrightarrow> edge_waits_ok st t1 \<Longrightarrow> captures_inv ((xs @ ys) @ [t1]) st" for t1
    using inv t x by (auto simp: captures_inv_def)
  have gone: "captures_inv ((xs @ ys) @ []) st" using captures_inv_drop [OF inv] by simp
  moreover have "edge_active_ok st" using inv by (simp add: captures_inv_def)
  ultimately have replay: "edge_quiet st new st1 \<Longrightarrow> captures_inv ((xs @ ys) @ new) st1" for new st1
    using moves_captures_inv [OF _ quiet_edge_moves] by simp
  let ?f = "\<lambda>a. a\<lparr>er_currentTurn := Some (ew_turns st)\<rparr>"
  let ?st1 = "\<lambda>n. edgeCalls (RunTurnCall r ic (ew_turns st)) (notice n (updateEdgeRun r ?f (st\<lparr>ew_turns := Suc (ew_turns st)\<rparr>)))"
  have grow: "edge_runs_grow st (?st1 n)" for n
    by (rule edge_grow_update [where r = r and f = ?f]) (simp_all add: ew_simps)
  have "captures (?st1 n) = captures st @ [(r, ic)]" "ew_activeRuns (?st1 n) = ew_activeRuns st" for n
    by (simp_all add: ew_simps) (simp_all add: captures_def)
  then have run: "captures_inv ((xs @ ys) @ [EdgeTurn ic r (ew_turns st)]) (?st1 n)" for n
    using inv t x edge_waits_grow [OF grow] noted_grow [OF grow] edge_active_grow [OF _ grow]
    by (auto simp: captures_inv_def list_all_iff)
  have idle: "edge_quiet st [] st" by (rule edge_quiet_idle) simp_all
  from t x consider "t = EdgeInputAcknowledging ic r" | items where "t = ReplayListed ic r items" by (cases t) auto
  then show ?thesis
  proof cases
    case 1
    with due gone show ?thesis by (auto simp: edgeTask_def edgeInputAcknowledged_def intro!: edge_leads_answer)
  next
    case 2
    with run show ?thesis
      by (auto simp: edgeTask_def replayListed_def startTurn_def flushRun_def Let_def
          intro!: edge_leads_wake replay [unfolded append_assoc] edge_quiet_rules idle split: option.splits)
  qed
qed

lemma edge_step_captures:
  assumes inv: "captures_inv ts st" and "edge_step cfg (st, ts) (st1, ts1)"
  shows "captures_inv ts1 st1"
  using assms(2)
proof cases
  case (enters i new)
  have "edge_active_ok st" using inv by (simp add: captures_inv_def)
  from edge_leadsD [OF enter_moves [OF this] enters(2)] moves_captures_inv [of ts "[]" st new st1] inv enters(1)
  show ?thesis by simp
next
  case (continues n sig new)
  obtain xs ys where split: "ts = xs @ ts ! n # ys" "take n ts @ drop (Suc n) ts = xs @ ys" using pool_split [OF continues(2)] by blast
  with inv have inv1: "captures_inv (xs @ ts ! n # ys) st" by simp
  have "captures_inv ((xs @ ys) @ new) st1"
  proof (cases "due_capture (ts ! n)")
    case None
    have "edge_active_ok st" "edge_waits_ok st (ts ! n)" using inv1 by (simp_all add: captures_inv_def)
    from edge_leadsD [OF edgeTask_moves [OF this None] continues(3)] moves_captures_inv [OF captures_inv_drop [OF inv1]]
    show ?thesis by blast
  next
    case (Some x)
    from edge_leadsD [OF due_captures_inv [OF inv1 Some] continues(3)] show ?thesis .
  qed
  then show ?thesis unfolding continues(1) split(2) [symmetric] by simp
qed

lemma edge_reachable_induct:
  assumes "edge_reachable cfg saved s" and "\<And>ids clock. I (fresh_edge saved ids clock) []"
    and "\<And>st ts st1 ts1. I st ts \<Longrightarrow> edge_step cfg (st, ts) (st1, ts1) \<Longrightarrow> I st1 ts1"
  shows "I (fst s) (snd s)"
proof -
  obtain ids clock where "(edge_step cfg)\<^sup>*\<^sup>* (fresh_edge saved ids clock, []) s"
    using assms(1) by (auto simp: edge_reachable_def)
  then show ?thesis
  proof (induction rule: rtranclp_induct)
    case (step s1 s2)
    then show ?case using assms(3) [of "fst s1" "snd s1" "fst s2" "snd s2"] by simp
  qed (simp add: assms(2))
qed

subsection \<open>Scripts\<close>

datatype edge_happening = Enters edge_entry | Goes nat edge_signal

fun play_edge :: "edge_config \<Rightarrow> edge_happening list \<Rightarrow> edge \<times> edge_task list \<Rightarrow> (edge \<times> edge_task list) option" where
  "play_edge cfg [] s = Some s"
| "play_edge cfg (Enters i # hs) (st, ts) =
     (case enter cfg i st of None \<Rightarrow> None | Some (new, st1) \<Rightarrow> play_edge cfg hs (st1, ts @ new))"
| "play_edge cfg (Goes n sig # hs) (st, ts) =
     (if n < length ts
      then (case edgeTask cfg (ts ! n) sig st of
              None \<Rightarrow> None
            | Some (new, st1) \<Rightarrow> play_edge cfg hs (st1, take n ts @ drop (Suc n) ts @ new))
      else None)"

lemma play_edge_steps: "play_edge cfg hs s = Some s1 \<Longrightarrow> (edge_step cfg)\<^sup>*\<^sup>* s s1"
proof (induction cfg hs s rule: play_edge.induct)
  case (2 cfg i hs st ts)
  then show ?case by (auto split: option.splits prod.splits intro: converse_rtranclp_into_rtranclp edge_step.enters)
next
  case (3 cfg n sig hs st ts)
  then show ?case
    by (auto split: if_splits option.splits prod.splits intro: converse_rtranclp_into_rtranclp edge_step.continues)
qed simp

lemma play_edge_reachable: "play_edge cfg hs (fresh_edge saved ids clock, []) = Some s \<Longrightarrow> edge_reachable cfg saved s"
  unfolding edge_reachable_def using play_edge_steps by blast

definition ex_edge_config :: edge_config where
  "ex_edge_config = \<lparr>ec_starts = False, ec_stops = True, ec_reportsState = True, ec_room = (\<lambda>q qs. True)\<rparr>"

definition ex_edge :: edge where
  "ex_edge = fresh_edge [] (\<lambda>n. replicate n CHR ''u'') int"

text \<open>A session is assigned, and an input of it arrives twice before its first handler goes on.\<close>

definition ex_edge_started :: "edge_happening list" where
  "ex_edge_started = [Enters (Commanded (ex_assign ''l1'')), Goes 0 Wakes, Goes 0 Wakes, Goes 0 Resolves]"

definition ex_edge_twice :: "edge_happening list" where
  "ex_edge_twice = ex_edge_started @ [Enters (Commanded (ex_input ''c2'')), Enters (Commanded (ex_input ''c3'')), Goes 0 Wakes, Goes 0 Wakes,
     Goes 0 Wakes, Goes 0 Wakes, Goes 0 Resolves, Goes 0 Wakes]"

subsection \<open>Turns\<close>

text \<open>
  C10: A turn is captured once. However often the commands of a session arrive and however their handlers interleave with
  assignments, pauses, rejected heartbeats and stops: within one run of the session the agent of the edge worker is given at
  most one input for each turn; it is addressed to that session under the very lease the run was assigned with; and it is
  the input whose digest the run recorded when it accepted the turn.
\<close>

theorem turn_is_captured_once:
  assumes "edge_reachable cfg saved (st, ts)"
  shows "distinct (map captured_turn (captures st))
    \<and> list_all (\<lambda>(r, ic). r < length (ew_runs st) \<and> ic_sessionId ic = er_sessionId (edgeRun r st)
         \<and> ic_sessionLeaseId ic = er_sessionLeaseId (edgeRun r st)
         \<and> tget (er_acceptedInputs (edgeRun r st)) (ic_turnSeq ic) = Some (edge_digest ic)) (captures st)"
proof -
  have "captures_inv (snd (st, ts)) (fst (st, ts))"
  proof (rule edge_reachable_induct [OF assms])
    show "captures_inv [] (fresh_edge saved ids clock)" for ids clock
      by (simp add: captures_inv_def edge_active_ok_def fresh_edge_def captures_def entries_def List.map_filter_def)
  qed (rule edge_step_captures)
  then have "distinct (map captured_turn (captures st))" "\<And>x. x \<in> set (captures st) \<Longrightarrow> noted st x"
    by (simp_all add: captures_inv_def list_all_iff)
  then show ?thesis by (fastforce simp: list_all_iff noted_def for_run_def)
qed

lemma turn_is_captured_once_witness:
  "\<exists>st ts. play_edge ex_edge_config ex_edge_twice (ex_edge, []) = Some (st, ts) \<and> length (captures st) = 1
     \<and> distinct (map captured_turn (captures st))"
proof -
  have "case play_edge ex_edge_config ex_edge_twice (ex_edge, []) of None \<Rightarrow> False | Some (st, ts) \<Rightarrow> length (captures st) = 1"
    by code_simp
  then obtain st ts where run: "play_edge ex_edge_config ex_edge_twice (ex_edge, []) = Some (st, ts)" "length (captures st) = 1"
    by (auto split: option.splits)
  from run(1) have "edge_reachable ex_edge_config [] (st, ts)" unfolding ex_edge_def by (rule play_edge_reachable)
  from turn_is_captured_once [OF this] run show ?thesis by blast
qed

end
