(* ===== verification/EdgeQueue.thy ===== *)
theory EdgeQueue
  imports EdgeProps "HOL-Library.Sublist" "HOL-Library.Multiset"
begin

text \<open>
  The durable queue of the edge worker over whole runs: which commands release a saved result, and that nothing else does.
\<close>

subsection \<open>Runs with the commands that entered\<close>

inductive edge_run_of :: "edge_config \<Rightarrow> edge_entry list \<Rightarrow> edge \<times> edge_task list \<Rightarrow> edge \<times> edge_task list \<Rightarrow> bool" for cfg where
  begins: "edge_run_of cfg [] s s"
| enters: "edge_run_of cfg hs s (st, ts) \<Longrightarrow> enter cfg i st = Some (new, st1) \<Longrightarrow> edge_run_of cfg (hs @ [i]) s (st1, ts @ new)"
| continues: "edge_run_of cfg hs s (st, ts) \<Longrightarrow> n < length ts \<Longrightarrow> edgeTask cfg (ts ! n) sig st = Some (new, st1) \<Longrightarrow>
    edge_run_of cfg hs s (st1, take n ts @ drop (Suc n) ts @ new)"

subsection \<open>What releases a saved result\<close>

definition spares_command :: "queued_result \<Rightarrow> runtime_event \<Rightarrow> bool" where
  "spares_command q e =
     (case ev_type e of
        WorkerResultAcknowledged \<Rightarrow> parseResultAcknowledged (jsonBody (ev_payload e)) \<noteq> Some (qr_queueId q)
      | SessionPauseRequested \<Rightarrow> map_option ep_sessionId (parseEdgePause (jsonBody (ev_payload e))) \<noteq> Some (qr_sessionId q)
      | WorkerHeartbeatRejected \<Rightarrow> False
      | _ \<Rightarrow> True)"

fun spares_entry :: "queued_result \<Rightarrow> edge_entry \<Rightarrow> bool" where
  "spares_entry q (Commanded e) = spares_command q e"
| "spares_entry q _ = True"

fun spares_cont :: "queued_result \<Rightarrow> edge_cont \<Rightarrow> bool" where
  "spares_cont q (PauseStopped p) = (ep_sessionId p \<noteq> qr_sessionId q)"
| "spares_cont q (DropStopped reason i r) = False"
| "spares_cont q (DropDiscarded reason i) = False"
| "spares_cont q (FlushOn i k) = spares_cont q k"
| "spares_cont q _ = True"

fun spares :: "queued_result \<Rightarrow> edge_task \<Rightarrow> bool" where
  "spares q (EdgeDelivered e) = spares_command q e"
| "spares q (AckListed i items) = (i \<noteq> qr_queueId q)"
| "spares q (DiscardListed sid reason qs k) = ((\<forall>x \<in> set qs. qr_queueId x \<noteq> qr_queueId q) \<and> spares_cont q k)"
| "spares q (Discarding sid reason qs n k) = ((\<forall>x \<in> set qs. qr_queueId x \<noteq> qr_queueId q) \<and> spares_cont q k)"
| "spares q (SessionStopping sid reason k) = spares_cont q k"
| "spares q (FlushListed r items k) = spares_cont q k"
| "spares q (FlushPublishing r rest k) = spares_cont q k"
| "spares q (EdgeBeating n k) = spares_cont q k"
| "spares q (BeatListed n k) = spares_cont q k"
| "spares q _ = True"

subsection \<open>Identifiers\<close>

text \<open>
  The identifiers a worker draws are new: none is the end of a text that ends in another one, as it is for different identifiers of
  the same length, and none ends the identifier of a saved result.
\<close>

definition draws_new :: "(nat \<Rightarrow> string) \<Rightarrow> queued_result list \<Rightarrow> bool" where
  "draws_new ids saved = ((\<forall>m n x. suffix (ids m) (x @ ids n) \<longrightarrow> m = n) \<and> distinct (map qr_queueId saved)
     \<and> (\<forall>q \<in> set saved. \<forall>n. \<not> suffix (ids n) (qr_queueId q)))"

definition queue_ids_ok :: "edge \<Rightarrow> bool" where
  "queue_ids_ok st = ((\<forall>m n x. suffix (ew_uuid st m) (x @ ew_uuid st n) \<longrightarrow> m = n) \<and> distinct (map qr_queueId (ew_queue st))
     \<and> (\<forall>q \<in> set (ew_queue st). \<forall>n \<ge> ew_steps st. \<not> suffix (ew_uuid st n) (qr_queueId q)))"

definition keeps :: "queued_result set \<Rightarrow> edge_task list \<Rightarrow> edge \<Rightarrow> bool" where
  "keeps Q new st = (queue_ids_ok st \<and> Q \<subseteq> set (ew_queue st) \<and> (\<forall>q \<in> Q. list_all (spares q) new))"

lemma keeps_frames:
  "keeps Q new st \<Longrightarrow> keeps Q new (edgePublish i ty sid wid lease turn body st)"
  "keeps Q new st \<Longrightarrow> keeps Q new (notice n st)"
  "keeps Q new st \<Longrightarrow> keeps Q new (abortTurn r st)"
  "keeps Q new st \<Longrightarrow> keeps Q new (edgeCalls c st)"
  "keeps Q new st \<Longrightarrow> keeps Q new (updateEdgeRun r f st)"
  "keeps Q new st \<Longrightarrow> keeps Q new (st\<lparr>ew_activeRuns := m\<rparr>)"
  "keeps Q new st \<Longrightarrow> keeps Q new (st\<lparr>ew_completedPauses := ks\<rparr>)"
  "keeps Q new st \<Longrightarrow> keeps Q new (st\<lparr>ew_runs := rs\<rparr>)"
  "keeps Q new st \<Longrightarrow> keeps Q new (st\<lparr>ew_promises := ps\<rparr>)"
  "keeps Q new st \<Longrightarrow> keeps Q new (st\<lparr>ew_heartbeatState := h\<rparr>)"
  "keeps Q new st \<Longrightarrow> keeps Q new (st\<lparr>ew_timer := b\<rparr>)"
  "keeps Q new st \<Longrightarrow> keeps Q new (st\<lparr>ew_subscribed := b\<rparr>)"
  "keeps Q new st \<Longrightarrow> keeps Q new (st\<lparr>ew_wired := b\<rparr>)"
  "keeps Q new st \<Longrightarrow> keeps Q new (st\<lparr>ew_registration := g\<rparr>)"
  "keeps Q new st \<Longrightarrow> keeps Q new (st\<lparr>ew_reregistering := b\<rparr>)"
  "keeps Q new st \<Longrightarrow> keeps Q new (st\<lparr>ew_turns := j\<rparr>)"
  "keeps Q new st \<Longrightarrow> keeps Q new (st\<lparr>ew_steps := Suc (ew_steps st)\<rparr>)"
  by (auto simp: keeps_def queue_ids_ok_def edgePublish_def notice_def abortTurn_def edgeCalls_def updateEdgeRun_def split: option.splits)

lemma keeps_reports:
  "keeps Q new st \<Longrightarrow> keeps Q new (edgeCommandAccepted e turn st)"
  "keeps Q new st \<Longrightarrow> keeps Q new (edgeReport ty ic body st)"
  "keeps Q new st \<Longrightarrow> keeps Q new (assignReport ty ea body st)"
  "keeps Q new st \<Longrightarrow> keeps Q new (publishResult r q st)"
  "keeps Q new st \<Longrightarrow> keeps Q new (publishPaused p st)"
  "keeps Q new st \<Longrightarrow> keeps Q new (endTurn r t st)"
  by (auto simp: edge_reports endTurn_def Let_def intro!: keeps_frames)

lemma keeps_task: "keeps Q [] st \<Longrightarrow> \<forall>q \<in> Q. spares q t \<Longrightarrow> keeps Q [t] st"
  by (simp add: keeps_def)

lemma keeps_remove:
  assumes "keeps Q new st" and "\<forall>q \<in> Q. qr_queueId q \<noteq> i"
  shows "keeps Q new (st\<lparr>ew_queue := memoryRemove i (ew_queue st)\<rparr>)"
proof -
  have ids: "distinct (map qr_queueId (ew_queue st))" using assms(1) by (simp add: keeps_def queue_ids_ok_def)
  from assms memory.distinct_remove [OF ids, of i] show ?thesis
    by (auto simp: keeps_def queue_ids_ok_def memory.items_remove [OF ids])
qed

lemma keeps_add:
  assumes k: "keeps Q new st"
  shows "keeps Q new (st\<lparr>ew_steps := Suc (ew_steps st), ew_queue := memoryAdd (newQueuedResult r ic ty body st) (ew_queue st)\<rparr>)"
proof -
  let ?q = "newQueuedResult r ic ty body st"
  have u: "\<And>m n x. suffix (ew_uuid st m) (x @ ew_uuid st n) \<Longrightarrow> m = n"
    and old: "distinct (map qr_queueId (ew_queue st))"
      "\<And>q n. q \<in> set (ew_queue st) \<Longrightarrow> ew_steps st \<le> n \<Longrightarrow> \<not> suffix (ew_uuid st n) (qr_queueId q)"
    using k by (auto simp: keeps_def queue_ids_ok_def)
  obtain x where id: "qr_queueId ?q = x @ ew_uuid st (ew_steps st)"
    by (metis append.assoc newQueuedResult_def queued_result.select_convs(1))
  have "\<not> suffix (ew_uuid st n) (qr_queueId ?q)" if "ew_steps st < n" for n
    using u [of n x "ew_steps st"] that unfolding id by auto
  moreover have "qr_queueId ?q \<notin> qr_queueId ` set (ew_queue st)" using old(2) [OF _ order_refl] unfolding id by (metis imageE suffixI)
  ultimately show ?thesis using k u old by (auto simp: keeps_def queue_ids_ok_def memoryAdd_def Suc_le_eq)
qed

lemmas keeps_rules = keeps_frames keeps_reports keeps_task keeps_remove keeps_add

subsection \<open>Every step keeps what is not released\<close>

abbreviation keeping :: "queued_result set \<Rightarrow> edge_continued \<Rightarrow> bool" where
  "keeping Q \<equiv> edge_leads (keeps Q)"

lemma other_sessions:
  assumes "keeps Q new st" and "\<forall>q \<in> Q. sid \<noteq> qr_sessionId q"
  shows "\<forall>q \<in> Q. \<forall>x \<in> set (filter (\<lambda>x. qr_sessionId x = sid) (ew_queue st)). qr_queueId x \<noteq> qr_queueId q"
proof clarify
  fix q x assume "q \<in> Q" and x: "x \<in> set (filter (\<lambda>x. qr_sessionId x = sid) (ew_queue st))" and same: "qr_queueId x = qr_queueId q"
  with assms have "q \<in> set (ew_queue st)" "distinct (map qr_queueId (ew_queue st))" "sid \<noteq> qr_sessionId q"
    by (auto simp: keeps_def queue_ids_ok_def)
  with x same show False by (auto simp: distinct_map dest: inj_onD)
qed

lemma keeping_subroutines:
  assumes "keeps Q [] st"
  shows "\<forall>q \<in> Q. spares_cont q k \<Longrightarrow> keeping Q (flushRun r k st)"
    and "\<forall>q \<in> Q. spares_cont q k \<Longrightarrow> keeping Q (stopAgentSession cfg sid reason k st)"
    and "\<forall>q \<in> Q. spares_cont q k \<Longrightarrow> \<forall>q \<in> Q. sid \<noteq> qr_sessionId q \<Longrightarrow> keeping Q (discardQueuedResults sid reason k st)"
    and "keeping Q (failConnection rereg msg st)" and "keeping Q (startNegotiation rereg st)"
    and "keeping Q (connectionBeaten w rereg st)" and "keeping Q (pauseDiscarded p st)" and "keeping Q (pauseBeaten p st)"
    and "keeping Q (edgeCommandRejected e reason expected received st)" and "keeping Q (edgeTurnError ic r t msg st)"
  using assms other_sessions [OF assms, of sid]
  by (auto simp: flushRun_def stopAgentSession_def discardQueuedResults_def failConnection_def startNegotiation_def connectionBeaten_def
      pauseDiscarded_def pauseBeaten_def edgeCommandRejected_def edgeTurnError_def Let_def intro!: keeps_rules)

lemma keeping_loops:
  assumes "keeps Q [] st"
  shows "\<forall>q \<in> Q. spares_cont q k \<Longrightarrow> keeping Q (return st) \<Longrightarrow> keeping Q (flushPending i k return st)"
    and "keeping Q (stopFrom cfg i st)"
    and "\<forall>q \<in> Q. spares_cont q k \<Longrightarrow> keeping Q (return st) \<Longrightarrow> keeping Q (edgeHeartbeat k return st)"
  using assms
  by (auto simp: flushPending_def stopFrom_def edgeHeartbeat_def Let_def
      intro!: keeping_subroutines keeps_rules split: option.splits prod.splits)

lemma keeping_discard:
  assumes "keeps Q [] st" and "\<And>s. keeps Q [] s \<Longrightarrow> keeping Q (return s)" and "\<forall>q \<in> Q. spares_cont q k"
    and "\<forall>q \<in> Q. \<forall>x \<in> set qs. qr_queueId x \<noteq> qr_queueId q"
  shows "keeping Q (discardNext sid reason qs n k return st)"
proof (cases qs)
  case Nil
  with assms(1,2) show ?thesis by (auto simp: discardNext_def intro!: keeps_rules)
next
  case (Cons x rest)
  have "keeps Q [] (st\<lparr>ew_queue := memoryRemove (qr_queueId x) (ew_queue st)\<rparr>)"
    using assms(4) by (intro keeps_remove [OF assms(1)]) (metis Cons list.set_intros(1))
  moreover have "\<forall>q \<in> Q. spares q (Discarding sid reason rest n k)" using assms(3,4) by (simp add: Cons)
  ultimately show ?thesis by (simp add: discardNext_def Cons keeps_task)
qed

text \<open>With nothing to keep the identifiers alone are preserved; then a dropped run may release what it likes.\<close>

lemma keeping_drop: "keeps {} [] st \<Longrightarrow> keeping {} (dropFrom cfg reason i st)"
  by (auto simp: dropFrom_def intro!: keeping_subroutines keeps_rules split: option.splits)

lemma keeping_resume: "keeps Q [] st \<Longrightarrow> \<forall>q \<in> Q. spares_cont q k \<Longrightarrow> keeping Q (resume cfg k st)"
proof (induction k arbitrary: st)
  case (DropStopped reason i r)
  then have "Q = {}" by auto
  with DropStopped show ?case by (auto intro!: keeping_subroutines)
next
  case (DropDiscarded reason i)
  then have "Q = {}" by auto
  with DropDiscarded show ?case by (auto intro!: keeping_drop)
qed (auto intro!: keeping_subroutines keeping_loops keeps_rules)

lemma keeping_fenced:
  assumes "keeps Q [] st" and "\<And>r. keeping Q (f r)"
  shows "keeping Q (edgeFenced e sid lease st f)"
  using assms by (auto simp: edgeFenced_def Let_def intro!: keeping_subroutines split: option.splits)

lemma keeping_command:
  assumes k: "keeps Q [] st" and s: "\<forall>q \<in> Q. spares_command q e"
  shows "keeping Q (edgeCommand cfg e st)"
proof (cases "ev_type e")
  case SessionAssign
  have "keeping Q (edgeAssign cfg e st)"
    using k by (auto simp: edgeAssign_def Let_def intro!: keeps_rules split: option.splits) (auto simp: keeps_def)
  with SessionAssign show ?thesis by (simp add: edgeCommand_def)
next
  case SessionInput
  with k show ?thesis by (auto simp: edgeCommand_def edgeInput_def intro!: keeping_fenced keeps_rules split: option.splits)
next
  case SessionPauseRequested
  with k s show ?thesis
    by (auto simp: edgeCommand_def edgePause_def spares_command_def intro!: keeping_fenced keeping_subroutines keeps_rules split: option.splits)
next
  case WorkerHeartbeatRejected
  with s have "Q = {}" by (auto simp: spares_command_def)
  with k WorkerHeartbeatRejected show ?thesis by (auto simp: edgeCommand_def reregister_def intro!: keeping_drop keeps_rules)
next
  case WorkerResultAcknowledged
  with k s show ?thesis
    by (auto simp: edgeCommand_def resultAcknowledged_def spares_command_def intro!: keeps_rules split: option.splits)
qed (use k in \<open>simp_all add: edgeCommand_def\<close>)

lemma keeping_tasks:
  assumes k: "keeps Q [] st" and s: "\<forall>q \<in> Q. spares q t" and other: "\<And>e. t \<noteq> EdgeDelivered e" "\<And>i items. t \<noteq> AckListed i items"
  shows "keeping Q (edgeTask cfg t sig st)"
proof -
  note loops = keeping_subroutines keeping_loops keeping_discard keeping_resume
  have queue: "keeping Q (enqueueResult cfg r n ic ty body x full st1)"
    if "\<And>st1. keeps Q [] st1 \<Longrightarrow> keeping Q (full st1)" "keeps Q [] st1" for r n ic ty body x full st1
    using that keeps_add [OF that(2), of r ic ty body] by (auto simp: enqueueResult_def Let_def intro!: keeps_rules)
  have next_result: "keeping Q (publishNext cfg r qs k st1)" if "keeps Q [] st1" "\<forall>q \<in> Q. spares_cont q k" for r qs k st1
    using that by (auto simp: publishNext_def intro!: keeps_rules loops split: list.splits)
  note defs = agentReady_def edgeAssigned_def runningReported_def startFailing_def startFailed_def rejectionReported_def
    edgeInputReady_def edgeInputAcknowledged_def replayListed_def startTurn_def
    edgeTurn_def telemetry_def resultAdded_def resultCounted_def edgeTurnFailed_def flushListed_def flushPublished_def
    ackRemoved_def ackCounted_def discardListed_def discarding_def sessionStopped_def edgePausePublished_def edgeBeaten_def beatListed_def
    edgeNegotiated_def edgeConnected_def subscriptionClosed_def edgeSubscribed_def closeRequested_def unsubscribed_def
    transportStopped_def heartbeatThrew_def
  have pair: "keeps Q [t1, t2] st1" if "keeps Q [] st1" "\<forall>q \<in> Q. spares q t1" "\<forall>q \<in> Q. spares q t2" for t1 t2 st1
    using that by (simp add: keeps_def)
  show ?thesis
    using s other k unfolding edgeTask_def
    by (cases t) (auto simp: defs Let_def intro!: queue next_result loops edge_leads_wake edge_leads_answer keeps_rules pair
        split: promise_state.splits edge_signal.splits option.splits edge_cont.splits)
qed

lemma keeping_ack:
  assumes "keeps Q [] st" and "\<forall>q \<in> Q. i \<noteq> qr_queueId q"
  shows "keeping Q (ackListed i items sig st)"
proof -
  have "\<forall>q \<in> Q. qr_queueId q \<noteq> i" using assms(2) by metis
  with assms(1) show ?thesis
    by (auto simp: ackListed_def intro!: edge_leads_wake keeps_rules dest!: find_SomeD split: option.splits)
qed

lemma keeping_task:
  assumes "keeps Q [] st" and "\<forall>q \<in> Q. spares q t"
  shows "keeping Q (edgeTask cfg t sig st)"
proof (cases t)
  case (EdgeDelivered e)
  with assms keeping_command show ?thesis by (simp add: edgeTask_def)
next
  case (AckListed i items)
  with assms keeping_ack show ?thesis by (simp add: edgeTask_def)
qed (use assms keeping_tasks in simp_all)

lemma keeping_enter:
  assumes "keeps Q [] st" and "\<forall>q \<in> Q. spares_entry q i"
  shows "keeping Q (enter cfg i st)"
  using assms
  by (cases i) (auto simp: registerWorker_def connectionChanged_def stopEdge_def Let_def
      intro!: keeping_subroutines keeping_loops keeps_rules split: option.splits)

lemma keeps_pool: "keeps Q ts st \<Longrightarrow> keeps Q new st1 \<Longrightarrow> keeps Q (ts @ new) st1"
  by (auto simp: keeps_def)

lemma keeps_run:
  assumes "edge_run_of cfg hs s s1" and "keeps Q (snd s) (fst s)" and "\<forall>q \<in> Q. list_all (spares_entry q) hs"
  shows "keeps Q (snd s1) (fst s1)"
  using assms
proof (induction rule: edge_run_of.induct)
  case (enters hs s st ts i new st1)
  then have k: "keeps Q ts st" "\<forall>q \<in> Q. spares_entry q i" by simp_all
  then have "keeps Q [] st" by (simp add: keeps_def)
  from edge_leadsD [OF keeping_enter [OF this k(2)] enters.hyps(2)] keeps_pool [OF k(1)] show ?case by simp
next
  case (continues hs s st ts n sig new st1)
  then have k: "keeps Q ts st" by simp
  then have "keeps Q [] st" "\<forall>q \<in> Q. spares q (ts ! n)" using continues.hyps(2) by (auto simp: keeps_def list_all_length)
  from edge_leadsD [OF keeping_task [OF this] continues.hyps(3)] have new: "keeps Q new st1" .
  obtain xs ys where split: "ts = xs @ ts ! n # ys" "take n ts @ drop (Suc n) ts = xs @ ys" using pool_split [OF continues.hyps(2)] by blast
  have "keeps Q (xs @ ts ! n # ys) st" using k split(1) by simp
  then have "keeps Q (xs @ ys) st" by (simp add: keeps_def)
  from keeps_pool [OF this new] show ?case by (simp add: split(2) [symmetric])
qed simp

text \<open>
  C6: A saved result is kept. Take any run of the worker in which a result \<open>q\<close> is in the queue while no waiting handler is
  about to release it; however the run goes on - other sessions assigned, paused and acknowledged, connections lost,
  registrations, flushes, stops - as long as no acknowledgement of \<open>q\<close>, no pause of its session and no rejection of the
  worker's heartbeat arrives, the result is still there.
\<close>

theorem saved_result_is_kept:
  assumes "draws_new ids saved" and "edge_run_of cfg js (fresh_edge saved ids clock, []) (st, ts)"
    and "q \<in> set (ew_queue st)" and "list_all (spares q) ts"
    and "edge_run_of cfg hs (st, ts) (st1, ts1)" and "list_all (spares_entry q) hs"
  shows "q \<in> set (ew_queue st1)"
proof -
  have "keeps {} [] (fresh_edge saved ids clock)"
    using assms(1) by (simp add: keeps_def queue_ids_ok_def draws_new_def fresh_edge_def)
  with keeps_run [OF assms(2), of "{}"] have "keeps {q} ts st"
    using assms(3,4) by (simp add: keeps_def)
  with keeps_run [OF assms(5), of "{q}"] assms(6) show ?thesis by (simp add: keeps_def)
qed

text \<open>The run of a script.\<close>

fun entered :: "edge_happening list \<Rightarrow> edge_entry list" where
  "entered [] = []"
| "entered (Enters i # hs) = i # entered hs"
| "entered (Goes n sig # hs) = entered hs"

lemma play_edge_run:
  "edge_run_of cfg js s0 s \<Longrightarrow> play_edge cfg hs s = Some s1 \<Longrightarrow> edge_run_of cfg (js @ entered hs) s0 s1"
proof (induction cfg hs s arbitrary: js rule: play_edge.induct)
  case (2 cfg i hs st ts)
  then obtain new st1 where e: "enter cfg i st = Some (new, st1)" "play_edge cfg hs (st1, ts @ new) = Some s1"
    by (auto split: option.splits)
  from 2(1) [OF e(1) refl edge_run_of.enters [OF 2(2) e(1)] e(2)] show ?case by simp
next
  case (3 cfg n sig hs st ts)
  then obtain new st1 where e: "n < length ts" "edgeTask cfg (ts ! n) sig st = Some (new, st1)"
      "play_edge cfg hs (st1, take n ts @ drop (Suc n) ts @ new) = Some s1"
    by (auto split: option.splits if_splits)
  from 3(1) [OF e(1,2) refl edge_run_of.continues [OF 3(2) e(1,2)] e(3)] show ?case by simp
qed simp

text \<open>A turn has returned and its result is saved; then it cannot be published, and another result is acknowledged.\<close>

definition ex_ids :: "nat \<Rightarrow> string" where
  "ex_ids n = CHR ''v'' # replicate n (CHR ''u'')"

lemma ex_ids_suffix: "suffix (ex_ids m) (x @ ex_ids n) \<Longrightarrow> m = n"
proof -
  have ends: "length (takeWhile (\<lambda>c. c = CHR ''u'') (rev (z @ ex_ids k))) = k" for z k
    by (simp add: ex_ids_def takeWhile_append)
  assume "suffix (ex_ids m) (x @ ex_ids n)"
  then obtain z where "x @ ex_ids n = z @ ex_ids m" by (auto simp: suffix_def)
  with ends [of x n] ends [of z m] show "m = n" by simp
qed

definition ex_ack :: "string \<Rightarrow> runtime_event" where
  "ex_ack i = (ex_input ''c9'')\<lparr>ev_type := WorkerResultAcknowledged, ev_payload := JsonPayload (JObj [(''resultEventId'', JStr i)])\<rparr>"

definition ex_saved :: queued_result where
  "ex_saved = \<lparr>qr_queueId = ''q1'', qr_sessionId = ''s1'', qr_turnSeq = 1, qr_digest = ''d'', qr_type = TurnCompleted,
     qr_payload = JObj [], qr_enqueuedAt = 0\<rparr>"

lemma ex_draws_new: "draws_new ex_ids [ex_saved]"
  using ex_ids_suffix by (auto simp: draws_new_def ex_saved_def ex_ids_def suffix_Cons)

definition ex_before :: "edge_happening list" where
  "ex_before = ex_edge_started @ [Enters (Commanded (ex_input ''c2'')), Goes 0 Wakes, Goes 0 Wakes, Goes 0 Resolves, Goes 0 Wakes,
     Goes 0 (Returns (Some ''done'') None)]"

definition ex_after :: "edge_happening list" where
  "ex_after = [Goes 0 Wakes, Goes 0 Wakes, Goes 0 Wakes, Goes 0 (Rejects ''offline''), Enters (Commanded (ex_ack ''q1'')), Goes 0 Wakes,
     Goes 0 Wakes, Goes 0 Wakes, Goes 0 Wakes, Enters StopsWorker, Goes 0 Resolves]"

lemma ex_edge_before:
  "case play_edge ex_edge_config ex_before (fresh_edge [ex_saved] ex_ids int, []) of
     None \<Rightarrow> False
   | Some (st, ts) \<Rightarrow> map qr_queueId (ew_queue st) = [''q1'', ''s1:1:vuu'']
       \<and> list_all (\<lambda>q. list_all (spares q) ts) (ew_queue st)
       \<and> (case play_edge ex_edge_config ex_after (st, ts) of
            None \<Rightarrow> False
          | Some (st1, ts1) \<Rightarrow> map qr_queueId (ew_queue st1) = [''s1:1:vuu'']
              \<and> list_all (\<lambda>q. qr_queueId q = ''q1'' \<or> list_all (spares_entry q) (entered ex_after)) (ew_queue st))"
  by code_simp

theorem saved_result_is_kept_witness:
  "\<exists>st ts st1 ts1 q. edge_run_of ex_edge_config (entered ex_after) (st, ts) (st1, ts1) \<and> q \<in> set (ew_queue st)
     \<and> qr_queueId q = ''s1:1:vuu'' \<and> q \<in> set (ew_queue st1)"
proof -
  obtain st ts st1 ts1 where p: "play_edge ex_edge_config ex_before (fresh_edge [ex_saved] ex_ids int, []) = Some (st, ts)"
      "play_edge ex_edge_config ex_after (st, ts) = Some (st1, ts1)"
    and q: "map qr_queueId (ew_queue st) = [''q1'', ''s1:1:vuu'']" "list_all (\<lambda>q. list_all (spares q) ts) (ew_queue st)"
      "list_all (\<lambda>q. qr_queueId q = ''q1'' \<or> list_all (spares_entry q) (entered ex_after)) (ew_queue st)"
    using ex_edge_before by (auto split: option.splits prod.splits)
  from q obtain x q where "ew_queue st = [x, q]" "qr_queueId q = ''s1:1:vuu''" by (auto simp: map_eq_Cons_conv)
  with q(2,3) have "q \<in> set (ew_queue st)" "qr_queueId q = ''s1:1:vuu''" "list_all (spares q) ts" "list_all (spares_entry q) (entered ex_after)"
    by simp_all
  with saved_result_is_kept [OF ex_draws_new play_edge_run [OF edge_run_of.begins p(1)] _ _ play_edge_run [OF edge_run_of.begins p(2)], of q]
    play_edge_run [OF edge_run_of.begins p(2)] show ?thesis by auto
qed

subsection \<open>What a flush publishes\<close>

definition flushed :: "nat \<Rightarrow> queued_result list \<Rightarrow> edge \<Rightarrow> edge" where
  "flushed r qs st = fold (publishResult r) qs st"

lemma flush_goes_on:
  "play_edge cfg (replicate (Suc (length qs)) (Goes 0 Resolves)) (st, [FlushPublishing r qs Ends]) = Some (flushed r qs st, [])"
  by (induction qs arbitrary: st) (simp_all add: edgeTask_def flushPublished_def publishNext_def on_answer_def flushed_def)

lemma publishResult_runs: "ew_runs (publishResult r q st) = ew_runs st"
  by (simp add: publishResult_def Let_def edgePublish_def)

lemma flushed_sent:
  "map ev_eventId (ew_sent (flushed r qs st)) = map ev_eventId (ew_sent st) @ map qr_queueId qs"
  "list_all (\<lambda>e. ev_workerId e = Some (er_workerId (edgeRun r st)) \<and> ev_sessionLeaseId e = Some (er_sessionLeaseId (edgeRun r st)))
     (drop (length (ew_sent st)) (ew_sent (flushed r qs st)))"
  "\<exists>es. ew_sent (flushed r qs st) = ew_sent st @ es"
proof (induction qs rule: rev_induct)
  case (snoc q qs)
  have run: "ew_runs (flushed r qs st) = ew_runs st" by (induction qs rule: rev_induct) (simp_all add: flushed_def publishResult_runs)
  case 1
  from snoc(1) show ?case by (simp add: flushed_def publishResult_def Let_def edgePublish_def)
  case 2
  from snoc(2,3) run show ?case by (auto simp: flushed_def publishResult_def Let_def edgePublish_def edgeRun_def)
  case 3
  from snoc(3) show ?case by (auto simp: flushed_def publishResult_def Let_def edgePublish_def)
qed (simp_all add: flushed_def)

lemma flushed_queue: "ew_queue (flushed r qs st) = ew_queue st"
  by (induction qs rule: rev_induct) (simp_all add: flushed_def publishResult_def Let_def edgePublish_def)


subsection \<open>Where a result or the worker is lost\<close>

text \<open>
  The failure of a turn that a pause aborts is saved after the pause has discarded the session's results. When the session comes back
  and central sends the input of the turn again, that failure is delivered and the turn is not run.
\<close>

definition ex_aborted_turn :: "edge_happening list" where
  "ex_aborted_turn = ex_edge_started @ [Enters (Commanded (ex_input ''c2'')), Goes 0 Wakes, Goes 0 Wakes, Goes 0 Resolves, Goes 0 Wakes,
     Enters (Commanded (ex_command ''l1'' ''c3'' SessionPauseRequested [])), Goes 1 Wakes, Goes 1 Resolves, Goes 1 Wakes, Goes 1 Resolves,
     Goes 0 (Rejects ''aborted''), Goes 0 Resolves, Goes 0 Wakes, Goes 0 Wakes, Goes 0 Wakes, Goes 0 Resolves,
     Enters (Commanded (ex_assign ''l2'')), Goes 0 Wakes, Goes 0 Wakes, Goes 0 Resolves,
     Enters (Commanded (ex_command ''l2'' ''c4'' SessionInput [(''turnSeq'', Some (JNum 1)), (''input'', Some (JObj [(''message'', JStr ''go'')]))])),
     Goes 0 Wakes, Goes 0 Wakes, Goes 0 Resolves, Goes 0 Wakes, Goes 0 Wakes, Goes 0 Resolves]"

lemma aborted_turn_is_replayed:
  "case play_edge ex_edge_config ex_aborted_turn (ex_edge, []) of
     None \<Rightarrow> False
   | Some (st, ts) \<Rightarrow> ts = [] \<and> length (captures st) = 1 \<and> length (ew_runs st) = 2 \<and> map qr_type (ew_queue st) = [TurnFailed]
       \<and> map ev_type (ew_sent st) = [StatusChanged, WorkerCommandAccepted, SessionPaused, AgentOutput, TurnFailed, StatusChanged,
            WorkerCommandAccepted, TurnFailed]
       \<and> ev_sessionLeaseId (last (ew_sent st)) = Some ''l2''"
  by code_simp

text \<open>When the negotiation that follows a rejected heartbeat fails, nothing tries it again: no handler waits and the timer is off.\<close>

definition ex_registration :: worker_register_payload where
  "ex_registration = \<lparr>wr_hostPoolInstanceId = None, wr_labels = [], wr_storageClass = ''none'', wr_description = None, wr_capacity = 2,
     wr_allocatable = 2, wr_edgeBinding = None\<rparr>"

definition ex_registered :: "edge_happening list" where
  "ex_registered = [Enters (Registers ex_registration), Goes 0 (Grants (Some (''k1'', 2))), Goes 0 Resolves, Goes 0 Resolves, Goes 0 Resolves,
     Goes 0 Resolves, Goes 0 Wakes]"

definition ex_lost_worker :: "edge_happening list" where
  "ex_lost_worker = ex_registered @ [Enters (Commanded ((ex_input ''c1'')\<lparr>ev_type := WorkerHeartbeatRejected\<rparr>)), Goes 0 Wakes,
     Goes 0 (Rejects ''offline'')]"

lemma failed_reregistration_is_final:
  "case play_edge ex_edge_config ex_registered (ex_edge, []) of None \<Rightarrow> False | Some (st, ts) \<Rightarrow> ts = [] \<and> ew_timer st"
  "case play_edge ex_edge_config ex_lost_worker (ex_edge, []) of
     None \<Rightarrow> False
   | Some (st, ts) \<Rightarrow> ts = [] \<and> \<not> ew_timer st \<and> \<not> ew_reregistering st \<and> last (ew_notices st) = ErrorNotice ''offline''"
  by code_simp+

text \<open>A pause that ends after the session was assigned anew forgets the new run, whatever its lease.\<close>

definition ex_late_edge_pause :: "edge_happening list" where
  "ex_late_edge_pause = ex_edge_started @ [Enters (Commanded (ex_command ''l1'' ''c3'' SessionPauseRequested [])), Goes 0 Wakes,
     Enters (Commanded (ex_assign ''l2'')), Goes 1 Wakes, Goes 1 Wakes, Goes 1 Resolves, Goes 0 Resolves, Goes 0 Wakes, Goes 0 Resolves]"

lemma late_edge_pause_forgets_new_run:
  "case play_edge ex_edge_config ex_late_edge_pause (ex_edge, []) of
     None \<Rightarrow> False
   | Some (st, ts) \<Rightarrow> msize (ew_activeRuns st) = 0 \<and> length (ew_runs st) = 2
       \<and> map ev_type (ew_sent st) = [StatusChanged, StatusChanged, SessionPaused]"
  by code_simp

text \<open>A pause takes the results of its session out of the queue, though central has acknowledged none of them.\<close>

definition ex_discarded :: "edge_happening list" where
  "ex_discarded = ex_edge_started @ [Enters (Commanded (ex_command ''l1'' ''c3'' SessionPauseRequested [])), Goes 0 Wakes, Goes 0 Resolves,
     Goes 0 Wakes, Goes 0 Wakes]"

lemma pause_discards_saved_results:
  "case play_edge ex_edge_config ex_discarded (fresh_edge [ex_saved] ex_ids int, []) of
     None \<Rightarrow> False
   | Some (st, ts) \<Rightarrow> ew_queue st = [] \<and> map ev_type (ew_sent st) = [StatusChanged, SessionPaused]"
  by code_simp

end
