(* ===== verification/EdgeLink.thy ===== *)
theory EdgeLink
  imports EdgeQueue AgentEvents
begin

text \<open>
  Central and the edge worker together: the event a saved result is published as is what central acknowledges, and the
  acknowledgement releases that result and no other.
\<close>

definition released :: "edge_config \<Rightarrow> runtime_event \<Rightarrow> edge \<Rightarrow> edge_continued" where
  "released cfg e st =
     (case edgeTask cfg (EdgeDelivered e) Wakes st of
        Some ([t], st1) \<Rightarrow> edgeTask cfg t Wakes st1
      | c \<Rightarrow> c)"

lemma find_queued: "distinct (map qr_queueId qs) \<Longrightarrow> q \<in> set qs \<Longrightarrow> find (\<lambda>x. qr_queueId x = qr_queueId q) qs = Some q"
  by (induction qs) (auto simp: image_iff)

lemma released_ack:
  assumes "distinct (map qr_queueId (ew_queue st))" and "q \<in> set (ew_queue st)"
    and "ev_type e = WorkerResultAcknowledged" and "parseResultAcknowledged (jsonBody (ev_payload e)) = Some (qr_queueId q)"
  shows "released cfg e st = Some ([AckRemoved q], st\<lparr>ew_queue := memoryRemove (qr_queueId q) (ew_queue st)\<rparr>)"
  using assms find_queued [OF assms(1,2)]
  by (simp add: released_def edgeTask_def edgeCommand_def resultAcknowledged_def ackListed_def on_wake_def)

lemma queue_ids_distinct:
  assumes "draws_new ids saved" and "edge_run_of cfg hs (fresh_edge saved ids clock, []) (st, ts)"
  shows "distinct (map qr_queueId (ew_queue st))"
proof -
  have "keeps {} [] (fresh_edge saved ids clock)"
    using assms(1) by (simp add: keeps_def queue_ids_ok_def draws_new_def fresh_edge_def)
  with keeps_run [OF assms(2), of "{}"] show ?thesis by (simp add: keeps_def queue_ids_ok_def)
qed


lemma ex_edge_saved:
  "case play_edge ex_edge_config ex_before (fresh_edge [ex_saved] ex_ids int, []) of
     None \<Rightarrow> False
   | Some (st, ts) \<Rightarrow> er_workerId (edgeRun 0 st) = ''k1'' \<and> length (ew_queue st) = 2
       \<and> list_all (\<lambda>q. qr_type q = TurnCompleted \<and> qr_sessionId q \<noteq> [] \<and> qr_queueId q \<noteq> []) (ew_queue st)"
  by code_simp


end
