(* ===== verification/Spec2Isabelle.thy ===== *)
theory Spec2Isabelle
  imports Prelude Models World Examples Versioned Lifecycle Selector Workers Admission
    Delegation DelegationInv DelegationStart DelegationProps Pairing PairingSteps PairingProps Managed Fanout Sessions
    SessionLogs SessionProps Interactions InteractionInv LogIds InteractionProps
    AgentReports AgentEvents AgentEventProps WorkerPools Reconciler ReconcilerInv ReconcilerProps Dispatch
    DelegationTargets WorkerEvents ClientEvents DelegationEvents TenantInbox Routes
    CallQueue DispatchInv PairingEnds SidecarCommands Sidecar SidecarProps SidecarTurns WorkerLink
    Channels Transports ClientSdk ClientSession ClientProps ClientTurns ClientLink TenantProps DelegationEventProps
    EdgeWorker EdgeProps EdgeQueue EdgeLink
begin

text \<open>
  Verification development of the Agent Runtime Sidecar, a runtime that keeps agents as durable online sessions.
  Paths are relative to the source directory \<^verbatim>\<open>src/src\<close> of the repository unless said otherwise.

  \<^bold>\<open>The program.\<close> A central service (\<^verbatim>\<open>central/\<close>) owns the sessions, their event logs, the
  workers and all the relations between them, as JSON files. Controllers receive the events of clients, workers and
  agents from a message transport and HTTP requests, and call managers; managers own the workflows and share one
  storage. A worker process (\<^verbatim>\<open>sidecar/\<close>) runs the agents of the sessions it was given and reports to
  central over the same transport. Nothing is locked: the code runs on an event loop, several operations are under way
  at once, and records that several tasks write carry a revision and are replaced by compare-and-set.

  \<^bold>\<open>Theories and code.\<close> The prelude is \<open>Prelude\<close> (optional strings, directories as association lists,
  operations that may throw, the retry loop around a compare-and-set). \<open>Models\<close> has a record or datatype for
  each interface of \<^verbatim>\<open>shared/models\<close>, with the fields in the source's order and a prefix. \<open>World\<close> is
  the state central keeps: the tables of \<^verbatim>\<open>storage/local-file-storage.ts\<close>, the published messages, the
  clock and the source of UUIDs. The components, in the order they build on each other:

    \<^item> \<open>Versioned\<close>: the compare-and-set contract of the five versioned tables as a locale, interpreted on each.
      \<open>Managed\<close>: the locale for a manager whose operations are compare-and-set loops (fan-out, interactions).
    \<^item> \<open>Lifecycle\<close>, \<open>Sessions\<close>, \<open>SessionLogs\<close>, \<open>SessionProps\<close>: session records, event logs, leases, storage
      classes, assignment, start, pause and resume (\<^verbatim>\<open>managers/session\<close>, \<^verbatim>\<open>persistence\<close>).
    \<^item> \<open>Selector\<close>, \<open>Workers\<close>, \<open>WorkerPools\<close>, \<open>Reconciler\<close>, \<open>ReconcilerInv\<close>, \<open>ReconcilerProps\<close>: choice of a
      worker, the worker registry, host pools, and the pass that reconciles sessions (\<^verbatim>\<open>managers/worker\<close>,
      \<^verbatim>\<open>session-lifecycle-reconciler.ts\<close>).
    \<^item> \<open>Admission\<close>: canonical JSON, digests, admission of delegates and AgentSpecs, the registries.
    \<^item> \<open>Delegation\<close>, \<open>CallQueue\<close>, \<open>DelegationInv\<close>, \<open>DelegationStart\<close>, \<open>Dispatch\<close>, \<open>DispatchInv\<close>,
      \<open>DelegationProps\<close>: calls of one session to another, their queue and their dispatch
      (\<^verbatim>\<open>managers/delegation\<close>). \<open>CallQueue\<close> is the abstract specification, a first-in first-out queue,
      which the manager and the dispatcher refine. \<open>Fanout\<close>: one call to many devices.
    \<^item> \<open>Pairing\<close>, \<open>PairingSteps\<close>, \<open>PairingProps\<close>, \<open>PairingEnds\<close>: invites and bindings of devices
      (\<^verbatim>\<open>managers/case\<close>), as a step relation with one storage call per step.
    \<^item> \<open>Interactions\<close>, \<open>InteractionInv\<close>, \<open>LogIds\<close>, \<open>InteractionProps\<close>: questions of agents and their
      answers (\<^verbatim>\<open>managers/interaction\<close>).
    \<^item> \<open>AgentReports\<close>, \<open>AgentEvents\<close>, \<open>AgentEventProps\<close>, \<open>WorkerEvents\<close>, \<open>ClientEvents\<close>,
      \<open>DelegationTargets\<close>, \<open>DelegationEvents\<close>, \<open>DelegationEventProps\<close>: the controllers
      (\<^verbatim>\<open>controllers/\<close>), handler by handler.
    \<^item> \<open>TenantInbox\<close>, \<open>Routes\<close>, \<open>TenantProps\<close>: the wiring of a tenant's runtime and the HTTP routes.
    \<^item> \<open>SidecarCommands\<close>, \<open>Sidecar\<close>, \<open>SidecarProps\<close>, \<open>SidecarTurns\<close>: the worker's daemon, as a pool of waiting
      handlers of which any may go on. \<open>WorkerLink\<close> puts central's commands and the daemon together.
    \<^item> \<open>Channels\<close>, \<open>Transports\<close>: the groups of the message service, the connections issued for it and what its
      messages become (\<^verbatim>\<open>shared/protocol\<close>, \<^verbatim>\<open>central/adapters\<close>, and the mappers of both SDKs).
    \<^item> \<open>ClientSdk\<close>, \<open>ClientSession\<close>, \<open>ClientProps\<close>, \<open>ClientTurns\<close>: the client SDK
      (\<^verbatim>\<open>../sdk/client/src\<close>), its requests and the streams of a session's events as state machines of what
      comes between two awaits. \<open>ClientLink\<close> puts the client and central together.
    \<^item> \<open>EdgeWorker\<close>, \<open>EdgeProps\<close>, \<open>EdgeQueue\<close>: the SDK of edge workers (\<^verbatim>\<open>../sdk/edge-worker/src\<close>),
      whose results wait in a durable queue; \<open>EdgeProps\<close> is about its turns, \<open>EdgeQueue\<close> about the queue, and
      \<open>EdgeLink\<close> puts the worker and central together.
    \<^item> \<open>Examples\<close>: records and worlds at which witnesses evaluate; it models no code.

  \<^bold>\<open>Conventions.\<close> An operation maps the world to a thrown \<open>error\<close> or a result, and a new world. Each call of the
  clock and of the UUID source is a reading of its own. A name ending in \<open>Inv\<close> is a theory of invariants, one in
  \<open>Props\<close> holds the properties of a component. An optional value is an \<open>option\<close>, \<^verbatim>\<open>undefined\<close> is \<open>None\<close>,
  numbers that count are \<open>int\<close> (the doubles of the source are exact there), times are milliseconds, labels are
  entries in order, strings are lists of code units below 256. A value of type \<^verbatim>\<open>unknown\<close> is a \<open>json\<close>.

  \<^bold>\<open>Concurrency and fuel.\<close> An operation with a compare-and-set loop takes a list of what other tasks do to the world
  before each attempt (\<open>tasks\<close>). The list is the only fuel: its end is the end of the interference, and \<open>None\<close> is
  an attempt lost after that, which the progress lemmas exclude, since a write that nothing disturbs succeeds. The theorems about these
  operations prove that a result is returned for every list whose members make progress
  themselves (\<open>rely\<close>), so no bound is chosen. Pairing requests, the sidecar and the edge worker are step relations instead. Where the
  code runs operations of one kind one after the other (promise tails), the model runs one at a time.

  \<^bold>\<open>Parameters.\<close> SHA-256 and HMAC, JSON and URL parsing, \<^verbatim>\<open>localeCompare\<close>, the text of errors, the issuer
  of connection URLs and tokens, the host adapters and the agents are arguments of the definitions that use them. Theorems assume
  nothing of them unless their statement says so.

  \<^bold>\<open>What the lemmas show.\<close> Each component has a well-formedness invariant and lemmas that every operation keeps it,
  under interference where it has any; on these rest the properties, which are marked with a number in the text before
  them. They are mostly about what must hold across operations and crashes of order: an invite is redeemed once, a
  question is answered once, a call's result is final, logs stay in order, a lease fences stale reports, a device's
  labels are earned, a delegation is a queue, a client shows the log as it is, a saved result is kept until it is acknowledged. Lemmas beside them show where the code falls short of its comments.

  \<^bold>\<open>Not modelled.\<close> The process entry points (environment variables and signals), the adapters for Docker, Foundry
  and the Copilot SDK and the Web PubSub library (calls of external services), the image analysis of the
  edge worker's camera agent, the configuration files (file input), the audit and
  authorization controllers (nothing calls them), the sample applications (user interfaces), files torn by
  a crash in the middle of a write, and the order of a directory's entries, which the properties do not depend on.
\<close>

end
